(* ===== verification/Prelude.thy ===== *)
theory Prelude
  imports Main "HOL-Library.Word" "HOL-Library.Signed_Division"
begin

unbundle bit_operations_syntax

text \<open>
  What every component of the development shares: the names of the C integer types, byte
  buffers with \<open>memcpy\<close> into them, the little-endian and big-endian byte encodings the on-disk
  structures use, and the view of a storage medium as a function from byte addresses to bytes.
\<close>

section \<open>C integer types\<close>

type_synonym u8 = "8 word"
type_synonym u16 = "16 word"
type_synonym u32 = "32 word"
type_synonym u64 = "64 word"
type_synonym byte = "8 word"
type_synonym bytes = "byte list"
type_synonym medium = "nat \<Rightarrow> byte"

text \<open>The \<open>errno\<close> values the sources set or return (there negated).\<close>

datatype errno = EOK | ENODEV | ETIMEDOUT | EPIPE | EIO | EILSEQ | ENAMETOOLONG | ENOENT
  | ENOTDIR | EISDIR | EEXIST | ENOTEMPTY | ENOSPC | EINVAL | EROFS | EFBIG | ENOMEM

named_theorems enc_simps \<open>lengths and elements of byte encodings\<close>
named_theorems medium_simps \<open>reading back what was written to a medium\<close>
named_theorems cdiv_simps \<open>C division on operands that are not negative\<close>

text \<open>C's division truncates towards zero; on operands that are not negative it is \<open>div\<close>.\<close>

lemma sdiv_nonneg [cdiv_simps]: "0 \<le> a \<Longrightarrow> 0 \<le> b \<Longrightarrow> a sdiv b = a div (b :: int)"
  by (cases "a = 0"; cases "b = 0") (auto simp: signed_divide_int_def)

lemma smod_nonneg [cdiv_simps]: "0 \<le> a \<Longrightarrow> 0 \<le> b \<Longrightarrow> a smod b = a mod (b :: int)"
  by (cases "a = 0"; cases "b = 0") (auto simp: signed_modulo_int_def)

text \<open>The macros \<open>DIV_ROUND_UP\<close> and \<open>ROUND_UP\<close> of exfat.h on signed operands.\<close>

definition DIV_ROUND_UP :: "int \<Rightarrow> int \<Rightarrow> int" where
  "DIV_ROUND_UP x d = (x + d - 1) sdiv d"

definition ROUND_UP :: "int \<Rightarrow> int \<Rightarrow> int" where
  "ROUND_UP x d = DIV_ROUND_UP x d * d"

lemma DIV_ROUND_UP_pos: "0 \<le> x \<Longrightarrow> 0 < d \<Longrightarrow> DIV_ROUND_UP x d = (x + d - 1) div d"
  by (simp add: DIV_ROUND_UP_def cdiv_simps)

lemma ROUND_UP_ge: "0 \<le> x \<Longrightarrow> 0 < d \<Longrightarrow> x \<le> ROUND_UP x d"
proof -
  assume "0 \<le> x" "0 < d"
  then have "(x + d - 1) mod d < d" and "(x + d - 1) div d * d + (x + d - 1) mod d = x + d - 1"
    by simp_all
  then have "x \<le> (x + d - 1) div d * d" by linarith
  then show ?thesis
    using \<open>0 \<le> x\<close> \<open>0 < d\<close> by (simp add: ROUND_UP_def DIV_ROUND_UP_pos)
qed

lemma ROUND_UP_less: "0 \<le> x \<Longrightarrow> 0 < d \<Longrightarrow> ROUND_UP x d < x + d"
proof -
  assume "0 \<le> x" "0 < d"
  then have "0 \<le> (x + d - 1) mod d" and "(x + d - 1) div d * d + (x + d - 1) mod d = x + d - 1"
    by simp_all
  then have "(x + d - 1) div d * d < x + d" by linarith
  then show ?thesis
    using \<open>0 \<le> x\<close> \<open>0 < d\<close> by (simp add: ROUND_UP_def DIV_ROUND_UP_pos)
qed

lemma ROUND_UP_dvd: "d dvd ROUND_UP x d"
  by (simp add: ROUND_UP_def)

lemma ROUND_UP_add_dvd:
  assumes "d dvd a" "0 \<le> a" "0 \<le> x" "0 < d"
  shows "ROUND_UP (a + x) d = a + ROUND_UP x d"
proof -
  obtain k where k: "a = d * k" using assms(1) by blast
  have "d * k + x + d - 1 = (x + d - 1) + k * d" by simp
  then have "(d * k + x + d - 1) div d = k + (x + d - 1) div d"
    using assms(4) by (simp only: div_mult_self1)
  then show ?thesis using assms by (simp add: ROUND_UP_def DIV_ROUND_UP_pos k algebra_simps)
qed

lemma DIV_ROUND_UP_bounds:
  assumes "0 \<le> x" "0 < d"
  shows "x \<le> DIV_ROUND_UP x d * d" "DIV_ROUND_UP x d * d < x + d" "0 \<le> DIV_ROUND_UP x d"
  using assms ROUND_UP_ge [of x d] ROUND_UP_less [of x d]
  by (simp_all add: ROUND_UP_def DIV_ROUND_UP_pos pos_imp_zdiv_nonneg_iff)

lemma DIV_ROUND_UP_pos_iff: "0 < x \<Longrightarrow> 0 < d \<Longrightarrow> 0 < DIV_ROUND_UP x d"
  using DIV_ROUND_UP_bounds [of x d] by (metis less_le_not_le linorder_not_le mult_nonpos_nonneg order_trans)

section \<open>Byte buffers\<close>

text \<open>\<open>patch off xs buf\<close> is the buffer after \<open>memcpy(buf + off, xs, length xs)\<close>.\<close>

definition patch :: "nat \<Rightarrow> 'a list \<Rightarrow> 'a list \<Rightarrow> 'a list" where
  "patch off xs buf = take off buf @ xs @ drop (off + length xs) buf"

definition seg :: "nat \<Rightarrow> nat \<Rightarrow> 'a list \<Rightarrow> 'a list" where
  "seg off n buf = take n (drop off buf)"

lemma length_patch [simp]:
  "off + length xs \<le> length buf \<Longrightarrow> length (patch off xs buf) = length buf"
  by (simp add: patch_def)

lemma length_seg [simp]: "off + n \<le> length buf \<Longrightarrow> length (seg off n buf) = n"
  by (simp add: seg_def)

lemma patch_Nil [simp]: "patch off [] buf = buf"
  by (simp add: patch_def)

lemma patch_whole: "length xs = length buf \<Longrightarrow> patch 0 xs buf = xs"
  by (simp add: patch_def)

lemma nth_patch:
  assumes "off + length xs \<le> length buf" "i < length buf"
  shows "patch off xs buf ! i
    = (if off \<le> i \<and> i < off + length xs then xs ! (i - off) else buf ! i)"
  using assms by (auto simp: patch_def nth_append min_def)

lemma nth_seg: "i < n \<Longrightarrow> off + n \<le> length buf \<Longrightarrow> seg off n buf ! i = buf ! (off + i)"
  by (simp add: seg_def)

lemma seg_patch_same:
  "off + length xs \<le> length buf \<Longrightarrow> n = length xs \<Longrightarrow> seg off n (patch off xs buf) = xs"
  by (simp add: seg_def patch_def)

lemma seg_patch_disjoint:
  assumes "off + length xs \<le> length buf" "a + n \<le> length buf"
    "a + n \<le> off \<or> off + length xs \<le> a"
  shows "seg a n (patch off xs buf) = seg a n buf"
  using assms by (intro nth_equalityI) (auto simp: nth_seg nth_patch)

lemma patch_append:
  "off + length xs + length ys \<le> length buf \<Longrightarrow>
   patch (off + length xs) ys (patch off xs buf) = patch off (xs @ ys) buf"
  by (simp add: patch_def ac_simps)

section \<open>Byte encodings of integers\<close>

definition le16 :: "u16 \<Rightarrow> bytes" where
  "le16 w = [ucast w, ucast (drop_bit 8 w)]"

definition le32 :: "u32 \<Rightarrow> bytes" where
  "le32 w = [ucast w, ucast (drop_bit 8 w), ucast (drop_bit 16 w), ucast (drop_bit 24 w)]"

definition le64 :: "u64 \<Rightarrow> bytes" where
  "le64 w = [ucast w, ucast (drop_bit 8 w), ucast (drop_bit 16 w), ucast (drop_bit 24 w),
     ucast (drop_bit 32 w), ucast (drop_bit 40 w), ucast (drop_bit 48 w), ucast (drop_bit 56 w)]"

definition rd16 :: "bytes \<Rightarrow> u16" where
  "rd16 b = ucast (b ! 0) OR push_bit 8 (ucast (b ! 1))"

definition rd32 :: "bytes \<Rightarrow> u32" where
  "rd32 b = ucast (b ! 0) OR push_bit 8 (ucast (b ! 1)) OR push_bit 16 (ucast (b ! 2))
     OR push_bit 24 (ucast (b ! 3))"

definition rd64 :: "bytes \<Rightarrow> u64" where
  "rd64 b = ucast (b ! 0) OR push_bit 8 (ucast (b ! 1)) OR push_bit 16 (ucast (b ! 2))
     OR push_bit 24 (ucast (b ! 3)) OR push_bit 32 (ucast (b ! 4)) OR push_bit 40 (ucast (b ! 5))
     OR push_bit 48 (ucast (b ! 6)) OR push_bit 56 (ucast (b ! 7))"

text \<open>The big-endian 32-bit number a SCSI READ CAPACITY reply holds.\<close>

definition rdbe32 :: "bytes \<Rightarrow> u32" where
  "rdbe32 b = push_bit 24 (ucast (b ! 0)) OR push_bit 16 (ucast (b ! 1))
     OR push_bit 8 (ucast (b ! 2)) OR ucast (b ! 3)"

lemma length_le16 [simp, enc_simps]: "length (le16 w) = 2" by (simp add: le16_def)
lemma length_le32 [simp, enc_simps]: "length (le32 w) = 4" by (simp add: le32_def)
lemma length_le64 [simp, enc_simps]: "length (le64 w) = 8" by (simp add: le64_def)

lemma bit_byte_at:
  fixes w :: "'a::len word"
  shows "bit (push_bit k (ucast (ucast (drop_bit k w) :: u8)) :: 'a word) n
    \<longleftrightarrow> k \<le> n \<and> n < k + 8 \<and> bit w n"
  by (auto simp: bit_simps dest: bit_imp_le_length)

lemma bit_byte_0:
  fixes w :: "'a::len word"
  shows "bit (ucast (ucast w :: u8) :: 'a word) n \<longleftrightarrow> n < 8 \<and> bit w n"
  by (auto simp: bit_simps dest: bit_imp_le_length)

lemmas bit_bytes = bit_byte_at bit_byte_0 bit_or_iff

lemma rd16_le16 [simp]: "rd16 (le16 w) = w"
proof (rule bit_word_eqI)
  fix n assume "n < LENGTH(16)"
  then show "bit (rd16 (le16 w)) n = bit w n"
    by (cases "bit w n") (simp_all add: rd16_def le16_def bit_bytes, arith)
qed

lemma rd32_le32 [simp]: "rd32 (le32 w) = w"
proof (rule bit_word_eqI)
  fix n assume "n < LENGTH(32)"
  then show "bit (rd32 (le32 w)) n = bit w n"
    by (cases "bit w n") (simp_all add: rd32_def le32_def bit_bytes, arith)
qed

lemma rd64_le64 [simp]: "rd64 (le64 w) = w"
proof (rule bit_word_eqI)
  fix n assume "n < LENGTH(64)"
  then show "bit (rd64 (le64 w)) n = bit w n"
    by (cases "bit w n") (simp_all add: rd64_def le64_def bit_bytes, arith)
qed

lemma rd_append [simp]:
  "rd16 (le16 w @ xs) = w" "rd32 (le32 v @ xs) = v" "rd64 (le64 u @ xs) = u"
proof -
  have "rd16 (le16 w @ xs) = rd16 (le16 w)" "rd32 (le32 v @ xs) = rd32 (le32 v)"
    "rd64 (le64 u @ xs) = rd64 (le64 u)"
    by (simp_all add: rd16_def rd32_def rd64_def le16_def le32_def le64_def)
  then show "rd16 (le16 w @ xs) = w" "rd32 (le32 v @ xs) = v" "rd64 (le64 u @ xs) = u" by simp_all
qed

section \<open>Word arithmetic that does not wrap\<close>

lemma unat_add_of_nat:
  fixes c :: "'a::len word"
  assumes "unat c + n < 2 ^ LENGTH('a)"
  shows "unat (c + of_nat n) = unat c + n"
proof -
  have "unat (of_nat n :: 'a word) = n"
    using assms by (simp add: unsigned_of_nat take_bit_nat_eq_self)
  then show ?thesis using assms by (simp add: unat_word_ariths)
qed

lemma unat_of_int_small:
  assumes "0 \<le> x" "x < 2 ^ LENGTH('a)"
  shows "unat (word_of_int x :: 'a::len word) = nat x"
  using assms by (simp add: unsigned_of_int take_bit_int_eq_self)

lemma uint_of_int_small:
  assumes "0 \<le> x" "x < 2 ^ LENGTH('a)"
  shows "uint (word_of_int x :: 'a::len word) = x"
  using assms by (simp add: uint_word_of_int_eq take_bit_int_eq_self)

section \<open>Equality of words bit by bit\<close>

lemma less_Suc_elim: "(\<forall>n < numeral k. P n) \<longleftrightarrow> (\<forall>n < pred_numeral k. P n) \<and> P (pred_numeral k)"
  by (simp add: numeral_eq_Suc less_Suc_eq all_conj_distrib disj_imp) auto

lemma eq_u8_bits: "(a :: u8) = b \<longleftrightarrow> (\<forall>n<8. bit a n \<longleftrightarrow> bit b n)"
  by (auto intro: bit_word_eqI)

lemma eq_u32_bits: "(a :: u32) = b \<longleftrightarrow> (\<forall>n<32. bit a n \<longleftrightarrow> bit b n)"
  by (auto intro: bit_word_eqI)

lemma bits_below:
  fixes w :: "'a::len word"
  assumes "unat w < 2 ^ k" "k \<le> n"
  shows "\<not> bit w n"
proof -
  have "take_bit k (unat w) = unat w" using assms by (simp add: take_bit_nat_eq_self_iff)
  then have "bit (unat w) n = bit (take_bit k (unat w)) n" by simp
  then show ?thesis using assms(2) by (simp add: bit_take_bit_iff bit_unsigned_iff)
qed

lemma eq_u16_bits: "(a :: u16) = b \<longleftrightarrow> (\<forall>n<16. bit a n \<longleftrightarrow> bit b n)"
  by (auto intro: bit_word_eqI)

section \<open>Bitmaps and scans\<close>

text \<open>Bits of a bitmap held as bytes.\<close>

definition byte_bit :: "bytes \<Rightarrow> nat \<Rightarrow> bool" where
  "byte_bit bs i \<longleftrightarrow> bit (bs ! (i div 8)) (i mod 8)"

lemma find_append: "find P (xs @ ys) = (case find P xs of None \<Rightarrow> find P ys | Some x \<Rightarrow> Some x)"
  by (induction xs) auto

section \<open>Storage media\<close>

definition mwrite :: "medium \<Rightarrow> nat \<Rightarrow> bytes \<Rightarrow> medium" where
  "mwrite m a xs = (\<lambda>i. if a \<le> i \<and> i < a + length xs then xs ! (i - a) else m i)"

definition mread :: "medium \<Rightarrow> nat \<Rightarrow> nat \<Rightarrow> bytes" where
  "mread m a n = map (\<lambda>i. m (a + i)) [0..<n]"

lemma length_mread [simp, medium_simps]: "length (mread m a n) = n"
  by (simp add: mread_def)

lemma nth_mread: "i < n \<Longrightarrow> mread m a n ! i = m (a + i)"
  by (simp add: mread_def)

lemma mwrite_Nil [simp, medium_simps]: "mwrite m a [] = m"
  by (rule ext) (auto simp: mwrite_def)

lemma mread_mwrite_same [simp, medium_simps]: "mread (mwrite m a xs) a (length xs) = xs"
  by (rule nth_equalityI) (simp_all add: nth_mread mwrite_def)

lemma mread_mwrite_disjoint [medium_simps]:
  "a + n \<le> b \<or> b + length xs \<le> a \<Longrightarrow> mread (mwrite m b xs) a n = mread m a n"
  by (rule nth_equalityI) (auto simp: nth_mread mwrite_def)

lemma mread_mwrite_inner:
  "b \<le> a \<Longrightarrow> a + n \<le> b + length xs \<Longrightarrow> mread (mwrite m b xs) a n = seg (a - b) n xs"
  by (rule nth_equalityI) (auto simp: nth_mread mwrite_def nth_seg)

lemma mwrite_append [medium_simps]:
  "mwrite (mwrite m a xs) (a + length xs) ys = mwrite m a (xs @ ys)"
  by (rule ext) (auto simp: mwrite_def nth_append)

lemma mwrite_patch:
  "off + length ys \<le> length xs \<Longrightarrow>
   mwrite m a (patch off ys xs) = mwrite (mwrite m a xs) (a + off) ys"
  by (rule ext) (auto simp: mwrite_def nth_patch)

lemma mread_Suc_app: "mread m a (n + k) = mread m a n @ mread m (a + n) k"
  by (rule nth_equalityI) (auto simp: nth_mread nth_append)

lemma seg_mread: "off + n \<le> k \<Longrightarrow> seg off n (mread m a k) = mread m (a + off) n"
  by (rule nth_equalityI) (auto simp: nth_mread nth_seg add.assoc)

lemma mwrite_mread_id [simp]: "mwrite m a (mread m a n) = m"
  by (rule ext) (auto simp: mwrite_def nth_mread)

lemma sint_of_nat_small: "n < 2 ^ 63 \<Longrightarrow> sint (of_nat n :: u64) = int n"
  by (simp add: signed_of_nat signed_take_bit_int_eq_self)

end
