(* ===== verification/Scsi.thy ===== *)
theory Scsi
  imports Prelude
begin

text \<open>
  The USB mass-storage driver of usb_scsi.cpp: Bulk-Only Transport commands, the write-back
  cache, byte-granular reads and writes on top of READ(10)/WRITE(10), and synchronisation.
  libusb (and the stick behind it) is the parameter \<open>'w usb\<close>: each transfer maps the state of
  the outside world to a return code, the bytes received, and the next world. Its last two
  operations are called by native-lib.cpp at the end of a run.
\<close>

section \<open>The USB interface the driver calls\<close>

record 'w usb =
  bulk_out :: "u8 \<Rightarrow> bytes \<Rightarrow> 'w \<Rightarrow> int \<times> 'w"
  bulk_in :: "u8 \<Rightarrow> nat \<Rightarrow> 'w \<Rightarrow> int \<times> bytes \<times> 'w"
  clear_halt :: "u8 \<Rightarrow> 'w \<Rightarrow> 'w"
  auto_detach :: "'w \<Rightarrow> 'w"
  claim_interface :: "u8 \<Rightarrow> 'w \<Rightarrow> 'w"
  malloc_ok :: "nat \<Rightarrow> 'w \<Rightarrow> bool"
  libusb_close :: "'w \<Rightarrow> 'w"
  libusb_exit :: "'w \<Rightarrow> 'w"

definition LIBUSB_ERROR_NO_DEVICE :: int where "LIBUSB_ERROR_NO_DEVICE = -4"
definition LIBUSB_ERROR_TIMEOUT :: int where "LIBUSB_ERROR_TIMEOUT = -7"
definition LIBUSB_ERROR_PIPE :: int where "LIBUSB_ERROR_PIPE = -9"

section \<open>Driver state\<close>

text \<open>The file-scope variables of usb_scsi.cpp, and the outside world.\<close>

record 'w drv =
  g_usb_handle :: bool
  g_ep_in :: u8
  g_ep_out :: u8
  g_tag :: u32
  g_sector_count :: u64
  g_sector_size :: u32
  g_cur_pos :: int
  g_drive_offset_sectors :: u64
  g_partition_sectors :: u64
  g_partition_type :: int
  g_bounce_buffer :: bytes
  g_write_cache :: "bytes option"
  g_cache_lba :: u64
  g_cache_sectors :: u32
  g_total_io_bytes :: int
  g_last_log_io_bytes :: int
  g_sync_cache_supported :: bool
  g_errno :: errno
  g_world :: 'w

definition K_MAX_CACHE_SECTORS :: u32 where "K_MAX_CACHE_SECTORS = 2048"

section \<open>Bulk-Only Transport\<close>

text \<open>The errno bookkeeping of \<open>usb_transfer\<close> after a transfer returned \<open>res\<close>.\<close>

definition usb_note :: "'w usb \<Rightarrow> u8 \<Rightarrow> int \<Rightarrow> 'w drv \<Rightarrow> 'w drv" where
  "usb_note u ep res d =
    (if res = 0 then d
     else if res = LIBUSB_ERROR_NO_DEVICE then d\<lparr>g_errno := ENODEV\<rparr>
     else if res = LIBUSB_ERROR_TIMEOUT then d\<lparr>g_errno := ETIMEDOUT\<rparr>
     else if res = LIBUSB_ERROR_PIPE
       then d\<lparr>g_world := clear_halt u ep (g_world d), g_errno := EPIPE\<rparr>
     else d\<lparr>g_errno := EIO\<rparr>)"

definition usb_transfer_out :: "'w usb \<Rightarrow> u8 \<Rightarrow> bytes \<Rightarrow> 'w drv \<Rightarrow> int \<times> 'w drv" where
  "usb_transfer_out u ep data d =
    (if \<not> g_usb_handle d then (LIBUSB_ERROR_NO_DEVICE, d\<lparr>g_errno := ENODEV\<rparr>)
     else let (res, w) = bulk_out u ep data (g_world d)
          in (res, usb_note u ep res (d\<lparr>g_world := w\<rparr>)))"

text \<open>An IN transfer fills the buffer from its start with the bytes that arrived.\<close>

definition usb_transfer_in ::
  "'w usb \<Rightarrow> u8 \<Rightarrow> bytes \<Rightarrow> nat \<Rightarrow> 'w drv \<Rightarrow> int \<times> bytes \<times> 'w drv" where
  "usb_transfer_in u ep buf len d =
    (if \<not> g_usb_handle d then (LIBUSB_ERROR_NO_DEVICE, buf, d\<lparr>g_errno := ENODEV\<rparr>)
     else let (res, got, w) = bulk_in u ep len (g_world d)
          in (res, patch 0 got buf, usb_note u ep res (d\<lparr>g_world := w\<rparr>)))"

text \<open>The 31-byte command block wrapper.\<close>

definition cbw_bytes :: "u32 \<Rightarrow> u32 \<Rightarrow> u8 \<Rightarrow> bytes \<Rightarrow> bytes" where
  "cbw_bytes tag len flags cmd = le32 0x43425355 @ le32 tag @ le32 len
     @ [flags, 0, of_nat (length cmd)] @ cmd @ replicate (16 - length cmd) 0"

definition csw_status :: "bytes \<Rightarrow> u8" where
  "csw_status csw = csw ! 12"

text \<open>The data phase: skipped for an empty or null buffer.\<close>

definition scsi_data_phase ::
  "'w usb \<Rightarrow> u8 \<Rightarrow> bytes option \<Rightarrow> u32 \<Rightarrow> 'w drv \<Rightarrow> int \<times> bytes option \<times> 'w drv" where
  "scsi_data_phase u direction data len d =
    (case data of
       None \<Rightarrow> (0, data, d)
     | Some buf \<Rightarrow>
         if len = 0 then (0, data, d)
         else if direction = 0x80 then
           let (res, buf', d') = usb_transfer_in u (g_ep_in d) buf (unat len) d
           in (res, Some buf', d')
         else
           let (res, d') = usb_transfer_out u (g_ep_out d) (take (unat len) buf) d
           in (res, data, d'))"

text \<open>REQUEST SENSE after a failed command: its outcome only feeds the log.\<close>

definition request_sense :: "'w usb \<Rightarrow> 'w drv \<Rightarrow> 'w drv" where
  "request_sense u d =
    (let scbw = cbw_bytes (g_tag d) 18 0x80 [0x03, 0, 0, 0, 18, 0];
         (res, d1) = usb_transfer_out u (g_ep_out d) scbw (d\<lparr>g_tag := g_tag d + 1\<rparr>)
     in if res \<noteq> 0 then d1
        else let (_, _, d2) = usb_transfer_in u (g_ep_in d1) (replicate 18 0) 18 d1;
                 (_, _, d3) = usb_transfer_in u (g_ep_in d2) (replicate 13 0) 13 d2
             in d3)"

text \<open>
  \<open>scsi_command\<close>: returns the C return code, the data buffer afterwards (\<open>None\<close> is the null
  pointer) and the driver state. SYNCHRONIZE CACHE (0x35) is skipped once it has failed.
\<close>

definition scsi_command ::
  "'w usb \<Rightarrow> bytes \<Rightarrow> u8 \<Rightarrow> bytes option \<Rightarrow> u32 \<Rightarrow> 'w drv \<Rightarrow> int \<times> bytes option \<times> 'w drv" where
  "scsi_command u cmd direction data len d =
    (if cmd ! 0 = 0x35 \<and> \<not> g_sync_cache_supported d then (0, data, d)
     else
       let cbw = cbw_bytes (g_tag d) len direction cmd;
           (r1, d1) = usb_transfer_out u (g_ep_out d) cbw (d\<lparr>g_tag := g_tag d + 1\<rparr>)
       in if r1 \<noteq> 0 then (-1, data, d1)
       else let (r2, data2, d2) = scsi_data_phase u direction data len d1
       in if r2 \<noteq> 0 then (-1, data2, d2)
       else let (r3, csw, d3) = usb_transfer_in u (g_ep_in d2) (replicate 13 0) 13 d2
       in if r3 \<noteq> 0 then (-1, data2, d3)
       else if csw_status csw = 0 then (0, data2, d3)
       else if cmd ! 0 = 0x35 then (0, data2, d3\<lparr>g_sync_cache_supported := False\<rparr>)
       else (-1, data2, (request_sense u d3)\<lparr>g_errno := EIO\<rparr>))"

text \<open>The ten-byte command blocks the driver builds: opcode, big-endian LBA, sector count.\<close>

definition cdb10 :: "u8 \<Rightarrow> u64 \<Rightarrow> u32 \<Rightarrow> bytes" where
  "cdb10 opcode lba n =
    [opcode, 0, ucast (drop_bit 24 lba), ucast (drop_bit 16 lba), ucast (drop_bit 8 lba),
     ucast lba, 0, ucast (drop_bit 8 n), ucast n, 0]"

abbreviation READ10 :: u8 where "READ10 \<equiv> 0x28"
abbreviation WRITE10 :: u8 where "WRITE10 \<equiv> 0x2a"

definition sync_cmd :: bytes where
  "sync_cmd = [0x35, 0, 0, 0, 0, 0, 0, 0, 0, 0]"

section \<open>The write cache\<close>

text \<open>
  The buffer the cache pointer refers to. A fresh \<open>malloc\<close> buffer is modelled as zeroes; only
  bytes already copied into it are ever sent.
\<close>

definition cache_buf :: "'w drv \<Rightarrow> bytes" where
  "cache_buf d = (case g_write_cache d of None \<Rightarrow> [] | Some c \<Rightarrow> c)"

definition scsi_flush_cache_internal :: "'w usb \<Rightarrow> 'w drv \<Rightarrow> int \<times> 'w drv" where
  "scsi_flush_cache_internal u d =
    (if g_cache_sectors d = 0 \<or> g_write_cache d = None then (0, d)
     else let (res, _, d1) = scsi_command u (cdb10 WRITE10 (g_cache_lba d) (g_cache_sectors d)) 0
                               (g_write_cache d) (g_cache_sectors d * g_sector_size d) d
          in (res, d1\<lparr>g_cache_sectors := 0\<rparr>))"

section \<open>Byte-granular input and output\<close>

text \<open>
  One iteration of the loop of \<open>scsi_io_internal\<close> in each direction. \<open>pos\<close> is
  \<open>actual_offset + total_done\<close>; \<open>rem\<close> is the 32-bit \<open>remaining\<close>. The result is the number of
  bytes this iteration adds to \<open>total_done\<close>, or \<open>None\<close> for \<open>return -1\<close>.
\<close>

definition io_lba :: "'w drv \<Rightarrow> int \<Rightarrow> u32" where
  "io_lba d pos = word_of_int (pos sdiv uint (g_sector_size d))"

definition io_offset_in_sector :: "'w drv \<Rightarrow> int \<Rightarrow> u32" where
  "io_offset_in_sector d pos = word_of_int (pos smod uint (g_sector_size d))"

definition read_sectors :: "u32 \<Rightarrow> u32 \<Rightarrow> u32 \<Rightarrow> u32" where
  "read_sectors ss rem ois =
    (let sectors = (rem + ois + ss - 1) div ss in if sectors > 2048 then 2048 else sectors)"

definition scsi_read_step ::
  "'w usb \<Rightarrow> int \<Rightarrow> u32 \<Rightarrow> nat \<Rightarrow> bytes \<Rightarrow> 'w drv \<Rightarrow> u32 option \<times> bytes \<times> 'w drv" where
  "scsi_read_step u pos rem total_done buf d =
    (let ss = g_sector_size d;
         ois = io_offset_in_sector d pos;
         (_, d1) = scsi_flush_cache_internal u d;
         sectors = read_sectors ss rem ois;
         (res, bb, d2) = scsi_command u (cdb10 READ10 (ucast (io_lba d pos)) sectors) 0x80
                           (Some (g_bounce_buffer d1)) (sectors * ss) d1;
         d3 = d2\<lparr>g_bounce_buffer := the bb\<rparr>
     in if res \<noteq> 0 then (None, buf, d3)
        else let can_copy = sectors * ss - ois;
                 to_copy = (if rem < can_copy then rem else can_copy)
             in (Some to_copy,
                 patch total_done (seg (unat ois) (unat to_copy) (g_bounce_buffer d3)) buf, d3))"

definition cache_can_add :: "'w drv \<Rightarrow> u32 \<Rightarrow> u32 \<Rightarrow> bool" where
  "cache_can_add d lba n \<longleftrightarrow> g_cache_sectors d > 0
     \<and> ucast lba = g_cache_lba d + ucast (g_cache_sectors d)
     \<and> g_cache_sectors d + n \<le> K_MAX_CACHE_SECTORS"

definition scsi_write_step ::
  "'w usb \<Rightarrow> int \<Rightarrow> u32 \<Rightarrow> nat \<Rightarrow> bytes \<Rightarrow> 'w drv \<Rightarrow> u32 option \<times> 'w drv" where
  "scsi_write_step u pos rem total_done buf d =
    (let ss = g_sector_size d;
         lba = io_lba d pos;
         ois = io_offset_in_sector d pos
     in if ois = 0 \<and> rem \<ge> ss then
          let n0 = rem div ss;
              n = (if n0 > 2048 then 2048 else n0);
              chunk = seg total_done (unat (n * ss)) buf
          in if cache_can_add d lba n then
               (Some (n * ss),
                d\<lparr>g_write_cache :=
                    Some (patch (unat (g_cache_sectors d * ss)) chunk (cache_buf d)),
                  g_cache_sectors := g_cache_sectors d + n\<rparr>)
             else
               let (_, d1) = scsi_flush_cache_internal u d;
                   size = unat (K_MAX_CACHE_SECTORS * ss);
                   d2 = (if g_write_cache d1 = None \<and> malloc_ok u size (g_world d1)
                         then d1\<lparr>g_write_cache := Some (replicate size 0)\<rparr> else d1)
               in if g_write_cache d2 = None then (None, d2)
                  else (Some (n * ss),
                        d2\<lparr>g_cache_lba := ucast lba,
                           g_write_cache := Some (patch 0 chunk (cache_buf d2)),
                           g_cache_sectors := n\<rparr>)
        else
          let (_, d1) = scsi_flush_cache_internal u d;
              to_write = (if ss - ois < rem then ss - ois else rem);
              (r1, bb, d2) = scsi_command u (cdb10 READ10 (ucast lba) 1) 0x80
                               (Some (g_bounce_buffer d1)) ss d1;
              d3 = d2\<lparr>g_bounce_buffer := the bb\<rparr>
          in if r1 \<noteq> 0 then (None, d3)
             else let d4 = d3\<lparr>g_bounce_buffer :=
                        patch (unat ois) (seg total_done (unat to_write) buf) (g_bounce_buffer d3)\<rparr>;
                      (r2, _, d5) = scsi_command u (cdb10 WRITE10 (ucast lba) 1) 0
                                      (Some (g_bounce_buffer d4)) ss d4
                  in if r2 \<noteq> 0 then (None, d5) else (Some to_write, d5))"

text \<open>
  The loops. \<open>None\<close> is not returning: a zero sector size (a division by zero) and a loop that
  makes no progress. The remaining count is truncated to 32 bits, as in the source.
\<close>

partial_function (option) scsi_read_loop ::
  "'w usb \<Rightarrow> int \<Rightarrow> int \<Rightarrow> int \<Rightarrow> bytes \<Rightarrow> 'w drv \<Rightarrow> (int \<times> bytes \<times> 'w drv) option" where
  "scsi_read_loop u base count total_done buf d =
    (if total_done < count then
       if g_sector_size d = 0 then None
       else case scsi_read_step u (base + total_done) (word_of_int (count - total_done))
                   (nat total_done) buf d of
              (None, buf', d') \<Rightarrow> Some (-1, buf', d')
            | (Some k, buf', d') \<Rightarrow> scsi_read_loop u base count (total_done + uint k) buf' d'
     else Some (total_done, buf, d))"

partial_function (option) scsi_write_loop ::
  "'w usb \<Rightarrow> int \<Rightarrow> int \<Rightarrow> int \<Rightarrow> bytes \<Rightarrow> 'w drv \<Rightarrow> (int \<times> 'w drv) option" where
  "scsi_write_loop u base count total_done buf d =
    (if total_done < count then
       if g_sector_size d = 0 then None
       else case scsi_write_step u (base + total_done) (word_of_int (count - total_done))
                   (nat total_done) buf d of
              (None, d') \<Rightarrow> Some (-1, d')
            | (Some k, d') \<Rightarrow> scsi_write_loop u base count (total_done + uint k) buf d'
     else Some (total_done, d))"

definition actual_offset :: "'w drv \<Rightarrow> int \<Rightarrow> int" where
  "actual_offset d offset =
     offset + sint (g_drive_offset_sectors d * ucast (g_sector_size d))"

text \<open>The progress counters updated after a transfer that succeeded.\<close>

definition io_account :: "int \<Rightarrow> 'w drv \<Rightarrow> 'w drv" where
  "io_account total_done d =
    (let d1 = d\<lparr>g_total_io_bytes := g_total_io_bytes d + total_done\<rparr>
     in if g_total_io_bytes d1 - g_last_log_io_bytes d1 > 10 * 1024 * 1024
        then d1\<lparr>g_last_log_io_bytes := g_total_io_bytes d1\<rparr> else d1)"

definition scsi_pread ::
  "'w usb \<Rightarrow> bytes \<Rightarrow> int \<Rightarrow> int \<Rightarrow> 'w drv \<Rightarrow> (int \<times> bytes \<times> 'w drv) option" where
  "scsi_pread u buf count offset d =
    (case scsi_read_loop u (actual_offset d offset) count 0 buf d of
       None \<Rightarrow> None
     | Some (res, buf', d') \<Rightarrow>
         Some (res, buf', if res = -1 then d' else io_account res d'))"

definition scsi_pwrite ::
  "'w usb \<Rightarrow> bytes \<Rightarrow> int \<Rightarrow> int \<Rightarrow> 'w drv \<Rightarrow> (int \<times> 'w drv) option" where
  "scsi_pwrite u buf count offset d =
    (case scsi_write_loop u (actual_offset d offset) count 0 buf d of
       None \<Rightarrow> None
     | Some (res, d') \<Rightarrow> Some (res, if res = -1 then d' else io_account res d'))"

definition usb_scsi_sync :: "'w usb \<Rightarrow> 'w drv \<Rightarrow> int \<times> 'w drv" where
  "usb_scsi_sync u d =
    (let (_, d1) = scsi_flush_cache_internal u d;
         (res, _, d2) = scsi_command u sync_cmd 0 None 0 d1
     in (res, d2))"

end
