(* ===== verification/ScsiDev.thy ===== *)
theory ScsiDev
  imports Scsi
begin

text \<open>
  The rest of usb_scsi.cpp's driver: finding the bulk endpoints and the capacity of the stick,
  the partition window, and the device operations handed to ntfs-3g and to the bridges.
\<close>

section \<open>Initialisation\<close>

record endpoint =
  bmAttributes :: u8
  bEndpointAddress :: u8

record iface =
  bInterfaceClass :: u8
  bInterfaceNumber :: u8
  endpoints :: "endpoint list"

text \<open>One turn of the endpoint loop, on the pair (\<open>g_ep_in\<close>, \<open>g_ep_out\<close>).\<close>

definition scan_endpoint :: "endpoint \<Rightarrow> u8 \<times> u8 \<Rightarrow> u8 \<times> u8" where
  "scan_endpoint ep eps =
    (if bmAttributes ep AND 0x03 = 0x02 then
       if bEndpointAddress ep AND 0x80 \<noteq> 0 then (bEndpointAddress ep, snd eps)
       else (fst eps, bEndpointAddress ep)
     else eps)"

fun scan_interfaces :: "'w usb \<Rightarrow> iface list \<Rightarrow> 'w drv \<Rightarrow> 'w drv" where
  "scan_interfaces u [] d = d"
| "scan_interfaces u (i # is) d =
    (if bInterfaceClass i = 0x08 then
       let (ein, eout) = fold scan_endpoint (endpoints i) (g_ep_in d, g_ep_out d)
       in d\<lparr>g_world := claim_interface u (bInterfaceNumber i) (g_world d),
             g_ep_in := ein, g_ep_out := eout\<rparr>
     else scan_interfaces u is d)"

fun test_unit_ready :: "'w usb \<Rightarrow> nat \<Rightarrow> 'w drv \<Rightarrow> 'w drv" where
  "test_unit_ready u 0 d = d"
| "test_unit_ready u (Suc tries) d =
    (let (res, _, d1) = scsi_command u [0, 0, 0, 0, 0, 0] 0 None 0 d
     in if res = 0 then d1 else test_unit_ready u tries d1)"

fun read_capacity :: "'w usb \<Rightarrow> nat \<Rightarrow> 'w drv \<Rightarrow> 'w drv" where
  "read_capacity u 0 d = d"
| "read_capacity u (Suc tries) d =
    (let (rc, out, d1) = scsi_command u [0x25, 0, 0, 0, 0, 0, 0, 0, 0, 0] 0x80
                            (Some (replicate 8 0)) 8 d
     in if rc = 0 then
          d1\<lparr>g_sector_size := rdbe32 (drop 4 (the out)),
             g_sector_count := ucast (rdbe32 (the out)) + 1\<rparr>
        else read_capacity u tries d1)"

text \<open>\<open>conf\<close> is the active configuration libusb reports, \<open>None\<close> if it cannot be read.\<close>

definition usb_scsi_init :: "'w usb \<Rightarrow> iface list option \<Rightarrow> 'w drv \<Rightarrow> 'w drv" where
  "usb_scsi_init u conf d =
    (let d1 = d\<lparr>g_usb_handle := True, g_drive_offset_sectors := 0, g_partition_sectors := 0,
               g_partition_type := 0, g_cur_pos := 0, g_total_io_bytes := 0,
               g_last_log_io_bytes := 0, g_world := auto_detach u (g_world d)\<rparr>
     in case conf of
          None \<Rightarrow> d1
        | Some ifaces \<Rightarrow>
            let d2 = scan_interfaces u ifaces (d1\<lparr>g_ep_in := 0, g_ep_out := 0\<rparr>)
            in if g_ep_in d2 = 0 \<or> g_ep_out d2 = 0 then d2
               else let (_, _, d3) = scsi_command u [0x12, 0, 0, 0, 36, 0] 0x80
                                       (Some (replicate 36 0)) 36 d2
                    in read_capacity u 5 (test_unit_ready u 3 d3))"

section \<open>The partition window\<close>

definition usb_scsi_set_partition_offset :: "u64 \<Rightarrow> 'w drv \<Rightarrow> 'w drv" where
  "usb_scsi_set_partition_offset sector_offset d = d\<lparr>g_drive_offset_sectors := sector_offset\<rparr>"

definition usb_scsi_set_partition_type :: "int \<Rightarrow> 'w drv \<Rightarrow> 'w drv" where
  "usb_scsi_set_partition_type type d = d\<lparr>g_partition_type := type\<rparr>"

definition usb_scsi_set_partition_size :: "u64 \<Rightarrow> 'w drv \<Rightarrow> 'w drv" where
  "usb_scsi_set_partition_size sectors d = d\<lparr>g_partition_sectors := sectors\<rparr>"

definition usb_scsi_get_usable_sectors :: "'w drv \<Rightarrow> u64" where
  "usb_scsi_get_usable_sectors d =
    (let usable = (if g_partition_sectors d = 0
                   then g_sector_count d - g_drive_offset_sectors d else g_partition_sectors d)
     in if g_partition_type d = 2 \<and> g_partition_sectors d = 0 then usable - 33 else usable)"

section \<open>Device operations\<close>

definition usb_scsi_read_internal ::
  "'w usb \<Rightarrow> bytes \<Rightarrow> int \<Rightarrow> 'w drv \<Rightarrow> (int \<times> bytes \<times> 'w drv) option" where
  "usb_scsi_read_internal u buf count d =
    (case scsi_pread u buf count (g_cur_pos d) d of
       None \<Rightarrow> None
     | Some (res, buf', d') \<Rightarrow>
         Some (res, buf', if res > 0 then d'\<lparr>g_cur_pos := g_cur_pos d' + res\<rparr> else d'))"

definition usb_scsi_write_internal ::
  "'w usb \<Rightarrow> bytes \<Rightarrow> int \<Rightarrow> 'w drv \<Rightarrow> (int \<times> 'w drv) option" where
  "usb_scsi_write_internal u buf count d =
    (case scsi_pwrite u buf count (g_cur_pos d) d of
       None \<Rightarrow> None
     | Some (res, d') \<Rightarrow>
         Some (res, if res > 0 then d'\<lparr>g_cur_pos := g_cur_pos d' + res\<rparr> else d'))"

text \<open>\<open>whence\<close>: \<open>SEEK_SET\<close> is 0, \<open>SEEK_CUR\<close> 1, \<open>SEEK_END\<close> 2; any other value leaves the
  position alone. ntfs-3g's seek and the bridges' seek differ in what the end is.\<close>

definition dev_seek :: "int \<Rightarrow> int \<Rightarrow> 'w drv \<Rightarrow> int \<times> 'w drv" where
  "dev_seek offset whence d =
    (let pos = (if whence = 0 then offset
                else if whence = 1 then g_cur_pos d + offset
                else if whence = 2 then
                  sint ((g_sector_count d - g_drive_offset_sectors d) * ucast (g_sector_size d))
                    + offset
                else g_cur_pos d)
     in (pos, d\<lparr>g_cur_pos := pos\<rparr>))"

definition usb_scsi_lseek_internal :: "int \<Rightarrow> int \<Rightarrow> 'w drv \<Rightarrow> int \<times> 'w drv" where
  "usb_scsi_lseek_internal offset whence d =
    (let pos = (if whence = 0 then offset
                else if whence = 1 then g_cur_pos d + offset
                else if whence = 2 then
                  sint (usb_scsi_get_usable_sectors d * ucast (g_sector_size d)) + offset
                else g_cur_pos d)
     in (pos, d\<lparr>g_cur_pos := pos\<rparr>))"

definition dev_stat_size :: "'w drv \<Rightarrow> u64" where
  "dev_stat_size d = usb_scsi_get_usable_sectors d * ucast (g_sector_size d)"

datatype ioctl_result =
    IoctlSize u64
  | IoctlSectorSize u32
  | IoctlGeometry u8 u8 u16 u64
  | IoctlUnsupported

definition dev_ioctl :: "u64 \<Rightarrow> 'w drv \<Rightarrow> ioctl_result" where
  "dev_ioctl request d =
    (if request = 0x80081272 \<or> request = 0x80041272 \<or> request = 0x1260
       then IoctlSize (usb_scsi_get_usable_sectors d * ucast (g_sector_size d))
     else if request = 0x1268 \<or> request = 0x4712 then IoctlSectorSize (g_sector_size d)
     else if request = 0x301
       then IoctlGeometry 64 32 (ucast (g_sector_count d div (64 * 32))) (g_drive_offset_sectors d)
     else IoctlUnsupported)"

section \<open>What initialisation keeps\<close>

definition same_cache :: "'w drv \<Rightarrow> 'w drv \<Rightarrow> bool" where
  "same_cache d d' \<longleftrightarrow> g_write_cache d' = g_write_cache d \<and> g_cache_lba d' = g_cache_lba d
     \<and> g_cache_sectors d' = g_cache_sectors d"

lemma same_cache_refl [simp]: "same_cache d d"
  by (simp add: same_cache_def)

lemma same_cache_trans: "same_cache a b \<Longrightarrow> same_cache b c \<Longrightarrow> same_cache a c"
  by (simp add: same_cache_def)

lemma usb_transfer_same_cache:
  "usb_transfer_out u ep data d = (r, d') \<Longrightarrow> same_cache d d'"
  "usb_transfer_in u ep buf len d = (r, buf', d') \<Longrightarrow> same_cache d d'"
  by (auto simp: usb_transfer_out_def usb_transfer_in_def usb_note_def same_cache_def
    split: prod.splits if_splits)

lemma request_sense_same_cache: "same_cache d (request_sense u d)"
  by (auto simp: request_sense_def Let_def split: prod.splits
    dest!: usb_transfer_same_cache) (auto simp: same_cache_def)

lemma scsi_data_phase_same_cache:
  "scsi_data_phase u dir data len d = (r, data', d') \<Longrightarrow> same_cache d d'"
  by (auto simp: scsi_data_phase_def split: option.splits if_splits prod.splits
    dest: usb_transfer_same_cache)

lemma scsi_command_same_cache:
  assumes "scsi_command u cmd dir data len d = (r, data', d')"
  shows "same_cache d d'"
proof -
  have sense: "same_cache a (request_sense u b)" if "same_cache a b" for a b :: "'a drv"
    using same_cache_trans [OF that request_sense_same_cache] .
  show ?thesis
    using assms unfolding scsi_command_def Let_def
    by (auto split: if_splits prod.splits dest!: usb_transfer_same_cache scsi_data_phase_same_cache)
       (use sense in \<open>auto simp: same_cache_def\<close>)
qed

lemma same_cache_update [simp]:
  "same_cache d (d'\<lparr>g_world := w\<rparr>) = same_cache d d'"
  "same_cache d (d'\<lparr>g_ep_in := a\<rparr>) = same_cache d d'"
  "same_cache d (d'\<lparr>g_ep_out := a\<rparr>) = same_cache d d'"
  "same_cache d (d'\<lparr>g_sector_size := ss\<rparr>) = same_cache d d'"
  "same_cache d (d'\<lparr>g_sector_count := sc\<rparr>) = same_cache d d'"
  by (simp_all add: same_cache_def)

lemma scan_interfaces_same_cache: "same_cache d (scan_interfaces u is d)"
  by (induction u "is" d rule: scan_interfaces.induct) (simp_all split: prod.splits)

lemma test_unit_ready_same_cache: "same_cache d (test_unit_ready u n d)"
  by (induction u n d rule: test_unit_ready.induct)
     (auto split: prod.splits dest: scsi_command_same_cache intro: same_cache_trans)

lemma read_capacity_same_cache: "same_cache d (read_capacity u n d)"
  by (induction u n d rule: read_capacity.induct)
     (auto split: prod.splits dest: scsi_command_same_cache intro: same_cache_trans)

lemma usb_scsi_init_same_cache: "same_cache d (usb_scsi_init u conf d)"
proof -
  define d1 where "d1 = d\<lparr>g_usb_handle := True, g_drive_offset_sectors := 0,
    g_partition_sectors := 0, g_partition_type := 0, g_cur_pos := 0, g_total_io_bytes := 0,
    g_last_log_io_bytes := 0, g_world := auto_detach u (g_world d)\<rparr>"
  have d1: "same_cache d d1" by (simp add: d1_def same_cache_def)
  show ?thesis
  proof (cases conf)
    case None
    then show ?thesis using d1 by (simp add: usb_scsi_init_def d1_def)
  next
    case (Some ifaces)
    define d2 where "d2 = scan_interfaces u ifaces (d1\<lparr>g_ep_in := 0, g_ep_out := 0\<rparr>)"
    obtain r out d3 where c: "scsi_command u [0x12, 0, 0, 0, 36, 0] 0x80 (Some (replicate 36 0)) 36 d2
        = (r, out, d3)" by (cases rule: prod_cases3)
    have "same_cache d (d1\<lparr>g_ep_in := 0, g_ep_out := 0\<rparr>)" using d1 by simp
    then have d2: "same_cache d d2"
      unfolding d2_def by (rule same_cache_trans [OF _ scan_interfaces_same_cache])
    have "same_cache d (read_capacity u 5 (test_unit_ready u 3 d3))"
      using d2 scsi_command_same_cache [OF c] test_unit_ready_same_cache read_capacity_same_cache
      by (blast intro: same_cache_trans)
    then show ?thesis
      using d2 c Some by (simp add: usb_scsi_init_def Let_def flip: d1_def d2_def)
  qed
qed

end
