(* ===== verification/Partition.thy ===== *)
theory Partition
  imports ScsiDev
begin

text \<open>
  The partition tables of usb_scsi.cpp: the CRC-32, the GUID partition table with its backup, the
  master boot record, and the erasing of the areas old tables and file systems leave behind. All
  of them but \<open>usb_scsi_wipe_partition_head\<close> send their commands past the write cache. The
  command blocks are arrays of ten bytes in the code; \<open>cdb10\<close> builds the same bytes.
\<close>

section \<open>CRC-32\<close>

definition crc_step :: "u32 \<Rightarrow> u32" where
  "crc_step c = (if c AND 1 \<noteq> 0 then 0xedb88320 XOR drop_bit 1 c else drop_bit 1 c)"

definition crc32_table :: "u32 list" where
  "crc32_table = map (\<lambda>i. (crc_step ^^ 8) (of_nat i)) [0..<256]"

definition crc32_byte :: "u32 \<Rightarrow> u8 \<Rightarrow> u32" where
  "crc32_byte crc b = crc32_table ! unat ((crc XOR ucast b) AND 0xff) XOR drop_bit 8 crc"

definition crc32 :: "u32 \<Rightarrow> bytes \<Rightarrow> u32" where
  "crc32 crc buf = NOT (foldl crc32_byte (NOT crc) buf)"

section \<open>Sectors written directly\<close>

definition write_sector :: "'w usb \<Rightarrow> u64 \<Rightarrow> bytes \<Rightarrow> 'w drv \<Rightarrow> int \<times> 'w drv" where
  "write_sector u lba sector d =
    (let (res, _, d') = scsi_command u (cdb10 WRITE10 lba 1) 0 (Some sector) 512 d in (res, d'))"

definition sync_command :: "'w usb \<Rightarrow> 'w drv \<Rightarrow> 'w drv" where
  "sync_command u d = (let (_, _, d') = scsi_command u sync_cmd 0 None 0 d in d')"

text \<open>The loops over the 32 sectors of partition entries; the result says whether every write
  succeeded.\<close>

fun write_gpt_entries :: "'w usb \<Rightarrow> u64 \<Rightarrow> bytes list \<Rightarrow> 'w drv \<Rightarrow> bool \<times> 'w drv" where
  "write_gpt_entries u lba [] d = (True, d)"
| "write_gpt_entries u lba (sector # sectors) d =
    (let (res, d') = write_sector u lba sector d
     in if res \<noteq> 0 then (False, d') else write_gpt_entries u (lba + 1) sectors d')"

section \<open>The GUID partition table\<close>

text \<open>\<open>rnd\<close> is the sequence of the values of \<open>(uint8_t)rand()\<close>, in the order of the calls.\<close>

definition gpt_mbr :: "(nat \<Rightarrow> u8) \<Rightarrow> u64 \<Rightarrow> bytes" where
  "gpt_mbr rnd sector_count =
    replicate 440 0 @ map rnd [0..<4] @ [0, 0]
    @ [0x00, 0x00, 0x02, 0x00, 0xee, 0xff, 0xff, 0xff] @ le32 1
    @ le32 (if sector_count > 0xffffffff then 0xffffffff else ucast sector_count - 1)
    @ replicate 48 0 @ [0x55, 0xaa]"

definition ntfs_type_guid :: bytes where
  "ntfs_type_guid = [0xa2, 0xa0, 0xd0, 0xeb, 0xe5, 0xb9, 0x33, 0x44,
     0x87, 0xc0, 0x68, 0xb6, 0xb7, 0x26, 0x99, 0xc7]"

definition linux_data_guid :: bytes where
  "linux_data_guid = [0xaf, 0x3d, 0xc6, 0x0f, 0x83, 0x84, 0x72, 0x47,
     0x8e, 0x79, 0x3d, 0x69, 0xd8, 0x47, 0x7d, 0xe4]"

definition gpt_p_end :: "u64 \<Rightarrow> u64 \<Rightarrow> u64" where
  "gpt_p_end sector_count partition_sectors =
    (let p_end_lba = 4096 + partition_sectors - 1
     in if p_end_lba > sector_count - 34
        then ((sector_count - 34 + 1) AND NOT 7) - 1 else p_end_lba)"

text \<open>"Basic data partition" in UTF-16.\<close>

definition gpt_name :: bytes where
  "gpt_name = concat (map (\<lambda>c. [of_char c, 0]) ''Basic data partition'')"

definition gpt_entries :: "(nat \<Rightarrow> u8) \<Rightarrow> u64 \<Rightarrow> u64 \<Rightarrow> int \<Rightarrow> bytes" where
  "gpt_entries rnd sector_count partition_sectors fsType =
    (if fsType = 8 \<or> (fsType \<ge> 5 \<and> fsType \<le> 7) then linux_data_guid else ntfs_type_guid)
    @ map (\<lambda>i. rnd (4 + i)) [0..<16]
    @ le64 4096 @ le64 (gpt_p_end sector_count partition_sectors) @ replicate 8 0
    @ gpt_name @ replicate (512 * 32 - 96) 0"

text \<open>The header with a given checksum field, and with the checksum over its first 92 bytes.\<close>

definition gpt_header_with :: "u32 \<Rightarrow> (nat \<Rightarrow> u8) \<Rightarrow> u64 \<Rightarrow> u32 \<Rightarrow> u64 \<Rightarrow> u64 \<Rightarrow> u64 \<Rightarrow> bytes" where
  "gpt_header_with crc rnd sector_count entries_crc current_lba backup_lba entry_lba =
    map of_char ''EFI PART'' @ le32 0x00010000 @ le32 92 @ le32 crc @ replicate 4 0
    @ le64 current_lba @ le64 backup_lba @ le64 34 @ le64 (sector_count - 34)
    @ map (\<lambda>i. rnd (20 + i)) [0..<16]
    @ le64 entry_lba @ le32 128 @ le32 128 @ le32 entries_crc @ replicate 420 0"

definition gpt_header :: "(nat \<Rightarrow> u8) \<Rightarrow> u64 \<Rightarrow> u32 \<Rightarrow> u64 \<Rightarrow> u64 \<Rightarrow> u64 \<Rightarrow> bytes" where
  "gpt_header rnd sector_count entries_crc current_lba backup_lba entry_lba =
    (let crc = crc32 0 (take 92
       (gpt_header_with 0 rnd sector_count entries_crc current_lba backup_lba entry_lba))
     in gpt_header_with crc rnd sector_count entries_crc current_lba backup_lba entry_lba)"

definition entry_sectors :: "bytes \<Rightarrow> bytes list" where
  "entry_sectors entries = map (\<lambda>i. seg (i * 512) 512 entries) [0..<32]"

text \<open>The backup may fail: the primary table is already written.\<close>

definition usb_scsi_write_gpt ::
  "'w usb \<Rightarrow> (nat \<Rightarrow> u8) \<Rightarrow> u64 \<Rightarrow> int \<Rightarrow> 'w drv \<Rightarrow> int \<times> 'w drv" where
  "usb_scsi_write_gpt u rnd partition_sectors fsType d0 =
    (let n = g_sector_count d0;
         (res, d) = write_sector u 0 (gpt_mbr rnd n) d0
     in if res \<noteq> 0 then (-1, d)
     else let entries = gpt_entries rnd n partition_sectors fsType;
              entries_crc = crc32 0 entries;
              (res, d) = write_sector u 1 (gpt_header rnd n entries_crc 1 (n - 1) 2) d
     in if res \<noteq> 0 then (-1, d)
     else let (ok, d) = write_gpt_entries u 2 (entry_sectors entries) d
     in if \<not> ok then (-1, d)
     else let (_, d) = write_gpt_entries u (n - 33) (entry_sectors entries) d;
              (_, d) = write_sector u (n - 1) (gpt_header rnd n entries_crc (n - 1) 1 (n - 33)) d
     in (0, sync_command u d))"

section \<open>The master boot record\<close>

definition mbr_num_sectors :: "u64 \<Rightarrow> u64 \<Rightarrow> u32" where
  "mbr_num_sectors sector_count partition_sectors =
    (let num_sectors = ucast partition_sectors :: u32
     in if ucast num_sectors > sector_count - 4096 then ucast (sector_count - 4096) else num_sectors)"

definition mbr_sector :: "u64 \<Rightarrow> u64 \<Rightarrow> u8 \<Rightarrow> bytes" where
  "mbr_sector sector_count partition_sectors partition_type =
    replicate 446 0 @ [0x80, 0, 0, 0, partition_type, 0, 0, 0] @ le32 4096
    @ le32 (mbr_num_sectors sector_count partition_sectors) @ replicate 48 0 @ [0x55, 0xaa]"

definition usb_scsi_write_mbr :: "'w usb \<Rightarrow> u64 \<Rightarrow> u8 \<Rightarrow> 'w drv \<Rightarrow> int \<times> 'w drv" where
  "usb_scsi_write_mbr u partition_sectors partition_type d =
    (let (res, d') = write_sector u 0 (mbr_sector (g_sector_count d) partition_sectors partition_type) d
     in if res \<noteq> 0 then (-1, d') else (0, sync_command u d'))"

text \<open>The buffer is uninitialised; the read fills it. A failed write is ignored.\<close>

definition update_mbr_type :: "'w usb \<Rightarrow> bytes \<Rightarrow> u8 \<Rightarrow> 'w drv \<Rightarrow> int \<times> 'w drv" where
  "update_mbr_type u buf ty d =
    (case scsi_command u (cdb10 READ10 0 1) 0x80 (Some buf) 512 d of
       (res, data, d') \<Rightarrow>
         if res \<noteq> 0 then (-1, d')
         else let mbr = (case data of None \<Rightarrow> buf | Some b \<Rightarrow> b)
         in if mbr ! 510 = 0x55 \<and> mbr ! 511 = 0xaa
            then (0, snd (write_sector u 0 (mbr[450 := ty]) d'))
            else (0, d'))"

section \<open>Erasing\<close>

function wipe_tail_loop :: "'w usb \<Rightarrow> u64 \<Rightarrow> u64 \<Rightarrow> 'w drv \<Rightarrow> 'w drv" where
  "wipe_tail_loop u last_lba lba d =
    (if lba > last_lba - 34 then
       let (res, d') = write_sector u lba (replicate 512 0) d
       in if res \<noteq> 0 then d' else wipe_tail_loop u last_lba (lba - 1) d'
     else d)"
  by pat_completeness auto
termination
proof (relation "measure (\<lambda>(u, last_lba, lba, d). unat (lba - (last_lba - 34)))", simp)
  fix u :: "'w usb" and last_lba lba :: u64 and d d' :: "'w drv" and x res
  assume "last_lba - 34 < lba"
  define k where "k = lba - (last_lba - 34)"
  have "k \<noteq> 0" using \<open>last_lba - 34 < lba\<close> by (auto simp: k_def)
  then have "unat (k - 1) < unat k" by (simp add: unat_minus_one unat_gt_0)
  moreover have "lba - 1 - (last_lba - 34) = k - 1" by (simp add: k_def)
  ultimately show "((u, last_lba, lba - 1, d'), (u, last_lba, lba, d))
      \<in> measure (\<lambda>(u, last_lba, lba, d). unat (lba - (last_lba - 34)))"
    by (simp only: in_measure prod.case k_def [symmetric])
qed

declare wipe_tail_loop.simps [simp del]

definition usb_scsi_wipe_tail :: "'w usb \<Rightarrow> 'w drv \<Rightarrow> int \<times> 'w drv" where
  "usb_scsi_wipe_tail u d =
    (let last_lba = g_sector_count d - 1
     in (0, sync_command u (wipe_tail_loop u last_lba last_lba d)))"

text \<open>Chunks of 128 sectors.\<close>

fun wipe_chunks :: "'w usb \<Rightarrow> nat list \<Rightarrow> 'w drv \<Rightarrow> 'w drv" where
  "wipe_chunks u [] d = d"
| "wipe_chunks u (lba # lbas) d =
    (let (res, _, d') = scsi_command u (cdb10 WRITE10 (of_nat lba) 128) 0
                          (Some (replicate 65536 0)) 65536 d
     in if res \<noteq> 0 then d' else wipe_chunks u lbas d')"

text \<open>The buffer is filled without a look at what \<open>malloc\<close> returned: \<open>None\<close> is the write through
  the null pointer, from which the run does not come back.\<close>

definition usb_scsi_wipe_mbr :: "'w usb \<Rightarrow> 'w drv \<Rightarrow> (int \<times> 'w drv) option" where
  "usb_scsi_wipe_mbr u d =
    (if \<not> malloc_ok u 65536 (g_world d) then None
     else Some (0, sync_command u (wipe_chunks u (map (\<lambda>i. i * 128) [0..<16]) d)))"

text \<open>Chunks of 256 KB through the cache, each tried twice; \<open>None\<close> is a call of
  \<open>scsi_io_internal\<close> that does not return. \<open>usleep\<close> and the progress callback leave the state
  of the driver alone.\<close>

fun wipe_head_loop :: "'w usb \<Rightarrow> int list \<Rightarrow> 'w drv \<Rightarrow> 'w drv option" where
  "wipe_head_loop u [] d = Some d"
| "wipe_head_loop u (offset # offsets) d =
    (case scsi_pwrite u (replicate 262144 0) 262144 offset d of
       None \<Rightarrow> None
     | Some (res, d1) \<Rightarrow>
         if res = 262144 then wipe_head_loop u offsets d1
         else case scsi_pwrite u (replicate 262144 0) 262144 offset d1 of
                None \<Rightarrow> None
              | Some (res, d2) \<Rightarrow> if res = 262144 then wipe_head_loop u offsets d2 else Some d2)"

definition head_offsets :: "int \<Rightarrow> int list" where
  "head_offsets fsType = map (\<lambda>i. int i * 262144) [0..<if fsType = 8 then 512 else 128]"

definition usb_scsi_wipe_partition_head :: "'w usb \<Rightarrow> int \<Rightarrow> 'w drv \<Rightarrow> (int \<times> 'w drv) option" where
  "usb_scsi_wipe_partition_head u fsType d =
    (if \<not> malloc_ok u 262144 (g_world d) then Some (-1, d)
     else case wipe_head_loop u (head_offsets fsType) d of
            None \<Rightarrow> None
          | Some d' \<Rightarrow> Some (0, snd (usb_scsi_sync u d')))"

end
