(* ===== verification/FatFormat.thy ===== *)
theory FatFormat
  imports Partition
begin

text \<open>
  The FAT formatter of usb_scsi.cpp, \<open>usb_scsi_format_fat\<close>: the geometry it computes, the boot
  sector, the FSInfo sector, and the writing of the two FATs and the root directory through the
  cached, byte-granular writes of the driver. The types are 1 for FAT32, 2 for FAT16, 3 for FAT12.
\<close>

section \<open>Geometry\<close>

definition fat_usable_sectors :: "'w drv \<Rightarrow> u64" where
  "fat_usable_sectors d =
    (let usable = g_sector_count d - g_drive_offset_sectors d
     in if g_partition_type d = 2 then usable - 33 else usable)"

definition fat_reserved_sectors :: "int \<Rightarrow> nat" where
  "fat_reserved_sectors fat_type = (if fat_type = 1 then 32 else 8)"

definition fat_root_dir_entries :: "int \<Rightarrow> nat" where
  "fat_root_dir_entries fat_type = (if fat_type = 1 then 0 else 512)"

definition fat_root_dir_sectors :: "int \<Rightarrow> nat" where
  "fat_root_dir_sectors fat_type = (fat_root_dir_entries fat_type * 32 + 512 - 1) div 512"

definition fat_sectors_per_cluster :: "int \<Rightarrow> u32 \<Rightarrow> u8" where
  "fat_sectors_per_cluster fat_type cluster_size =
    (let cluster_size = (if cluster_size = 0 then (if fat_type = 1 then 4096
                           else if fat_type = 2 then 2048 else 512) else cluster_size);
         spc = ucast (cluster_size div 512)
     in if spc = 0 then 1 else spc)"

definition fat_size_sectors :: "int \<Rightarrow> u64 \<Rightarrow> u8 \<Rightarrow> u32" where
  "fat_size_sectors fat_type usable spc =
    (if fat_type = 1 then
       let tmp = usable - of_nat (fat_reserved_sectors fat_type)
       in ucast ((tmp * 4 + (512 * ucast spc + 8) - 1) div (512 * ucast spc + 8))
     else
       let tmp = usable - of_nat (fat_reserved_sectors fat_type) - of_nat (fat_root_dir_sectors fat_type)
       in ucast ((tmp * 2 + (512 * ucast spc + 4) - 1) div (512 * ucast spc + 4)))"

definition fat_mbr_type :: "int \<Rightarrow> u64 \<Rightarrow> u64 \<Rightarrow> u8" where
  "fat_mbr_type fat_type drive_offset usable =
    (if fat_type = 1 then (if drive_offset > 0 then 0x0c else 0x0b)
     else if fat_type = 3 then 0x01
     else if drive_offset > 0 then 0x0e
     else if usable > 65535 then 0x06 else 0x04)"

section \<open>The boot sector\<close>

text \<open>\<open>toupper\<close> in the C locale.\<close>

definition toupper :: "u8 \<Rightarrow> u8" where
  "toupper c = (if 0x61 \<le> c \<and> c \<le> 0x7a then c - 0x20 else c)"

definition fat_vol_label :: "bytes \<Rightarrow> bytes" where
  "fat_vol_label label = (let s = map toupper (take 11 label) in s @ replicate (11 - length s) 0x20)"

definition fat_boot_sector :: "int \<Rightarrow> u64 \<Rightarrow> u64 \<Rightarrow> u8 \<Rightarrow> u32 \<Rightarrow> u32 \<Rightarrow> bytes \<Rightarrow> bytes" where
  "fat_boot_sector fat_type usable drive_offset spc fat_size serial label =
    (let small = usable < 65536 \<and> fat_type \<noteq> 1
     in [0xeb, if fat_type = 1 then 0x58 else 0x3c, 0x90] @ map of_char ''MSWIN4.1''
        @ le16 512 @ [spc] @ le16 (of_nat (fat_reserved_sectors fat_type)) @ [2]
        @ le16 (of_nat (fat_root_dir_entries fat_type))
        @ le16 (if small then ucast usable else 0) @ [0xf8]
        @ le16 (if fat_type = 1 then 0 else ucast fat_size)
        @ le16 32 @ le16 64 @ le32 (ucast drive_offset)
        @ le32 (if small then 0 else ucast usable)
        @ (if fat_type = 1
           then le32 fat_size @ replicate 4 0 @ le32 2 @ le16 1 @ le16 6 @ replicate 14 0 @ [0x29]
                @ le32 serial @ fat_vol_label label @ map of_char ''FAT32   '' @ replicate 420 0
           else replicate 2 0 @ [0x29] @ le32 serial @ fat_vol_label label
                @ map of_char (if fat_type = 2 then ''FAT16   '' else ''FAT12   '') @ replicate 448 0)
        @ [0x55, 0xaa])"

definition fat_fsinfo :: bytes where
  "fat_fsinfo = [0x52, 0x52, 0x61, 0x41] @ replicate 480 0 @ [0x72, 0x72, 0x41, 0x61]
     @ le32 0xffffffff @ le32 0xffffffff @ replicate 14 0 @ [0x55, 0xaa]"

section \<open>Writing\<close>

text \<open>A write whose result is not looked at; \<open>None\<close> when it does not return.\<close>

definition fat_put :: "'w usb \<Rightarrow> bytes \<Rightarrow> u32 \<Rightarrow> 'w drv \<Rightarrow> 'w drv option" where
  "fat_put u buf offset d = map_option snd (scsi_pwrite u buf (int (length buf)) (uint offset) d)"

text \<open>The loops that write zeros in chunks of 32768 bytes, from byte \<open>i\<close> to \<open>area\<close> of the area at
  \<open>offset\<close>; all three are \<open>uint32_t\<close>.\<close>

partial_function (option) fat_zero_loop ::
  "'w usb \<Rightarrow> u32 \<Rightarrow> u32 \<Rightarrow> u32 \<Rightarrow> 'w drv \<Rightarrow> 'w drv option" where
  "fat_zero_loop u offset area i d =
    (if i < area then
       let to_write = (if area - i > 32768 then 32768 else area - i)
       in case fat_put u (replicate (unat to_write) 0) (offset + i) d of
            None \<Rightarrow> None
          | Some d' \<Rightarrow> fat_zero_loop u offset area (i + 32768) d'
     else Some d)"

definition fat_first_entries :: "int \<Rightarrow> bytes" where
  "fat_first_entries fat_type =
    (if fat_type = 1 then le32 0x0ffffff8 @ le32 0x0fffffff @ le32 0x0fffffff
     else if fat_type = 2 then le16 0xfff8 @ le16 0xffff
     else [0xf8, 0xff, 0xff])"

definition fat_chunk :: "int \<Rightarrow> bytes" where
  "fat_chunk fat_type = patch 0 (fat_first_entries fat_type) (replicate 32768 0)"

definition fat_table_offset :: "int \<Rightarrow> u32 \<Rightarrow> nat \<Rightarrow> u32" where
  "fat_table_offset fat_type fat_size f = (of_nat (fat_reserved_sectors fat_type) + of_nat f * fat_size) * 512"

definition fat_write_table :: "'w usb \<Rightarrow> int \<Rightarrow> u32 \<Rightarrow> nat \<Rightarrow> 'w drv \<Rightarrow> 'w drv option" where
  "fat_write_table u fat_type fat_size f d =
    (let fat_offset = fat_table_offset fat_type fat_size f
     in case fat_put u (fat_chunk fat_type) fat_offset d of
          None \<Rightarrow> None
        | Some d \<Rightarrow> fat_zero_loop u fat_offset (fat_size * 512) 32768 d)"

definition fat_write_root :: "'w usb \<Rightarrow> int \<Rightarrow> u32 \<Rightarrow> 'w drv \<Rightarrow> 'w drv option" where
  "fat_write_root u fat_type fat_size d =
    (if fat_type = 1 then Some d
     else fat_zero_loop u (fat_table_offset fat_type fat_size 2)
            (of_nat (fat_root_dir_sectors fat_type) * 512) 0 d)"

text \<open>\<open>serial\<close> is the value of \<open>rand()\<close>, \<open>mbr\<close> the uninitialised buffer of \<open>update_mbr_type\<close>.\<close>

definition usb_scsi_format_fat ::
  "'w usb \<Rightarrow> u32 \<Rightarrow> bytes \<Rightarrow> int \<Rightarrow> u32 \<Rightarrow> bytes \<Rightarrow> 'w drv \<Rightarrow> (int \<times> 'w drv) option" where
  "usb_scsi_format_fat u serial mbr fat_type cluster_size label d =
    (let usable = fat_usable_sectors d;
         spc = fat_sectors_per_cluster fat_type cluster_size;
         fat_size = fat_size_sectors fat_type usable spc;
         bs = fat_boot_sector fat_type usable (g_drive_offset_sectors d) spc fat_size serial label
     in if usable = 0 then Some (-1, d)
     else
       let d = (if g_partition_type d = 1
                then snd (update_mbr_type u mbr (fat_mbr_type fat_type (g_drive_offset_sectors d) usable) d)
                else d)
       in case scsi_pwrite u bs 512 0 d of
            None \<Rightarrow> None
          | Some (res, d) \<Rightarrow>
              if res \<noteq> 512 then Some (-1, d)
              else
                Option.bind (if fat_type = 1
                             then Option.bind (fat_put u bs (6 * 512) d) (fat_put u fat_fsinfo 512)
                             else Some d) (\<lambda>d.
                Option.bind (fat_write_table u fat_type fat_size 0 d) (\<lambda>d.
                Option.bind (fat_write_table u fat_type fat_size 1 d) (\<lambda>d.
                Option.bind (fat_write_root u fat_type fat_size d) (\<lambda>d. Some (0, d))))))"

end
