(* ===== verification/FormatBridges.thy ===== *)
theory FormatBridges
  imports ScsiDev
begin

text \<open>
  The bridges between the driver and the formatters that come from other projects: ext_bridge.cpp
  (the I/O manager of mke2fs), f2fs_bridge.cpp, udf_bridge.cpp and xfs_bridge.cpp, which run a
  formatter's \<open>main\<close>, and the places in those formatters where the app redirects their device
  I/O to the driver: f2fs_src/lib/libf2fs_io.c, udf_src/mkudffs/main.c,
  xfs_src/include/xfs_android_stubs.h, xfs_src/libxfs/rdwr.c and ext_src/ext2fs/getsize.c. The
  formatters themselves are parameters.
\<close>

section \<open>Running a formatter\<close>

text \<open>A formatter returns from its \<open>main\<close> or calls \<open>exit\<close>, which a macro turns into a \<open>longjmp\<close>
  to the bridge.\<close>

datatype engine_end = EngineReturned int | EngineExited int

type_synonym 'w engine = "string list \<Rightarrow> 'w drv \<Rightarrow> (engine_end \<times> 'w drv) option"

definition exit_jump :: "int \<Rightarrow> int" where
  "exit_jump code = (if code = 0 then -1 else code)"

definition engine_result :: "engine_end \<Rightarrow> int" where
  "engine_result r = (case r of EngineReturned res \<Rightarrow> res
     | EngineExited status \<Rightarrow> let exit_code = exit_jump status in if exit_code = -1 then 0 else exit_code)"

text \<open>What the bridges do with the result: on success the write cache is flushed.\<close>

definition sync_on_success :: "'w usb \<Rightarrow> engine_end \<times> 'w drv \<Rightarrow> int \<times> 'w drv" where
  "sync_on_success u = (\<lambda>(r, d). let result = engine_result r
     in (result, if result = 0 then snd (usb_scsi_sync u d) else d))"

text \<open>\<open>%d\<close> and \<open>%llu\<close> of numbers that are not negative.\<close>

fun decimal :: "nat \<Rightarrow> string" where
  "decimal n = (if n < 10 then [char_of (48 + n)] else decimal (n div 10) @ [char_of (48 + n mod 10)])"

declare decimal.simps [simp del]

text \<open>The sizes are \<open>jlong\<close>s; \<open>u64\<close> has the same bits.\<close>

definition f2fs_args :: "string \<Rightarrow> u64 \<Rightarrow> string list" where
  "f2fs_args label part_sectors =
    [''mkfs.f2fs'', ''-f'', ''-l'', label, ''-a'', ''1'', ''usb_device'',
     decimal (unat (part_sectors AND NOT 7))]"

definition startF2FSFormat_Internal ::
  "'w usb \<Rightarrow> 'w engine \<Rightarrow> u64 \<Rightarrow> string \<Rightarrow> 'w drv \<Rightarrow> (int \<times> 'w drv) option" where
  "startF2FSFormat_Internal u f2fs_format_main part_sectors label d =
    map_option (sync_on_success u) (f2fs_format_main (f2fs_args label part_sectors) d)"

definition udf_args :: "string \<Rightarrow> u64 \<Rightarrow> string list" where
  "udf_args label part_sectors =
    [''mkudffs'', ''--utf8'', ''--media-type=hd'', ''--udfrev=201'', ''--blocksize=512'', ''--packetlen=64'',
     ''--lvid='' @ label, ''--vid='' @ label, ''--vsid='' @ label, ''--fsid='' @ label, ''usb_device'',
     decimal (unat (part_sectors AND NOT 3))]"

definition startUDFFormat_Internal ::
  "'w usb \<Rightarrow> 'w engine \<Rightarrow> u64 \<Rightarrow> string \<Rightarrow> 'w drv \<Rightarrow> (int \<times> 'w drv) option" where
  "startUDFFormat_Internal u udf_format_main part_sectors label d =
    map_option (sync_on_success u) (udf_format_main (udf_args label part_sectors) d)"

definition xfs_args :: "string \<Rightarrow> u64 \<Rightarrow> string list" where
  "xfs_args label part_sectors =
    [''mkfs.xfs'', ''-f'', ''-m'', ''crc=0'', ''-L'', label, ''-d'',
     ''file,name=/data/data/com.formatstickpro.app/cache/usb_device,size='' @ decimal (unat (part_sectors * 512))]
    @ (if sint part_sectors < 614400 then [''--unsupported''] else [])"

text \<open>\<open>g_usb_scsi_part_sectors\<close>, which mkfs.xfs reads, is an argument of the formatter here.\<close>

definition startXFSFormat_Internal ::
  "'w usb \<Rightarrow> (u64 \<Rightarrow> 'w engine) \<Rightarrow> u64 \<Rightarrow> string \<Rightarrow> 'w drv \<Rightarrow> (int \<times> 'w drv) option" where
  "startXFSFormat_Internal u xfs_mkfs_main part_sectors label d =
    map_option (sync_on_success u) (xfs_mkfs_main part_sectors (xfs_args label part_sectors) d)"

section \<open>The I/O manager of mke2fs\<close>

datatype errcode =
    ERR_OK
  | EXT2_ET_BAD_DEVICE_NAME
  | ERR_ENOMEM
  | EXT2_ET_MAGIC_IO_CHANNEL
  | EXT2_ET_SHORT_READ
  | EXT2_ET_SHORT_WRITE

record io_channel =
  ioc_magic :: errcode
  ioc_name :: string
  ioc_block_size :: int
  ioc_refcount :: int

text \<open>The wrap-around of \<open>int64_t\<close> and \<open>int\<close>.\<close>

definition s64 :: "int \<Rightarrow> int" where
  "s64 x = sint (word_of_int x :: u64)"

definition s32 :: "int \<Rightarrow> int" where
  "s32 x = sint (word_of_int x :: u32)"

text \<open>\<open>calloc_ok\<close> says whether memory for the channel could be had.\<close>

definition scsi_open :: "bool \<Rightarrow> string option \<Rightarrow> errcode + io_channel" where
  "scsi_open calloc_ok name =
    (case name of None \<Rightarrow> Inl EXT2_ET_BAD_DEVICE_NAME
     | Some s \<Rightarrow> if \<not> calloc_ok then Inl ERR_ENOMEM
         else Inr \<lparr>ioc_magic = EXT2_ET_MAGIC_IO_CHANNEL, ioc_name = s, ioc_block_size = 4096, ioc_refcount = 1\<rparr>)"

text \<open>The channel is \<open>None\<close> once it is freed.\<close>

definition scsi_close :: "io_channel \<Rightarrow> errcode \<times> io_channel option" where
  "scsi_close ch =
    (if ioc_magic ch \<noteq> EXT2_ET_MAGIC_IO_CHANNEL then (EXT2_ET_MAGIC_IO_CHANNEL, Some ch)
     else let ch = ch\<lparr>ioc_refcount := ioc_refcount ch - 1\<rparr>
     in (ERR_OK, if ioc_refcount ch > 0 then Some ch else None))"

definition scsi_set_blksize :: "io_channel \<Rightarrow> int \<Rightarrow> errcode \<times> io_channel" where
  "scsi_set_blksize ch blksize = (ERR_OK, ch\<lparr>ioc_block_size := blksize\<rparr>)"

definition ext_offset :: "io_channel \<Rightarrow> u64 \<Rightarrow> int" where
  "ext_offset ch block = s64 (sint block * ioc_block_size ch)"

text \<open>A negative count is a number of bytes.\<close>

definition ext_size :: "io_channel \<Rightarrow> int \<Rightarrow> int" where
  "ext_size ch count = (if count < 0 then s32 (- count) else s64 (count * ioc_block_size ch))"

definition scsi_read_blk64 ::
  "'w usb \<Rightarrow> io_channel \<Rightarrow> u64 \<Rightarrow> int \<Rightarrow> bytes \<Rightarrow> 'w drv \<Rightarrow> (errcode \<times> bytes \<times> 'w drv) option" where
  "scsi_read_blk64 u ch block count buf d =
    map_option (\<lambda>(ret, buf, d). (if ret = ext_size ch count then ERR_OK else EXT2_ET_SHORT_READ, buf, d))
      (scsi_pread u buf (ext_size ch count) (ext_offset ch block) d)"

definition scsi_write_blk64 ::
  "'w usb \<Rightarrow> io_channel \<Rightarrow> u64 \<Rightarrow> int \<Rightarrow> bytes \<Rightarrow> 'w drv \<Rightarrow> (errcode \<times> 'w drv) option" where
  "scsi_write_blk64 u ch block count buf d =
    map_option (\<lambda>(ret, d). (if ret = ext_size ch count then ERR_OK else EXT2_ET_SHORT_WRITE, d))
      (scsi_pwrite u buf (ext_size ch count) (ext_offset ch block) d)"

definition scsi_write_byte ::
  "'w usb \<Rightarrow> io_channel \<Rightarrow> u64 \<Rightarrow> int \<Rightarrow> bytes \<Rightarrow> 'w drv \<Rightarrow> (errcode \<times> 'w drv) option" where
  "scsi_write_byte u ch offset count buf d =
    map_option (\<lambda>(ret, d). (if ret = count then ERR_OK else EXT2_ET_SHORT_WRITE, d))
      (scsi_pwrite u buf count (sint offset) d)"

text \<open>\<open>scsi_flush\<close>, \<open>scsi_discard\<close>, \<open>scsi_set_option\<close> and \<open>scsi_get_stats\<close> do nothing.\<close>

definition scsi_flush :: "io_channel \<Rightarrow> 'w drv \<Rightarrow> errcode \<times> 'w drv" where
  "scsi_flush ch d = (ERR_OK, d)"

definition scsi_discard :: "io_channel \<Rightarrow> u64 \<Rightarrow> u64 \<Rightarrow> 'w drv \<Rightarrow> errcode \<times> 'w drv" where
  "scsi_discard ch block count d = (ERR_OK, d)"

text \<open>\<open>ext2fs_get_device_size2\<close> for the stick; \<open>None\<close> is a division by zero.\<close>

definition ext2fs_get_device_size2 :: "int \<Rightarrow> 'w drv \<Rightarrow> u64 option" where
  "ext2fs_get_device_size2 blocksize d =
    (let per_block = word_of_int (blocksize sdiv 512) :: u64
     in if per_block = 0 then None else Some (g_sector_count d div per_block))"

section \<open>Device I/O of mkfs.f2fs\<close>

text \<open>The host's files, for the calls that are not redirected.\<close>

record 'h host =
  host_lseek :: "int \<Rightarrow> u64 \<Rightarrow> 'h \<Rightarrow> int \<times> 'h"
  host_write :: "int \<Rightarrow> bytes \<Rightarrow> 'h \<Rightarrow> int \<times> 'h"

record f2fs_device =
  start_blkaddr :: u64
  end_blkaddr :: u64
  f2fs_fd :: int

definition f2fs_dev_read ::
  "'w usb \<Rightarrow> bytes \<Rightarrow> u64 \<Rightarrow> u64 \<Rightarrow> 'w drv \<Rightarrow> (int \<times> bytes \<times> 'w drv) option" where
  "f2fs_dev_read u buf offset len d =
    map_option (\<lambda>(r, buf, d). (if r = sint len then 0 else -1, buf, d))
      (scsi_pread u buf (sint len) (sint offset) d)"

definition f2fs_dev_write ::
  "'w usb \<Rightarrow> bytes \<Rightarrow> u64 \<Rightarrow> u64 \<Rightarrow> 'w drv \<Rightarrow> (int \<times> 'w drv) option" where
  "f2fs_dev_write u buf offset len d =
    map_option (\<lambda>(r, d). (if r = sint len then 0 else -1, d)) (scsi_pwrite u buf (sint len) (sint offset) d)"

definition f2fs_dev_read_block :: "'w usb \<Rightarrow> bytes \<Rightarrow> u64 \<Rightarrow> 'w drv \<Rightarrow> (int \<times> bytes \<times> 'w drv) option" where
  "f2fs_dev_read_block u buf blk_addr = f2fs_dev_read u buf (push_bit 12 blk_addr) 4096"

definition f2fs_dev_write_block :: "'w usb \<Rightarrow> bytes \<Rightarrow> u64 \<Rightarrow> 'w drv \<Rightarrow> (int \<times> 'w drv) option" where
  "f2fs_dev_write_block u buf blk_addr = f2fs_dev_write u buf (push_bit 12 blk_addr) 4096"

text \<open>The descriptor and the offset within its device.\<close>

fun get_device_fd :: "f2fs_device list \<Rightarrow> u64 \<Rightarrow> int \<times> u64" where
  "get_device_fd [] offset = (-1, offset)"
| "get_device_fd (v # vs) offset =
    (if start_blkaddr v \<le> drop_bit 12 offset \<and> drop_bit 12 offset \<le> end_blkaddr v
     then (f2fs_fd v, offset - push_bit 12 (start_blkaddr v)) else get_device_fd vs offset)"

text \<open>\<open>dev_fill\<close> has no case for the stick: it writes to the descriptor of the device.\<close>

definition f2fs_dev_fill ::
  "'h host \<Rightarrow> f2fs_device list \<Rightarrow> bytes \<Rightarrow> u64 \<Rightarrow> 'h \<times> 'w drv \<Rightarrow> int \<times> 'h \<times> 'w drv" where
  "f2fs_dev_fill os devices buf offset = (\<lambda>(h, d).
    let (fd, offset) = get_device_fd devices offset
    in if fd < 0 then (fd, h, d)
       else if buf ! 0 \<noteq> 0 then (-1, h, d)
       else let (pos, h) = host_lseek os fd offset h
       in if pos < 0 then (-1, h, d)
       else let (r, h) = host_write os fd buf h in (if r < 0 then -1 else 0, h, d))"

definition f2fs_dev_fill_block ::
  "'h host \<Rightarrow> f2fs_device list \<Rightarrow> bytes \<Rightarrow> u64 \<Rightarrow> 'h \<times> 'w drv \<Rightarrow> int \<times> 'h \<times> 'w drv" where
  "f2fs_dev_fill_block os devices buf blk_addr = f2fs_dev_fill os devices (take 4096 buf) (push_bit 12 blk_addr)"

section \<open>Device I/O of mkudffs\<close>

text \<open>With the position \<open>g_udf_usb_offset\<close>.\<close>

definition udf_read_nointr ::
  "'w usb \<Rightarrow> bytes \<Rightarrow> u64 \<Rightarrow> int \<Rightarrow> 'w drv \<Rightarrow> (int \<times> bytes \<times> int \<times> 'w drv) option" where
  "udf_read_nointr u buf count pos d =
    map_option (\<lambda>(res, buf, d). (res, buf, if res > 0 then pos + res else pos, d))
      (scsi_pread u buf (sint count) pos d)"

definition udf_write_nointr ::
  "'w usb \<Rightarrow> bytes \<Rightarrow> u64 \<Rightarrow> int \<Rightarrow> 'w drv \<Rightarrow> (int \<times> int \<times> 'w drv) option" where
  "udf_write_nointr u buf count pos d =
    map_option (\<lambda>(res, d). (res, if res > 0 then pos + res else pos, d))
      (scsi_pwrite u buf (sint count) pos d)"

definition udf_lseek :: "int \<Rightarrow> int \<Rightarrow> int \<Rightarrow> int" where
  "udf_lseek offset whence pos =
    (if whence = 0 then offset else if whence = 1 then pos + offset else pos)"

text \<open>The check that the device is as large as it says, by reading its last byte.\<close>

definition valid_offset :: "'w usb \<Rightarrow> int \<Rightarrow> int \<Rightarrow> 'w drv \<Rightarrow> (bool \<times> int \<times> 'w drv) option" where
  "valid_offset u offset pos d =
    (let pos = udf_lseek offset 0 pos
     in if pos < 0 then Some (False, pos, d)
     else map_option (\<lambda>(res, _, pos, d). (\<not> res < 1, pos, d)) (udf_read_nointr u [0] 1 pos d))"

section \<open>Device I/O of mkfs.xfs\<close>

fun xfs_writev_loop :: "'w usb \<Rightarrow> bytes list \<Rightarrow> int \<Rightarrow> 'w drv \<Rightarrow> (int \<times> 'w drv) option" where
  "xfs_writev_loop u [] done_bytes d = Some (done_bytes, d)"
| "xfs_writev_loop u (v # iov) done_bytes d =
    (case usb_scsi_write_internal u v (int (length v)) d of
       None \<Rightarrow> None
     | Some (res, d) \<Rightarrow> if res < 0 then Some (-1, d) else xfs_writev_loop u iov (done_bytes + res) d)"

definition xfs_writev_hook :: "'w usb \<Rightarrow> bytes list \<Rightarrow> 'w drv \<Rightarrow> (int \<times> 'w drv) option" where
  "xfs_writev_hook u iov = xfs_writev_loop u iov 0"

fun xfs_pwritev_loop :: "'w usb \<Rightarrow> bytes list \<Rightarrow> int \<Rightarrow> int \<Rightarrow> 'w drv \<Rightarrow> (int \<times> 'w drv) option" where
  "xfs_pwritev_loop u [] done_bytes cur_offset d = Some (done_bytes, d)"
| "xfs_pwritev_loop u (v # iov) done_bytes cur_offset d =
    (case scsi_pwrite u v (int (length v)) cur_offset d of
       None \<Rightarrow> None
     | Some (res, d) \<Rightarrow> if res < 0 then Some (-1, d)
         else xfs_pwritev_loop u iov (done_bytes + res) (cur_offset + res) d)"

definition xfs_pwritev_hook :: "'w usb \<Rightarrow> bytes list \<Rightarrow> int \<Rightarrow> 'w drv \<Rightarrow> (int \<times> 'w drv) option" where
  "xfs_pwritev_hook u iov offset = xfs_pwritev_loop u iov 0 offset"

text \<open>The buffers as they are left, with the total.\<close>

fun xfs_preadv_loop ::
  "'w usb \<Rightarrow> bytes list \<Rightarrow> int \<Rightarrow> int \<Rightarrow> 'w drv \<Rightarrow> (int \<times> bytes list \<times> 'w drv) option" where
  "xfs_preadv_loop u [] done_bytes cur_offset d = Some (done_bytes, [], d)"
| "xfs_preadv_loop u (v # iov) done_bytes cur_offset d =
    (case scsi_pread u v (int (length v)) cur_offset d of
       None \<Rightarrow> None
     | Some (res, v, d) \<Rightarrow> if res < 0 then Some (-1, v # iov, d)
         else map_option (\<lambda>(r, vs, d). (r, v # vs, d))
                (xfs_preadv_loop u iov (done_bytes + res) (cur_offset + res) d))"

definition xfs_preadv_hook ::
  "'w usb \<Rightarrow> bytes list \<Rightarrow> int \<Rightarrow> 'w drv \<Rightarrow> (int \<times> bytes list \<times> 'w drv) option" where
  "xfs_preadv_hook u iov offset = xfs_preadv_loop u iov 0 offset"

text \<open>\<open>st_size\<close> and \<open>st_blocks\<close> of \<open>fstat\<close>, and what \<open>platform_findsizes\<close> reports.\<close>

definition xfs_fstat_hook :: "u64 \<Rightarrow> int \<times> int" where
  "xfs_fstat_hook part_sectors = (s64 (sint part_sectors * 512), sint part_sectors)"

definition platform_findsizes :: "u64 \<Rightarrow> int \<times> int" where
  "platform_findsizes part_sectors = (sint part_sectors, 512)"

text \<open>\<open>__read_buf\<close> and \<open>__write_buf\<close>: \<open>int\<close> lengths; the result is the error they return negated.\<close>

definition xfs_buf_result :: "int \<Rightarrow> int \<Rightarrow> 'w drv \<Rightarrow> errno" where
  "xfs_buf_result sts len d =
    (if sts < 0 then g_errno d else if sts \<noteq> len then EIO else EOK)"

definition xfs_read_buf :: "'w usb \<Rightarrow> bytes \<Rightarrow> int \<Rightarrow> int \<Rightarrow> 'w drv \<Rightarrow> (errno \<times> bytes \<times> 'w drv) option" where
  "xfs_read_buf u buf len offset d =
    map_option (\<lambda>(r, buf, d). (xfs_buf_result (s32 r) len d, buf, d)) (scsi_pread u buf len offset d)"

definition xfs_write_buf :: "'w usb \<Rightarrow> bytes \<Rightarrow> int \<Rightarrow> int \<Rightarrow> 'w drv \<Rightarrow> (errno \<times> 'w drv) option" where
  "xfs_write_buf u buf len offset d =
    map_option (\<lambda>(r, d). (xfs_buf_result (s32 r) len d, d)) (scsi_pwrite u buf len offset d)"

end
