(* ===== verification/ExfatUtf.thy ===== *)
theory ExfatUtf
  imports Prelude
begin

text \<open>
  utf.c of the exFAT engine: UTF-16 names on disk against UTF-8 names in the API. Buffers are
  lists; \<open>outsize\<close> is the room left in the output, and the result of a conversion is what it
  wrote there. \<open>wchar_t\<close> is the unsigned 32-bit type of the ARM ABI; no value stored in it
  reaches bit 31.
\<close>

section \<open>From UTF-16 to UTF-8\<close>

definition wchar_to_utf8 :: "u32 \<Rightarrow> nat \<Rightarrow> bytes option" where
  "wchar_to_utf8 wc outsize =
    (if wc \<le> 0x7f then
       if outsize < 1 then None else Some [ucast wc]
     else if wc \<le> 0x7ff then
       if outsize < 2 then None
       else Some [ucast (0xc0 OR drop_bit 6 wc), ucast (0x80 OR (wc AND 0x3f))]
     else if wc \<le> 0xffff then
       if outsize < 3 then None
       else Some [ucast (0xe0 OR drop_bit 12 wc), ucast (0x80 OR (drop_bit 6 wc AND 0x3f)),
                  ucast (0x80 OR (wc AND 0x3f))]
     else if wc \<le> 0x1fffff then
       if outsize < 4 then None
       else Some [ucast (0xf0 OR drop_bit 18 wc), ucast (0x80 OR (drop_bit 12 wc AND 0x3f)),
                  ucast (0x80 OR (drop_bit 6 wc AND 0x3f)), ucast (0x80 OR (wc AND 0x3f))]
     else if wc \<le> 0x3ffffff then
       if outsize < 5 then None
       else Some [ucast (0xf8 OR drop_bit 24 wc), ucast (0x80 OR (drop_bit 18 wc AND 0x3f)),
                  ucast (0x80 OR (drop_bit 12 wc AND 0x3f)),
                  ucast (0x80 OR (drop_bit 6 wc AND 0x3f)), ucast (0x80 OR (wc AND 0x3f))]
     else if wc \<le> 0x7fffffff then
       if outsize < 6 then None
       else Some [ucast (0xfc OR drop_bit 30 wc), ucast (0x80 OR (drop_bit 24 wc AND 0x3f)),
                  ucast (0x80 OR (drop_bit 18 wc AND 0x3f)),
                  ucast (0x80 OR (drop_bit 12 wc AND 0x3f)),
                  ucast (0x80 OR (drop_bit 6 wc AND 0x3f)), ucast (0x80 OR (wc AND 0x3f))]
     else None)"

text \<open>Called on a list that is not empty; its length is \<open>insize\<close>.\<close>

definition utf16_to_wchar :: "u16 list \<Rightarrow> (u32 \<times> u16 list) option" where
  "utf16_to_wchar input =
    (if input ! 0 AND 0xfc00 = 0xd800 then
       if length input < 2 \<or> input ! 1 AND 0xfc00 \<noteq> 0xdc00 then None
       else Some ((push_bit 10 (ucast (input ! 0 AND 0x3ff)) OR ucast (input ! 1 AND 0x3ff))
                    + 0x10000, drop 2 input)
     else Some (ucast (input ! 0), drop 1 input))"

lemma utf16_to_wchar_shorter:
  "utf16_to_wchar input = Some (wc, rest) \<Longrightarrow> input \<noteq> [] \<Longrightarrow> length rest < length input"
  by (cases input) (auto simp: utf16_to_wchar_def split: if_splits)

function exfat_utf16_to_utf8 :: "u16 list \<Rightarrow> nat \<Rightarrow> errno + bytes" where
  "exfat_utf16_to_utf8 iptr outsize =
    (if iptr \<noteq> [] then
       case utf16_to_wchar iptr of
         None \<Rightarrow> Inl EILSEQ
       | Some (wc, iptr') \<Rightarrow>
           (case wchar_to_utf8 wc outsize of
              None \<Rightarrow> Inl ENAMETOOLONG
            | Some bs \<Rightarrow>
                if wc = 0 then Inr bs
                else (case exfat_utf16_to_utf8 iptr' (outsize - length bs) of
                        Inl e \<Rightarrow> Inl e
                      | Inr out \<Rightarrow> Inr (bs @ out)))
     else if outsize = 0 then Inl ENAMETOOLONG
     else Inr [0])"
  by pat_completeness auto
termination
  by (relation "measure (length \<circ> fst)") (auto simp: utf16_to_wchar_shorter)

declare exfat_utf16_to_utf8.simps [simp del]

section \<open>From UTF-8 to UTF-16\<close>

text \<open>The lead byte: how many bytes the character has and its top bits.\<close>

definition utf8_lead :: "byte \<Rightarrow> (nat \<times> u32) option" where
  "utf8_lead b =
    (if b AND 0x80 = 0 then Some (1, ucast b)
     else if b AND 0xe0 = 0xc0 then Some (2, push_bit 6 (ucast b AND 0x1f))
     else if b AND 0xf0 = 0xe0 then Some (3, push_bit 12 (ucast b AND 0x0f))
     else if b AND 0xf8 = 0xf0 then Some (4, push_bit 18 (ucast b AND 0x07))
     else if b AND 0xfc = 0xf8 then Some (5, push_bit 24 (ucast b AND 0x03))
     else if b AND 0xfe = 0xfc then Some (6, push_bit 30 (ucast b AND 0x01))
     else None)"

fun utf8_tail :: "bytes \<Rightarrow> u32 \<Rightarrow> u32 option" where
  "utf8_tail [] wc = Some wc"
| "utf8_tail (b # bs) wc =
    (if b AND 0xc0 \<noteq> 0x80 then None
     else utf8_tail bs (wc OR push_bit (length bs * 6) (ucast (b AND 0x3f))))"

definition utf8_to_wchar :: "bytes \<Rightarrow> (u32 \<times> bytes) option" where
  "utf8_to_wchar input =
    (case utf8_lead (input ! 0) of
       None \<Rightarrow> None
     | Some (n, wc) \<Rightarrow>
         if length input < n then None
         else map_option (\<lambda>wc'. (wc', drop n input)) (utf8_tail (take (n - 1) (drop 1 input)) wc))"

definition wchar_to_utf16 :: "u32 \<Rightarrow> nat \<Rightarrow> u16 list option" where
  "wchar_to_utf16 wc outsize =
    (if wc \<le> 0xffff then
       if outsize = 0 then None else Some [ucast wc]
     else if outsize < 2 then None
     else let wc' = wc - 0x10000
          in Some [0xd800 OR (ucast (drop_bit 10 wc') AND 0x3ff), 0xdc00 OR (ucast wc' AND 0x3ff)])"

lemma utf8_to_wchar_shorter:
  "utf8_to_wchar input = Some (wc, rest) \<Longrightarrow> input \<noteq> [] \<Longrightarrow> length rest < length input"
  by (auto simp: utf8_to_wchar_def utf8_lead_def split: option.splits if_splits prod.splits)

function exfat_utf8_to_utf16 :: "bytes \<Rightarrow> nat \<Rightarrow> errno + u16 list" where
  "exfat_utf8_to_utf16 iptr outsize =
    (if iptr \<noteq> [] then
       case utf8_to_wchar iptr of
         None \<Rightarrow> Inl EILSEQ
       | Some (wc, iptr') \<Rightarrow>
           (case wchar_to_utf16 wc outsize of
              None \<Rightarrow> Inl ENAMETOOLONG
            | Some us \<Rightarrow>
                if wc = 0 then
                  (if length us \<ge> outsize then Inl ENAMETOOLONG else Inr (us @ [0]))
                else (case exfat_utf8_to_utf16 iptr' (outsize - length us) of
                        Inl e \<Rightarrow> Inl e
                      | Inr out \<Rightarrow> Inr (us @ out)))
     else if outsize = 0 then Inl ENAMETOOLONG
     else Inr [0])"
  by pat_completeness auto
termination
  by (relation "measure (length \<circ> fst)") (auto simp: utf8_to_wchar_shorter)

declare exfat_utf8_to_utf16.simps [simp del]

text \<open>What \<open>exfat_utf8_to_utf16\<close> has stored in its output when it returns, with an error or not.\<close>

function utf8_units :: "bytes \<Rightarrow> nat \<Rightarrow> u16 list" where
  "utf8_units iptr outsize =
    (if iptr \<noteq> [] then
       case utf8_to_wchar iptr of
         None \<Rightarrow> []
       | Some (wc, iptr') \<Rightarrow>
           (case wchar_to_utf16 wc outsize of
              None \<Rightarrow> []
            | Some us \<Rightarrow>
                if wc = 0 then (if length us \<ge> outsize then us else us @ [0])
                else us @ utf8_units iptr' (outsize - length us))
     else if outsize = 0 then []
     else [0])"
  by pat_completeness auto
termination
  by (relation "measure (length \<circ> fst)") (auto simp: utf8_to_wchar_shorter)

declare utf8_units.simps [simp del]

lemma utf8_units_result: "exfat_utf8_to_utf16 s n = Inr us \<Longrightarrow> utf8_units s n = us"
proof (induction s n arbitrary: us rule: exfat_utf8_to_utf16.induct)
  case (1 s n)
  show ?case
  proof (cases "s = []")
    case True
    then show ?thesis using "1.prems"
      by (simp add: utf8_units.simps exfat_utf8_to_utf16.simps split: if_splits)
  next
    case False
    then obtain wc rest w where st: "utf8_to_wchar s = Some (wc, rest)" "wchar_to_utf16 wc n = Some w"
      using "1.prems" by (subst (asm) exfat_utf8_to_utf16.simps) (auto split: option.splits)
    show ?thesis
    proof (cases "wc = 0")
      case True
      then show ?thesis using "1.prems" False st
        by (subst utf8_units.simps, subst (asm) exfat_utf8_to_utf16.simps) (auto split: if_splits)
    next
      case nz: False
      then obtain out where o: "exfat_utf8_to_utf16 rest (n - length w) = Inr out" "us = w @ out"
        using "1.prems" False st by (subst (asm) exfat_utf8_to_utf16.simps) (auto split: sum.splits)
      have "utf8_units rest (n - length w) = out"
        by (rule "1.IH" [OF False st(1) refl st(2) nz o(1)])
      then show ?thesis using False st nz o(2) by (subst utf8_units.simps) simp
    qed
  qed
qed

definition exfat_utf16_length :: "u16 list \<Rightarrow> nat" where
  "exfat_utf16_length str = length (takeWhile (\<lambda>c. c \<noteq> 0) str)"

section \<open>Each direction undoes the other\<close>

lemma enc_tail: "(ucast (0x80 OR (x AND 0x3f) :: u32) :: u8) AND 0xc0 = 0x80"
  by (simp add: eq_u8_bits bit_simps less_Suc_elim)

lemma decode1:
  assumes "unat wc < 2 ^ 7"
  shows "utf8_to_wchar (ucast wc # t) = Some (wc, t)"
proof -
  note b = bits_below [OF assms]
  show ?thesis
    by (simp add: utf8_to_wchar_def utf8_lead_def eq_u8_bits eq_u32_bits bit_simps b less_Suc_elim)
qed

lemma decode2:
  assumes "unat wc < 2 ^ 11"
  shows "utf8_to_wchar (ucast (0xc0 OR drop_bit 6 wc) # ucast (0x80 OR (wc AND 0x3f)) # t) = Some (wc, t)"
proof -
  note b = bits_below [OF assms]
  have "utf8_lead (ucast (0xc0 OR drop_bit 6 wc)) = Some (2, push_bit 6 (ucast (ucast (0xc0 OR drop_bit 6 wc) :: u8) AND 0x1f))"
    by (simp add: utf8_lead_def eq_u8_bits bit_simps b less_Suc_elim)
  then show ?thesis
    by (simp add: utf8_to_wchar_def enc_tail, simp add: eq_u32_bits bit_simps b less_Suc_elim)
qed

lemma decode3:
  assumes "unat wc < 2 ^ 16"
  shows "utf8_to_wchar (ucast (0xe0 OR drop_bit 12 wc) # ucast (0x80 OR (drop_bit 6 wc AND 0x3f)) # ucast (0x80 OR (wc AND 0x3f)) # t) = Some (wc, t)"
proof -
  note b = bits_below [OF assms]
  have "utf8_lead (ucast (0xe0 OR drop_bit 12 wc)) = Some (3, push_bit 12 (ucast (ucast (0xe0 OR drop_bit 12 wc) :: u8) AND 0xf))"
    by (simp add: utf8_lead_def eq_u8_bits bit_simps b less_Suc_elim)
  then show ?thesis
    by (simp add: utf8_to_wchar_def enc_tail, simp add: eq_u32_bits bit_simps b less_Suc_elim)
qed

lemma decode4:
  assumes "unat wc < 2 ^ 21"
  shows "utf8_to_wchar (ucast (0xf0 OR drop_bit 18 wc) # ucast (0x80 OR (drop_bit 12 wc AND 0x3f)) # ucast (0x80 OR (drop_bit 6 wc AND 0x3f)) # ucast (0x80 OR (wc AND 0x3f)) # t) = Some (wc, t)"
proof -
  note b = bits_below [OF assms]
  have "utf8_lead (ucast (0xf0 OR drop_bit 18 wc)) = Some (4, push_bit 18 (ucast (ucast (0xf0 OR drop_bit 18 wc) :: u8) AND 0x7))"
    by (simp add: utf8_lead_def eq_u8_bits bit_simps b less_Suc_elim)
  then show ?thesis
    by (simp add: utf8_to_wchar_def enc_tail, simp add: eq_u32_bits bit_simps b less_Suc_elim)
qed

lemma decode5:
  assumes "unat wc < 2 ^ 26"
  shows "utf8_to_wchar (ucast (0xf8 OR drop_bit 24 wc) # ucast (0x80 OR (drop_bit 18 wc AND 0x3f)) # ucast (0x80 OR (drop_bit 12 wc AND 0x3f)) # ucast (0x80 OR (drop_bit 6 wc AND 0x3f)) # ucast (0x80 OR (wc AND 0x3f)) # t) = Some (wc, t)"
proof -
  note b = bits_below [OF assms]
  have "utf8_lead (ucast (0xf8 OR drop_bit 24 wc)) = Some (5, push_bit 24 (ucast (ucast (0xf8 OR drop_bit 24 wc) :: u8) AND 0x3))"
    by (simp add: utf8_lead_def eq_u8_bits bit_simps b less_Suc_elim)
  then show ?thesis
    by (simp add: utf8_to_wchar_def enc_tail, simp add: eq_u32_bits bit_simps b less_Suc_elim)
qed

lemma decode6:
  assumes "unat wc < 2 ^ 31"
  shows "utf8_to_wchar (ucast (0xfc OR drop_bit 30 wc) # ucast (0x80 OR (drop_bit 24 wc AND 0x3f)) # ucast (0x80 OR (drop_bit 18 wc AND 0x3f)) # ucast (0x80 OR (drop_bit 12 wc AND 0x3f)) # ucast (0x80 OR (drop_bit 6 wc AND 0x3f)) # ucast (0x80 OR (wc AND 0x3f)) # t) = Some (wc, t)"
proof -
  note b = bits_below [OF assms]
  have "utf8_lead (ucast (0xfc OR drop_bit 30 wc)) = Some (6, push_bit 30 (ucast (ucast (0xfc OR drop_bit 30 wc) :: u8) AND 0x1))"
    by (simp add: utf8_lead_def eq_u8_bits bit_simps b less_Suc_elim)
  then show ?thesis
    by (simp add: utf8_to_wchar_def enc_tail, simp add: eq_u32_bits bit_simps b less_Suc_elim)
qed

lemma wchar_decode:
  assumes "wchar_to_utf8 wc n = Some bs"
  shows "utf8_to_wchar (bs @ t) = Some (wc, t)"
  using assms unfolding wchar_to_utf8_def
  by (auto split: if_splits simp: word_le_nat_alt
      intro!: decode1 decode2 decode3 decode4 decode5 decode6)

text \<open>One UTF-16 character: its value stays below 0x110000 and gives the same units back.\<close>

lemma surrogate_value:
  fixes hi lo :: u16
  defines "v \<equiv> push_bit 10 (ucast (hi AND 0x3ff)) OR ucast (lo AND 0x3ff) :: u32"
  shows "unat (v + 0x10000) = unat v + 0x10000" "0x10000 \<le> v + 0x10000" "v + 0x10000 \<le> 0x10ffff"
    "hi AND 0xfc00 = 0xd800 \<Longrightarrow> 0xd800 OR (ucast (drop_bit 10 v) AND 0x3ff) = hi"
    "lo AND 0xfc00 = 0xdc00 \<Longrightarrow> 0xdc00 OR (ucast v AND 0x3ff) = lo"
proof -
  have "v = take_bit 20 v"
    by (simp add: v_def eq_u32_bits bit_simps less_Suc_elim)
  then have "unat v < 2 ^ 20" by (metis take_bit_nat_less_exp unsigned_take_bit_eq)
  then show "unat (v + 0x10000) = unat v + 0x10000" "0x10000 \<le> v + 0x10000"
      "v + 0x10000 \<le> 0x10ffff"
    by (simp_all add: unat_word_ariths word_le_nat_alt)
  show "hi AND 0xfc00 = 0xd800 \<Longrightarrow> 0xd800 OR (ucast (drop_bit 10 v) AND 0x3ff) = hi"
    by (simp add: v_def eq_u16_bits bit_simps less_Suc_elim)
  show "lo AND 0xfc00 = 0xdc00 \<Longrightarrow> 0xdc00 OR (ucast v AND 0x3ff) = lo"
    by (simp add: v_def eq_u16_bits bit_simps less_Suc_elim)
qed


text \<open>What one step of the UTF-16 loop consumes, \<open>used\<close>, is what the other direction writes.\<close>

lemma utf16_unit:
  assumes "utf16_to_wchar us = Some (wc, rest)" "us \<noteq> []"
  obtains used where "us = used @ rest" "used \<noteq> []" "wc = 0 \<Longrightarrow> used = [0]"
    "wc \<noteq> 0 \<Longrightarrow> 0 \<notin> set used"
    "\<And>m. length used \<le> m \<Longrightarrow> wchar_to_utf16 wc m = Some used"
    "\<And>n. 3 * length used \<le> n \<Longrightarrow> \<exists>bs. wchar_to_utf8 wc n = Some bs \<and> length bs \<le> 3 * length used"
proof (cases "us ! 0 AND 0xfc00 = 0xd800")
  case True
  then obtain hi lo where us: "us = hi # lo # rest" and hi: "hi AND 0xfc00 = 0xd800"
    and lo: "lo AND 0xfc00 = 0xdc00"
    and wc: "wc = (push_bit 10 (ucast (hi AND 0x3ff)) OR ucast (lo AND 0x3ff)) + 0x10000"
    using assms by (cases us; cases "tl us") (auto simp: utf16_to_wchar_def split: if_splits)
  define v where "v = (push_bit 10 (ucast (hi AND 0x3ff)) OR ucast (lo AND 0x3ff) :: u32)"
  note s = surrogate_value [where hi = hi and lo = lo, folded v_def]
  have "wc - 0x10000 = v" using wc by (simp add: v_def)
  note v = s [folded wc [folded v_def]]
  have nz: "hi \<noteq> 0" "lo \<noteq> 0" using hi lo by auto
  have wc0: "wc \<noteq> 0" "\<not> wc \<le> 0xffff" "wc \<le> 0x1fffff" using v by (auto simp: word_le_nat_alt)
  have "wchar_to_utf16 wc m = Some [hi, lo]" if "2 \<le> m" for m
    using that wc0 v(4) [OF hi] v(5) [OF lo] \<open>wc - 0x10000 = v\<close> by (simp add: wchar_to_utf16_def)
  moreover have "\<exists>bs. wchar_to_utf8 wc n = Some bs \<and> length bs \<le> 6" if "6 \<le> n" for n
    using that wc0 by (auto simp: wchar_to_utf8_def)
  ultimately show ?thesis
    using that [of "[hi, lo]"] us nz wc0 by simp
next
  case False
  then obtain c where us: "us = c # rest" and wc: "wc = ucast c"
    using assms by (cases us) (auto simp: utf16_to_wchar_def split: if_splits)
  have "wc \<le> 0xffff" using unsigned_less [of c, where 'a = nat]
    by (simp add: wc word_le_nat_alt unsigned_ucast_eq take_bit_nat_eq_self)
  moreover have "ucast wc = c" by (simp add: wc eq_u16_bits bit_simps)
  moreover have "wc = 0 \<longleftrightarrow> c = 0" using calculation(2) wc by auto
  ultimately show ?thesis
    using that [of "[c]"] us by (auto simp: wchar_to_utf16_def wchar_to_utf8_def)
qed

lemma utf16_to_utf8_not_Nil: "exfat_utf16_to_utf8 us n = Inr bs \<Longrightarrow> bs \<noteq> []"
proof (induction us n arbitrary: bs rule: exfat_utf16_to_utf8.induct)
  case (1 us n)
  from "1.prems" show ?case
    by (subst (asm) exfat_utf16_to_utf8.simps)
       (auto simp: wchar_to_utf8_def split: if_splits option.splits sum.splits prod.splits)
qed

lemma wchar_to_utf8_not_Nil: "wchar_to_utf8 wc n = Some bs \<Longrightarrow> bs \<noteq> []"
  by (auto simp: wchar_to_utf8_def split: if_splits)

lemma utf16_utf8_round_trip:
  assumes "exfat_utf16_to_utf8 us n = Inr bs" "length us < m"
  shows "exfat_utf8_to_utf16 (butlast bs) m = Inr (takeWhile (\<lambda>c. c \<noteq> 0) us @ [0])"
  using assms
proof (induction us n arbitrary: bs m rule: exfat_utf16_to_utf8.induct)
  case (1 us n)
  show ?case
  proof (cases "us = []")
    case True
    then show ?thesis using "1.prems"
      by (subst exfat_utf8_to_utf16.simps) (auto simp: exfat_utf16_to_utf8.simps split: if_splits)
  next
    case us: False
    from "1.prems"(1) us obtain wc rest b where st: "utf16_to_wchar us = Some (wc, rest)"
      and b: "wchar_to_utf8 wc n = Some b"
      by (subst (asm) exfat_utf16_to_utf8.simps) (auto split: option.splits)
    obtain used where u: "us = used @ rest" "used \<noteq> []" "wc = 0 \<Longrightarrow> used = [0]"
      "wc \<noteq> 0 \<Longrightarrow> 0 \<notin> set used" "\<And>m. length used \<le> m \<Longrightarrow> wchar_to_utf16 wc m = Some used"
      using utf16_unit [OF st us] by metis
    show ?thesis
    proof (cases "wc = 0")
      case True
      then have "bs = [0]" 
        using "1.prems"(1) us st b by (subst (asm) exfat_utf16_to_utf8.simps)
          (auto simp: wchar_to_utf8_def split: if_splits)
      then show ?thesis using "1.prems"(2) u True by (simp add: exfat_utf8_to_utf16.simps)
    next
      case False
      then obtain out where o: "exfat_utf16_to_utf8 rest (n - length b) = Inr out" "bs = b @ out"
        using "1.prems"(1) us st b by (subst (asm) exfat_utf16_to_utf8.simps)
          (auto split: sum.splits)
      have ih: "exfat_utf8_to_utf16 (butlast out) (m - length used)
          = Inr (takeWhile (\<lambda>c. c \<noteq> 0) rest @ [0])"
        using "1.IH" [OF us st refl b False o(1)] "1.prems"(2) u(1,2) by simp
      have bl: "butlast bs = b @ butlast out"
        using o utf16_to_utf8_not_Nil by (simp add: butlast_append)
      have "exfat_utf8_to_utf16 (butlast bs) m = Inr (used @ takeWhile (\<lambda>c. c \<noteq> 0) rest @ [0])"
        unfolding bl using wchar_decode [OF b] u(5) [of m] "1.prems"(2) u(1) False ih
          wchar_to_utf8_not_Nil [OF b]
        by (subst exfat_utf8_to_utf16.simps) simp
      moreover have "takeWhile (\<lambda>c. c \<noteq> 0) us = used @ takeWhile (\<lambda>c. c \<noteq> 0) rest"
        unfolding u(1) by (rule takeWhile_append2) (use u(4) [OF False] in auto)
      ultimately show ?thesis by simp
    qed
  qed
qed

lemma utf16_to_utf8_fits:
  assumes "3 * length us < n"
  shows "exfat_utf16_to_utf8 us n \<noteq> Inl ENAMETOOLONG"
  using assms
proof (induction us n rule: exfat_utf16_to_utf8.induct)
  case (1 us n)
  show ?case
  proof (cases "us = [] \<or> utf16_to_wchar us = None")
    case True
    then show ?thesis using "1.prems" by (subst exfat_utf16_to_utf8.simps) auto
  next
    case False
    then obtain wc rest where st: "utf16_to_wchar us = Some (wc, rest)" and us: "us \<noteq> []" by auto
    obtain used where u: "us = used @ rest"
      "\<And>n. 3 * length used \<le> n \<Longrightarrow> \<exists>bs. wchar_to_utf8 wc n = Some bs \<and> length bs \<le> 3 * length used"
      using utf16_unit [OF st us] by metis
    obtain b where b: "wchar_to_utf8 wc n = Some b" "length b \<le> 3 * length used"
      using u(2) [of n] u(1) "1.prems" by auto
    show ?thesis
    proof (cases "wc = 0")
      case True
      then show ?thesis using st us b by (subst exfat_utf16_to_utf8.simps) simp
    next
      case False
      have "3 * length rest < n - length b" using "1.prems" u(1) b(2) by simp
      then have "exfat_utf16_to_utf8 rest (n - length b) \<noteq> Inl ENAMETOOLONG"
        by (rule "1.IH" [OF us st refl b(1) False])
      then show ?thesis using st us b False
        by (subst exfat_utf16_to_utf8.simps) (auto split: sum.splits)
    qed
  qed
qed

section \<open>Properties\<close>

text \<open>Names survive the trip through UTF-8: whenever a UTF-16 name converts, feeding the
  UTF-8 bytes (without the terminator) back gives the name up to its first NUL, followed by the
  terminator, provided the output has room for one unit more than the input. Surrogate pairs
  included.\<close>

theorem utf8_name_converts_back:
  assumes "exfat_utf16_to_utf8 us outsize = Inr bs" "length us < m"
  shows "exfat_utf8_to_utf16 (butlast bs) m = Inr (takeWhile (\<lambda>c. c \<noteq> 0) us @ [0])"
  using assms by (rule utf16_utf8_round_trip)

lemma utf8_name_converts_back_witness:
  "exfat_utf8_to_utf16 [0x41, 0xf0, 0x9f, 0x98, 0x80] 5 = Inr [0x41, 0xd83d, 0xde00, 0]"
proof -
  have "exfat_utf16_to_utf8 [0x41, 0xd83d, 0xde00, 0] 10 = Inr [0x41, 0xf0, 0x9f, 0x98, 0x80, 0]"
    by (simp add: exfat_utf16_to_utf8.simps utf16_to_wchar_def wchar_to_utf8_def)
  from utf8_name_converts_back [OF this, of 5] show ?thesis by simp
qed

text \<open>The buffer size in exfat.h is enough: a name of at most 255 UTF-16 units never fails
  to convert for lack of room in a buffer of 255 * 3 + 1 bytes, so \<open>exfat_get_name\<close> can only
  stop at an ill-formed name.\<close>

theorem name_buffer_suffices:
  assumes "length us \<le> 255"
  shows "exfat_utf16_to_utf8 us (255 * 3 + 1) \<noteq> Inl ENAMETOOLONG"
  by (rule utf16_to_utf8_fits) (use assms in simp)

lemma name_buffer_suffices_witness:
  "exfat_utf16_to_utf8 (replicate 255 0xffff) 766 \<noteq> Inl ENAMETOOLONG"
  using name_buffer_suffices [of "replicate 255 0xffff"] by simp

end
