(* ===== verification/ExfatUtils.thy ===== *)
theory ExfatUtils
  imports Prelude
begin

text \<open>
  utils.c of the exFAT engine: the rotating checksums of directory entries, of the volume boot
  record and of file names, and the conversion of byte counts for display.
\<close>

section \<open>Checksums\<close>

definition add_checksum_byte :: "u16 \<Rightarrow> u8 \<Rightarrow> u16" where
  "add_checksum_byte ck byte = (push_bit 15 ck OR drop_bit 1 ck) + ucast byte"

definition add_checksum_bytes :: "u16 \<Rightarrow> bytes \<Rightarrow> nat \<Rightarrow> u16" where
  "add_checksum_bytes ck buffer n = foldl add_checksum_byte ck (take n buffer)"

text \<open>Directory entries are 32 bytes; bytes 2 and 3 of the first hold the checksum itself.\<close>

definition exfat_start_checksum :: "bytes \<Rightarrow> u16" where
  "exfat_start_checksum entry =
    foldl (\<lambda>ck i. if i \<noteq> 2 \<and> i \<noteq> 3 then add_checksum_byte ck (entry ! i) else ck) 0 [0..<32]"

definition exfat_add_checksum :: "bytes \<Rightarrow> u16 \<Rightarrow> u16" where
  "exfat_add_checksum entry ck = add_checksum_bytes ck entry 32"

definition exfat_calc_checksum :: "bytes list \<Rightarrow> nat \<Rightarrow> u16" where
  "exfat_calc_checksum entries n =
    foldl (\<lambda>checksum i. exfat_add_checksum (entries ! i) checksum)
      (exfat_start_checksum (entries ! 0)) [1..<n]"

definition vbr_checksum_byte :: "u32 \<Rightarrow> u8 \<Rightarrow> u32" where
  "vbr_checksum_byte ck byte = (push_bit 31 ck OR drop_bit 1 ck) + ucast byte"

definition exfat_vbr_start_checksum :: "bytes \<Rightarrow> nat \<Rightarrow> u32" where
  "exfat_vbr_start_checksum sector n =
    foldl (\<lambda>ck i. if i \<noteq> 0x6a \<and> i \<noteq> 0x6b \<and> i \<noteq> 0x70 then vbr_checksum_byte ck (sector ! i)
                   else ck) 0 [0..<n]"

definition exfat_vbr_add_checksum :: "bytes \<Rightarrow> nat \<Rightarrow> u32 \<Rightarrow> u32" where
  "exfat_vbr_add_checksum sector n ck = foldl vbr_checksum_byte ck (take n sector)"

definition name_hash_step :: "u16 list \<Rightarrow> u16 \<Rightarrow> u16 \<Rightarrow> u16" where
  "name_hash_step upcase hash c =
    (let c' = upcase ! unat c;
         hash' = (push_bit 15 hash OR drop_bit 1 hash) + (c' AND 0xff)
     in (push_bit 15 hash' OR drop_bit 1 hash') + drop_bit 8 c')"

definition exfat_calc_name_hash :: "u16 list \<Rightarrow> u16 list \<Rightarrow> nat \<Rightarrow> u16" where
  "exfat_calc_name_hash upcase name n = foldl (name_hash_step upcase) 0 (take n name)"

section \<open>Byte counts for display\<close>

text \<open>The loop of \<open>exfat_humanize_bytes\<close>; \<open>None\<close> is a division by zero. The result is the
  rounded value and the index of its unit.\<close>

partial_function (option) humanize_loop :: "u64 \<Rightarrow> u64 \<Rightarrow> nat \<Rightarrow> (u64 \<times> nat) option" where
  "humanize_loop v divisor i =
    (if divisor = 0 then None
     else let temp = (v + divisor div 2) div divisor
          in if temp = 0 then Some (temp, i)
             else if temp div 1024 * 1024 = temp then humanize_loop v (divisor * 1024) (i + 1)
             else if temp < 10240 then Some (temp, i)
             else humanize_loop v (divisor * 1024) (i + 1))"

definition units :: "string list" where
  "units = [''bytes'', ''KB'', ''MB'', ''GB'', ''TB'', ''PB'', ''EB'']"

definition exfat_humanize_bytes :: "u64 \<Rightarrow> (u64 \<times> string) option" where
  "exfat_humanize_bytes v =
    (case humanize_loop v 1 0 of
       None \<Rightarrow> None
     | Some (temp, i) \<Rightarrow> if i < length units then Some (temp, units ! i) else None)"

section \<open>What a rotating sum detects\<close>

locale byte_sum =
  fixes step :: "'s \<Rightarrow> u8 \<Rightarrow> 's"
  assumes sum_inj: "step s b = step s' b \<Longrightarrow> s = s'"
    and byte_inj: "step s b = step s b' \<Longrightarrow> b = b'"
begin

lemma run_inj: "foldl step s xs = foldl step s' xs \<Longrightarrow> s = s'"
  by (induction xs arbitrary: s s') (auto dest: sum_inj)

lemma one_byte: "foldl step s (xs @ b # ys) = foldl step s (xs @ b' # ys) \<Longrightarrow> b = b'"
  by (auto dest!: run_inj byte_inj)

lemma detects:
  assumes "i < length xs" "foldl step s (xs[i := b]) = foldl step s xs"
  shows "b = xs ! i"
proof -
  have "xs = take i xs @ xs ! i # drop (Suc i) xs" "xs[i := b] = take i xs @ b # drop (Suc i) xs"
    using assms(1) by (simp_all add: id_take_nth_drop upd_conv_take_nth_drop)
  then show ?thesis using assms(2) one_byte by metis
qed

text \<open>Positions where \<open>P\<close> fails are left out of the sum.\<close>

lemma detects_masked:
  assumes i: "i < n" "n \<le> length xs" and b: "b \<noteq> xs ! i"
  shows "foldl step s (map ((!) (xs[i := b])) (filter P [0..<n]))
      = foldl step s (map ((!) xs) (filter P [0..<n])) \<longleftrightarrow> \<not> P i"
proof (cases "P i")
  case False
  then have "map ((!) (xs[i := b])) (filter P [0..<n]) = map ((!) xs) (filter P [0..<n])"
    by (intro map_cong refl nth_list_update_neq) auto
  then show ?thesis using False by (simp only: simp_thms)
next
  case True
  then have "i \<in> set (filter P [0..<n])" using i by simp
  then obtain p q where pq: "filter P [0..<n] = p @ i # q" by (meson split_list)
  moreover have "distinct (filter P [0..<n])" by simp
  ultimately have "i \<notin> set p" "i \<notin> set q" by auto
  then have "map ((!) (xs[i := b])) p = map ((!) xs) p" "map ((!) (xs[i := b])) q = map ((!) xs) q"
    by (intro map_cong refl nth_list_update_neq; blast)+
  then have "map ((!) (xs[i := b])) (p @ i # q) = map ((!) xs) p @ b # map ((!) xs) q"
    using i by (simp only: map_append list.map) simp
  then show ?thesis using True b one_byte unfolding pq by (simp only: map_append list.map) blast
qed

lemma detects_in_blocks:
  assumes k: "k < length xss" and i: "i < length (xss ! k)" and b: "b \<noteq> xss ! k ! i"
  shows "foldl step s (concat (xss[k := (xss ! k)[i := b]])) \<noteq> foldl step s (concat xss)"
proof
  assume eq: "foldl step s (concat (xss[k := (xss ! k)[i := b]])) = foldl step s (concat xss)"
  have x: "xss = take k xss @ xss ! k # drop (Suc k) xss" using k by (simp add: id_take_nth_drop)
  have y: "xss[k := c] = take k xss @ c # drop (Suc k) xss" for c
    using k by (simp add: upd_conv_take_nth_drop)
  have "concat xss = concat (take k xss) @ xss ! k @ concat (drop (Suc k) xss)"
    by (subst x) simp
  with eq have "foldl step (foldl step s (concat (take k xss))) ((xss ! k)[i := b])
      = foldl step (foldl step s (concat (take k xss))) (xss ! k)"
    unfolding y by (auto dest: run_inj)
  then show False using detects [OF i] b by blast
qed

end

lemma rot16_inj:
  assumes "push_bit 15 s OR drop_bit 1 s = (push_bit 15 s' OR drop_bit 1 s' :: u16)"
  shows "s = s'"
  using assms bit_imp_le_length [of s 16] bit_imp_le_length [of s' 16]
  by (simp add: eq_u16_bits bit_simps less_Suc_elim flip: numeral_2_eq_2) argo

lemma rot32_inj:
  assumes "push_bit 31 s OR drop_bit 1 s = (push_bit 31 s' OR drop_bit 1 s' :: u32)"
  shows "s = s'"
  using assms bit_imp_le_length [of s 32] bit_imp_le_length [of s' 32]
  by (simp add: eq_u32_bits bit_simps less_Suc_elim flip: numeral_2_eq_2) argo

lemma byte_to_word_inj:
  "(ucast (b :: u8) :: u16) = ucast b' \<Longrightarrow> b = b'" "(ucast (b :: u8) :: u32) = ucast b' \<Longrightarrow> b = b'"
  by (simp_all add: eq_u16_bits eq_u32_bits eq_u8_bits bit_simps less_Suc_elim)

interpretation sum16: byte_sum add_checksum_byte
  by unfold_locales
    (unfold add_checksum_byte_def, blast dest: add_right_imp_eq rot16_inj,
      blast dest: add_left_imp_eq byte_to_word_inj)

interpretation sum32: byte_sum vbr_checksum_byte
  by unfold_locales
    (unfold vbr_checksum_byte_def, blast dest: add_right_imp_eq rot32_inj,
      blast dest: add_left_imp_eq byte_to_word_inj)

lemma foldl_skip:
  "foldl (\<lambda>s i. if P i then f s (xs ! i) else s) a is = foldl f a (map ((!) xs) (filter P is))"
  by (induction "is" arbitrary: a) auto

lemma start_checksum_bytes:
  "exfat_start_checksum entry
    = foldl add_checksum_byte 0 (map ((!) entry) (filter (\<lambda>i. i \<noteq> 2 \<and> i \<noteq> 3) [0..<32]))"
  unfolding exfat_start_checksum_def
  by (rule foldl_skip [where P = "\<lambda>i. i \<noteq> 2 \<and> i \<noteq> 3"])

lemma vbr_start_checksum_bytes:
  "exfat_vbr_start_checksum sector n = foldl vbr_checksum_byte 0
     (map ((!) sector) (filter (\<lambda>i. i \<noteq> 0x6a \<and> i \<noteq> 0x6b \<and> i \<noteq> 0x70) [0..<n]))"
  unfolding exfat_vbr_start_checksum_def
  by (rule foldl_skip [where P = "\<lambda>i. i \<noteq> 0x6a \<and> i \<noteq> 0x6b \<and> i \<noteq> 0x70"])

lemma vbr_start_checksum_cong:
  assumes "\<And>i. i < n \<Longrightarrow> i \<noteq> 0x6a \<Longrightarrow> i \<noteq> 0x6b \<Longrightarrow> i \<noteq> 0x70 \<Longrightarrow> a ! i = b ! i"
  shows "exfat_vbr_start_checksum a n = exfat_vbr_start_checksum b n"
  unfolding vbr_start_checksum_bytes by (rule arg_cong [where f = "foldl _ _"]) (auto intro: assms)

lemma start_checksum_cong:
  assumes "\<And>i. i < 32 \<Longrightarrow> i \<noteq> 2 \<Longrightarrow> i \<noteq> 3 \<Longrightarrow> a ! i = b ! i"
  shows "exfat_start_checksum a = exfat_start_checksum b"
  unfolding start_checksum_bytes by (rule arg_cong [where f = "foldl _ _"]) (auto intro: assms)

lemma calc_checksum_bytes:
  assumes "\<And>e. e \<in> set es \<Longrightarrow> length e = 32"
  shows "exfat_calc_checksum (e # es) (Suc (length es))
    = foldl add_checksum_byte (exfat_start_checksum e) (concat es)"
proof -
  have *: "foldl (\<lambda>c i. exfat_add_checksum ((e # es) ! i) c) s [1..<Suc (length es)]
      = foldl (\<lambda>c x. exfat_add_checksum x c) s es" for s
  proof -
    have "es = map (\<lambda>i. (e # es) ! i) [1..<Suc (length es)]"
      by (rule nth_equalityI) (simp_all del: upt_Suc)
    then have "foldl (\<lambda>c x. exfat_add_checksum x c) s es
        = foldl (\<lambda>c x. exfat_add_checksum x c) s (map (\<lambda>i. (e # es) ! i) [1..<Suc (length es)])"
      by (rule arg_cong)
    then show ?thesis by (simp only: foldl_map)
  qed
  have "foldl (\<lambda>c x. exfat_add_checksum x c) s es = foldl add_checksum_byte s (concat es)" for s
    using assms
    by (induction es arbitrary: s) (simp_all add: exfat_add_checksum_def add_checksum_bytes_def)
  then show ?thesis using * by (simp add: exfat_calc_checksum_def)
qed

section \<open>Properties\<close>

text \<open>The checksum of a directory entry set notices every change of a single byte of the set,
  wherever it is, except in the two bytes of the first entry that hold the checksum: those do
  not enter the sum.\<close>

theorem entry_checksum_detects_any_byte:
  assumes len: "\<forall>e\<in>set entries. length e = 32" and k: "k < length entries" and i: "i < 32"
    and b: "b \<noteq> entries ! k ! i"
  shows "exfat_calc_checksum (entries[k := (entries ! k)[i := b]]) (length entries)
      = exfat_calc_checksum entries (length entries) \<longleftrightarrow> k = 0 \<and> (i = 2 \<or> i = 3)"
proof -
  obtain e es where es: "entries = e # es" using k by (cases entries) auto
  have l: "length e = 32" "\<And>x. x \<in> set es \<Longrightarrow> length x = 32" using len es by auto
  show ?thesis
  proof (cases k)
    case 0
    have "exfat_calc_checksum (e[i := b] # es) (length entries) = exfat_calc_checksum (e # es) (length entries)
      \<longleftrightarrow> exfat_start_checksum (e[i := b]) = exfat_start_checksum e"
      using es l by (auto simp: calc_checksum_bytes dest: sum16.run_inj)
    also have "\<dots> \<longleftrightarrow> i = 2 \<or> i = 3"
      unfolding start_checksum_bytes
      using sum16.detects_masked [of i 32 e b 0 "\<lambda>i. i \<noteq> 2 \<and> i \<noteq> 3"] i l b es 0 by auto
    finally show ?thesis using es 0 by simp
  next
    case (Suc k')
    have k': "k' < length es" "i < length (es ! k')" "b \<noteq> es ! k' ! i" using Suc k es i l b by auto
    have "x \<in> set (es[k' := (es ! k')[i := b]]) \<Longrightarrow> length x = 32" for x
      using l(2) k'(1) by (auto dest!: set_update_subset_insert [THEN subsetD])
    then show ?thesis
      using sum16.detects_in_blocks [OF k'] es Suc l(2) calc_checksum_bytes
      by (metis length_list_update length_Cons list_update_code(3) nat.distinct(1) nth_Cons_Suc)
  qed
qed

lemma entry_checksum_detects_any_byte_witness:
  "exfat_calc_checksum ([replicate 32 0, replicate 32 1][1 := (replicate 32 1)[5 := 9]]) 2
     \<noteq> exfat_calc_checksum [replicate 32 0, replicate 32 1] 2"
  using entry_checksum_detects_any_byte [of "[replicate 32 0, replicate 32 1]" 1 5 9]
  by (simp flip: numeral_2_eq_2)

text \<open>The boot record checksum ignores exactly the volume state word and the percentage in
  use, the fields drivers change without rewriting it, and notices every other single byte.\<close>

theorem vbr_checksum_detects_any_byte:
  assumes "i < n" "n \<le> length sector" "b \<noteq> sector ! i"
  shows "exfat_vbr_start_checksum (sector[i := b]) n = exfat_vbr_start_checksum sector n
    \<longleftrightarrow> i = 0x6a \<or> i = 0x6b \<or> i = 0x70"
  unfolding vbr_start_checksum_bytes
  using sum32.detects_masked [of i n sector b 0 "\<lambda>i. i \<noteq> 0x6a \<and> i \<noteq> 0x6b \<and> i \<noteq> 0x70"] assms by auto

lemma vbr_checksum_detects_any_byte_witness:
  "exfat_vbr_start_checksum ((replicate 512 0)[0x70 := 99]) 512
      = exfat_vbr_start_checksum (replicate 512 0) 512
    \<and> exfat_vbr_start_checksum ((replicate 512 0)[0x6d := 3]) 512
      \<noteq> exfat_vbr_start_checksum (replicate 512 0) 512"
  using vbr_checksum_detects_any_byte [where i = "0x70" and n = "512" and sector = "replicate 512 0" and b = "99"]
    vbr_checksum_detects_any_byte [where i = "0x6d" and n = "512" and sector = "replicate 512 0" and b = "3"]
  by simp

section \<open>Display of byte counts\<close>

lemma pow1024:
  assumes "i \<le> 5"
  shows "(2 :: u64) ^ (10 * i) * 1024 = 2 ^ (10 * Suc i)"
proof -
  have "(1024 :: u64) = 2 ^ 10" by simp
  then show ?thesis by (simp only: power_add [symmetric]) (simp add: ac_simps)
qed

lemma unat_pow1024: "i \<le> 6 \<Longrightarrow> unat ((2 :: u64) ^ (10 * i)) = 2 ^ (10 * i)"
proof -
  assume "i \<le> 6"
  then have "i \<in> {0, 1, 2, 3, 4, 5, 6}" by auto
  then show ?thesis by auto
qed

lemma pow1024_nonzero: "i \<le> 6 \<Longrightarrow> (2 :: u64) ^ (10 * i) \<noteq> 0"
  using unat_pow1024 [of i] by (auto simp: unat_eq_0)

lemma humanize_step:
  assumes "divisor \<noteq> 0" "t = (v + divisor div 2) div divisor"
  shows "humanize_loop v divisor i
    = (if t = 0 then Some (t, i)
       else if t div 1024 * 1024 = t then humanize_loop v (divisor * 1024) (i + 1)
       else if t < 10240 then Some (t, i) else humanize_loop v (divisor * 1024) (i + 1))"
  using assms by (subst humanize_loop.simps) (simp add: Let_def)

lemma humanize_last:
  "\<exists>t. humanize_loop v (2 ^ (10 * 6)) 6 = Some (t, 6)
     \<and> t = (v + 2 ^ (10 * 6) div 2) div 2 ^ (10 * 6)"
proof -
  define t where "t = (v + 2 ^ (10 * 6) div 2) div 2 ^ (10 * 6 :: nat)"
  have "unat t = unat (v + 2 ^ (10 * 6) div 2) div 2 ^ 60"
    unfolding t_def by (subst unat_div) simp
  moreover have "unat (v + 2 ^ (10 * 6) div 2) < 2 ^ 64"
    using unsigned_less [where 'a = nat and w = "v + 2 ^ (10 * 6) div 2"] by simp
  ultimately have "unat t < 16" by simp
  then have "unat (t div 1024) = 0" by (subst unat_div) simp
  then have "t div 1024 = 0" by (simp add: unat_eq_0)
  moreover have "t < 10240" using \<open>unat t < 16\<close> by (simp add: word_less_nat_alt)
  ultimately show ?thesis
    using humanize_step [OF pow1024_nonzero [of 6] t_def] by (auto simp: t_def)
qed

lemma humanize_loop_returns:
  assumes "i \<le> 6"
  shows "\<exists>t j. humanize_loop v (2 ^ (10 * i)) i = Some (t, j) \<and> i \<le> j \<and> j \<le> 6
    \<and> t = (v + 2 ^ (10 * j) div 2) div 2 ^ (10 * j)"
  using assms
proof (induction "6 - i" arbitrary: i)
  case 0
  then have "i = 6" by simp
  then show ?case using humanize_last by auto
next
  case (Suc k)
  then have i: "i \<le> 5" "k = 6 - (i + 1)" by auto
  define t where "t = (v + 2 ^ (10 * i) div 2) div (2 ^ (10 * i) :: u64)"
  have step: "humanize_loop v (2 ^ (10 * i)) i
    = (if t = 0 then Some (t, i)
       else if t div 1024 * 1024 = t then humanize_loop v (2 ^ (10 * (i + 1))) (i + 1)
       else if t < 10240 then Some (t, i) else humanize_loop v (2 ^ (10 * (i + 1))) (i + 1))"
    using humanize_step [OF pow1024_nonzero t_def] i pow1024 [OF i(1)] by simp
  obtain t' j where "humanize_loop v (2 ^ (10 * (i + 1))) (i + 1) = Some (t', j)" "i + 1 \<le> j"
    "j \<le> 6" "t' = (v + 2 ^ (10 * j) div 2) div 2 ^ (10 * j)"
    using Suc.hyps(1) [OF i(2)] i by auto
  then show ?case unfolding step using i t_def by auto
qed

text \<open>\<open>exfat_humanize_bytes\<close> always stops, before its divisor overflows to zero and inside
  the table of units, and the count it shows is the given one divided by the unit's size and
  rounded to nearest, for every value that leaves room for the rounding term (all below
  2^63, say).\<close>

theorem humanize_rounds_to_a_unit:
  assumes "unat v < 2 ^ 63"
  shows "\<exists>t i. exfat_humanize_bytes v = Some (t, units ! i) \<and> i < length units
    \<and> unat t = (unat v + 1024 ^ i div 2) div 1024 ^ i"
proof -
  obtain t j where h: "humanize_loop v 1 0 = Some (t, j)" "j \<le> 6"
    "t = (v + 2 ^ (10 * j) div 2) div 2 ^ (10 * j)"
    using humanize_loop_returns [of 0 v] by auto
  have p: "(1024 :: nat) ^ j = 2 ^ (10 * j)" by (simp add: power_mult)
  have "(2 :: nat) ^ (10 * j) \<le> 2 ^ 60" using h(2) by (intro power_increasing) auto
  then have small: "unat v + 2 ^ (10 * j) div 2 < 2 ^ 64" using assms by simp
  have "unat ((2 :: u64) ^ (10 * j) div 2) = 2 ^ (10 * j) div 2"
    by (subst unat_div) (simp add: unat_pow1024 [OF h(2)])
  then have "unat (v + 2 ^ (10 * j) div 2) = unat v + 2 ^ (10 * j) div 2"
    using small by (subst unat_word_ariths) simp
  then have "unat t = (unat v + 1024 ^ j div 2) div 1024 ^ j"
    unfolding h(3) by (subst unat_div) (simp add: unat_pow1024 [OF h(2)] p)
  moreover have "j < length units" using h(2) by (simp add: units_def)
  ultimately show ?thesis using h(1) by (auto simp: exfat_humanize_bytes_def)
qed

lemma humanize_rounds_to_a_unit_witness:
  "\<exists>t i. exfat_humanize_bytes 1536 = Some (t, units ! i) \<and> i < length units
    \<and> unat t = (1536 + 1024 ^ i div 2) div 1024 ^ i"
  using humanize_rounds_to_a_unit [of 1536] by simp

text \<open>The comment above the table says a value up to 16 EB minus 1 byte can be shown, but
  adding half a unit wraps around: the largest 64-bit count is shown as 0 KB.\<close>

theorem humanize_wraps_at_the_top:
  "exfat_humanize_bytes 0xffffffffffffffff = Some (0, ''KB'')"
proof -
  have "humanize_loop 0xffffffffffffffff 1024 (Suc 0) = Some (0, Suc 0)"
    by (subst humanize_loop.simps) simp
  then show ?thesis
    by (simp add: exfat_humanize_bytes_def humanize_loop.simps [of _ 1] units_def)
qed

end
