(* ===== verification/ExfatTime.thy ===== *)
theory ExfatTime
  imports Prelude
begin

text \<open>
  time.c of the exFAT engine: 64-bit Unix times against the packed date and time fields on disk.
  The global \<open>exfat_timezone\<close> (seconds west of UTC) is the parameter \<open>tz\<close>. Times and day
  counts are integers: no intermediate of the conversions comes near the ends of their C types
  for a year that the seven bits of the date can hold.
\<close>

section \<open>Constants\<close>

definition SEC_IN_MIN :: int where "SEC_IN_MIN = 60"
definition SEC_IN_HOUR :: int where "SEC_IN_HOUR = 60 * SEC_IN_MIN"
definition SEC_IN_DAY :: int where "SEC_IN_DAY = 24 * SEC_IN_HOUR"
definition SEC_IN_YEAR :: int where "SEC_IN_YEAR = 365 * SEC_IN_DAY"
definition UNIX_EPOCH_YEAR :: int where "UNIX_EPOCH_YEAR = 1970"
definition EXFAT_EPOCH_YEAR :: int where "EXFAT_EPOCH_YEAR = 1980"
definition EPOCH_DIFF_YEAR :: int where "EPOCH_DIFF_YEAR = EXFAT_EPOCH_YEAR - UNIX_EPOCH_YEAR"

definition EPOCH_DIFF_DAYS :: int where
  "EPOCH_DIFF_DAYS = EPOCH_DIFF_YEAR * 365 + EPOCH_DIFF_YEAR sdiv 4"

definition EPOCH_DIFF_SEC :: int where "EPOCH_DIFF_SEC = EPOCH_DIFF_DAYS * SEC_IN_DAY"

definition LEAP_YEARS :: "int \<Rightarrow> int" where
  "LEAP_YEARS year = (EXFAT_EPOCH_YEAR + year - 1) sdiv 4 - (EXFAT_EPOCH_YEAR - 1) sdiv 4"

definition IS_LEAP_YEAR :: "int \<Rightarrow> bool" where
  "IS_LEAP_YEAR year \<longleftrightarrow> (EXFAT_EPOCH_YEAR + year) smod 4 = 0"

definition days_in_year :: "int list" where
  "days_in_year = [0, 0, 31, 59, 90, 120, 151, 181, 212, 243, 273, 304, 334]"

lemmas time_consts = SEC_IN_MIN_def SEC_IN_HOUR_def SEC_IN_DAY_def SEC_IN_YEAR_def
  UNIX_EPOCH_YEAR_def EXFAT_EPOCH_YEAR_def EPOCH_DIFF_YEAR_def EPOCH_DIFF_DAYS_def EPOCH_DIFF_SEC_def

section \<open>Conversions\<close>

definition exfat_exfat2unix :: "int \<Rightarrow> u16 \<Rightarrow> u16 \<Rightarrow> u8 \<Rightarrow> u8 \<Rightarrow> int" where
  "exfat_exfat2unix tz ndate ntime centisec tzoffset =
    (let day = ndate AND 0x1f; month = drop_bit 5 ndate AND 0xf; year = drop_bit 9 ndate;
         twosec = ntime AND 0x1f; min = drop_bit 5 ntime AND 0x3f; hour = drop_bit 11 ntime
     in if day = 0 \<or> month = 0 \<or> month > 12 then 0
        else if hour > 23 \<or> min > 59 \<or> twosec > 29 then 0
        else if centisec > 199 then 0
        else
          let t1 = EPOCH_DIFF_SEC + uint year * SEC_IN_YEAR + LEAP_YEARS (uint year) * SEC_IN_DAY;
              t2 = t1 + days_in_year ! unat month * SEC_IN_DAY;
              t3 = (if (EXFAT_EPOCH_YEAR + uint year) smod 4 = 0 \<and> month > 2
                    then t2 + SEC_IN_DAY else t2);
              t4 = t3 + (uint day - 1) * SEC_IN_DAY;
              t5 = t4 + uint hour * SEC_IN_HOUR + uint min * SEC_IN_MIN + uint twosec * 2
                   + uint centisec sdiv 100
          in if tzoffset AND 0x80 \<noteq> 0
             then t5 - (sint (push_bit 1 tzoffset) * 15 * 60) sdiv 2
             else t5 + tz)"

text \<open>The month loop: the first month whose end is not before the day, with the day within it.\<close>

fun month_loop :: "int \<Rightarrow> int \<Rightarrow> int list \<Rightarrow> int \<times> int" where
  "month_loop year days [] = (0, days)"
| "month_loop year days (i # is) =
    (let leap_day = (if IS_LEAP_YEAR year \<and> i = 2 then 1 else 0);
         leap_sub = (if IS_LEAP_YEAR year \<and> i \<ge> 3 then 1 else 0)
     in if i = 12 \<or> days - leap_sub < days_in_year ! nat (i + 1) + leap_day
        then (i, days - (days_in_year ! nat i + leap_sub))
        else month_loop year days is)"

definition exfat_unix2exfat :: "int \<Rightarrow> int \<Rightarrow> u16 \<times> u16 \<times> u8 \<times> u8" where
  "exfat_unix2exfat tz unix_time =
    (let shift = EPOCH_DIFF_SEC + tz;
         t = (if unix_time < shift then shift else unix_time) - shift;
         days0 = t sdiv SEC_IN_DAY;
         year = (4 * days0) sdiv (4 * 365 + 1);
         days1 = days0 - (year * 365 + LEAP_YEARS year);
         (month, days2) = month_loop year days1 [1..12];
         day = days2 + 1;
         hour = (t smod SEC_IN_DAY) sdiv SEC_IN_HOUR;
         min = (t smod SEC_IN_HOUR) sdiv SEC_IN_MIN;
         twosec = (t smod SEC_IN_MIN) sdiv 2
     in (word_of_int day OR push_bit 5 (word_of_int month) OR push_bit 9 (word_of_int year),
         word_of_int twosec OR push_bit 5 (word_of_int min) OR push_bit 11 (word_of_int hour),
         word_of_int ((t smod 2) * 100),
         word_of_int ((- tz) sdiv 60 sdiv 15) OR 0x80))"

text \<open>\<open>exfat_tzset\<close>: \<open>gm_mktime now\<close> is the C library's \<open>mktime\<close> of \<open>gmtime\<close> of the time.\<close>

definition exfat_tzset :: "(int \<Rightarrow> int) \<Rightarrow> int \<Rightarrow> int" where
  "exfat_tzset gm_mktime now = gm_mktime now - now"

section \<open>The calendar\<close>

lemma leap_years: "0 \<le> y \<Longrightarrow> LEAP_YEARS y = (y + 3) div 4"
  by (simp add: LEAP_YEARS_def time_consts cdiv_simps)

lemma is_leap_year: "0 \<le> y \<Longrightarrow> IS_LEAP_YEAR y \<longleftrightarrow> y mod 4 = 0"
  by (simp add: IS_LEAP_YEAR_def time_consts cdiv_simps) presburger

lemma year_of_days:
  fixes d y e :: int
  assumes "0 \<le> d" "y = (4 * d) div 1461" "e = d - (y * 365 + (y + 3) div 4)"
  shows "0 \<le> e" "e < 365 + (if y mod 4 = 0 then 1 else 0)"
proof -
  have y: "1461 * y \<le> 4 * d" "4 * d < 1461 * y + 1461" using assms(2) by auto
  have q: "4 * ((y + 3) div 4) \<le> y + 3" "y \<le> 4 * ((y + 3) div 4)" by auto
  have nl: "4 * ((y + 3) div 4) \<noteq> y" if "y mod 4 \<noteq> 0"
    using that by (metis mod_mult_self1_is_0)
  have "4 * e = 4 * d - 1460 * y - 4 * ((y + 3) div 4)" using assms(3) by simp
  then have "- 3 \<le> 4 * e" "4 * e < 1461 + (y - 4 * ((y + 3) div 4))" using y q by linarith+
  then show "0 \<le> e" "e < 365 + (if y mod 4 = 0 then 1 else 0)"
    using q nl by (auto split: if_splits)
qed

lemma months: "[1..12] = [1, 2, 3, 4, 5, 6, 7, 8, 9, 10, 11, 12 :: int]"
  by (simp add: upto_rec1)

lemma month_of_days:
  assumes "0 \<le> y" "0 \<le> e" "e < 365 + (if y mod 4 = 0 then 1 else 0)"
    "month_loop y e [1..12] = (m, d)"
  shows "1 \<le> m \<and> m \<le> 12 \<and> 0 \<le> d \<and> d \<le> 30
    \<and> e = days_in_year ! nat m + (if y mod 4 = 0 \<and> m > 2 then 1 else 0) + d"
  using assms
  by (auto simp: months is_leap_year days_in_year_def Let_def split: if_splits)

section \<open>The packed fields\<close>

lemma uint_small: "0 \<le> x \<Longrightarrow> x < 65536 \<Longrightarrow> uint (word_of_int x :: u16) = x"
  by (simp add: uint_word_of_int_eq take_bit_int_eq_self)

lemma packed_date:
  fixes a b c :: u16
  assumes "unat a < 2 ^ 5" "unat b < 2 ^ 4" "unat c < 2 ^ 7"
  defines "w \<equiv> a OR push_bit 5 b OR push_bit 9 c"
  shows "w AND 0x1f = a" "drop_bit 5 w AND 0xf = b" "drop_bit 9 w = c"
  using bits_below [OF assms(1)] bits_below [OF assms(2)] bits_below [OF assms(3)]
  by (simp_all add: w_def eq_u16_bits bit_simps less_Suc_elim)

lemma packed_time:
  fixes a b c :: u16
  assumes "unat a < 2 ^ 5" "unat b < 2 ^ 6" "unat c < 2 ^ 5"
  defines "w \<equiv> a OR push_bit 5 b OR push_bit 11 c"
  shows "w AND 0x1f = a" "drop_bit 5 w AND 0x3f = b" "drop_bit 11 w = c"
  using bits_below [OF assms(1)] bits_below [OF assms(2)] bits_below [OF assms(3)]
  by (simp_all add: w_def eq_u16_bits bit_simps less_Suc_elim)

lemma tz_byte:
  assumes "-64 \<le> k" "k \<le> 63"
  shows "(word_of_int k OR 0x80 :: u8) AND 0x80 \<noteq> 0"
    "sint (push_bit 1 (word_of_int k OR 0x80 :: u8)) = 2 * k"
proof -
  show "(word_of_int k OR 0x80 :: u8) AND 0x80 \<noteq> 0"
    by (simp add: eq_u8_bits bit_simps less_Suc_elim)
  have "push_bit 1 (word_of_int k OR 0x80 :: u8) = push_bit 1 (word_of_int k)"
    by (simp add: eq_u8_bits bit_simps less_Suc_elim)
  also have "\<dots> = word_of_int (2 * k)" by (simp add: push_bit_eq_mult)
  also have "sint (word_of_int (2 * k) :: u8) = 2 * k"
    using assms by (simp only: sint_sbintrunc', intro signed_take_bit_int_eq_self) auto
  finally show "sint (push_bit 1 (word_of_int k OR 0x80 :: u8)) = 2 * k" .
qed

lemma clock_of_seconds:
  fixes t :: int
  assumes "0 \<le> t"
  shows "t = t div 86400 * 86400 + t mod 86400 div 3600 * 3600 + t mod 3600 div 60 * 60
      + t mod 60 div 2 * 2 + t mod 2"
    "t mod 86400 div 3600 < 24" "t mod 3600 div 60 < 60" "t mod 60 div 2 < 30"
proof -
  have m: "t mod 86400 mod 3600 = t mod 3600" "t mod 3600 mod 60 = t mod 60" "t mod 60 mod 2 = t mod 2"
    by (simp_all add: mod_mod_cancel)
  have "t mod 86400 = t mod 86400 div 3600 * 3600 + t mod 3600" using m(1) by presburger
  moreover have "t mod 3600 = t mod 3600 div 60 * 60 + t mod 60" using m(2) by presburger
  moreover have "t mod 60 = t mod 60 div 2 * 2 + t mod 2" using m(3) by presburger
  ultimately show "t = t div 86400 * 86400 + t mod 86400 div 3600 * 3600 + t mod 3600 div 60 * 60
      + t mod 60 div 2 * 2 + t mod 2" using div_mult_mod_eq [of t 86400] by linarith
  show "t mod 86400 div 3600 < 24" "t mod 3600 div 60 < 60" "t mod 60 div 2 < 30"
    by (simp_all add: div_less_iff_less_mult)
qed

lemma sdiv_mult_cancel: "b \<noteq> 0 \<Longrightarrow> (c * b) sdiv b = (c :: int)"
  by (cases "c = 0") (simp_all add: signed_divide_int_def sgn_mult abs_mult sgn_mult_abs
      flip: mult.assoc, simp add: sgn_if)

lemma unix2exfat_eq:
  assumes s: "0 \<le> s" and y: "y = 4 * (s div 86400) div 1461"
    and e: "e = s div 86400 - (y * 365 + (y + 3) div 4)" and md: "month_loop y e [1..12] = (m, d)"
  shows "exfat_unix2exfat (900 * k) (EPOCH_DIFF_SEC + 900 * k + s) =
    (word_of_int (d + 1) OR push_bit 5 (word_of_int m) OR push_bit 9 (word_of_int y),
     word_of_int (s mod 60 div 2) OR push_bit 5 (word_of_int (s mod 3600 div 60))
       OR push_bit 11 (word_of_int (s mod 86400 div 3600)),
     word_of_int (s mod 2 * 100), word_of_int (- k) OR 0x80)"
proof -
  have c: "SEC_IN_DAY = 86400" "SEC_IN_HOUR = 3600" "SEC_IN_MIN = 60" by (simp_all add: time_consts)
  have y0: "0 \<le> s div 86400" "0 \<le> y" using s y by (simp_all add: pos_imp_zdiv_nonneg_iff)
  have e': "s div 86400 - (y * 365 + LEAP_YEARS y) = e" using e leap_years [OF y0(2)] by simp
  have tz: "(900 * k) sdiv 60 sdiv 15 = k"
    using sdiv_mult_cancel [of 60 "15 * k"] sdiv_mult_cancel [of 15 k] by (simp add: ac_simps)
  have "\<not> EPOCH_DIFF_SEC + 900 * k + s < EPOCH_DIFF_SEC + 900 * k" using s by simp
  then show ?thesis
    using y0 s by (simp add: exfat_unix2exfat_def Let_def c cdiv_simps y [symmetric] e' md tz)
qed

lemma exfat2unix_packed:
  fixes wd wm wy wts wmi wh :: u16 and wcs wtz :: u8
  assumes u: "uint wd = d + 1" "uint wm = m" "uint wy = y" "uint wts = ts" "uint wmi = mi"
      "uint wh = hour" "uint wcs = cs * 100" "sint (push_bit 1 wtz) = 2 * k" "wtz AND 0x80 \<noteq> 0"
    and d: "0 \<le> d" "d \<le> 30" and m: "1 \<le> m" "m \<le> 12" and y: "0 \<le> y" "y \<le> 127"
    and h: "0 \<le> hour" "hour < 24" and mi: "0 \<le> mi" "mi < 60" and ts: "0 \<le> ts" "ts < 30"
    and cs: "cs = 0 \<or> cs = 1"
  shows "exfat_exfat2unix tz (wd OR push_bit 5 wm OR push_bit 9 wy)
      (wts OR push_bit 5 wmi OR push_bit 11 wh) wcs wtz
    = EPOCH_DIFF_SEC + (y * 365 + (y + 3) div 4
        + (days_in_year ! nat m + (if y mod 4 = 0 \<and> m > 2 then 1 else 0)) + d) * 86400
      + hour * 3600 + mi * 60 + ts * 2 + cs - 900 * k"
proof -
  have un: "unat w = nat (uint w)" for w :: u16 by simp
  have nz: "wd \<noteq> 0" "wm \<noteq> 0"
  proof -
    have "uint wd \<noteq> 0" "uint wm \<noteq> 0" unfolding u using d m by simp_all
    then show "wd \<noteq> 0" "wm \<noteq> 0" by auto
  qed
  have date: "unat wd < 2 ^ 5" "unat wm < 2 ^ 4" "unat wy < 2 ^ 7"
    and time: "unat wts < 2 ^ 5" "unat wmi < 2 ^ 6" "unat wh < 2 ^ 5"
    unfolding un u using d m y ts mi h by (simp_all add: nat_less_iff)
  have checks: "wd \<noteq> 0" "wm \<noteq> 0" "\<not> wm > 12" "\<not> wh > 23" "\<not> wmi > 59" "\<not> wts > 29" "\<not> wcs > 199"
    "wm > 2 \<longleftrightarrow> m > 2"
    using nz d m h mi ts cs by (auto simp: word_less_alt u)
  have tzs: "(2 * k * 15 * 60) sdiv 2 = 900 * k"
    using sdiv_mult_cancel [of 2 "900 * k"] by (simp add: ac_simps)
  have csd: "cs * 100 sdiv 100 = cs" by (rule sdiv_mult_cancel) simp
  have leap: "(EXFAT_EPOCH_YEAR + y) smod 4 = 0 \<longleftrightarrow> y mod 4 = 0"
    using is_leap_year [OF y(1)] by (simp add: IS_LEAP_YEAR_def)
  have c: "SEC_IN_DAY = 86400" "SEC_IN_HOUR = 3600" "SEC_IN_MIN = 60" "SEC_IN_YEAR = 31536000"
    by (simp_all add: time_consts)
  have wm: "unat wm = nat m" using un [of wm] u(2) by simp
  show ?thesis
    unfolding exfat_exfat2unix_def Let_def packed_date [OF date] packed_time [OF time] u wm
      leap csd tzs checks(8) leap_years [OF y(1)] c
    using checks(1-7) u(9) by (simp add: algebra_simps)
qed

lemma exfat2unix_eq:
  assumes d: "0 \<le> d" "d \<le> 30" and m: "1 \<le> m" "m \<le> 12" and y: "0 \<le> y" "y \<le> 127"
    and h: "0 \<le> hour" "hour < 24" and mi: "0 \<le> mi" "mi < 60" and ts: "0 \<le> ts" "ts < 30"
    and cs: "cs = 0 \<or> cs = 1" and k: "- 64 \<le> k" "k \<le> 63"
  shows "exfat_exfat2unix tz
      (word_of_int (d + 1) OR push_bit 5 (word_of_int m) OR push_bit 9 (word_of_int y))
      (word_of_int ts OR push_bit 5 (word_of_int mi) OR push_bit 11 (word_of_int hour))
      (word_of_int (cs * 100)) (word_of_int k OR 0x80)
    = EPOCH_DIFF_SEC + (y * 365 + (y + 3) div 4
        + (days_in_year ! nat m + (if y mod 4 = 0 \<and> m > 2 then 1 else 0)) + d) * 86400
      + hour * 3600 + mi * 60 + ts * 2 + cs - 900 * k"
proof (rule exfat2unix_packed [OF _ _ _ _ _ _ _ tz_byte(2) tz_byte(1) d m y h mi ts cs])
  show "uint (word_of_int (cs * 100) :: u8) = cs * 100" using cs by auto
qed (intro uint_small k; use d m y h mi ts in simp)+

text \<open>Read back with a number \<open>c\<close> of odd seconds in place of the one written.\<close>

lemma unix2exfat_read_seconds:
  assumes t: "EPOCH_DIFF_SEC + tz \<le> t" "t < EPOCH_DIFF_SEC + tz + 46752 * SEC_IN_DAY"
    and tz: "tz = 900 * k" "- 63 \<le> k" "k \<le> 64"
    and f: "exfat_unix2exfat tz t = (date, time, centisec, tzoffset)"
    and cs: "c = 0 \<or> c = 1"
  shows "exfat_exfat2unix tz' date time (word_of_int (c * 100)) tzoffset = t - t mod 2 + c"
    "centisec = word_of_int (t mod 2 * 100)"
proof -
  define s where "s = t - (EPOCH_DIFF_SEC + tz)"
  have s: "0 \<le> s" "s < 46752 * 86400" and t': "t = EPOCH_DIFF_SEC + 900 * k + s"
    using t tz by (simp_all add: s_def time_consts)
  define y where "y = 4 * (s div 86400) div 1461"
  define e where "e = s div 86400 - (y * 365 + (y + 3) div 4)"
  have dd: "0 \<le> s div 86400" "s div 86400 < 46752"
    using s by (simp_all add: div_less_iff_less_mult pos_imp_zdiv_nonneg_iff)
  have "1461 * y \<le> 4 * (s div 86400)" by (simp add: y_def)
  then have y: "0 \<le> y" "y \<le> 127" using dd by (simp_all add: y_def)
  note e = year_of_days [OF dd(1) y_def e_def]
  obtain m d where md: "month_loop y e [1..12] = (m, d)" by fastforce
  have mo: "0 \<le> d" "d \<le> 30" "1 \<le> m" "m \<le> 12"
    and em: "e = days_in_year ! nat m + (if y mod 4 = 0 \<and> m > 2 then 1 else 0) + d"
    using month_of_days [OF y(1) e md] by blast+
  have clock: "0 \<le> s mod 86400 div 3600" "0 \<le> s mod 3600 div 60" "0 \<le> s mod 60 div 2"
    by (simp_all add: pos_imp_zdiv_nonneg_iff)
  have k: "- 64 \<le> - k" "- k \<le> 63" using tz by simp_all
  have sm: "s mod 2 = t mod 2" unfolding t' by (simp add: time_consts cdiv_simps) presburger
  note fields = unix2exfat_eq [OF s(1) y_def e_def md, of k]
  have w: "date = word_of_int (d + 1) OR push_bit 5 (word_of_int m) OR push_bit 9 (word_of_int y)"
    "time = word_of_int (s mod 60 div 2) OR push_bit 5 (word_of_int (s mod 3600 div 60))
       OR push_bit 11 (word_of_int (s mod 86400 div 3600))"
    "centisec = word_of_int (s mod 2 * 100)" "tzoffset = word_of_int (- k) OR 0x80"
    using f fields t' tz(1) by simp_all
  show "centisec = word_of_int (t mod 2 * 100)" using w(3) sm by simp
  have "exfat_exfat2unix tz' date time (word_of_int (c * 100)) tzoffset
    = EPOCH_DIFF_SEC + (y * 365 + (y + 3) div 4
        + (days_in_year ! nat m + (if y mod 4 = 0 \<and> m > 2 then 1 else 0)) + d) * 86400
      + (s mod 86400 div 3600) * 3600 + (s mod 3600 div 60) * 60 + (s mod 60 div 2) * 2 + c
      - 900 * (- k)"
    unfolding w using exfat2unix_eq [OF mo y clock(1) clock_of_seconds(2) [OF s(1)] clock(2)
        clock_of_seconds(3) [OF s(1)] clock(3) clock_of_seconds(4) [OF s(1)] cs k, of tz'] by (simp only:)
  also have "y * 365 + (y + 3) div 4
      + (days_in_year ! nat m + (if y mod 4 = 0 \<and> m > 2 then 1 else 0)) + d = s div 86400"
    using em e_def by linarith
  also have "EPOCH_DIFF_SEC + s div 86400 * 86400 + (s mod 86400 div 3600) * 3600
      + (s mod 3600 div 60) * 60 + (s mod 60 div 2) * 2 + c - 900 * (- k)
    = EPOCH_DIFF_SEC + 900 * k + s - s mod 2 + c"
  proof -
    have "s = a * 86400 + b * 3600 + e * 60 + g * 2 + h
      \<Longrightarrow> x + a * 86400 + b * 3600 + e * 60 + g * 2 + c - 900 * (- k) = x + 900 * k + s - h + c"
      for a b e g h x by simp
    from this [OF clock_of_seconds(1) [OF s(1)]] show ?thesis .
  qed
  finally show "exfat_exfat2unix tz' date time (word_of_int (c * 100)) tzoffset = t - t mod 2 + c"
    using t' sm by simp
qed

lemma unix2exfat_read_back:
  assumes t: "EPOCH_DIFF_SEC + tz \<le> t" "t < EPOCH_DIFF_SEC + tz + 46752 * SEC_IN_DAY"
    and tz: "tz = 900 * k" "- 63 \<le> k" "k \<le> 64"
    and f: "exfat_unix2exfat tz t = (date, time, centisec, tzoffset)"
  shows "exfat_exfat2unix tz' date time centisec tzoffset = t"
proof -
  have "t mod 2 = 0 \<or> t mod 2 = 1" by presburger
  then show ?thesis
    using unix2exfat_read_seconds(1) [OF t tz f, of "t mod 2" tz'] unix2exfat_read_seconds(2) [OF t tz f]
    by simp
qed

text \<open>Without the odd second, as an access time is stored.\<close>

lemma unix2exfat_read_even:
  assumes t: "EPOCH_DIFF_SEC + tz \<le> t" "t < EPOCH_DIFF_SEC + tz + 46752 * SEC_IN_DAY"
    and tz: "tz = 900 * k" "- 63 \<le> k" "k \<le> 64"
    and f: "exfat_unix2exfat tz t = (date, time, centisec, tzoffset)"
  shows "exfat_exfat2unix tz' date time 0 tzoffset = t - t mod 2"
  using unix2exfat_read_seconds(1) [OF t tz f, of 0 tz'] by simp

section \<open>Properties\<close>

text \<open>C18: A time stamp survives being stored: for every Unix time from the exFAT epoch (1980, in
  local time) to the end of year 2107, and every time zone that is a whole number of quarter
  hours within what the seven-bit field holds, the four fields \<open>exfat_unix2exfat\<close> writes are valid
  and \<open>exfat_exfat2unix\<close> reads the same second back, whatever the reader's own time zone is.\<close>

theorem timestamp_round_trip:
  assumes t: "EPOCH_DIFF_SEC + tz \<le> t" "t < EPOCH_DIFF_SEC + tz + 46752 * SEC_IN_DAY"
    and tz: "tz = 900 * k" "- 63 \<le> k" "k \<le> 64"
    and f: "exfat_unix2exfat tz t = (date, time, centisec, tzoffset)"
  shows "exfat_exfat2unix tz' date time centisec tzoffset = t"
  using assms by (rule unix2exfat_read_back)

lemma timestamp_round_trip_witness:
  "\<exists>date time centisec tzoffset.
    exfat_unix2exfat (- 7200) 1700000001 = (date, time, centisec, tzoffset)
    \<and> exfat_exfat2unix 0 date time centisec tzoffset = 1700000001"
proof -
  obtain date time centisec tzoffset where
    f: "exfat_unix2exfat (- 7200) 1700000001 = (date, time, centisec, tzoffset)"
    by (metis prod.exhaust)
  have "EPOCH_DIFF_SEC = 315532800" "SEC_IN_DAY = 86400"
    by (simp_all add: time_consts cdiv_simps)
  then have "exfat_exfat2unix 0 date time centisec tzoffset = 1700000001"
    by (intro timestamp_round_trip [OF _ _ _ _ _ f, where k = "- 8"]) simp_all
  with f show ?thesis by blast
qed

end
