(* ===== verification/ExfatFs.thy ===== *)
theory ExfatFs
  imports ExfatUtf ExfatUtils ExfatTime ExfatUpcaseTable
begin

text \<open>
  exfatfs.h and the macros of exfat.h: the on-disk constants and structures of exFAT, with the
  bytes each packed structure occupies, and the allocation bitmap. Targets are little-endian with
  a 64-bit \<open>size_t\<close>, so a \<open>bitmap_t\<close> block is a \<open>u64\<close> whose bytes are stored lowest first.
\<close>

section \<open>Constants\<close>

definition EXFAT_FIRST_DATA_CLUSTER :: u32 where "EXFAT_FIRST_DATA_CLUSTER = 2"
definition EXFAT_LAST_DATA_CLUSTER :: u32 where "EXFAT_LAST_DATA_CLUSTER = 0xfffffff6"
definition EXFAT_CLUSTER_FREE :: u32 where "EXFAT_CLUSTER_FREE = 0"
definition EXFAT_CLUSTER_BAD :: u32 where "EXFAT_CLUSTER_BAD = 0xfffffff7"
definition EXFAT_CLUSTER_END :: u32 where "EXFAT_CLUSTER_END = 0xffffffff"
definition EXFAT_STATE_MOUNTED :: u16 where "EXFAT_STATE_MOUNTED = 2"
definition EXFAT_NAME_MAX :: nat where "EXFAT_NAME_MAX = 255"
definition EXFAT_ENAME_MAX :: nat where "EXFAT_ENAME_MAX = 15"

definition EXFAT_ENTRY_VALID :: u8 where "EXFAT_ENTRY_VALID = 0x80"
definition EXFAT_ENTRY_CONTINUED :: u8 where "EXFAT_ENTRY_CONTINUED = 0x40"
definition EXFAT_ENTRY_OPTIONAL :: u8 where "EXFAT_ENTRY_OPTIONAL = 0x20"
definition EXFAT_ENTRY_BITMAP :: u8 where "EXFAT_ENTRY_BITMAP = 0x81"
definition EXFAT_ENTRY_UPCASE :: u8 where "EXFAT_ENTRY_UPCASE = 0x82"
definition EXFAT_ENTRY_LABEL :: u8 where "EXFAT_ENTRY_LABEL = 0x83"
definition EXFAT_ENTRY_FILE :: u8 where "EXFAT_ENTRY_FILE = 0x85"
definition EXFAT_ENTRY_FILE_INFO :: u8 where "EXFAT_ENTRY_FILE_INFO = 0xc0"
definition EXFAT_ENTRY_FILE_NAME :: u8 where "EXFAT_ENTRY_FILE_NAME = 0xc1"
definition EXFAT_ENTRY_FILE_TAIL :: u8 where "EXFAT_ENTRY_FILE_TAIL = 0xe0"

definition EXFAT_ATTRIB_DIR :: u16 where "EXFAT_ATTRIB_DIR = 0x10"
definition EXFAT_ATTRIB_ARCH :: u16 where "EXFAT_ATTRIB_ARCH = 0x20"
definition EXFAT_FLAG_ALWAYS1 :: u8 where "EXFAT_FLAG_ALWAYS1 = 1"
definition EXFAT_FLAG_CONTIGUOUS :: u8 where "EXFAT_FLAG_CONTIGUOUS = 2"

section \<open>The super block\<close>

record exfat_super_block =
  jump :: bytes
  oem_name :: bytes
  sector_start :: u64
  sector_count :: u64
  fat_sector_start :: u32
  fat_sector_count :: u32
  cluster_sector_start :: u32
  cluster_count :: u32
  rootdir_cluster :: u32
  sb_volume_serial :: u32
  version_minor :: u8
  version_major :: u8
  volume_state :: u16
  sb_sector_bits :: u8
  sb_spc_bits :: u8
  fat_count :: u8
  drive_no :: u8
  allocated_percent :: u8
  boot_signature :: u16

definition sb_bytes :: "exfat_super_block \<Rightarrow> bytes" where
  "sb_bytes sb = jump sb @ oem_name sb @ replicate 53 0
     @ le64 (sector_start sb) @ le64 (sector_count sb)
     @ le32 (fat_sector_start sb) @ le32 (fat_sector_count sb)
     @ le32 (cluster_sector_start sb) @ le32 (cluster_count sb)
     @ le32 (rootdir_cluster sb) @ le32 (sb_volume_serial sb)
     @ [version_minor sb, version_major sb] @ le16 (volume_state sb)
     @ [sb_sector_bits sb, sb_spc_bits sb, fat_count sb, drive_no sb, allocated_percent sb]
     @ replicate 397 0 @ le16 (boot_signature sb)"

definition sb_of_bytes :: "bytes \<Rightarrow> exfat_super_block" where
  "sb_of_bytes b = \<lparr>jump = seg 0 3 b, oem_name = seg 3 8 b,
     sector_start = rd64 (drop 0x40 b), sector_count = rd64 (drop 0x48 b),
     fat_sector_start = rd32 (drop 0x50 b), fat_sector_count = rd32 (drop 0x54 b),
     cluster_sector_start = rd32 (drop 0x58 b), cluster_count = rd32 (drop 0x5c b),
     rootdir_cluster = rd32 (drop 0x60 b), sb_volume_serial = rd32 (drop 0x64 b),
     version_minor = b ! 0x68, version_major = b ! 0x69, volume_state = rd16 (drop 0x6a b),
     sb_sector_bits = b ! 0x6c, sb_spc_bits = b ! 0x6d, fat_count = b ! 0x6e,
     drive_no = b ! 0x6f, allocated_percent = b ! 0x70, boot_signature = rd16 (drop 0x1fe b)\<rparr>"

definition sb_wf :: "exfat_super_block \<Rightarrow> bool" where
  "sb_wf sb \<longleftrightarrow> length (jump sb) = 3 \<and> length (oem_name sb) = 8"

lemma length_sb_bytes: "sb_wf sb \<Longrightarrow> length (sb_bytes sb) = 512"
  by (simp add: sb_bytes_def sb_wf_def)

lemma sb_of_sb_bytes:
  assumes "sb_wf sb"
  shows "sb_of_bytes (sb_bytes sb) = sb"
  using assms
  by (cases sb) (simp add: sb_of_bytes_def sb_bytes_def sb_wf_def seg_def nth_append)

section \<open>The allocation bitmap\<close>

definition BMAP_SIZE :: "nat \<Rightarrow> nat" where
  "BMAP_SIZE count = (count + 64 - 1) div 64 * 64 div 8"

definition BMAP_BLOCK :: "nat \<Rightarrow> nat" where
  "BMAP_BLOCK index = index div 8 div 8"

definition BMAP_MASK :: "nat \<Rightarrow> u64" where
  "BMAP_MASK index = push_bit (index mod 64) 1"

definition BMAP_GET :: "u64 list \<Rightarrow> nat \<Rightarrow> bool" where
  "BMAP_GET bitmap index \<longleftrightarrow> bitmap ! BMAP_BLOCK index AND BMAP_MASK index \<noteq> 0"

definition BMAP_SET :: "u64 list \<Rightarrow> nat \<Rightarrow> u64 list" where
  "BMAP_SET bitmap index =
    bitmap[BMAP_BLOCK index := bitmap ! BMAP_BLOCK index OR BMAP_MASK index]"

definition BMAP_CLR :: "u64 list \<Rightarrow> nat \<Rightarrow> u64 list" where
  "BMAP_CLR bitmap index =
    bitmap[BMAP_BLOCK index := bitmap ! BMAP_BLOCK index AND NOT (BMAP_MASK index)]"

definition bmap_bytes :: "u64 list \<Rightarrow> bytes" where
  "bmap_bytes bitmap = concat (map le64 bitmap)"

fun bmap_of_bytes :: "bytes \<Rightarrow> u64 list" where
  "bmap_of_bytes (a # b # c # d # e # f # g # h # rest) =
    rd64 [a, b, c, d, e, f, g, h] # bmap_of_bytes rest"
| "bmap_of_bytes _ = []"

lemma BMAP_BLOCK_64: "BMAP_BLOCK i = i div 64"
  by (simp add: BMAP_BLOCK_def div_mult2_eq [symmetric])

lemma BMAP_GET_bit: "BMAP_GET bitmap i \<longleftrightarrow> bit (bitmap ! (i div 64)) (i mod 64)"
  by (simp add: BMAP_GET_def BMAP_BLOCK_64 BMAP_MASK_def and_exp_eq_0_iff_not_bit push_bit_of_1)

lemma length_BMAP [simp]:
  "length (BMAP_SET bm i) = length bm" "length (BMAP_CLR bm i) = length bm"
  by (simp_all add: BMAP_SET_def BMAP_CLR_def)

lemma BMAP_GET_SET:
  assumes "i < 64 * length bm"
  shows "BMAP_GET (BMAP_SET bm i) j \<longleftrightarrow> j = i \<or> BMAP_GET bm j"
proof -
  have ij: "j = i \<longleftrightarrow> j div 64 = i div 64 \<and> j mod 64 = i mod 64" by (metis div_mult_mod_eq)
  have "i div 64 < length bm" using assms by (simp add: div_less_iff_less_mult mult.commute)
  then show ?thesis
    by (cases "j div 64 = i div 64")
       (auto simp: BMAP_GET_bit ij BMAP_SET_def BMAP_BLOCK_64 BMAP_MASK_def bit_simps)
qed

lemma BMAP_GET_CLR:
  assumes "i < 64 * length bm"
  shows "BMAP_GET (BMAP_CLR bm i) j \<longleftrightarrow> j \<noteq> i \<and> BMAP_GET bm j"
proof -
  have ij: "j = i \<longleftrightarrow> j div 64 = i div 64 \<and> j mod 64 = i mod 64" by (metis div_mult_mod_eq)
  have "i div 64 < length bm" using assms by (simp add: div_less_iff_less_mult mult.commute)
  then show ?thesis
    by (cases "j div 64 = i div 64")
       (auto simp: BMAP_GET_bit ij BMAP_CLR_def BMAP_BLOCK_64 BMAP_MASK_def bit_simps)
qed

lemma length_bmap_bytes [simp]: "length (bmap_bytes bm) = 8 * length bm"
  by (induction bm) (simp_all add: bmap_bytes_def)

lemma bmap_of_bmap_bytes [simp]: "bmap_of_bytes (bmap_bytes bm) = bm"
proof (induction bm)
  case (Cons w bm)
  have "bmap_of_bytes (le64 w @ xs) = w # bmap_of_bytes xs" for xs
    using rd64_le64 [of w] by (simp add: le64_def)
  then show ?case using Cons by (simp add: bmap_bytes_def)
qed (simp add: bmap_bytes_def)

end
