(* ===== verification/ExfatMkfs.thy ===== *)
theory ExfatMkfs
  imports ExfatFs
begin

text \<open>
  The exFAT formatter: mkexfat.c walks the file system objects (boot record, its copy, FAT,
  cluster bitmap, up-case table, root directory), erases the space of each and writes it; vbr.c,
  fat.c, cbm.c, uct.c and rootdir.c say where each object goes and what it contains. The device
  the engine writes to is the parameter \<open>'d exfat_io\<close>. Sizes are integers: C's \<open>off_t\<close> is
  signed 64-bit, and what is stored in an \<open>uint32_t\<close> is reduced to 32 bits here too.
\<close>

section \<open>Parameters and device\<close>

record mkfs_param =
  p_sector_bits :: nat
  p_spc_bits :: nat
  p_volume_size :: int
  p_volume_label :: "u16 list"
  p_volume_serial :: u32
  p_first_sector :: u64

definition get_sector_size :: "mkfs_param \<Rightarrow> int" where
  "get_sector_size p = 2 ^ p_sector_bits p"

definition get_cluster_size :: "mkfs_param \<Rightarrow> int" where
  "get_cluster_size p = get_sector_size p * 2 ^ p_spc_bits p"

text \<open>\<open>malloc_ok n\<close>: whether an allocation of \<open>n\<close> bytes succeeds. A negative result of the
  other operations is a failure.\<close>

record 'd exfat_io =
  exfat_seek :: "int \<Rightarrow> 'd \<Rightarrow> int \<times> 'd"
  exfat_write :: "bytes \<Rightarrow> 'd \<Rightarrow> int \<times> 'd"
  exfat_fsync :: "'d \<Rightarrow> int \<times> 'd"
  exfat_malloc :: "nat \<Rightarrow> 'd \<Rightarrow> bool"

section \<open>Where the objects go\<close>

datatype fs_object = VBR | FAT | CBM | UCT | ROOTDIR

definition objects :: "fs_object list" where
  "objects = [VBR, VBR, FAT, CBM, UCT, ROOTDIR]"

definition vbr_alignment :: "mkfs_param \<Rightarrow> int" where
  "vbr_alignment p = get_sector_size p"
definition vbr_size :: "mkfs_param \<Rightarrow> int" where
  "vbr_size p = 12 * get_sector_size p"
definition fat_alignment :: "mkfs_param \<Rightarrow> int" where
  "fat_alignment p = 128 * get_sector_size p"
definition fat_size :: "mkfs_param \<Rightarrow> int" where
  "fat_size p = p_volume_size p sdiv get_cluster_size p * 4"
definition cbm_alignment :: "mkfs_param \<Rightarrow> int" where
  "cbm_alignment p = get_cluster_size p"
definition uct_alignment :: "mkfs_param \<Rightarrow> int" where
  "uct_alignment p = get_cluster_size p"
definition uct_size :: "mkfs_param \<Rightarrow> int" where
  "uct_size p = int (length upcase_table)"
definition rootdir_alignment :: "mkfs_param \<Rightarrow> int" where
  "rootdir_alignment p = get_cluster_size p"
definition rootdir_size :: "mkfs_param \<Rightarrow> int" where
  "rootdir_size p = get_cluster_size p"

fun get_alignment :: "mkfs_param \<Rightarrow> fs_object \<Rightarrow> int" where
  "get_alignment p VBR = vbr_alignment p"
| "get_alignment p FAT = fat_alignment p"
| "get_alignment p CBM = cbm_alignment p"
| "get_alignment p UCT = uct_alignment p"
| "get_alignment p ROOTDIR = rootdir_alignment p"

text \<open>The loop of \<open>get_position\<close>; \<open>None\<close> is the call of \<open>exfat_bug\<close> after the last object.\<close>

fun position_loop ::
  "mkfs_param \<Rightarrow> (fs_object \<Rightarrow> int) \<Rightarrow> fs_object \<Rightarrow> fs_object list \<Rightarrow> int \<Rightarrow> int option" where
  "position_loop p size_of obj [] position = None"
| "position_loop p size_of obj (pp # pps) position =
    (let position' = ROUND_UP position (get_alignment p pp)
     in if pp = obj then Some position'
        else position_loop p size_of obj pps (position' + size_of pp))"

text \<open>\<open>cbm_size\<close> asks for the position of the bitmap; the loop returns there before it needs the
  size of the bitmap, so only the sizes of the objects before it matter.\<close>

fun size_before_cbm :: "mkfs_param \<Rightarrow> fs_object \<Rightarrow> int" where
  "size_before_cbm p VBR = vbr_size p"
| "size_before_cbm p FAT = fat_size p"
| "size_before_cbm p CBM = 0"
| "size_before_cbm p UCT = uct_size p"
| "size_before_cbm p ROOTDIR = rootdir_size p"

definition cbm_size :: "mkfs_param \<Rightarrow> int" where
  "cbm_size p = DIV_ROUND_UP
     ((p_volume_size p - the (position_loop p (size_before_cbm p) CBM objects 0))
        sdiv get_cluster_size p) 8"

fun get_size :: "mkfs_param \<Rightarrow> fs_object \<Rightarrow> int" where
  "get_size p VBR = vbr_size p"
| "get_size p FAT = fat_size p"
| "get_size p CBM = cbm_size p"
| "get_size p UCT = uct_size p"
| "get_size p ROOTDIR = rootdir_size p"

definition get_position :: "mkfs_param \<Rightarrow> fs_object \<Rightarrow> int" where
  "get_position p obj = the (position_loop p (get_size p) obj objects 0)"

fun check_position :: "mkfs_param \<Rightarrow> fs_object list \<Rightarrow> int \<Rightarrow> int" where
  "check_position p [] position = position"
| "check_position p (pp # pps) position =
    check_position p pps (ROUND_UP position (get_alignment p pp) + get_size p pp)"

definition check_size :: "mkfs_param \<Rightarrow> int \<Rightarrow> int" where
  "check_size p volume_size = (if check_position p objects 0 > volume_size then 1 else 0)"

section \<open>The boot record\<close>

definition clusters_max :: "mkfs_param \<Rightarrow> u32" where
  "clusters_max p = word_of_int (p_volume_size p sdiv get_cluster_size p)"

definition fat_sectors :: "mkfs_param \<Rightarrow> u32" where
  "fat_sectors p = word_of_int (DIV_ROUND_UP (uint (clusters_max p) * 4) (get_sector_size p))"

text \<open>\<open>ROUND_UP\<close> on unsigned 32-bit operands.\<close>

definition ROUND_UP_u32 :: "u32 \<Rightarrow> u32 \<Rightarrow> u32" where
  "ROUND_UP_u32 x d = (x + d - 1) div d * d"

definition init_sb :: "mkfs_param \<Rightarrow> exfat_super_block" where
  "init_sb p =
    (let fss = word_of_int (get_alignment p FAT sdiv get_sector_size p);
         fsc = ROUND_UP_u32 (fss + fat_sectors p) (push_bit (p_spc_bits p) 1) - fss
     in \<lparr>jump = [0xeb, 0x76, 0x90], oem_name = [0x45, 0x58, 0x46, 0x41, 0x54, 0x20, 0x20, 0x20],
         sector_start = p_first_sector p,
         sector_count = word_of_int (p_volume_size p sdiv get_sector_size p),
         fat_sector_start = fss, fat_sector_count = fsc,
         cluster_sector_start = word_of_int (get_position p CBM sdiv get_sector_size p),
         cluster_count = clusters_max p - drop_bit (p_spc_bits p) (fss + fsc),
         rootdir_cluster =
           word_of_int ((get_position p ROOTDIR - get_position p CBM) sdiv get_cluster_size p)
             + EXFAT_FIRST_DATA_CLUSTER,
         sb_volume_serial = p_volume_serial p, version_minor = 0, version_major = 1,
         volume_state = 0, sb_sector_bits = of_nat (p_sector_bits p),
         sb_spc_bits = of_nat (p_spc_bits p), fat_count = 1, drive_no = 0x80,
         allocated_percent = 0, boot_signature = 0xaa55\<rparr>)"

text \<open>Writing buffers one after the other until one fails.\<close>

fun write_each :: "'d exfat_io \<Rightarrow> bytes list \<Rightarrow> 'd \<Rightarrow> int \<times> 'd" where
  "write_each io [] d = (0, d)"
| "write_each io (b # bs) d =
    (let (res, d') = exfat_write io b d in if res < 0 then (1, d') else write_each io bs d')"

definition boot_sector :: "mkfs_param \<Rightarrow> bytes" where
  "boot_sector p = replicate (nat (get_sector_size p) - 4) 0 @ le32 0xaa550000"

definition empty_sector :: "mkfs_param \<Rightarrow> bytes" where
  "empty_sector p = replicate (nat (get_sector_size p)) 0"

definition vbr_checksum :: "mkfs_param \<Rightarrow> u32" where
  "vbr_checksum p =
    (let n = nat (get_sector_size p);
         c0 = exfat_vbr_start_checksum (sb_bytes (init_sb p)) 512;
         c1 = ((exfat_vbr_add_checksum (boot_sector p) n) ^^ 8) c0
     in ((exfat_vbr_add_checksum (empty_sector p) n) ^^ 2) c1)"

definition checksum_sector :: "mkfs_param \<Rightarrow> bytes" where
  "checksum_sector p = concat (replicate (nat (get_sector_size p) div 4) (le32 (vbr_checksum p)))"

definition vbr_write :: "'d exfat_io \<Rightarrow> mkfs_param \<Rightarrow> 'd \<Rightarrow> int \<times> 'd" where
  "vbr_write io p d =
    (if \<not> exfat_malloc io (nat (get_sector_size p)) d then (1, d)
     else write_each io (sb_bytes (init_sb p) # replicate 8 (boot_sector p)
            @ replicate 2 (empty_sector p) @ [checksum_sector p]) d)"

section \<open>The file allocation table\<close>

text \<open>The next cluster, or 0 for a failed write.\<close>

definition fat_write_entry :: "'d exfat_io \<Rightarrow> u32 \<Rightarrow> u32 \<Rightarrow> 'd \<Rightarrow> u32 \<times> 'd" where
  "fat_write_entry io cluster entry d =
    (let (res, d') = exfat_write io (le32 entry) d
     in if res < 0 then (0, d') else (cluster + 1, d'))"


lemma unat_succ: "(c :: u32) < m \<Longrightarrow> unat (c + 1) = unat c + 1"
proof -
  assume "c < m"
  then have "unat c + 1 < 2 ^ 32"
    using unsigned_less [of m, where 'a = nat] by (simp add: word_less_nat_alt)
  then show ?thesis by (simp add: unat_word_ariths)
qed

text \<open>The loop of \<open>fat_write_entries\<close>, with \<open>lim\<close> for \<open>end - 1\<close>.\<close>

function fat_entries_loop :: "'d exfat_io \<Rightarrow> u32 \<Rightarrow> u32 \<Rightarrow> 'd \<Rightarrow> u32 \<times> 'd" where
  "fat_entries_loop io cluster lim d =
    (if cluster < lim then
       let (c, d') = fat_write_entry io cluster (cluster + 1) d
       in if c = 0 then (0, d') else fat_entries_loop io c lim d'
     else fat_write_entry io cluster EXFAT_CLUSTER_END d)"
  by pat_completeness auto
termination
proof (relation "measure (\<lambda>(io, cluster, lim, d). unat lim - unat cluster)")
  fix io :: "'d exfat_io" and cluster lim d x c d'
  assume h: "cluster < lim" "x = fat_write_entry io cluster (cluster + 1) d" "(c, d') = x" "c \<noteq> 0"
  then have "c = cluster + 1"
    by (auto simp: fat_write_entry_def split: prod.splits if_splits)
  then show "((io, c, lim, d'), (io, cluster, lim, d))
      \<in> measure (\<lambda>(io, cluster, lim, d). unat lim - unat cluster)"
    using h(1) unat_succ [OF h(1)] by (simp add: word_less_nat_alt)
qed simp

declare fat_entries_loop.simps [simp del]

definition fat_write_entries :: "'d exfat_io \<Rightarrow> mkfs_param \<Rightarrow> u32 \<Rightarrow> int \<Rightarrow> 'd \<Rightarrow> u32 \<times> 'd" where
  "fat_write_entries io p cluster len d =
    (let fin = cluster + word_of_int (DIV_ROUND_UP len (get_cluster_size p))
     in fat_entries_loop io cluster (fin - 1) d)"

definition fat_write :: "'d exfat_io \<Rightarrow> mkfs_param \<Rightarrow> 'd \<Rightarrow> int \<times> 'd" where
  "fat_write io p d0 =
    (let (c1, d1) = fat_write_entry io 0 0xfffffff8 d0
     in if c1 = 0 then (1, d1)
     else let (c2, d2) = fat_write_entry io c1 0xffffffff d1
     in if c2 = 0 then (1, d2)
     else let (c3, d3) = fat_write_entries io p c2 (cbm_size p) d2
     in if c3 = 0 then (1, d3)
     else let (c4, d4) = fat_write_entries io p c3 (uct_size p) d3
     in if c4 = 0 then (1, d4)
     else let (c5, d5) = fat_write_entries io p c4 (rootdir_size p) d4
     in if c5 = 0 then (1, d5) else (0, d5))"

section \<open>The cluster bitmap, the up-case table and the root directory\<close>

definition allocated_clusters :: "mkfs_param \<Rightarrow> u32" where
  "allocated_clusters p = word_of_int
     (DIV_ROUND_UP (cbm_size p) (get_cluster_size p)
      + DIV_ROUND_UP (uct_size p) (get_cluster_size p)
      + DIV_ROUND_UP (rootdir_size p) (get_cluster_size p))"

definition bitmap_size :: "mkfs_param \<Rightarrow> nat" where
  "bitmap_size p = unat (ROUND_UP_u32 (allocated_clusters p) 8)"

definition cbm_bitmap :: "mkfs_param \<Rightarrow> u64 list" where
  "cbm_bitmap p = foldl (\<lambda>bitmap i. if i < unat (allocated_clusters p) then BMAP_SET bitmap i else bitmap)
     (replicate (BMAP_SIZE (bitmap_size p) div 8) 0) [0..<bitmap_size p]"

definition cbm_write :: "'d exfat_io \<Rightarrow> mkfs_param \<Rightarrow> 'd \<Rightarrow> int \<times> 'd" where
  "cbm_write io p d =
    (if \<not> exfat_malloc io (BMAP_SIZE (bitmap_size p)) d then (1, d)
     else let (res, d') = exfat_write io (take (bitmap_size p div 8) (bmap_bytes (cbm_bitmap p))) d
          in if res < 0 then (1, d') else (0, d'))"

definition uct_write :: "'d exfat_io \<Rightarrow> mkfs_param \<Rightarrow> 'd \<Rightarrow> int \<times> 'd" where
  "uct_write io p d =
    (let (res, d') = exfat_write io upcase_table d in if res < 0 then (1, d') else (0, d'))"

text \<open>The directory entries of \<open>rootdir_write\<close>. The label has room for 15 units and a NUL.\<close>

definition init_label_entry :: "mkfs_param \<Rightarrow> bytes" where
  "init_label_entry p =
    (let n = exfat_utf16_length (p_volume_label p)
     in if n = 0 then (EXFAT_ENTRY_LABEL XOR EXFAT_ENTRY_VALID) # replicate 31 0
        else ((EXFAT_ENTRY_LABEL XOR EXFAT_ENTRY_VALID) OR EXFAT_ENTRY_VALID) # of_nat n
             # concat (map le16 (take EXFAT_ENAME_MAX (p_volume_label p))))"

definition init_bitmap_entry :: "mkfs_param \<Rightarrow> bytes" where
  "init_bitmap_entry p = EXFAT_ENTRY_BITMAP # replicate 19 0
     @ le32 EXFAT_FIRST_DATA_CLUSTER @ le64 (word_of_int (cbm_size p))"

definition upcase_checksum :: u32 where
  "upcase_checksum = foldl vbr_checksum_byte 0 upcase_table"

definition init_upcase_entry :: "mkfs_param \<Rightarrow> bytes" where
  "init_upcase_entry p = EXFAT_ENTRY_UPCASE # replicate 3 0 @ le32 upcase_checksum @ replicate 12 0
     @ le32 (word_of_int ((get_position p UCT - get_position p CBM) sdiv get_cluster_size p)
             + EXFAT_FIRST_DATA_CLUSTER)
     @ le64 (of_nat (length upcase_table))"

definition rootdir_write :: "'d exfat_io \<Rightarrow> mkfs_param \<Rightarrow> 'd \<Rightarrow> int \<times> 'd" where
  "rootdir_write io p d =
    write_each io [init_label_entry p, init_bitmap_entry p, init_upcase_entry p] d"

section \<open>Erasing and creating\<close>

fun object_write :: "'d exfat_io \<Rightarrow> mkfs_param \<Rightarrow> fs_object \<Rightarrow> 'd \<Rightarrow> int \<times> 'd" where
  "object_write io p VBR d = vbr_write io p d"
| "object_write io p FAT d = fat_write io p d"
| "object_write io p CBM d = cbm_write io p d"
| "object_write io p UCT d = uct_write io p d"
| "object_write io p ROOTDIR d = rootdir_write io p d"

definition erase_block_size :: int where "erase_block_size = 1024 * 1024"

function erase_loop :: "'d exfat_io \<Rightarrow> int \<Rightarrow> int \<Rightarrow> 'd \<Rightarrow> int \<times> 'd" where
  "erase_loop io i size' d =
    (if i < size' then
       let (res, d') = exfat_write io (replicate (nat (min (size' - i) erase_block_size)) 0) d
       in if res < 0 then (1, d') else erase_loop io (i + erase_block_size) size' d'
     else (0, d))"
  by pat_completeness auto
termination
  by (relation "measure (\<lambda>(io, i, size', d). nat (size' - i))") (auto simp: erase_block_size_def)

declare erase_loop.simps [simp del]

definition erase_object :: "'d exfat_io \<Rightarrow> int \<Rightarrow> int \<Rightarrow> 'd \<Rightarrow> int \<times> 'd" where
  "erase_object io start size' d =
    (let (r, d') = exfat_seek io start d
     in if r = -1 then (1, d') else erase_loop io 0 size' d')"

fun erase_objects :: "'d exfat_io \<Rightarrow> mkfs_param \<Rightarrow> fs_object list \<Rightarrow> int \<Rightarrow> 'd \<Rightarrow> int \<times> 'd" where
  "erase_objects io p [] position d = (0, d)"
| "erase_objects io p (pp # pps) position d =
    (let position' = ROUND_UP position (get_alignment p pp);
         (r, d') = erase_object io position' (get_size p pp) d
     in if r \<noteq> 0 then (1, d') else erase_objects io p pps (position' + get_size p pp) d')"

definition erase :: "'d exfat_io \<Rightarrow> mkfs_param \<Rightarrow> 'd \<Rightarrow> int \<times> 'd" where
  "erase io p d =
    (if \<not> exfat_malloc io (nat erase_block_size) d then (1, d) else erase_objects io p objects 0 d)"

fun create_objects :: "'d exfat_io \<Rightarrow> mkfs_param \<Rightarrow> fs_object list \<Rightarrow> int \<Rightarrow> 'd \<Rightarrow> int \<times> 'd" where
  "create_objects io p [] position d = (0, d)"
| "create_objects io p (pp # pps) position d =
    (let position' = ROUND_UP position (get_alignment p pp);
         (r, d1) = exfat_seek io position' d
     in if r = -1 then (1, d1)
        else let (w, d2) = object_write io p pp d1
             in if w \<noteq> 0 then (1, d2)
                else create_objects io p pps (position' + get_size p pp) d2)"

definition create :: "'d exfat_io \<Rightarrow> mkfs_param \<Rightarrow> 'd \<Rightarrow> int \<times> 'd" where
  "create io p d = create_objects io p objects 0 d"

definition mkfs :: "'d exfat_io \<Rightarrow> mkfs_param \<Rightarrow> int \<Rightarrow> 'd \<Rightarrow> int \<times> 'd" where
  "mkfs io p volume_size d0 =
    (if check_size p volume_size \<noteq> 0 then (1, d0)
     else let (r1, d1) = erase io p d0
     in if r1 \<noteq> 0 then (1, d1)
     else let (r2, d2) = create io p d1
     in if r2 \<noteq> 0 then (1, d2)
     else let (r3, d3) = exfat_fsync io d2
     in if r3 \<noteq> 0 then (1, d3) else (0, d3))"

end
