(* ===== verification/ExfatLayout.thy ===== *)
theory ExfatLayout
  imports ExfatMkfs
begin

text \<open>
  Where the formatter puts the file system objects: positions and sizes in closed form, for
  parameters both callers produce (512-byte sectors, clusters of at most 32 MB) on a volume that
  \<open>check_size\<close> accepts.
\<close>

definition mkfs_wf :: "mkfs_param \<Rightarrow> bool" where
  "mkfs_wf p \<longleftrightarrow> p_sector_bits p = 9 \<and> p_spc_bits p \<le> 16 \<and> 0 \<le> p_volume_size p
     \<and> p_volume_size p div get_cluster_size p \<le> 0xfffffff6"

lemma length_upcase_table: "length upcase_table = 5836"
proof -
  have "length upcase_table_0 = 976" "length upcase_table_1 = 976" "length upcase_table_2 = 976"
    "length upcase_table_3 = 976" "length upcase_table_4 = 976" "length upcase_table_5 = 956"
    by code_simp+
  then show ?thesis by (simp add: upcase_table_def)
qed

text \<open>The clusters the volume has room for, the byte where the cluster heap starts, and the
  clusters of the heap.\<close>

definition clusters :: "mkfs_param \<Rightarrow> int" where
  "clusters p = p_volume_size p div get_cluster_size p"

definition heap_start :: "mkfs_param \<Rightarrow> int" where
  "heap_start p = ROUND_UP (65536 + 4 * clusters p) (get_cluster_size p)"

definition heap_clusters :: "mkfs_param \<Rightarrow> int" where
  "heap_clusters p = (p_volume_size p - heap_start p) div get_cluster_size p"

text \<open>How many clusters hold so many bytes.\<close>

definition clusters_of :: "mkfs_param \<Rightarrow> int \<Rightarrow> int" where
  "clusters_of p len = DIV_ROUND_UP len (get_cluster_size p)"

lemma wf_sizes:
  assumes "mkfs_wf p"
  shows "get_sector_size p = 512" "get_cluster_size p = 512 * 2 ^ p_spc_bits p"
    "512 \<le> get_cluster_size p" "get_cluster_size p \<le> 33554432" "0 \<le> clusters p"
    "clusters p * get_cluster_size p \<le> p_volume_size p" "clusters p \<le> 0xfffffff6"
    "p_volume_size p sdiv get_cluster_size p = clusters p"
proof -
  show ss: "get_sector_size p = 512" and cs: "get_cluster_size p = 512 * 2 ^ p_spc_bits p"
    using assms by (simp_all add: mkfs_wf_def get_sector_size_def get_cluster_size_def)
  have "(2 :: int) ^ p_spc_bits p \<le> 2 ^ 16" using assms
    by (intro power_increasing) (auto simp: mkfs_wf_def)
  then show "512 \<le> get_cluster_size p" "get_cluster_size p \<le> 33554432" by (simp_all add: cs)
  moreover have "p_volume_size p div get_cluster_size p * get_cluster_size p \<le> p_volume_size p"
    using calculation pos_mod_sign [of "get_cluster_size p" "p_volume_size p"]
      div_mult_mod_eq [of "p_volume_size p" "get_cluster_size p"] by linarith
  ultimately show "0 \<le> clusters p" "clusters p * get_cluster_size p \<le> p_volume_size p"
    "clusters p \<le> 0xfffffff6" "p_volume_size p sdiv get_cluster_size p = clusters p"
    using assms
    by (simp_all add: clusters_def mkfs_wf_def pos_imp_zdiv_nonneg_iff cdiv_simps)
qed

lemma heap_start_bounds:
  assumes "mkfs_wf p"
  shows "65536 + 4 * clusters p \<le> heap_start p"
    "heap_start p < 65536 + 4 * clusters p + get_cluster_size p" "get_cluster_size p dvd heap_start p"
  using wf_sizes [OF assms] ROUND_UP_ge [of "65536 + 4 * clusters p" "get_cluster_size p"]
    ROUND_UP_less [of "65536 + 4 * clusters p" "get_cluster_size p"]
  by (simp_all add: heap_start_def ROUND_UP_dvd)

lemma ROUND_UP_multiple: "0 < d \<Longrightarrow> 0 \<le> x \<Longrightarrow> d dvd x \<Longrightarrow> ROUND_UP x d = x"
  using ROUND_UP_add_dvd [of d x 0] by (simp add: ROUND_UP_def DIV_ROUND_UP_pos)

lemma round_positions:
  assumes "mkfs_wf p"
  shows "ROUND_UP 0 (get_alignment p VBR) = 0" "ROUND_UP 6144 (get_alignment p VBR) = 6144"
    "ROUND_UP 12288 (get_alignment p FAT) = 65536"
  using wf_sizes(1) [OF assms]
  by (simp_all add: vbr_alignment_def fat_alignment_def ROUND_UP_def DIV_ROUND_UP_pos)

text \<open>The closed forms.\<close>

lemma sizes:
  assumes "mkfs_wf p"
  shows "get_size p VBR = 6144" "get_size p FAT = 4 * clusters p"
    "get_size p CBM = DIV_ROUND_UP ((p_volume_size p - heap_start p) sdiv get_cluster_size p) 8"
    "get_size p UCT = 5836" "get_size p ROOTDIR = get_cluster_size p"
  using wf_sizes [OF assms] round_positions [OF assms]
  by (simp_all add: vbr_size_def fat_size_def cbm_size_def uct_size_def rootdir_size_def
      length_upcase_table objects_def Let_def heap_start_def cbm_alignment_def mult.commute [of _ 4])

lemma position_VBR_FAT_CBM:
  assumes "mkfs_wf p"
  shows "get_position p VBR = 0" "get_position p FAT = 65536" "get_position p CBM = heap_start p"
  using round_positions [OF assms] sizes [OF assms]
  by (simp_all add: get_position_def objects_def Let_def heap_start_def cbm_alignment_def)

lemma check_position_bound:
  assumes wf: "mkfs_wf p" and cbm: "- 1000 \<le> cbm_size p"
  shows "heap_start p + cbm_size p + 5836 + get_cluster_size p \<le> check_position p objects 0"
proof -
  define U where "U = ROUND_UP (heap_start p + cbm_size p) (get_cluster_size p)"
  note s = wf_sizes [OF wf]
  have h: "65536 \<le> heap_start p" using heap_start_bounds [OF wf] s(5) by linarith
  have U: "heap_start p + cbm_size p \<le> U"
    unfolding U_def by (rule ROUND_UP_ge) (use s cbm h in auto)
  have R: "U + 5836 \<le> ROUND_UP (U + 5836) (get_cluster_size p)"
    by (rule ROUND_UP_ge) (use s U h cbm in auto)
  have "check_position p objects 0
      = ROUND_UP (U + 5836) (get_cluster_size p) + get_cluster_size p"
    using round_positions [OF wf] sizes [OF wf]
    by (simp add: objects_def heap_start_def cbm_alignment_def uct_alignment_def
        rootdir_alignment_def U_def)
  then show ?thesis using U R by linarith
qed

text \<open>A volume that passes \<open>check_size\<close> reaches past the start of the cluster heap.\<close>

lemma heap_fits:
  assumes wf: "mkfs_wf p" and ck: "check_size p (p_volume_size p) = 0"
  shows "heap_start p \<le> p_volume_size p" "0 \<le> heap_clusters p"
    "cbm_size p = (heap_clusters p + 7) div 8"
proof -
  note s = wf_sizes [OF wf]
  define x where "x = (p_volume_size p - heap_start p) sdiv get_cluster_size p"
  have cbm: "cbm_size p = (x + 7) sdiv 8" using sizes(3) [OF wf] by (simp add: x_def DIV_ROUND_UP_def ac_simps)
  show le: "heap_start p \<le> p_volume_size p"
  proof (rule ccontr)
    assume "\<not> heap_start p \<le> p_volume_size p"
    then have neg: "p_volume_size p - heap_start p < 0" by simp
    have "heap_start p - p_volume_size p < 65536 + 4 * clusters p + get_cluster_size p
        - clusters p * get_cluster_size p"
      using heap_start_bounds [OF wf] s(6) by linarith
    also have "\<dots> \<le> 65536 + get_cluster_size p"
      using s(3,5) mult_left_mono [of 4 "get_cluster_size p" "clusters p"] by simp
    also have "\<dots> \<le> 129 * get_cluster_size p" using s(3) by simp
    finally have "heap_start p - p_volume_size p \<le> 129 * get_cluster_size p" by simp
    then have "(heap_start p - p_volume_size p) div get_cluster_size p \<le> 129"
      using s(3) zdiv_mono1 [of "heap_start p - p_volume_size p" "129 * get_cluster_size p"
          "get_cluster_size p"] by simp
    moreover have "x = - ((heap_start p - p_volume_size p) div get_cluster_size p)"
      using neg s(3) by (simp add: x_def signed_divide_int_def sgn_if)
    moreover have "0 \<le> (heap_start p - p_volume_size p) div get_cluster_size p"
      using neg s(3) by (simp add: pos_imp_zdiv_nonneg_iff)
    ultimately have x: "- 129 \<le> x" "x \<le> 0" by auto
    have "- 129 \<le> (x + 7) sdiv 8"
      using x by (auto simp: signed_divide_int_def sgn_if)
    then have "- 129 \<le> cbm_size p" using cbm by simp
    then show False
      using check_position_bound [OF wf] ck neg s(3) by (auto simp: check_size_def split: if_splits)
  qed
  have x: "x = heap_clusters p" "0 \<le> x"
    using le s(3) by (simp_all add: x_def heap_clusters_def cdiv_simps pos_imp_zdiv_nonneg_iff)
  then show "0 \<le> heap_clusters p" "cbm_size p = (heap_clusters p + 7) div 8"
    using cbm by (simp_all add: cdiv_simps)
qed

lemma clusters_of_pos:
  assumes "mkfs_wf p" "0 < len"
  shows "0 < clusters_of p len" "clusters_of p len \<le> len"
proof -
  note s = wf_sizes [OF assms(1)]
  show "0 < clusters_of p len"
    unfolding clusters_of_def by (rule DIV_ROUND_UP_pos_iff) (use assms s in auto)
  have "(len + get_cluster_size p - 1) div get_cluster_size p \<le> len"
  proof -
    have "len + get_cluster_size p - 1 \<le> len * get_cluster_size p"
      using assms(2) s(3) mult_left_mono [of 1 "get_cluster_size p - 1" "len - 1"]
      by (simp add: algebra_simps)
    then show ?thesis using s(3) zdiv_mono1 [of _ "len * get_cluster_size p" "get_cluster_size p"] by simp
  qed
  then show "clusters_of p len \<le> len"
    using assms s by (simp add: clusters_of_def DIV_ROUND_UP_pos)
qed

lemma clusters_of_cover:
  assumes "mkfs_wf p" "0 \<le> len"
  shows "len \<le> clusters_of p len * get_cluster_size p" "0 \<le> clusters_of p len"
    "clusters_of p len * get_cluster_size p < len + get_cluster_size p"
  unfolding clusters_of_def using DIV_ROUND_UP_bounds [of len "get_cluster_size p"] assms
    wf_sizes(3) [OF assms(1)] by auto

lemma clusters_of_one: "mkfs_wf p \<Longrightarrow> clusters_of p (get_cluster_size p) = 1"
proof -
  assume "mkfs_wf p"
  then have "512 \<le> get_cluster_size p" by (rule wf_sizes(3))
  then show ?thesis
    using div_add_self1 [of "get_cluster_size p" "get_cluster_size p - 1"]
    by (simp add: clusters_of_def DIV_ROUND_UP_pos div_pos_pos_trivial)
qed

text \<open>The three objects of the heap lie one after the other, each on whole clusters.\<close>

lemma heap_positions:
  assumes wf: "mkfs_wf p" and ck: "check_size p (p_volume_size p) = 0"
  shows "get_position p UCT = heap_start p + clusters_of p (cbm_size p) * get_cluster_size p"
    "get_position p ROOTDIR = heap_start p
       + (clusters_of p (cbm_size p) + clusters_of p 5836) * get_cluster_size p"
    "clusters_of p (cbm_size p) + clusters_of p 5836 + 1 \<le> heap_clusters p"
    "check_position p objects 0 = get_position p ROOTDIR + get_cluster_size p"
proof -
  note s = wf_sizes [OF wf] and h = heap_start_bounds [OF wf] and f = heap_fits [OF wf ck]
  define cs where "cs = get_cluster_size p"
  have h0: "0 \<le> heap_start p" using h(1) s(5) by linarith
  have c0: "0 \<le> cbm_size p" using f by (simp add: pos_imp_zdiv_nonneg_iff)
  have r: "ROUND_UP x cs = DIV_ROUND_UP x cs * cs" for x by (simp add: ROUND_UP_def)
  have R1: "ROUND_UP (heap_start p + cbm_size p) cs = heap_start p + clusters_of p (cbm_size p) * cs"
    using ROUND_UP_add_dvd [of cs "heap_start p" "cbm_size p"] h(3) h0 c0 s(3)
    by (simp add: cs_def r [unfolded cs_def] clusters_of_def)
  define U where "U = heap_start p + clusters_of p (cbm_size p) * cs"
  have U: "cs dvd U" "0 \<le> U"
    using h(3) h0 clusters_of_cover(2) [OF wf c0] s(3) by (simp_all add: U_def cs_def)
  have R2: "ROUND_UP (U + 5836) cs = U + clusters_of p 5836 * cs"
    using ROUND_UP_add_dvd [of cs U 5836] U s(3) by (simp add: cs_def r [unfolded cs_def] clusters_of_def)
  have al: "get_alignment p CBM = cs" "get_alignment p UCT = cs" "get_alignment p ROOTDIR = cs"
    by (simp_all add: cs_def cbm_alignment_def uct_alignment_def rootdir_alignment_def)
  have H: "ROUND_UP (65536 + 4 * clusters p) cs = heap_start p" by (simp add: heap_start_def cs_def)
  note sz = sizes [OF wf] round_positions [OF wf] al H R1 U_def [symmetric] R2
  have p1: "get_position p UCT = U"
    using sz by (simp add: get_position_def objects_def Let_def)
  have p2: "get_position p ROOTDIR = U + clusters_of p 5836 * cs"
    using sz by (simp add: get_position_def objects_def Let_def)
  show "get_position p UCT = heap_start p + clusters_of p (cbm_size p) * get_cluster_size p"
    by (simp add: p1 U_def cs_def)
  show "get_position p ROOTDIR = heap_start p
       + (clusters_of p (cbm_size p) + clusters_of p 5836) * get_cluster_size p"
    by (simp add: p2 U_def cs_def algebra_simps)
  show ce: "check_position p objects 0 = get_position p ROOTDIR + get_cluster_size p"
    using sz p2 by (simp add: objects_def cs_def)
  have "(clusters_of p (cbm_size p) + clusters_of p 5836 + 1) * cs \<le> p_volume_size p - heap_start p"
    using ck ce p2 by (simp add: check_size_def U_def cs_def algebra_simps split: if_splits)
  then have "(clusters_of p (cbm_size p) + clusters_of p 5836 + 1) * cs div cs
      \<le> (p_volume_size p - heap_start p) div cs"
    by (rule zdiv_mono1) (use s(3) in \<open>simp add: cs_def\<close>)
  then show "clusters_of p (cbm_size p) + clusters_of p 5836 + 1 \<le> heap_clusters p"
    using s(3) by (simp add: cs_def heap_clusters_def)
qed

lemma heap_less_clusters:
  assumes wf: "mkfs_wf p" and ck: "check_size p (p_volume_size p) = 0"
  shows "heap_clusters p + heap_start p div get_cluster_size p = clusters p"
    "heap_clusters p < clusters p" "0 < cbm_size p"
proof -
  note s = wf_sizes [OF wf] and h = heap_start_bounds [OF wf] and f = heap_fits [OF wf ck]
  obtain k where k: "heap_start p = get_cluster_size p * k" using h(3) by blast
  have "(p_volume_size p + (- k) * get_cluster_size p) div get_cluster_size p
      = - k + p_volume_size p div get_cluster_size p"
    by (rule div_mult_self1) (use s(3) in auto)
  then show e: "heap_clusters p + heap_start p div get_cluster_size p = clusters p"
    using s(3) by (simp add: heap_clusters_def clusters_def k algebra_simps)
  have "0 < k" using h(1) s(3,5) k by (smt (verit) zero_less_mult_pos)
  then show "heap_clusters p < clusters p" using e k s(3) by simp
  have c0: "0 \<le> cbm_size p" using f by (simp add: pos_imp_zdiv_nonneg_iff)
  have "1 \<le> heap_clusters p"
    using heap_positions(3) [OF wf ck] clusters_of_cover(2) [OF wf c0]
      clusters_of_cover(2) [OF wf, of 5836] by simp
  then show "0 < cbm_size p" using f(3) by simp
qed

section \<open>A 64 MB volume\<close>

definition small_param :: mkfs_param where
  "small_param = \<lparr>p_sector_bits = 9, p_spc_bits = 3, p_volume_size = 67108864,
     p_volume_label = replicate 19 0, p_volume_serial = 7, p_first_sector = 2048\<rparr>"

lemma small_wf: "mkfs_wf small_param"
  by (simp add: mkfs_wf_def small_param_def get_cluster_size_def get_sector_size_def)

lemma small_sizes:
  "get_cluster_size small_param = 4096" "clusters small_param = 16384"
  "heap_start small_param = 131072" "p_volume_size small_param = 67108864"
  "length (p_volume_label small_param) = 19"
  by (simp_all add: small_param_def get_cluster_size_def get_sector_size_def clusters_def
      heap_start_def ROUND_UP_def DIV_ROUND_UP_def cdiv_simps)

lemma small_label: "15 \<le> length (p_volume_label small_param)"
  by (simp add: small_sizes)

lemma check_position_eq:
  assumes "mkfs_wf p"
  shows "check_position p objects 0 = ROUND_UP (ROUND_UP (heap_start p + cbm_size p) (get_cluster_size p)
      + 5836) (get_cluster_size p) + get_cluster_size p"
  using round_positions [OF assms] sizes [OF assms]
  by (simp add: objects_def heap_start_def cbm_alignment_def uct_alignment_def rootdir_alignment_def)

lemma small_check: "check_size small_param (p_volume_size small_param) = 0"
proof -
  have "cbm_size small_param = 2044"
    using sizes(3) [OF small_wf] by (simp add: small_sizes DIV_ROUND_UP_def cdiv_simps)
  then show ?thesis
    by (simp add: check_size_def check_position_eq [OF small_wf] small_sizes ROUND_UP_def
        DIV_ROUND_UP_def cdiv_simps)
qed

end
