(* ===== verification/ExfatMkfsSpec.thy ===== *)
theory ExfatMkfsSpec
  imports ExfatLayout
begin

text \<open>
  What the formatter leaves on the device. The interface \<open>byte_device\<close> is a seekable medium of
  \<open>cap\<close> bytes; over any such device \<open>mkfs\<close> ends with the medium \<open>mkfs_image\<close>, a plain function
  of the parameters and of what was there before.
\<close>

section \<open>The image\<close>

definition fat_chain :: "mkfs_param \<Rightarrow> u32 \<Rightarrow> int \<Rightarrow> u32 list" where
  "fat_chain p c len =
    (let n = nat (clusters_of p len)
     in map (\<lambda>i. if i + 1 < n then c + of_nat i + 1 else EXFAT_CLUSTER_END) [0..<n])"

definition fat_table :: "mkfs_param \<Rightarrow> u32 list" where
  "fat_table p =
    (let a = fat_chain p 2 (cbm_size p);
         b = fat_chain p (2 + of_nat (length a)) (uct_size p);
         c = fat_chain p (2 + of_nat (length a + length b)) (rootdir_size p)
     in [0xfffffff8, 0xffffffff] @ a @ b @ c)"

fun object_bytes :: "mkfs_param \<Rightarrow> fs_object \<Rightarrow> bytes" where
  "object_bytes p VBR = sb_bytes (init_sb p) @ concat (replicate 8 (boot_sector p))
     @ concat (replicate 2 (empty_sector p)) @ checksum_sector p"
| "object_bytes p FAT = concat (map le32 (fat_table p))"
| "object_bytes p CBM = take (bitmap_size p div 8) (bmap_bytes (cbm_bitmap p))"
| "object_bytes p UCT = upcase_table"
| "object_bytes p ROOTDIR = init_label_entry p @ init_bitmap_entry p @ init_upcase_entry p"

fun place :: "mkfs_param \<Rightarrow> (fs_object \<Rightarrow> bytes) \<Rightarrow> fs_object list \<Rightarrow> int \<Rightarrow> medium \<Rightarrow> medium" where
  "place p content [] position m = m"
| "place p content (pp # pps) position m =
    (let position' = ROUND_UP position (get_alignment p pp)
     in place p content pps (position' + get_size p pp) (mwrite m (nat position') (content pp)))"

definition mkfs_image :: "mkfs_param \<Rightarrow> medium \<Rightarrow> medium" where
  "mkfs_image p m = place p (object_bytes p) objects 0
     (place p (\<lambda>pp. replicate (nat (get_size p pp)) 0) objects 0 m)"

lemma length_fat_chain [simp]: "length (fat_chain p c len) = nat (clusters_of p len)"
  by (simp add: fat_chain_def Let_def)

lemma length_concat_le32 [simp]: "length (concat (map le32 xs)) = 4 * length xs"
  by (induction xs) simp_all

lemma fat_chain_bounds:
  assumes "mkfs_wf p" "check_size p (p_volume_size p) = 0"
  defines "a \<equiv> nat (clusters_of p (cbm_size p))" and "b \<equiv> nat (clusters_of p 5836)"
  shows "0 < a" "0 < b" "a + b + 3 < 2 ^ 32" "int (a + b + 1) \<le> heap_clusters p"
proof -
  have c: "0 < clusters_of p (cbm_size p)" "0 < clusters_of p 5836"
    using clusters_of_pos(1) [OF assms(1)] heap_less_clusters(3) [OF assms(1,2)] by auto
  then show "0 < a" "0 < b" by (simp_all add: a_def b_def)
  show h: "int (a + b + 1) \<le> heap_clusters p"
    using c heap_positions(3) [OF assms(1,2)] by (simp add: a_def b_def)
  have "heap_clusters p < 0xfffffff6"
    using heap_less_clusters(2) [OF assms(1,2)] wf_sizes(7) [OF assms(1)] by linarith
  then show "a + b + 3 < 2 ^ 32" using h by simp
qed

text \<open>Every object of the list ends, with \<open>len\<close> bytes written, before byte \<open>limit\<close>.\<close>

fun room :: "mkfs_param \<Rightarrow> (fs_object \<Rightarrow> int) \<Rightarrow> int \<Rightarrow> fs_object list \<Rightarrow> int \<Rightarrow> bool" where
  "room p len limit [] position = True"
| "room p len limit (pp # pps) position =
    (let position' = ROUND_UP position (get_alignment p pp)
     in 0 \<le> position' \<and> 0 \<le> len pp \<and> position' + len pp \<le> limit
        \<and> room p len limit pps (position' + get_size p pp))"

section \<open>The device\<close>

locale byte_device =
  fixes io :: "'d exfat_io" and ready :: "'d \<Rightarrow> bool" and pos :: "'d \<Rightarrow> nat"
    and img :: "'d \<Rightarrow> medium" and cap :: nat
  assumes seek_law: "ready d \<Longrightarrow> 0 \<le> off \<Longrightarrow>
      \<exists>d'. exfat_seek io off d = (off, d') \<and> ready d' \<and> pos d' = nat off \<and> img d' = img d"
    and write_law: "ready d \<Longrightarrow> length bs < 2 ^ 31 \<Longrightarrow> pos d + length bs \<le> cap \<Longrightarrow>
      \<exists>d'. exfat_write io bs d = (int (length bs), d') \<and> ready d' \<and> pos d' = pos d + length bs
        \<and> img d' = mwrite (img d) (pos d) bs"
    and fsync_law: "ready d \<Longrightarrow>
      \<exists>d'. exfat_fsync io d = (0, d') \<and> ready d' \<and> img d' = img d"
    and malloc_law: "ready d \<Longrightarrow> exfat_malloc io n d"
begin

text \<open>\<open>wrote d bs d'\<close>: from \<open>d\<close>, the bytes \<open>bs\<close> went to the device at its position.\<close>

definition wrote :: "'d \<Rightarrow> bytes \<Rightarrow> 'd \<Rightarrow> bool" where
  "wrote d bs d' \<longleftrightarrow> ready d' \<and> pos d' = pos d + length bs \<and> img d' = mwrite (img d) (pos d) bs"

lemma wrote_append: "wrote d xs d1 \<Longrightarrow> wrote d1 ys d2 \<Longrightarrow> wrote d (xs @ ys) d2"
  by (simp add: wrote_def mwrite_append)

lemma wrote_Nil: "ready d \<Longrightarrow> wrote d [] d"
  by (simp add: wrote_def)

lemma wrote_ready: "wrote d bs d' \<Longrightarrow> ready d'"
  by (simp add: wrote_def)

lemma wrote_pos: "wrote d bs d' \<Longrightarrow> pos d' = pos d + length bs"
  by (simp add: wrote_def)

lemma write_one:
  assumes "ready d" "length bs < 2 ^ 31" "pos d + length bs \<le> cap"
  obtains d' where "exfat_write io bs d = (int (length bs), d')" "wrote d bs d'"
  using write_law [OF assms] by (auto simp: wrote_def)

lemma write_each_all:
  assumes "ready d" "\<And>b. b \<in> set bs \<Longrightarrow> length b < 2 ^ 31" "pos d + length (concat bs) \<le> cap"
  shows "\<exists>d'. write_each io bs d = (0, d') \<and> wrote d (concat bs) d'"
  using assms
proof (induction bs arbitrary: d)
  case Nil
  then show ?case by (simp add: wrote_Nil)
next
  case (Cons b bs)
  obtain d1 where d1: "exfat_write io b d = (int (length b), d1)" "wrote d b d1"
    using write_one [of d b] Cons.prems by auto
  obtain d2 where "write_each io bs d1 = (0, d2)" "wrote d1 (concat bs) d2"
    using Cons.IH [of d1] Cons.prems d1(2) by (auto simp: wrote_def)
  then show ?case using d1 wrote_append by auto
qed

lemma vbr_written:
  assumes "ready d" "p_sector_bits p = 9" "pos d + length (object_bytes p VBR) \<le> cap"
  shows "\<exists>d'. vbr_write io p d = (0, d') \<and> wrote d (object_bytes p VBR) d'"
proof -
  define bs where "bs = sb_bytes (init_sb p) # replicate 8 (boot_sector p)
    @ replicate 2 (empty_sector p) @ [checksum_sector p]"
  have c: "concat bs = object_bytes p VBR" by (simp add: bs_def)
  have "sb_wf (init_sb p)" by (simp add: sb_wf_def init_sb_def Let_def)
  then have "length b = 512" if "b \<in> set bs" for b
    using that assms(2)
    by (auto simp: bs_def length_sb_bytes boot_sector_def empty_sector_def checksum_sector_def
        get_sector_size_def length_concat sum_list_replicate)
  then have "\<exists>d'. write_each io bs d = (0, d') \<and> wrote d (concat bs) d'"
    using assms(1,3) by (intro write_each_all) (auto simp: c)
  then show ?thesis
    using malloc_law [OF assms(1)] by (auto simp: vbr_write_def bs_def [symmetric] c)
qed

lemma fat_entry_written:
  assumes "ready d" "pos d + 4 \<le> cap"
  shows "\<exists>d'. fat_write_entry io c e d = (c + 1, d') \<and> wrote d (le32 e) d'"
proof -
  obtain d' where "exfat_write io (le32 e) d = (4, d')" "wrote d (le32 e) d'"
    using write_one [of d "le32 e"] assms by auto
  then show ?thesis by (auto simp: fat_write_entry_def)
qed

lemma fat_loop_written:
  assumes "ready d" "unat c + Suc n < 2 ^ 32" "pos d + 4 * Suc n \<le> cap"
  shows "\<exists>d'. fat_entries_loop io c (c + of_nat n) d = (c + of_nat n + 1, d')
    \<and> wrote d (concat (map (\<lambda>i. le32 (if i < n then c + of_nat i + 1 else EXFAT_CLUSTER_END))
        [0..<Suc n])) d'"
  using assms
proof (induction n arbitrary: c d)
  case 0
  then show ?case
    using fat_entry_written [of d c EXFAT_CLUSTER_END] by (subst fat_entries_loop.simps) simp
next
  case (Suc n)
  have u: "unat (c + of_nat (Suc n)) = unat c + Suc n"
    by (rule unat_add_of_nat) (use Suc.prems(2) in simp)
  then have lt: "c < c + of_nat (Suc n)" by (simp add: word_less_nat_alt)
  have u1: "unat (c + 1) = unat c + 1" by (rule unat_succ [OF lt])
  then have nz: "c + 1 \<noteq> 0" by auto
  obtain d1 where d1: "fat_write_entry io c (c + 1) d = (c + 1, d1)" "wrote d (le32 (c + 1)) d1"
    using fat_entry_written [of d c "c + 1"] Suc.prems by auto
  obtain d2 where d2: "fat_entries_loop io (c + 1) (c + 1 + of_nat n) d1
      = (c + 1 + of_nat n + 1, d2)"
    "wrote d1 (concat (map (\<lambda>i. le32 (if i < n then c + 1 + of_nat i + 1 else EXFAT_CLUSTER_END))
        [0..<Suc n])) d2"
    using Suc.IH [of d1 "c + 1"] u1 Suc.prems wrote_ready [OF d1(2)] wrote_pos [OF d1(2)] by auto
  have e: "c + of_nat (Suc i) + 1 = c + 1 + of_nat i + 1" "c + of_nat 0 + 1 = c + 1" for i
    by simp_all
  have l: "[0..<Suc (Suc n)] = 0 # map Suc [0..<Suc n]" 
    by (subst upt_conv_Cons) (simp_all only: map_Suc_upt zero_less_Suc)
  have "fat_entries_loop io c (c + of_nat (Suc n)) d = (c + of_nat (Suc n) + 1, d2)"
    using lt nz d1 d2(1) by (subst fat_entries_loop.simps) (simp add: ac_simps)
  moreover have "wrote d (concat (map (\<lambda>i. le32 (if i < Suc n then c + of_nat i + 1
      else EXFAT_CLUSTER_END)) [0..<Suc (Suc n)])) d2"
    unfolding l using wrote_append [OF d1(2) d2(2)] e
    by (simp only: list.map concat.simps map_map o_def Suc_less_eq zero_less_Suc if_True)
  ultimately show ?case by blast
qed

lemma fat_entries_written:
  assumes wf: "mkfs_wf p" "0 < len" and d: "ready d"
    and n: "n = nat (clusters_of p len)" "unat c + n < 2 ^ 32" "pos d + 4 * n \<le> cap"
  shows "\<exists>d'. fat_write_entries io p c len d = (c + of_nat n, d')
    \<and> wrote d (concat (map le32 (fat_chain p c len))) d'"
proof -
  have "0 < clusters_of p len" by (rule clusters_of_pos(1) [OF wf])
  then have "0 < n" by (simp add: n(1))
  then obtain m where m: "n = Suc m" by (auto dest: gr0_implies_Suc)
  have w: "word_of_int (clusters_of p len) = (of_nat n :: u32)"
    using \<open>0 < clusters_of p len\<close> by (simp add: n(1))
  have ch: "concat (map le32 (fat_chain p c len))
      = concat (map (\<lambda>i. le32 (if i < m then c + of_nat i + 1 else EXFAT_CLUSTER_END)) [0..<Suc m])"
    unfolding fat_chain_def Let_def n(1) [symmetric] m by (simp only: map_map o_def Suc_eq_plus1 [symmetric] Suc_less_eq)
  obtain d' where "fat_entries_loop io c (c + of_nat m) d = (c + of_nat m + 1, d')"
    "wrote d (concat (map (\<lambda>i. le32 (if i < m then c + of_nat i + 1 else EXFAT_CLUSTER_END)) [0..<Suc m])) d'"
    using fat_loop_written [OF d, of c m] n(2,3) m by auto
  then show ?thesis
    unfolding fat_write_entries_def clusters_of_def [symmetric] w m ch by (auto simp: ac_simps)
qed

lemma fat_written:
  assumes wf: "mkfs_wf p" "check_size p (p_volume_size p) = 0" and d: "ready d"
    and room: "pos d + length (object_bytes p FAT) \<le> cap"
  shows "\<exists>d'. fat_write io p d = (0, d') \<and> wrote d (object_bytes p FAT) d'"
proof -
  define a b where "a = nat (clusters_of p (cbm_size p))" and "b = nat (clusters_of p 5836)"
  note ab = fat_chain_bounds [OF wf, folded a_def b_def]
  have one: "nat (clusters_of p (get_cluster_size p)) = 1" by (simp add: clusters_of_one [OF wf(1)])
  have sz: "uct_size p = 5836" "rootdir_size p = get_cluster_size p" "0 < rootdir_size p"
    using wf_sizes(3) [OF wf(1)] by (simp_all add: uct_size_def length_upcase_table rootdir_size_def)
  define A B R where "A = fat_chain p 2 (cbm_size p)" and "B = fat_chain p (2 + of_nat a) (uct_size p)"
    and "R = fat_chain p (2 + of_nat a + of_nat b) (rootdir_size p)"
  have len: "length A = a" "length B = b" "length R = 1"
    by (simp_all add: A_def B_def R_def a_def b_def sz one)
  have ft: "object_bytes p FAT = le32 0xfffffff8 @ le32 0xffffffff @ concat (map le32 A)
      @ concat (map le32 B) @ concat (map le32 R)"
    using len by (simp add: fat_table_def Let_def A_def B_def R_def add.assoc a_def [symmetric])
  have "length (object_bytes p FAT) = 8 + 4 * a + 4 * b + 4" unfolding ft by (simp add: len)
  then have room': "pos d + 8 + 4 * a + 4 * b + 4 \<le> cap" using room by linarith
  obtain d1 where d1: "fat_write_entry io 0 0xfffffff8 d = (1, d1)" "wrote d (le32 0xfffffff8) d1"
    using fat_entry_written [OF d, of 0 "0xfffffff8"] room' by auto
  obtain d2 where d2: "fat_write_entry io 1 0xffffffff d1 = (2, d2)" "wrote d1 (le32 0xffffffff) d2"
    using fat_entry_written [OF wrote_ready [OF d1(2)], of 1 "0xffffffff"] wrote_pos [OF d1(2)] room'
    by auto
  have u2: "unat (2 + of_nat a :: u32) = 2 + a" "unat (2 + of_nat a + of_nat b :: u32) = 2 + a + b"
    using ab(3) unat_add_of_nat [of "2 :: u32" a] unat_add_of_nat [of "2 + of_nat a :: u32" b] by auto
  obtain d3 where d3: "fat_write_entries io p 2 (cbm_size p) d2 = (2 + of_nat a, d3)"
    "wrote d2 (concat (map le32 A)) d3"
    using fat_entries_written [OF wf(1) heap_less_clusters(3) [OF wf] wrote_ready [OF d2(2)] a_def, of 2]
      wrote_pos [OF d1(2)] wrote_pos [OF d2(2)] room' ab(3) by (auto simp: A_def)
  obtain d4 where d4: "fat_write_entries io p (2 + of_nat a) (uct_size p) d3
      = (2 + of_nat a + of_nat b, d4)" "wrote d3 (concat (map le32 B)) d4"
    using fat_entries_written [OF wf(1) _ wrote_ready [OF d3(2)] b_def, of "2 + of_nat a"] sz(1) u2
      wrote_pos [OF d1(2)] wrote_pos [OF d2(2)] wrote_pos [OF d3(2)] room' ab(3) len
    by (auto simp: B_def)
  obtain d5 where d5: "fat_write_entries io p (2 + of_nat a + of_nat b) (rootdir_size p) d4
      = (2 + of_nat a + of_nat b + 1, d5)" "wrote d4 (concat (map le32 R)) d5"
    using fat_entries_written [OF wf(1) sz(3) wrote_ready [OF d4(2)] refl, of "2 + of_nat a + of_nat b"]
      sz(2) u2 one wrote_pos [OF d1(2)] wrote_pos [OF d2(2)] wrote_pos [OF d3(2)] wrote_pos [OF d4(2)]
      room' ab(3) len by (auto simp: R_def)
  have nz: "(2 + of_nat a :: u32) \<noteq> 0" "(2 + of_nat a + of_nat b :: u32) \<noteq> 0"
    using u2 by (metis add_2_eq_Suc nat.distinct(1) unat_0,
        metis add_2_eq_Suc add_Suc nat.distinct(1) unat_0)
  have "unat (2 + of_nat a + of_nat b + 1 :: u32) = 2 + a + b + 1"
    using unat_add_of_nat [of "2 + of_nat a + of_nat b :: u32" 1] u2(2) ab(3) by simp
  then have nz3: "(2 + of_nat a + of_nat b + 1 :: u32) \<noteq> 0" by (metis add_is_0 one_neq_zero unat_0)
  have "fat_write io p d = (0, d5)"
    using d1(1) d2(1) d3(1) d4(1) d5(1) nz nz3 by (simp add: fat_write_def)
  moreover have "wrote d (object_bytes p FAT) d5"
    unfolding ft using d1(2) d2(2) d3(2) d4(2) d5(2) by (blast intro: wrote_append)
  ultimately show ?thesis by blast
qed

lemma object_written:
  assumes wf: "mkfs_wf p" "check_size p (p_volume_size p) = 0" and d: "ready d"
    and rm: "pos d + length (object_bytes p obj) \<le> cap"
  shows "\<exists>d'. object_write io p obj d = (0, d') \<and> wrote d (object_bytes p obj) d'"
proof (cases obj)
  case VBR
  then show ?thesis using vbr_written [OF d] wf(1) rm by (auto simp: mkfs_wf_def)
next
  case FAT
  then show ?thesis using fat_written [OF wf d] rm by auto
next
  case CBM
  define bs where "bs = take (bitmap_size p div 8) (bmap_bytes (cbm_bitmap p))"
  have "bitmap_size p < 2 ^ 32"
    using unsigned_less [of "ROUND_UP_u32 (allocated_clusters p) 8", where 'a = nat]
    by (simp add: bitmap_size_def)
  then have "length bs < 2 ^ 31" by (simp add: bs_def)
  then obtain d' where "exfat_write io bs d = (int (length bs), d')" "wrote d bs d'"
    using write_one [OF d, of bs] rm CBM by (auto simp: bs_def)
  then show ?thesis
    using CBM malloc_law [OF d] by (simp add: cbm_write_def bs_def [symmetric])
next
  case UCT
  obtain d' where "exfat_write io upcase_table d = (5836, d')" "wrote d upcase_table d'"
    using write_one [OF d, of upcase_table] rm UCT by (auto simp: length_upcase_table)
  then show ?thesis using UCT by (simp add: uct_write_def)
next
  case ROOTDIR
  have "length b < 2 ^ 31" if "b \<in> {init_label_entry p, init_bitmap_entry p, init_upcase_entry p}" for b
  proof -
    have "length (concat (map le16 xs)) = 2 * length xs" for xs by (induction xs) simp_all
    then show ?thesis using that
      by (auto simp: init_label_entry_def init_bitmap_entry_def init_upcase_entry_def Let_def
          EXFAT_ENAME_MAX_def)
  qed
  then show ?thesis
    using write_each_all [OF d, of "[init_label_entry p, init_bitmap_entry p, init_upcase_entry p]"]
      rm ROOTDIR by (auto simp: rootdir_write_def)
qed

lemma erase_loop_written:
  assumes "ready d" "0 \<le> i" "i \<le> n" "pos d + nat (n - i) \<le> cap"
  shows "\<exists>d'. erase_loop io i n d = (0, d') \<and> wrote d (replicate (nat (n - i)) 0) d'"
  using assms
proof (induction "nat (n - i)" arbitrary: i d rule: less_induct)
  case less
  show ?case
  proof (cases "i < n")
    case False
    then show ?thesis using less.prems by (subst erase_loop.simps) (auto intro: wrote_Nil)
  next
    case True
    define k where "k = min (n - i) erase_block_size"
    have k: "0 < k" "k \<le> n - i" "k \<le> 1048576" using True by (auto simp: k_def erase_block_size_def)
    have "nat k < 2147483648" "pos d + nat k \<le> cap" using k less.prems(4) by linarith+
    then obtain d1 where d1: "exfat_write io (replicate (nat k) 0) d = (k, d1)"
      "wrote d (replicate (nat k) 0) d1"
      using write_one [of d "replicate (nat k) 0"] less.prems(1) k(1) by auto
    show ?thesis
    proof (cases "k = erase_block_size")
      case full: True
      then have i': "i + erase_block_size \<le> n" using k(2) by simp
      have "nat (n - (i + k)) < nat (n - i)" "0 \<le> i + k" "i + k \<le> n"
        "pos d1 + nat (n - (i + k)) \<le> cap"
        using less.prems k wrote_pos [OF d1(2)] by simp_all
      then obtain d2 where d2: "erase_loop io (i + k) n d1 = (0, d2)"
        "wrote d1 (replicate (nat (n - (i + k))) 0) d2"
        using less.hyps [OF _ wrote_ready [OF d1(2)]] by blast
      have "nat k + nat (n - (i + k)) = nat (n - i)" using k by linarith
      then have "wrote d (replicate (nat (n - i)) 0) d2"
        using wrote_append [OF d1(2) d2(2)] by (simp add: replicate_add [symmetric])
      moreover have "erase_loop io i n d = (0, d2)"
        using True d1(1) k(1) d2(1) full by (subst erase_loop.simps) (simp add: k_def [symmetric])
      ultimately show ?thesis by blast
    next
      case part: False
      then have "k = n - i" "n < i + erase_block_size" by (auto simp: k_def min_def split: if_splits)
      moreover have "erase_loop io i n d = (0, d1)"
        using True d1(1) k(1) calculation by (subst erase_loop.simps)
          (simp add: k_def [symmetric] erase_loop.simps)
      ultimately show ?thesis using d1(2) by auto
    qed
  qed
qed

lemma erase_objects_written:
  assumes "ready d" "room p (get_size p) (int cap) objs position"
  shows "\<exists>d'. erase_objects io p objs position d = (0, d') \<and> ready d'
    \<and> img d' = place p (\<lambda>pp. replicate (nat (get_size p pp)) 0) objs position (img d)"
  using assms
proof (induction objs arbitrary: position d)
  case (Cons pp pps)
  define q where "q = ROUND_UP position (get_alignment p pp)"
  have q: "0 \<le> q" "0 \<le> get_size p pp" "q + get_size p pp \<le> int cap"
    "room p (get_size p) (int cap) pps (q + get_size p pp)"
    using Cons.prems(2) by (simp_all add: Let_def q_def)
  obtain d1 where d1: "exfat_seek io q d = (q, d1)" "ready d1" "pos d1 = nat q" "img d1 = img d"
    using seek_law [OF Cons.prems(1) q(1)] by auto
  have "nat q + nat (get_size p pp - 0) \<le> cap" using q by linarith
  then obtain d2 where d2: "erase_loop io 0 (get_size p pp) d1 = (0, d2)"
    "wrote d1 (replicate (nat (get_size p pp)) 0) d2"
    using erase_loop_written [OF d1(2) _ q(2)] d1(3) by auto
  have e: "erase_object io q (get_size p pp) d = (0, d2)"
    using d1(1) d2(1) q(1) by (simp add: erase_object_def)
  show ?case
    using Cons.IH [OF wrote_ready [OF d2(2)] q(4)] e d2(2) d1
    by (auto simp: Let_def q_def [symmetric] wrote_def)
qed simp

lemma create_objects_written:
  assumes wf: "mkfs_wf p" "check_size p (p_volume_size p) = 0"
    and "ready d" "room p (\<lambda>pp. int (length (object_bytes p pp))) (int cap) objs position"
  shows "\<exists>d'. create_objects io p objs position d = (0, d') \<and> ready d'
    \<and> img d' = place p (object_bytes p) objs position (img d)"
  using assms(3,4)
proof (induction objs arbitrary: position d)
  case (Cons pp pps)
  define q where "q = ROUND_UP position (get_alignment p pp)"
  have q: "0 \<le> q" "q + int (length (object_bytes p pp)) \<le> int cap"
    "room p (\<lambda>pp. int (length (object_bytes p pp))) (int cap) pps (q + get_size p pp)"
    using Cons.prems(2) by (simp_all add: Let_def q_def del: object_bytes.simps)
  obtain d1 where d1: "exfat_seek io q d = (q, d1)" "ready d1" "pos d1 = nat q" "img d1 = img d"
    using seek_law [OF Cons.prems(1) q(1)] by auto
  have "nat q + length (object_bytes p pp) \<le> cap" using q by linarith
  then obtain d2 where d2: "object_write io p pp d1 = (0, d2)" "wrote d1 (object_bytes p pp) d2"
    using object_written [OF wf d1(2)] d1(3) by auto
  show ?case
    using Cons.IH [OF wrote_ready [OF d2(2)] q(3)] d1 d2 q(1)
    by (auto simp: Let_def q_def [symmetric] wrote_def simp del: object_bytes.simps)
qed simp

lemma mkfs_written:
  assumes wf: "mkfs_wf p" "check_size p (p_volume_size p) = 0" and d: "ready d"
    and rm: "room p (get_size p) (int cap) objects 0"
      "room p (\<lambda>pp. int (length (object_bytes p pp))) (int cap) objects 0"
  shows "\<exists>d'. mkfs io p (p_volume_size p) d = (0, d') \<and> ready d'
    \<and> img d' = mkfs_image p (img d)"
proof -
  obtain d1 where d1: "erase io p d = (0, d1)" "ready d1"
    "img d1 = place p (\<lambda>pp. replicate (nat (get_size p pp)) 0) objects 0 (img d)"
    using erase_objects_written [OF d rm(1)] malloc_law [OF d] by (auto simp: erase_def)
  obtain d2 where d2: "create io p d1 = (0, d2)" "ready d2"
    "img d2 = place p (object_bytes p) objects 0 (img d1)"
    using create_objects_written [OF wf d1(2) rm(2)] by (auto simp: create_def)
  obtain d3 where d3: "exfat_fsync io d2 = (0, d3)" "ready d3" "img d3 = img d2"
    using fsync_law [OF d2(2)] by auto
  show ?thesis
    using wf(2) d1 d2 d3 by (simp add: mkfs_def mkfs_image_def)
qed

end

end
