(* ===== verification/ExfatImage.thy ===== *)
theory ExfatImage
  imports ExfatMkfsSpec
begin

text \<open>
  What can be read from a freshly formatted volume: the objects lie on disjoint ranges inside the
  volume, each reads back as written, and the boot record describes that layout.
\<close>

section \<open>Writes to disjoint ranges\<close>

definition lay :: "(nat \<times> bytes) list \<Rightarrow> medium \<Rightarrow> medium" where
  "lay ws m = foldl (\<lambda>m (a, xs). mwrite m a xs) m ws"

fun ascending :: "nat \<Rightarrow> (nat \<times> bytes) list \<Rightarrow> bool" where
  "ascending lo [] = True"
| "ascending lo ((a, xs) # ws) = (lo \<le> a \<and> ascending (a + length xs) ws)"

lemma lay_Cons [simp]: "lay ((a, xs) # ws) m = lay ws (mwrite m a xs)"
  by (simp add: lay_def)

lemma lay_Nil [simp]: "lay [] m = m"
  by (simp add: lay_def)

lemma ascending_mono: "ascending lo ws \<Longrightarrow> lo' \<le> lo \<Longrightarrow> ascending lo' ws"
  by (cases ws) auto

lemma ascending_bound: "ascending lo ws \<Longrightarrow> (a, xs) \<in> set ws \<Longrightarrow> lo \<le> a"
proof (induction ws arbitrary: lo)
  case (Cons w ws)
  obtain b ys where w: "w = (b, ys)" by (cases w)
  show ?case
  proof (cases "(a, xs) = w")
    case False
    then have "b + length ys \<le> a" using Cons.IH [of "b + length ys"] Cons.prems w by auto
    then show ?thesis using Cons.prems(1) w by auto
  qed (use Cons.prems w in auto)
qed simp

lemma lay_outside:
  assumes "\<And>b ys. (b, ys) \<in> set ws \<Longrightarrow> a + n \<le> b \<or> b + length ys \<le> a"
  shows "mread (lay ws m) a n = mread m a n"
  using assms
proof (induction ws arbitrary: m)
  case (Cons w ws)
  obtain b ys where w: "w = (b, ys)" by (cases w)
  have "mread (lay ws (mwrite m b ys)) a n = mread (mwrite m b ys) a n"
    using Cons.IH Cons.prems by auto
  then show ?case using Cons.prems [of b ys] w by (simp add: mread_mwrite_disjoint)
qed simp

lemma lay_reads:
  assumes "ascending lo ws" "(a, xs) \<in> set ws"
  shows "mread (lay ws m) a (length xs) = xs"
  using assms
proof (induction ws arbitrary: lo m)
  case (Cons w ws)
  obtain b ys where w: "w = (b, ys)" by (cases w)
  show ?case
  proof (cases "(a, xs) = w")
    case True
    have "mread (lay ws (mwrite m a xs)) a (length xs) = mread (mwrite m a xs) a (length xs)"
      by (rule lay_outside) (use Cons.prems(1) True w ascending_bound in auto)
    then show ?thesis using True w by simp
  next
    case False
    then show ?thesis using Cons.IH [of "b + length ys" "mwrite m b ys"] Cons.prems w by auto
  qed
qed simp

section \<open>The objects\<close>

definition objs_at :: "mkfs_param \<Rightarrow> (fs_object \<Rightarrow> bytes) \<Rightarrow> (nat \<times> bytes) list" where
  "objs_at p content = [(0, content VBR), (6144, content VBR), (65536, content FAT),
     (nat (get_position p CBM), content CBM), (nat (get_position p UCT), content UCT),
     (nat (get_position p ROOTDIR), content ROOTDIR)]"

lemma place_objects:
  assumes "mkfs_wf p" "check_size p (p_volume_size p) = 0"
  shows "place p content objects 0 m = lay (objs_at p content) m"
proof -
  note pos = position_VBR_FAT_CBM [OF assms(1)] and sz = sizes [OF assms(1)]
    and rp = round_positions [OF assms(1)]
  have "get_position p CBM = ROUND_UP (65536 + get_size p FAT) (get_alignment p CBM)"
    "get_position p UCT = ROUND_UP (get_position p CBM + get_size p CBM) (get_alignment p UCT)"
    "get_position p ROOTDIR = ROUND_UP (get_position p UCT + get_size p UCT) (get_alignment p ROOTDIR)"
    using rp sz by (simp_all add: get_position_def objects_def Let_def)
  then show ?thesis
    using rp sz by (simp add: objs_at_def objects_def Let_def lay_def del: get_alignment.simps)
qed

text \<open>The FAT needs less room than there is before the cluster heap.\<close>

lemma fat_room:
  assumes wf: "mkfs_wf p" and ck: "check_size p (p_volume_size p) = 0"
  shows "65536 + 4 * (clusters_of p (cbm_size p) + clusters_of p 5836 + 3) \<le> heap_start p"
proof -
  note s = wf_sizes [OF wf] and h = heap_start_bounds [OF wf] and f = heap_fits [OF wf ck]
    and l = heap_less_clusters [OF wf ck]
  define a b where "a = clusters_of p (cbm_size p)" and "b = clusters_of p 5836"
  have "512 * b \<le> b * get_cluster_size p"
    using s(3) clusters_of_cover(2) [OF wf, of 5836] mult_left_mono [of 512 "get_cluster_size p" b]
    by (simp add: b_def mult.commute)
  have b: "b \<le> 12"
  proof -
    have "DIV_ROUND_UP 5836 (get_cluster_size p) \<le> 12"
    proof -
      have "5836 + get_cluster_size p - 1 \<le> get_cluster_size p - 1 + 12 * get_cluster_size p"
        using s(3) by simp
      then have "(5836 + get_cluster_size p - 1) div get_cluster_size p
          \<le> (get_cluster_size p - 1 + 12 * get_cluster_size p) div get_cluster_size p"
        by (rule zdiv_mono1) (use s(3) in auto)
      also have "\<dots> = 12 + (get_cluster_size p - 1) div get_cluster_size p"
        by (rule div_mult_self1) (use s(3) in auto)
      also have "(get_cluster_size p - 1) div get_cluster_size p = 0"
        using s(3) by (simp add: div_pos_pos_trivial)
      finally have "(5836 + get_cluster_size p - 1) div get_cluster_size p \<le> 12" by simp
      then show ?thesis using s(3) by (simp add: DIV_ROUND_UP_pos)
    qed
    then show ?thesis by (simp add: b_def clusters_of_def)
  qed
  have a: "512 * (a - 1) < cbm_size p"
  proof -
    have "a * get_cluster_size p < cbm_size p + get_cluster_size p" "0 < a"
      using clusters_of_cover(3) [OF wf, of "cbm_size p"] clusters_of_pos(1) [OF wf l(3)] l(3)
      by (simp_all add: a_def)
    then have "(a - 1) * get_cluster_size p < cbm_size p" by (simp add: algebra_simps)
    moreover have "(a - 1) * 512 \<le> (a - 1) * get_cluster_size p"
      using s(3) \<open>0 < a\<close> by (intro mult_left_mono) auto
    ultimately show ?thesis by linarith
  qed
  have cb: "8 * cbm_size p \<le> clusters p + 7" using f(3) l(2) by linarith
  have "65536 + 512 \<le> heap_start p"
  proof -
    obtain k where k: "heap_start p = get_cluster_size p * k" using h(3) by blast
    obtain j where j: "get_cluster_size p = 512 * j" using s(2) by blast
    have "65536 < heap_start p" using h(1) l f(2) by linarith
    then have "512 * 128 < 512 * (j * k)" using j k by (simp add: ac_simps)
    then show ?thesis using j k by (simp add: ac_simps)
  qed
  moreover have "4 * (a + b + 3) \<le> 512" if "a \<le> 113" using that b by simp
  moreover have "4 * (a + b + 3) \<le> 4 * clusters p" if "\<not> a \<le> 113" using that a b cb by simp
  ultimately show ?thesis using h(1) by (cases "a \<le> 113") (auto simp: a_def b_def)
qed

text \<open>The bitmap marks the clusters of the three objects of the heap.\<close>

lemma unat_round_up_8:
  assumes "unat x + 7 < 2 ^ 32"
  shows "unat (ROUND_UP_u32 x 8) = (unat x + 7) div 8 * 8"
proof -
  have "unat (x + 8 - 1) = unat x + 7"
    using assms unat_add_of_nat [of x 7] by (simp add: add_diff_eq [symmetric])
  then have d: "unat ((x + 8 - 1) div 8) = (unat x + 7) div 8" by (simp add: unat_div)
  have "(unat x + 7) div 8 * 8 < 2 ^ 32" using assms by linarith
  then show ?thesis unfolding ROUND_UP_u32_def unat_word_ariths(2) d by simp
qed

lemma allocated:
  assumes wf: "mkfs_wf p" and ck: "check_size p (p_volume_size p) = 0"
  defines "n \<equiv> nat (clusters_of p (cbm_size p)) + nat (clusters_of p 5836) + 1"
  shows "unat (allocated_clusters p) = n" "bitmap_size p = (n + 7) div 8 * 8"
    "length (object_bytes p CBM) = (n + 7) div 8" "int n \<le> heap_clusters p"
proof -
  note b = fat_chain_bounds [OF wf ck]
  have rd: "rootdir_size p = get_cluster_size p" "uct_size p = 5836"
    by (simp_all add: rootdir_size_def uct_size_def length_upcase_table)
  have "clusters_of p (cbm_size p) + clusters_of p 5836 + 1 = int n"
    using b(1,2) by (simp add: n_def)
  then have "allocated_clusters p = of_nat n"
    using clusters_of_one [OF wf] by (simp add: allocated_clusters_def rd flip: clusters_of_def)
  moreover show hc: "int n \<le> heap_clusters p" using b(4) by (simp add: n_def)
  moreover have "heap_clusters p < 0xfffffff6"
    using heap_less_clusters(2) [OF wf ck] wf_sizes(7) [OF wf] by linarith
  ultimately show u: "unat (allocated_clusters p) = n"
    by (simp add: unsigned_of_nat take_bit_nat_eq_self)
  show bs: "bitmap_size p = (n + 7) div 8 * 8"
    using unat_round_up_8 [of "allocated_clusters p"] u hc \<open>heap_clusters p < 0xfffffff6\<close>
    by (simp add: bitmap_size_def)
  have fl: "length (foldl (\<lambda>bm i. if P i then BMAP_SET bm i else bm) bm xs) = length bm" for P bm xs
    by (induction xs arbitrary: bm) auto
  have "length (cbm_bitmap p) = BMAP_SIZE (bitmap_size p) div 8" by (simp add: cbm_bitmap_def fl)
  then show "length (object_bytes p CBM) = (n + 7) div 8"
    by (simp add: bs BMAP_SIZE_def min_def) linarith
qed

lemma object_lengths:
  assumes wf: "mkfs_wf p" and ck: "check_size p (p_volume_size p) = 0"
    and lb: "15 \<le> length (p_volume_label p)"
  shows "length (object_bytes p VBR) = 6144"
    "int (length (object_bytes p FAT)) = 4 * (clusters_of p (cbm_size p) + clusters_of p 5836 + 3)"
    "int (length (object_bytes p CBM)) \<le> cbm_size p"
    "length (object_bytes p UCT) = 5836" "length (object_bytes p ROOTDIR) = 96"
proof -
  note s = wf_sizes [OF wf]
  have "sb_wf (init_sb p)" by (simp add: sb_wf_def init_sb_def Let_def)
  then show "length (object_bytes p VBR) = 6144"
    using s(1) by (simp add: length_sb_bytes boot_sector_def empty_sector_def checksum_sector_def
        length_concat sum_list_replicate)
  have rd: "rootdir_size p = get_cluster_size p" "uct_size p = 5836"
    by (simp_all add: rootdir_size_def uct_size_def length_upcase_table)
  show "int (length (object_bytes p FAT)) = 4 * (clusters_of p (cbm_size p) + clusters_of p 5836 + 3)"
    using clusters_of_one [OF wf] clusters_of_cover(2) [OF wf, of 5836]
      clusters_of_pos(1) [OF wf heap_less_clusters(3) [OF wf ck]]
    by (simp add: fat_table_def Let_def rd)
  show "length (object_bytes p UCT) = 5836" by (simp add: length_upcase_table)
  have "length (concat (map le16 xs)) = 2 * length xs" for xs by (induction xs) simp_all
  then show "length (object_bytes p ROOTDIR) = 96"
    using lb by (simp add: init_label_entry_def init_bitmap_entry_def init_upcase_entry_def Let_def
        EXFAT_ENAME_MAX_def)
  show "int (length (object_bytes p CBM)) \<le> cbm_size p"
  proof -
    define n where "n = nat (clusters_of p (cbm_size p)) + nat (clusters_of p 5836) + 1"
    note al = allocated(3,4) [OF wf ck, folded n_def]
    have "int ((n + 7) div 8) = (int n + 7) div 8" by (simp add: zdiv_int)
    also have "\<dots> \<le> (heap_clusters p + 7) div 8" using al(2) by (intro zdiv_mono1) auto
    finally show ?thesis using al(1) heap_fits(3) [OF wf ck] by (simp only:)
  qed
qed

lemma object_order:
  assumes wf: "mkfs_wf p" and ck: "check_size p (p_volume_size p) = 0"
  shows "65536 + get_size p FAT \<le> get_position p CBM"
    "65536 + 4 * (clusters_of p (cbm_size p) + clusters_of p 5836 + 3) \<le> get_position p CBM"
    "get_position p CBM + get_size p CBM \<le> get_position p UCT"
    "get_position p UCT + get_size p UCT \<le> get_position p ROOTDIR"
    "get_position p ROOTDIR + get_size p ROOTDIR \<le> p_volume_size p"
    "0 \<le> get_size p FAT" "0 \<le> get_size p CBM" "512 \<le> get_size p ROOTDIR"
proof -
  note s = wf_sizes [OF wf] and sz = sizes [OF wf] and pos = position_VBR_FAT_CBM [OF wf]
    and hp = heap_positions [OF wf ck]
  show "65536 + get_size p FAT \<le> get_position p CBM"
    using heap_start_bounds(1) [OF wf] by (simp only: sz pos)
  show "65536 + 4 * (clusters_of p (cbm_size p) + clusters_of p 5836 + 3) \<le> get_position p CBM"
    using fat_room [OF wf ck] by (simp only: pos)
  have c0: "0 < cbm_size p" by (rule heap_less_clusters(3) [OF wf ck])
  then show "get_position p CBM + get_size p CBM \<le> get_position p UCT"
    using clusters_of_cover(1) [OF wf, of "cbm_size p"] by (simp add: pos hp)
  show "get_position p UCT + get_size p UCT \<le> get_position p ROOTDIR"
    using clusters_of_cover(1) [OF wf, of 5836] by (simp only: sz hp) (simp add: algebra_simps)
  show "get_position p ROOTDIR + get_size p ROOTDIR \<le> p_volume_size p"
    using ck hp(4) by (simp add: check_size_def sz del: get_size.simps split: if_splits)
  show "0 \<le> get_size p FAT" "0 \<le> get_size p CBM" "512 \<le> get_size p ROOTDIR"
    using c0 s(3,5) sz(2,5) by simp_all
qed

text \<open>Bytes written for an object, after the zeros that erase its room.\<close>

lemma objects_ascending:
  assumes wf: "mkfs_wf p" and ck: "check_size p (p_volume_size p) = 0"
    and lb: "15 \<le> length (p_volume_label p)"
  shows "ascending 0 (objs_at p (object_bytes p))"
    "ascending 0 (objs_at p (\<lambda>pp. replicate (nat (get_size p pp)) 0))"
proof -
  note o = object_order [OF wf ck] and l = object_lengths [OF wf ck lb] and sz = sizes [OF wf]
  have "get_position p CBM + int (length (object_bytes p CBM)) \<le> get_position p UCT"
    using o(3) l(3) by simp
  moreover have "65536 + int (length (object_bytes p FAT)) \<le> get_position p CBM"
    using o(2) l(2) by simp
  ultimately show "ascending 0 (objs_at p (object_bytes p))"
    using o(4,6,7) l(1,4,5) sz(4)
    by (simp add: objs_at_def le_nat_iff del: object_bytes.simps get_size.simps)
  show "ascending 0 (objs_at p (\<lambda>pp. replicate (nat (get_size p pp)) 0))"
    using o(1,3,4,6,7,8) sz(1,4)
    by (simp add: objs_at_def le_nat_iff del: object_bytes.simps get_size.simps)
qed

lemma mkfs_image_lay:
  assumes "mkfs_wf p" "check_size p (p_volume_size p) = 0"
  shows "mkfs_image p m = lay (objs_at p (object_bytes p))
    (lay (objs_at p (\<lambda>pp. replicate (nat (get_size p pp)) 0)) m)"
  by (simp add: mkfs_image_def place_objects [OF assms])

lemma positions_in_objs_at:
  assumes "mkfs_wf p"
  shows "(nat (get_position p obj), content obj) \<in> set (objs_at p content)"
  using position_VBR_FAT_CBM [OF assms] by (cases obj) (simp_all add: objs_at_def)

lemma room_objects:
  assumes wf: "mkfs_wf p" and ck: "check_size p (p_volume_size p) = 0"
    and len: "len VBR = 6144" "0 \<le> len FAT" "65536 + len FAT \<le> get_position p CBM"
      "0 \<le> len CBM" "len CBM \<le> get_size p CBM" "0 \<le> len UCT" "len UCT \<le> 5836"
      "0 \<le> len ROOTDIR" "len ROOTDIR \<le> get_cluster_size p"
    and lim: "p_volume_size p \<le> limit"
  shows "room p len limit objects 0"
proof -
  note pos = position_VBR_FAT_CBM [OF wf] and sz = sizes [OF wf] and rp = round_positions [OF wf]
    and o = object_order [OF wf ck]
  have e: "get_position p CBM = ROUND_UP (65536 + get_size p FAT) (get_alignment p CBM)"
    "get_position p UCT = ROUND_UP (get_position p CBM + get_size p CBM) (get_alignment p UCT)"
    "get_position p ROOTDIR = ROUND_UP (get_position p UCT + get_size p UCT) (get_alignment p ROOTDIR)"
    using rp sz by (simp_all add: get_position_def objects_def Let_def)
  have "get_size p UCT = 5836" "get_size p ROOTDIR = get_cluster_size p" "get_size p VBR = 6144"
    using sz by simp_all
  then show ?thesis
    using rp e [symmetric] len o lim
    by (simp add: objects_def Let_def del: get_alignment.simps get_size.simps)
qed

lemma mkfs_writes_image_on:
  assumes dev: "byte_device io ready pos img cap" and d: "ready d" and wf: "mkfs_wf p"
    and ck: "check_size p (p_volume_size p) = 0" and lb: "15 \<le> length (p_volume_label p)"
    and cap: "p_volume_size p \<le> int cap"
  shows "\<exists>d'. mkfs io p (p_volume_size p) d = (0, d') \<and> ready d'
    \<and> img d' = mkfs_image p (img d)"
proof (rule byte_device.mkfs_written [OF dev wf ck d])
  note o = object_order [OF wf ck] and sz = sizes [OF wf] and l = object_lengths [OF wf ck lb]
  show "room p (get_size p) (int cap) objects 0"
    by (rule room_objects [OF wf ck]; use o sz cap wf_sizes(3) [OF wf] in simp)
  show "room p (\<lambda>pp. int (length (object_bytes p pp))) (int cap) objects 0"
    by (rule room_objects [OF wf ck])
      (use o sz(3-5) l cap wf_sizes(3) [OF wf] in \<open>simp_all del: object_bytes.simps\<close>)
qed

text \<open>A device that is a position and a medium, for the witnesses.\<close>

definition ram_io :: "(int \<times> medium) exfat_io" where
  "ram_io = \<lparr>exfat_seek = (\<lambda>off (p, m). (off, off, m)),
     exfat_write = (\<lambda>bs (p, m). (int (length bs), p + int (length bs), mwrite m (nat p) bs)),
     exfat_fsync = (\<lambda>d. (0, d)), exfat_malloc = (\<lambda>n d. True)\<rparr>"

interpretation ram: byte_device ram_io "\<lambda>(p, m). 0 \<le> p" "\<lambda>(p, m). nat p" snd "2 ^ 40"
  by unfold_locales (auto simp: ram_io_def nat_add_distrib)

lemma object_at:
  assumes wf: "mkfs_wf p" and ck: "check_size p (p_volume_size p) = 0"
    and lb: "15 \<le> length (p_volume_label p)"
  shows "mread (mkfs_image p m) (nat (get_position p obj)) (length (object_bytes p obj))
      = object_bytes p obj
    \<and> mread (mkfs_image p m) (12 * 512) (length (object_bytes p VBR)) = object_bytes p VBR"
proof -
  have "(6144, object_bytes p VBR) \<in> set (objs_at p (object_bytes p))" by (simp add: objs_at_def)
  then show ?thesis
    unfolding mkfs_image_lay [OF wf ck]
    using lay_reads [OF objects_ascending(1) [OF wf ck lb]] positions_in_objs_at [OF wf]
    by (simp del: object_bytes.simps)
qed

text \<open>The room of an object behind the bytes written for it stays erased.\<close>

lemma object_tail:
  assumes wf: "mkfs_wf p" and ck: "check_size p (p_volume_size p) = 0"
    and lb: "15 \<le> length (p_volume_label p)"
    and i: "length (object_bytes p obj) \<le> i" "i < nat (get_size p obj)"
  shows "mkfs_image p m (nat (get_position p obj) + i) = 0"
proof -
  note o = object_order [OF wf ck] and len = object_lengths [OF wf ck lb] and sz = sizes [OF wf]
    and pos = position_VBR_FAT_CBM [OF wf]
  define r where "r = nat (get_position p obj)"
  define Z where "Z = lay (objs_at p (\<lambda>pp. replicate (nat (get_size p pp)) 0)) m"
  have nn: "int (nat (get_position p CBM)) = get_position p CBM" "int (nat (get_position p UCT)) = get_position p UCT"
    "int (nat (get_position p ROOTDIR)) = get_position p ROOTDIR"
    using o sz fat_room [OF wf ck] by (simp_all del: get_size.simps)
  have cb: "int (length (object_bytes p CBM)) \<le> get_size p CBM" using len(3) by simp
  have out: "(r + i) + 1 \<le> b \<or> b + length ys \<le> r + i"
    if "(b, ys) \<in> set (objs_at p (object_bytes p))" for b ys
    using that o len(1,2,4,5) cb i nn sz(1,2,4,5) pos(1,2)
    by (cases obj) (auto simp: objs_at_def r_def simp del: object_bytes.simps get_size.simps)
  have "mread (mkfs_image p m) (r + i) 1 = mread Z (r + i) 1"
    unfolding mkfs_image_lay [OF wf ck] Z_def by (rule lay_outside) (use out in auto)
  also have "\<dots> = seg i 1 (mread Z r (nat (get_size p obj)))" using i(2) by (simp add: seg_mread)
  also have "mread Z r (nat (get_size p obj)) = replicate (nat (get_size p obj)) 0"
    using lay_reads [OF objects_ascending(2) [OF wf ck lb] positions_in_objs_at [OF wf, of obj], of m]
    by (simp add: Z_def r_def)
  finally show ?thesis using i(2) by (simp add: seg_def mread_def r_def)
qed

lemma mkfs_image_outside:
  assumes wf: "mkfs_wf p" and ck: "check_size p (p_volume_size p) = 0"
    and lb: "15 \<le> length (p_volume_label p)" and i: "p_volume_size p \<le> int i"
  shows "mkfs_image p m i = m i"
proof -
  note o = object_order [OF wf ck] and l = object_lengths [OF wf ck lb] and sz = sizes [OF wf]
  have out: "mread (lay ws m) i 1 = mread m i 1"
    if "\<And>b ys. (b, ys) \<in> set ws \<Longrightarrow> b + length ys \<le> i" for ws m
    by (rule lay_outside) (use that in auto)
  have c: "get_size p CBM = cbm_size p" by simp
  have "mread (mkfs_image p m) i 1 = mread m i 1"
    unfolding mkfs_image_lay [OF wf ck]
    by (subst out; (subst out)?)
       (use o l sz(1,4) c i in \<open>auto simp: objs_at_def simp del: object_bytes.simps get_size.simps\<close>)
  then show ?thesis by (simp add: mread_def)
qed

section \<open>Properties\<close>

text \<open>C10: On any device that behaves as a seekable medium, \<open>mkfs\<close> on a volume it does not reject
  succeeds, and the device then holds exactly \<open>mkfs_image\<close> of its old contents: every object
  erased over its whole size, then written at its position.\<close>

theorem mkfs_writes_the_image:
  assumes dev: "byte_device io ready pos img cap" and d: "ready d" and wf: "mkfs_wf p"
    and ck: "check_size p (p_volume_size p) = 0" and lb: "15 \<le> length (p_volume_label p)"
    and cap: "p_volume_size p \<le> int cap"
  shows "\<exists>d'. mkfs io p (p_volume_size p) d = (0, d') \<and> ready d'
    \<and> img d' = mkfs_image p (img d)"
  using assms by (rule mkfs_writes_image_on)

lemma mkfs_writes_the_image_witness:
  "\<exists>d'. mkfs ram_io small_param (p_volume_size small_param) (0, \<lambda>_. 9) = (0, d')
    \<and> snd d' = mkfs_image small_param (\<lambda>_. 9)"
  using mkfs_writes_the_image [OF ram.byte_device_axioms _ small_wf small_check, of "(0, \<lambda>_. 9)"]
  by (auto simp: small_sizes)

text \<open>C12: After \<open>mkfs\<close> has succeeded on any device that behaves as a seekable medium, each object
  reads back from the device where the layout says it is, and the rest of the room of each object,
  up to its size, is zero: no object is overwritten by a later one or by the erasing. The backup of
  the boot record is at sector 12.\<close>

theorem objects_read_back:
  assumes dev: "byte_device io ready pos img cap" and d: "ready d" and wf: "mkfs_wf p"
    and ck: "check_size p (p_volume_size p) = 0" and lb: "15 \<le> length (p_volume_label p)"
    and cap: "p_volume_size p \<le> int cap"
  shows "\<exists>d'. mkfs io p (p_volume_size p) d = (0, d')
    \<and> (\<forall>obj. mread (img d') (nat (get_position p obj)) (length (object_bytes p obj)) = object_bytes p obj
        \<and> (\<forall>i. length (object_bytes p obj) \<le> i \<and> i < nat (get_size p obj)
            \<longrightarrow> img d' (nat (get_position p obj) + i) = 0))
    \<and> mread (img d') (12 * 512) (length (object_bytes p VBR)) = object_bytes p VBR"
proof -
  obtain d' where d': "mkfs io p (p_volume_size p) d = (0, d')" "img d' = mkfs_image p (img d)"
    using mkfs_writes_image_on [OF dev d wf ck lb cap] by blast
  then show ?thesis
    using object_at [OF wf ck lb] object_tail [OF wf ck lb] by (simp del: object_bytes.simps get_size.simps)
qed

lemma objects_read_back_witness:
  "\<exists>d'. mkfs ram_io small_param (p_volume_size small_param) (0, \<lambda>_. 9) = (0, d')
    \<and> mread (snd d') 131072 (length (object_bytes small_param CBM)) = object_bytes small_param CBM
    \<and> mread (snd d') (12 * 512) (length (object_bytes small_param VBR)) = object_bytes small_param VBR"
proof -
  have v: "p_volume_size small_param \<le> int (2 ^ 40)" by (simp add: small_sizes)
  obtain d' where "mkfs ram_io small_param (p_volume_size small_param) (0, \<lambda>_. 9) = (0, d')"
    "\<forall>obj. mread (snd d') (nat (get_position small_param obj)) (length (object_bytes small_param obj))
        = object_bytes small_param obj"
    "mread (snd d') (12 * 512) (length (object_bytes small_param VBR)) = object_bytes small_param VBR"
    using objects_read_back [OF ram.byte_device_axioms _ small_wf small_check small_label v, of "(0, \<lambda>_. 9)"]
    by (auto simp del: object_bytes.simps get_size.simps)
  moreover from this(2) [rule_format, of CBM]
  have "mread (snd d') 131072 (length (object_bytes small_param CBM)) = object_bytes small_param CBM"
    unfolding position_VBR_FAT_CBM(3) [OF small_wf] by (simp add: small_sizes del: object_bytes.simps)
  ultimately show ?thesis by blast
qed

end
