(* ===== verification/ExfatVbr.thy ===== *)
theory ExfatVbr
  imports ExfatImage
begin

text \<open>
  The boot record, the FAT and the bitmap that the formatter writes, against the layout: what a
  driver that reads them will believe about the volume.
\<close>

section \<open>The boot record in closed form\<close>

lemma DIV_ROUND_UP_alt: "0 \<le> x \<Longrightarrow> 0 < d \<Longrightarrow> DIV_ROUND_UP x d = (x - 1) div d + 1"
proof -
  assume "0 \<le> x" "0 < d"
  moreover have "(x - 1 + d) div d = (x - 1) div d + 1" using \<open>0 < d\<close> by (intro div_add_self2) simp
  moreover have "x + d - 1 = x - 1 + d" by simp
  ultimately show ?thesis by (simp only: DIV_ROUND_UP_pos)
qed

lemma DIV_ROUND_UP_twice:
  assumes "0 \<le> x" "0 < a" "0 < b"
  shows "DIV_ROUND_UP (DIV_ROUND_UP x a) b = DIV_ROUND_UP x (a * b)"
proof -
  have "0 \<le> DIV_ROUND_UP x a" by (rule DIV_ROUND_UP_bounds(3)) (use assms in auto)
  then have "DIV_ROUND_UP (DIV_ROUND_UP x a) b = (x - 1) div a div b + 1"
    using assms by (simp add: DIV_ROUND_UP_alt)
  also have "\<dots> = DIV_ROUND_UP x (a * b)"
    using assms by (simp add: DIV_ROUND_UP_alt zdiv_zmult2_eq)
  finally show ?thesis .
qed

lemma ROUND_UP_nat:
  fixes x d :: nat
  assumes "0 < d"
  shows "int ((x + (d - 1)) div d * d) = ROUND_UP (int x) (int d)"
proof -
  have "int (x + (d - 1)) = int x + int d - 1" using assms by simp
  then show ?thesis using assms by (simp add: ROUND_UP_def DIV_ROUND_UP_pos zdiv_int)
qed

lemma unat_round_up_u32:
  assumes "unat x + unat d < 2 ^ 32" "0 < unat d"
  shows "int (unat (ROUND_UP_u32 x d)) = ROUND_UP (int (unat x)) (int (unat d))"
proof -
  have e: "x + d - 1 = x + of_nat (unat d - 1)" using assms(2) by simp
  have s: "unat (x + d - 1) = unat x + (unat d - 1)"
    unfolding e by (rule unat_add_of_nat) (use assms in simp)
  have q: "unat ((x + d - 1) div d) = (unat x + (unat d - 1)) div unat d" by (simp add: unat_div s)
  have "(unat x + (unat d - 1)) div unat d * unat d \<le> unat x + (unat d - 1)" by simp
  then have "(unat x + (unat d - 1)) div unat d * unat d < 2 ^ 32" using assms by linarith
  then have "unat (ROUND_UP_u32 x d) = (unat x + (unat d - 1)) div unat d * unat d"
    unfolding ROUND_UP_u32_def unat_word_ariths(2) q by simp
  then show ?thesis using ROUND_UP_nat [OF assms(2)] by (simp only:)
qed

lemma boot_fields_nat:
  assumes wf: "mkfs_wf p" and ck: "check_size p (p_volume_size p) = 0"
  shows "fat_sector_start (init_sb p) = 128"
    "int (unat (fat_sector_count (init_sb p))) * 512 = heap_start p - 65536"
    "int (unat (cluster_sector_start (init_sb p))) * 512 = heap_start p"
    "int (unat (cluster_count (init_sb p))) = heap_clusters p"
    "int (unat (rootdir_cluster (init_sb p)))
      = clusters_of p (cbm_size p) + clusters_of p 5836 + 2"
proof -
  note s = wf_sizes [OF wf] and h = heap_start_bounds [OF wf] and hp = heap_positions [OF wf ck]
    and pos = position_VBR_FAT_CBM [OF wf] and l = heap_less_clusters [OF wf ck]
  define S where "S = (2 :: nat) ^ p_spc_bits p"
  have spc: "p_spc_bits p \<le> 16" using wf by (simp add: mkfs_wf_def)
  have S: "0 < S" "S \<le> 65536" "get_cluster_size p = 512 * int S"
    using power_increasing [OF spc, of "2 :: nat"] s(2) by (simp_all add: S_def)
  have fss: "(word_of_int (get_alignment p FAT sdiv get_sector_size p) :: u32) = 128"
    by (simp add: fat_alignment_def s(1) cdiv_simps)
  define F where "F = DIV_ROUND_UP (4 * clusters p) 512"
  have F: "0 \<le> F" "F \<le> 2 ^ 25"
    using s(5,7) by (simp_all add: F_def DIV_ROUND_UP_pos)
  have "uint (clusters_max p) = clusters p"
    unfolding clusters_max_def s(8) by (rule uint_of_int_small) (use s in auto)
  then have fs: "fat_sectors p = word_of_int F"
    by (simp add: fat_sectors_def s(1) F_def mult.commute)
  have uS: "unat (push_bit (p_spc_bits p) 1 :: u32) = S"
  proof -
    have "unat (push_bit (p_spc_bits p) 1 :: u32) = take_bit 32 (push_bit (p_spc_bits p) (1 :: nat))"
      by (simp only: unsigned_push_bit_eq unsigned_1) simp
    then show ?thesis
      using spc power_increasing [OF spc, of "2 :: nat"]
      by (simp add: S_def push_bit_of_1 take_bit_nat_eq_self)
  qed
  have xn: "unat (128 + fat_sectors p) = 128 + nat F"
  proof -
    have "unat (128 + fat_sectors p) = unat (128 + of_nat (nat F) :: u32)" using F by (simp add: fs)
    also have "\<dots> = unat (128 :: u32) + nat F" by (rule unat_add_of_nat) (use F in simp)
    finally show ?thesis by simp
  qed
  have x: "int (unat (128 + fat_sectors p)) = 128 + F" unfolding xn using F(1) by simp
  have c2: "128 + F = DIV_ROUND_UP (65536 + 4 * clusters p) 512"
    using s(5) by (simp add: F_def DIV_ROUND_UP_pos)
  have r: "int (unat (ROUND_UP_u32 (128 + fat_sectors p) (push_bit (p_spc_bits p) 1))) * 512
      = heap_start p"
  proof -
    have "int (unat (ROUND_UP_u32 (128 + fat_sectors p) (push_bit (p_spc_bits p) 1)))
        = ROUND_UP (128 + F) (int S)"
    proof -
      have "unat (128 + fat_sectors p) + unat (push_bit (p_spc_bits p) 1 :: u32) < 2 ^ 32"
        unfolding uS xn using F S(2) by simp
      then show ?thesis
        using unat_round_up_u32 [of "128 + fat_sectors p" "push_bit (p_spc_bits p) 1"] S(1)
        by (simp only: x uS)
    qed
    then show ?thesis
      using c2 S s(5) by (simp add: ROUND_UP_def heap_start_def DIV_ROUND_UP_twice)
  qed
  show "fat_sector_start (init_sb p) = 128" by (simp add: init_sb_def Let_def fss del: get_alignment.simps)
  define R where "R = ROUND_UP_u32 (128 + fat_sectors p) (push_bit (p_spc_bits p) 1)"
  have R: "int (unat R) * 512 = heap_start p" using r by (simp add: R_def)
  have R128: "128 \<le> unat R" using R h(1) s(5) by linarith
  have fc: "fat_sector_count (init_sb p) = R - 128" 
    by (simp add: init_sb_def Let_def fss R_def del: get_alignment.simps)
  have "unat (R - 128) = unat R - 128" by (subst unat_sub) (use R128 in \<open>simp_all add: word_le_nat_alt\<close>)
  then show "int (unat (fat_sector_count (init_sb p))) * 512 = heap_start p - 65536"
    using R R128 by (simp add: fc of_nat_diff)
  have "heap_start p div 512 = int (unat R)" using R by (metis nonzero_mult_div_cancel_right zero_neq_numeral)
  then have "cluster_sector_start (init_sb p) = R"
    using h(1) s(5) by (simp add: init_sb_def Let_def pos s(1) cdiv_simps)
  then show "int (unat (cluster_sector_start (init_sb p))) * 512 = heap_start p"
    using R by (simp only:)
  define D where "D = drop_bit (p_spc_bits p) R"
  have "unat D = unat R div S"
    by (simp add: D_def drop_bit_eq_div unat_div uS [unfolded push_bit_of_1])
  moreover have "int (unat R div S) = heap_start p div get_cluster_size p"
  proof -
    have "heap_start p div get_cluster_size p = int (unat R) * 512 div (512 * int S)" by (simp only: R S(3))
    then show ?thesis by (simp add: zdiv_int)
  qed
  ultimately have D: "int (unat D) = heap_start p div get_cluster_size p" by (simp only:)
  have M: "int (unat (clusters_max p)) = clusters p"
    using \<open>uint (clusters_max p) = clusters p\<close> by (simp only: of_nat_unat)
  have "int (unat D) \<le> int (unat (clusters_max p))"
    unfolding D M using l(1) heap_fits(2) [OF wf ck] by linarith
  then have le: "unat D \<le> unat (clusters_max p)" by (simp only: of_nat_le_iff)
  have "cluster_count (init_sb p) = clusters_max p - D"
    by (simp add: init_sb_def Let_def fss R_def D_def del: get_alignment.simps)
  then have "unat (cluster_count (init_sb p)) = unat (clusters_max p) - unat D"
    using le by (simp add: unat_sub word_le_nat_alt)
  then have "int (unat (cluster_count (init_sb p))) = int (unat (clusters_max p)) - int (unat D)"
    by (simp only: of_nat_diff [OF le])
  then show "int (unat (cluster_count (init_sb p))) = heap_clusters p"
    unfolding D M using l(1) by linarith
  define n where "n = clusters_of p (cbm_size p) + clusters_of p 5836"
  have n: "0 \<le> n" "n < 0xfffffff6"
    using hp(3) l(2) s(7) clusters_of_cover(2) [OF wf, of 5836]
      clusters_of_pos(1) [OF wf l(3)] by (simp_all add: n_def)
  have "get_position p ROOTDIR - get_position p CBM = n * get_cluster_size p"
    using hp(2) by (simp add: pos n_def)
  then have "rootdir_cluster (init_sb p) = of_nat 2 + of_nat (nat n)"
    using n s(3) by (simp add: init_sb_def Let_def cdiv_simps EXFAT_FIRST_DATA_CLUSTER_def ac_simps)
  moreover have "unat (of_nat 2 + of_nat (nat n) :: u32) = unat (of_nat 2 :: u32) + nat n"
    by (rule unat_add_of_nat) (use n in simp)
  ultimately show "int (unat (rootdir_cluster (init_sb p)))
      = clusters_of p (cbm_size p) + clusters_of p 5836 + 2"
    using n by (simp add: n_def)
qed

lemmas boot_fields = boot_fields_nat [unfolded of_nat_unat]

section \<open>The FAT and the bitmap entry by entry\<close>

text \<open>Runs of clusters as the FAT should chain them.\<close>

lemma nth_fat_chain:
  assumes "i < nat (clusters_of p len)"
  shows "fat_chain p c len ! i
    = (if i + 1 < nat (clusters_of p len) then c + of_nat i + 1 else EXFAT_CLUSTER_END)"
  using assms by (simp add: fat_chain_def Let_def)

lemma cbm_bitmap_get:
  assumes wf: "mkfs_wf p" and ck: "check_size p (p_volume_size p) = 0" and i: "i < bitmap_size p"
  shows "BMAP_GET (cbm_bitmap p) i \<longleftrightarrow> i < unat (allocated_clusters p)"
proof -
  define n where "n = unat (allocated_clusters p)"
  have size64: "bitmap_size p \<le> 64 * (BMAP_SIZE (bitmap_size p) div 8)"
  proof -
    have "BMAP_SIZE (bitmap_size p) div 8 = (bitmap_size p + 63) div 64" by (simp add: BMAP_SIZE_def)
    then show ?thesis by simp
  qed
  have *: "BMAP_GET (foldl (\<lambda>bm j. if j < n then BMAP_SET bm j else bm) bm [0..<k]) i
      \<longleftrightarrow> (i < k \<and> i < n) \<or> BMAP_GET bm i" if "k \<le> 64 * length bm" for k bm
    using that
  proof (induction k)
    case (Suc k)
    have l: "length (foldl (\<lambda>bm j. if j < n then BMAP_SET bm j else bm) bm xs) = length bm" for xs
      by (induction xs arbitrary: bm) auto
    show ?case using Suc l by (auto simp: BMAP_GET_SET less_Suc_eq)
  qed simp
  have "\<not> BMAP_GET (replicate (BMAP_SIZE (bitmap_size p) div 8) 0) i"
    using i size64 by (simp add: BMAP_GET_bit div_less_iff_less_mult mult.commute)
  then show ?thesis
    using * [of "bitmap_size p" "replicate (BMAP_SIZE (bitmap_size p) div 8) 0"] size64 i
    by (simp add: cbm_bitmap_def n_def [symmetric])
qed

text \<open>A volume of 2 GB with clusters of 128 KB: the FAT area and the 64 KB before it fill
  exactly one cluster.\<close>

definition tight_param :: mkfs_param where
  "tight_param = \<lparr>p_sector_bits = 9, p_spc_bits = 8, p_volume_size = 2147483648,
     p_volume_label = replicate 19 0, p_volume_serial = 7, p_first_sector = 2048\<rparr>"

lemma tight_wf: "mkfs_wf tight_param"
  by (simp add: mkfs_wf_def tight_param_def get_cluster_size_def get_sector_size_def)

lemma tight_sizes:
  "get_cluster_size tight_param = 131072" "clusters tight_param = 16384"
  "heap_start tight_param = 131072" "p_volume_size tight_param = 2147483648"
  by (simp_all add: tight_param_def get_cluster_size_def get_sector_size_def clusters_def
      heap_start_def ROUND_UP_def DIV_ROUND_UP_def cdiv_simps)

lemma tight_check: "check_size tight_param (p_volume_size tight_param) = 0"
proof -
  have "cbm_size tight_param = 2048"
    using sizes(3) [OF tight_wf] by (simp add: tight_sizes DIV_ROUND_UP_def cdiv_simps)
  then show ?thesis
    by (simp add: check_size_def check_position_eq [OF tight_wf] tight_sizes ROUND_UP_def
        DIV_ROUND_UP_def cdiv_simps)
qed

lemma boot_record_read:
  assumes wf: "mkfs_wf p" and ck: "check_size p (p_volume_size p) = 0"
    and lb: "15 \<le> length (p_volume_label p)"
  shows "sb_of_bytes (mread (mkfs_image p m) 0 512) = init_sb p"
    "mread (mkfs_image p m) 0 6144 = object_bytes p VBR"
proof -
  have w: "sb_wf (init_sb p)" by (simp add: sb_wf_def init_sb_def Let_def)
  show v: "mread (mkfs_image p m) 0 6144 = object_bytes p VBR"
    using object_at [OF wf ck lb, of m VBR] object_lengths(1) [OF wf ck lb] position_VBR_FAT_CBM(1) [OF wf]
    by (simp del: object_bytes.simps)
  then have "seg 0 512 (mread (mkfs_image p m) 0 6144) = sb_bytes (init_sb p)"
    by (simp add: seg_def length_sb_bytes [OF w])
  then show "sb_of_bytes (mread (mkfs_image p m) 0 512) = init_sb p"
    by (simp add: seg_mread sb_of_sb_bytes [OF w])
qed

section \<open>Properties\<close>

text \<open>C11: The boot record on the formatted volume decodes to the parameters, and its fields
  describe where the objects really are: the FAT starts at sector 128 and ends where the cluster
  heap starts; the heap has exactly the clusters that fit before the end of the volume; the root
  directory's cluster number leads to its position; everything ends inside the volume.\<close>

theorem boot_record_describes_layout:
  assumes wf: "mkfs_wf p" and ck: "check_size p (p_volume_size p) = 0"
    and lb: "15 \<le> length (p_volume_label p)"
  shows "let sb = sb_of_bytes (mread (mkfs_image p m) 0 512) in sb = init_sb p
    \<and> uint (fat_sector_start sb) * 512 = get_position p FAT
    \<and> uint (cluster_sector_start sb) = uint (fat_sector_start sb) + uint (fat_sector_count sb)
    \<and> uint (cluster_sector_start sb) * 512 = get_position p CBM
    \<and> get_position p CBM + (uint (rootdir_cluster sb) - 2) * get_cluster_size p
        = get_position p ROOTDIR
    \<and> get_position p CBM + uint (cluster_count sb) * get_cluster_size p \<le> p_volume_size p
    \<and> p_volume_size p < get_position p CBM + (uint (cluster_count sb) + 1) * get_cluster_size p"
proof -
  define sb where "sb = sb_of_bytes (mread (mkfs_image p m) 0 512)"
  note pos = position_VBR_FAT_CBM [OF wf] and b = boot_fields [OF wf ck] and s = wf_sizes [OF wf]
  have sb: "sb = init_sb p" unfolding sb_def by (rule boot_record_read(1) [OF wf ck lb])
  have "uint (cluster_sector_start sb) = uint (fat_sector_start sb) + uint (fat_sector_count sb)"
    using b(1-3) by (simp add: sb)
  moreover have "get_position p CBM + (uint (rootdir_cluster sb) - 2) * get_cluster_size p
      = get_position p ROOTDIR"
    unfolding sb b(5) pos(3) heap_positions(2) [OF wf ck] by simp
  moreover have "heap_clusters p * get_cluster_size p \<le> p_volume_size p - heap_start p"
    "p_volume_size p - heap_start p < (heap_clusters p + 1) * get_cluster_size p"
  proof -
    define r where "r = (p_volume_size p - heap_start p) mod get_cluster_size p"
    have "heap_clusters p * get_cluster_size p + r = p_volume_size p - heap_start p"
      unfolding heap_clusters_def r_def by (rule div_mult_mod_eq)
    moreover have "0 \<le> r" "r < get_cluster_size p" using s(3) by (simp_all add: r_def)
    moreover have "(heap_clusters p + 1) * get_cluster_size p
        = heap_clusters p * get_cluster_size p + get_cluster_size p" by (simp add: distrib_right)
    ultimately show "heap_clusters p * get_cluster_size p \<le> p_volume_size p - heap_start p"
      "p_volume_size p - heap_start p < (heap_clusters p + 1) * get_cluster_size p" by linarith+
  qed
  ultimately show ?thesis
    unfolding Let_def sb_def [symmetric] using b(1,3) pos by (simp add: sb b(4))
qed

lemma boot_record_describes_layout_witness:
  "uint (cluster_sector_start (sb_of_bytes (mread (mkfs_image small_param (\<lambda>_. 9)) 0 512))) * 512 = 131072"
  using boot_record_describes_layout [OF small_wf small_check small_label,
    of "\<lambda>_. 9", unfolded Let_def]
  unfolding position_VBR_FAT_CBM(3) [OF small_wf] small_sizes by blast

text \<open>C14: The FAT has an entry for every cluster of the heap, the two reserved entries included,
  in every case but one: when the FAT area and the 64 KB before it fill exactly one cluster. Then
  the size computed from the volume size is one entry short, and the entry of the last cluster
  falls on the start of the cluster bitmap.\<close>

theorem fat_covers_every_cluster_but_for_one_size:
  assumes wf: "mkfs_wf p" and ck: "check_size p (p_volume_size p) = 0"
  shows "(uint (cluster_count (init_sb p)) + 2) * 4 \<le> uint (fat_sector_count (init_sb p)) * 512
    \<longleftrightarrow> 65536 + 4 * clusters p \<noteq> get_cluster_size p"
proof -
  note b = boot_fields [OF wf ck] and h = heap_start_bounds [OF wf] and l = heap_less_clusters [OF wf ck]
    and s = wf_sizes [OF wf]
  obtain k where k: "heap_start p = get_cluster_size p * k" using h(3) by blast
  have hk: "heap_clusters p = clusters p - k" using l(1) s(3) by (simp add: k)
  have k1: "1 \<le> k" using l(2) hk by linarith
  obtain j where j: "get_cluster_size p = 512 * j" using s(2) by blast
  have "(uint (cluster_count (init_sb p)) + 2) * 4 \<le> uint (fat_sector_count (init_sb p)) * 512
    \<longleftrightarrow> (heap_clusters p + 2) * 4 \<le> heap_start p - 65536"
    unfolding b(2,4) ..
  also have "\<dots> \<longleftrightarrow> 65536 + 4 * clusters p \<noteq> get_cluster_size p"
  proof (cases "k = 1")
    case True
    then have "heap_start p = 512 * j" "heap_clusters p = clusters p - 1" using j hk k by simp_all
    moreover have "65536 + 4 * clusters p \<le> 512 * j" using h(1) calculation(1) by simp
    moreover define t where "t = 128 * j - 16384 - clusters p"
    ultimately have "(heap_clusters p + 2) * 4 = heap_start p - 65536 + 4 * (1 - t)"
      "get_cluster_size p = 65536 + 4 * clusters p + 4 * t" "0 \<le> t" by (simp_all add: j)
    then show ?thesis by (cases "t = 0") simp_all
  next
    case False
    then have "2 \<le> k" using k1 by simp
    then have "2 * get_cluster_size p \<le> heap_start p"
      using s(3) mult_right_mono [of 2 k "get_cluster_size p"] by (simp add: k mult.commute)
    moreover have "65536 + 4 * clusters p \<noteq> get_cluster_size p"
    proof
      assume "65536 + 4 * clusters p = get_cluster_size p"
      then have "heap_start p < 2 * get_cluster_size p" using h(2) by simp
      then show False using calculation by simp
    qed
    ultimately show ?thesis using h(1) hk \<open>2 \<le> k\<close> by simp
  qed
  finally show ?thesis .
qed

lemma fat_covers_every_cluster_but_for_one_size_witness:
  "(uint (cluster_count (init_sb small_param)) + 2) * 4
      \<le> uint (fat_sector_count (init_sb small_param)) * 512
    \<and> \<not> (uint (cluster_count (init_sb tight_param)) + 2) * 4
      \<le> uint (fat_sector_count (init_sb tight_param)) * 512"
  using fat_covers_every_cluster_but_for_one_size [OF small_wf small_check]
    fat_covers_every_cluster_but_for_one_size [OF tight_wf tight_check]
  by (simp add: small_sizes tight_sizes)

end
