(* ===== verification/ExfatFaults.thy ===== *)
theory ExfatFaults
  imports ExfatVbr
begin

text \<open>
  The formatter on a device that may fail. The interface \<open>confined_device\<close> asks of the device only
  that an operation, whatever it returns, touches no byte but those it was asked to write, and leaves
  the position between the start and the end of them; \<open>byte_device\<close> is a special case of it. Over
  it \<open>mkfs\<close> is followed through every early return.
\<close>

section \<open>A device that may fail\<close>

locale confined_device =
  fixes io :: "'d exfat_io" and ready :: "'d \<Rightarrow> bool" and pos :: "'d \<Rightarrow> nat"
    and img :: "'d \<Rightarrow> medium" and cap :: nat
  assumes seek_confined: "ready d \<Longrightarrow> 0 \<le> off \<Longrightarrow> exfat_seek io off d = (r, d') \<Longrightarrow>
      ready d' \<and> img d' = img d \<and> (r \<noteq> -1 \<longrightarrow> pos d' = nat off)"
    and write_confined: "ready d \<Longrightarrow> length bs < 2 ^ 31 \<Longrightarrow> pos d + length bs \<le> cap \<Longrightarrow>
      exfat_write io bs d = (r, d') \<Longrightarrow> ready d' \<and> pos d \<le> pos d' \<and> pos d' \<le> pos d + length bs
        \<and> (\<forall>i. i < pos d \<or> pos d + length bs \<le> i \<longrightarrow> img d' i = img d i)"
    and fsync_confined: "ready d \<Longrightarrow> exfat_fsync io d = (r, d') \<Longrightarrow> img d' = img d"
begin

text \<open>\<open>kept d n d'\<close>: from \<open>d\<close>, nothing but the \<open>n\<close> bytes at the position was touched.\<close>

definition kept :: "'d \<Rightarrow> nat \<Rightarrow> 'd \<Rightarrow> bool" where
  "kept d n d' \<longleftrightarrow> ready d' \<and> pos d \<le> pos d' \<and> pos d' \<le> pos d + n
     \<and> (\<forall>i. i < pos d \<or> pos d + n \<le> i \<longrightarrow> img d' i = img d i)"

lemma kept_ready: "kept d n d' \<Longrightarrow> ready d'"
  and kept_pos: "kept d n d' \<Longrightarrow> pos d' \<le> pos d + n"
  by (simp_all add: kept_def)

lemma kept_0: "ready d \<Longrightarrow> kept d 0 d"
  by (simp add: kept_def)

lemma kept_mono: "kept d n d' \<Longrightarrow> n \<le> m \<Longrightarrow> kept d m d'"
  by (auto simp: kept_def)

lemma kept_trans: "kept d n d1 \<Longrightarrow> kept d1 m d2 \<Longrightarrow> kept d (n + m) d2"
  by (auto simp: kept_def)

lemma write_kept:
  assumes "exfat_write io bs d = (r, d')" "ready d" "length bs < 2 ^ 31" "pos d + length bs \<le> cap"
  shows "kept d (length bs) d'"
  using write_confined [OF assms(2-4,1)] by (simp add: kept_def)

lemma write_each_kept:
  assumes "write_each io bs d = (r, d')" "ready d" "\<And>b. b \<in> set bs \<Longrightarrow> length b < 2 ^ 31"
    "pos d + length (concat bs) \<le> cap"
  shows "kept d (length (concat bs)) d'"
  using assms
proof (induction bs arbitrary: d)
  case (Cons b bs)
  obtain q d1 where d1: "exfat_write io b d = (q, d1)" by (cases "exfat_write io b d")
  have k: "kept d (length b) d1" by (rule write_kept [OF d1]) (use Cons.prems in auto)
  show ?case
  proof (cases "q < 0")
    case True
    then show ?thesis using Cons.prems(1) d1 k by (auto intro: kept_mono)
  next
    case False
    then have "write_each io bs d1 = (r, d')" using Cons.prems(1) d1 by simp
    from Cons.IH [OF this kept_ready [OF k]] have "kept d1 (length (concat bs)) d'"
      using Cons.prems(3,4) kept_pos [OF k] by simp
    then show ?thesis using kept_trans [OF k] by simp
  qed
qed (simp add: kept_0)

lemma fat_entry_kept:
  assumes "fat_write_entry io c e d = (c', d')" "ready d" "pos d + 4 \<le> cap"
  shows "kept d 4 d'" "c' \<noteq> 0 \<Longrightarrow> c' = c + 1"
proof -
  obtain q d1 where d1: "exfat_write io (le32 e) d = (q, d1)" by (cases "exfat_write io (le32 e) d")
  have "kept d 4 d1" using write_kept [OF d1] assms(2,3) by simp
  then show "kept d 4 d'" "c' \<noteq> 0 \<Longrightarrow> c' = c + 1"
    using assms(1) d1 by (auto simp: fat_write_entry_def split: if_splits)
qed

lemma fat_loop_kept:
  assumes "fat_entries_loop io c (c + of_nat n) d = (r, d')" "ready d" "unat c + Suc n < 2 ^ 32"
    "pos d + 4 * Suc n \<le> cap"
  shows "kept d (4 * Suc n) d' \<and> (r \<noteq> 0 \<longrightarrow> r = c + of_nat n + 1)"
  using assms
proof (induction n arbitrary: c d)
  case 0
  then show ?case
    using fat_entry_kept [of c EXFAT_CLUSTER_END d r d'] by (auto simp: fat_entries_loop.simps [of io c])
next
  case (Suc n)
  have u: "unat (c + of_nat (Suc n)) = unat c + Suc n"
    by (rule unat_add_of_nat) (use Suc.prems(3) in simp)
  then have lt: "c < c + of_nat (Suc n)" by (simp add: word_less_nat_alt)
  have u1: "unat (c + 1) = unat c + 1" by (rule unat_succ [OF lt])
  obtain q d1 where d1: "fat_write_entry io c (c + 1) d = (q, d1)" by (cases "fat_write_entry io c (c + 1) d")
  note k = fat_entry_kept [OF d1 Suc.prems(2)]
  have k1: "kept d 4 d1" using k(1) Suc.prems(4) by simp
  show ?case
  proof (cases "q = 0")
    case True
    then have "r = 0" "d' = d1" using Suc.prems(1) lt d1 by (auto simp: fat_entries_loop.simps [of io c])
    then show ?thesis using kept_mono [OF k1] by simp
  next
    case False
    then have q: "q = c + 1" using k(2) Suc.prems(4) by simp
    have "fat_entries_loop io (c + 1) (c + 1 + of_nat n) d1 = (r, d')"
      using Suc.prems(1) lt d1 False q by (simp add: fat_entries_loop.simps [of io c] ac_simps)
    from Suc.IH [OF this kept_ready [OF k1]]
    have "kept d1 (4 * Suc n) d' \<and> (r \<noteq> 0 \<longrightarrow> r = c + 1 + of_nat n + 1)"
      using u1 Suc.prems(3,4) kept_pos [OF k1] by simp
    then show ?thesis using kept_trans [OF k1, of "4 * Suc n" d'] by (simp add: ac_simps)
  qed
qed

lemma fat_entries_kept:
  assumes "fat_write_entries io p c len d = (r, d')" "mkfs_wf p" "0 < len" "ready d"
    and n: "n = nat (clusters_of p len)" "unat c + n < 2 ^ 32" "pos d + 4 * n \<le> cap"
  shows "kept d (4 * n) d'" "r \<noteq> 0 \<Longrightarrow> r = c + of_nat n"
proof -
  have "0 < clusters_of p len" by (rule clusters_of_pos(1) [OF assms(2,3)])
  then have "0 < n" by (simp add: n(1))
  then obtain m where m: "n = Suc m" by (auto dest: gr0_implies_Suc)
  have w: "word_of_int (clusters_of p len) = (of_nat n :: u32)"
    using \<open>0 < clusters_of p len\<close> by (simp add: n(1))
  have "fat_entries_loop io c (c + of_nat m) d = (r, d')"
    using assms(1) unfolding fat_write_entries_def clusters_of_def [symmetric] w m by (simp add: ac_simps)
  from fat_loop_kept [OF this assms(4)] show "kept d (4 * n) d'" "r \<noteq> 0 \<Longrightarrow> r = c + of_nat n"
    using n(2,3) m by (simp_all add: ac_simps)
qed

lemma fat_kept:
  assumes w: "fat_write io p d = (r, d')" and wf: "mkfs_wf p" "check_size p (p_volume_size p) = 0"
    and d: "ready d" and room: "pos d + length (object_bytes p FAT) \<le> cap"
  shows "kept d (length (object_bytes p FAT)) d'"
proof -
  define a b where "a = nat (clusters_of p (cbm_size p))" and "b = nat (clusters_of p 5836)"
  note ab = fat_chain_bounds [OF wf, folded a_def b_def]
  have sz: "uct_size p = 5836" "rootdir_size p = get_cluster_size p" "0 < get_cluster_size p"
    using wf_sizes(3) [OF wf(1)] by (simp_all add: uct_size_def length_upcase_table rootdir_size_def)
  have one: "nat (clusters_of p (rootdir_size p)) = 1" by (simp add: clusters_of_one [OF wf(1)] sz)
  define N where "N = length (object_bytes p FAT)"
  have N: "N = 4 + 4 + 4 * a + 4 * b + 4 * 1"
    by (simp add: N_def fat_table_def Let_def one a_def b_def sz(1))
  have u: "unat (2 + of_nat a :: u32) = 2 + a" "unat (2 + of_nat a + of_nat b :: u32) = 2 + a + b"
    using ab(3) unat_add_of_nat [of "2 :: u32" a] unat_add_of_nat [of "2 + of_nat a :: u32" b] by auto
  note room' = room [folded N_def, unfolded N]
  obtain c1 d1 where f1: "fat_write_entry io 0 0xfffffff8 d = (c1, d1)"
    by (cases "fat_write_entry io 0 0xfffffff8 d")
  note e1 = fat_entry_kept [OF f1 d]
  have k1: "kept d 4 d1" using e1(1) room' by simp
  obtain c2 d2 where f2: "fat_write_entry io c1 0xffffffff d1 = (c2, d2)"
    by (cases "fat_write_entry io c1 0xffffffff d1")
  have "kept d1 4 d2" using fat_entry_kept(1) [OF f2 kept_ready [OF k1]] room' kept_pos [OF k1] by simp
  note k2 = kept_trans [OF k1 this]
  have c2: "c2 = 2" if "c1 \<noteq> 0" "c2 \<noteq> 0"
    using that e1(2) fat_entry_kept(2) [OF f2 kept_ready [OF k1]] room' kept_pos [OF k1] by simp
  obtain c3 d3 where f3: "fat_write_entries io p 2 (cbm_size p) d2 = (c3, d3)"
    by (cases "fat_write_entries io p 2 (cbm_size p) d2")
  have b3: "unat (2 :: u32) + a < 2 ^ 32" "pos d2 + 4 * a \<le> cap"
    using ab(3) room' kept_pos [OF k2] by simp_all
  note e3 = fat_entries_kept [OF f3 wf(1) heap_less_clusters(3) [OF wf] kept_ready [OF k2] a_def b3]
  note k3 = kept_trans [OF k2 e3(1)]
  obtain c4 d4 where f4: "fat_write_entries io p (2 + of_nat a) (uct_size p) d3 = (c4, d4)"
    by (cases "fat_write_entries io p (2 + of_nat a) (uct_size p) d3")
  have b4: "0 < uct_size p" "b = nat (clusters_of p (uct_size p))" "unat (2 + of_nat a :: u32) + b < 2 ^ 32"
    "pos d3 + 4 * b \<le> cap"
    using ab(3) room' kept_pos [OF k3] by (simp_all add: u sz(1) b_def [symmetric])
  note e4 = fat_entries_kept [OF f4 wf(1) b4(1) kept_ready [OF k3] b4(2-4)]
  note k4 = kept_trans [OF k3 e4(1)]
  obtain c5 d5 where f5: "fat_write_entries io p (2 + of_nat a + of_nat b) (rootdir_size p) d4 = (c5, d5)"
    by (cases "fat_write_entries io p (2 + of_nat a + of_nat b) (rootdir_size p) d4")
  have b5: "0 < rootdir_size p" "1 = nat (clusters_of p (rootdir_size p))"
    "unat (2 + of_nat a + of_nat b :: u32) + 1 < 2 ^ 32" "pos d4 + 4 * 1 \<le> cap"
    using ab(3) room' kept_pos [OF k4] sz one by (simp_all add: u)
  note k5 = kept_trans [OF k4 fat_entries_kept(1) [OF f5 wf(1) b5(1) kept_ready [OF k4] b5(2-4)]]
  have "d' \<in> {d1, d2, d3, d4, d5}"
    using w f1 f2 c2 f3 e3(2) f4 e4(2) f5 by (auto simp: fat_write_def split: prod.splits if_splits)
  then show ?thesis
    unfolding N_def [symmetric] using kept_mono [OF k1, of N] kept_mono [OF k2, of N]
      kept_mono [OF k3, of N] kept_mono [OF k4, of N] kept_mono [OF k5, of N] N by auto
qed

lemma object_kept:
  assumes w: "object_write io p obj d = (r, d')" and wf: "mkfs_wf p" "check_size p (p_volume_size p) = 0"
    and d: "ready d" and rm: "pos d + length (object_bytes p obj) \<le> cap"
  shows "kept d (length (object_bytes p obj)) d'"
proof (cases obj)
  case VBR
  define bs where "bs = sb_bytes (init_sb p) # replicate 8 (boot_sector p)
    @ replicate 2 (empty_sector p) @ [checksum_sector p]"
  have c: "concat bs = object_bytes p VBR" by (simp add: bs_def)
  have s9: "p_sector_bits p = 9" using wf(1) by (simp add: mkfs_wf_def)
  have "sb_wf (init_sb p)" by (simp add: sb_wf_def init_sb_def Let_def)
  then have b512: "length b = 512" if "b \<in> set bs" for b
    using that s9
    by (auto simp: bs_def length_sb_bytes boot_sector_def empty_sector_def checksum_sector_def
        get_sector_size_def length_concat sum_list_replicate)
  have "write_each io bs d = (r, d') \<or> d' = d"
    using w VBR by (auto simp: vbr_write_def bs_def split: if_splits)
  then show ?thesis
    using write_each_kept [of bs d r d'] d rm b512 kept_mono [OF kept_0 [OF d]] VBR by (auto simp: c)
next
  case FAT
  then show ?thesis using fat_kept [OF _ wf d] w rm by simp
next
  case CBM
  define bs where "bs = take (bitmap_size p div 8) (bmap_bytes (cbm_bitmap p))"
  have "bitmap_size p < 2 ^ 32"
    using unsigned_less [of "ROUND_UP_u32 (allocated_clusters p) 8", where 'a = nat]
    by (simp add: bitmap_size_def)
  then have "length bs < 2 ^ 31" by (simp add: bs_def)
  moreover obtain q d1 where d1: "exfat_write io bs d = (q, d1)" by (cases "exfat_write io bs d")
  ultimately have "kept d (length bs) d1" using write_kept [OF d1 d] rm CBM by (simp add: bs_def)
  moreover have "d' = d \<or> d' = d1"
    using w CBM d1 by (auto simp: cbm_write_def bs_def [symmetric] split: if_splits)
  ultimately show ?thesis using kept_mono [OF kept_0 [OF d]] CBM by (auto simp: bs_def)
next
  case UCT
  obtain q d1 where d1: "exfat_write io upcase_table d = (q, d1)" by (cases "exfat_write io upcase_table d")
  then have "d' = d1" using w UCT by (auto simp: uct_write_def split: if_splits)
  then show ?thesis using write_kept [OF d1 d] rm UCT by (simp add: length_upcase_table)
next
  case ROOTDIR
  define bs where "bs = [init_label_entry p, init_bitmap_entry p, init_upcase_entry p]"
  have l: "length (concat (map le16 xs)) = 2 * length xs" for xs by (induction xs) simp_all
  have b: "length b < 2 ^ 31" if "b \<in> set bs" for b
    using that by (auto simp: bs_def init_label_entry_def init_bitmap_entry_def init_upcase_entry_def
        Let_def EXFAT_ENAME_MAX_def l)
  have c: "concat bs = object_bytes p ROOTDIR" by (simp add: bs_def)
  have "write_each io bs d = (r, d')" using w ROOTDIR by (simp add: rootdir_write_def bs_def)
  from write_each_kept [OF this d b] show ?thesis using rm ROOTDIR c by simp
qed

lemma erase_loop_kept:
  assumes "erase_loop io i n d = (r, d')" "ready d" "0 \<le> i" "i \<le> n" "pos d + nat (n - i) \<le> cap"
  shows "kept d (nat (n - i)) d'"
  using assms
proof (induction "nat (n - i)" arbitrary: i d rule: less_induct)
  case less
  show ?case
  proof (cases "i < n")
    case False
    then have "erase_loop io i n d = (0, d)" by (subst erase_loop.simps) simp
    then show ?thesis using less.prems kept_mono [OF kept_0 [OF less.prems(2)]] by simp
  next
    case True
    define k where "k = min (n - i) erase_block_size"
    have k: "0 < k" "k \<le> n - i" "k \<le> 1048576" using True by (auto simp: k_def erase_block_size_def)
    obtain q d1 where d1: "exfat_write io (replicate (nat k) 0) d = (q, d1)"
      by (cases "exfat_write io (replicate (nat k) 0) d")
    have k1: "kept d (nat k) d1" using write_kept [OF d1 less.prems(2)] k less.prems(5) by simp
    have le: "nat k \<le> nat (n - i)" using k by simp
    have rest: "erase_loop io (i + erase_block_size) n d1 = (r, d') \<or> d' = d1"
      using less.prems(1) True d1 by (auto simp: erase_loop.simps [of io i] k_def split: if_splits)
    show ?thesis
    proof (cases "i + erase_block_size \<le> n")
      case False
      then have "\<not> i + erase_block_size < n" by simp
      then have "d' = d1" using rest by (auto simp: erase_loop.simps [of io "i + erase_block_size"])
      then show ?thesis using kept_mono [OF k1 le] by simp
    next
      case True
      then have ke: "k = erase_block_size" by (simp add: k_def min_def)
      have m: "nat (n - (i + k)) < nat (n - i)" "0 \<le> i + k" "i + k \<le> n"
        "pos d1 + nat (n - (i + k)) \<le> cap" "nat k + nat (n - (i + k)) = nat (n - i)"
        using True ke k less.prems(3,5) kept_pos [OF k1] by linarith+
      show ?thesis
        using rest less.hyps [OF m(1) _ kept_ready [OF k1] m(2-4)] kept_trans [OF k1, of "nat (n - (i + k))" d']
          kept_mono [OF k1 le] m(5) [unfolded ke] by (auto simp: ke)
    qed
  qed
qed

lemma kept_below:
  assumes "kept d n d'" "int (pos d + n) \<le> limit" "limit \<le> int i"
  shows "img d' i = img d i"
  using assms by (auto simp: kept_def)

lemma erase_objects_kept:
  assumes "erase_objects io p objs position d = (r, d')" "ready d"
    "room p (get_size p) limit objs position" "limit \<le> int cap"
  shows "ready d' \<and> (\<forall>i. limit \<le> int i \<longrightarrow> img d' i = img d i)"
  using assms
proof (induction objs arbitrary: position d)
  case (Cons pp pps)
  define q where "q = ROUND_UP position (get_alignment p pp)"
  have q: "0 \<le> q" "0 \<le> get_size p pp" "q + get_size p pp \<le> limit"
    "room p (get_size p) limit pps (q + get_size p pp)"
    using Cons.prems(3) by (simp_all add: Let_def q_def)
  obtain s d1 where d1: "exfat_seek io q d = (s, d1)" by (cases "exfat_seek io q d")
  note c1 = seek_confined [OF Cons.prems(2) q(1) d1]
  obtain e d2 where e: "erase_object io q (get_size p pp) d = (e, d2)"
    by (cases "erase_object io q (get_size p pp) d")
  have d2: "ready d2 \<and> (\<forall>i. limit \<le> int i \<longrightarrow> img d2 i = img d i)"
  proof (cases "s = -1")
    case True
    then show ?thesis using c1 d1 e by (simp add: erase_object_def)
  next
    case False
    then have ps: "pos d1 = nat q" using c1 by simp
    have l: "erase_loop io 0 (get_size p pp) d1 = (e, d2)" using False d1 e by (simp add: erase_object_def)
    have "pos d1 + nat (get_size p pp - 0) \<le> cap" using q ps Cons.prems(4) by linarith
    then have k: "kept d1 (nat (get_size p pp)) d2" using erase_loop_kept [OF l _ _ q(2)] c1 by simp
    have "int (pos d1 + nat (get_size p pp)) \<le> limit" using q ps by simp
    then show ?thesis using kept_below [OF k] kept_ready [OF k] c1 by simp
  qed
  show ?case
    using Cons.prems(1) e d2 Cons.IH [OF _ _ q(4) Cons.prems(4), of d2]
    by (auto simp: Let_def q_def [symmetric] split: if_splits)
qed simp

lemma create_objects_kept:
  assumes wf: "mkfs_wf p" "check_size p (p_volume_size p) = 0"
    and "create_objects io p objs position d = (r, d')" "ready d"
    "room p (\<lambda>pp. int (length (object_bytes p pp))) limit objs position" "limit \<le> int cap"
  shows "ready d' \<and> (\<forall>i. limit \<le> int i \<longrightarrow> img d' i = img d i)"
  using assms(3-)
proof (induction objs arbitrary: position d)
  case (Cons pp pps)
  define q where "q = ROUND_UP position (get_alignment p pp)"
  have q: "0 \<le> q" "q + int (length (object_bytes p pp)) \<le> limit"
    "room p (\<lambda>pp. int (length (object_bytes p pp))) limit pps (q + get_size p pp)"
    using Cons.prems(3) by (simp_all add: Let_def q_def del: object_bytes.simps)
  obtain s d1 where d1: "exfat_seek io q d = (s, d1)" by (cases "exfat_seek io q d")
  note c1 = seek_confined [OF Cons.prems(2) q(1) d1]
  obtain w d2 where w: "object_write io p pp d1 = (w, d2)" by (cases "object_write io p pp d1")
  have d2: "ready d2 \<and> (\<forall>i. limit \<le> int i \<longrightarrow> img d2 i = img d i)" if s: "s \<noteq> -1"
  proof -
    have ps: "pos d1 = nat q" using s c1 by simp
    have rm: "pos d1 + length (object_bytes p pp) \<le> cap" using q ps Cons.prems(4) by linarith
    have k: "kept d1 (length (object_bytes p pp)) d2" using object_kept [OF w wf _ rm] c1 by simp
    have "int (pos d1 + length (object_bytes p pp)) \<le> limit" using q ps by simp
    then show ?thesis using kept_below [OF k] kept_ready [OF k] c1 by simp
  qed
  show ?case
    using Cons.prems(1) d1 w d2 c1 Cons.IH [OF _ _ q(3) Cons.prems(4), of d2]
    by (auto simp: Let_def q_def [symmetric] simp del: object_bytes.simps split: if_splits)
qed simp

lemma mkfs_confined:
  assumes wf: "mkfs_wf p" and lb: "15 \<le> length (p_volume_label p)"
    and cap: "p_volume_size p \<le> int cap" and d: "ready d"
    and run: "mkfs io p (p_volume_size p) d = (r, d')" and i: "p_volume_size p \<le> int i"
  shows "img d' i = img d i"
proof (cases "check_size p (p_volume_size p) = 0")
  case False
  then show ?thesis using run by (simp add: mkfs_def)
next
  case ck: True
  note o = object_order [OF wf ck] and sz = sizes [OF wf] and l = object_lengths [OF wf ck lb]
  have r1: "room p (get_size p) (p_volume_size p) objects 0"
    by (rule room_objects [OF wf ck]; use o sz wf_sizes(3) [OF wf] in simp)
  have r2: "room p (\<lambda>pp. int (length (object_bytes p pp))) (p_volume_size p) objects 0"
    by (rule room_objects [OF wf ck])
      (use o sz(3-5) l wf_sizes(3) [OF wf] in \<open>simp_all del: object_bytes.simps\<close>)
  obtain e d1 where e: "erase io p d = (e, d1)" by (cases "erase io p d")
  have d1: "ready d1" "img d1 i = img d i"
    using e d i erase_objects_kept [OF _ d r1 cap, of e d1] by (auto simp: erase_def split: if_splits)
  obtain c d2 where c: "create io p d1 = (c, d2)" by (cases "create io p d1")
  then have d2: "ready d2" "img d2 i = img d i"
    using create_objects_kept [OF wf ck _ d1(1) r2 cap, of c d2] d1(2) i by (auto simp: create_def)
  obtain f d3 where f: "exfat_fsync io d2 = (f, d3)" by (cases "exfat_fsync io d2")
  then have "img d3 i = img d i" using fsync_confined [OF d2(1) f] d2(2) by simp
  then show ?thesis
    using run ck e c f d1 d2 by (auto simp: mkfs_def split: if_splits)
qed

end

text \<open>A device that keeps the contract of \<open>byte_device\<close> is confined.\<close>

sublocale byte_device \<subseteq> confined_device
proof unfold_locales
  show "ready d' \<and> img d' = img d \<and> (r \<noteq> -1 \<longrightarrow> pos d' = nat off)"
    if "ready d" "0 \<le> off" "exfat_seek io off d = (r, d')" for d d' off r
    using seek_law [OF that(1,2)] that(3) by auto
  show "ready d' \<and> pos d \<le> pos d' \<and> pos d' \<le> pos d + length bs
      \<and> (\<forall>i. i < pos d \<or> pos d + length bs \<le> i \<longrightarrow> img d' i = img d i)"
    if "ready d" "length bs < 2 ^ 31" "pos d + length bs \<le> cap" "exfat_write io bs d = (r, d')" for d d' bs r
    using write_law [OF that(1-3)] that(4) by (auto simp: mwrite_def)
  show "img d' = img d" if "ready d" "exfat_fsync io d = (r, d')" for d d' r
    using fsync_law [OF that(1)] that(2) by auto
qed

section \<open>A medium that fills up\<close>

text \<open>A device whose writes fail once so many bytes have been written; what fits is written.\<close>

definition full_io :: "(nat \<times> int \<times> medium) exfat_io" where
  "full_io = \<lparr>exfat_seek = (\<lambda>off (k, p, m). (off, k, off, m)),
     exfat_write = (\<lambda>bs (k, p, m). let n = min k (length bs)
       in (if n = length bs then int n else -1, k - n, p + int n, mwrite m (nat p) (take n bs))),
     exfat_fsync = (\<lambda>d. (0, d)), exfat_malloc = (\<lambda>n d. True)\<rparr>"

interpretation full: confined_device full_io "\<lambda>(k, p, m). 0 \<le> p" "\<lambda>(k, p, m). nat p" "\<lambda>(k, p, m). m" "2 ^ 40"
  by unfold_locales (auto simp: full_io_def mwrite_def Let_def nat_add_distrib split: if_splits)

section \<open>The property\<close>

text \<open>C15: Formatting touches nothing outside the volume, whether or not it succeeds. On any device
  whose writes touch no byte but those they are asked to write, and may fail or stop short at any
  time, \<open>mkfs\<close> on any volume that lies on the device leaves every byte at or past the end of the
  volume as it was, whatever it returns.\<close>

theorem mkfs_stays_inside_the_volume:
  assumes dev: "confined_device io ready pos img cap" and d: "ready d" and wf: "mkfs_wf p"
    and lb: "15 \<le> length (p_volume_label p)" and cap: "p_volume_size p \<le> int cap"
    and run: "mkfs io p (p_volume_size p) d = (r, d')" and i: "p_volume_size p \<le> int i"
  shows "img d' i = img d i"
  by (rule confined_device.mkfs_confined [OF dev wf lb cap d run i])

text \<open>The run on a device with room for 200000 more bytes stops while it erases the volume.\<close>

lemma mkfs_stays_inside_the_volume_witness:
  "\<exists>r d'. mkfs full_io small_param (p_volume_size small_param) (200000, 0, \<lambda>_. 9) = (r, d')
    \<and> (\<lambda>(k, p, m). m 67108864) d' = 9"
proof -
  obtain r d' where run: "mkfs full_io small_param (p_volume_size small_param) (200000, 0, \<lambda>_. 9) = (r, d')"
    by (cases "mkfs full_io small_param (p_volume_size small_param) (200000, 0, \<lambda>_. 9)")
  have "p_volume_size small_param \<le> int (2 ^ 40)" "p_volume_size small_param \<le> int 67108864"
    by (simp_all add: small_sizes)
  then have "(\<lambda>(k, p, m). m) d' 67108864 = 9"
    using mkfs_stays_inside_the_volume [OF full.confined_device_axioms _ small_wf small_label _ run] by simp
  then show ?thesis using run by (cases d') auto
qed

end
