(* ===== verification/ScsiSpec.thy ===== *)
theory ScsiSpec
  imports Scsi
begin

text \<open>
  What the driver of theory Scsi promises over a stick that obeys the Bulk-Only Transport
  protocol: the pair of the stick's sectors and the driver's write cache behaves like one flat
  medium of bytes. The interface \<open>bot_device\<close> states the documented behaviour of the stick
  transfer by transfer, and that closing the device and leaving libusb do not change its sectors; \<open>scsi_disk\<close> states what one \<open>scsi_command\<close> then does, and holds the
  lemmas about the cache and the byte-granular loops.
\<close>

section \<open>Frames and invariants\<close>

text \<open>The fields input and output never change.\<close>

definition io_frame :: "'w drv \<Rightarrow> 'w drv \<Rightarrow> bool" where
  "io_frame d d' \<longleftrightarrow> d' = d\<lparr>g_tag := g_tag d', g_bounce_buffer := g_bounce_buffer d',
     g_write_cache := g_write_cache d', g_cache_lba := g_cache_lba d',
     g_cache_sectors := g_cache_sectors d', g_sync_cache_supported := g_sync_cache_supported d',
     g_total_io_bytes := g_total_io_bytes d', g_last_log_io_bytes := g_last_log_io_bytes d',
     g_world := g_world d'\<rparr>"

lemma io_frame_refl [simp]: "io_frame d d"
  by (simp add: io_frame_def)

lemma io_frame_trans: "io_frame a b \<Longrightarrow> io_frame b c \<Longrightarrow> io_frame a c"
  by (cases a; cases b; cases c) (simp add: io_frame_def)

lemma io_frame_fields:
  assumes "io_frame d d'"
  shows "g_sector_size d' = g_sector_size d" "g_sector_count d' = g_sector_count d"
    "g_drive_offset_sectors d' = g_drive_offset_sectors d"
    "g_partition_sectors d' = g_partition_sectors d" "g_partition_type d' = g_partition_type d"
    "g_cur_pos d' = g_cur_pos d" "g_ep_in d' = g_ep_in d" "g_ep_out d' = g_ep_out d"
    "g_usb_handle d' = g_usb_handle d"
  using assms by (cases d; cases d'; simp add: io_frame_def)+

text \<open>The cache buffer holds 1 MB, and the cached run of sectors lies on the device.\<close>

definition cache_wf :: "nat \<Rightarrow> 'w drv \<Rightarrow> bool" where
  "cache_wf cap d \<longleftrightarrow> (case g_write_cache d of None \<Rightarrow> g_cache_sectors d = 0
     | Some c \<Rightarrow> length c = 1048576 \<and> unat (g_cache_sectors d) \<le> 2048
         \<and> (g_cache_sectors d = 0 \<or> unat (g_cache_lba d) + unat (g_cache_sectors d) \<le> cap))"

section \<open>The stick\<close>

locale bot_device =
  fixes u :: "'w usb" and store :: "'w \<Rightarrow> medium" and idle :: "'w \<Rightarrow> bool"
    and cap :: nat and epi epo :: u8
  assumes cap_bound: "cap \<le> 2 ^ 32"
    and malloc_succeeds: "malloc_ok u sz w"
    and bot_write: "idle w \<Longrightarrow> n \<noteq> 0 \<Longrightarrow> unat n \<le> 2048 \<Longrightarrow> unat lba + unat n \<le> cap \<Longrightarrow>
      length data = unat n * 512 \<Longrightarrow>
      \<exists>w1 w2 w3 csw. bulk_out u epo (cbw_bytes tag (n * 512) 0 (cdb10 WRITE10 lba n)) w = (0, w1)
        \<and> bulk_out u epo data w1 = (0, w2) \<and> bulk_in u epi 13 w2 = (0, csw, w3)
        \<and> length csw = 13 \<and> csw_status csw = 0 \<and> idle w3
        \<and> store w3 = mwrite (store w) (unat lba * 512) data"
    and bot_read: "idle w \<Longrightarrow> n \<noteq> 0 \<Longrightarrow> unat n \<le> 2048 \<Longrightarrow> unat lba + unat n \<le> cap \<Longrightarrow>
      \<exists>w1 w2 w3 csw. bulk_out u epo (cbw_bytes tag (n * 512) 0x80 (cdb10 READ10 lba n)) w = (0, w1)
        \<and> bulk_in u epi (unat n * 512) w1 = (0, mread (store w) (unat lba * 512) (unat n * 512), w2)
        \<and> bulk_in u epi 13 w2 = (0, csw, w3)
        \<and> length csw = 13 \<and> csw_status csw = 0 \<and> idle w3 \<and> store w3 = store w"
    and bot_sync: "idle w \<Longrightarrow>
      \<exists>w1 w2 csw. bulk_out u epo (cbw_bytes tag 0 0 sync_cmd) w = (0, w1)
        \<and> bulk_in u epi 13 w1 = (0, csw, w2)
        \<and> length csw = 13 \<and> idle w2 \<and> store w2 = store w"
    and close_store: "store (libusb_close u w) = store w"
    and exit_store: "store (libusb_exit u w) = store w"

text \<open>The driver is bound to that stick, which has 512-byte sectors and awaits a command.\<close>

definition bound_to :: "('w \<Rightarrow> bool) \<Rightarrow> u8 \<Rightarrow> u8 \<Rightarrow> 'w drv \<Rightarrow> bool" where
  "bound_to idle epi epo d \<longleftrightarrow> g_usb_handle d \<and> g_ep_in d = epi \<and> g_ep_out d = epo
     \<and> g_sector_size d = 512 \<and> idle (g_world d)"

lemma bound_to_frame: "bound_to idle epi epo d \<Longrightarrow> io_frame d d' \<Longrightarrow> idle (g_world d')
  \<Longrightarrow> bound_to idle epi epo d'"
  by (simp add: bound_to_def io_frame_fields)

section \<open>One command\<close>

locale scsi_disk =
  fixes u :: "'w usb" and store :: "'w \<Rightarrow> medium" and idle :: "'w \<Rightarrow> bool"
    and cap :: nat and epi epo :: u8
  assumes capacity_bound: "cap \<le> 2 ^ 32"
    and malloc_law: "malloc_ok u sz w"
    and write_law: "bound_to idle epi epo d \<Longrightarrow> n \<noteq> 0 \<Longrightarrow> unat n \<le> 2048 \<Longrightarrow>
      unat lba + unat n \<le> cap \<Longrightarrow> unat n * 512 \<le> length buf \<Longrightarrow>
      \<exists>t w. scsi_command u (cdb10 WRITE10 lba n) 0 (Some buf) (n * 512) d
          = (0, Some buf, d\<lparr>g_tag := t, g_world := w\<rparr>) \<and> idle w
        \<and> store w = mwrite (store (g_world d)) (unat lba * 512) (take (unat n * 512) buf)"
    and read_law: "bound_to idle epi epo d \<Longrightarrow> n \<noteq> 0 \<Longrightarrow> unat n \<le> 2048 \<Longrightarrow>
      unat lba + unat n \<le> cap \<Longrightarrow>
      \<exists>t w. scsi_command u (cdb10 READ10 lba n) 0x80 (Some buf) (n * 512) d
          = (0, Some (patch 0 (mread (store (g_world d)) (unat lba * 512) (unat n * 512)) buf),
             d\<lparr>g_tag := t, g_world := w\<rparr>) \<and> idle w \<and> store w = store (g_world d)"
    and sync_law: "bound_to idle epi epo d \<Longrightarrow>
      \<exists>t w s. scsi_command u sync_cmd 0 None 0 d
          = (0, None, d\<lparr>g_tag := t, g_world := w, g_sync_cache_supported := s\<rparr>)
        \<and> idle w \<and> store w = store (g_world d)"

lemma cdb10_opcode [simp]: "cdb10 opcode lba n ! 0 = opcode"
  by (simp add: cdb10_def)

lemma sync_cmd_opcode [simp]: "sync_cmd ! 0 = 0x35"
  by (simp add: sync_cmd_def)

lemma unat_mult_512:
  assumes "unat (n :: u32) \<le> 2048"
  shows "unat (n * 512) = unat n * 512"
  using assms by (simp add: unat_word_ariths)

lemma mult_512_nonzero:
  assumes "(n :: u32) \<noteq> 0" "unat n \<le> 2048"
  shows "n * 512 \<noteq> 0"
proof -
  have "unat (n * 512) \<noteq> 0"
    using assms by (simp add: unat_mult_512 unat_eq_0)
  then show ?thesis by (metis unat_0)
qed

sublocale bot_device \<subseteq> scsi_disk
proof unfold_locales
  show "cap \<le> 2 ^ 32" by (rule cap_bound)
  show "malloc_ok u sz w" for sz w by (rule malloc_succeeds)
next
  fix d :: "'w drv" and n :: u32 and lba :: u64 and buf :: bytes
  assume b: "bound_to idle epi epo d" and n: "n \<noteq> 0" "unat n \<le> 2048"
    and r: "unat lba + unat n \<le> cap" and l: "unat n * 512 \<le> length buf"
  obtain w1 w2 w3 csw where h:
    "bulk_out u epo (cbw_bytes (g_tag d) (n * 512) 0 (cdb10 WRITE10 lba n)) (g_world d) = (0, w1)"
    "bulk_out u epo (take (unat n * 512) buf) w1 = (0, w2)" "bulk_in u epi 13 w2 = (0, csw, w3)"
    "length csw = 13" "csw_status csw = 0" "idle w3"
    "store w3 = mwrite (store (g_world d)) (unat lba * 512) (take (unat n * 512) buf)"
    using bot_write [of "g_world d" n lba "take (unat n * 512) buf" "g_tag d"] b n r l
    by (auto simp: bound_to_def)
  show "\<exists>t w. scsi_command u (cdb10 WRITE10 lba n) 0 (Some buf) (n * 512) d
          = (0, Some buf, d\<lparr>g_tag := t, g_world := w\<rparr>) \<and> idle w
        \<and> store w = mwrite (store (g_world d)) (unat lba * 512) (take (unat n * 512) buf)"
    using b h n
    by (intro exI [of _ "g_tag d + 1"] exI [of _ w3])
       (simp add: scsi_command_def scsi_data_phase_def usb_transfer_out_def usb_transfer_in_def
         usb_note_def bound_to_def unat_mult_512 mult_512_nonzero patch_whole)
next
  fix d :: "'w drv" and n :: u32 and lba :: u64 and buf :: bytes
  assume b: "bound_to idle epi epo d" and n: "n \<noteq> 0" "unat n \<le> 2048"
    and r: "unat lba + unat n \<le> cap"
  obtain w1 w2 w3 csw where h:
    "bulk_out u epo (cbw_bytes (g_tag d) (n * 512) 0x80 (cdb10 READ10 lba n)) (g_world d) = (0, w1)"
    "bulk_in u epi (unat n * 512) w1
      = (0, mread (store (g_world d)) (unat lba * 512) (unat n * 512), w2)"
    "bulk_in u epi 13 w2 = (0, csw, w3)"
    "length csw = 13" "csw_status csw = 0" "idle w3" "store w3 = store (g_world d)"
    using bot_read [of "g_world d" n lba "g_tag d"] b n r by (auto simp: bound_to_def)
  show "\<exists>t w. scsi_command u (cdb10 READ10 lba n) 0x80 (Some buf) (n * 512) d
          = (0, Some (patch 0 (mread (store (g_world d)) (unat lba * 512) (unat n * 512)) buf),
             d\<lparr>g_tag := t, g_world := w\<rparr>) \<and> idle w \<and> store w = store (g_world d)"
    using b h n
    by (intro exI [of _ "g_tag d + 1"] exI [of _ w3])
       (simp add: scsi_command_def scsi_data_phase_def usb_transfer_out_def usb_transfer_in_def
         usb_note_def bound_to_def unat_mult_512 mult_512_nonzero patch_whole)
next
  fix d :: "'w drv"
  assume b: "bound_to idle epi epo d"
  obtain w1 w2 csw where h:
    "bulk_out u epo (cbw_bytes (g_tag d) 0 0 sync_cmd) (g_world d) = (0, w1)"
    "bulk_in u epi 13 w1 = (0, csw, w2)" "length csw = 13" "idle w2" "store w2 = store (g_world d)"
    using bot_sync [of "g_world d" "g_tag d"] b by (auto simp: bound_to_def)
  show "\<exists>t w s. scsi_command u sync_cmd 0 None 0 d
          = (0, None, d\<lparr>g_tag := t, g_world := w, g_sync_cache_supported := s\<rparr>)
        \<and> idle w \<and> store w = store (g_world d)"
  proof (cases "g_sync_cache_supported d")
    case True
    then show ?thesis
      using b h
      by (intro exI [of _ "g_tag d + 1"] exI [of _ w2] exI [of _ "csw_status csw = 0"])
         (simp add: scsi_command_def scsi_data_phase_def usb_transfer_out_def usb_transfer_in_def
           usb_note_def bound_to_def patch_whole)
  next
    case False
    then show ?thesis
      using b by (intro exI [of _ "g_tag d"] exI [of _ "g_world d"] exI [of _ False])
        (simp add: scsi_command_def bound_to_def)
  qed
qed

end
