(* ===== verification/ScsiIo.thy ===== *)
theory ScsiIo
  imports ScsiSpec
begin

text \<open>
  The write cache and the byte-granular loops of \<open>scsi_io_internal\<close> over any stick that meets
  \<open>scsi_disk\<close>: every operation acts on one flat medium, the stick overlaid with the cache.
\<close>

section \<open>Arithmetic of positions\<close>

lemma unat_of_int_nonneg: "0 \<le> x \<Longrightarrow> x < 2 ^ 32 \<Longrightarrow> unat (word_of_int x :: u32) = nat x"
  by (simp add: unsigned_of_int take_bit_int_eq_self)

lemma unat_io_lba:
  assumes "g_sector_size d = 512" "0 \<le> pos" "pos < 2 ^ 32 * 512"
  shows "unat (io_lba d pos) = nat pos div 512"
proof -
  have "pos div 512 < 2 ^ 32" and "0 \<le> pos div 512" using assms by linarith+
  then show ?thesis
    using assms by (simp add: io_lba_def sdiv_nonneg unat_of_int_nonneg nat_div_distrib)
qed

lemma unat_io_offset:
  assumes "g_sector_size d = 512" "0 \<le> pos"
  shows "unat (io_offset_in_sector d pos) = nat pos mod 512"
proof -
  have "pos mod 512 < 2 ^ 32" and "0 \<le> pos mod 512"
    using pos_mod_bound [of 512 pos] by simp_all
  then show ?thesis
    using assms by (simp add: io_offset_in_sector_def smod_nonneg unat_of_int_nonneg nat_mod_distrib)
qed

lemma unat_take_bit_64: "take_bit 64 (unat (lba :: u32)) = unat lba"
  using unsigned_less [of lba, where 'a = nat] by (simp add: take_bit_nat_eq_self)

lemma unat_ucast_lba [simp]: "unat (ucast (lba :: u32) :: u64) = unat lba"
  by (simp add: unsigned_ucast_eq unat_take_bit_64)

lemma unat_read_sectors:
  assumes "unat rem \<le> 2 ^ 31" "unat ois < 512"
  shows "unat (read_sectors 512 rem ois) = min 2048 ((unat rem + unat ois + 511) div 512)"
proof -
  have 1: "unat (rem + ois + 512 - 1) = unat rem + unat ois + 511"
  proof -
    have "rem + ois + 512 - 1 = rem + ois + 511" by simp
    then show ?thesis using assms by (simp add: unat_word_ariths)
  qed
  have 2: "unat ((rem + ois + 512 - 1) div 512) = (unat rem + unat ois + 511) div 512"
    unfolding unat_div 1 by simp
  show ?thesis
    using 2 by (auto simp: read_sectors_def Let_def word_less_nat_alt min_def)
qed

lemma unat_div_512: "unat ((rem :: u32) div 512) = unat rem div 512"
  by (simp add: unat_div)

lemma nat_advance: "0 \<le> x \<Longrightarrow> nat (x + uint (k :: u32)) = nat x + unat k"
  by (simp add: nat_add_distrib)

lemma word_progress:
  assumes "k \<noteq> 0" "k \<le> (rem :: u32)" "unat rem = nat n" "0 \<le> n"
  shows "0 < uint k" "uint k \<le> n"
proof -
  have "int (unat rem) = n" using assms by simp
  moreover have "int (unat rem) = uint rem" by simp
  ultimately show "uint k \<le> n" using assms(2) by (simp add: word_le_def)
  have "uint k \<noteq> 0" using assms(1) by (metis word_of_int_uint word_of_int_0)
  then show "0 < uint k" by (simp add: less_le)
qed

lemma nat_remain: "0 \<le> x \<Longrightarrow> nat (x - uint (k :: u32)) = nat x - unat k"
  by (simp add: nat_diff_distrib')

lemma sector_range:
  assumes "p + r \<le> cap * 512"
  shows "p div 512 + (r + p mod 512 + 511) div 512 \<le> (cap :: nat)"
proof -
  have "p + r + 511 = (r + p mod 512 + 511) + p div 512 * 512"
    using div_mult_mod_eq [of p 512] by linarith
  then have "(p + r + 511) div 512 = (r + p mod 512 + 511 + p div 512 * 512) div 512"
    by (rule arg_cong)
  also have "\<dots> = p div 512 + (r + p mod 512 + 511) div 512"
    by (rule div_mult_self1) simp
  finally have "p div 512 + (r + p mod 512 + 511) div 512 = (p + r + 511) div 512"
    by (rule sym)
  also have "\<dots> \<le> (cap * 512 + 511) div 512"
    using assms by (intro div_le_mono) simp
  finally show ?thesis by simp
qed

lemma scsi_read_step_eq:
  assumes "scsi_flush_cache_internal u d = (r, d1)"
    and "n = read_sectors (g_sector_size d) rem ois" and "ois = io_offset_in_sector d pos"
    and "scsi_command u (cdb10 READ10 (ucast (io_lba d pos)) n) 0x80
      (Some (g_bounce_buffer d1)) (n * g_sector_size d) d1 = (0, Some bb, d2)"
    and "k = (if rem < n * g_sector_size d - ois then rem else n * g_sector_size d - ois)"
  shows "scsi_read_step u pos rem done buf d
    = (Some k, patch done (seg (unat ois) (unat k) bb) buf, d2\<lparr>g_bounce_buffer := bb\<rparr>)"
  using assms by (simp add: scsi_read_step_def Let_def)

section \<open>The flat medium\<close>

text \<open>What the stick will hold once the cache is flushed, and when the driver is in a state
  that serves it.\<close>

definition disk_view :: "('w \<Rightarrow> medium) \<Rightarrow> 'w drv \<Rightarrow> medium" where
  "disk_view store d = mwrite (store (g_world d)) (unat (g_cache_lba d) * 512)
     (take (unat (g_cache_sectors d) * 512) (cache_buf d))"

definition disk_inv :: "('w \<Rightarrow> bool) \<Rightarrow> nat \<Rightarrow> u8 \<Rightarrow> u8 \<Rightarrow> 'w drv \<Rightarrow> bool" where
  "disk_inv idle cap epi epo d \<longleftrightarrow> bound_to idle epi epo d \<and> length (g_bounce_buffer d) = 1048576
     \<and> cache_wf cap d"

context scsi_disk
begin

abbreviation view :: "'w drv \<Rightarrow> medium" where
  "view \<equiv> disk_view store"

abbreviation inv :: "'w drv \<Rightarrow> bool" where
  "inv \<equiv> disk_inv idle cap epi epo"

lemma inv_bound [simp]: "inv d \<Longrightarrow> bound_to idle epi epo d"
  by (simp add: disk_inv_def)

lemma inv_sector_size [simp]: "inv d \<Longrightarrow> g_sector_size d = 512"
  by (simp add: disk_inv_def bound_to_def)

lemma view_empty: "g_cache_sectors d = 0 \<Longrightarrow> view d = store (g_world d)"
  by (simp add: disk_view_def)

lemma flush:
  assumes "inv d"
  shows "\<exists>t w. scsi_flush_cache_internal u d
      = (0, d\<lparr>g_tag := t, g_world := w, g_cache_sectors := 0\<rparr>)
    \<and> idle w \<and> store w = view d"
proof (cases "g_cache_sectors d = 0 \<or> g_write_cache d = None")
  case True
  then have "g_cache_sectors d = 0"
    using assms by (auto simp: disk_inv_def cache_wf_def)
  then show ?thesis
    using assms
    by (intro exI [of _ "g_tag d"] exI [of _ "g_world d"])
       (simp add: scsi_flush_cache_internal_def view_empty disk_inv_def bound_to_def)
next
  case False
  then obtain c where c: "g_write_cache d = Some c" and n: "g_cache_sectors d \<noteq> 0" by auto
  then have wf: "length c = 1048576" "unat (g_cache_sectors d) \<le> 2048"
    "unat (g_cache_lba d) + unat (g_cache_sectors d) \<le> cap"
    using assms by (auto simp: disk_inv_def cache_wf_def)
  obtain t w where
    "scsi_command u (cdb10 WRITE10 (g_cache_lba d) (g_cache_sectors d)) 0 (Some c)
       (g_cache_sectors d * 512) d = (0, Some c, d\<lparr>g_tag := t, g_world := w\<rparr>)" "idle w"
    "store w = mwrite (store (g_world d)) (unat (g_cache_lba d) * 512)
       (take (unat (g_cache_sectors d) * 512) c)"
    using write_law [of d "g_cache_sectors d" "g_cache_lba d" c] assms n wf by auto
  then show ?thesis
    using assms c n
    by (intro exI [of _ t] exI [of _ w])
       (simp add: scsi_flush_cache_internal_def disk_view_def cache_buf_def)
qed

lemma flushed_inv:
  assumes "inv d" "idle w" "store w = view d"
    and d'_def: "d' = d\<lparr>g_tag := t, g_world := w, g_cache_sectors := 0\<rparr>"
  shows "inv d'" "view d' = view d" "io_frame d d'"
proof -
  show "inv d'"
    using assms by (auto simp: disk_inv_def bound_to_def cache_wf_def split: option.splits)
  show "view d' = view d"
    using assms by (simp add: disk_view_def)
  show "io_frame d d'"
    by (simp add: d'_def io_frame_def)
qed

lemma fetched_inv:
  assumes "inv d" "g_cache_sectors d = 0" "idle w" "store w = store (g_world d)"
    "length bb = 1048576"
    and d'_def: "d' = d\<lparr>g_tag := t, g_world := w, g_bounce_buffer := bb\<rparr>"
  shows "inv d'" "view d' = view d" "io_frame d d'"
proof -
  show "inv d'"
    using assms by (auto simp: disk_inv_def bound_to_def cache_wf_def split: option.splits)
  show "view d' = view d"
    using assms by (simp add: view_empty)
  show "io_frame d d'"
    by (simp add: d'_def io_frame_def)
qed

lemma read_step:
  assumes d: "inv d" and p: "0 \<le> pos" "nat pos + unat rem \<le> cap * 512"
    and r: "rem \<noteq> 0" "unat rem \<le> 2 ^ 31"
  shows "\<exists>k d'. scsi_read_step u pos rem done buf d
      = (Some k, patch done (mread (view d) (nat pos) (unat k)) buf, d')
    \<and> k \<noteq> 0 \<and> k \<le> rem \<and> inv d' \<and> view d' = view d \<and> io_frame d d'"
proof -
  obtain t w where f: "scsi_flush_cache_internal u d
      = (0, d\<lparr>g_tag := t, g_world := w, g_cache_sectors := 0\<rparr>)" "idle w" "store w = view d"
    using flush [OF d] by auto
  define d1 where "d1 = d\<lparr>g_tag := t, g_world := w, g_cache_sectors := 0\<rparr>"
  note d1 = flushed_inv [OF d f(2,3) d1_def]
  define ois where "ois = io_offset_in_sector d pos"
  define n where "n = read_sectors 512 rem ois"
  have pos: "pos < 2 ^ 32 * 512"
  proof -
    have "nat pos < cap * 512" using p r by (metis add_lessD1 le_neq_implies_less
      less_add_same_cancel1 linorder_not_less unat_gt_0 word_neq_0_conv)
    then have "nat pos < 2199023255552" using capacity_bound by simp
    then show ?thesis by simp
  qed
  have lba: "unat (io_lba d pos) = nat pos div 512"
    using d p pos by (simp add: unat_io_lba)
  have ois: "unat ois = nat pos mod 512"
    using d p by (simp add: ois_def unat_io_offset)
  have n: "unat n = min 2048 ((unat rem + unat ois + 511) div 512)"
    unfolding n_def by (rule unat_read_sectors) (use r ois in simp_all)
  have rem0: "0 < unat rem" using r by (simp add: unat_gt_0)
  have n0: "0 < unat n" using n rem0 by (simp add: div_greater_zero_iff)
  have n2: "unat n \<le> 2048" using n by simp
  have range: "nat pos div 512 + unat n \<le> cap"
  proof -
    have "unat n \<le> (unat rem + nat pos mod 512 + 511) div 512" using n ois by simp
    then show ?thesis using sector_range [OF p(2)] by linarith
  qed
  obtain t2 w2 where c: "scsi_command u (cdb10 READ10 (ucast (io_lba d pos)) n) 0x80
      (Some (g_bounce_buffer d1)) (n * 512) d1
      = (0, Some (patch 0 (mread (store w) (nat pos div 512 * 512) (unat n * 512))
           (g_bounce_buffer d1)), d1\<lparr>g_tag := t2, g_world := w2\<rparr>)" "idle w2" "store w2 = store w"
    using read_law [of d1 n "ucast (io_lba d pos)" "g_bounce_buffer d1"] d1(1) n0 n2 range lba
    by (auto simp: d1_def unat_gt_0)
  define bb where "bb = patch 0 (mread (view d) (nat pos div 512 * 512) (unat n * 512))
    (g_bounce_buffer d1)"
  define d3 where "d3 = d1\<lparr>g_tag := t2, g_world := w2, g_bounce_buffer := bb\<rparr>"
  have len: "unat n * 512 \<le> length (g_bounce_buffer d1)"
    using d1(1) n2 by (simp add: disk_inv_def)
  have can: "unat (n * 512 - ois) = unat n * 512 - unat ois"
    using n0 n2 ois by (subst unat_sub) (simp_all add: word_le_nat_alt unat_mult_512)
  define k where "k = (if rem < n * 512 - ois then rem else n * 512 - ois)"
  have k: "unat k = min (unat rem) (unat n * 512 - unat ois)"
    using can by (auto simp: k_def word_less_nat_alt)
  have k0: "0 < unat k" using k n0 rem0 ois by simp
  have sg: "seg (unat ois) (unat k) bb = mread (view d) (nat pos) (unat k)"
  proof (rule nth_equalityI)
    have "unat ois < 512" using ois by simp
    then have "unat ois + unat k \<le> unat n * 512" using k n0 by linarith
    then show "length (seg (unat ois) (unat k) bb) = length (mread (view d) (nat pos) (unat k))"
      using len by (simp add: bb_def)
    fix i assume "i < length (seg (unat ois) (unat k) bb)"
    then have i: "i < unat k" by (simp add: seg_def)
    have "nat pos div 512 * 512 + unat ois = nat pos" using ois by simp
    then show "seg (unat ois) (unat k) bb ! i = mread (view d) (nat pos) (unat k) ! i"
      using i \<open>unat ois + unat k \<le> unat n * 512\<close> len
      by (simp add: bb_def nth_seg nth_patch nth_mread add.assoc [symmetric])
  qed
  have step: "scsi_read_step u pos rem done buf d
      = (Some k, patch done (mread (view d) (nat pos) (unat k)) buf, d3)"
  proof -
    have cmd: "scsi_command u (cdb10 READ10 (ucast (io_lba d pos)) n) 0x80
        (Some (g_bounce_buffer d1)) (n * g_sector_size d) d1
        = (0, Some bb, d1\<lparr>g_tag := t2, g_world := w2\<rparr>)"
      using c(1) f(3) d by (simp add: bb_def)
    have fl: "scsi_flush_cache_internal u d = (0, d1)" using f(1) by (simp add: d1_def)
    have nn: "n = read_sectors (g_sector_size d) rem ois" using d by (simp add: n_def)
    have kk: "k = (if rem < n * g_sector_size d - ois then rem else n * g_sector_size d - ois)"
      using d by (simp add: k_def)
    show ?thesis
      using scsi_read_step_eq [OF fl nn ois_def cmd kk] sg by (simp add: d3_def)
  qed
  have "g_cache_sectors d1 = 0" by (simp add: d1_def)
  moreover have "store w2 = store (g_world d1)" using c(3) by (simp add: d1_def)
  moreover have "length bb = 1048576" using d1(1) len by (simp add: bb_def disk_inv_def)
  ultimately have d3: "inv d3" "view d3 = view d1" "io_frame d1 d3"
    by (rule fetched_inv [OF d1(1) _ c(2) _ _ d3_def])+
  have "k \<le> rem" using k by (simp add: word_le_nat_alt)
  have "k \<noteq> 0" using k0 by auto
  have "io_frame d d3" using d1(3) d3(3) by (rule io_frame_trans)
  then show ?thesis
    using step d1(2) d3(1,2) \<open>k \<le> rem\<close> \<open>k \<noteq> 0\<close> by (intro exI [of _ k] exI [of _ d3]) simp
qed

text \<open>A write step in its three cases: growing the cached run, starting a new one, and a
  read-modify-write of one sector.\<close>

lemma write_step_append:
  assumes d: "inv d" and lba: "unat (io_lba d pos) = nat pos div 512"
    and ois: "io_offset_in_sector d pos = 0" "nat pos mod 512 = 0"
    and n: "n = (if rem div 512 > 2048 then 2048 else rem div 512)" and r: "rem \<ge> 512"
    and p: "nat pos + unat rem \<le> cap * 512" and l: "done + unat rem \<le> length buf"
    and add: "cache_can_add d (io_lba d pos) n"
  shows "\<exists>k d'. scsi_write_step u pos rem done buf d = (Some k, d')
    \<and> k \<noteq> 0 \<and> k \<le> rem \<and> inv d'
    \<and> view d' = mwrite (view d) (nat pos) (seg done (unat k) buf) \<and> io_frame d d'"
proof -
  obtain c where c: "g_write_cache d = Some c" and cs: "g_cache_sectors d \<noteq> 0"
    using d add by (auto simp: disk_inv_def cache_wf_def cache_can_add_def split: option.splits)
  then have wf: "length c = 1048576" "unat (g_cache_sectors d) \<le> 2048"
    "unat (g_cache_lba d) + unat (g_cache_sectors d) \<le> cap"
    using d by (auto simp: disk_inv_def cache_wf_def)
  have n2: "unat n = min 2048 (unat rem div 512)" and n3: "unat n \<le> 2048"
    using n unat_div_512 [of rem] by (auto simp: word_less_nat_alt min_def)
  have n1: "0 < unat n" using n2 r by (simp add: word_le_nat_alt div_greater_zero_iff)
  have nr: "unat n * 512 \<le> unat rem" using n2 by linarith
  have run: "unat (g_cache_lba d) + unat (g_cache_sectors d) = nat pos div 512"
  proof -
    have "unat (g_cache_lba d + ucast (g_cache_sectors d)) = nat pos div 512"
      using add lba by (metis cache_can_add_def unat_ucast_lba)
    moreover have "unat (g_cache_lba d) + unat (g_cache_sectors d) < 2 ^ 64"
      using wf(3) capacity_bound by simp
    ultimately show ?thesis by (simp add: unat_word_ariths)
  qed
  have tot: "unat (g_cache_sectors d + n) = unat (g_cache_sectors d) + unat n"
    using wf n3 by (simp add: unat_word_ariths)
  then have room: "unat (g_cache_sectors d) + unat n \<le> 2048"
    using add by (simp add: cache_can_add_def K_MAX_CACHE_SECTORS_def word_le_nat_alt)
  define chunk where "chunk = seg done (unat n * 512) buf"
  have lc: "length chunk = unat n * 512" using nr l by (simp add: chunk_def)
  define d' where "d' = d\<lparr>g_write_cache := Some (patch (unat (g_cache_sectors d) * 512) chunk c),
    g_cache_sectors := g_cache_sectors d + n\<rparr>"
  have step: "scsi_write_step u pos rem done buf d = (Some (n * 512), d')"
    using d add ois r n c n3 wf(2)
    by (simp add: scsi_write_step_def Let_def d'_def chunk_def cache_buf_def unat_mult_512)
  have fit: "unat (g_cache_sectors d) * 512 + length chunk \<le> length c"
    using room lc wf(1) by simp
  have "unat (g_cache_lba d) + unat (g_cache_sectors d) + unat n \<le> cap"
    using run ois(2) p nr by linarith
  then have "inv d'"
    using d fit wf room tot by (simp add: disk_inv_def bound_to_def cache_wf_def d'_def)
  moreover have "view d' = mwrite (view d) (nat pos) chunk"
  proof -
    have "take (unat (g_cache_sectors d + n) * 512) (patch (unat (g_cache_sectors d) * 512) chunk c)
      = take (unat (g_cache_sectors d) * 512) c @ chunk"
      using fit lc tot by (simp add: patch_def)
    moreover have "nat pos = unat (g_cache_lba d) * 512
        + length (take (unat (g_cache_sectors d) * 512) c)"
    proof -
      have "nat pos = nat pos div 512 * 512" using ois(2) by auto
      moreover have "length (take (unat (g_cache_sectors d) * 512) c)
        = unat (g_cache_sectors d) * 512" using fit by simp
      ultimately show ?thesis using run by linarith
    qed
    ultimately show ?thesis
      using c by (simp add: disk_view_def d'_def cache_buf_def mwrite_append del: length_take)
  qed
  moreover have "io_frame d d'" by (simp add: d'_def io_frame_def)
  moreover have "n * 512 \<noteq> 0" by (rule mult_512_nonzero) (use n1 n3 in auto)
  ultimately show ?thesis
    using step nr n3 by (auto simp: word_le_nat_alt unat_mult_512 chunk_def)
qed

lemma write_step_restart:
  assumes d: "inv d" and lba: "unat (io_lba d pos) = nat pos div 512"
    and ois: "io_offset_in_sector d pos = 0" "nat pos mod 512 = 0"
    and n: "n = (if rem div 512 > 2048 then 2048 else rem div 512)" and r: "rem \<ge> 512"
    and p: "nat pos + unat rem \<le> cap * 512" and l: "done + unat rem \<le> length buf"
    and add: "\<not> cache_can_add d (io_lba d pos) n"
  shows "\<exists>k d'. scsi_write_step u pos rem done buf d = (Some k, d')
    \<and> k \<noteq> 0 \<and> k \<le> rem \<and> inv d'
    \<and> view d' = mwrite (view d) (nat pos) (seg done (unat k) buf) \<and> io_frame d d'"
proof -
  obtain t w where f: "scsi_flush_cache_internal u d
      = (0, d\<lparr>g_tag := t, g_world := w, g_cache_sectors := 0\<rparr>)" "idle w" "store w = view d"
    using flush [OF d] by auto
  define d1 where "d1 = d\<lparr>g_tag := t, g_world := w, g_cache_sectors := 0\<rparr>"
  note d1 = flushed_inv [OF d f(2,3) d1_def]
  have n2: "unat n = min 2048 (unat rem div 512)" and n3: "unat n \<le> 2048"
    using n unat_div_512 [of rem] by (auto simp: word_less_nat_alt min_def)
  have n1: "0 < unat n" using n2 r by (simp add: word_le_nat_alt div_greater_zero_iff)
  have nr: "unat n * 512 \<le> unat rem" using n2 by linarith
  define c where "c = (case g_write_cache d1 of None \<Rightarrow> replicate 1048576 0 | Some c \<Rightarrow> c)"
  have c: "length c = 1048576"
    using d1(1) by (auto simp: c_def disk_inv_def cache_wf_def split: option.splits)
  define chunk where "chunk = seg done (unat n * 512) buf"
  have lc: "length chunk = unat n * 512" using nr l by (simp add: chunk_def)
  define d' where "d' = d1\<lparr>g_cache_lba := ucast (io_lba d pos),
    g_write_cache := Some (patch 0 chunk c), g_cache_sectors := n\<rparr>"
  have step: "scsi_write_step u pos rem done buf d = (Some (n * 512), d')"
    using d add ois r n f(1) malloc_law n3
    by (auto simp: scsi_write_step_def Let_def d'_def d1_def chunk_def cache_buf_def c_def
      unat_mult_512 K_MAX_CACHE_SECTORS_def split: option.splits)
  have "nat pos div 512 + unat n \<le> cap"
  proof -
    have "nat pos = nat pos div 512 * 512" using ois(2) by auto
    then show ?thesis using p nr by linarith
  qed
  then have "inv d'"
    using d1(1) lc c n3 lba by (simp add: disk_inv_def bound_to_def cache_wf_def d'_def)
  moreover have "view d' = mwrite (view d) (nat pos) chunk"
  proof -
    have "take (unat n * 512) (patch 0 chunk c) = chunk" using lc by (simp add: patch_def)
    moreover have "nat pos div 512 * 512 = nat pos" using ois(2) by auto
    ultimately show ?thesis
      using f(3) lba by (simp add: disk_view_def d'_def cache_buf_def d1_def)
  qed
  moreover have "io_frame d d'"
    by (simp add: d'_def d1_def io_frame_def)
  moreover have "n * 512 \<noteq> 0" by (rule mult_512_nonzero) (use n1 n3 in auto)
  ultimately show ?thesis
    using step nr n3 by (auto simp: word_le_nat_alt unat_mult_512 chunk_def)
qed

lemma scsi_write_step_partial_eq:
  assumes "io_offset_in_sector d pos = ois" and "g_sector_size d = ss"
    and "\<not> (ois = 0 \<and> ss \<le> rem)"
    and "scsi_flush_cache_internal u d = (r, da)"
    and "(if ss - ois < rem then ss - ois else rem) = k"
    and "scsi_command u (cdb10 READ10 (ucast (io_lba d pos)) 1) 0x80
      (Some (g_bounce_buffer da)) ss da = (0, Some bb, db)"
    and "patch (unat ois) (seg done (unat k) buf) bb = bf"
    and "scsi_command u (cdb10 WRITE10 (ucast (io_lba d pos)) 1) 0 (Some bf) ss
      (db\<lparr>g_bounce_buffer := bf\<rparr>) = (0, bg, dz)"
  shows "scsi_write_step u pos rem done buf d = (Some k, dz)"
  unfolding scsi_write_step_def Let_def assms(1,2) if_not_P [OF assms(3)]
  by (simp add: assms(4-))

lemma write_step_partial:
  assumes d: "inv d" and lba: "unat (io_lba d pos) = nat pos div 512"
    and ois: "unat ois = nat pos mod 512" "io_offset_in_sector d pos = ois"
    and c: "\<not> (ois = 0 \<and> 512 \<le> rem)" and r: "rem \<noteq> 0"
    and p: "nat pos + unat rem \<le> cap * 512" and l: "done + unat rem \<le> length buf"
  shows "\<exists>k d'. scsi_write_step u pos rem done buf d = (Some k, d')
    \<and> k \<noteq> 0 \<and> k \<le> rem \<and> inv d'
    \<and> view d' = mwrite (view d) (nat pos) (seg done (unat k) buf) \<and> io_frame d d'"
proof -
  obtain t w where f: "scsi_flush_cache_internal u d
      = (0, d\<lparr>g_tag := t, g_world := w, g_cache_sectors := 0\<rparr>)" "idle w" "store w = view d"
    using flush [OF d] by auto
  define d1 where "d1 = d\<lparr>g_tag := t, g_world := w, g_cache_sectors := 0\<rparr>"
  note d1 = flushed_inv [OF d f(2,3) d1_def]
  have rem0: "0 < unat rem" using r by (simp add: unat_gt_0)
  have range: "nat pos div 512 + unat (1 :: u32) \<le> cap"
  proof -
    have "nat pos < cap * 512" using p rem0 by simp
    then show ?thesis by (simp add: Suc_leI less_mult_imp_div_less)
  qed
  obtain t2 w2 where rd: "scsi_command u (cdb10 READ10 (ucast (io_lba d pos)) 1) 0x80
      (Some (g_bounce_buffer d1)) 512 d1
      = (0, Some (patch 0 (mread (view d) (nat pos div 512 * 512) 512) (g_bounce_buffer d1)),
         d1\<lparr>g_tag := t2, g_world := w2\<rparr>)" "idle w2" "store w2 = view d"
    using read_law [of d1 1 "ucast (io_lba d pos)" "g_bounce_buffer d1"] d1(1) range lba f(3)
    by (auto simp: d1_def)
  define sec where "sec = mread (view d) (nat pos div 512 * 512) 512"
  define bb where "bb = patch 0 sec (g_bounce_buffer d1)"
  define k where "k = (if 512 - ois < rem then 512 - ois else rem)"
  have o512: "unat ois < 512" using ois by simp
  have "unat (512 - ois) = 512 - unat ois"
    using o512 by (subst unat_sub) (simp_all add: word_le_nat_alt)
  then have k: "unat k = min (unat rem) (512 - unat ois)"
    by (auto simp: k_def word_less_nat_alt)
  have k0: "0 < unat k" using k rem0 o512 by simp
  define chunk where "chunk = seg done (unat k) buf"
  have lc: "length chunk = unat k" using k l by (simp add: chunk_def)
  define b4 where "b4 = patch (unat ois) chunk bb"
  have lb: "length bb = 1048576" using d1(1) by (simp add: bb_def sec_def disk_inv_def)
  have fit: "unat ois + length chunk \<le> 512" using k lc o512 by simp
  define d4 where "d4 = d1\<lparr>g_tag := t2, g_world := w2, g_bounce_buffer := b4\<rparr>"
  have d4: "inv d4" "view d4 = view d1" "io_frame d1 d4"
    by (rule fetched_inv [OF d1(1) _ rd(2) _ _ d4_def];
        use rd f lb fit in \<open>simp add: d1_def b4_def\<close>)+
  obtain t5 w5 where wr: "scsi_command u (cdb10 WRITE10 (ucast (io_lba d pos)) 1) 0 (Some b4) 512 d4
      = (0, Some b4, d4\<lparr>g_tag := t5, g_world := w5\<rparr>)" "idle w5"
      "store w5 = mwrite (view d) (nat pos div 512 * 512) (take 512 b4)"
    using write_law [of d4 1 "ucast (io_lba d pos)" b4] d4(1) range lba rd(3) lb fit
    by (auto simp: b4_def d4_def)
  define d5 where "d5 = d4\<lparr>g_tag := t5, g_world := w5\<rparr>"
  have step: "scsi_write_step u pos rem done buf d = (Some k, d5)"
    by (rule scsi_write_step_partial_eq [where ss = 512 and da = d1 and bb = bb and bf = b4
          and r = 0 and bg = "Some b4" and db = "d1\<lparr>g_tag := t2, g_world := w2\<rparr>", OF ois(2)])
       (use d c f(1) rd(1) wr(1) in \<open>simp_all add: d1_def [symmetric] k_def chunk_def b4_def bb_def
          sec_def d4_def d5_def\<close>)
  have "take 512 b4 = patch (unat ois) chunk sec"
    using fit lb by (simp add: b4_def bb_def patch_def sec_def)
  then have "store w5 = mwrite (view d) (nat pos div 512 * 512 + unat ois) chunk"
    using wr(3) fit by (simp add: mwrite_patch sec_def)
  moreover have "nat pos div 512 * 512 + unat ois = nat pos" using ois by simp
  ultimately have st: "store w5 = mwrite (view d) (nat pos) chunk" by simp
  have cs: "g_cache_sectors d5 = 0" by (simp add: d5_def d4_def d1_def)
  have "inv d5" using d4(1) wr(2) cs
    by (auto simp: d5_def disk_inv_def bound_to_def cache_wf_def split: option.splits)
  moreover have "view d5 = mwrite (view d) (nat pos) chunk"
    using cs st by (simp add: view_empty) (simp add: d5_def)
  moreover have "io_frame d d5"
    by (simp add: d5_def d4_def d1_def io_frame_def)
  moreover have "k \<noteq> 0" using k0 by auto
  ultimately show ?thesis
    using step k by (auto simp: word_le_nat_alt chunk_def)
qed

lemma write_step:
  assumes d: "inv d" and p: "0 \<le> pos" "nat pos + unat rem \<le> cap * 512" and r: "rem \<noteq> 0"
    and l: "done + unat rem \<le> length buf"
  shows "\<exists>k d'. scsi_write_step u pos rem done buf d = (Some k, d')
    \<and> k \<noteq> 0 \<and> k \<le> rem \<and> inv d'
    \<and> view d' = mwrite (view d) (nat pos) (seg done (unat k) buf) \<and> io_frame d d'"
proof -
  have "0 < unat rem" using r by (simp add: unat_gt_0)
  then have "nat pos < 2199023255552" using p(2) capacity_bound by simp
  then have lba: "unat (io_lba d pos) = nat pos div 512"
    using d p by (simp add: unat_io_lba)
  have ois: "unat (io_offset_in_sector d pos) = nat pos mod 512"
    using d p by (simp add: unat_io_offset)
  show ?thesis
  proof (cases "io_offset_in_sector d pos = 0 \<and> 512 \<le> rem")
    case True
    then show ?thesis
      using write_step_append [OF d lba _ _ refl _ p(2) l]
        write_step_restart [OF d lba _ _ refl _ p(2) l] ois by fastforce
  next
    case False
    then show ?thesis
      by (rule write_step_partial [OF d lba ois refl _ r p(2) l])
  qed
qed

text \<open>The loops: each iteration makes progress, so they return the whole count.\<close>

lemma write_loop:
  assumes "inv d" "0 \<le> base" "0 \<le> tdone" "tdone \<le> count" "count = int (length buf)"
    "count < 2 ^ 32" "base + count \<le> int (cap * 512)"
  shows "\<exists>d'. scsi_write_loop u base count tdone buf d = Some (count, d') \<and> inv d'
    \<and> view d' = mwrite (view d) (nat (base + tdone)) (drop (nat tdone) buf) \<and> io_frame d d'"
  using assms
proof (induction "nat (count - tdone)" arbitrary: tdone d rule: less_induct)
  case less
  show ?case
  proof (cases "tdone < count")
    case False
    then show ?thesis using less.prems by (auto simp: scsi_write_loop.simps)
  next
    case True
    define rem :: u32 where "rem = word_of_int (count - tdone)"
    have rem: "unat rem = nat (count - tdone)"
      unfolding rem_def by (rule unat_of_int_nonneg) (use True less.prems in auto)
    have r0: "rem \<noteq> 0" using rem True by auto
    have room: "nat (base + tdone) + unat rem \<le> cap * 512"
      using rem True less.prems by (simp add: nat_le_iff)
    have buf: "nat tdone + unat rem \<le> length buf" using rem True less.prems by simp
    obtain k d1 where st: "scsi_write_step u (base + tdone) rem (nat tdone) buf d = (Some k, d1)"
      and k: "k \<noteq> 0" "k \<le> rem" and d1: "inv d1" "io_frame d d1"
      and v: "view d1 = mwrite (view d) (nat (base + tdone)) (seg (nat tdone) (unat k) buf)"
      using write_step [OF less.prems(1) _ room r0 buf] less.prems by auto
    have k1: "0 < uint k" "uint k \<le> count - tdone"
      using word_progress [OF k rem] True by simp_all
    have t: "nat (base + (tdone + uint k)) = nat (base + tdone) + unat k"
      "nat (tdone + uint k) = nat tdone + unat k"
      using nat_advance [of "base + tdone" k] nat_advance [of tdone k] less.prems
      by (simp_all add: add.assoc)
    obtain d2 where d2: "scsi_write_loop u base count (tdone + uint k) buf d1 = Some (count, d2)"
      "inv d2" "io_frame d1 d2"
      "view d2 = mwrite (view d1) (nat (base + tdone) + unat k) (drop (nat tdone + unat k) buf)"
      using less.hyps [of "tdone + uint k" d1] d1 less.prems k1 t by auto
    have "seg (nat tdone) (unat k) buf @ drop (nat tdone + unat k) buf = drop (nat tdone) buf"
      by (simp add: seg_def flip: drop_drop) (metis append_take_drop_id add.commute drop_drop)
    moreover have "length (seg (nat tdone) (unat k) buf) = unat k"
      using buf k by (simp add: word_le_nat_alt)
    ultimately have "view d2 = mwrite (view d) (nat (base + tdone)) (drop (nat tdone) buf)"
      using d2(4) v mwrite_append [of "view d" "nat (base + tdone)" "seg (nat tdone) (unat k) buf"]
      by metis
    moreover have "scsi_write_loop u base count tdone buf d = Some (count, d2)"
      using True st [unfolded rem_def] d2(1) less.prems(1)
      by (subst scsi_write_loop.simps) simp
    ultimately show ?thesis
      using d2 io_frame_trans [OF d1(2) d2(3)] by blast
  qed
qed

lemma read_loop:
  assumes "inv d" "0 \<le> base" "0 \<le> tdone" "tdone \<le> count" "count = int (length buf)"
    "count \<le> 2 ^ 31" "base + count \<le> int (cap * 512)"
  shows "\<exists>d'. scsi_read_loop u base count tdone buf d
      = Some (count, take (nat tdone) buf
          @ mread (view d) (nat (base + tdone)) (nat (count - tdone)), d')
    \<and> inv d' \<and> view d' = view d \<and> io_frame d d'"
  using assms
proof (induction "nat (count - tdone)" arbitrary: tdone d buf rule: less_induct)
  case less
  show ?case
  proof (cases "tdone < count")
    case False
    then show ?thesis using less.prems by (auto simp: scsi_read_loop.simps mread_def)
  next
    case True
    define rem :: u32 where "rem = word_of_int (count - tdone)"
    have rem: "unat rem = nat (count - tdone)"
      unfolding rem_def by (rule unat_of_int_nonneg) (use True less.prems in auto)
    have r0: "rem \<noteq> 0" using rem True by auto
    have r31: "unat rem \<le> 2 ^ 31" using rem less.prems by simp
    have room: "nat (base + tdone) + unat rem \<le> cap * 512"
      using rem True less.prems by (simp add: nat_le_iff)
    define chunk where "chunk k = mread (view d) (nat (base + tdone)) k" for k
    obtain k d1 where st: "scsi_read_step u (base + tdone) rem (nat tdone) buf d
        = (Some k, patch (nat tdone) (chunk (unat k)) buf, d1)"
      and k: "k \<noteq> 0" "k \<le> rem" and d1: "inv d1" "io_frame d d1" "view d1 = view d"
      using read_step [OF less.prems(1) _ room r0 r31] less.prems unfolding chunk_def by force
    have k1: "0 < uint k" "uint k \<le> count - tdone"
      using word_progress [OF k rem] True by simp_all
    have k2: "unat k \<le> nat (count - tdone)" using k rem by (simp add: word_le_nat_alt)
    have t: "nat (base + (tdone + uint k)) = nat (base + tdone) + unat k"
      "nat (tdone + uint k) = nat tdone + unat k"
      "nat (count - (tdone + uint k)) = nat (count - tdone) - unat k"
      using nat_advance [of "base + tdone" k] nat_advance [of tdone k]
        nat_remain [of "count - tdone" k] less.prems
      by (simp_all add: add.assoc diff_diff_eq)
    define buf1 where "buf1 = patch (nat tdone) (chunk (unat k)) buf"
    have l1: "nat tdone + length (chunk (unat k)) \<le> length buf"
      using k2 True less.prems by (simp add: chunk_def)
    then have "length buf1 = length buf" by (simp add: buf1_def)
    then obtain d2 where d2: "scsi_read_loop u base count (tdone + uint k) buf1 d1
        = Some (count, take (nat tdone + unat k) buf1
            @ mread (view d) (nat (base + tdone) + unat k) (nat (count - tdone) - unat k), d2)"
      "inv d2" "io_frame d1 d2" "view d2 = view d1"
      using less.hyps [of "tdone + uint k" d1 buf1] d1 less.prems k1 t by auto
    have "take (nat tdone + unat k) buf1 = take (nat tdone) buf @ chunk (unat k)"
      using l1 by (simp add: buf1_def patch_def chunk_def)
    moreover have "chunk (unat k)
        @ mread (view d) (nat (base + tdone) + unat k) (nat (count - tdone) - unat k)
      = mread (view d) (nat (base + tdone)) (nat (count - tdone))"
      using mread_Suc_app [of "view d" "nat (base + tdone)" "unat k"
          "nat (count - tdone) - unat k"] k2 by (simp add: chunk_def)
    ultimately have "scsi_read_loop u base count tdone buf d
        = Some (count, take (nat tdone) buf
            @ mread (view d) (nat (base + tdone)) (nat (count - tdone)), d2)"
      using True st [unfolded rem_def] d2(1) less.prems(1)
      by (subst scsi_read_loop.simps) (simp add: buf1_def)
    then show ?thesis
      using d2 d1 io_frame_trans [OF d1(2) d2(3)] by auto
  qed
qed

lemma account:
  assumes "inv d"
  shows "inv (io_account n d)" "view (io_account n d) = view d" "io_frame d (io_account n d)"
proof -
  show "inv (io_account n d)"
    using assms
    by (cases "g_write_cache d") (simp_all add: io_account_def Let_def disk_inv_def bound_to_def cache_wf_def)
  show "view (io_account n d) = view d"
    by (simp add: io_account_def Let_def disk_view_def cache_buf_def)
  show "io_frame d (io_account n d)"
    by (cases d) (simp add: io_account_def Let_def io_frame_def)
qed

text \<open>A byte range of the partition, at byte \<open>base\<close> of the stick.\<close>

lemma pwrite:
  assumes "inv d" "actual_offset d off \<ge> 0" "length buf < 2 ^ 32"
    "actual_offset d off + int (length buf) \<le> int (cap * 512)"
  shows "\<exists>d'. scsi_pwrite u buf (int (length buf)) off d = Some (int (length buf), d') \<and> inv d'
    \<and> view d' = mwrite (view d) (nat (actual_offset d off)) buf \<and> io_frame d d'"
proof -
  obtain d' where d': "scsi_write_loop u (actual_offset d off) (int (length buf)) 0 buf d
      = Some (int (length buf), d')" "inv d'" "io_frame d d'"
      "view d' = mwrite (view d) (nat (actual_offset d off)) buf"
    using write_loop [of d "actual_offset d off" 0 "int (length buf)" buf] assms by auto
  then show ?thesis
    using account [OF d'(2), of "int (length buf)"] io_frame_trans
    by (intro exI [of _ "io_account (int (length buf)) d'"]) (auto simp: scsi_pwrite_def)
qed

lemma pread:
  assumes "inv d" "actual_offset d off \<ge> 0" "length buf \<le> 2 ^ 31"
    "actual_offset d off + int (length buf) \<le> int (cap * 512)"
  shows "\<exists>d'. scsi_pread u buf (int (length buf)) off d
      = Some (int (length buf), mread (view d) (nat (actual_offset d off)) (length buf), d')
    \<and> inv d' \<and> view d' = view d \<and> io_frame d d'"
proof -
  obtain d' where d': "scsi_read_loop u (actual_offset d off) (int (length buf)) 0 buf d
      = Some (int (length buf), mread (view d) (nat (actual_offset d off)) (length buf), d')"
      "inv d'" "io_frame d d'" "view d' = view d"
    using read_loop [of d "actual_offset d off" 0 "int (length buf)" buf] assms by auto
  then show ?thesis
    using account [OF d'(2), of "int (length buf)"] io_frame_trans
    by (intro exI [of _ "io_account (int (length buf)) d'"]) (auto simp: scsi_pread_def)
qed

lemma sync:
  assumes "inv d"
  shows "\<exists>d'. usb_scsi_sync u d = (0, d') \<and> inv d' \<and> view d' = view d
    \<and> store (g_world d') = view d \<and> g_cache_sectors d' = 0 \<and> io_frame d d'"
proof -
  obtain t w where f: "scsi_flush_cache_internal u d
      = (0, d\<lparr>g_tag := t, g_world := w, g_cache_sectors := 0\<rparr>)" "idle w" "store w = view d"
    using flush [OF assms] by auto
  define d1 where "d1 = d\<lparr>g_tag := t, g_world := w, g_cache_sectors := 0\<rparr>"
  note d1 = flushed_inv [OF assms f(2,3) d1_def]
  obtain t2 w2 s where c: "scsi_command u sync_cmd 0 None 0 d1
      = (0, None, d1\<lparr>g_tag := t2, g_world := w2, g_sync_cache_supported := s\<rparr>)"
      "idle w2" "store w2 = view d"
    using sync_law [of d1] d1 f(3) by (auto simp: d1_def)
  define d2 where "d2 = d1\<lparr>g_tag := t2, g_world := w2, g_sync_cache_supported := s\<rparr>"
  have "usb_scsi_sync u d = (0, d2)"
    using f(1) c(1) by (simp add: usb_scsi_sync_def d1_def [symmetric] d2_def)
  moreover have "g_cache_sectors d2 = 0" by (simp add: d2_def d1_def)
  moreover have "inv d2" using d1(1) c
    by (auto simp: d2_def disk_inv_def bound_to_def cache_wf_def split: option.splits)
  moreover have "io_frame d d2" by (simp add: d2_def d1_def io_frame_def)
  ultimately show ?thesis
    using c(3) by (auto simp: view_empty d2_def)
qed

end

end
