(* ===== verification/ScsiStick.thy ===== *)
theory ScsiStick
  imports ScsiIo ScsiDev
begin

text \<open>
  The driver's promises, stated over any stick that obeys \<open>bot_device\<close>, and a concrete stick
  that does: \<open>stick_usb\<close> decodes command block wrappers byte by byte and serves READ(10) and
  WRITE(10) from a medium of bytes. It instantiates the parameter \<open>'w usb\<close> in the witnesses.
\<close>

section \<open>A stick\<close>

datatype bot_phase = BotIdle | BotDataOut nat | BotDataIn nat nat | BotStatus | BotClosed

record stick =
  stick_phase :: bot_phase
  stick_medium :: medium

definition cbw_next_phase :: "bytes \<Rightarrow> bot_phase" where
  "cbw_next_phase cbw =
    (let opcode = cbw ! 15;
         lba = unat (rdbe32 (drop 17 cbw));
         n = unat (cbw ! 22) * 256 + unat (cbw ! 23)
     in if opcode = WRITE10 then BotDataOut (lba * 512)
        else if opcode = READ10 then BotDataIn (lba * 512) (n * 512)
        else BotStatus)"

definition stick_out :: "u8 \<Rightarrow> bytes \<Rightarrow> stick \<Rightarrow> int \<times> stick" where
  "stick_out ep data s = (case stick_phase s of
       BotIdle \<Rightarrow> (0, s\<lparr>stick_phase := cbw_next_phase data\<rparr>)
     | BotDataOut a \<Rightarrow>
         (0, s\<lparr>stick_phase := BotStatus, stick_medium := mwrite (stick_medium s) a data\<rparr>)
     | _ \<Rightarrow> (LIBUSB_ERROR_PIPE, s))"

definition stick_in :: "u8 \<Rightarrow> nat \<Rightarrow> stick \<Rightarrow> int \<times> bytes \<times> stick" where
  "stick_in ep len s = (case stick_phase s of
       BotDataIn a n \<Rightarrow> (0, take len (mread (stick_medium s) a n), s\<lparr>stick_phase := BotStatus\<rparr>)
     | BotStatus \<Rightarrow> (0, take len (le32 0x53425355 @ replicate 9 0), s\<lparr>stick_phase := BotIdle\<rparr>)
     | _ \<Rightarrow> (LIBUSB_ERROR_PIPE, [], s))"

definition stick_usb :: "stick usb" where
  "stick_usb = \<lparr>bulk_out = stick_out, bulk_in = stick_in, clear_halt = (\<lambda>_ s. s),
     auto_detach = (\<lambda>s. s), claim_interface = (\<lambda>_ s. s), malloc_ok = (\<lambda>_ _. True),
     libusb_close = (\<lambda>s. s\<lparr>stick_phase := BotClosed\<rparr>), libusb_exit = (\<lambda>s. s)\<rparr>"

definition stick_idle :: "stick \<Rightarrow> bool" where
  "stick_idle s \<longleftrightarrow> stick_phase s = BotIdle"

definition stick_drv :: "medium \<Rightarrow> stick drv" where
  "stick_drv m = \<lparr>g_usb_handle = True, g_ep_in = 0x81, g_ep_out = 0x02, g_tag = 1,
     g_sector_count = 65536, g_sector_size = 512, g_cur_pos = 0, g_drive_offset_sectors = 0,
     g_partition_sectors = 0, g_partition_type = 0, g_bounce_buffer = replicate 1048576 0,
     g_write_cache = None, g_cache_lba = 0, g_cache_sectors = 0, g_total_io_bytes = 0,
     g_last_log_io_bytes = 0, g_sync_cache_supported = True, g_errno = EOK,
     g_world = \<lparr>stick_phase = BotIdle, stick_medium = m\<rparr>\<rparr>"

lemma cbw_fields:
  assumes "length cmd = 10"
  shows "cbw_bytes tag len flags cmd ! 15 = cmd ! 0"
    "drop 17 (cbw_bytes tag len flags cmd) = drop 2 cmd @ replicate 6 0"
    "cbw_bytes tag len flags cmd ! 22 = cmd ! 7" "cbw_bytes tag len flags cmd ! 23 = cmd ! 8"
  using assms by (simp_all add: cbw_bytes_def nth_append)

lemma rdbe32_bytes:
  "rdbe32 (ucast (drop_bit 24 lba) # ucast (drop_bit 16 lba) # ucast (drop_bit 8 lba)
     # ucast lba # xs) = ucast (lba :: u64)"
proof (rule bit_word_eqI)
  fix i assume i: "i < LENGTH(32)"
  have "i < 8 \<or> 8 \<le> i \<and> i < 16 \<or> 16 \<le> i \<and> i < 24 \<or> 24 \<le> i" by arith
  with i show "bit (rdbe32 (ucast (drop_bit 24 lba) # ucast (drop_bit 16 lba)
      # ucast (drop_bit 8 lba) # ucast lba # xs)) i = bit (ucast lba :: u32) i"
    by (elim disjE) (auto simp: rdbe32_def bit_simps less_diff_conv2)
qed

lemma rdbe32_cdb10:
  assumes "unat lba < 2 ^ 32"
  shows "unat (rdbe32 (drop 2 (cdb10 opcode lba n) @ xs)) = unat lba"
  using assms by (simp add: cdb10_def rdbe32_bytes unsigned_ucast_eq take_bit_nat_eq_self)

lemma cdb10_count:
  assumes "unat (n :: u32) \<le> 2048"
  shows "unat (cdb10 opcode lba n ! 7) * 256 + unat (cdb10 opcode lba n ! 8) = unat n"
proof -
  have "unat (ucast (drop_bit 8 n) :: u8) = unat n div 256"
    using assms
    by (simp add: unsigned_ucast_eq unsigned_drop_bit_eq drop_bit_eq_div take_bit_eq_mod unat_div)
  moreover have "unat (ucast n :: u8) = unat n mod 256"
    by (simp add: unsigned_ucast_eq take_bit_eq_mod)
  ultimately show ?thesis by (simp add: cdb10_def)
qed

lemma cbw_next_phase_cdb10:
  assumes "unat lba < 2 ^ 32" "unat n \<le> 2048"
  shows "cbw_next_phase (cbw_bytes tag len flags (cdb10 WRITE10 lba n)) = BotDataOut (unat lba * 512)"
    "cbw_next_phase (cbw_bytes tag len flags (cdb10 READ10 lba n))
      = BotDataIn (unat lba * 512) (unat n * 512)"
proof -
  have "length (cdb10 opcode lba n) = 10" for opcode by (simp add: cdb10_def)
  then show "cbw_next_phase (cbw_bytes tag len flags (cdb10 WRITE10 lba n))
      = BotDataOut (unat lba * 512)"
    "cbw_next_phase (cbw_bytes tag len flags (cdb10 READ10 lba n))
      = BotDataIn (unat lba * 512) (unat n * 512)"
    using rdbe32_cdb10 [OF assms(1)] cdb10_count [OF assms(2)]
    by (simp_all add: cbw_next_phase_def cbw_fields Let_def)
qed

interpretation stick: bot_device stick_usb stick_medium stick_idle "2 ^ 32" "0x81" "0x02"
proof unfold_locales
  fix w :: stick and n :: u32 and lba :: u64 and data :: bytes and tag :: u32
  assume h: "stick_idle w" "n \<noteq> 0" "unat n \<le> 2048" "unat lba + unat n \<le> 2 ^ 32"
  have n0: "0 < unat n" using h(2) by (simp add: unat_gt_0)
  then have lba: "unat lba < 2 ^ 32" using h(4) by linarith
  note ph = cbw_next_phase_cdb10 [OF lba h(3)]
  show "\<exists>w1 w2 w3 csw. bulk_out stick_usb 0x02
        (cbw_bytes tag (n * 512) 0 (cdb10 WRITE10 lba n)) w = (0, w1)
      \<and> bulk_out stick_usb 0x02 data w1 = (0, w2) \<and> bulk_in stick_usb 0x81 13 w2 = (0, csw, w3)
      \<and> length csw = 13 \<and> csw_status csw = 0 \<and> stick_idle w3
      \<and> stick_medium w3 = mwrite (stick_medium w) (unat lba * 512) data"
    using h by (simp add: stick_usb_def stick_out_def stick_in_def stick_idle_def ph csw_status_def
      nth_append)
  show "\<exists>w1 w2 w3 csw. bulk_out stick_usb 0x02
        (cbw_bytes tag (n * 512) 0x80 (cdb10 READ10 lba n)) w = (0, w1)
      \<and> bulk_in stick_usb 0x81 (unat n * 512) w1
          = (0, mread (stick_medium w) (unat lba * 512) (unat n * 512), w2)
      \<and> bulk_in stick_usb 0x81 13 w2 = (0, csw, w3)
      \<and> length csw = 13 \<and> csw_status csw = 0 \<and> stick_idle w3 \<and> stick_medium w3 = stick_medium w"
    using h by (simp add: stick_usb_def stick_out_def stick_in_def stick_idle_def ph csw_status_def
      nth_append)
next
  fix w :: stick and tag :: u32
  assume "stick_idle w"
  moreover have "cbw_next_phase (cbw_bytes tag 0 0 sync_cmd) = BotStatus"
    by (simp add: cbw_next_phase_def cbw_fields sync_cmd_def Let_def)
  ultimately show "\<exists>w1 w2 csw. bulk_out stick_usb 0x02 (cbw_bytes tag 0 0 sync_cmd) w = (0, w1)
      \<and> bulk_in stick_usb 0x81 13 w1 = (0, csw, w2)
      \<and> length csw = 13 \<and> stick_idle w2 \<and> stick_medium w2 = stick_medium w"
    by (simp add: stick_usb_def stick_out_def stick_in_def stick_idle_def)
qed (simp_all add: stick_usb_def)

lemma stick_inv:
  "disk_inv stick_idle (2 ^ 32) 0x81 0x02 (stick_drv m)" "disk_view stick_medium (stick_drv m) = m"
  by (simp_all add: disk_inv_def disk_view_def bound_to_def stick_drv_def stick_idle_def cache_wf_def)

lemma stick_actual_offset: "actual_offset (stick_drv m) off = off"
  by (simp add: actual_offset_def stick_drv_def)

end
