(* ===== verification/ScsiProps.thy ===== *)
theory ScsiProps
  imports ScsiStick
begin

text \<open>
  What the USB mass-storage driver of usb_scsi.cpp guarantees to its callers, over every stick
  that obeys \<open>bot_device\<close>; the witnesses run it on the stick of theory ScsiStick.
\<close>

section \<open>The contract\<close>

context bot_device
begin

lemma disk: "scsi_disk u store idle cap epi epo"
  by unfold_locales

end

lemmas dev_pwrite = scsi_disk.pwrite [OF bot_device.disk]
lemmas dev_pread = scsi_disk.pread [OF bot_device.disk]
lemmas dev_sync = scsi_disk.sync [OF bot_device.disk]

lemma stick_device: "bot_device stick_usb stick_medium stick_idle (2 ^ 32) 0x81 0x02"
  by (rule stick.bot_device_axioms)

lemma stick_cur_pos: "g_cur_pos (stick_drv m) = 0"
  by (simp add: stick_drv_def)

lemma actual_offset_frame: "io_frame d d' \<Longrightarrow> actual_offset d' off = actual_offset d off"
  by (simp add: actual_offset_def io_frame_fields)

lemma actual_offset_cur_pos [simp]:
  "actual_offset (d\<lparr>g_cur_pos := p\<rparr>) off = actual_offset d off"
  by (simp add: actual_offset_def)

lemma disk_cur_pos [simp]:
  "disk_inv idle cap epi epo (d\<lparr>g_cur_pos := p\<rparr>) = disk_inv idle cap epi epo d"
  "disk_view store (d\<lparr>g_cur_pos := p\<rparr>) = disk_view store d"
  by (simp_all add: disk_inv_def disk_view_def bound_to_def cache_wf_def cache_buf_def
    split: option.splits)

section \<open>Positioned writes and reads\<close>

text \<open>C7: On a stick that obeys the protocol, \<open>scsi_io_internal\<close> in the write direction returns
  after writing every byte asked for, and the flat medium the caller sees (the stick's sectors
  with the write cache laid over them) changes by exactly those bytes, wherever the range starts
  and ends within its first and last sectors; the driver's invariant is kept.\<close>

theorem pwrite_refines_flat_write:
  assumes "bot_device u store idle cap epi epo" "disk_inv idle cap epi epo d"
    "0 \<le> actual_offset d off" "length buf < 2 ^ 32"
    "actual_offset d off + int (length buf) \<le> int (cap * 512)"
  shows "\<exists>d'. scsi_pwrite u buf (int (length buf)) off d = Some (int (length buf), d')
    \<and> disk_inv idle cap epi epo d'
    \<and> disk_view store d' = mwrite (disk_view store d) (nat (actual_offset d off)) buf"
  using dev_pwrite [OF assms] by blast

lemma pwrite_refines_flat_write_witness:
  "\<exists>d'. scsi_pwrite stick_usb [1, 2, 3] 3 511 (stick_drv (\<lambda>_. 0)) = Some (3, d')
    \<and> disk_inv stick_idle (2 ^ 32) 0x81 0x02 d'
    \<and> disk_view stick_medium d' = mwrite (\<lambda>_. 0) 511 [1, 2, 3]"
  using pwrite_refines_flat_write [OF stick_device stick_inv(1), of "\<lambda>_. 0" 511 "[1, 2, 3]"]
  by (simp add: stick_inv stick_actual_offset)

text \<open>Reading returns, with every byte asked for, and the bytes are those of the flat medium:
  what an earlier write left in the cache is read back even though the stick does not have it
  yet. The medium does not change.\<close>

theorem pread_returns_flat_bytes:
  assumes "bot_device u store idle cap epi epo" "disk_inv idle cap epi epo d"
    "0 \<le> actual_offset d off" "length buf \<le> 2 ^ 31"
    "actual_offset d off + int (length buf) \<le> int (cap * 512)"
  shows "\<exists>d'. scsi_pread u buf (int (length buf)) off d
      = Some (int (length buf),
              mread (disk_view store d) (nat (actual_offset d off)) (length buf), d')
    \<and> disk_inv idle cap epi epo d' \<and> disk_view store d' = disk_view store d"
  using dev_pread [OF assms] by blast

lemma pread_returns_flat_bytes_witness:
  "\<exists>d'. scsi_pread stick_usb [0, 0, 0] 3 511 (stick_drv (\<lambda>i. if i = 512 then 5 else 0))
      = Some (3, [0, 5, 0], d')
    \<and> disk_inv stick_idle (2 ^ 32) 0x81 0x02 d' \<and> disk_view stick_medium d' = (\<lambda>i. if i = 512 then 5 else 0)"
  using pread_returns_flat_bytes [OF stick_device stick_inv(1),
    of "\<lambda>i. if i = 512 then 5 else 0" 511 "[0, 0, 0]"]
  by (simp add: stick_inv stick_actual_offset mread_def upt_rec)

text \<open>\<open>usb_scsi_sync\<close> makes every accepted write durable: it succeeds, the cache is empty
  afterwards, and the sectors of the stick itself then hold the flat medium.\<close>

theorem sync_makes_writes_durable:
  assumes "bot_device u store idle cap epi epo" "disk_inv idle cap epi epo d"
  shows "\<exists>d'. usb_scsi_sync u d = (0, d') \<and> disk_inv idle cap epi epo d'
    \<and> g_cache_sectors d' = 0 \<and> store (g_world d') = disk_view store d"
  using dev_sync [OF assms] by blast

lemma sync_makes_writes_durable_witness:
  "\<exists>d'. usb_scsi_sync stick_usb (stick_drv (\<lambda>_. 7)) = (0, d')
    \<and> disk_inv stick_idle (2 ^ 32) 0x81 0x02 d'
    \<and> g_cache_sectors d' = 0 \<and> stick_medium (g_world d') = (\<lambda>_. 7)"
  using sync_makes_writes_durable [OF stick_device stick_inv(1), of "\<lambda>_. 7"]
  by (simp add: stick_inv)

text \<open>Two writes to ranges that do not meet, then a read of the first range: the bytes of the
  first write come back, whatever the cache did with the second (joined it to the cached run,
  flushed the run and started a new one, or read, patched and wrote back a partial sector).\<close>

theorem write_write_read_back:
  assumes dev: "bot_device u store idle cap epi epo" and inv: "disk_inv idle cap epi epo d"
    and a: "0 \<le> actual_offset d a" "actual_offset d a + int (length xs) \<le> int (cap * 512)"
    and b: "0 \<le> actual_offset d b" "actual_offset d b + int (length ys) \<le> int (cap * 512)"
    and disj: "a + int (length xs) \<le> b \<or> b + int (length ys) \<le> a"
    and len: "length xs \<le> 2 ^ 31" "length ys < 2 ^ 32" "length buf = length xs"
  shows "\<exists>d1 d2 d3. scsi_pwrite u xs (int (length xs)) a d = Some (int (length xs), d1)
    \<and> scsi_pwrite u ys (int (length ys)) b d1 = Some (int (length ys), d2)
    \<and> scsi_pread u buf (int (length xs)) a d2 = Some (int (length xs), xs, d3)"
proof -
  obtain d1 where d1: "scsi_pwrite u xs (int (length xs)) a d = Some (int (length xs), d1)"
    "disk_inv idle cap epi epo d1" "io_frame d d1"
    "disk_view store d1 = mwrite (disk_view store d) (nat (actual_offset d a)) xs"
    using dev_pwrite [OF dev inv a(1) _ a(2)] len(1) by auto
  obtain d2 where d2: "scsi_pwrite u ys (int (length ys)) b d1 = Some (int (length ys), d2)"
    "disk_inv idle cap epi epo d2" "io_frame d1 d2"
    "disk_view store d2 = mwrite (disk_view store d1) (nat (actual_offset d b)) ys"
    using dev_pwrite [OF dev d1(2), of b ys] b len(2) actual_offset_frame [OF d1(3)] by auto
  have f: "io_frame d d2" using d1(3) d2(3) by (rule io_frame_trans)
  have "actual_offset d b = actual_offset d a + (b - a)" by (simp add: actual_offset_def)
  then have "nat (actual_offset d a) + length xs \<le> nat (actual_offset d b)
      \<or> nat (actual_offset d b) + length ys \<le> nat (actual_offset d a)"
    using a(1) b(1) disj by linarith
  then have "mread (disk_view store d2) (nat (actual_offset d a)) (length xs) = xs"
    using d1(4) d2(4) by (simp add: mread_mwrite_disjoint)
  moreover obtain d3 where "scsi_pread u buf (int (length buf)) a d2 = Some (int (length buf),
      mread (disk_view store d2) (nat (actual_offset d2 a)) (length buf), d3)"
    using dev_pread [OF dev d2(2), of a buf] a len actual_offset_frame [OF f] by auto
  ultimately show ?thesis
    using d1(1) d2(1) len(3) actual_offset_frame [OF f] by auto
qed

lemma write_write_read_back_witness:
  "\<exists>d1 d2 d3. scsi_pwrite stick_usb [1, 2] 2 600 (stick_drv (\<lambda>_. 0)) = Some (2, d1)
    \<and> scsi_pwrite stick_usb [9] 1 602 d1 = Some (1, d2)
    \<and> scsi_pread stick_usb [0, 0] 2 600 d2 = Some (2, [1, 2], d3)"
  using write_write_read_back [OF stick_device stick_inv(1), of "\<lambda>_. 0" 600 "[1, 2]" 602 "[9]" "[0, 0]"]
  by (simp add: stick_actual_offset)

section \<open>Sequential writes\<close>

text \<open>The device position behaves like a file offset: two sequential writes through
  \<open>usb_scsi_write_internal\<close> leave on the flat medium the two buffers one after the other from
  the old position, and move the position past both.\<close>

theorem sequential_writes_concatenate:
  assumes dev: "bot_device u store idle cap epi epo" and inv: "disk_inv idle cap epi epo d"
    and off: "0 \<le> actual_offset d (g_cur_pos d)"
    and room: "actual_offset d (g_cur_pos d) + int (length (xs @ ys)) \<le> int (cap * 512)"
    and len: "xs \<noteq> []" "ys \<noteq> []" "length xs < 2 ^ 32" "length ys < 2 ^ 32"
  shows "\<exists>d1 d2. usb_scsi_write_internal u xs (int (length xs)) d = Some (int (length xs), d1)
    \<and> usb_scsi_write_internal u ys (int (length ys)) d1 = Some (int (length ys), d2)
    \<and> g_cur_pos d2 = g_cur_pos d + int (length (xs @ ys))
    \<and> disk_view store d2 = mwrite (disk_view store d) (nat (actual_offset d (g_cur_pos d))) (xs @ ys)"
proof -
  obtain e1 where e1: "scsi_pwrite u xs (int (length xs)) (g_cur_pos d) d
      = Some (int (length xs), e1)" "disk_inv idle cap epi epo e1" "io_frame d e1"
    "disk_view store e1 = mwrite (disk_view store d) (nat (actual_offset d (g_cur_pos d))) xs"
    using dev_pwrite [OF dev inv off len(3)] room by auto
  define d1 where "d1 = e1\<lparr>g_cur_pos := g_cur_pos d + int (length xs)\<rparr>"
  have w1: "usb_scsi_write_internal u xs (int (length xs)) d = Some (int (length xs), d1)"
    using e1 len(1) by (simp add: usb_scsi_write_internal_def d1_def io_frame_fields)
  have a: "actual_offset d1 (g_cur_pos d1) = actual_offset d (g_cur_pos d) + int (length xs)"
    using actual_offset_frame [OF e1(3)] by (simp add: d1_def actual_offset_def)
  have i1: "disk_inv idle cap epi epo d1" and v1: "disk_view store d1 = disk_view store e1"
    using e1(2) by (simp_all add: d1_def)
  obtain e2 where e2: "scsi_pwrite u ys (int (length ys)) (g_cur_pos d1) d1
      = Some (int (length ys), e2)" "io_frame d1 e2"
    "disk_view store e2 = mwrite (disk_view store d1) (nat (actual_offset d1 (g_cur_pos d1))) ys"
    using dev_pwrite [OF dev i1 _ len(4), of "g_cur_pos d1"] a off room by auto
  define d2 where "d2 = e2\<lparr>g_cur_pos := g_cur_pos d1 + int (length ys)\<rparr>"
  have w2: "usb_scsi_write_internal u ys (int (length ys)) d1 = Some (int (length ys), d2)"
    using e2 len(2) by (simp add: usb_scsi_write_internal_def d2_def io_frame_fields)
  have "disk_view store d2
      = mwrite (disk_view store d) (nat (actual_offset d (g_cur_pos d))) (xs @ ys)"
    using e1(4) e2(3) a off v1 by (simp add: d2_def nat_add_distrib mwrite_append)
  then show ?thesis using w1 w2 by (auto simp: d2_def d1_def)
qed

lemma sequential_writes_concatenate_witness:
  "\<exists>d1 d2. usb_scsi_write_internal stick_usb [1] 1 (stick_drv (\<lambda>_. 0)) = Some (1, d1)
    \<and> usb_scsi_write_internal stick_usb [2, 3] 2 d1 = Some (2, d2)
    \<and> g_cur_pos d2 = 3 \<and> disk_view stick_medium d2 = mwrite (\<lambda>_. 0) 0 [1, 2, 3]"
  using sequential_writes_concatenate [OF stick_device stick_inv(1), of "\<lambda>_. 0" "[1]" "[2, 3]"]
  by (simp add: stick_inv stick_actual_offset stick_cur_pos)

section \<open>What goes wrong\<close>

lemma io_account_fields [simp]:
  "g_world (io_account n d) = g_world d" "g_cache_sectors (io_account n d) = g_cache_sectors d"
  "g_cache_lba (io_account n d) = g_cache_lba d" "g_write_cache (io_account n d) = g_write_cache d"
  by (simp_all add: io_account_def Let_def)

lemma write_loop_one_step:
  assumes "g_sector_size d \<noteq> 0" "0 < count"
    "scsi_write_step u base (word_of_int count) 0 buf d = (Some k, d')" "uint k = count"
  shows "scsi_write_loop u base count 0 buf d = Some (count, d')"
  using assms by (subst scsi_write_loop.simps) (simp add: scsi_write_loop.simps)

lemma restart_step:
  assumes "g_sector_size d = 512" "io_offset_in_sector d pos = 0"
    "\<not> cache_can_add d (io_lba d pos) 1" "scsi_flush_cache_internal u d = (r, d1)"
    "g_write_cache d1 = Some c"
  shows "scsi_write_step u pos 512 0 buf d = (Some 512,
    d1\<lparr>g_cache_lba := ucast (io_lba d pos), g_write_cache := Some (patch 0 (seg 0 512 buf) c),
       g_cache_sectors := 1\<rparr>)"
proof -
  have "(512 :: u32) div 512 = 1" by (simp add: word_div_def)
  then show ?thesis
    using assms by (simp add: scsi_write_step_def cache_buf_def)
qed

text \<open>C16: \<open>scsi_io_internal\<close> drops the result of \<open>scsi_flush_cache_internal\<close>, and that function
  empties the cache even when the WRITE(10) failed. So when the cached run cannot be written, a
  further write elsewhere reports that all its bytes were written, the state of the stick is the
  one after the failed command, and the cache now describes only the new sector: the run that
  had been accepted earlier is lost and no caller is told.\<close>

theorem failed_flush_is_not_reported:
  assumes d: "g_sector_size d = 512" "g_write_cache d = Some c" "g_cache_sectors d \<noteq> 0"
    and fail: "scsi_command u (cdb10 WRITE10 (g_cache_lba d) (g_cache_sectors d)) 0 (Some c)
      (g_cache_sectors d * 512) d = (-1, x, d1)"
    and pos: "io_offset_in_sector d (actual_offset d off) = 0"
      "\<not> cache_can_add d (io_lba d (actual_offset d off)) 1" and len: "length buf = 512"
  shows "\<exists>d'. scsi_pwrite u buf 512 off d = Some (512, d') \<and> g_world d' = g_world d1
    \<and> g_cache_sectors d' = 1 \<and> g_cache_lba d' = ucast (io_lba d (actual_offset d off))
    \<and> take 512 (cache_buf d') = buf"
proof -
  have c1: "g_write_cache d1 = Some c"
    using scsi_command_same_cache [OF fail] d(2) by (simp add: same_cache_def)
  have fl: "scsi_flush_cache_internal u d = (-1, d1\<lparr>g_cache_sectors := 0\<rparr>)"
    using d fail by (simp add: scsi_flush_cache_internal_def)
  define d2 where "d2 = (d1\<lparr>g_cache_sectors := 0\<rparr>)\<lparr>g_cache_lba := ucast (io_lba d (actual_offset d off)),
    g_write_cache := Some (patch 0 (seg 0 512 buf) c), g_cache_sectors := 1\<rparr>"
  have "scsi_write_step u (actual_offset d off) 512 0 buf d = (Some 512, d2)"
    unfolding d2_def by (rule restart_step [OF d(1) pos fl]) (simp add: c1)
  then have "scsi_write_loop u (actual_offset d off) 512 0 buf d = Some (512, d2)"
    using write_loop_one_step [of d 512 u "actual_offset d off" buf 512 d2] d(1) by simp
  then have "scsi_pwrite u buf 512 off d = Some (512, io_account 512 d2)"
    by (simp add: scsi_pwrite_def)
  moreover have "take 512 (cache_buf d2) = buf"
    using len by (simp add: d2_def cache_buf_def patch_def seg_def)
  ultimately show ?thesis by (simp add: d2_def cache_buf_def)
qed

definition dead_drv :: "unit drv" where
  "dead_drv = \<lparr>g_usb_handle = False, g_ep_in = 0x81, g_ep_out = 0x02, g_tag = 1,
     g_sector_count = 65536, g_sector_size = 512, g_cur_pos = 0, g_drive_offset_sectors = 0,
     g_partition_sectors = 0, g_partition_type = 0, g_bounce_buffer = [],
     g_write_cache = Some (replicate 512 9), g_cache_lba = 7, g_cache_sectors = 1,
     g_total_io_bytes = 0, g_last_log_io_bytes = 0, g_sync_cache_supported = True,
     g_errno = EOK, g_world = ()\<rparr>"

text \<open>The handle is gone, so no operation of \<open>dead_usb\<close> is ever called.\<close>

definition dead_usb :: "unit usb" where
  "dead_usb = \<lparr>bulk_out = (\<lambda>ep data w. (LIBUSB_ERROR_NO_DEVICE, w)),
     bulk_in = (\<lambda>ep n w. (LIBUSB_ERROR_NO_DEVICE, [], w)), clear_halt = (\<lambda>ep w. w),
     auto_detach = (\<lambda>w. w), claim_interface = (\<lambda>ep w. w), malloc_ok = (\<lambda>n w. True),
     libusb_close = (\<lambda>w. w), libusb_exit = (\<lambda>w. w)\<rparr>"

lemma dead_command:
  "cmd ! 0 \<noteq> 0x35 \<Longrightarrow> scsi_command u cmd dir data len dead_drv
    = (-1, data, dead_drv\<lparr>g_tag := 2, g_errno := ENODEV\<rparr>)"
  by (simp add: scsi_command_def usb_transfer_out_def dead_drv_def LIBUSB_ERROR_NO_DEVICE_def)

lemma failed_flush_is_not_reported_witness:
  "\<exists>d'. scsi_pwrite dead_usb (replicate 512 1) 512 0 dead_drv = Some (512, d') \<and> g_world d' = ()
    \<and> g_cache_sectors d' = 1 \<and> g_cache_lba d' = 0 \<and> take 512 (cache_buf d') = replicate 512 1"
  using failed_flush_is_not_reported [of dead_drv "replicate 512 9" dead_usb "Some (replicate 512 9)"
      "dead_drv\<lparr>g_tag := 2, g_errno := ENODEV\<rparr>" 0 "replicate 512 1"]
  by (simp add: dead_command, simp add: dead_drv_def io_offset_in_sector_def io_lba_def
      actual_offset_def cache_can_add_def)

text \<open>Plugging in another stick does not discard the write cache: \<open>usb_scsi_init\<close> resets the
  handle, the position and the partition window, but leaves the cached run (buffer, address and
  length) of the previous stick in place, ready to be flushed to the new one.\<close>

theorem init_keeps_stale_cache:
  "g_cache_sectors (usb_scsi_init u conf d) = g_cache_sectors d
    \<and> g_cache_lba (usb_scsi_init u conf d) = g_cache_lba d
    \<and> g_write_cache (usb_scsi_init u conf d) = g_write_cache d"
proof -
  have "same_cache d (usb_scsi_init u conf d)" by (rule usb_scsi_init_same_cache)
  then show ?thesis by (simp add: same_cache_def)
qed

lemma write_step_zero:
  "g_sector_size d \<noteq> 0 \<Longrightarrow> fst (scsi_write_step u pos 0 done buf d) \<in> {None, Some 0}"
  by (auto simp: scsi_write_step_def Let_def split: prod.splits if_splits)

lemma write_loop_4gib:
  assumes "scsi_write_loop u base count tdone buf d = Some r" "count - tdone = 2 ^ 32"
  shows "fst r = -1"
proof -
  have "count - tdone = 2 ^ 32 \<longrightarrow> fst r = -1"
  proof (rule scsi_write_loop.raw_induct [OF _ assms(1)])
    fix f :: "'a usb \<Rightarrow> int \<Rightarrow> int \<Rightarrow> int \<Rightarrow> bytes \<Rightarrow> 'a drv \<Rightarrow> (int \<times> 'a drv) option"
      and u :: "'a usb" and base count tdone buf d r
    assume ih: "\<And>u base count tdone buf d r. f u base count tdone buf d = Some r \<Longrightarrow>
        count - tdone = 2 ^ 32 \<longrightarrow> fst r = -1"
      and body: "(if tdone < count then
       if g_sector_size d = 0 then None
       else case scsi_write_step u (base + tdone) (word_of_int (count - tdone)) (nat tdone) buf d of
              (None, d') \<Rightarrow> Some (-1, d')
            | (Some k, d') \<Rightarrow> f u base count (tdone + uint k) buf d'
       else Some (tdone, d)) = Some r"
    show "count - tdone = 2 ^ 32 \<longrightarrow> fst r = -1"
    proof
      assume c: "count - tdone = 2 ^ 32"
      obtain o' d' where st: "scsi_write_step u (base + tdone) 0 (nat tdone) buf d = (o', d')"
        by fastforce
      have ss: "g_sector_size d \<noteq> 0" using body c by auto
      have "o' \<in> {None, Some 0}" using write_step_zero [OF ss, of u "base + tdone" "nat tdone" buf] st
        by simp
      moreover have z: "word_of_int (count - tdone) = (0 :: u32)" unfolding c by simp
      moreover have "f u base count tdone buf d' = Some r \<Longrightarrow> fst r = -1" for buf d' using ih c by blast
      ultimately show "fst r = -1"
        using body [unfolded z] c st ss by auto
    qed
  qed
  then show ?thesis using assms(2) by simp
qed

text \<open>C17: The remaining count is truncated to 32 bits inside the loop, so a single write of 4 GiB
  computes a chunk of zero bytes each time: whatever the stick does, the call either loops without
  returning or fails; it never reports the bytes written.\<close>

theorem write_of_4gib_never_succeeds:
  "case scsi_pwrite u buf (2 ^ 32) off d of None \<Rightarrow> True | Some (res, d') \<Rightarrow> res = -1"
  using write_loop_4gib [of u "actual_offset d off" "2 ^ 32" 0 buf d]
  by (auto simp: scsi_pwrite_def split: option.splits)

end
