(* ===== verification/ExfatBridge.thy ===== *)
theory ExfatBridge
  imports ExfatFaults ScsiProps
begin

text \<open>
  exfat_bridge.cpp: the exFAT formatter run on the USB driver. The bridge implements the device
  operations the engine calls with the driver's positioned writes and sets the parameters of
  \<open>mkfs\<close>. Its \<open>exfat_dev\<close> is the record \<open>'w bridge\<close>, together with the driver it uses.
\<close>

section \<open>The device operations\<close>

text \<open>\<open>br_hung\<close> records that a call of the driver did not return; what the model computes after
  that has no counterpart.\<close>

record 'w bridge =
  br_pos :: int
  br_drv :: "'w drv"
  br_hung :: bool

definition bridge_seek :: "int \<Rightarrow> 'w bridge \<Rightarrow> int \<times> 'w bridge" where
  "bridge_seek offset dev = (offset, dev\<lparr>br_pos := offset\<rparr>)"

definition bridge_write :: "'w usb \<Rightarrow> bytes \<Rightarrow> 'w bridge \<Rightarrow> int \<times> 'w bridge" where
  "bridge_write u buffer dev =
    (case scsi_pwrite u buffer (int (length buffer)) (br_pos dev) (br_drv dev) of
       None \<Rightarrow> (-1, dev\<lparr>br_hung := True\<rparr>)
     | Some (res, d) \<Rightarrow>
         (res, if res > 0 then dev\<lparr>br_pos := br_pos dev + res, br_drv := d\<rparr> else dev\<lparr>br_drv := d\<rparr>))"

definition bridge_fsync :: "'w bridge \<Rightarrow> int \<times> 'w bridge" where
  "bridge_fsync dev = (0, dev)"

definition bridge_io :: "'w usb \<Rightarrow> 'w bridge exfat_io" where
  "bridge_io u = \<lparr>exfat_seek = bridge_seek, exfat_write = bridge_write u,
     exfat_fsync = bridge_fsync, exfat_malloc = (\<lambda>n dev. malloc_ok u n (g_world (br_drv dev)))\<rparr>"

section \<open>The parameters\<close>

fun bits_loop :: "nat \<Rightarrow> nat \<Rightarrow> int \<Rightarrow> nat" where
  "bits_loop 0 bits user_defined = bits"
| "bits_loop (Suc fuel) bits user_defined =
    (if 2 ^ bits < user_defined then bits_loop fuel (bits + 1) user_defined else bits)"

text \<open>\<open>user_defined\<close> is an \<open>int\<close>, so 31 turns of the loop are enough.\<close>

definition setup_spc_bits :: "nat \<Rightarrow> int \<Rightarrow> int \<Rightarrow> nat" where
  "setup_spc_bits sector_bits user_defined volume_size =
    (if user_defined > 0 then bits_loop 31 0 user_defined
     else if volume_size < 256 * 1024 * 1024 then 12 - sector_bits else 15 - sector_bits)"

text \<open>
  The memory \<open>get_volume_label\<close> points to: the array of 16 units, cleared and then written by
  \<open>exfat_utf8_to_utf16\<close>, whose result the bridge ignores; behind it lie the serial number and
  four bytes of padding.
\<close>

definition label_memory :: "bytes \<Rightarrow> u32 \<Rightarrow> u16 list" where
  "label_memory label serial =
    take 16 (utf8_units label 16 @ replicate 16 0) @ [ucast serial, ucast (drop_bit 16 serial), 0]"

definition exfat_param :: "u32 \<Rightarrow> bytes \<Rightarrow> u32 \<Rightarrow> 'w drv \<Rightarrow> mkfs_param" where
  "exfat_param cluster_size label serial d =
    (let volume_size = sint (usb_scsi_get_usable_sectors d) * 512
     in \<lparr>p_sector_bits = 9,
         p_spc_bits = setup_spc_bits 9 (sint (cluster_size div 512)) volume_size,
         p_volume_size = volume_size, p_volume_label = label_memory label serial,
         p_volume_serial = serial, p_first_sector = 2048\<rparr>)"

text \<open>\<open>serial\<close> is the value of \<open>rand()\<close>; \<open>dev_ok\<close> says whether the \<open>exfat_dev\<close> could be
  allocated (the engine dereferences the pointer, so a null one has no further behaviour).\<close>

definition usb_scsi_format_exfat ::
  "'w usb \<Rightarrow> u32 \<Rightarrow> bytes \<Rightarrow> u32 \<Rightarrow> 'w drv \<Rightarrow> int \<times> 'w bridge" where
  "usb_scsi_format_exfat u cluster_size label serial d =
    (let p = exfat_param cluster_size label serial d
     in mkfs (bridge_io u) p (p_volume_size p) \<lparr>br_pos = 0, br_drv = d, br_hung = False\<rparr>)"

section \<open>The driver is a byte device\<close>

definition shifted :: "nat \<Rightarrow> medium \<Rightarrow> medium" where
  "shifted b m = (\<lambda>i. m (b + i))"

lemma shifted_mwrite: "shifted b (mwrite m (b + a) xs) = mwrite (shifted b m) a xs"
  by (rule ext) (simp add: shifted_def mwrite_def)

text \<open>The partition of \<open>len\<close> bytes with what lies before it on the stick put behind it: a view in
  which a write inside the partition visibly leaves the rest alone.\<close>

definition around :: "nat \<Rightarrow> nat \<Rightarrow> medium \<Rightarrow> medium" where
  "around base len m =
    (\<lambda>i. if i < len then m (base + i) else if i < len + base then m (i - len) else 0)"

lemma around_mwrite:
  "a + length xs \<le> len \<Longrightarrow> around base len (mwrite m (base + a) xs) = mwrite (around base len m) a xs"
  by (rule ext) (auto simp: around_def mwrite_def)

text \<open>The partition: \<open>len\<close> bytes of the stick from byte \<open>base\<close> on.\<close>

definition bridge_ready :: "('w \<Rightarrow> bool) \<Rightarrow> nat \<Rightarrow> u8 \<Rightarrow> u8 \<Rightarrow> nat \<Rightarrow> 'w bridge \<Rightarrow> bool" where
  "bridge_ready idle cap epi epo base dev \<longleftrightarrow> \<not> br_hung dev \<and> 0 \<le> br_pos dev
     \<and> disk_inv idle cap epi epo (br_drv dev) \<and> actual_offset (br_drv dev) 0 = int base"

definition bridge_pos :: "'w bridge \<Rightarrow> nat" where
  "bridge_pos dev = nat (br_pos dev)"

definition bridge_img :: "('w \<Rightarrow> medium) \<Rightarrow> nat \<Rightarrow> 'w bridge \<Rightarrow> medium" where
  "bridge_img store base dev = shifted base (disk_view store (br_drv dev))"

lemma actual_offset_shift: "actual_offset d off = off + actual_offset d 0"
  by (simp add: actual_offset_def)

locale partition_on_stick = bot_device +
  fixes base len :: nat
  assumes partition_fits: "base + len \<le> cap * 512"
begin

lemma offset_on_stick:
  "bridge_ready idle cap epi epo base dev
    \<Longrightarrow> actual_offset (br_drv dev) (br_pos dev) = int base + br_pos dev"
  using actual_offset_shift [of "br_drv dev" "br_pos dev"] by (simp add: bridge_ready_def)

lemma bridge_write_works:
  assumes r: "bridge_ready idle cap epi epo base dev" and l: "length bs < 2 ^ 31"
    and c: "bridge_pos dev + length bs \<le> len"
  shows "\<exists>dev'. bridge_write u bs dev = (int (length bs), dev')
    \<and> bridge_ready idle cap epi epo base dev' \<and> bridge_pos dev' = bridge_pos dev + length bs
    \<and> bridge_img store base dev' = mwrite (bridge_img store base dev) (bridge_pos dev) bs
    \<and> disk_view store (br_drv dev') = mwrite (disk_view store (br_drv dev)) (base + bridge_pos dev) bs"
proof -
  have p0: "0 \<le> br_pos dev" and inv: "disk_inv idle cap epi epo (br_drv dev)"
    using r by (simp_all add: bridge_ready_def)
  have off: "actual_offset (br_drv dev) (br_pos dev) = int base + br_pos dev"
    by (rule offset_on_stick [OF r])
  have fit: "int base + br_pos dev + int (length bs) \<le> int (cap * 512)"
    using partition_fits c p0 by (simp add: bridge_pos_def)
  obtain d where d: "scsi_pwrite u bs (int (length bs)) (br_pos dev) (br_drv dev)
      = Some (int (length bs), d)" "disk_inv idle cap epi epo d"
    "disk_view store d = mwrite (disk_view store (br_drv dev)) (nat (int base + br_pos dev)) bs"
    "io_frame (br_drv dev) d"
    using dev_pwrite [OF bot_device_axioms inv, of "br_pos dev" bs] off p0 l fit by auto
  have at: "nat (int base + br_pos dev) = base + bridge_pos dev"
    using p0 by (simp add: bridge_pos_def nat_add_distrib)
  then have v: "shifted base (disk_view store d)
      = mwrite (bridge_img store base dev) (bridge_pos dev) bs"
    unfolding d(3) by (simp add: bridge_img_def shifted_mwrite)
  have a: "actual_offset d 0 = int base"
    using r actual_offset_frame [OF d(4)] by (simp add: bridge_ready_def)
  show ?thesis
  proof (cases "bs = []")
    case True
    then show ?thesis
      using d r v a at by (simp add: bridge_write_def bridge_ready_def bridge_pos_def bridge_img_def)
  next
    case False
    then show ?thesis
      using d r v a p0 at
      by (simp add: bridge_write_def bridge_ready_def bridge_pos_def bridge_img_def nat_add_distrib)
  qed
qed

end

sublocale partition_on_stick \<subseteq> byte_device "bridge_io u" "bridge_ready idle cap epi epo base"
  bridge_pos "bridge_img store base" len
proof unfold_locales
  show "\<exists>d'. exfat_write (bridge_io u) bs d = (int (length bs), d')
      \<and> bridge_ready idle cap epi epo base d' \<and> bridge_pos d' = bridge_pos d + length bs
      \<and> bridge_img store base d' = mwrite (bridge_img store base d) (bridge_pos d) bs"
    if "bridge_ready idle cap epi epo base d" "length bs < 2 ^ 31" "bridge_pos d + length bs \<le> len" for d bs
    using bridge_write_works [OF that] by (auto simp: bridge_io_def)
qed (auto simp: bridge_io_def bridge_seek_def bridge_fsync_def bridge_ready_def bridge_pos_def
    bridge_img_def malloc_succeeds)

context partition_on_stick
begin

lemma device_around: "byte_device (bridge_io u) (bridge_ready idle cap epi epo base) bridge_pos
    (\<lambda>dev. around base len (disk_view store (br_drv dev))) len"
proof unfold_locales
  show "\<exists>d'. exfat_write (bridge_io u) bs d = (int (length bs), d')
      \<and> bridge_ready idle cap epi epo base d' \<and> bridge_pos d' = bridge_pos d + length bs
      \<and> around base len (disk_view store (br_drv d'))
        = mwrite (around base len (disk_view store (br_drv d))) (bridge_pos d) bs"
    if "bridge_ready idle cap epi epo base d" "length bs < 2 ^ 31" "bridge_pos d + length bs \<le> len" for d bs
    using bridge_write_works [OF that] that(3) by (auto simp: bridge_io_def around_mwrite)
qed (auto simp: bridge_io_def bridge_seek_def bridge_fsync_def bridge_ready_def bridge_pos_def
    malloc_succeeds)

lemma device: "byte_device (bridge_io u) (bridge_ready idle cap epi epo base) bridge_pos
    (bridge_img store base) len"
  by unfold_locales

end

interpretation stick_volume: partition_on_stick stick_usb stick_medium stick_idle "2 ^ 32" "0x81" "0x02"
  "2097152" "134217728"
  by unfold_locales simp

lemma format_exfat_on:
  assumes dev: "bot_device u store idle cap epi epo" and inv: "disk_inv idle cap epi epo d"
    and base: "actual_offset d 0 = int base" "base + len \<le> cap * 512"
    and p: "p = exfat_param cs label serial d"
    and wf: "mkfs_wf p" and ck: "check_size p (p_volume_size p) = 0"
    and fit: "p_volume_size p \<le> int len"
  shows "\<exists>dev'. usb_scsi_format_exfat u cs label serial d = (0, dev') \<and> \<not> br_hung dev'
    \<and> disk_inv idle cap epi epo (br_drv dev') \<and> actual_offset (br_drv dev') 0 = int base
    \<and> shifted base (disk_view store (br_drv dev')) = mkfs_image p (shifted base (disk_view store d))
    \<and> (\<forall>i<base. disk_view store (br_drv dev') i = disk_view store d i)"
proof -
  have loc: "partition_on_stick u store idle cap epi epo base len"
    using dev base(2) by (simp add: partition_on_stick_def partition_on_stick_axioms_def)
  have lb: "15 \<le> length (p_volume_label p)"
    by (simp add: p exfat_param_def Let_def label_memory_def)
  define d0 where "d0 = \<lparr>br_pos = 0, br_drv = d, br_hung = False\<rparr>"
  have r: "bridge_ready idle cap epi epo base d0"
    using inv base(1) by (simp add: bridge_ready_def d0_def)
  obtain dev' where d': "mkfs (bridge_io u) p (p_volume_size p) d0 = (0, dev')"
    "bridge_ready idle cap epi epo base dev'"
    "shifted base (disk_view store (br_drv dev')) = mkfs_image p (shifted base (disk_view store d))"
    using mkfs_writes_image_on [OF partition_on_stick.device [OF loc] r wf ck lb fit]
    by (auto simp: bridge_img_def d0_def)
  have ar: "around base len (disk_view store (br_drv dev')) = mkfs_image p (around base len (disk_view store d))"
    using mkfs_writes_image_on [OF partition_on_stick.device_around [OF loc] r wf ck lb fit] d'(1)
    by (auto simp: d0_def)
  have "disk_view store (br_drv dev') i = disk_view store d i" if i: "i < base" for i
    using fun_cong [OF ar, of "len + i"] mkfs_image_outside [OF wf ck lb, of "len + i"] fit i
    by (simp add: around_def)
  then show ?thesis
    using d' by (auto simp: usb_scsi_format_exfat_def p [symmetric] d0_def [symmetric] bridge_ready_def)
qed

section \<open>Properties\<close>

lemma label_memory_length: "length (label_memory label serial) = 19"
  by (simp add: label_memory_def)

text \<open>C8: End to end: formatting a partition of a working stick as exFAT succeeds and returns,
  and the partition, seen through the driver's cache, then holds exactly the image of \<open>mkfs\<close> for
  the parameters the bridge chose.\<close>

theorem format_exfat_writes_partition:
  assumes dev: "bot_device u store idle cap epi epo" and inv: "disk_inv idle cap epi epo d"
    and base: "actual_offset d 0 = int base" "base + len \<le> cap * 512"
    and wf: "mkfs_wf (exfat_param cs label serial d)"
    and ck: "check_size (exfat_param cs label serial d) (p_volume_size (exfat_param cs label serial d)) = 0"
    and fit: "p_volume_size (exfat_param cs label serial d) \<le> int len"
  shows "\<exists>dev'. usb_scsi_format_exfat u cs label serial d = (0, dev') \<and> \<not> br_hung dev'
    \<and> disk_inv idle cap epi epo (br_drv dev')
    \<and> shifted base (disk_view store (br_drv dev'))
      = mkfs_image (exfat_param cs label serial d) (shifted base (disk_view store d))"
  using format_exfat_on [OF dev inv base refl wf ck fit] by blast

text \<open>A stick with a partition of 64 MB behind its first 2 MB.\<close>

definition part_drv :: "medium \<Rightarrow> stick drv" where
  "part_drv m = (stick_drv m)\<lparr>g_drive_offset_sectors := 4096, g_partition_sectors := 131072\<rparr>"

lemma part_drv_inv:
  "disk_inv stick_idle (2 ^ 32) 0x81 0x02 (part_drv m)" "disk_view stick_medium (part_drv m) = m"
  "actual_offset (part_drv m) 0 = int 2097152"
  by (simp_all add: part_drv_def disk_inv_def disk_view_def bound_to_def stick_drv_def
      stick_idle_def cache_wf_def actual_offset_def)

lemma part_param:
  "exfat_param 4096 [0x55] 7 (part_drv m) = \<lparr>p_sector_bits = 9, p_spc_bits = 3,
     p_volume_size = 67108864, p_volume_label = label_memory [0x55] 7, p_volume_serial = 7,
     p_first_sector = 2048\<rparr>"
proof -
  have "usb_scsi_get_usable_sectors (part_drv m) = 131072"
    by (simp add: usb_scsi_get_usable_sectors_def part_drv_def stick_drv_def)
  moreover have "setup_spc_bits 9 8 67108864 = 3"
    by (simp add: setup_spc_bits_def eval_nat_numeral)
  ultimately show ?thesis by (simp add: exfat_param_def)
qed

lemma volume_64mb_ok:
  assumes p: "p_sector_bits p = 9" "p_spc_bits p = 3" "p_volume_size p = 67108864"
  shows "get_cluster_size p = 4096" "mkfs_wf p" "check_size p (p_volume_size p) = 0"
proof -
  have sz: "get_cluster_size p = 4096" "heap_start p = 131072"
    by (simp_all add: p get_cluster_size_def get_sector_size_def clusters_def
        heap_start_def ROUND_UP_def DIV_ROUND_UP_def cdiv_simps)
  show wf: "mkfs_wf p" using sz(1) by (simp add: mkfs_wf_def p)
  have "cbm_size p = 2044" using sizes(3) [OF wf] by (simp add: sz p DIV_ROUND_UP_def cdiv_simps)
  then show "check_size p (p_volume_size p) = 0"
    by (simp add: check_size_def check_position_eq [OF wf] sz p ROUND_UP_def DIV_ROUND_UP_def cdiv_simps)
  show "get_cluster_size p = 4096" by (rule sz(1))
qed

lemma part_param_ok:
  "get_cluster_size (exfat_param 4096 [0x55] 7 (part_drv m)) = 4096"
  "mkfs_wf (exfat_param 4096 [0x55] 7 (part_drv m))"
  "check_size (exfat_param 4096 [0x55] 7 (part_drv m))
     (p_volume_size (exfat_param 4096 [0x55] 7 (part_drv m))) = 0"
  using volume_64mb_ok [of "exfat_param 4096 [0x55] 7 (part_drv m)"] by (simp_all add: part_param)

lemma format_exfat_writes_partition_witness:
  "\<exists>dev'. usb_scsi_format_exfat stick_usb 4096 [0x55] 7 (part_drv (\<lambda>_. 9)) = (0, dev')
    \<and> \<not> br_hung dev'
    \<and> disk_inv stick_idle (2 ^ 32) 0x81 0x02 (br_drv dev')
    \<and> shifted 2097152 (disk_view stick_medium (br_drv dev'))
      = mkfs_image (exfat_param 4096 [0x55] 7 (part_drv (\<lambda>_. 9))) (shifted 2097152 (\<lambda>_. 9))"
  using format_exfat_writes_partition [OF stick_device part_drv_inv(1,3) _ part_param_ok(2,3), of 134217728]
  by (simp add: part_param part_drv_inv)

end
