(* ===== verification/FormatApp.thy ===== *)
theory FormatApp
  imports FatFormat FormatBridges ExfatBridge
begin

text \<open>
  native-lib.cpp: \<open>startStableFormat\<close>, the operation the app calls to format a stick. It binds the
  driver to the stick, decides the size of the partition, erases old tables, writes the new one,
  erases the head of the partition, runs the formatter of the file system asked for, flushes
  the write cache, closes the device and leaves libusb. The formatters other than exFAT and FAT are the parameter \<open>engines\<close>, run through their
  bridges where they have one; reports to the user interface leave the driver alone and are not modelled.
\<close>

section \<open>The other formatters\<close>

record 'w engines =
  mkntfs_main :: "string list \<Rightarrow> 'w drv \<Rightarrow> (int \<times> 'w drv) option"
  mke2fs_main :: "'w engine"
  f2fs_format_main :: "'w engine"
  udf_format_main :: "'w engine"
  xfs_mkfs_main :: "u64 \<Rightarrow> 'w engine"

definition mkntfs_args :: "int \<Rightarrow> int \<Rightarrow> u64 \<Rightarrow> string list" where
  "mkntfs_args partitionType clusterSize part_sectors =
    [''mkntfs'', ''-f'', ''-F'', ''-v'', ''-L'', ''USB_DISK'']
    @ (if partitionType > 0 then [''-p'', ''4096''] else [])
    @ (if clusterSize > 0 then [''-c'', decimal (nat clusterSize)] else [])
    @ [''usb_device'', decimal (unat part_sectors)]"

definition mke2fs_args :: "int \<Rightarrow> u64 \<Rightarrow> string list" where
  "mke2fs_args fsType part_sectors =
    [''mke2fs'', ''-F'', ''-v'', ''-E'', ''lazy_itable_init=0,lazy_journal_init=0,root_perms=0777'', ''-O'',
     if fsType = 7 then ''64bit,extents,flex_bg,metadata_csum,has_journal,^uninit_bg''
     else if fsType = 6 then ''has_journal,^uninit_bg'' else ''^uninit_bg'']
    @ (if fsType = 5 then [''-t'', ''ext2''] else if fsType = 6 then [''-t'', ''ext3'']
       else if fsType = 7 then [''-t'', ''ext4''] else [])
    @ [''-m'', ''0'', ''-L'', ''USB_DISK'', ''-b'', ''4096'', ''usb_device'',
       decimal (unat (part_sectors div 8))]"

text \<open>\<open>mke2fs\<close> returns or calls \<open>exit\<close>, which \<open>mke2fs_exit\<close> turns into a \<open>longjmp\<close>.\<close>

definition mke2fs_exit :: "int \<Rightarrow> int" where
  "mke2fs_exit status = (if status \<noteq> 0 then status else -1)"

definition mke2fs_result :: "engine_end \<Rightarrow> int" where
  "mke2fs_result r = (case r of EngineReturned res \<Rightarrow> res
     | EngineExited status \<Rightarrow> let exit_code = mke2fs_exit status in if exit_code = -1 then 0 else exit_code)"

section \<open>The size of the partition\<close>

definition table_offset :: "int \<Rightarrow> u64" where
  "table_offset partitionType = (if partitionType > 0 then 4096 else 0)"

definition table_reserved_end :: "int \<Rightarrow> u64" where
  "table_reserved_end partitionType = (if partitionType = 2 then 34 else 0)"

text \<open>\<open>0\<close> is no limit.\<close>

definition fs_cap_sectors :: "int \<Rightarrow> int \<Rightarrow> u64" where
  "fs_cap_sectors fsType clusterSize =
    (if fsType = 3 then 65535
     else if fsType = 2 then
       let effCluster = (if clusterSize \<noteq> 0 then word_of_int clusterSize else 32768) :: u32
       in 65524 * ucast (effCluster div 512)
     else 0)"

text \<open>\<open>None\<close> when the stick is too small.\<close>

definition choose_part_sectors :: "u64 \<Rightarrow> int \<Rightarrow> int \<Rightarrow> int \<Rightarrow> u64 option" where
  "choose_part_sectors disk_sectors partitionType fsType clusterSize =
    (let offset = table_offset partitionType; reserved_end = table_reserved_end partitionType
     in if disk_sectors \<le> offset + reserved_end then None
     else let max_usable = disk_sectors - offset - reserved_end;
              fs_cap = fs_cap_sectors fsType clusterSize
     in Some (if fs_cap > 0 \<and> fs_cap < max_usable then fs_cap else max_usable))"

definition mbr_partition_id :: "int \<Rightarrow> int \<Rightarrow> u8" where
  "mbr_partition_id partitionType fsType =
    (if fsType = 0 \<or> fsType = 4 \<or> fsType = 9 then 0x07
     else if fsType = 1 then (if partitionType = 1 then 0x0c else 0x0b)
     else if fsType = 2 then (if partitionType = 1 then 0x0e else 0x06)
     else if fsType = 3 then 0x01 else 0x83)"

section \<open>The run\<close>

text \<open>"Creating partition": the table, the window, the head. The results of the calls are not
  looked at.\<close>

definition create_partition ::
  "'w usb \<Rightarrow> (nat \<Rightarrow> u8) \<Rightarrow> int \<Rightarrow> int \<Rightarrow> u64 \<Rightarrow> 'w drv \<Rightarrow> 'w drv option" where
  "create_partition u rnd partitionType fsType part_sectors d =
    (let d = (if partitionType = 1
              then snd (usb_scsi_write_mbr u part_sectors (mbr_partition_id partitionType fsType) d)
              else if partitionType = 2 then snd (usb_scsi_write_gpt u rnd part_sectors fsType d)
              else d);
         d = usb_scsi_set_partition_offset
               (if partitionType = 1 \<or> partitionType = 2 then 4096 else 0) d;
         d = usb_scsi_set_partition_size part_sectors d
     in map_option snd (usb_scsi_wipe_partition_head u fsType d))"

text \<open>"USB_DISK".\<close>

definition usb_disk_label :: bytes where
  "usb_disk_label = [0x55, 0x53, 0x42, 0x5f, 0x44, 0x49, 0x53, 0x4b]"

definition run_formatter ::
  "'w usb \<Rightarrow> 'w engines \<Rightarrow> u32 \<Rightarrow> bytes \<Rightarrow> int \<Rightarrow> int \<Rightarrow> int \<Rightarrow> u64 \<Rightarrow> 'w drv \<Rightarrow> (int \<times> 'w drv) option" where
  "run_formatter u engines serial mbr clusterSize partitionType fsType part_sectors d =
    (if fsType = 0 then
       map_option (\<lambda>(r, d). (r, snd (usb_scsi_sync u d)))
         (mkntfs_main engines (mkntfs_args partitionType clusterSize part_sectors) d)
     else if fsType = 4 then
       let (r, dev) = usb_scsi_format_exfat u (word_of_int clusterSize) usb_disk_label serial d
       in if br_hung dev then None else Some (r, br_drv dev)
     else if 5 \<le> fsType \<and> fsType \<le> 7 then
       map_option (\<lambda>(r, d). (mke2fs_result r, snd (usb_scsi_sync u d)))
         (mke2fs_main engines (mke2fs_args fsType part_sectors) (snd (usb_scsi_sync u d)))
     else if fsType = 8 then
       startF2FSFormat_Internal u (f2fs_format_main engines) part_sectors ''USB_DISK'' d
     else if fsType = 9 then startUDFFormat_Internal u (udf_format_main engines) part_sectors ''USB_DISK'' d
     else if fsType = 10 then startXFSFormat_Internal u (xfs_mkfs_main engines) part_sectors ''USB_DISK'' d
     else usb_scsi_format_fat u serial mbr fsType (word_of_int clusterSize) usb_disk_label d)"

text \<open>How far libusb gets: it cannot be initialised, it does not take the file descriptor, or it has
  the device. \<open>conf\<close> is what it reports about the device; \<open>None\<close> is a run that does not return. Every
  return after the device was taken closes it and leaves libusb; \<open>g_usb_handle\<close> is not reset, so the
  driver keeps a handle that is no longer valid until the next \<open>usb_scsi_init\<close>.\<close>

datatype usb_start = InitFailed | WrapFailed | Acquired

definition leave_libusb :: "'w usb \<Rightarrow> 'w drv \<Rightarrow> 'w drv" where
  "leave_libusb u d = d\<lparr>g_world := libusb_exit u (libusb_close u (g_world d))\<rparr>"

definition startStableFormat ::
  "'w usb \<Rightarrow> 'w engines \<Rightarrow> usb_start \<Rightarrow> iface list option \<Rightarrow> (nat \<Rightarrow> u8) \<Rightarrow> u32 \<Rightarrow> bytes
     \<Rightarrow> int \<Rightarrow> int \<Rightarrow> int \<Rightarrow> 'w drv \<Rightarrow> (bool \<times> 'w drv) option" where
  "startStableFormat u engines usb conf rnd serial mbr clusterSize partitionType fsType d =
    (case usb of
       InitFailed \<Rightarrow> Some (False, d)
     | WrapFailed \<Rightarrow> Some (False, d\<lparr>g_world := libusb_exit u (g_world d)\<rparr>)
     | Acquired \<Rightarrow>
         let d = usb_scsi_init u conf d
         in case choose_part_sectors (g_sector_count d) partitionType fsType clusterSize of
           None \<Rightarrow> Some (False, leave_libusb u d)
         | Some part_sectors \<Rightarrow>
            (case usb_scsi_wipe_mbr u (usb_scsi_set_partition_type partitionType d) of
               None \<Rightarrow> None
             | Some (_, d) \<Rightarrow>
                (case create_partition u rnd partitionType fsType part_sectors (snd (usb_scsi_wipe_tail u d)) of
                   None \<Rightarrow> None
                 | Some d \<Rightarrow>
                    (case run_formatter u engines serial mbr clusterSize partitionType fsType part_sectors d of
                       None \<Rightarrow> None
                     | Some (formatRes, d) \<Rightarrow>
                         Some (formatRes = 0, leave_libusb u (snd (usb_scsi_sync u d)))))))"

end
