(* ===== verification/PartitionSpec.thy ===== *)
theory PartitionSpec
  imports Partition ScsiProps
begin

text \<open>
  What the partition tables promise: the CRC of the code is the CRC-32 of the standard, a stick
  ends up with a table that a reader of the UEFI layout accepts, in both copies, and the erasing
  clears the sectors it names and no others. The commands bypass the write cache, so the lemmas
  are about drivers whose cache is empty.
\<close>

section \<open>The CRC bit by bit\<close>

text \<open>CRC-32 as ISO 3309 and the UEFI specification have it: a register of 32 bits, at first all
  ones, that the bits of the message are shifted into, the low bit of each byte first, with the
  generator \<open>x^32 + x^26 + x^23 + x^22 + x^16 + x^12 + x^11 + x^10 + x^8 + x^7 + x^5 + x^4 + x^2 + x
  + 1\<close>; the result is the complement of the register, its bits in reverse order.\<close>

definition crc_generator :: u32 where
  "crc_generator = (\<Sum>k\<leftarrow>[26, 23, 22, 16, 12, 11, 10, 8, 7, 5, 4, 2, 1, 0]. 2 ^ k)"

definition crc_shift_in :: "u32 \<Rightarrow> bool \<Rightarrow> u32" where
  "crc_shift_in c b = push_bit 1 c XOR (if bit c 31 \<noteq> b then crc_generator else 0)"

definition message_bits :: "bytes \<Rightarrow> bool list" where
  "message_bits buf = concat (map (\<lambda>b. map (bit b) [0..<8]) buf)"

definition reverse_bits :: "u32 \<Rightarrow> u32" where
  "reverse_bits c = horner_sum of_bool 2 (map (\<lambda>i. bit c (31 - i)) [0..<32])"

definition crc_ref :: "bytes \<Rightarrow> u32" where
  "crc_ref buf = NOT (reverse_bits (foldl crc_shift_in (NOT 0) (message_bits buf)))"

lemma bit_reverse_bits: "bit (reverse_bits c) i \<longleftrightarrow> i < 32 \<and> bit c (31 - i)"
  by (auto simp: reverse_bits_def bit_horner_sum_bit_word_iff)

text \<open>The register of the code holds the bits in reverse order and is shifted the other way.\<close>

definition crc_ref_byte :: "u32 \<Rightarrow> u8 \<Rightarrow> u32" where
  "crc_ref_byte crc b = (crc_step ^^ 8) (crc XOR ucast b)"

lemma crc_step_bit: "crc_step c = drop_bit 1 c XOR (if bit c 0 then 0xedb88320 else 0)"
  by (simp add: crc_step_def and_one_eq bit_0 odd_iff_mod_2_eq_one xor.commute)

lemma crc_step_xor: "crc_step (a XOR b) = crc_step a XOR crc_step b"
  by (cases "bit a 0"; cases "bit b 0")
    (simp_all add: crc_step_bit drop_bit_xor bit_xor_iff xor.assoc xor.commute xor.left_commute)

lemma crc_steps_xor: "(crc_step ^^ n) (a XOR b) = (crc_step ^^ n) a XOR (crc_step ^^ n) b"
  by (induction n) (simp_all add: crc_step_xor)

lemma crc_steps_shift:
  "(\<And>i. i < n \<Longrightarrow> \<not> bit c i) \<Longrightarrow> (crc_step ^^ n) c = drop_bit n c"
proof (induction n arbitrary: c)
  case (Suc n)
  have "\<not> bit c 0" using Suc.prems by simp
  then have c: "crc_step c = drop_bit 1 c" by (simp add: crc_step_bit)
  have "(crc_step ^^ n) (drop_bit 1 c) = drop_bit n (drop_bit 1 c)"
    by (rule Suc.IH) (use Suc.prems in \<open>simp add: bit_drop_bit_eq\<close>)
  then show ?case unfolding funpow_Suc_right comp_apply c by simp
qed simp

lemma crc32_byte_ref: "crc32_byte crc b = crc_ref_byte crc b"
proof -
  define x where "x = crc XOR ucast b"
  define lo hi where "lo = x AND 0xff" and "hi = x AND NOT 0xff"
  have x: "x = lo XOR hi"
    by (rule bit_word_eqI) (auto simp: lo_def hi_def bit_simps)
  have m: "(0xff :: u32) = mask 8" by (simp add: mask_eq_exp_minus_1)
  have u: "unat lo < 256"
    unfolding lo_def m using and_mask_less' [of 8 x] by (simp add: word_less_nat_alt)
  then have "crc32_table ! unat lo = (crc_step ^^ 8) lo" by (simp add: crc32_table_def)
  moreover have "(crc_step ^^ 8) hi = drop_bit 8 hi"
    by (rule crc_steps_shift) (simp add: hi_def m bit_simps)
  moreover have "drop_bit 8 hi = drop_bit 8 crc"
    by (rule bit_word_eqI) (auto simp: hi_def x_def m bit_simps dest: bit_imp_le_length)
  ultimately show ?thesis
    by (simp add: crc32_byte_def crc_ref_byte_def x_def [symmetric] lo_def [symmetric])
      (simp add: x crc_steps_xor)
qed

lemma crc_generator: "crc_generator = 0x04c11db7"
  by (simp add: crc_generator_def)

lemma reverse_generator: "reverse_bits crc_generator = 0xedb88320"
  unfolding crc_generator by code_simp

lemma reverse_shift_in:
  "reverse_bits (crc_shift_in c b)
    = drop_bit 1 (reverse_bits c) XOR (if bit (reverse_bits c) 0 \<noteq> b then 0xedb88320 else 0)"
proof -
  have x: "reverse_bits (a XOR b) = reverse_bits a XOR reverse_bits b" for a b
    by (rule bit_word_eqI) (auto simp: bit_reverse_bits bit_xor_iff)
  have "reverse_bits (push_bit 1 c) = drop_bit 1 (reverse_bits c)"
    by (rule bit_word_eqI, unfold bit_reverse_bits bit_drop_bit_eq comp_def bit_push_bit_iff) auto
  moreover have "reverse_bits 0 = 0" by (rule bit_word_eqI) (simp add: bit_reverse_bits)
  ultimately show ?thesis by (simp add: crc_shift_in_def x reverse_generator bit_reverse_bits)
qed

lemma reverse_shift_bits:
  assumes "\<And>i. n \<le> i \<Longrightarrow> \<not> bit x i"
  shows "reverse_bits (foldl crc_shift_in c (map (bit x) [0..<n])) = (crc_step ^^ n) (reverse_bits c XOR x)"
  using assms
proof (induction n arbitrary: c x)
  case 0
  then have "x = 0" by (intro bit_word_eqI) simp
  then show ?case by simp
next
  case (Suc n)
  have m: "map (bit x) [0..<Suc n] = bit x 0 # map (bit (drop_bit 1 x)) [0..<n]"
    by (simp add: upt_conv_Cons map_Suc_upt [symmetric] bit_drop_bit_eq comp_def del: upt_Suc)
  have "crc_step (reverse_bits c XOR x)
      = reverse_bits (crc_shift_in c (bit x 0)) XOR drop_bit 1 x"
    by (simp add: crc_step_bit reverse_shift_in drop_bit_xor bit_xor_iff xor.assoc xor.commute xor.left_commute)
  moreover have "reverse_bits (foldl crc_shift_in (crc_shift_in c (bit x 0)) (map (bit (drop_bit 1 x)) [0..<n]))
      = (crc_step ^^ n) (reverse_bits (crc_shift_in c (bit x 0)) XOR drop_bit 1 x)"
    by (rule Suc.IH) (use Suc.prems in \<open>simp add: bit_drop_bit_eq\<close>)
  ultimately show ?case unfolding m funpow_Suc_right comp_apply by simp
qed

lemma reverse_shift_byte:
  "reverse_bits (foldl crc_shift_in c (map (bit (b :: u8)) [0..<8])) = crc_ref_byte (reverse_bits c) b"
proof -
  have "map (bit b) [0..<8] = map (bit (ucast b :: u32)) [0..<8]"
    by (simp add: bit_unsigned_iff)
  moreover have x: "\<not> bit (ucast b :: u32) i" if "8 \<le> i" for i
    using that by (auto simp: bit_unsigned_iff dest: bit_imp_le_length)
  ultimately show ?thesis
    using reverse_shift_bits [where n = 8 and x = "ucast b" and c = c, OF x] by (simp only: crc_ref_byte_def)
qed

lemma crc_ref_bytes: "crc_ref buf = NOT (foldl crc_ref_byte (NOT 0) buf)"
proof -
  have "reverse_bits (foldl crc_shift_in c (message_bits buf)) = foldl crc_ref_byte (reverse_bits c) buf" for c
    by (induction buf arbitrary: c) (simp_all add: message_bits_def reverse_shift_byte del: upt_rec_numeral)
  moreover have "reverse_bits (NOT 0) = NOT 0"
    by (rule bit_word_eqI) (simp add: bit_reverse_bits bit_not_iff)
  ultimately show ?thesis by (simp add: crc_ref_def)
qed

lemma crc32_ref: "crc32 0 buf = crc_ref buf"
  by (simp add: crc32_def crc_ref_bytes crc32_byte_ref [abs_def])

section \<open>Commands past the cache\<close>

text \<open>A command that only changed the stick, the tag and the sync flag.\<close>

definition past_cache :: "('w \<Rightarrow> bool) \<Rightarrow> 'w drv \<Rightarrow> 'w drv \<Rightarrow> bool" where
  "past_cache idle d d' \<longleftrightarrow> d' = d\<lparr>g_tag := g_tag d', g_world := g_world d',
     g_sync_cache_supported := g_sync_cache_supported d'\<rparr> \<and> idle (g_world d')"

lemma past_cacheI:
  "idle w \<Longrightarrow> past_cache idle d (d\<lparr>g_tag := t, g_world := w, g_sync_cache_supported := s\<rparr>)"
  "idle w \<Longrightarrow> past_cache idle d (d\<lparr>g_tag := t, g_world := w\<rparr>)"
  "idle (g_world d) \<Longrightarrow> past_cache idle d d"
  by (simp_all add: past_cache_def)

lemma past_cache_trans: "past_cache idle a b \<Longrightarrow> past_cache idle b c \<Longrightarrow> past_cache idle a c"
  by (cases a; cases b; cases c) (simp add: past_cache_def)

context scsi_disk
begin

definition clean :: "'w drv \<Rightarrow> bool" where
  "clean d \<longleftrightarrow> inv d \<and> g_cache_sectors d = 0"

definition wrote :: "'w drv \<Rightarrow> medium \<Rightarrow> 'w drv \<Rightarrow> bool" where
  "wrote d m d' \<longleftrightarrow> past_cache idle d d' \<and> store (g_world d') = m"

lemma past_cache_clean:
  assumes "clean d" "past_cache idle d d'"
  shows "clean d'" "io_frame d d'" "view d' = store (g_world d')"
proof -
  have d: "d' = d\<lparr>g_tag := g_tag d', g_world := g_world d',
     g_sync_cache_supported := g_sync_cache_supported d'\<rparr>" "idle (g_world d')"
    using assms(2) by (simp_all add: past_cache_def)
  show c: "clean d'"
    using assms(1) d(2) by (subst d(1)) (auto simp: clean_def disk_inv_def bound_to_def cache_wf_def
        split: option.splits)
  show "io_frame d d'" by (subst d(1)) (simp add: io_frame_def)
  show "view d' = store (g_world d')" using c by (simp add: clean_def view_empty)
qed

lemma raw_write:
  assumes "clean d" "n \<noteq> 0" "unat n \<le> 2048" "unat lba + unat n \<le> cap" "length buf = unat n * 512"
  shows "\<exists>d'. scsi_command u (cdb10 WRITE10 lba n) 0 (Some buf) (n * 512) d = (0, Some buf, d')
    \<and> wrote d (mwrite (store (g_world d)) (unat lba * 512) buf) d'"
proof -
  have "bound_to idle epi epo d" using assms(1) by (simp add: clean_def)
  from write_law [OF this assms(2-4), of buf] obtain t w where
    h: "scsi_command u (cdb10 WRITE10 lba n) 0 (Some buf) (n * 512) d
      = (0, Some buf, d\<lparr>g_tag := t, g_world := w\<rparr>)" "idle w"
      "store w = mwrite (store (g_world d)) (unat lba * 512) buf"
    using assms(5) by auto
  then show ?thesis using past_cacheI(2) [of idle w] h by (auto simp: wrote_def)
qed

lemma write_sector_ok:
  assumes "clean d" "unat lba < cap" "length sector = 512"
  shows "\<exists>d'. write_sector u lba sector d = (0, d')
    \<and> wrote d (mwrite (store (g_world d)) (unat lba * 512) sector) d'"
  using raw_write [of d 1 lba sector] assms by (auto simp: write_sector_def)

lemma sync_ok:
  assumes "clean d"
  shows "wrote d (store (g_world d)) (sync_command u d)"
proof -
  have "bound_to idle epi epo d" using assms by (simp add: clean_def)
  from sync_law [OF this] show ?thesis
    using past_cacheI(1) by (auto simp: sync_command_def wrote_def)
qed

lemma wrote_clean: "clean d \<Longrightarrow> wrote d m d' \<Longrightarrow> clean d'"
  using past_cache_clean(1) by (simp add: wrote_def)

lemma wrote_trans: "wrote d m1 d1 \<Longrightarrow> wrote d1 m2 d2 \<Longrightarrow> wrote d m2 d2"
  using past_cache_trans by (auto simp: wrote_def)

lemma write_entries_ok:
  assumes "clean d" "unat lba + length sectors \<le> cap" "\<And>s. s \<in> set sectors \<Longrightarrow> length s = 512"
  shows "\<exists>d'. write_gpt_entries u lba sectors d = (True, d')
    \<and> wrote d (mwrite (store (g_world d)) (unat lba * 512) (concat sectors)) d'"
  using assms
proof (induction sectors arbitrary: lba d)
  case Nil
  then show ?case
    using past_cacheI(3) by (auto simp: wrote_def clean_def disk_inv_def bound_to_def)
next
  case (Cons s ss)
  obtain d1 where d1: "write_sector u lba s d = (0, d1)"
    "wrote d (mwrite (store (g_world d)) (unat lba * 512) s) d1"
    using write_sector_ok [of d lba s] Cons.prems by auto
  show ?case
  proof (cases "ss = []")
    case True
    then show ?thesis using d1 by simp
  next
    case False
    have "unat lba + 1 < 2 ^ 64"
      using Cons.prems(2) False capacity_bound by (cases ss) auto
    then have l: "unat (lba + 1) = unat lba + 1" by (simp add: unat_word_ariths)
    have c1: "clean d1" by (rule wrote_clean [OF Cons.prems(1) d1(2)])
    obtain d2 where d2: "write_gpt_entries u (lba + 1) ss d1 = (True, d2)"
      "wrote d1 (mwrite (store (g_world d1)) (unat (lba + 1) * 512) (concat ss)) d2"
      using Cons.IH [of d1 "lba + 1"] Cons.prems(2,3) c1 l by auto
    have "mwrite (mwrite (store (g_world d)) (unat lba * 512) s) (unat (lba + 1) * 512) (concat ss)
        = mwrite (store (g_world d)) (unat lba * 512) (s @ concat ss)"
    proof -
      have "unat (lba + 1) * 512 = unat lba * 512 + length s" using Cons.prems(3) [of s] l by simp
      then show ?thesis by (simp only: mwrite_append)
    qed
    then show ?thesis
      using d1 d2 wrote_trans [OF d1(2) d2(2)] by (auto simp: wrote_def)
  qed
qed

end

end
