(* ===== verification/PartitionProps.thy ===== *)
theory PartitionProps
  imports PartitionSpec
begin

text \<open>
  Properties of the partition tables, with a reader of the GPT layout as the UEFI specification
  gives it: signature, header checksum, own position and the other copy's, and the checksum over
  the partition entries the header leads to.
\<close>

section \<open>A reader of GUID partition tables\<close>

definition gpt_header_valid :: "medium \<Rightarrow> nat \<Rightarrow> nat \<Rightarrow> nat \<Rightarrow> bool" where
  "gpt_header_valid m lba alternate entry_lba \<longleftrightarrow>
    (let h = mread m (lba * 512) 512
     in take 8 h = map of_char ''EFI PART'' \<and> rd32 (drop 12 h) = 92
        \<and> rd32 (drop 16 h) = crc_ref (take 16 h @ replicate 4 0 @ seg 20 72 h)
        \<and> unat (rd64 (drop 24 h)) = lba \<and> unat (rd64 (drop 32 h)) = alternate
        \<and> unat (rd64 (drop 72 h)) = entry_lba \<and> rd32 (drop 80 h) = 128 \<and> rd32 (drop 84 h) = 128
        \<and> rd32 (drop 88 h) = crc_ref (mread m (entry_lba * 512) 16384))"

text \<open>First and last sector of the first partition, and those the header allows.\<close>

definition gpt_partition :: "medium \<Rightarrow> nat \<Rightarrow> nat \<times> nat" where
  "gpt_partition m entry_lba =
    (let e = mread m (entry_lba * 512) 128 in (unat (rd64 (drop 32 e)), unat (rd64 (drop 40 e))))"

definition gpt_usable :: "medium \<Rightarrow> nat \<Rightarrow> nat \<times> nat" where
  "gpt_usable m lba =
    (let h = mread m (lba * 512) 512 in (unat (rd64 (drop 40 h)), unat (rd64 (drop 48 h))))"

section \<open>What the code builds\<close>

lemma length_gpt:
  "length (gpt_mbr rnd n) = 512" "length (gpt_header_with crc rnd n ec cl bl el) = 512"
  "length (gpt_header rnd n ec cl bl el) = 512" "length (gpt_entries rnd n ps ty) = 16384"
  "length (mbr_sector n ps pt) = 512"
proof -
  show w: "length (gpt_header_with crc rnd n ec cl bl el) = 512" for crc
    by (simp add: gpt_header_with_def)
  show "length (gpt_header rnd n ec cl bl el) = 512" by (simp add: gpt_header_def Let_def w)
qed (simp_all add: gpt_mbr_def gpt_entries_def linux_data_guid_def ntfs_type_guid_def gpt_name_def
    mbr_sector_def)

lemma entry_sectors_ok:
  assumes "length e = 16384"
  shows "concat (entry_sectors e) = e" "length (entry_sectors e) = 32"
    "s \<in> set (entry_sectors e) \<Longrightarrow> length s = 512"
proof -
  have "concat (map (\<lambda>i. seg (i * 512) 512 e) [0..<k]) = take (k * 512) e" if "k \<le> 32" for k
    using that
  proof (induction k)
    case (Suc k)
    have "take (k * 512) e @ seg (k * 512) 512 e = take (k * 512 + 512) e"
      by (simp add: seg_def take_add)
    then show ?case using Suc by (simp add: add.commute)
  qed simp
  from this [of 32] show "concat (entry_sectors e) = e" using assms by (simp add: entry_sectors_def)
  show "length (entry_sectors e) = 32" by (simp add: entry_sectors_def)
  show "s \<in> set (entry_sectors e) \<Longrightarrow> length s = 512" using assms by (auto simp: entry_sectors_def)
qed

lemma gpt_header_fields:
  assumes h_def: "h = gpt_header rnd n ec cl bl el"
  shows "take 8 h = map of_char ''EFI PART''" "rd32 (drop 12 h) = 92"
    "rd32 (drop 16 h) = crc_ref (take 16 h @ replicate 4 0 @ seg 20 72 h)"
    "rd64 (drop 24 h) = cl" "rd64 (drop 32 h) = bl" "rd64 (drop 40 h) = 34"
    "rd64 (drop 48 h) = n - 34" "rd64 (drop 72 h) = el" "rd32 (drop 80 h) = 128"
    "rd32 (drop 84 h) = 128" "rd32 (drop 88 h) = ec"
proof -
  define crc where "crc = crc32 0 (take 92 (gpt_header_with 0 rnd n ec cl bl el))"
  have h: "h = gpt_header_with crc rnd n ec cl bl el"
    by (simp add: h_def gpt_header_def crc_def Let_def)
  define A where "A = map of_char ''EFI PART'' @ le32 0x00010000 @ le32 92"
  define R where "R = replicate 4 0 @ le64 cl @ le64 bl @ le64 34 @ le64 (n - 34)
    @ map (\<lambda>i. rnd (20 + i)) [0..<16] @ le64 el @ le32 128 @ le32 128 @ le32 ec @ replicate 420 0"
  have AR: "gpt_header_with c rnd n ec cl bl el = A @ le32 c @ R" "length A = 16" for c
    by (simp_all add: gpt_header_with_def A_def R_def)
  have "(le32 0 :: bytes) = replicate 4 0" by (simp add: le32_def eval_nat_numeral)
  then have z: "take 92 (gpt_header_with 0 rnd n ec cl bl el) = take 16 h @ replicate 4 0 @ seg 20 72 h"
    unfolding h AR(1) by (simp add: AR(2) seg_def)
  show "rd32 (drop 16 h) = crc_ref (take 16 h @ replicate 4 0 @ seg 20 72 h)"
    unfolding z [symmetric] crc32_ref [symmetric] crc_def [symmetric]
    by (simp add: h gpt_header_with_def)
  show "take 8 h = map of_char ''EFI PART''" by (simp add: h gpt_header_with_def)
qed (simp_all add: h_def gpt_header_def Let_def gpt_header_with_def)

lemma gpt_entry_fields:
  "rd64 (drop 32 (gpt_entries rnd n ps ty)) = 4096"
  "rd64 (drop 40 (gpt_entries rnd n ps ty)) = gpt_p_end n ps"
proof -
  define A where "A = (if ty = 8 \<or> (ty \<ge> 5 \<and> ty \<le> 7) then linux_data_guid else ntfs_type_guid)
    @ map (\<lambda>i. rnd (4 + i)) [0..<16]"
  have e: "gpt_entries rnd n ps ty = A @ le64 4096 @ le64 (gpt_p_end n ps) @ replicate 8 0 @ gpt_name
      @ replicate (512 * 32 - 96) 0" "length A = 32"
    by (simp_all add: gpt_entries_def A_def linux_data_guid_def ntfs_type_guid_def)
  show "rd64 (drop 32 (gpt_entries rnd n ps ty)) = 4096"
    "rd64 (drop 40 (gpt_entries rnd n ps ty)) = gpt_p_end n ps"
    by (simp_all add: e)
qed

text \<open>The last sector of the partition, as numbers.\<close>

lemma gpt_p_end_nat:
  assumes ps: "0 < unat ps" "unat ps < 2 ^ 63" and n: "4138 \<le> unat n" "unat n < 2 ^ 63"
  shows "4096 \<le> unat (gpt_p_end n ps)" "unat (gpt_p_end n ps) \<le> unat n - 34"
    "4096 + unat ps \<le> unat n - 33 \<Longrightarrow> unat (gpt_p_end n ps) = 4095 + unat ps"
proof -
  have e: "unat (4096 + ps - 1) = 4095 + unat ps"
  proof -
    have "4096 + ps - 1 = 4095 + ps" by simp
    moreover have "unat (4095 + ps) = 4095 + unat ps" using ps(2) by (simp add: unat_word_ariths)
    ultimately show ?thesis by simp
  qed
  have n34: "unat (n - 34) = unat n - 34" "unat (n - 34 + 1) = unat n - 33"
  proof -
    show "unat (n - 34) = unat n - 34" using n by (simp add: unat_sub word_le_nat_alt)
    then show "unat (n - 34 + 1) = unat n - 33"
      using n by (subst unat_word_ariths) (simp del: diff_add_eq)
  qed
  define x where "x = n - 34 + 1"
  define y where "y = x AND NOT 7"
  have y: "y \<le> x" unfolding y_def by (rule word_and_le2)
  have "(x AND 7) + y = (x AND 7) OR y"
    by (rule disjunctive_add_eq_or) (rule bit_word_eqI, auto simp: y_def bit_simps)
  moreover have "(x AND 7) OR y = x" by (rule bit_word_eqI) (auto simp: y_def bit_simps)
  ultimately have "x - y = x AND 7" by (simp add: diff_eq_eq)
  moreover have "x AND 7 \<le> 7" by (rule word_and_le1)
  ultimately have "unat (x - y) \<le> 7" by (simp add: word_le_nat_alt)
  then have yn: "unat x - 7 \<le> unat y" "unat y \<le> unat x"
    using y unat_sub [OF y] by (simp_all add: word_le_nat_alt)
  then have y1: "unat (y - 1) = unat y - 1"
    using n34 n by (subst unat_sub) (simp_all add: x_def word_le_nat_alt)
  have "unat (gpt_p_end n ps) = (if unat n - 34 < 4095 + unat ps then unat y - 1 else 4095 + unat ps)"
    using y1 unfolding gpt_p_end_def Let_def word_less_nat_alt x_def [symmetric] y_def [symmetric]
    by (simp only: e n34 if_distrib [of unat])
  then show "4096 \<le> unat (gpt_p_end n ps)" "unat (gpt_p_end n ps) \<le> unat n - 34"
    "4096 + unat ps \<le> unat n - 33 \<Longrightarrow> unat (gpt_p_end n ps) = 4095 + unat ps"
    using yn n34 n ps by (auto simp: x_def)
qed

section \<open>The medium after writing the table\<close>

definition gpt_written :: "(nat \<Rightarrow> u8) \<Rightarrow> u64 \<Rightarrow> u64 \<Rightarrow> int \<Rightarrow> medium \<Rightarrow> medium" where
  "gpt_written rnd n ps fsType m =
    (let e = gpt_entries rnd n ps fsType; c = crc32 0 e
     in mwrite (mwrite (mwrite (mwrite (mwrite m 0 (gpt_mbr rnd n))
          512 (gpt_header rnd n c 1 (n - 1) 2)) 1024 e)
          ((unat n - 33) * 512) e) ((unat n - 1) * 512) (gpt_header rnd n c (n - 1) 1 (n - 33)))"

lemma gpt_written_regions:
  assumes n: "4138 \<le> unat n"
  defines "N \<equiv> unat n"
  shows "mread (gpt_written rnd n ps ty m) 0 512 = gpt_mbr rnd n"
    "mread (gpt_written rnd n ps ty m) 512 512
      = gpt_header rnd n (crc32 0 (gpt_entries rnd n ps ty)) 1 (n - 1) 2"
    "mread (gpt_written rnd n ps ty m) 1024 16384 = gpt_entries rnd n ps ty"
    "mread (gpt_written rnd n ps ty m) ((N - 33) * 512) 16384 = gpt_entries rnd n ps ty"
    "mread (gpt_written rnd n ps ty m) ((N - 1) * 512) 512
      = gpt_header rnd n (crc32 0 (gpt_entries rnd n ps ty)) (n - 1) 1 (n - 33)"
    "34 * 512 \<le> a \<Longrightarrow> a + k \<le> (N - 33) * 512
      \<Longrightarrow> mread (gpt_written rnd n ps ty m) a k = mread m a k"
proof -
  define e h1 h2 where "e = gpt_entries rnd n ps ty" and "h1 = gpt_header rnd n (crc32 0 e) 1 (n - 1) 2"
    and "h2 = gpt_header rnd n (crc32 0 e) (n - 1) 1 (n - 33)"
  note len = length_gpt
  have l: "length e = 16384" "length h1 = 512" "length h2 = 512" by (simp_all add: e_def h1_def h2_def len)
  have w: "gpt_written rnd n ps ty m = mwrite (mwrite (mwrite (mwrite (mwrite m 0 (gpt_mbr rnd n))
     512 h1) 1024 e) ((N - 33) * 512) e) ((N - 1) * 512) h2"
    by (simp add: gpt_written_def Let_def e_def h1_def h2_def N_def)
  have N: "4138 \<le> N" using n by (simp add: N_def)
  have g: "17408 \<le> (N - 33) * 512" "17408 \<le> (N - Suc 0) * 512" using N by simp_all
  have s: "mread (mwrite x b xs) b j = xs" if "length xs = j" for x b xs j using that by auto
  show "mread (gpt_written rnd n ps ty m) 0 512 = gpt_mbr rnd n"
    using N g by (simp add: w mread_mwrite_disjoint l len s)
  show "mread (gpt_written rnd n ps ty m) 512 512
      = gpt_header rnd n (crc32 0 (gpt_entries rnd n ps ty)) 1 (n - 1) 2"
    using N g by (simp add: w mread_mwrite_disjoint l len s flip: e_def h1_def)
  show "mread (gpt_written rnd n ps ty m) 1024 16384 = gpt_entries rnd n ps ty"
    using N g by (simp add: w mread_mwrite_disjoint l len s flip: e_def)
  have "(N - 33) * 512 + 16384 \<le> (N - 1) * 512" using N by simp
  then show "mread (gpt_written rnd n ps ty m) ((N - 33) * 512) 16384 = gpt_entries rnd n ps ty"
    by (simp add: w mread_mwrite_disjoint l s flip: e_def)
  show "mread (gpt_written rnd n ps ty m) ((N - 1) * 512) 512
      = gpt_header rnd n (crc32 0 (gpt_entries rnd n ps ty)) (n - 1) 1 (n - 33)"
    by (simp add: w s l flip: e_def h2_def)
  show "mread (gpt_written rnd n ps ty m) a k = mread m a k"
    if "34 * 512 \<le> a" "a + k \<le> (N - 33) * 512"
  proof -
    have "a + k \<le> (N - 1) * 512" using that(2) N by simp
    then show ?thesis using that by (simp add: w mread_mwrite_disjoint l len)
  qed
qed

context scsi_disk
begin

lemma gpt_written_ok:
  assumes c: "clean d" and n: "g_sector_count d = n" "4138 \<le> unat n" "unat n \<le> cap"
  shows "\<exists>d'. usb_scsi_write_gpt u rnd ps ty d = (0, d')
    \<and> wrote d (gpt_written rnd n ps ty (store (g_world d))) d'"
proof -
  define e where "e = gpt_entries rnd n ps ty"
  define h1 h2 where "h1 = gpt_header rnd n (crc32 0 e) 1 (n - 1) 2"
    and "h2 = gpt_header rnd n (crc32 0 e) (n - 1) 1 (n - 33)"
  have le: "length e = 16384" by (simp add: e_def length_gpt)
  note es = entry_sectors_ok [OF le]
  have u: "unat (n - 33) = unat n - 33" "unat (n - 1) = unat n - 1"
    using n(2) by (simp_all add: unat_sub word_le_nat_alt)
  have lim: "unat n - Suc 0 \<le> cap" "unat n - Suc 0 < cap" using n(2,3) by simp_all
  obtain d1 where d1: "write_sector u 0 (gpt_mbr rnd n) d = (0, d1)"
    "wrote d (mwrite (store (g_world d)) 0 (gpt_mbr rnd n)) d1"
    using write_sector_ok [OF c, of 0 "gpt_mbr rnd n"] n length_gpt(1) by auto
  have c1: "clean d1" by (rule wrote_clean [OF c d1(2)])
  obtain d2 where d2: "write_sector u 1 h1 d1 = (0, d2)" "wrote d1 (mwrite (store (g_world d1)) 512 h1) d2"
    using write_sector_ok [OF c1, of 1 h1] n length_gpt(3) by (auto simp: h1_def)
  have c2: "clean d2" by (rule wrote_clean [OF c1 d2(2)])
  obtain d3 where d3: "write_gpt_entries u 2 (entry_sectors e) d2 = (True, d3)"
    "wrote d2 (mwrite (store (g_world d2)) 1024 e) d3"
    using write_entries_ok [OF c2, of 2 "entry_sectors e"] n es by auto
  have c3: "clean d3" by (rule wrote_clean [OF c2 d3(2)])
  obtain d4 where d4: "write_gpt_entries u (n - 33) (entry_sectors e) d3 = (True, d4)"
    "wrote d3 (mwrite (store (g_world d3)) ((unat n - 33) * 512) e) d4"
    using write_entries_ok [OF c3, of "n - 33" "entry_sectors e"] lim n es u by auto
  have c4: "clean d4" by (rule wrote_clean [OF c3 d4(2)])
  obtain d5 where d5: "write_sector u (n - 1) h2 d4 = (0, d5)"
    "wrote d4 (mwrite (store (g_world d4)) ((unat n - 1) * 512) h2) d5"
    using write_sector_ok [OF c4, of "n - 1" h2] lim n length_gpt(3) u by (auto simp: h2_def)
  have c5: "clean d5" by (rule wrote_clean [OF c4 d5(2)])
  have "usb_scsi_write_gpt u rnd ps ty d = (0, sync_command u d5)"
    using d1(1) d2(1) d3(1) d4(1) d5(1)
    by (simp add: usb_scsi_write_gpt_def n(1) Let_def e_def [symmetric] h1_def [symmetric] h2_def [symmetric])
  moreover have "wrote d (store (g_world d5)) (sync_command u d5)"
    using wrote_trans d1(2) d2(2) d3(2) d4(2) d5(2) sync_ok [OF c5] by blast
  moreover have "store (g_world d5) = gpt_written rnd n ps ty (store (g_world d))"
    using d1(2) d2(2) d3(2) d4(2) d5(2)
    by (simp add: wrote_def gpt_written_def Let_def e_def [symmetric] h1_def h2_def)
  ultimately show ?thesis by auto
qed

lemma mbr_written_ok:
  assumes c: "clean d" and n: "0 < cap"
  shows "\<exists>d'. usb_scsi_write_mbr u ps ty d = (0, d')
    \<and> wrote d (mwrite (store (g_world d)) 0 (mbr_sector (g_sector_count d) ps ty)) d'"
proof -
  obtain d1 where d1: "write_sector u 0 (mbr_sector (g_sector_count d) ps ty) d = (0, d1)"
    "wrote d (mwrite (store (g_world d)) 0 (mbr_sector (g_sector_count d) ps ty)) d1"
    using write_sector_ok [OF c, of 0 "mbr_sector (g_sector_count d) ps ty"] n length_gpt(5) by auto
  have "wrote d (store (g_world d1)) (sync_command u d1)"
    by (rule wrote_trans [OF d1(2) sync_ok [OF wrote_clean [OF c d1(2)]]])
  then show ?thesis using d1 by (auto simp: usb_scsi_write_mbr_def wrote_def)
qed

lemma mbr_type_updated:
  assumes c: "clean d" and n: "0 < cap" and b: "length buf = 512"
    and sig: "store (g_world d) 510 = 0x55" "store (g_world d) 511 = 0xaa"
  shows "\<exists>d'. update_mbr_type u buf ty d = (0, d') \<and> wrote d ((store (g_world d))(450 := ty)) d'"
proof -
  define m where "m = store (g_world d)"
  define mbr where "mbr = mread m 0 512"
  have bd: "bound_to idle epi epo d" using c by (simp add: clean_def)
  obtain t w where r: "scsi_command u (cdb10 READ10 0 1) 0x80 (Some buf) 512 d
      = (0, Some mbr, d\<lparr>g_tag := t, g_world := w\<rparr>)" "idle w" "store w = m"
    using read_law [OF bd, of 1 0 buf] n b by (auto simp: mbr_def m_def patch_whole)
  define d1 where "d1 = d\<lparr>g_tag := t, g_world := w\<rparr>"
  have w1: "wrote d m d1" using r(2,3) past_cacheI(2) [of idle w] by (simp add: wrote_def d1_def)
  have len: "length mbr = 512" by (simp add: mbr_def)
  have at: "mbr ! 510 = 0x55" "mbr ! 511 = 0xaa" using sig by (simp_all add: mbr_def nth_mread m_def)
  obtain d2 where d2: "write_sector u 0 (mbr[450 := ty]) d1 = (0, d2)"
    "wrote d1 (mwrite m 0 (mbr[450 := ty])) d2"
    using write_sector_ok [OF wrote_clean [OF c w1], of 0 "mbr[450 := ty]"] n len w1
    by (auto simp: wrote_def)
  have "mwrite m 0 (mbr[450 := ty]) = m(450 := ty)"
    by (rule ext) (auto simp: mwrite_def len nth_list_update mbr_def nth_mread)
  then show ?thesis
    using r(1) at d2 wrote_trans [OF w1 d2(2)] by (auto simp: update_mbr_type_def d1_def m_def)
qed

end

section \<open>Erased regions\<close>

definition erased :: "medium \<Rightarrow> nat \<Rightarrow> nat \<Rightarrow> medium" where
  "erased m a b = (\<lambda>i. if a \<le> i \<and> i < b then 0 else m i)"

lemma mwrite_zeros: "mwrite m a (replicate n 0) = erased m a (a + n)"
  by (rule ext) (auto simp: mwrite_def erased_def)

lemma erased_join:
  "a \<le> b \<Longrightarrow> b \<le> c \<Longrightarrow> erased (erased m a b) b c = erased m a c"
  "a \<le> b \<Longrightarrow> b \<le> c \<Longrightarrow> erased (erased m b c) a b = erased m a c"
  by (rule ext; auto simp: erased_def)+

lemma erased_empty [simp]: "erased m a a = m"
  by (rule ext) (auto simp: erased_def)

context scsi_disk
begin

lemma wipe_chunks_ok:
  assumes "clean d" "k \<le> n" "n \<le> 16" "2048 \<le> cap"
  shows "wrote d (erased (store (g_world d)) (k * 65536) (n * 65536))
    (wipe_chunks u (map (\<lambda>i. i * 128) [k..<n]) d)"
  using assms
proof (induction "n - k" arbitrary: k d)
  case 0
  then show ?case
    using past_cacheI(3) by (auto simp: wrote_def clean_def disk_inv_def bound_to_def)
next
  case (Suc j)
  have k: "k < n" "k < 16" using Suc.hyps(2) Suc.prems(3) by simp_all
  have "unat (of_nat (k * 128) :: u64) = k * 128" using k(2) by (simp add: unsigned_of_nat take_bit_nat_eq_self del: of_nat_mult)
  then obtain d1 where d1: "scsi_command u (cdb10 WRITE10 (of_nat (k * 128)) 128) 0
      (Some (replicate 65536 0)) 65536 d = (0, Some (replicate 65536 0), d1)"
    "wrote d (erased (store (g_world d)) (k * 65536) (k * 65536 + 65536)) d1"
    using raw_write [OF Suc.prems(1), of 128 "of_nat (k * 128)" "replicate 65536 0"] k Suc.prems(4)
    by (auto simp: mwrite_zeros mult.commute)
  define r where "r = wipe_chunks u (map (\<lambda>i. i * 128) [Suc k..<n]) d1"
  have w: "wrote d1 (erased (store (g_world d1)) (Suc k * 65536) (n * 65536)) r"
    unfolding r_def using Suc.hyps Suc.prems wrote_clean [OF Suc.prems(1) d1(2)]
    by (intro Suc.hyps(1)) auto
  have "wipe_chunks u (map (\<lambda>i. i * 128) [k..<n]) d = r"
    using d1(1) by (simp add: upt_conv_Cons [OF k(1)] r_def)
  moreover have "erased (store (g_world d1)) (Suc k * 65536) (n * 65536)
      = erased (store (g_world d)) (k * 65536) (n * 65536)"
    using d1(2) k erased_join(1) [of "k * 65536" "k * 65536 + 65536" "n * 65536"]
    by (simp add: wrote_def add.commute)
  ultimately show ?case using wrote_trans [OF d1(2) w] by simp
qed

lemma wipe_tail_loop_ok:
  assumes "clean d" "unat lba = unat (last_lba - 34) + k" "unat (last_lba - 34) + k < cap"
    "last_lba \<ge> 34" "k \<le> 34"
  shows "wrote d (erased (store (g_world d)) ((unat (last_lba - 34) + 1) * 512) ((unat lba + 1) * 512))
    (wipe_tail_loop u last_lba lba d)"
  using assms
proof (induction k arbitrary: lba d)
  case 0
  then have "\<not> last_lba - 34 < lba" by (simp add: word_less_nat_alt)
  then show ?case
    using 0 past_cacheI(3)
    by (subst wipe_tail_loop.simps) (auto simp: wrote_def clean_def disk_inv_def bound_to_def)
next
  case (Suc k)
  have lt: "last_lba - 34 < lba" using Suc.prems(2) by (simp add: word_less_nat_alt)
  obtain d1 where d1: "write_sector u lba (replicate 512 0) d = (0, d1)"
    "wrote d (erased (store (g_world d)) (unat lba * 512) (unat lba * 512 + 512)) d1"
    using write_sector_ok [OF Suc.prems(1), of lba "replicate 512 0"] Suc.prems(2,3)
    by (auto simp: mwrite_zeros)
  have l1: "unat (lba - 1) = unat lba - 1" using Suc.prems(2)
    by (subst unat_sub) (simp_all add: word_le_nat_alt)
  have w: "wrote d1 (erased (store (g_world d1)) ((unat (last_lba - 34) + 1) * 512) ((unat (lba - 1) + 1) * 512))
      (wipe_tail_loop u last_lba (lba - 1) d1)"
    using Suc.prems l1 wrote_clean [OF Suc.prems(1) d1(2)] by (intro Suc.IH) auto
  have "erased (store (g_world d1)) ((unat (last_lba - 34) + 1) * 512) ((unat (lba - 1) + 1) * 512)
      = erased (store (g_world d)) ((unat (last_lba - 34) + 1) * 512) ((unat lba + 1) * 512)"
    using d1(2) l1 Suc.prems(2)
      erased_join(2) [of "(unat (last_lba - 34) + 1) * 512" "unat lba * 512" "unat lba * 512 + 512"]
    by (simp add: wrote_def add.commute)
  moreover have "wipe_tail_loop u last_lba lba d = wipe_tail_loop u last_lba (lba - 1) d1"
    using lt d1(1) by (subst wipe_tail_loop.simps) simp
  ultimately show ?case using wrote_trans [OF d1(2) w] by simp
qed

lemma wipe_mbr_ok:
  assumes "clean d" "2048 \<le> cap"
  shows "\<exists>d'. usb_scsi_wipe_mbr u d = Some (0, d') \<and> wrote d (erased (store (g_world d)) 0 1048576) d'"
proof -
  have w: "wrote d (erased (store (g_world d)) 0 1048576) (wipe_chunks u (map (\<lambda>i. i * 128) [0..<16]) d)"
    using wipe_chunks_ok [OF assms(1), of 0 16] assms(2) by simp
  then show ?thesis
    using wrote_trans [OF w sync_ok [OF wrote_clean [OF assms(1) w]]]
    by (auto simp: usb_scsi_wipe_mbr_def wrote_def malloc_law)
qed

lemma wipe_tail_ok:
  assumes "clean d" "34 < unat (g_sector_count d)" "unat (g_sector_count d) \<le> cap"
  shows "\<exists>d'. usb_scsi_wipe_tail u d = (0, d')
    \<and> wrote d (erased (store (g_world d)) ((unat (g_sector_count d) - 34) * 512) (unat (g_sector_count d) * 512)) d'"
proof -
  define n where "n = g_sector_count d"
  have u: "unat (n - 1) = unat n - 1" using assms(2) by (subst unat_sub) (simp_all add: word_le_nat_alt n_def)
  then have u34: "unat (n - 1 - 34) = unat n - 35" "34 \<le> n - 1"
    using assms(2) by (auto simp: word_le_nat_alt n_def unat_sub)
  have ends: "(unat (n - 1 - 34) + 1) * 512 = (unat n - 34) * 512" "(unat (n - 1) + 1) * 512 = unat n * 512"
    using u u34(1) assms(2) by (simp_all add: n_def)
  have "unat (n - 1) = unat (n - 1 - 34) + 34" using u u34(1) assms(2) by (simp add: n_def)
  then have w: "wrote d (erased (store (g_world d)) ((unat (n - 1 - 34) + 1) * 512) ((unat (n - 1) + 1) * 512))
      (wipe_tail_loop u (n - 1) (n - 1) d)"
    using assms u u34 by (intro wipe_tail_loop_ok [of d "n - 1" "n - 1" 34]) (auto simp: n_def)
  then show ?thesis
    using wrote_trans [OF w sync_ok [OF wrote_clean [OF assms(1) w]]] w [unfolded ends]
    unfolding usb_scsi_wipe_tail_def Let_def n_def [symmetric] by (auto simp: wrote_def)
qed

lemma wipe_head_loop_ok:
  assumes "inv d" "k \<le> n" "actual_offset d 0 = int base" "base + n * 262144 \<le> cap * 512"
  shows "\<exists>d'. wipe_head_loop u (map (\<lambda>i. int i * 262144) [k..<n]) d = Some d' \<and> inv d' \<and> io_frame d d'
    \<and> view d' = erased (view d) (base + k * 262144) (base + n * 262144)"
  using assms
proof (induction "n - k" arbitrary: k d)
  case 0
  then show ?case by simp
next
  case (Suc j)
  have k: "k < n" using Suc.hyps(2) by simp
  have j: "j = n - Suc k" "Suc k \<le> n" using Suc.hyps(2) by simp_all
  have off: "actual_offset d (int k * 262144) = int base + int k * 262144"
    using Suc.prems(3) by (simp add: actual_offset_def)
  have fit: "base + k * 262144 + 262144 \<le> cap * 512"
  proof -
    have "Suc k * 262144 \<le> n * 262144" using k by (intro mult_le_mono1) simp
    then show ?thesis using Suc.prems(4) by simp
  qed
  have n: "nat (int base + int k * 262144) = base + k * 262144" by simp
  obtain d1 where d1: "scsi_pwrite u (replicate 262144 0) 262144 (int k * 262144) d = Some (262144, d1)"
    "inv d1" "view d1 = erased (view d) (base + k * 262144) (base + k * 262144 + 262144)" "io_frame d d1"
    using pwrite [OF Suc.prems(1), of "int k * 262144" "replicate 262144 0"] off fit
    by (auto simp: mwrite_zeros n)
  have o1: "actual_offset d1 0 = int base" using Suc.prems(3) actual_offset_frame [OF d1(4)] by simp
  obtain d2 where d2: "wipe_head_loop u (map (\<lambda>i. int i * 262144) [Suc k..<n]) d1 = Some d2" "inv d2"
    "io_frame d1 d2" "view d2 = erased (view d1) (base + Suc k * 262144) (base + n * 262144)"
    using Suc.hyps(1) [OF j(1) d1(2) j(2) o1 Suc.prems(4)] by blast
  have "erased (view d1) (base + Suc k * 262144) (base + n * 262144)
      = erased (view d) (base + k * 262144) (base + n * 262144)"
  proof -
    have "Suc k * 262144 \<le> n * 262144" using k by (intro mult_le_mono1) simp
    moreover have e: "base + Suc k * 262144 = base + k * 262144 + 262144" by simp
    ultimately show ?thesis unfolding d1(3) e by (intro erased_join(1)) auto
  qed
  then show ?case
    using d1(1) d2 io_frame_trans [OF d1(4) d2(3)] by (simp add: upt_conv_Cons [OF k])
qed

lemma wipe_partition_head_ok:
  assumes "inv d" "actual_offset d 0 = int base"
    "base + (if fsType = 8 then 134217728 else 33554432) \<le> cap * 512"
  shows "\<exists>d'. usb_scsi_wipe_partition_head u fsType d = Some (0, d') \<and> clean d' \<and> io_frame d d'
    \<and> store (g_world d') = erased (view d) base (base + (if fsType = 8 then 134217728 else 33554432))"
proof -
  define n :: nat where "n = (if fsType = 8 then 512 else 128)"
  have fits: "base + n * 262144 \<le> cap * 512" using assms(3) by (simp add: n_def split: if_splits)
  obtain d1 where d1: "wipe_head_loop u (head_offsets fsType) d = Some d1" "inv d1" "io_frame d d1"
    "view d1 = erased (view d) base (base + n * 262144)"
    using wipe_head_loop_ok [OF assms(1) _ assms(2) fits, of 0] by (auto simp: head_offsets_def n_def [symmetric])
  obtain d2 where d2: "usb_scsi_sync u d1 = (0, d2)" "inv d2" "store (g_world d2) = view d1"
    "g_cache_sectors d2 = 0" "io_frame d1 d2" using sync [OF d1(2)] by auto
  have "usb_scsi_wipe_partition_head u fsType d = Some (0, d2)"
    using d1(1) d2(1) malloc_law by (simp add: usb_scsi_wipe_partition_head_def)
  then show ?thesis
    using d2 d1(4) io_frame_trans [OF d1(3) d2(5)] by (auto simp: clean_def n_def)
qed

lemma wrote_post:
  assumes "clean d" "wrote d m d'"
  shows "inv d'" "g_cache_sectors d' = 0" "store (g_world d') = m" "io_frame d d'"
  using wrote_clean [OF assms] past_cache_clean [OF assms(1)] assms(2)
  by (simp_all add: clean_def wrote_def)

end

lemmas gpt_on = scsi_disk.gpt_written_ok [OF bot_device.disk]
  and mbr_on = scsi_disk.mbr_written_ok [OF bot_device.disk]
  and wipe_mbr_on = scsi_disk.wipe_mbr_ok [OF bot_device.disk]
  and wipe_tail_on = scsi_disk.wipe_tail_ok [OF bot_device.disk]
  and wipe_head_on = scsi_disk.wipe_partition_head_ok [OF bot_device.disk]
  and mbr_type_on = scsi_disk.mbr_type_updated [OF bot_device.disk]
  and post_on = scsi_disk.wrote_post [OF bot_device.disk]

lemma clean_on:
  "bot_device u store idle cap epi epo
    \<Longrightarrow> scsi_disk.clean idle cap epi epo d \<longleftrightarrow> disk_inv idle cap epi epo d \<and> g_cache_sectors d = 0"
  by (simp add: scsi_disk.clean_def [OF bot_device.disk])

lemma gpt_written_valid:
  assumes n: "4138 \<le> unat n" "unat n < 2 ^ 63"
  defines "M \<equiv> \<lambda>rnd ps ty m. gpt_written rnd n ps ty m"
  shows "gpt_header_valid (M rnd ps ty m) 1 (unat n - 1) 2"
    "gpt_header_valid (M rnd ps ty m) (unat n - 1) 1 (unat n - 33)"
    "gpt_partition (M rnd ps ty m) 2 = (4096, unat (gpt_p_end n ps))"
    "gpt_usable (M rnd ps ty m) 1 = (34, unat n - 34)"
proof -
  note r = gpt_written_regions [OF n(1), where rnd = rnd and ps = ps and ty = ty and m = m]
  define e where "e = gpt_entries rnd n ps ty"
  have u: "unat (n - 1) = unat n - 1" "unat (n - 33) = unat n - 33" "unat (n - 34) = unat n - 34"
    using n by (simp_all add: unat_sub word_le_nat_alt)
  show "gpt_header_valid (M rnd ps ty m) 1 (unat n - 1) 2"
    using gpt_header_fields [of _ rnd n "crc32 0 e" 1 "n - 1" 2] r(2,3) u
    by (simp add: gpt_header_valid_def M_def Let_def e_def [symmetric] crc32_ref)
  show "gpt_header_valid (M rnd ps ty m) (unat n - 1) 1 (unat n - 33)"
    using gpt_header_fields [of _ rnd n "crc32 0 e" "n - 1" 1 "n - 33"] r(4,5) u
    by (simp add: gpt_header_valid_def M_def Let_def e_def [symmetric] crc32_ref)
  have "mread (M rnd ps ty m) 1024 128 = take 128 e"
    using seg_mread [of 0 128 16384 "M rnd ps ty m" 1024] r(3) by (simp add: M_def e_def seg_def)
  moreover have "rd64 (drop 32 (take 128 e)) = 4096" "rd64 (drop 40 (take 128 e)) = gpt_p_end n ps"
    using gpt_entry_fields [of rnd n ps ty, folded e_def] length_gpt(4) [of rnd n ps ty, folded e_def]
    by (simp_all add: rd64_def e_def)
  ultimately show "gpt_partition (M rnd ps ty m) 2 = (4096, unat (gpt_p_end n ps))"
    by (simp add: gpt_partition_def)
  show "gpt_usable (M rnd ps ty m) 1 = (34, unat n - 34)"
    using gpt_header_fields(6,7) [of _ rnd n "crc32 0 e" 1 "n - 1" 2] r(2) u
    by (simp add: gpt_usable_def M_def Let_def e_def [symmetric])
qed

section \<open>Properties\<close>

lemma crc_eight_steps:
  "(crc_step ^^ 8) c = crc_step (crc_step (crc_step (crc_step (crc_step (crc_step (crc_step (crc_step c)))))))"
  by (simp add: eval_nat_numeral)

lemma crc32_check_value: "crc32 0 [0x31, 0x32, 0x33, 0x34, 0x35, 0x36, 0x37, 0x38, 0x39] = 0xcbf43926"
  unfolding crc32_ref crc_ref_bytes by (simp add: crc_ref_byte_def crc_eight_steps crc_step_def)

text \<open>C26: The CRC of the partition tables, computed byte by byte from a table, is the CRC-32 of
  the standard: what the shift register for the generator polynomial of ISO 3309 holds after the
  message, shifted in bit by bit from all ones, its bits reversed and complemented. Its value for
  the digits 1 to 9 is the check value 0xcbf43926 that is published for this CRC.\<close>

theorem crc32_is_standard:
  "crc32 0 buf = NOT (reverse_bits (foldl crc_shift_in (NOT 0) (message_bits buf)))
    \<and> crc32 0 [0x31, 0x32, 0x33, 0x34, 0x35, 0x36, 0x37, 0x38, 0x39] = 0xcbf43926"
  using crc32_ref [of buf] crc32_check_value by (simp only: crc_ref_def)

text \<open>C23: On a working stick with an empty write cache \<open>usb_scsi_write_gpt\<close> returns success and
  leaves a GUID partition table that both of its headers, first sector and last, agree on: right
  signature, checksums over header and entries, positions of themselves and of each other. The
  first partition starts at sector 4096, ends inside the usable sectors and has the size asked
  for when that fits, and nothing between the two copies of the table changes.\<close>

theorem gpt_table_is_valid:
  assumes dev: "bot_device u store idle cap epi epo" and inv: "disk_inv idle cap epi epo d"
    and cache: "g_cache_sectors d = 0" and n: "n = unat (g_sector_count d)" "4138 \<le> n" "n \<le> cap"
    and ps: "0 < unat ps" "unat ps < 2 ^ 63"
  shows "\<exists>d' m last_lba. usb_scsi_write_gpt u rnd ps fsType d = (0, d') \<and> m = store (g_world d')
    \<and> disk_inv idle cap epi epo d' \<and> g_cache_sectors d' = 0
    \<and> gpt_header_valid m 1 (n - 1) 2 \<and> gpt_header_valid m (n - 1) 1 (n - 33)
    \<and> mread m ((n - 33) * 512) 16384 = mread m (2 * 512) 16384
    \<and> gpt_usable m 1 = (34, n - 34) \<and> gpt_partition m 2 = (4096, last_lba)
    \<and> 4096 \<le> last_lba \<and> last_lba \<le> n - 34
    \<and> (4096 + unat ps \<le> n - 33 \<longrightarrow> last_lba = 4096 + unat ps - 1)
    \<and> (\<forall>i. 34 * 512 \<le> i \<and> i < (n - 33) * 512 \<longrightarrow> m i = store (g_world d) i)"
proof -
  have c: "scsi_disk.clean idle cap epi epo d" using inv cache by (simp add: clean_on [OF dev])
  have big: "unat (g_sector_count d) < 2 ^ 63"
    using n(1,3) bot_device.cap_bound [OF dev] by simp
  have n': "4138 \<le> unat (g_sector_count d)" using n by simp
  obtain d' where d': "usb_scsi_write_gpt u rnd ps fsType d = (0, d')"
    "scsi_disk.wrote store idle d (gpt_written rnd (g_sector_count d) ps fsType (store (g_world d))) d'"
    using gpt_on [OF dev c refl n' n(3) [unfolded n(1)]] by blast
  note post = post_on [OF dev c d'(2)]
  define M where "M = gpt_written rnd (g_sector_count d) ps fsType (store (g_world d))"
  note r = gpt_written_regions [OF n', where rnd = rnd and ps = ps and ty = fsType
      and m = "store (g_world d)", folded M_def n(1)]
    and v = gpt_written_valid [OF n' big, where rnd = rnd and ps = ps and ty = fsType
      and m = "store (g_world d)", folded M_def n(1)]
    and e = gpt_p_end_nat [OF ps n' big, folded n(1)]
  have "M i = store (g_world d) i" if "34 * 512 \<le> i" "i < (n - 33) * 512" for i
    using r(6) [of i 1] that by (simp add: mread_def)
  then show ?thesis
    using d'(1) post(1-3) v r(3,4) e
    by (intro exI [of _ d'] exI [of _ M] exI [of _ "unat (gpt_p_end (g_sector_count d) ps)"])
      (auto simp: M_def [symmetric])
qed

text \<open>A stick of 16384 sectors (8 MB) with random bytes that are all 5.\<close>

definition table_drv :: "stick drv" where
  "table_drv = (stick_drv (\<lambda>_. 9))\<lparr>g_sector_count := 16384\<rparr>"

lemma table_drv:
  "disk_inv stick_idle (2 ^ 32) 0x81 0x02 table_drv" "g_cache_sectors table_drv = 0"
  "g_sector_count table_drv = 16384" "stick_medium (g_world table_drv) = (\<lambda>_. 9)"
  "actual_offset table_drv 0 = 0"
  by (simp_all add: table_drv_def actual_offset_def disk_inv_def bound_to_def stick_drv_def stick_idle_def cache_wf_def)

lemma gpt_table_is_valid_witness:
  "\<exists>d' m. usb_scsi_write_gpt stick_usb (\<lambda>_. 5) 8192 4 table_drv = (0, d') \<and> m = stick_medium (g_world d')
    \<and> gpt_header_valid m 1 16383 2 \<and> gpt_header_valid m 16383 1 16351
    \<and> gpt_partition m 2 = (4096, 12287) \<and> m 100000 = 9"
proof -
  have n: "16384 = unat (g_sector_count table_drv)" by (simp add: table_drv)
  obtain d' m last_lba where r: "usb_scsi_write_gpt stick_usb (\<lambda>_. 5) 8192 4 table_drv = (0, d')"
    "m = stick_medium (g_world d')" "gpt_header_valid m 1 (16384 - 1) 2"
    "gpt_header_valid m (16384 - 1) 1 (16384 - 33)" "gpt_partition m 2 = (4096, last_lba)"
    "4096 + unat (8192 :: u64) \<le> 16384 - 33 \<longrightarrow> last_lba = 4096 + unat (8192 :: u64) - 1"
    "\<forall>i. 34 * 512 \<le> i \<and> i < (16384 - 33) * 512 \<longrightarrow> m i = stick_medium (g_world table_drv) i"
    using gpt_table_is_valid [OF stick_device table_drv(1,2) n, of 8192 "\<lambda>_. 5" 4] by auto
  have "m 100000 = 9" using r(7) by (simp add: table_drv)
  then show ?thesis using r by auto
qed

text \<open>What a master boot record holds when it was written.\<close>

lemma mbr_written_fields:
  assumes m: "m = mwrite m0 0 (mbr_sector n ps ty)" and n: "4096 \<le> unat n" and ps: "unat ps < 2 ^ 32"
  shows "m 446 = 0x80" "m 450 = ty" "m 510 = 0x55" "m 511 = 0xaa" "rd32 (mread m 454 4) = 4096"
    "unat (rd32 (mread m 458 4)) = min (unat ps) (unat n - 4096)" "\<forall>i\<ge>512. m i = m0 i"
    "mread m 0 446 = replicate 446 0" "mread m 447 3 = [0, 0, 0]" "mread m 451 3 = [0, 0, 0]"
    "mread m 462 48 = replicate 48 0"
proof -
  define s where "s = mbr_sector n ps ty"
  have len: "length s = 512" by (simp add: s_def length_gpt)
  have at: "m i = s ! i" if "i < 512" for i using that len by (simp add: m s_def mwrite_def)
  have rd: "mread m a k = seg a k s" if "a + k \<le> 512" for a k
    using that len mread_mwrite_inner [of 0 a k s m0] by (simp add: m s_def)
  have u: "unat (n - 4096) = unat n - 4096"
    using n by (simp add: unat_sub word_le_nat_alt)
  have p: "unat (ucast ps :: u32) = unat ps"
    using ps by (simp add: unsigned_ucast_eq take_bit_nat_eq_self)
  then have pp: "unat (ucast (ucast ps :: u32) :: u64) = unat ps"
    by (simp add: unsigned_ucast_eq unsigned_take_bit_eq)
  have t: "take_bit 32 k = k" if "\<not> unat ps \<le> k" for k
    using that ps by (simp add: take_bit_nat_eq_self)
  have sz: "unat (mbr_num_sectors n ps) = min (unat ps) (unat n - 4096)"
    using p pp u t by (auto simp: mbr_num_sectors_def Let_def word_less_nat_alt unsigned_ucast_eq
        take_bit_nat_eq_self min_def)
  show "m 446 = 0x80" "m 450 = ty" "m 510 = 0x55" "m 511 = 0xaa" "rd32 (mread m 454 4) = 4096"
    by (simp_all add: at rd s_def mbr_sector_def nth_append seg_def)
  have "rd32 (mread m 458 4) = mbr_num_sectors n ps"
    by (simp add: rd s_def mbr_sector_def nth_append seg_def)
  then show "unat (rd32 (mread m 458 4)) = min (unat ps) (unat n - 4096)" using sz by simp
  show "\<forall>i\<ge>512. m i = m0 i" using len by (simp add: m s_def mwrite_def)
  show "mread m 0 446 = replicate 446 0" "mread m 447 3 = [0, 0, 0]" "mread m 451 3 = [0, 0, 0]"
    "mread m 462 48 = replicate 48 0"
    by (simp_all add: rd s_def mbr_sector_def seg_def)
qed

text \<open>C24: \<open>usb_scsi_write_mbr\<close> on a working stick returns success and leaves a boot sector that
  ends in the signature and whose table has one active partition of the type given, starting at
  sector 4096, with the size asked for or all the stick has left, and three empty entries; every
  other byte of the sector is zero, the code area and the cylinder addresses of the partition
  included, and no byte behind the sector changes. \<open>update_mbr_type\<close> afterwards changes the type of
  that partition and nothing else.\<close>

theorem mbr_describes_partition:
  assumes dev: "bot_device u store idle cap epi epo" and inv: "disk_inv idle cap epi epo d"
    and cache: "g_cache_sectors d = 0" and n: "4096 \<le> unat (g_sector_count d)" "unat (g_sector_count d) \<le> cap"
    and ps: "unat ps < 2 ^ 32" and buf: "length buf = 512"
  shows "\<exists>d1 d2 m. usb_scsi_write_mbr u ps ty d = (0, d1) \<and> m = store (g_world d1)
    \<and> m 446 = 0x80 \<and> m 450 = ty \<and> rd32 (mread m 454 4) = 4096
    \<and> unat (rd32 (mread m 458 4)) = min (unat ps) (unat (g_sector_count d) - 4096)
    \<and> mread m 0 446 = replicate 446 0 \<and> mread m 447 3 = [0, 0, 0] \<and> mread m 451 3 = [0, 0, 0]
    \<and> mread m 462 48 = replicate 48 0
    \<and> m 510 = 0x55 \<and> m 511 = 0xaa \<and> (\<forall>i\<ge>512. m i = store (g_world d) i)
    \<and> update_mbr_type u buf ty' d1 = (0, d2) \<and> store (g_world d2) = m(450 := ty')"
proof -
  have c: "scsi_disk.clean idle cap epi epo d" using inv cache by (simp add: clean_on [OF dev])
  have cap: "0 < cap" using n by simp
  define m where "m = mwrite (store (g_world d)) 0 (mbr_sector (g_sector_count d) ps ty)"
  obtain d1 where d1: "usb_scsi_write_mbr u ps ty d = (0, d1)" "scsi_disk.wrote store idle d m d1"
    using mbr_on [OF dev c cap] by (auto simp: m_def)
  note post = post_on [OF dev c d1(2)] and f = mbr_written_fields [OF m_def n(1) ps]
  obtain d2 where d2: "update_mbr_type u buf ty' d1 = (0, d2)" "store (g_world d2) = m(450 := ty')"
    using mbr_type_on [OF dev _ cap buf, of d1 ty'] post f(3,4)
    by (auto simp: clean_on [OF dev] scsi_disk.wrote_def [OF bot_device.disk [OF dev]])
  then show ?thesis using d1(1) post(3) f by auto
qed

lemma mbr_describes_partition_witness:
  "\<exists>d1 d2 m. usb_scsi_write_mbr stick_usb 100000 0x0c table_drv = (0, d1) \<and> m = stick_medium (g_world d1)
    \<and> unat (rd32 (mread m 458 4)) = 12288 \<and> m 600 = 9
    \<and> update_mbr_type stick_usb (replicate 512 0) 0x0e d1 = (0, d2)
    \<and> stick_medium (g_world d2) 450 = 0x0e"
proof -
  obtain d1 d2 m where r: "usb_scsi_write_mbr stick_usb 100000 0x0c table_drv = (0, d1)"
    "m = stick_medium (g_world d1)"
    "unat (rd32 (mread m 458 4)) = min (unat (100000 :: u64)) (unat (g_sector_count table_drv) - 4096)"
    "\<forall>i\<ge>512. m i = stick_medium (g_world table_drv) i"
    "update_mbr_type stick_usb (replicate 512 0) 0x0e d1 = (0, d2)"
    "stick_medium (g_world d2) = m(450 := 0x0e)"
    using mbr_describes_partition [OF stick_device table_drv(1,2), of 100000 "replicate 512 0" "0x0c" "0x0e"]
    by (auto simp: table_drv)
  have "m 600 = 9" using r(4) by (simp add: table_drv)
  then show ?thesis using r by (auto simp: table_drv)
qed

text \<open>C25: The three erasing operations on a working stick succeed and clear exactly what they
  name: \<open>usb_scsi_wipe_mbr\<close> the first megabyte, \<open>usb_scsi_wipe_tail\<close> the last 34 sectors, and
  \<open>usb_scsi_wipe_partition_head\<close> the first 32 MB of the partition (128 MB for F2FS), durably and
  with an empty cache at the end.\<close>

theorem wipes_clear_exactly:
  assumes dev: "bot_device u store idle cap epi epo" and inv: "disk_inv idle cap epi epo d"
    and cache: "g_cache_sectors d = 0"
    and n: "n = unat (g_sector_count d)" "34 < n" "2048 \<le> n" "n \<le> cap"
    and head: "len = (if fsType = 8 then 134217728 else 33554432)"
      "actual_offset d 0 = int base" "base + len \<le> cap * 512"
  shows "\<exists>d1 d2 d3. usb_scsi_wipe_mbr u d = Some (0, d1) \<and> usb_scsi_wipe_tail u d1 = (0, d2)
    \<and> usb_scsi_wipe_partition_head u fsType d2 = Some (0, d3)
    \<and> disk_inv idle cap epi epo d3 \<and> g_cache_sectors d3 = 0
    \<and> (\<forall>i. store (g_world d3) i
        = (if i < 1048576 \<or> (n - 34) * 512 \<le> i \<and> i < n * 512 \<or> base \<le> i \<and> i < base + len
           then 0 else store (g_world d) i))"
proof -
  have c: "scsi_disk.clean idle cap epi epo d" using inv cache by (simp add: clean_on [OF dev])
  have cap: "2048 \<le> cap" using n by simp
  obtain d1 where d1: "usb_scsi_wipe_mbr u d = Some (0, d1)"
    "scsi_disk.wrote store idle d (erased (store (g_world d)) 0 1048576) d1"
    using wipe_mbr_on [OF dev c cap] by blast
  note p1 = post_on [OF dev c d1(2)]
  have c1: "scsi_disk.clean idle cap epi epo d1" using p1 by (simp add: clean_on [OF dev])
  have n1: "unat (g_sector_count d1) = n" using p1(4) n(1) by (simp add: io_frame_fields)
  obtain d2 where d2: "usb_scsi_wipe_tail u d1 = (0, d2)"
    "scsi_disk.wrote store idle d1 (erased (store (g_world d1)) ((n - 34) * 512) (n * 512)) d2"
    using wipe_tail_on [OF dev c1] n n1 by auto
  note p2 = post_on [OF dev c1 d2(2)]
  have o2: "actual_offset d2 0 = int base"
    using head(2) actual_offset_frame [OF io_frame_trans [OF p1(4) p2(4)]] by simp
  obtain d3 where d3: "usb_scsi_wipe_partition_head u fsType d2 = Some (0, d3)"
    "scsi_disk.clean idle cap epi epo d3" "store (g_world d3) = erased (disk_view store d2) base (base + len)"
    using wipe_head_on [OF dev p2(1) o2, of fsType] head(1,3) by auto
  have "disk_view store d2 = store (g_world d2)" using p2(2) by (simp add: disk_view_def)
  then show ?thesis
    using d1(1) d2(1) d3 p1(3) p2(3) by (auto simp: clean_on [OF dev] erased_def)
qed

lemma wipes_clear_exactly_witness:
  "\<exists>d1 d2 d3. usb_scsi_wipe_mbr stick_usb table_drv = Some (0, d1) \<and> usb_scsi_wipe_tail stick_usb d1 = (0, d2)
    \<and> usb_scsi_wipe_partition_head stick_usb 1 d2 = Some (0, d3)
    \<and> stick_medium (g_world d3) 1000 = 0 \<and> stick_medium (g_world d3) 40000000 = 9"
proof -
  obtain d1 d2 d3 where r: "usb_scsi_wipe_mbr stick_usb table_drv = Some (0, d1)"
    "usb_scsi_wipe_tail stick_usb d1 = (0, d2)" "usb_scsi_wipe_partition_head stick_usb 1 d2 = Some (0, d3)"
    "\<forall>i. stick_medium (g_world d3) i = (if i < 1048576 \<or> (16384 - 34) * 512 \<le> i \<and> i < 16384 * 512
        \<or> 0 \<le> i \<and> i < 0 + 33554432 then 0 else stick_medium (g_world table_drv) i)"
    using wipes_clear_exactly [OF stick_device table_drv(1,2), of 16384 33554432 1 0]
    by (auto simp: table_drv)
  then show ?thesis by (simp add: table_drv)
qed

end
