(* ===== verification/FatProps.thy ===== *)
theory FatProps
  imports FatFormat PartitionProps
begin

text \<open>
  Properties of the FAT formatter: the volume it leaves has the boot sector, both FATs and the
  root directory where the boot sector says, inside the space it took; how many clusters its FAT
  can describe; and that it does not keep to the partition it formats.
\<close>

section \<open>Writing inside the volume\<close>

lemma first_entries_length: "length (fat_first_entries ty) \<le> 12"
  by (simp add: fat_first_entries_def)

lemma length_fat [simp]:
  "length (fat_boot_sector ty us off spc fs sn label) = 512" "length fat_fsinfo = 512"
  "length (fat_chunk ty) = 32768"
proof -
  have "length (fat_vol_label label) = 11" by (simp add: fat_vol_label_def Let_def)
  then show "length (fat_boot_sector ty us off spc fs sn label) = 512"
    by (simp add: fat_boot_sector_def Let_def)
  show "length (fat_chunk ty) = 32768"
    using first_entries_length [of ty] by (simp add: fat_chunk_def patch_def)
qed (simp add: fat_fsinfo_def)

lemma fat_chunk_zeros: "fat_chunk ty = fat_first_entries ty @ replicate (32768 - length (fat_first_entries ty)) 0"
  using first_entries_length [of ty] by (simp add: fat_chunk_def patch_def)

context scsi_disk
begin

text \<open>The volume starts at byte \<open>base\<close> of the stick, and \<open>room\<close> bytes of it may be used.\<close>

definition at :: "nat \<Rightarrow> nat \<Rightarrow> 'w drv \<Rightarrow> bool" where
  "at base room d \<longleftrightarrow> inv d \<and> actual_offset d 0 = int base \<and> base + room \<le> cap * 512"

definition put :: "nat \<Rightarrow> nat \<Rightarrow> 'w drv \<Rightarrow> medium \<Rightarrow> 'w drv \<Rightarrow> bool" where
  "put base room d m d' \<longleftrightarrow> at base room d' \<and> io_frame d d' \<and> view d' = m"

lemma put_trans: "put base room d m1 d1 \<Longrightarrow> put base room d1 m2 d2 \<Longrightarrow> put base room d m2 d2"
  using io_frame_trans by (auto simp: put_def)

lemma put_refl: "at base room d \<Longrightarrow> put base room d (view d) d"
  by (simp add: put_def)

lemma pwrite_put:
  assumes "at base room d" "0 \<le> off" "nat off + length buf \<le> room" "length buf < 2 ^ 32"
  shows "\<exists>d'. scsi_pwrite u buf (int (length buf)) off d = Some (int (length buf), d')
    \<and> put base room d (mwrite (view d) (base + nat off) buf) d'"
proof -
  have a: "inv d" "actual_offset d 0 = int base" "base + room \<le> cap * 512"
    using assms(1) by (simp_all add: at_def)
  have o: "actual_offset d off = int base + off" using a(2) by (simp add: actual_offset_def)
  have n: "nat (int base + off) = base + nat off" using assms(2) by (simp add: nat_add_distrib)
  have "int (nat off) = off" using assms(2) by simp
  then have fit: "int base + off + int (length buf) \<le> int (cap * 512)" using assms(3) a(3) by linarith
  obtain d' where d': "scsi_pwrite u buf (int (length buf)) off d = Some (int (length buf), d')"
    "inv d'" "view d' = mwrite (view d) (base + nat off) buf" "io_frame d d'"
    using pwrite [OF a(1), of off buf] o n assms(2-4) fit by auto
  then show ?thesis
    using a actual_offset_frame [OF d'(4), of 0] by (auto simp: put_def at_def)
qed

lemma fat_put_ok:
  assumes "at base room d" "unat off + length buf \<le> room" "length buf < 2 ^ 32"
  shows "\<exists>d'. fat_put u buf off d = Some d' \<and> put base room d (mwrite (view d) (base + unat off) buf) d'"
  using pwrite_put [OF assms(1), of "uint off" buf] assms(2,3) by (auto simp: fat_put_def)

lemma fat_zero_loop_ok:
  assumes "at base room d" "unat offset + unat area \<le> room" "unat offset + unat area < 2 ^ 32"
    "unat area + 32768 < 2 ^ 32"
  shows "\<exists>d'. fat_zero_loop u offset area i d = Some d'
    \<and> put base room d (erased (view d) (base + unat offset + unat i) (base + unat offset + unat area)) d'"
  using assms
proof (induction "unat area - unat i" arbitrary: i d rule: less_induct)
  case less
  show ?case
  proof (cases "i < area")
    case False
    then have "erased (view d) (base + unat offset + unat i) (base + unat offset + unat area) = view d"
      by (intro ext) (auto simp: erased_def word_less_nat_alt)
    then show ?thesis
      using False put_refl [OF less.prems(1)] by (subst fat_zero_loop.simps) simp
  next
    case True
    then have lt: "unat i < unat area" by (simp add: word_less_nat_alt)
    define n where "n = (if area - i > 32768 then 32768 else area - i)"
    have un: "unat (area - i) = unat area - unat i" using lt by (subst unat_sub) (simp_all add: word_le_nat_alt)
    have n: "unat n = min 32768 (unat area - unat i)" by (auto simp: n_def word_less_nat_alt un min_def)
    have oi: "unat (offset + i) = unat offset + unat i"
      using less.prems(3) lt by (simp add: unat_word_ariths)
    have i2: "unat (i + 32768) = unat i + 32768"
      using less.prems(4) lt by (simp add: unat_word_ariths)
    have lim: "unat offset + unat i + unat n \<le> room" "unat n < 2 ^ 32" using n less.prems(2) lt by auto
    obtain d1 where d1: "fat_put u (replicate (unat n) 0) (offset + i) d = Some d1"
      "put base room d (erased (view d) (base + unat offset + unat i) (base + unat offset + unat i + unat n)) d1"
      using fat_put_ok [OF less.prems(1), of "offset + i" "replicate (unat n) 0"] lim
      by (auto simp: oi mwrite_zeros add.assoc)
    have a1: "at base room d1" using d1(2) by (simp add: put_def)
    have dec: "unat area - unat (i + 32768) < unat area - unat i" unfolding i2 using lt by linarith
    obtain d2 where d2: "fat_zero_loop u offset area (i + 32768) d1 = Some d2"
      "put base room d1 (erased (view d1) (base + unat offset + unat (i + 32768)) (base + unat offset + unat area)) d2"
      using less.hyps [OF dec a1 less.prems(2-4)] by blast
    have "erased (view d1) (base + unat offset + unat (i + 32768)) (base + unat offset + unat area)
        = erased (view d) (base + unat offset + unat i) (base + unat offset + unat area)"
    proof -
      have "view d1 = erased (view d) (base + unat offset + unat i) (base + unat offset + unat i + unat n)"
        using d1(2) by (simp add: put_def)
      then show ?thesis using lt by (auto simp: erased_def i2 n min_def fun_eq_iff)
    qed
    moreover have "fat_zero_loop u offset area i d = Some d2"
      using True d1(1) d2(1) by (subst fat_zero_loop.simps) (simp add: n_def [symmetric] Let_def)
    ultimately show ?thesis using put_trans [OF d1(2) d2(2)] by auto
  qed
qed

end

section \<open>One FAT\<close>

definition fat_table_bytes :: "int \<Rightarrow> nat \<Rightarrow> bytes" where
  "fat_table_bytes ty area = fat_first_entries ty @ replicate (area - length (fat_first_entries ty)) 0"

definition fat_table_written :: "int \<Rightarrow> nat \<Rightarrow> nat \<Rightarrow> medium \<Rightarrow> medium" where
  "fat_table_written ty a area m = erased (mwrite m a (fat_chunk ty)) (a + 32768) (a + area)"

lemma fat_table_reads:
  assumes "12 \<le> area"
  shows "mread (fat_table_written ty a area m) a area = fat_table_bytes ty area"
    "i < a \<Longrightarrow> fat_table_written ty a area m i = m i"
    "a + max 32768 area \<le> i \<Longrightarrow> fat_table_written ty a area m i = m i"
proof -
  show "mread (fat_table_written ty a area m) a area = fat_table_bytes ty area"
  proof (rule nth_equalityI)
    fix j assume "j < length (mread (fat_table_written ty a area m) a area)"
    then have j: "j < area" by simp
    show "mread (fat_table_written ty a area m) a area ! j = fat_table_bytes ty area ! j"
      using j first_entries_length [of ty]
      by (auto simp: nth_mread fat_table_written_def erased_def mwrite_def fat_table_bytes_def
          fat_chunk_zeros nth_append)
  qed (use first_entries_length [of ty] assms in \<open>simp add: fat_table_bytes_def\<close>)
qed (auto simp: fat_table_written_def erased_def mwrite_def)

text \<open>The medium once the type of the partition was rewritten: only on a stick with a master boot
  record that carries the signature.\<close>

definition mbr_retyped :: "('w \<Rightarrow> medium) \<Rightarrow> int \<Rightarrow> 'w drv \<Rightarrow> medium" where
  "mbr_retyped store ty d =
    (let m = store (g_world d)
     in if g_partition_type d = 1 \<and> m 510 = 0x55 \<and> m 511 = 0xaa
        then m(450 := fat_mbr_type ty (g_drive_offset_sectors d) (fat_usable_sectors d)) else m)"

text \<open>The medium after the tables and the root directory, from the one before.\<close>

definition fat_volume :: "int \<Rightarrow> nat \<Rightarrow> bytes \<Rightarrow> nat \<Rightarrow> medium \<Rightarrow> medium" where
  "fat_volume ty base bs F m =
    (let r = fat_reserved_sectors ty * 512;
         m = mwrite m base bs;
         m = (if ty = 1 then mwrite (mwrite m (base + 3072) bs) (base + 512) fat_fsinfo else m);
         m = fat_table_written ty (base + r) (F * 512) m;
         m = fat_table_written ty (base + (r + F * 512)) (F * 512) m
     in if ty = 1 then m else erased m (base + (r + 2 * F * 512)) (base + (r + 2 * F * 512 + 16384)))"

context scsi_disk
begin

lemma fat_write_table_ok:
  assumes a: "at base room d" and off: "unat (fat_table_offset ty fs f) = o1"
    and area: "unat (fs * 512) = A" and fits: "o1 + A \<le> room" "o1 + 32768 \<le> room" "o1 + A < 2 ^ 32" "A + 32768 < 2 ^ 32"
  shows "\<exists>d'. fat_write_table u ty fs f d = Some d'
    \<and> put base room d (fat_table_written ty (base + o1) A (view d)) d'"
proof -
  obtain d1 where d1: "fat_put u (fat_chunk ty) (fat_table_offset ty fs f) d = Some d1"
    "put base room d (mwrite (view d) (base + o1) (fat_chunk ty)) d1"
    using fat_put_ok [OF a, of "fat_table_offset ty fs f" "fat_chunk ty"] fits(2) off by auto
  have a1: "at base room d1" using d1(2) by (simp add: put_def)
  obtain d2 where d2: "fat_zero_loop u (fat_table_offset ty fs f) (fs * 512) 32768 d1 = Some d2"
    "put base room d1 (erased (view d1) (base + o1 + 32768) (base + o1 + A)) d2"
    using fat_zero_loop_ok [OF a1, of "fat_table_offset ty fs f" "fs * 512" 32768] fits off area by auto
  have "view d1 = mwrite (view d) (base + o1) (fat_chunk ty)" using d1(2) by (simp add: put_def)
  then show ?thesis
    using d1(1) d2 put_trans [OF d1(2) d2(2)]
    by (simp add: fat_write_table_def fat_table_written_def)
qed

lemma update_mbr_type_keeps:
  assumes c: "clean d" and n: "0 < cap" and b: "length buf = 512"
    and unsigned: "\<not> (store (g_world d) 510 = 0x55 \<and> store (g_world d) 511 = 0xaa)"
  shows "wrote d (store (g_world d)) (snd (update_mbr_type u buf ty d))"
proof -
  have bd: "bound_to idle epi epo d" using c by (simp add: clean_def)
  obtain t w where r: "scsi_command u (cdb10 READ10 0 1) 0x80 (Some buf) 512 d
      = (0, Some (mread (store (g_world d)) 0 512), d\<lparr>g_tag := t, g_world := w\<rparr>)" "idle w"
    "store w = store (g_world d)"
    using read_law [OF bd, of 1 0 buf] n b by (auto simp: patch_whole)
  have "snd (update_mbr_type u buf ty d) = d\<lparr>g_tag := t, g_world := w\<rparr>"
    using r(1) unsigned by (auto simp: update_mbr_type_def nth_mread)
  then show ?thesis
    using r(2,3) past_cacheI(2) [of idle w] by (auto simp: wrote_def)
qed

lemma fat_table_offset_nat:
  assumes "(fat_reserved_sectors ty + f * unat fs) * 512 < 2 ^ 32"
  shows "unat (fat_table_offset ty fs f) = (fat_reserved_sectors ty + f * unat fs) * 512"
proof -
  have "fat_table_offset ty fs f = of_nat ((fat_reserved_sectors ty + f * unat fs) * 512)"
    by (simp add: fat_table_offset_def)
  then show ?thesis using assms by (simp add: unsigned_of_nat take_bit_nat_eq_self del: of_nat_mult of_nat_add)
qed

lemma fat_tables_ok:
  assumes a: "at base room d" and F: "F = unat fs" "F \<noteq> 0" "(fat_reserved_sectors ty + 2 * F) * 512 + 65536 < 2 ^ 32"
    "(fat_reserved_sectors ty + 2 * F) * 512 + 32768 \<le> room"
  shows "\<exists>d3. Option.bind (fat_write_table u ty fs 0 d) (\<lambda>d.
      Option.bind (fat_write_table u ty fs 1 d) (fat_write_root u ty fs)) = Some d3
    \<and> put base room d (let r = fat_reserved_sectors ty * 512;
         m = fat_table_written ty (base + (r + F * 512)) (F * 512) (fat_table_written ty (base + r) (F * 512) (view d))
     in if ty = 1 then m else erased m (base + (r + 2 * F * 512)) (base + (r + 2 * F * 512 + 16384))) d3"
proof -
  define r where "r = fat_reserved_sectors ty * 512"
  have o: "unat (fat_table_offset ty fs 0) = r" "unat (fat_table_offset ty fs 1) = r + F * 512"
    "unat (fat_table_offset ty fs 2) = r + 2 * F * 512"
    using fat_table_offset_nat [of ty 0 fs] fat_table_offset_nat [of ty 1 fs] fat_table_offset_nat [of ty 2 fs]
      F(1,3) by (simp_all add: r_def algebra_simps)
  have A: "unat (fs * 512) = F * 512" using F(1,3) by (simp add: unat_word_ariths)
  have lim: "r + 2 * F * 512 + 32768 \<le> room" "r + 2 * F * 512 + 65536 < 2 ^ 32"
    using F(3,4) by (simp_all add: r_def algebra_simps)
  obtain d1 where d1: "fat_write_table u ty fs 0 d = Some d1"
    "put base room d (fat_table_written ty (base + r) (F * 512) (view d)) d1"
    using fat_write_table_ok [OF a o(1) A] lim by auto
  have a1: "at base room d1" "view d1 = fat_table_written ty (base + r) (F * 512) (view d)"
    using d1(2) by (simp_all add: put_def)
  obtain d2 where d2: "fat_write_table u ty fs 1 d1 = Some d2"
    "put base room d1 (fat_table_written ty (base + (r + F * 512)) (F * 512) (view d1)) d2"
    using fat_write_table_ok [OF a1(1) o(2) A] lim by auto
  have a2: "at base room d2" "view d2 = fat_table_written ty (base + (r + F * 512)) (F * 512) (view d1)"
    using d2(2) by (simp_all add: put_def)
  show ?thesis
  proof (cases "ty = 1")
    case True
    then show ?thesis
      using d1(1) d2(1) put_trans [OF d1(2) d2(2)] a1(2)
      by (simp add: fat_write_root_def r_def Let_def)
  next
    case False
    have rs: "fat_root_dir_sectors ty = 32" using False by (simp add: fat_root_dir_sectors_def fat_root_dir_entries_def)
    obtain d3 where d3: "fat_zero_loop u (fat_table_offset ty fs 2) 16384 0 d2 = Some d3"
      "put base room d2 (erased (view d2) (base + (r + 2 * F * 512)) (base + (r + 2 * F * 512 + 16384))) d3"
      using fat_zero_loop_ok [OF a2(1), of "fat_table_offset ty fs 2" 16384 0] lim o(3)
      by (auto simp: add.assoc)
    then show ?thesis
      using False d1(1) d2(1) put_trans [OF put_trans [OF d1(2) d2(2)] d3(2)] a1(2) a2(2)
      by (simp add: fat_write_root_def rs r_def [symmetric] Let_def)
  qed
qed

lemma fat_format_ok:
  assumes c: "clean d" and a: "at base room d" and cap: "0 < cap" and mbr: "length mbr = 512"
    and us: "fat_usable_sectors d \<noteq> 0" and spc: "spc = fat_sectors_per_cluster ty cs"
    and fs: "fs = fat_size_sectors ty (fat_usable_sectors d) spc" "F = unat fs" "F \<noteq> 0"
    and lim: "(fat_reserved_sectors ty + 2 * F) * 512 + 65536 < 2 ^ 32"
      "(fat_reserved_sectors ty + 2 * F) * 512 + 32768 \<le> room"
    and bs: "bs = fat_boot_sector ty (fat_usable_sectors d) (g_drive_offset_sectors d) spc fs serial label"
  shows "\<exists>d'. usb_scsi_format_fat u serial mbr ty cs label d = Some (0, d')
    \<and> put base room d (fat_volume ty base bs F (mbr_retyped store ty d)) d'"
proof -
  define m where "m = mbr_retyped store ty d"
  define d0 where "d0 = (if g_partition_type d = 1
     then snd (update_mbr_type u mbr (fat_mbr_type ty (g_drive_offset_sectors d) (fat_usable_sectors d)) d) else d)"
  have m: "wrote d m d0"
  proof (cases "g_partition_type d = 1")
    case True
    show ?thesis
    proof (cases "store (g_world d) 510 = 0x55 \<and> store (g_world d) 511 = 0xaa")
      case sig: True
      then show ?thesis
        using True mbr_type_updated [OF c cap mbr,
            of "fat_mbr_type ty (g_drive_offset_sectors d) (fat_usable_sectors d)"]
        by (auto simp: d0_def m_def mbr_retyped_def Let_def)
    next
      case False
      then show ?thesis
        using True update_mbr_type_keeps [OF c cap mbr False] by (auto simp: d0_def m_def mbr_retyped_def Let_def)
    qed
  next
    case False
    have "wrote d (store (g_world d)) d"
      using c past_cacheI(3) by (auto simp: wrote_def clean_def disk_inv_def bound_to_def)
    then show ?thesis using False by (simp add: d0_def m_def mbr_retyped_def Let_def)
  qed
  note p0 = wrote_post [OF c m]
  have a0: "at base room d0" "view d0 = m"
    using a p0 actual_offset_frame [OF p0(4), of 0] past_cache_clean(3) [OF c] m
    by (simp_all add: at_def wrote_def)
  have lb: "length bs = 512" by (simp add: bs)
  have rm: "4096 \<le> room" using lim(2) by simp
  obtain d1 where d1: "scsi_pwrite u bs 512 0 d0 = Some (512, d1)" "put base room d0 (mwrite m base bs) d1"
    using pwrite_put [OF a0(1), of 0 bs] lb rm a0(2) by auto
  have a1: "at base room d1" "view d1 = mwrite m base bs" using d1(2) by (simp_all add: put_def)
  define m2 where "m2 = (if ty = 1 then mwrite (mwrite (mwrite m base bs) (base + 3072) bs) (base + 512) fat_fsinfo
     else mwrite m base bs)"
  obtain d2 where d2: "(if ty = 1 then Option.bind (fat_put u bs (6 * 512) d1) (fat_put u fat_fsinfo 512)
       else Some d1) = Some d2" "put base room d1 m2 d2"
  proof (cases "ty = 1")
    case True
    obtain e1 where e1: "fat_put u bs (6 * 512) d1 = Some e1" "put base room d1 (mwrite (view d1) (base + 3072) bs) e1"
      using fat_put_ok [OF a1(1), of "6 * 512" bs] lb rm by auto
    have b1: "at base room e1" "view e1 = mwrite (view d1) (base + 3072) bs" using e1(2) by (simp_all add: put_def)
    obtain e2 where e2: "fat_put u fat_fsinfo 512 e1 = Some e2"
      "put base room e1 (mwrite (view e1) (base + 512) fat_fsinfo) e2"
      using fat_put_ok [OF b1(1), of 512 fat_fsinfo] rm by auto
    show ?thesis
      by (rule that [of e2]) (use True e1(1) e2(1) put_trans [OF e1(2) e2(2)] b1(2) a1(2) in \<open>simp_all add: m2_def\<close>)
  next
    case False
    show ?thesis
      by (rule that [of d1]) (use False put_refl [OF a1(1)] a1(2) in \<open>simp_all add: m2_def\<close>)
  qed
  have a2: "at base room d2" "view d2 = m2" using d2(2) by (simp_all add: put_def)
  obtain d3 where d3: "Option.bind (fat_write_table u ty fs 0 d2) (\<lambda>d.
      Option.bind (fat_write_table u ty fs 1 d) (fat_write_root u ty fs)) = Some d3"
    "put base room d2 (fat_volume ty base bs F m) d3"
    using fat_tables_ok [OF a2(1) fs(2,3) lim] by (auto simp: a2(2) m2_def fat_volume_def Let_def)
  obtain t0 t1 where t: "fat_write_table u ty fs 0 d2 = Some t0" "fat_write_table u ty fs 1 t0 = Some t1"
    "fat_write_root u ty fs t1 = Some d3" using d3(1) by (auto simp: bind_eq_Some_conv)
  have "usb_scsi_format_fat u serial mbr ty cs label d
      = Option.bind (if ty = 1 then Option.bind (fat_put u bs (6 * 512) d1) (fat_put u fat_fsinfo 512)
          else Some d1) (\<lambda>d. Option.bind (fat_write_table u ty fs 0 d) (\<lambda>d.
            Option.bind (fat_write_table u ty fs 1 d) (\<lambda>d.
            Option.bind (fat_write_root u ty fs d) (\<lambda>d. Some (0, d)))))"
    unfolding usb_scsi_format_fat_def Let_def spc [symmetric] fs(1) [symmetric] bs [symmetric] d0_def [symmetric]
    using us d1(1) by simp
  then have "usb_scsi_format_fat u serial mbr ty cs label d = Some (0, d3)"
    unfolding d2(1) using t by simp
  moreover have "put base room d (fat_volume ty base bs F m) d3"
    using put_trans [OF put_trans [OF d1(2) d2(2)] d3(2)] p0(4) io_frame_trans by (auto simp: put_def)
  ultimately show ?thesis by (auto simp: m_def)
qed

end

section \<open>Reading the volume back\<close>

lemma fat_volume_reads:
  assumes F: "F \<noteq> 0" and bs: "length bs = 512"
    and V_def: "V = fat_volume ty base bs F m" and r_def: "r = fat_reserved_sectors ty * 512"
  shows "mread V base 512 = bs"
    "ty = 1 \<Longrightarrow> mread V (base + 3072) 512 = bs" "ty = 1 \<Longrightarrow> mread V (base + 512) 512 = fat_fsinfo"
    "mread V (base + r) (F * 512) = fat_table_bytes ty (F * 512)"
    "mread V (base + (r + F * 512)) (F * 512) = fat_table_bytes ty (F * 512)"
    "ty \<noteq> 1 \<Longrightarrow> mread V (base + (r + 2 * F * 512)) 16384 = replicate 16384 0"
    "i < base \<or> base + 512 \<le> i \<and> i < base + r
        \<and> (ty = 1 \<longrightarrow> (i < base + 3072 \<or> base + 3584 \<le> i) \<and> 1024 + base \<le> i)
      \<or> base + max (r + F * 512 + 32768) (r + 2 * F * 512 + (if ty = 1 then 0 else 16384)) \<le> i
      \<Longrightarrow> V i = m i"
proof -
  have A: "12 \<le> F * 512" using F by (cases F) simp_all
  have r: "4096 \<le> r" by (simp add: r_def fat_reserved_sectors_def)
  define m1 where "m1 = (if ty = 1 then mwrite (mwrite (mwrite m base bs) (base + 3072) bs) (base + 512) fat_fsinfo
     else mwrite m base bs)"
  define t1 t2 where "t1 = fat_table_written ty (base + r) (F * 512) m1"
    and "t2 = fat_table_written ty (base + (r + F * 512)) (F * 512) t1"
  define e where "e = base + (r + 2 * F * 512)"
  have V: "V = (if ty = 1 then t2 else erased t2 e (e + 16384))"
    by (simp add: V_def fat_volume_def Let_def r_def [symmetric] t1_def t2_def m1_def e_def add.assoc)
  note R = fat_table_reads [OF A]
  have same: "mread f a n = mread g a n" if "\<And>i. a \<le> i \<Longrightarrow> i < a + n \<Longrightarrow> f i = g i" for f g a n
    using that by (intro nth_equalityI) (simp_all add: nth_mread)
  have low: "V i = m1 i" if "i < base + r" for i
  proof -
    have "t1 i = m1 i" "t2 i = t1 i"
      using that R(2) [of i "base + r" ty m1] R(2) [of i "base + (r + F * 512)" ty t1]
      by (simp_all add: t2_def t1_def)
    then show ?thesis using that by (simp add: V erased_def e_def)
  qed
  have mid: "V i = t1 i" if "i < base + (r + F * 512)" for i
  proof -
    have "t2 i = t1 i" using that R(2) [of i "base + (r + F * 512)" ty t1] by (simp add: t2_def)
    then show ?thesis using that by (simp add: V erased_def e_def)
  qed
  have hi: "V i = t2 i" if "i < e" for i using that by (simp add: V erased_def)
  have lo: "mread V a n = mread m1 a n" if "a + n \<le> base + r" for a n
    by (rule same) (use that low in auto)
  have rb: "mread (mwrite x b ys) b n = ys" if "length ys = n" for x b ys n using that by auto
  show "mread V base 512 = bs"
    using lo [of base 512] r bs by (simp add: m1_def mread_mwrite_disjoint rb)
  show "mread V (base + 3072) 512 = bs" if "ty = 1"
    using lo [of "base + 3072" 512] r bs that by (simp add: m1_def mread_mwrite_disjoint rb)
  show "mread V (base + 512) 512 = fat_fsinfo" if "ty = 1"
    using lo [of "base + 512" 512] r that by (simp add: m1_def rb)
  have "mread V (base + r) (F * 512) = mread t1 (base + r) (F * 512)"
    by (rule same) (use mid in auto)
  then show "mread V (base + r) (F * 512) = fat_table_bytes ty (F * 512)"
    using R(1) by (simp add: t1_def)
  have "mread V (base + (r + F * 512)) (F * 512) = mread t2 (base + (r + F * 512)) (F * 512)"
    by (rule same) (use hi in \<open>auto simp: e_def\<close>)
  then show "mread V (base + (r + F * 512)) (F * 512) = fat_table_bytes ty (F * 512)"
    using R(1) by (simp add: t2_def)
  show "mread V (base + (r + 2 * F * 512)) 16384 = replicate 16384 0" if "ty \<noteq> 1"
    using that by (intro nth_equalityI) (simp_all add: nth_mread V erased_def e_def)
  show "V i = m i" if i: "i < base \<or> base + 512 \<le> i \<and> i < base + r
        \<and> (ty = 1 \<longrightarrow> (i < base + 3072 \<or> base + 3584 \<le> i) \<and> 1024 + base \<le> i)
      \<or> base + max (r + F * 512 + 32768) (r + 2 * F * 512 + (if ty = 1 then 0 else 16384)) \<le> i"
    (is "_ \<or> ?gap \<or> ?behind")
  proof -
    have "V i = m1 i" if "i < base \<or> ?gap" using that low by auto
    moreover have "m1 i = m i" using i r bs by (auto simp: m1_def mwrite_def)
    moreover have "V i = m1 i" if b: "?behind"
    proof -
      have "t1 i = m1 i" using b R(3) [of "base + r" i ty m1] by (simp add: t1_def)
      moreover have "t2 i = t1 i" using b R(3) [of "base + (r + F * 512)" i ty t1] by (simp add: t2_def)
      ultimately show ?thesis using b by (auto simp: V erased_def e_def)
    qed
    ultimately show ?thesis using i by auto
  qed
qed

text \<open>What a reader of the boot sector computes: where FAT \<open>k\<close> starts, how long it is.\<close>

definition bpb_fat_size :: "bytes \<Rightarrow> nat" where
  "bpb_fat_size b = (if unat (rd16 (drop 22 b)) \<noteq> 0 then unat (rd16 (drop 22 b)) else unat (rd32 (drop 36 b)))"

definition bpb_fat_start :: "bytes \<Rightarrow> nat \<Rightarrow> nat" where
  "bpb_fat_start b k = unat (rd16 (drop 14 b)) + k * bpb_fat_size b"

text \<open>FAT32 only: the sector of the FSInfo and of the copy of the boot sector.\<close>

definition bpb_fsinfo :: "bytes \<Rightarrow> nat" where
  "bpb_fsinfo b = unat (rd16 (drop 48 b))"

definition bpb_backup :: "bytes \<Rightarrow> nat" where
  "bpb_backup b = unat (rd16 (drop 50 b))"

definition bpb_total_sectors :: "bytes \<Rightarrow> nat" where
  "bpb_total_sectors b = (if unat (rd16 (drop 19 b)) \<noteq> 0 then unat (rd16 (drop 19 b)) else unat (rd32 (drop 32 b)))"

lemma fat_boot_fields:
  assumes b: "b = fat_boot_sector ty us off spc fs sn label"
  shows "rd16 (drop 11 b) = 512" "b ! 13 = spc" "rd16 (drop 14 b) = of_nat (fat_reserved_sectors ty)"
    "b ! 16 = 2" "rd16 (drop 17 b) = of_nat (fat_root_dir_entries ty)"
    "rd16 (drop 19 b) = (if us < 65536 \<and> ty \<noteq> 1 then ucast us else 0)"
    "rd16 (drop 22 b) = (if ty = 1 then 0 else ucast fs)"
    "rd32 (drop 28 b) = ucast off" "rd32 (drop 32 b) = (if us < 65536 \<and> ty \<noteq> 1 then 0 else ucast us)"
    "ty = 1 \<Longrightarrow> rd32 (drop 36 b) = fs" "b ! 510 = 0x55" "b ! 511 = 0xaa"
    "ty = 1 \<Longrightarrow> bpb_fsinfo b = 1" "ty = 1 \<Longrightarrow> bpb_backup b = 6"
proof -
  define T :: bytes where "T = (if ty = 1
     then le32 fs @ replicate 4 0 @ le32 2 @ le16 1 @ le16 6 @ replicate 14 0 @ [0x29]
          @ le32 sn @ fat_vol_label label @ map of_char ''FAT32   '' @ replicate 420 0
     else replicate 2 0 @ [0x29] @ le32 sn @ fat_vol_label label
          @ map of_char (if ty = 2 then ''FAT16   '' else ''FAT12   '') @ replicate 448 0)"
  have "length (fat_vol_label label) = 11" by (simp add: fat_vol_label_def Let_def)
  then have T: "length T = 474" by (simp add: T_def)
  define P :: bytes where "P = [0xeb, if ty = 1 then 0x58 else 0x3c, 0x90] @ map of_char ''MSWIN4.1''"
  have P: "length P = 11" by (simp add: P_def)
  define small where "small \<longleftrightarrow> us < 65536 \<and> ty \<noteq> 1"
  have e: "b = P @ le16 512 @ [spc] @ le16 (of_nat (fat_reserved_sectors ty)) @ [2]
        @ le16 (of_nat (fat_root_dir_entries ty)) @ le16 (if small then ucast us else 0) @ [0xf8]
        @ le16 (if ty = 1 then 0 else ucast fs) @ le16 32 @ le16 64 @ le32 (ucast off)
        @ le32 (if small then 0 else ucast us) @ T @ [0x55, 0xaa]"
    by (simp add: b fat_boot_sector_def Let_def P_def T_def small_def)
  show "rd16 (drop 11 b) = 512" "b ! 13 = spc" "rd16 (drop 14 b) = of_nat (fat_reserved_sectors ty)"
    "b ! 16 = 2" "rd16 (drop 17 b) = of_nat (fat_root_dir_entries ty)"
    "rd16 (drop 22 b) = (if ty = 1 then 0 else ucast fs)" "rd32 (drop 28 b) = ucast off"
    "b ! 510 = 0x55" "b ! 511 = 0xaa"
    by (simp_all add: e P T nth_append)
  show "rd16 (drop 19 b) = (if us < 65536 \<and> ty \<noteq> 1 then ucast us else 0)"
    "rd32 (drop 32 b) = (if us < 65536 \<and> ty \<noteq> 1 then 0 else ucast us)"
    by (simp_all add: e P small_def)
  show "rd32 (drop 36 b) = fs" "bpb_fsinfo b = 1" "bpb_backup b = 6" if "ty = 1"
    using that by (simp_all add: e P T_def bpb_fsinfo_def bpb_backup_def)
qed

section \<open>Properties\<close>

lemmas fat_format_on = scsi_disk.fat_format_ok [OF bot_device.disk]

text \<open>The bytes the formatter has no reason to touch, by the fields of the boot sector: those in
  front of the volume, those of the reserved sectors but for the boot sector and, for FAT32, its
  copy and the FSInfo, and those behind the tables and, for FAT12 and FAT16, the root directory.
  The first 32 KB of a table are always written, also where it is shorter.\<close>

definition fat_keeps :: "int \<Rightarrow> nat \<Rightarrow> bytes \<Rightarrow> nat \<Rightarrow> bool" where
  "fat_keeps ty base b i \<longleftrightarrow> i < base
     \<or> base + 512 \<le> i \<and> i < base + bpb_fat_start b 0 * 512
       \<and> (ty = 1 \<longrightarrow> (i - base) div 512 \<noteq> bpb_backup b \<and> (i - base) div 512 \<noteq> bpb_fsinfo b)
     \<or> base + max (bpb_fat_start b 1 * 512 + 32768)
         (bpb_fat_start b 2 * 512 + (if ty = 1 then 0 else 16384)) \<le> i"

lemma sector_outside:
  "(i - base) div 512 \<noteq> (k :: nat) \<Longrightarrow> i < base + k * 512 \<or> base + k * 512 + 512 \<le> i"
  by (rule ccontr) (auto dest: div_nat_eqI)

lemma fat_formatted_on:
  assumes dev: "bot_device u store idle cap epi epo" and inv: "disk_inv idle cap epi epo d"
    and cache: "g_cache_sectors d = 0" and base: "actual_offset d 0 = int base" "512 \<le> base"
    and us: "us = unat (fat_usable_sectors d)" "us \<noteq> 0" "base + us * 512 \<le> cap * 512"
    and bs: "bs = fat_boot_sector ty (fat_usable_sectors d) (g_drive_offset_sectors d)
       (fat_sectors_per_cluster ty cs) fs serial label"
    and fs: "fs = fat_size_sectors ty (fat_usable_sectors d) (fat_sectors_per_cluster ty cs)"
    and F: "F = unat fs" "F \<noteq> 0" "(fat_reserved_sectors ty + 2 * F + 64) * 512 \<le> us * 512"
      "(fat_reserved_sectors ty + 2 * F) * 512 + 65536 < 2 ^ 32" "ty = 1 \<or> F < 65536"
    and mbr: "length mbr = 512"
  shows "\<exists>d' m. usb_scsi_format_fat u serial mbr ty cs label d = Some (0, d')
    \<and> disk_inv idle cap epi epo d' \<and> m = disk_view store d' \<and> mread m base 512 = bs
    \<and> bpb_fat_size bs = F
    \<and> mread m (base + bpb_fat_start bs 0 * 512) (F * 512) = fat_table_bytes ty (F * 512)
    \<and> mread m (base + bpb_fat_start bs 1 * 512) (F * 512) = fat_table_bytes ty (F * 512)
    \<and> (if ty = 1 then mread m (base + bpb_backup bs * 512) 512 = bs \<and> mread m (base + bpb_fsinfo bs * 512) 512 = fat_fsinfo
       else mread m (base + bpb_fat_start bs 2 * 512) 16384 = replicate 16384 0)
    \<and> (\<forall>i. fat_keeps ty base bs i \<longrightarrow> m i = mbr_retyped store ty d i)
    \<and> (\<forall>i. base + us * 512 \<le> i \<longrightarrow> fat_keeps ty base bs i)"
proof -
  have c: "scsi_disk.clean idle cap epi epo d" using inv cache by (simp add: clean_on [OF dev])
  have a: "scsi_disk.at idle cap epi epo base (us * 512) d"
    using inv base us(3) by (simp add: scsi_disk.at_def [OF bot_device.disk [OF dev]])
  have cap: "0 < cap" using us(2,3) by (cases cap) simp_all
  have us0: "fat_usable_sectors d \<noteq> 0" using us(1,2) by auto
  have room: "(fat_reserved_sectors ty + 2 * F) * 512 + 32768 \<le> us * 512" using F(3) by simp
  define m0 where "m0 = mbr_retyped store ty d"
  obtain d' where f: "usb_scsi_format_fat u serial mbr ty cs label d = Some (0, d')"
    "scsi_disk.put store idle cap epi epo base (us * 512) d (fat_volume ty base bs F m0) d'"
    using fat_format_on [OF dev c a cap mbr us0 refl fs F(1,2,4) room bs] by (auto simp: m0_def)
  have p: "disk_inv idle cap epi epo d'" "disk_view store d' = fat_volume ty base bs F m0"
    using f(2) by (simp_all add: scsi_disk.put_def [OF bot_device.disk [OF dev]]
        scsi_disk.at_def [OF bot_device.disk [OF dev]])
  have lb: "length bs = 512" by (simp add: bs)
  note r = fat_volume_reads [OF F(2) lb refl refl, where ty = ty and base = base and m = m0] and b = fat_boot_fields [OF bs]
  define rr where "rr = fat_reserved_sectors ty * 512"
  have rs: "unat (rd16 (drop 14 bs)) = fat_reserved_sectors ty"
    by (simp add: b fat_reserved_sectors_def)
  have sz: "bpb_fat_size bs = F"
    using F(1,2,5) by (auto simp: bpb_fat_size_def b unsigned_ucast_eq take_bit_nat_eq_self)
  have st: "bpb_fat_start bs k * 512 = rr + k * F * 512" for k
    by (simp add: bpb_fat_start_def rs sz rr_def algebra_simps)
  have keeps: "fat_volume ty base bs F m0 i = m0 i" if i: "fat_keeps ty base bs i" for i
  proof (rule r(7) [folded rr_def])
    have "(ty = 1 \<longrightarrow> (i < base + 3072 \<or> base + 3584 \<le> i) \<and> 1024 + base \<le> i)"
      if "base + 512 \<le> i" "ty = 1 \<longrightarrow> (i - base) div 512 \<noteq> bpb_backup bs \<and> (i - base) div 512 \<noteq> bpb_fsinfo bs"
      using that sector_outside [of i base 6] sector_outside [of i base 1] b(13,14) by auto
    then show "i < base \<or> base + 512 \<le> i \<and> i < base + rr
        \<and> (ty = 1 \<longrightarrow> (i < base + 3072 \<or> base + 3584 \<le> i) \<and> 1024 + base \<le> i)
      \<or> base + max (rr + F * 512 + 32768) (rr + 2 * F * 512 + (if ty = 1 then 0 else 16384)) \<le> i"
      using i unfolding fat_keeps_def st by (cases "ty = 1") auto
  qed
  have "fat_keeps ty base bs i" if i: "base + us * 512 \<le> i" for i
  proof -
    have "base + (rr + 2 * F * 512 + 32768) \<le> i"
      using i room by (auto simp: rr_def algebra_simps)
    then show ?thesis unfolding fat_keeps_def st by auto
  qed
  then show ?thesis
    using f(1) p r(1-6) sz keeps b(13,14)
    by (intro exI [of _ d'] exI [of _ "fat_volume ty base bs F m0"])
      (simp add: st rr_def [symmetric] m0_def [symmetric])
qed

text \<open>C27: Formatting a volume as FAT on a working stick returns, succeeds, and leaves a volume that
  its boot sector describes: a reader that takes the place and the length of the FATs from the
  boot sector finds in both of them the reserved first entries and otherwise free clusters; for
  FAT12 and FAT16 the root directory behind them is empty, for FAT32 the copy of the boot sector
  and the FSInfo are in the sectors its fields name. Nothing else changes, in the volume or
  outside, but for the rest of the first 32 KB from the start of each table where tables are
  shorter, and the type of the partition, which is rewritten on a stick with a master boot record
  that carries the signature.\<close>

theorem fat_volume_as_described:
  assumes dev: "bot_device u store idle cap epi epo" and inv: "disk_inv idle cap epi epo d"
    and cache: "g_cache_sectors d = 0" and base: "actual_offset d 0 = int base" "512 \<le> base"
    and us: "us = unat (fat_usable_sectors d)" "us \<noteq> 0" "base + us * 512 \<le> cap * 512"
    and bs: "bs = fat_boot_sector ty (fat_usable_sectors d) (g_drive_offset_sectors d)
       (fat_sectors_per_cluster ty cs) fs serial label"
    and fs: "fs = fat_size_sectors ty (fat_usable_sectors d) (fat_sectors_per_cluster ty cs)"
    and F: "F = unat fs" "F \<noteq> 0" "(fat_reserved_sectors ty + 2 * F + 64) * 512 \<le> us * 512"
      "(fat_reserved_sectors ty + 2 * F) * 512 + 65536 < 2 ^ 32" "ty = 1 \<or> F < 65536"
    and mbr: "length mbr = 512"
  shows "\<exists>d' m. usb_scsi_format_fat u serial mbr ty cs label d = Some (0, d')
    \<and> disk_inv idle cap epi epo d' \<and> m = disk_view store d' \<and> mread m base 512 = bs
    \<and> bpb_fat_size bs = F
    \<and> mread m (base + bpb_fat_start bs 0 * 512) (F * 512) = fat_table_bytes ty (F * 512)
    \<and> mread m (base + bpb_fat_start bs 1 * 512) (F * 512) = fat_table_bytes ty (F * 512)
    \<and> (if ty = 1 then mread m (base + bpb_backup bs * 512) 512 = bs \<and> mread m (base + bpb_fsinfo bs * 512) 512 = fat_fsinfo
       else mread m (base + bpb_fat_start bs 2 * 512) 16384 = replicate 16384 0)
    \<and> (\<forall>i. fat_keeps ty base bs i \<longrightarrow> m i = mbr_retyped store ty d i)
    \<and> (\<forall>i. base + us * 512 \<le> i \<longrightarrow> fat_keeps ty base bs i)"
  using fat_formatted_on [OF assms] .

text \<open>A stick of 34 MB with a partition of 32 MB behind its first 2 MB.\<close>

definition fat_drv :: "stick drv" where
  "fat_drv = (stick_drv (\<lambda>_. 9))\<lparr>g_sector_count := 69632, g_drive_offset_sectors := 4096,
     g_partition_type := 1\<rparr>"

lemma fat_drv:
  "disk_inv stick_idle (2 ^ 32) 0x81 0x02 fat_drv" "g_cache_sectors fat_drv = 0"
  "fat_usable_sectors fat_drv = 65536" "stick_medium (g_world fat_drv) = (\<lambda>_. 9)"
  "actual_offset fat_drv 0 = int 2097152" "g_drive_offset_sectors fat_drv = 4096"
  by (simp_all add: fat_drv_def actual_offset_def disk_inv_def bound_to_def stick_drv_def stick_idle_def
      cache_wf_def fat_usable_sectors_def)

lemma fat_volume_as_described_witness:
  "\<exists>d' m. usb_scsi_format_fat stick_usb 7 (replicate 512 0) 1 4096 [0x55] fat_drv = Some (0, d')
    \<and> m = disk_view stick_medium d' \<and> mread m (2097152 + 32 * 512) 12 = fat_first_entries 1
    \<and> mread m (2097152 + 96 * 512) 12 = fat_first_entries 1
    \<and> m 450 = 9 \<and> m (2097152 + 5120) = 9"
proof -
  define fs where "fs = fat_size_sectors 1 65536 (fat_sectors_per_cluster 1 4096)"
  have fs: "fs = 64" by (simp add: fs_def fat_size_sectors_def fat_sectors_per_cluster_def fat_reserved_sectors_def)
  define bs where "bs = fat_boot_sector 1 65536 4096 (fat_sectors_per_cluster 1 4096) fs 7 [0x55]"
  have st: "bpb_fat_start bs k = 32 + k * 64" for k
    using fat_boot_fields(3,7,10) [OF bs_def]
    by (simp add: bpb_fat_start_def bpb_fat_size_def fat_reserved_sectors_def fs)
  have hyp: "65536 = unat (fat_usable_sectors fat_drv)" "(65536 :: nat) \<noteq> 0"
    "2097152 + 65536 * 512 \<le> (2 ^ 32 * 512 :: nat)" "512 \<le> (2097152 :: nat)"
    "bs = fat_boot_sector 1 (fat_usable_sectors fat_drv) (g_drive_offset_sectors fat_drv)
       (fat_sectors_per_cluster 1 4096) fs 7 [0x55]"
    "fs = fat_size_sectors 1 (fat_usable_sectors fat_drv) (fat_sectors_per_cluster 1 4096)"
    "64 = unat fs" "(64 :: nat) \<noteq> 0" "(fat_reserved_sectors 1 + 2 * 64 + 64) * 512 \<le> 65536 * 512"
    "(fat_reserved_sectors 1 + 2 * 64) * 512 + 65536 < 2 ^ 32" "(1 :: int) = 1 \<or> 64 < (65536 :: nat)"
    "length (replicate 512 (0 :: u8)) = 512"
    by (simp_all only: fat_drv bs_def fs_def) (simp_all add: fs [unfolded fs_def] fat_reserved_sectors_def)
  obtain d' m where r: "usb_scsi_format_fat stick_usb 7 (replicate 512 0) 1 4096 [0x55] fat_drv = Some (0, d')"
    "m = disk_view stick_medium d'"
    "mread m (2097152 + bpb_fat_start bs 0 * 512) (64 * 512) = fat_table_bytes 1 (64 * 512)"
    "mread m (2097152 + bpb_fat_start bs 1 * 512) (64 * 512) = fat_table_bytes 1 (64 * 512)"
    "\<forall>i. fat_keeps 1 2097152 bs i \<longrightarrow> m i = mbr_retyped stick_medium 1 fat_drv i"
    using fat_volume_as_described [OF stick_device fat_drv(1,2,5) hyp(4,1-3,5-12)] by blast
  have h: "mread m a 12 = fat_first_entries 1" if "mread m a (64 * 512) = fat_table_bytes 1 (64 * 512)" for a
    using seg_mread [of 0 12 "64 * 512" m a] that by (simp add: seg_def fat_table_bytes_def fat_first_entries_def)
  have "m 450 = 9" "m (2097152 + 5120) = 9"
    using r(5) fat_boot_fields(13,14) [OF bs_def] by (simp_all add: fat_keeps_def st mbr_retyped_def fat_drv)
  then show ?thesis using r h by (auto simp: st)
qed

lemma fat32_size_nat:
  assumes us: "32 \<le> unat us" "unat us < 2 ^ 32" and s: "s = unat spc" and t: "t = unat us - 32"
  shows "unat (fat_size_sectors 1 us spc) = (t * 4 + 512 * s + 7) div (512 * s + 8)"
proof -
  have s_def: "s = unat spc" and t_def: "t = unat us - 32" by (fact s t)+
  have s: "s < 256" using unsigned_less [of spc] by (simp add: s_def)
  define N D where "N = t * 4 + 512 * s + 7" and "D = 512 * s + 8"
  have "of_nat t = us - 32"
    using us(1) by (simp add: t_def of_nat_diff)
  moreover have "(512 * ucast spc + 8 :: u64) = of_nat D" by (simp add: D_def s_def)
  moreover have "(of_nat N :: u64) = of_nat t * 4 + of_nat D - 1" by (simp add: N_def D_def)
  ultimately have "fat_size_sectors 1 us spc = ucast ((of_nat N :: u64) div of_nat D)"
    by (simp add: fat_size_sectors_def fat_reserved_sectors_def Let_def)
  moreover have small: "N < 2 ^ 64" "D < 2 ^ 64" using us(2) s by (simp_all add: N_def D_def t_def)
  moreover have "unat ((of_nat N :: u64) div of_nat D) = N div D"
    using small by (simp add: unat_div unsigned_of_nat take_bit_nat_eq_self)
  moreover have "N div D < 2 ^ 32"
  proof -
    have "N \<le> t * 4 + D" by (simp add: N_def D_def)
    moreover have "8 \<le> D" by (simp add: D_def)
    moreover have "(t * 4 + D) div D \<le> t + 1"
    proof -
      have "t * 4 \<le> t * D" using \<open>8 \<le> D\<close> by (intro mult_le_mono2) simp
      then have "t * 4 div D \<le> t" using div_le_mono [of "t * 4" "t * D" D] \<open>8 \<le> D\<close> by simp
      moreover have "(t * 4 + D) div D = t * 4 div D + 1"
        using \<open>8 \<le> D\<close> by (intro div_add_self2) simp
      ultimately show ?thesis by simp
    qed
    ultimately show ?thesis using us(2) div_le_mono [of N "t * 4 + D" D] us(1) by (simp add: t_def)
  qed
  ultimately show ?thesis
    by (simp add: N_def [symmetric] D_def [symmetric] unsigned_ucast_eq take_bit_nat_eq_self)
qed

text \<open>How many clusters the FAT32 tables can describe. They have an entry for every cluster
  number less two: the size is computed without the two reserved entries. On a volume whose
  sectors behind the reserved ones are a multiple of \<open>128 * spc + 2\<close> the last two clusters have no
  entry.\<close>

theorem fat32_entries_for_clusters:
  assumes us: "32 \<le> unat us" "unat us < 2 ^ 32" and spc: "spc \<noteq> 0"
    and F: "F = unat (fat_size_sectors 1 us spc)"
    and n: "n = (unat us - 32 - 2 * F) div unat spc"
  shows "n * 4 \<le> F * 512
    \<and> (\<forall>k>0. unat us = 32 + (128 * unat spc + 2) * k \<longrightarrow> n = 128 * k \<and> F * 512 < (n + 2) * 4)"
proof -
  define s t where "s = unat spc" and "t = unat us - 32"
  have s: "0 < s" "s < 256"
    using spc unsigned_less [of spc] by (simp_all add: s_def unat_gt_0)
  define N D where "N = t * 4 + 512 * s + 7" and "D = 512 * s + 8"
  have F: "F = N div D"
    using fat32_size_nat [OF us s_def t_def] by (simp add: F N_def D_def)
  have low: "t * 4 \<le> F * D"
  proof -
    have "N < (N div D + 1) * D" using s by (simp add: D_def dividend_less_div_times)
    then show ?thesis by (simp add: F N_def D_def)
  qed
  have nt: "n = (t - 2 * F) div s" by (simp add: n t_def s_def)
  have ns: "n * s \<le> t - 2 * F" using div_times_less_eq_dividend [of "t - 2 * F" s] by (simp add: nt)
  have "n * 4 \<le> F * 512"
  proof -
    have "n * 4 * s \<le> (t - 2 * F) * 4" using ns by simp
    also have "\<dots> \<le> F * D - 8 * F" using low by simp
    also have "\<dots> = F * 512 * s" by (simp add: D_def algebra_simps)
    finally show ?thesis using s(1) by simp
  qed
  moreover have "n = 128 * k \<and> F * 512 < (n + 2) * 4"
    if k: "0 < k" "unat us = 32 + (128 * unat spc + 2) * k" for k
  proof -
    have t: "t = (128 * s + 2) * k" using k(2) by (simp add: t_def s_def)
    have "N = 512 * s + 7 + k * D" by (simp add: N_def D_def t algebra_simps)
    then have "F = k" using s by (simp add: F D_def)
    then have "t - 2 * F = 128 * k * s" by (simp add: t algebra_simps)
    then show ?thesis using s(1) \<open>F = k\<close> by (simp add: nt)
  qed
  ultimately show ?thesis by blast
qed

lemma fat32_entries_for_clusters_witness:
  "unat (fat_size_sectors 1 1026032 8) * 512 < ((unat (1026032 :: u64) - 32 - 2 * unat (fat_size_sectors 1 1026032 8))
      div unat (8 :: u8) + 2) * 4"
  using fat32_entries_for_clusters [of 1026032 8, OF _ _ _ refl refl] by (auto dest!: spec [of _ 1000])

end
