(* ===== verification/FormatProps.thy ===== *)
theory FormatProps
  imports FormatApp FatProps
begin

text \<open>
  Properties of the whole run of \<open>startStableFormat\<close>: the partition it chooses lies on the stick,
  a run for exFAT with a GUID partition table leaves a stick with both, durably, and the FAT
  formatter does not keep to the partition that was chosen for it.
\<close>

section \<open>The chosen partition\<close>

lemma choose_part_nat:
  assumes "choose_part_sectors n pt ty cs = Some ps"
  shows "0 < unat (table_offset pt) + unat ps"
    "unat (table_offset pt) + unat ps + unat (table_reserved_end pt) \<le> unat n"
    "fs_cap_sectors ty cs > 0 \<longrightarrow> unat ps \<le> unat (fs_cap_sectors ty cs)" "0 < unat ps"
proof -
  define o1 r where "o1 = unat (table_offset pt)" and "r = unat (table_reserved_end pt)"
  have small: "o1 \<le> 4096" "r \<le> 34" by (simp_all add: o1_def r_def table_offset_def table_reserved_end_def)
  then have or: "unat (table_offset pt + table_reserved_end pt) = o1 + r"
    by (simp add: o1_def r_def unat_word_ariths)
  have n: "o1 + r < unat n"
    using assms or by (auto simp: choose_part_sectors_def Let_def word_le_nat_alt split: if_splits)
  define max_u where "max_u = n - table_offset pt - table_reserved_end pt"
  have mu: "unat max_u = unat n - o1 - r"
  proof -
    have a: "unat (n - table_offset pt) = unat n - o1"
      using n by (subst unat_sub) (simp_all add: word_le_nat_alt o1_def)
    then show ?thesis
      using n unfolding max_u_def by (subst unat_sub) (simp_all add: word_le_nat_alt r_def)
  qed
  have ps: "ps = (if fs_cap_sectors ty cs > 0 \<and> fs_cap_sectors ty cs < max_u then fs_cap_sectors ty cs else max_u)"
    using assms by (auto simp: choose_part_sectors_def Let_def max_u_def split: if_splits)
  have le: "unat ps \<le> unat n - o1 - r" "0 < unat ps"
    using ps mu n by (auto simp: word_less_nat_alt split: if_splits)
  show "0 < unat (table_offset pt) + unat ps" "0 < unat ps" using le(2) by simp_all
  show "unat (table_offset pt) + unat ps + unat (table_reserved_end pt) \<le> unat n"
    using le(1) n by (simp add: o1_def r_def)
  show "fs_cap_sectors ty cs > 0 \<longrightarrow> unat ps \<le> unat (fs_cap_sectors ty cs)"
    using ps by (auto simp: word_less_nat_alt not_less split: if_splits)
qed

section \<open>Regions of the table\<close>

lemma mread_same: "(\<And>i. a \<le> i \<Longrightarrow> i < a + n \<Longrightarrow> f i = g i) \<Longrightarrow> mread f a n = mread g a n"
  by (intro nth_equalityI) (simp_all add: nth_mread)

lemma gpt_valid_cong:
  assumes "mread m (lba * 512) 512 = mread m' (lba * 512) 512"
    "mread m (el * 512) 16384 = mread m' (el * 512) 16384"
  shows "gpt_header_valid m lba alt el = gpt_header_valid m' lba alt el"
    "gpt_partition m el = gpt_partition m' el"
proof -
  show "gpt_header_valid m lba alt el = gpt_header_valid m' lba alt el"
    by (simp add: gpt_header_valid_def assms)
  have "mread m (el * 512) 128 = mread m' (el * 512) 128"
    using arg_cong [OF assms(2), of "seg 0 128"] by (simp add: seg_mread)
  then show "gpt_partition m el = gpt_partition m' el" by (simp add: gpt_partition_def)
qed

lemma clean_window:
  "disk_inv idle cap epi epo (d\<lparr>g_partition_type := t\<rparr>) = disk_inv idle cap epi epo d"
  "disk_inv idle cap epi epo (d\<lparr>g_drive_offset_sectors := s\<rparr>) = disk_inv idle cap epi epo d"
  "disk_inv idle cap epi epo (d\<lparr>g_partition_sectors := s\<rparr>) = disk_inv idle cap epi epo d"
  "disk_view store (d\<lparr>g_drive_offset_sectors := s\<rparr>) = disk_view store d"
  "disk_view store (d\<lparr>g_partition_sectors := s\<rparr>) = disk_view store d"
  by (simp_all add: disk_inv_def disk_view_def bound_to_def cache_wf_def cache_buf_def split: option.splits)

section \<open>The stick after the partition was created\<close>

text \<open>Erasing the old tables.\<close>

lemma tables_wiped:
  assumes dev: "bot_device u store idle cap epi epo" and inv: "disk_inv idle cap epi epo d"
    and cache: "g_cache_sectors d = 0" and n: "n = unat (g_sector_count d)" "2048 \<le> n" "n \<le> cap"
  shows "\<exists>d1 d2. usb_scsi_wipe_mbr u (usb_scsi_set_partition_type pt d) = Some (0, d1)
    \<and> usb_scsi_wipe_tail u d1 = (0, d2) \<and> scsi_disk.clean idle cap epi epo d2
    \<and> g_sector_count d2 = g_sector_count d \<and> g_partition_type d2 = pt"
proof -
  note cl = clean_on [OF dev]
  define d0 where "d0 = usb_scsi_set_partition_type pt d"
  have c0: "scsi_disk.clean idle cap epi epo d0"
    using inv cache by (simp add: cl d0_def usb_scsi_set_partition_type_def clean_window)
  have cap: "2048 \<le> cap" using n by simp
  obtain d1 where d1: "usb_scsi_wipe_mbr u d0 = Some (0, d1)"
    "scsi_disk.wrote store idle d0 (erased (store (g_world d0)) 0 1048576) d1"
    using wipe_mbr_on [OF dev c0 cap] by blast
  note p1 = post_on [OF dev c0 d1(2)]
  have c1: "scsi_disk.clean idle cap epi epo d1" using p1 by (simp add: cl)
  have f1: "g_sector_count d1 = g_sector_count d" "g_partition_type d1 = pt"
    using p1(4) by (simp_all add: io_frame_fields d0_def usb_scsi_set_partition_type_def)
  obtain d2 where d2: "usb_scsi_wipe_tail u d1 = (0, d2)"
    "scsi_disk.wrote store idle d1 (erased (store (g_world d1)) ((n - 34) * 512) (n * 512)) d2"
    using wipe_tail_on [OF dev c1] n f1 by auto
  note p2 = post_on [OF dev c1 d2(2)]
  show ?thesis
    using d1(1) d2(1) p2(1,2) p2(4) f1 by (simp add: d0_def [symmetric] cl io_frame_fields)
qed

text \<open>Moving the window behind the table that was written and erasing the head of the partition.\<close>

lemma partition_opened:
  assumes dev: "bot_device u store idle cap epi epo" and c: "scsi_disk.clean idle cap epi epo d3"
    and cap: "69632 \<le> cap" and ty: "fsType \<noteq> 8"
  shows "\<exists>d5. usb_scsi_wipe_partition_head u fsType
        (usb_scsi_set_partition_size ps (usb_scsi_set_partition_offset 4096 d3)) = Some (0, d5)
    \<and> disk_inv idle cap epi epo d5 \<and> g_cache_sectors d5 = 0 \<and> g_partition_sectors d5 = ps
    \<and> g_sector_count d5 = g_sector_count d3 \<and> g_partition_type d5 = g_partition_type d3
    \<and> g_drive_offset_sectors d5 = 4096 \<and> actual_offset d5 0 = int 2097152
    \<and> store (g_world d5) = erased (store (g_world d3)) 2097152 35651584"
proof -
  define d4 where "d4 = usb_scsi_set_partition_size ps (usb_scsi_set_partition_offset 4096 d3)"
  note d4' = d4_def [unfolded usb_scsi_set_partition_size_def usb_scsi_set_partition_offset_def]
  have c3: "disk_inv idle cap epi epo d3" "g_cache_sectors d3 = 0" using c by (simp_all add: clean_on [OF dev])
  have i4: "disk_inv idle cap epi epo d4" using c3 by (simp add: d4' clean_window)
  have "g_sector_size d4 = 512" using i4 by (simp add: disk_inv_def bound_to_def)
  then have o4: "actual_offset d4 0 = int 2097152" by (simp add: actual_offset_def d4')
  have v4: "disk_view store d4 = store (g_world d3)" using c3(2) by (simp add: disk_view_def d4')
  obtain d5 where d5: "usb_scsi_wipe_partition_head u fsType d4 = Some (0, d5)"
    "scsi_disk.clean idle cap epi epo d5" "io_frame d4 d5"
    "store (g_world d5) = erased (disk_view store d4) 2097152 (2097152 + 33554432)"
    using wipe_head_on [OF dev i4 o4, of fsType] ty cap by auto
  show ?thesis
    using d5 o4 actual_offset_frame [OF d5(3), of 0] io_frame_fields [OF d5(3)]
    by (simp add: d4_def [symmetric] v4 clean_on [OF dev]) (simp add: d4')
qed

text \<open>From the driver bound to the stick to the erased head of a partition, with a GUID table and
  with a master boot record.\<close>

lemma gpt_partition_created:
  assumes dev: "bot_device u store idle cap epi epo" and inv: "disk_inv idle cap epi epo d"
    and cache: "g_cache_sectors d = 0" and n: "n = unat (g_sector_count d)" "69632 \<le> n" "n \<le> cap"
    and ty: "fsType \<noteq> 8"
  shows "\<exists>d1 d2 d3 m. usb_scsi_wipe_mbr u (usb_scsi_set_partition_type 2 d) = Some (0, d1)
    \<and> usb_scsi_wipe_tail u d1 = (0, d2) \<and> create_partition u rnd 2 fsType ps d2 = Some d3
    \<and> disk_inv idle cap epi epo d3 \<and> g_cache_sectors d3 = 0 \<and> g_partition_sectors d3 = ps
    \<and> g_partition_type d3 = 2 \<and> actual_offset d3 0 = int 2097152
    \<and> store (g_world d3) = erased (gpt_written rnd (g_sector_count d) ps fsType m) 2097152 35651584"
proof -
  obtain d1 d2 where w: "usb_scsi_wipe_mbr u (usb_scsi_set_partition_type 2 d) = Some (0, d1)"
    "usb_scsi_wipe_tail u d1 = (0, d2)" "scsi_disk.clean idle cap epi epo d2"
    "g_sector_count d2 = g_sector_count d" "g_partition_type d2 = 2"
    using tables_wiped [OF dev inv cache n(1), where pt = 2] n by auto
  have n': "4138 \<le> unat (g_sector_count d)" "unat (g_sector_count d) \<le> cap" using n by simp_all
  obtain d3 where d3: "usb_scsi_write_gpt u rnd ps fsType d2 = (0, d3)"
    "scsi_disk.wrote store idle d2 (gpt_written rnd (g_sector_count d) ps fsType (store (g_world d2))) d3"
    using gpt_on [OF dev w(3,4) n'] by blast
  note p3 = post_on [OF dev w(3) d3(2)]
  have c3: "scsi_disk.clean idle cap epi epo d3" using p3 by (simp add: clean_on [OF dev])
  have cap: "69632 \<le> cap" using n by simp
  from partition_opened [OF dev c3 cap ty, of ps] show ?thesis
    using w d3(1) p3(3) io_frame_fields(5) [OF p3(4)] by (auto simp: create_partition_def)
qed

lemma mbr_partition_created:
  assumes dev: "bot_device u store idle cap epi epo" and inv: "disk_inv idle cap epi epo d"
    and cache: "g_cache_sectors d = 0" and n: "n = unat (g_sector_count d)" "69632 \<le> n" "n \<le> cap"
    and ty: "fsType \<noteq> 8"
  shows "\<exists>d1 d2 d3 m. usb_scsi_wipe_mbr u (usb_scsi_set_partition_type 1 d) = Some (0, d1)
    \<and> usb_scsi_wipe_tail u d1 = (0, d2) \<and> create_partition u rnd 1 fsType ps d2 = Some d3
    \<and> disk_inv idle cap epi epo d3 \<and> g_cache_sectors d3 = 0 \<and> g_partition_sectors d3 = ps
    \<and> g_sector_count d3 = g_sector_count d \<and> g_partition_type d3 = 1
    \<and> g_drive_offset_sectors d3 = 4096 \<and> actual_offset d3 0 = int 2097152
    \<and> store (g_world d3) = erased (mwrite m 0 (mbr_sector (g_sector_count d) ps (mbr_partition_id 1 fsType)))
        2097152 35651584"
proof -
  obtain d1 d2 where w: "usb_scsi_wipe_mbr u (usb_scsi_set_partition_type 1 d) = Some (0, d1)"
    "usb_scsi_wipe_tail u d1 = (0, d2)" "scsi_disk.clean idle cap epi epo d2"
    "g_sector_count d2 = g_sector_count d" "g_partition_type d2 = 1"
    using tables_wiped [OF dev inv cache n(1), where pt = 1] n by auto
  have cap: "0 < cap" "69632 \<le> cap" using n by simp_all
  obtain d3 where d3: "usb_scsi_write_mbr u ps (mbr_partition_id 1 fsType) d2 = (0, d3)"
    "scsi_disk.wrote store idle d2 (mwrite (store (g_world d2)) 0
       (mbr_sector (g_sector_count d) ps (mbr_partition_id 1 fsType))) d3"
    using mbr_on [OF dev w(3) cap(1)] w(4) by metis
  note p3 = post_on [OF dev w(3) d3(2)]
  have c3: "scsi_disk.clean idle cap epi epo d3" using p3 by (simp add: clean_on [OF dev])
  from partition_opened [OF dev c3 cap(2) ty, of ps] show ?thesis
    using w d3(1) p3(3) io_frame_fields(2,5) [OF p3(4)] by (auto simp: create_partition_def)
qed

section \<open>The end of the run\<close>

text \<open>Closing the device changes nothing on the medium, and of the driver only the outside world.\<close>

lemma leave_libusb_keeps:
  assumes "bot_device u store idle cap epi epo"
  shows "store (g_world (leave_libusb u d)) = store (g_world d)"
    "g_cache_sectors (leave_libusb u d) = g_cache_sectors d"
  using assms by (simp_all add: leave_libusb_def bot_device.close_store bot_device.exit_store)

section \<open>A run for exFAT\<close>

text \<open>The size the run chooses on a stick of \<open>n\<close> sectors with a GUID table.\<close>

lemma choose_gpt_exfat:
  assumes n: "4130 < unat n"
  shows "choose_part_sectors n 2 4 cs = Some (n - 4130)" "unat (n - 4130) = unat n - 4130"
proof -
  have "n - 4096 - 34 = n - 4130" by simp
  then show "choose_part_sectors n 2 4 cs = Some (n - 4130)"
    using n by (simp add: choose_part_sectors_def table_offset_def table_reserved_end_def
        fs_cap_sectors_def word_le_nat_alt)
  show "unat (n - 4130) = unat n - 4130" using n by (simp add: unat_sub word_le_nat_alt)
qed

lemma window_param:
  "ps \<noteq> 0 \<Longrightarrow> g_partition_sectors d = ps \<Longrightarrow> g_partition_sectors d' = ps
    \<Longrightarrow> exfat_param cs label serial d = exfat_param cs label serial d'"
  by (simp add: exfat_param_def usb_scsi_get_usable_sectors_def)

text \<open>A medium that agrees with a written GUID table in front of the partition and behind it has
  the table.\<close>

lemma gpt_survives:
  assumes n: "N = unat n" "69632 \<le> N" "N < 2 ^ 63" and ps: "unat ps = N - 4130"
    and front: "\<And>i. i < 2097152 \<Longrightarrow> m i = gpt_written rnd n ps ty m0 i"
    and behind: "\<And>i. (N - 34) * 512 \<le> i \<Longrightarrow> m i = gpt_written rnd n ps ty m0 i"
  shows "gpt_header_valid m 1 (N - 1) 2" "gpt_header_valid m (N - 1) 1 (N - 33)"
    "gpt_partition m 2 = (4096, N - 35)"
proof -
  define M where "M = gpt_written rnd n ps ty m0"
  have f: "mread m a k = mread M a k" if "a + k \<le> 2097152" for a k
    using that front by (intro mread_same) (simp add: M_def)
  have b: "mread m a k = mread M a k" if "(N - 34) * 512 \<le> a" for a k
    using that behind by (intro mread_same) (simp add: M_def)
  have n': "4138 \<le> unat n" "unat n < 2 ^ 63" using n by simp_all
  note v = gpt_written_valid [OF n', where rnd = rnd and ps = ps and ty = ty and m = m0, folded M_def n(1)]
  have ge: "(N - 34) * 512 \<le> (N - 1) * 512" "(N - 34) * 512 \<le> (N - 33) * 512" by simp_all
  show "gpt_header_valid m 1 (N - 1) 2"
    using gpt_valid_cong(1) [of m 1 M 2 "N - 1"] f v(1) by simp
  show "gpt_header_valid m (N - 1) 1 (N - 33)"
    using gpt_valid_cong(1) [OF b [OF ge(1)] b [OF ge(2)]] v(2) by simp
  have "unat (gpt_p_end n ps) = N - 35"
    using gpt_p_end_nat(3) [of ps n] n ps by simp
  then show "gpt_partition m 2 = (4096, N - 35)"
    using gpt_valid_cong(2) [of m 1 M 2] f v(3) by simp
qed

text \<open>Formatting the partition and flushing leaves what lies around the partition alone.\<close>

lemma exfat_keeps_outside:
  assumes dev: "bot_device u store idle cap epi epo" and inv: "disk_inv idle cap epi epo d"
    and cache: "g_cache_sectors d = 0" and off: "actual_offset d 0 = int base"
    and p: "p = exfat_param cs label serial d" and wf: "mkfs_wf p" and ck: "check_size p (p_volume_size p) = 0"
    and len: "p_volume_size p = int len" "base + len \<le> cap * 512"
  shows "\<exists>dev' d' m. usb_scsi_format_exfat u cs label serial d = (0, dev') \<and> \<not> br_hung dev'
    \<and> usb_scsi_sync u (br_drv dev') = (0, d') \<and> g_cache_sectors d' = 0 \<and> m = store (g_world d')
    \<and> disk_inv idle cap epi epo d' \<and> actual_offset d' 0 = int base
    \<and> shifted base m = mkfs_image p (shifted base (store (g_world d)))
    \<and> (\<forall>i. i < base \<or> base + len \<le> i \<longrightarrow> m i = store (g_world d) i)"
proof -
  have v: "disk_view store d = store (g_world d)" using cache by (simp add: disk_view_def)
  obtain dev' where x: "usb_scsi_format_exfat u cs label serial d = (0, dev')" "\<not> br_hung dev'"
    "disk_inv idle cap epi epo (br_drv dev')" "actual_offset (br_drv dev') 0 = int base"
    "shifted base (disk_view store (br_drv dev')) = mkfs_image p (shifted base (store (g_world d)))"
    "\<forall>i<base. disk_view store (br_drv dev') i = store (g_world d) i"
    using format_exfat_on [OF dev inv off len(2) p wf ck] len(1) by (auto simp: v)
  obtain d' where y: "usb_scsi_sync u (br_drv dev') = (0, d')" "g_cache_sectors d' = 0"
    "store (g_world d') = disk_view store (br_drv dev')" "disk_inv idle cap epi epo d'" "io_frame (br_drv dev') d'"
    using dev_sync [OF dev x(3)] by auto
  define m where "m = store (g_world d')"
  have lb: "15 \<le> length (p_volume_label p)"
    by (simp add: p exfat_param_def Let_def label_memory_def)
  have "m i = store (g_world d) i" if i: "base + len \<le> i" for i
  proof -
    have "p_volume_size p \<le> int (i - base)" using i by (simp add: len(1))
    then have "shifted base m (i - base) = shifted base (store (g_world d)) (i - base)"
      using mkfs_image_outside [OF wf ck lb] by (simp add: m_def y(3) x(5))
    then show ?thesis using i by (simp add: shifted_def)
  qed
  then show ?thesis using x y actual_offset_frame [OF y(5), of 0] by (auto simp: m_def)
qed

lemma window_volume_size:
  assumes "g_partition_sectors d = ps" "unat ps = k" "0 < k" "k < 2 ^ 32"
  shows "p_volume_size (exfat_param cs label serial d) = int (k * 512)"
proof -
  have "of_nat k = ps" by (simp add: assms(2) [symmetric])
  then have "sint ps = int k" using sint_of_nat_small [of k] assms(4) by simp
  moreover have "ps \<noteq> 0" using assms(2,3) by auto
  ultimately show ?thesis
    by (simp add: exfat_param_def Let_def usb_scsi_get_usable_sectors_def assms(1))
qed

text \<open>The run.\<close>

lemma exfat_run:
  assumes dev: "bot_device u store idle cap epi epo"
    and init: "d = usb_scsi_init u conf d0" and inv: "disk_inv idle cap epi epo d"
    and cache: "g_cache_sectors d = 0"
    and n: "n = unat (g_sector_count d)" "69666 \<le> n" "n \<le> cap"
    and p: "p = exfat_param (word_of_int clusterSize) usb_disk_label serial
       (d\<lparr>g_partition_sectors := g_sector_count d - 4130\<rparr>)"
    and wf: "mkfs_wf p" and ck: "check_size p (p_volume_size p) = 0"
  shows "\<exists>d' m m0. startStableFormat u engines Acquired conf rnd serial mbr clusterSize 2 4 d0 = Some (True, d')
    \<and> g_cache_sectors d' = 0 \<and> m = store (g_world d')
    \<and> gpt_header_valid m 1 (n - 1) 2 \<and> gpt_header_valid m (n - 1) 1 (n - 33)
    \<and> gpt_partition m 2 = (4096, n - 35) \<and> shifted 2097152 m = mkfs_image p m0"
proof -
  define ps where "ps = g_sector_count d - 4130"
  have big: "4130 < unat (g_sector_count d)" using n by simp
  note ch = choose_gpt_exfat [OF big, folded ps_def]
  have psn: "unat ps = n - 4130" using ch(2) n(1) by simp
  have ps0: "ps \<noteq> 0" using psn n(2) by auto
  have cap: "cap \<le> 2 ^ 32" using dev by (simp add: bot_device_def)
  obtain d1 d2 d3 m3 where d3: "usb_scsi_wipe_mbr u (usb_scsi_set_partition_type 2 d) = Some (0, d1)"
    "usb_scsi_wipe_tail u d1 = (0, d2)" "create_partition u rnd 2 4 ps d2 = Some d3"
    "disk_inv idle cap epi epo d3" "g_cache_sectors d3 = 0" "g_partition_sectors d3 = ps"
    "actual_offset d3 0 = int 2097152"
    "store (g_world d3) = erased (gpt_written rnd (g_sector_count d) ps 4 m3) 2097152 35651584"
    using gpt_partition_created [OF dev inv cache n(1) _ n(3), of 4 rnd ps] n(2) by auto
  have p3: "p = exfat_param (word_of_int clusterSize) usb_disk_label serial d3"
    unfolding p ps_def [symmetric] by (rule window_param [OF ps0 _ d3(6)]) simp
  have vs: "p_volume_size p = int ((n - 4130) * 512)"
    using window_volume_size [OF d3(6) psn] n cap by (simp add: p3)
  have len: "2097152 + (n - 4130) * 512 \<le> cap * 512" "2097152 + (n - 4130) * 512 = (n - 34) * 512"
    using n by simp_all
  obtain dev' d4 m where x: "usb_scsi_format_exfat u (word_of_int clusterSize) usb_disk_label serial d3 = (0, dev')"
    "\<not> br_hung dev'" "usb_scsi_sync u (br_drv dev') = (0, d4)" "g_cache_sectors d4 = 0" "m = store (g_world d4)"
    "shifted 2097152 m = mkfs_image p (shifted 2097152 (store (g_world d3)))"
    "\<forall>i. i < 2097152 \<or> 2097152 + (n - 4130) * 512 \<le> i \<longrightarrow> m i = store (g_world d3) i"
    using exfat_keeps_outside [OF dev d3(4,5,7) p3 wf ck vs len(1)] by blast
  have run: "startStableFormat u engines Acquired conf rnd serial mbr clusterSize 2 4 d0
      = Some (True, leave_libusb u d4)"
    by (simp add: startStableFormat_def init [symmetric] ch(1) d3(1-3) run_formatter_def x(1-3) Let_def)
  have front: "m i = gpt_written rnd (g_sector_count d) ps 4 m3 i" if "i < 2097152" for i
    using that x(7) by (simp add: d3(8) erased_def)
  have behind: "m i = gpt_written rnd (g_sector_count d) ps 4 m3 i" if i: "(n - 34) * 512 \<le> i" for i
  proof -
    have "35651584 \<le> i" using i n(2) by simp
    moreover have "m i = store (g_world d3) i" using i x(7) len(2) by simp
    ultimately show ?thesis by (simp add: d3(8) erased_def)
  qed
  have "69632 \<le> n" "n < 2 ^ 63" using n(2,3) cap by simp_all
  note g = gpt_survives [OF n(1) this psn front behind]
  show ?thesis
    using run x(4-6) g leave_libusb_keeps [OF dev, of d4] by (intro exI [of _ "leave_libusb u d4"] exI) auto
qed

text \<open>C2: A whole run of \<open>startStableFormat\<close> for exFAT with a GUID partition table, on a working stick
  of at least 69666 sectors (34 MB) that carries anything at all: it returns and reports success, and the stick
  then holds, durably and with nothing left in the write cache, a valid table in both places whose
  partition reaches from sector 4096 to 35 sectors before the end, and in this partition exactly
  the image of \<open>mkfs\<close>. The formatter's writes never touch the table.\<close>

theorem exfat_stick_ready:
  assumes dev: "bot_device u store idle cap epi epo"
    and init: "d = usb_scsi_init u conf d0" and inv: "disk_inv idle cap epi epo d"
    and cache: "g_cache_sectors d = 0"
    and n: "n = unat (g_sector_count d)" "69666 \<le> n" "n \<le> cap"
    and p: "p = exfat_param (word_of_int clusterSize) usb_disk_label serial
       (d\<lparr>g_partition_sectors := g_sector_count d - 4130\<rparr>)"
    and wf: "mkfs_wf p" and ck: "check_size p (p_volume_size p) = 0"
  shows "\<exists>d' m m0. startStableFormat u engines Acquired conf rnd serial mbr clusterSize 2 4 d0 = Some (True, d')
    \<and> g_cache_sectors d' = 0 \<and> m = store (g_world d')
    \<and> gpt_header_valid m 1 (n - 1) 2 \<and> gpt_header_valid m (n - 1) 1 (n - 33)
    \<and> gpt_partition m 2 = (4096, n - 35) \<and> shifted 2097152 m = mkfs_image p m0"
  using exfat_run [OF dev init inv cache n p wf ck] by blast

text \<open>A stick of 66 MB, on which the libusb of the run reports no configuration, so that the driver
  keeps the end points and the capacity it has.\<close>

definition app_drv :: "stick drv" where
  "app_drv = (stick_drv (\<lambda>_. 9))\<lparr>g_sector_count := 135202\<rparr>"

lemma app_drv:
  "usb_scsi_init stick_usb None app_drv = app_drv" "disk_inv stick_idle (2 ^ 32) 0x81 0x02 app_drv"
  "g_cache_sectors app_drv = 0" "g_sector_count app_drv = 135202"
  by (simp_all add: usb_scsi_init_def app_drv_def stick_drv_def disk_inv_def bound_to_def
      stick_idle_def cache_wf_def stick_usb_def)

definition app_engines :: "stick engines" where
  "app_engines = \<lparr>mkntfs_main = \<lambda>_ d. Some (1, d), mke2fs_main = \<lambda>_ d. Some (EngineReturned 1, d),
     f2fs_format_main = \<lambda>_ d. Some (EngineReturned 1, d), udf_format_main = \<lambda>_ d. Some (EngineReturned 1, d),
     xfs_mkfs_main = \<lambda>_ _ d. Some (EngineReturned 1, d)\<rparr>"

lemma app_param_ok:
  assumes p: "p = exfat_param (word_of_int 4096) usb_disk_label 7 (app_drv\<lparr>g_partition_sectors := 135202 - 4130\<rparr>)"
  shows "mkfs_wf p" "check_size p (p_volume_size p) = 0"
proof -
  have "setup_spc_bits 9 8 67108864 = 3" by (simp add: setup_spc_bits_def eval_nat_numeral)
  then have "p_sector_bits p = 9" "p_spc_bits p = 3" "p_volume_size p = 67108864"
    by (simp_all add: p exfat_param_def usb_scsi_get_usable_sectors_def)
  from volume_64mb_ok [OF this] show "mkfs_wf p" "check_size p (p_volume_size p) = 0" by simp_all
qed

lemma exfat_stick_ready_witness:
  "\<exists>d' m m0. startStableFormat stick_usb app_engines Acquired None (\<lambda>_. 5) 7 (replicate 512 0) 4096 2 4 app_drv = Some (True, d')
    \<and> m = stick_medium (g_world d') \<and> gpt_partition m 2 = (4096, 135167)
    \<and> shifted 2097152 m = mkfs_image (exfat_param 4096 usb_disk_label 7
        (app_drv\<lparr>g_partition_sectors := 131072\<rparr>)) m0"
proof -
  have n: "135202 = unat (g_sector_count app_drv)" "(69666 :: nat) \<le> 135202" "135202 \<le> (2 ^ 32 :: nat)"
    by (simp_all add: app_drv)
  have p: "exfat_param 4096 usb_disk_label 7 (app_drv\<lparr>g_partition_sectors := 131072\<rparr>)
    = exfat_param (word_of_int 4096) usb_disk_label 7
        (app_drv\<lparr>g_partition_sectors := g_sector_count app_drv - 4130\<rparr>)"
    by (simp add: app_drv)
  show ?thesis
    using exfat_stick_ready [OF stick_device app_drv(1) [symmetric] app_drv(2,3) n p
        app_param_ok [OF p [unfolded app_drv]], where rnd = "\<lambda>_. 5" and engines = app_engines
          and mbr = "replicate 512 0"]
    by auto
qed

section \<open>A run for FAT32\<close>

lemma choose_mbr_fat32:
  assumes n: "4096 < unat n"
  shows "choose_part_sectors n 1 1 cs = Some (n - 4096)" "unat (n - 4096) = unat n - 4096"
  using n by (simp_all add: choose_part_sectors_def table_offset_def table_reserved_end_def
      fs_cap_sectors_def word_le_nat_alt unat_sub)

lemma bpb_total:
  assumes "0 < unat us" "unat us < 2 ^ 32"
  shows "bpb_total_sectors (fat_boot_sector ty us off spc fs sn label) = unat us"
proof -
  note b = fat_boot_fields [OF refl, of ty us off spc fs sn label]
  show ?thesis
  proof (cases "us < 65536 \<and> ty \<noteq> 1")
    case True
    then have "unat (ucast us :: u16) = unat us"
      by (simp add: unsigned_ucast_eq word_less_nat_alt take_bit_nat_eq_self)
    then show ?thesis using True assms by (simp add: bpb_total_sectors_def b)
  next
    case False
    have "unat (ucast us :: u32) = unat us"
      using assms by (simp add: unsigned_ucast_eq take_bit_nat_eq_self)
    then show ?thesis using False by (auto simp: bpb_total_sectors_def b)
  qed
qed

text \<open>C3: A whole run of \<open>startStableFormat\<close> for FAT32 with a master boot record, on a working stick of
  at least 69632 (34 MB) and fewer than \<open>2^32\<close> sectors that carries anything at all, and for cluster
  sizes with which the computed size \<open>F\<close> of a table is not 0, both tables with 4192 more sectors fit
  on the stick, and they end at least 64 KB before byte \<open>2^32\<close> of the partition: it returns
  and reports success, and the stick then holds, durably and with nothing left in the write cache,
  a master boot record whose table has one active partition of type 0x0c, from sector 4096 to the
  end of the stick, and three empty entries, with zeros in its code area, and in this partition a
  FAT32 volume of the same size with its boot sector and the copy of it, both tables with all
  clusters but the first free, and the FSInfo sector. What lies in the master boot record is not
  disturbed by the formatter, which rewrites the type of the partition.\<close>

theorem fat32_stick_ready:
  assumes dev: "bot_device u store idle cap epi epo"
    and init: "d = usb_scsi_init u conf d0" and inv: "disk_inv idle cap epi epo d"
    and cache: "g_cache_sectors d = 0"
    and n: "n = unat (g_sector_count d)" "69632 \<le> n" "n \<le> cap" "n < 2 ^ 32"
    and spc: "spc = fat_sectors_per_cluster 1 (word_of_int clusterSize)"
    and fs: "fs = fat_size_sectors 1 (g_sector_count d - 4096) spc"
    and F: "F = unat fs" "F \<noteq> 0" "4192 + 2 * F \<le> n" "(32 + 2 * F) * 512 + 65536 < 2 ^ 32"
    and mbr: "length mbr = 512"
    and bs: "bs = fat_boot_sector 1 (g_sector_count d - 4096) 4096 spc fs serial usb_disk_label"
  shows "\<exists>d' m. startStableFormat u engines Acquired conf rnd serial mbr clusterSize 1 1 d0 = Some (True, d')
    \<and> g_cache_sectors d' = 0 \<and> m = store (g_world d')
    \<and> m 446 = 0x80 \<and> m 450 = 0x0c \<and> rd32 (mread m 454 4) = 4096 \<and> unat (rd32 (mread m 458 4)) = n - 4096
    \<and> mread m 0 446 = replicate 446 0 \<and> mread m 447 3 = [0, 0, 0] \<and> mread m 451 3 = [0, 0, 0]
    \<and> mread m 462 48 = replicate 48 0 \<and> m 510 = 0x55 \<and> m 511 = 0xaa
    \<and> mread m 2097152 512 = bs \<and> bpb_total_sectors bs = n - 4096
    \<and> mread m (2097152 + bpb_fat_start bs 0 * 512) (F * 512) = fat_table_bytes 1 (F * 512)
    \<and> mread m (2097152 + bpb_fat_start bs 1 * 512) (F * 512) = fat_table_bytes 1 (F * 512)
    \<and> mread m (2097152 + bpb_backup bs * 512) 512 = bs
    \<and> mread m (2097152 + bpb_fsinfo bs * 512) 512 = fat_fsinfo"
proof -
  define ps where "ps = g_sector_count d - 4096"
  have big: "4096 < unat (g_sector_count d)" using n by simp
  note ch = choose_mbr_fat32 [OF big, folded ps_def]
  have psn: "unat ps = n - 4096" using ch(2) n(1) by simp
  obtain d1 d2 d3 m3 where d3: "usb_scsi_wipe_mbr u (usb_scsi_set_partition_type 1 d) = Some (0, d1)"
    "usb_scsi_wipe_tail u d1 = (0, d2)" "create_partition u rnd 1 1 ps d2 = Some d3"
    "disk_inv idle cap epi epo d3" "g_cache_sectors d3 = 0" "g_sector_count d3 = g_sector_count d"
    "g_partition_type d3 = 1" "g_drive_offset_sectors d3 = 4096" "actual_offset d3 0 = int 2097152"
    "store (g_world d3) = erased (mwrite m3 0 (mbr_sector (g_sector_count d) ps (mbr_partition_id 1 1)))
        2097152 35651584"
    using mbr_partition_created [OF dev inv cache n(1-3), of 1 rnd ps] by auto
  define M where "M = mwrite m3 0 (mbr_sector (g_sector_count d) ps 0x0c)"
  have n4: "4096 \<le> unat (g_sector_count d)" "unat ps < 2 ^ 32" using n psn by simp_all
  note f = mbr_written_fields [OF M_def n4]
  have front: "store (g_world d3) i = M i" if "i < 2097152" for i
    using that by (simp add: d3(10) M_def mbr_partition_id_def erased_def)
  have us: "fat_usable_sectors d3 = ps"
    by (simp add: fat_usable_sectors_def d3(6-8) ps_def)
  have hyp: "512 \<le> (2097152 :: nat)" "n - 4096 = unat (fat_usable_sectors d3)" "n - 4096 \<noteq> 0"
    "2097152 + (n - 4096) * 512 \<le> cap * 512"
    "bs = fat_boot_sector 1 (fat_usable_sectors d3) (g_drive_offset_sectors d3)
       (fat_sectors_per_cluster 1 (word_of_int clusterSize)) fs serial usb_disk_label"
    "fs = fat_size_sectors 1 (fat_usable_sectors d3) (fat_sectors_per_cluster 1 (word_of_int clusterSize))"
    "(fat_reserved_sectors 1 + 2 * F + 64) * 512 \<le> (n - 4096) * 512"
    "(fat_reserved_sectors 1 + 2 * F) * 512 + 65536 < 2 ^ 32" "(1 :: int) = 1 \<or> F < 65536"
    using n F psn bs fs spc by (simp_all add: us d3(8) ps_def fat_reserved_sectors_def)
  obtain d4 m where x: "usb_scsi_format_fat u serial mbr 1 (word_of_int clusterSize) usb_disk_label d3 = Some (0, d4)"
    "disk_inv idle cap epi epo d4" "m = disk_view store d4" "mread m 2097152 512 = bs"
    "mread m (2097152 + bpb_fat_start bs 0 * 512) (F * 512) = fat_table_bytes 1 (F * 512)"
    "mread m (2097152 + bpb_fat_start bs 1 * 512) (F * 512) = fat_table_bytes 1 (F * 512)"
    "mread m (2097152 + bpb_backup bs * 512) 512 = bs" "mread m (2097152 + bpb_fsinfo bs * 512) 512 = fat_fsinfo"
    "\<forall>i. fat_keeps 1 2097152 bs i \<longrightarrow> m i = mbr_retyped store 1 d3 i"
    using fat_formatted_on [OF dev d3(4,5,9) hyp(1-6) F(1,2) hyp(7-9) mbr] by auto
  have "mbr_retyped store 1 d3 = (store (g_world d3))(450 := 0x0c)"
    using f(3,4) front by (simp add: mbr_retyped_def d3(7,8) fat_mbr_type_def)
  then have mM: "m i = M i" if "i < 2097152" for i
    using that x(9) front f(2) by (cases "i = 450") (simp_all add: fat_keeps_def)
  then have rd: "mread m a k = mread M a k" if "a + k \<le> 2097152" for a k
    using that by (intro mread_same) simp
  obtain d5 where y: "usb_scsi_sync u d4 = (0, d5)" "g_cache_sectors d5 = 0" "store (g_world d5) = m"
    using dev_sync [OF dev x(2)] x(3) by auto
  have run: "startStableFormat u engines Acquired conf rnd serial mbr clusterSize 1 1 d0
      = Some (True, leave_libusb u d5)"
    by (simp add: startStableFormat_def init [symmetric] ch(1) d3(1-3) run_formatter_def x(1) y(1) Let_def)
  have "bpb_total_sectors bs = n - 4096"
    using bpb_total [of ps] psn n by (simp add: bs ps_def [symmetric])
  then show ?thesis
    using run y(2,3) x(4-8) f mM rd psn n(1)
    by (intro exI [of _ "leave_libusb u d5"] exI [of _ m]) (simp add: leave_libusb_keeps [OF dev])
qed

lemma fat32_stick_ready_witness:
  "\<exists>d' m. startStableFormat stick_usb app_engines Acquired None (\<lambda>_. 5) 7 (replicate 512 0) 4096 1 1 app_drv = Some (True, d')
    \<and> m = stick_medium (g_world d') \<and> m 450 = 0x0c \<and> unat (rd32 (mread m 458 4)) = 131106
    \<and> m 462 = 0 \<and> mread m (2097152 + 512) 512 = fat_fsinfo"
proof -
  have spc: "fat_sectors_per_cluster 1 (word_of_int 4096) = 8" by (simp add: fat_sectors_per_cluster_def)
  have fs: "fat_size_sectors 1 (g_sector_count app_drv - 4096) 8 = 128"
    by (simp add: app_drv fat_size_sectors_def fat_reserved_sectors_def)
  have n: "135202 = unat (g_sector_count app_drv)" "(69632 :: nat) \<le> 135202" "135202 \<le> (2 ^ 32 :: nat)"
    "135202 < (2 ^ 32 :: nat)"
    by (simp_all add: app_drv)
  have F: "128 = unat (128 :: u32)" "(128 :: nat) \<noteq> 0" "4192 + 2 * 128 \<le> (135202 :: nat)"
    "(32 + 2 * 128) * 512 + 65536 < (2 ^ 32 :: nat)" "length (replicate 512 (0 :: u8)) = 512"
    by simp_all
  define bs where "bs = fat_boot_sector 1 (g_sector_count app_drv - 4096) 4096 8 128 7 usb_disk_label"
  obtain d' m where r: "startStableFormat stick_usb app_engines Acquired None (\<lambda>_. 5) 7 (replicate 512 0) 4096 1 1 app_drv = Some (True, d')"
    "m = stick_medium (g_world d')" "m 450 = 0x0c" "unat (rd32 (mread m 458 4)) = 135202 - 4096"
    "mread m 462 48 = replicate 48 0" "mread m (2097152 + bpb_fsinfo bs * 512) 512 = fat_fsinfo"
    using fat32_stick_ready [OF stick_device app_drv(1) [symmetric] app_drv(2,3) n spc [symmetric] fs [symmetric] F bs_def,
        where rnd = "\<lambda>_. 5" and engines = app_engines] by blast
  have "m 462 = 0" using arg_cong [OF r(5), of "\<lambda>xs. xs ! 0"] by (simp add: nth_mread)
  then show ?thesis using r fat_boot_fields(13) [OF bs_def] by auto
qed

section \<open>The FAT formatter and the partition\<close>

text \<open>C28: On a stick with a GUID table the FAT formatter ignores the size of the partition that
  \<open>startStableFormat\<close> chose and recorded: the boot sector always claims the \<open>n - 4129\<close> sectors up to
  the table's backup, one more than the largest partition and, where the size was capped for the
  file system (FAT12, FAT16), as many more as the cap took away. The volume ends behind the last
  sector of its partition entry.\<close>

theorem fat_volume_overruns_partition:
  assumes n: "n = unat (g_sector_count d)" "4138 \<le> n" "n < 2 ^ 32"
    and ps: "choose_part_sectors (g_sector_count d) 2 ty cs = Some ps"
    and d': "d' = usb_scsi_set_partition_size ps (usb_scsi_set_partition_offset 4096 (usb_scsi_set_partition_type 2 d))"
    and bs: "bs = fat_boot_sector ty (fat_usable_sectors d') (g_drive_offset_sectors d') spc fs serial label"
  shows "bpb_total_sectors bs = n - 4129 \<and> unat ps < n - 4129
    \<and> unat (gpt_p_end (g_sector_count d) ps) + 1 < 4096 + bpb_total_sectors bs"
proof -
  have us: "fat_usable_sectors d' = g_sector_count d - 4129"
    by (simp add: d' fat_usable_sectors_def usb_scsi_set_partition_size_def
        usb_scsi_set_partition_offset_def usb_scsi_set_partition_type_def)
  have un: "unat (g_sector_count d - 4129) = n - 4129"
    using n by (simp add: unat_sub word_le_nat_alt)
  have total: "bpb_total_sectors bs = n - 4129"
    using bpb_total [of "g_sector_count d - 4129"] un n by (simp add: bs us)
  have le: "4130 + unat ps \<le> n" "0 < unat ps"
    using choose_part_nat(2,4) [OF ps] n(1) by (simp_all add: table_offset_def table_reserved_end_def)
  have "unat (gpt_p_end (g_sector_count d) ps) = 4095 + unat ps"
    using le n by (intro gpt_p_end_nat(3)) simp_all
  then show ?thesis using total le by linarith
qed

lemma fat_volume_overruns_partition_witness:
  "\<exists>ps bs. choose_part_sectors 200000 2 3 0 = Some ps
    \<and> bs = fat_boot_sector 3 (fat_usable_sectors (app_drv\<lparr>g_sector_count := 200000,
         g_drive_offset_sectors := 4096, g_partition_sectors := ps, g_partition_type := 2\<rparr>)) 4096 1 64 7 [0x55]
    \<and> unat ps = 65535 \<and> bpb_total_sectors bs = 195871"
proof -
  have c: "choose_part_sectors 200000 2 3 0 = Some 65535"
    by (simp add: choose_part_sectors_def table_offset_def table_reserved_end_def fs_cap_sectors_def)
  show ?thesis
    using fat_volume_overruns_partition [of 200000 "app_drv\<lparr>g_sector_count := 200000\<rparr>" 3 0 65535, OF _ _ _ _ refl refl,
        of 1 64 7 "[0x55]"] c
    by (auto simp: usb_scsi_set_partition_size_def usb_scsi_set_partition_offset_def
        usb_scsi_set_partition_type_def fat_usable_sectors_def)
qed

text \<open>On a stick that ends within the 32 MB behind the start of the partition, erasing the head of
  the partition erases the partition entry of the backup table that was written just before.\<close>

lemma small_stick_loses_backup:
  assumes dev: "bot_device u store idle cap epi epo" and inv: "disk_inv idle cap epi epo d"
    and cache: "g_cache_sectors d = 0" and n: "n = unat (g_sector_count d)" "69632 \<le> n" "n < 69664" "n \<le> cap"
    and ty: "fsType \<noteq> 8"
  shows "\<exists>d1 d2 d3. usb_scsi_wipe_mbr u (usb_scsi_set_partition_type 2 d) = Some (0, d1)
    \<and> usb_scsi_wipe_tail u d1 = (0, d2) \<and> create_partition u rnd 2 fsType ps d2 = Some d3
    \<and> gpt_partition (store (g_world d3)) (n - 33) = (0, 0)"
proof -
  have z: "mread (erased M 2097152 35651584) ((n - 33) * 512) 128 = replicate 128 0" for M
    using n by (intro nth_equalityI) (auto simp: nth_mread erased_def)
  have "gpt_partition (erased M 2097152 35651584) (n - 33) = (0, 0)" for M
    by (simp add: gpt_partition_def z Let_def rd64_def)
  then show ?thesis
    using gpt_partition_created [OF dev inv cache n(1,2,4) ty, of rnd ps] by fastforce
qed

end
