(* ===== verification/ExfatCore.thy ===== *)
theory ExfatCore
  imports ExfatFs "HOL-Library.Monad_Syntax"
begin

text \<open>
  The mounted file system of libexfat (exfat.h): \<open>struct exfat\<close>, its nodes and the operations on
  single nodes. Functions pass the state explicitly; the result is \<open>None\<close> when the C code stops in
  \<open>exfat_bug\<close>, follows a null or dangling pointer, or does not return.

  The nodes live in a heap \<open>nodes\<close> from addresses to records, since the code links and updates
  them through pointers. \<open>sb\<close> is read from the 512 bytes \<open>sb_block\<close> the code keeps in memory.
  Shifts and products of cluster numbers stay far below \<open>2 ^ 63\<close> for the super blocks
  \<open>exfat_mount\<close> accepts (cluster size at most 32 MB), so offsets are plain integers.
\<close>

section \<open>The world outside the library\<close>

text \<open>
  The device operations (io.c, or exfat_bridge.cpp in this program), \<open>malloc\<close>, the clock, the user and
  standard input; \<open>os_gm_mktime\<close> is \<open>mktime\<close> of \<open>gmtime\<close>. A read returns the contents of the buffer after the call.
\<close>

datatype exfat_mode = EXFAT_MODE_RO | EXFAT_MODE_RW | EXFAT_MODE_ANY

record 'd exfat_os =
  os_open :: "exfat_mode \<Rightarrow> 'd \<Rightarrow> bool \<times> 'd"
  os_close :: "'d \<Rightarrow> 'd"
  os_mode :: "'d \<Rightarrow> exfat_mode"
  os_size :: "'d \<Rightarrow> int"
  os_pread :: "nat \<Rightarrow> int \<Rightarrow> 'd \<Rightarrow> int \<times> bytes \<times> 'd"
  os_pwrite :: "bytes \<Rightarrow> int \<Rightarrow> 'd \<Rightarrow> int \<times> 'd"
  os_fsync :: "'d \<Rightarrow> int \<times> 'd"
  os_malloc :: "nat \<Rightarrow> 'd \<Rightarrow> bool"
  os_time :: "'d \<Rightarrow> int"
  os_gm_mktime :: "'d \<Rightarrow> int \<Rightarrow> int"
  os_euid :: "'d \<Rightarrow> int"
  os_egid :: "'d \<Rightarrow> int"
  os_fgets :: "'d \<Rightarrow> bytes option \<times> 'd"

section \<open>State\<close>

record exfat_node =
  node_parent :: "nat option"
  node_child :: "nat option"
  node_next :: "nat option"
  node_prev :: "nat option"
  references :: int
  fptr_index :: u32
  fptr_cluster :: u32
  entry_offset :: int
  start_cluster :: u32
  attrib :: u16
  continuations :: u8
  is_contiguous :: bool
  is_cached :: bool
  is_dirty :: bool
  is_unlinked :: bool
  valid_size :: u64
  node_size :: u64
  mtime :: int
  atime :: int
  node_name :: "u16 list"

datatype exfat_repair = EXFAT_REPAIR_NO | EXFAT_REPAIR_ASK | EXFAT_REPAIR_YES

record 'd exfat =
  dev :: 'd
  sb_block :: bytes
  upcase :: "u16 list option"
  root :: nat
  nodes :: "nat \<Rightarrow> exfat_node option"
  node_brk :: nat
  cmap_start_cluster :: u32
  cmap_size :: u32
  cmap_chunk :: "u64 list option"
  cmap_chunk_size :: u32
  cmap_dirty :: bool
  label :: bytes
  dmask :: int
  fmask :: int
  uid :: int
  gid :: int
  ro :: int
  noatime :: bool
  repair :: exfat_repair
  exfat_errors_fixed :: int
  exfat_timezone :: int

definition sb :: "'d exfat \<Rightarrow> exfat_super_block" where
  "sb ef = sb_of_bytes (sb_block ef)"

definition set_node :: "nat \<Rightarrow> exfat_node \<Rightarrow> 'd exfat \<Rightarrow> 'd exfat" where
  "set_node n nd ef = ef\<lparr>nodes := (nodes ef)(n \<mapsto> nd)\<rparr>"

text \<open>\<open>free(node)\<close>.\<close>

definition free_node :: "nat \<Rightarrow> 'd exfat \<Rightarrow> 'd exfat" where
  "free_node n ef = ef\<lparr>nodes := (nodes ef)(n := None)\<rparr>"

section \<open>Sizes\<close>

definition SECTOR_SIZE :: "exfat_super_block \<Rightarrow> int" where
  "SECTOR_SIZE b = 2 ^ unat (sb_sector_bits b)"

definition CLUSTER_SIZE :: "exfat_super_block \<Rightarrow> int" where
  "CLUSTER_SIZE b = SECTOR_SIZE b * 2 ^ unat (sb_spc_bits b)"

definition CLUSTER_INVALID :: "exfat_super_block \<Rightarrow> u32 \<Rightarrow> bool" where
  "CLUSTER_INVALID b c \<longleftrightarrow> c < EXFAT_FIRST_DATA_CLUSTER
     \<or> c - EXFAT_FIRST_DATA_CLUSTER \<ge> cluster_count b"

definition cluster_size64 :: "exfat_super_block \<Rightarrow> u64" where
  "cluster_size64 b = word_of_int (CLUSTER_SIZE b)"

lemma SECTOR_SIZE_pos [simp]: "0 < SECTOR_SIZE b"
  by (simp add: SECTOR_SIZE_def)

lemma CLUSTER_SIZE_pos [simp]: "0 < CLUSTER_SIZE b"
  by (simp add: CLUSTER_SIZE_def)

lemma valid_clusterE:
  assumes "\<not> CLUSTER_INVALID b c"
  shows "2 \<le> c" "unat (c - 2) = unat c - 2" "unat c - 2 < unat (cluster_count b)"
proof -
  show c: "2 \<le> c" using assms by (auto simp: CLUSTER_INVALID_def EXFAT_FIRST_DATA_CLUSTER_def)
  then show u: "unat (c - 2) = unat c - 2" by (simp add: unat_sub)
  show "unat c - 2 < unat (cluster_count b)"
    using assms unfolding u [symmetric] word_less_nat_alt [symmetric]
    by (auto simp: CLUSTER_INVALID_def EXFAT_FIRST_DATA_CLUSTER_def not_le)
qed

section \<open>Nodes\<close>

definition exfat_get_name :: "exfat_node \<Rightarrow> bytes option" where
  "exfat_get_name nd =
    (case exfat_utf16_to_utf8 (take 255 (node_name nd)) 766 of Inl e \<Rightarrow> None | Inr name \<Rightarrow> Some name)"

definition exfat_get_node :: "nat \<Rightarrow> 'd exfat \<Rightarrow> (nat \<times> 'd exfat) option" where
  "exfat_get_node n ef = do {
     nd \<leftarrow> nodes ef n;
     Some (n, set_node n (nd\<lparr>references := references nd + 1\<rparr>) ef)}"

text \<open>A dirty node without references is only warned about.\<close>

definition exfat_put_node :: "nat \<Rightarrow> 'd exfat \<Rightarrow> (unit \<times> 'd exfat) option" where
  "exfat_put_node n ef = do {
     nd \<leftarrow> nodes ef n;
     let nd' = nd\<lparr>references := references nd - 1\<rparr>;
     if references nd' < 0 then None
     else if references nd' = 0 \<and> n \<noteq> root ef \<and> is_dirty nd' then do {
       _ \<leftarrow> exfat_get_name nd';
       Some ((), set_node n nd' ef)}
     else Some ((), set_node n nd' ef)}"

definition zero_node :: exfat_node where
  "zero_node = \<lparr>node_parent = None, node_child = None, node_next = None, node_prev = None,
     references = 0, fptr_index = 0, fptr_cluster = 0, entry_offset = 0, start_cluster = 0,
     attrib = 0, continuations = 0, is_contiguous = False, is_cached = False, is_dirty = False,
     is_unlinked = False, valid_size = 0, node_size = 0, mtime = 0, atime = 0,
     node_name = replicate 256 0\<rparr>"

text \<open>\<open>sizeof(struct exfat_node)\<close> on a 64-bit target.\<close>

definition sizeof_node :: nat where "sizeof_node = 616"

definition allocate_node :: "'d exfat_os \<Rightarrow> 'd exfat \<Rightarrow> nat option \<times> 'd exfat" where
  "allocate_node os ef =
    (if os_malloc os sizeof_node (dev ef)
     then (Some (node_brk ef), set_node (node_brk ef) zero_node (ef\<lparr>node_brk := node_brk ef + 1\<rparr>))
     else (None, ef))"

definition exfat_update_mtime :: "'d exfat_os \<Rightarrow> nat \<Rightarrow> 'd exfat \<Rightarrow> (unit \<times> 'd exfat) option" where
  "exfat_update_mtime os n ef = do {
     nd \<leftarrow> nodes ef n;
     Some ((), set_node n (nd\<lparr>mtime := os_time os (dev ef), is_dirty := True\<rparr>) ef)}"

definition exfat_update_atime :: "'d exfat_os \<Rightarrow> nat \<Rightarrow> 'd exfat \<Rightarrow> (unit \<times> 'd exfat) option" where
  "exfat_update_atime os n ef = do {
     nd \<leftarrow> nodes ef n;
     Some ((), set_node n (nd\<lparr>atime := os_time os (dev ef), is_dirty := True\<rparr>) ef)}"

definition exfat_utimes :: "nat \<Rightarrow> int \<Rightarrow> int \<Rightarrow> 'd exfat \<Rightarrow> (unit \<times> 'd exfat) option" where
  "exfat_utimes n tv0 tv1 ef = do {
     nd \<leftarrow> nodes ef n;
     Some ((), set_node n (nd\<lparr>atime := tv0, mtime := tv1, is_dirty := True\<rparr>) ef)}"

definition exfat_get_label :: "'d exfat \<Rightarrow> bytes" where
  "exfat_get_label ef = label ef"

section \<open>Stat\<close>

text \<open>The fields \<open>exfat_stat\<close> sets; the others are zero.\<close>

record stat =
  st_mode :: int
  st_nlink :: int
  st_uid :: int
  st_gid :: int
  st_size :: int
  st_blocks :: int
  st_mtime :: int
  st_atime :: int
  st_ctime :: int

definition exfat_stat :: "'d exfat \<Rightarrow> exfat_node \<Rightarrow> stat" where
  "exfat_stat ef nd =
    (let cs = cluster_size64 (sb ef)
     in \<lparr>st_mode = (if attrib nd AND EXFAT_ATTRIB_DIR \<noteq> 0 then 0x4000 OR (511 AND NOT (dmask ef))
                    else 0x8000 OR (511 AND NOT (fmask ef))),
         st_nlink = 1, st_uid = uid ef, st_gid = gid ef, st_size = sint (node_size nd),
         st_blocks = sint ((node_size nd + cs - 1) div cs * cs div 512),
         st_mtime = mtime nd, st_atime = atime nd, st_ctime = mtime nd\<rparr>)"

lemma sb_dev [simp]: "sb (ef\<lparr>dev := d\<rparr>) = sb ef"
  by (simp add: sb_def)

lemma set_node_simps [simp]:
  "dev (set_node n nd ef) = dev ef" "sb_block (set_node n nd ef) = sb_block ef"
  "sb (set_node n nd ef) = sb ef" "cmap_chunk (set_node n nd ef) = cmap_chunk ef"
  "cmap_size (set_node n nd ef) = cmap_size ef" "root (set_node n nd ef) = root ef"
  "cmap_chunk_size (set_node n nd ef) = cmap_chunk_size ef"
  "cmap_start_cluster (set_node n nd ef) = cmap_start_cluster ef"
  "cmap_dirty (set_node n nd ef) = cmap_dirty ef" "upcase (set_node n nd ef) = upcase ef"
  "node_brk (set_node n nd ef) = node_brk ef" "ro (set_node n nd ef) = ro ef"
  "nodes (set_node n nd ef) = (nodes ef)(n \<mapsto> nd)" "label (set_node n nd ef) = label ef"
  by (simp_all add: set_node_def sb_def)

end
