(* ===== verification/ExfatCluster.thy ===== *)
theory ExfatCluster
  imports ExfatCore
begin

text \<open>
  cluster.c: cluster numbers and offsets, following and extending the cluster chain of a file in
  the FAT, the allocator over the cluster bitmap, and \<open>exfat_truncate\<close>. Counted loops recurse on
  the number of turns left. \<open>exfat_flush_nodes\<close> is in ExfatNode, after \<open>exfat_flush_node\<close>.
\<close>

section \<open>Offsets\<close>

definition s2o :: "'d exfat \<Rightarrow> int \<Rightarrow> int" where
  "s2o ef sector = sector * 2 ^ unat (sb_sector_bits (sb ef))"

definition c2s :: "'d exfat \<Rightarrow> u32 \<Rightarrow> int option" where
  "c2s ef cluster =
    (if cluster < EXFAT_FIRST_DATA_CLUSTER then None
     else Some (uint (cluster_sector_start (sb ef))
       + uint (cluster - EXFAT_FIRST_DATA_CLUSTER) * 2 ^ unat (sb_spc_bits (sb ef))))"

definition exfat_c2o :: "'d exfat \<Rightarrow> u32 \<Rightarrow> int option" where
  "exfat_c2o ef cluster = do { sector \<leftarrow> c2s ef cluster; Some (s2o ef sector) }"

definition s2c :: "'d exfat \<Rightarrow> int \<Rightarrow> u32" where
  "s2c ef sector =
    word_of_int ((sector - uint (cluster_sector_start (sb ef))) div 2 ^ unat (sb_spc_bits (sb ef)))
      + EXFAT_FIRST_DATA_CLUSTER"

definition bytes2clusters :: "'d exfat \<Rightarrow> u64 \<Rightarrow> u32" where
  "bytes2clusters ef n =
    (let cluster_size = cluster_size64 (sb ef) in ucast ((n + cluster_size - 1) div cluster_size))"

section \<open>Following a chain\<close>

definition fat_offset :: "'d exfat \<Rightarrow> u32 \<Rightarrow> int" where
  "fat_offset ef cluster = s2o ef (uint (fat_sector_start (sb ef))) + uint cluster * 4"

definition exfat_next_cluster ::
  "'d exfat_os \<Rightarrow> nat \<Rightarrow> u32 \<Rightarrow> 'd exfat \<Rightarrow> (u32 \<times> 'd exfat) option" where
  "exfat_next_cluster os n cluster ef =
    (if cluster < EXFAT_FIRST_DATA_CLUSTER then None
     else do {
       nd \<leftarrow> nodes ef n;
       if is_contiguous nd then Some (cluster + 1, ef)
       else let (res, buf, d) = os_pread os 4 (fat_offset ef cluster) (dev ef)
            in Some (if res < 0 then EXFAT_CLUSTER_BAD else rd32 buf, ef\<lparr>dev := d\<rparr>)})"

fun advance_loop :: "'d exfat_os \<Rightarrow> nat \<Rightarrow> nat \<Rightarrow> 'd exfat \<Rightarrow> 'd exfat option" where
  "advance_loop os n 0 ef = Some ef"
| "advance_loop os n (Suc k) ef = do {
     nd \<leftarrow> nodes ef n;
     (c, ef) \<leftarrow> exfat_next_cluster os n (fptr_cluster nd) ef;
     nd \<leftarrow> nodes ef n;
     let ef = set_node n (nd\<lparr>fptr_cluster := c\<rparr>) ef;
     if CLUSTER_INVALID (sb ef) c then Some ef else advance_loop os n k ef}"

definition exfat_advance_cluster ::
  "'d exfat_os \<Rightarrow> nat \<Rightarrow> u32 \<Rightarrow> 'd exfat \<Rightarrow> (u32 \<times> 'd exfat) option" where
  "exfat_advance_cluster os n count ef = do {
     nd \<leftarrow> nodes ef n;
     let nd = (if fptr_index nd > count
               then nd\<lparr>fptr_index := 0, fptr_cluster := start_cluster nd\<rparr> else nd);
     ef \<leftarrow> advance_loop os n (unat count - unat (fptr_index nd)) (set_node n nd ef);
     nd \<leftarrow> nodes ef n;
     Some (fptr_cluster nd, set_node n (nd\<lparr>fptr_index := count\<rparr>) ef)}"

definition set_next_cluster ::
  "'d exfat_os \<Rightarrow> bool \<Rightarrow> u32 \<Rightarrow> u32 \<Rightarrow> 'd exfat \<Rightarrow> bool \<times> 'd exfat" where
  "set_next_cluster os contiguous current next_c ef =
    (if contiguous then (True, ef)
     else let (res, d) = os_pwrite os (le32 next_c) (fat_offset ef current) (dev ef)
          in (\<not> res < 0, ef\<lparr>dev := d\<rparr>))"

section \<open>The allocator\<close>

text \<open>The blocks \<open>i\<close>, ..., \<open>i + k - 1\<close> of the bitmap; a block of ones is skipped whole.\<close>

fun find_bit_blocks :: "u64 list \<Rightarrow> nat \<Rightarrow> nat \<Rightarrow> nat \<Rightarrow> nat \<Rightarrow> nat option" where
  "find_bit_blocks bitmap start_i end_i i 0 = None"
| "find_bit_blocks bitmap start_i end_i i (Suc k) =
    (if bitmap ! i = NOT 0 then find_bit_blocks bitmap start_i end_i (i + 1) k
     else case find (\<lambda>c. \<not> BMAP_GET bitmap c) [max (i * 64) start_i..<min ((i + 1) * 64) end_i] of
            Some c \<Rightarrow> Some c
          | None \<Rightarrow> find_bit_blocks bitmap start_i end_i (i + 1) k)"

definition find_bit_and_set :: "u64 list \<Rightarrow> nat \<Rightarrow> nat \<Rightarrow> u32 \<times> u64 list" where
  "find_bit_and_set bitmap start_i end_i =
    (let start_index = start_i div 8 div 8; end_index = (end_i + 64 - 1) div 64
     in case find_bit_blocks bitmap start_i end_i start_index (end_index - start_index) of
          Some c \<Rightarrow> (of_nat c + EXFAT_FIRST_DATA_CLUSTER, BMAP_SET bitmap c)
        | None \<Rightarrow> (EXFAT_CLUSTER_END, bitmap))"

definition allocate_cluster :: "u32 \<Rightarrow> 'd exfat \<Rightarrow> (u32 \<times> 'd exfat) option" where
  "allocate_cluster hint ef = do {
     chunk \<leftarrow> cmap_chunk ef;
     let h = hint - EXFAT_FIRST_DATA_CLUSTER;
     let h = (if h \<ge> cmap_chunk_size ef then 0 else h);
     let (cluster, chunk') = find_bit_and_set chunk (unat h) (unat (cmap_chunk_size ef));
     let (cluster, chunk') = (if cluster = EXFAT_CLUSTER_END then find_bit_and_set chunk 0 (unat h)
                              else (cluster, chunk'));
     if cluster = EXFAT_CLUSTER_END then Some (EXFAT_CLUSTER_END, ef)
     else Some (cluster, ef\<lparr>cmap_chunk := Some chunk', cmap_dirty := True\<rparr>)}"

definition free_cluster :: "u32 \<Rightarrow> 'd exfat \<Rightarrow> 'd exfat option" where
  "free_cluster cluster ef =
    (if cluster - EXFAT_FIRST_DATA_CLUSTER \<ge> cmap_size ef then None
     else do {
       chunk \<leftarrow> cmap_chunk ef;
       Some (ef\<lparr>cmap_chunk := Some (BMAP_CLR chunk (unat (cluster - EXFAT_FIRST_DATA_CLUSTER))),
               cmap_dirty := True\<rparr>)})"

definition exfat_flush :: "'d exfat_os \<Rightarrow> 'd exfat \<Rightarrow> (errno \<times> 'd exfat) option" where
  "exfat_flush os ef =
    (if cmap_dirty ef then do {
       chunk \<leftarrow> cmap_chunk ef;
       off \<leftarrow> exfat_c2o ef (cmap_start_cluster ef);
       let (res, d) = os_pwrite os (take (BMAP_SIZE (unat (cmap_chunk_size ef))) (bmap_bytes chunk))
                        off (dev ef);
       if res < 0 then Some (EIO, ef\<lparr>dev := d\<rparr>)
       else Some (EOK, ef\<lparr>dev := d, cmap_dirty := False\<rparr>)}
     else Some (EOK, ef))"

definition exfat_count_free_clusters :: "'d exfat \<Rightarrow> u32 option" where
  "exfat_count_free_clusters ef = do {
     chunk \<leftarrow> cmap_chunk ef;
     Some (of_nat (length (filter (\<lambda>i. \<not> BMAP_GET chunk i) [0..<unat (cmap_size ef)])))}"

section \<open>Growing and shrinking\<close>

text \<open>A loop over clusters \<open>c\<close>, \<open>c + 1\<close>, ... with \<open>k\<close> turns.\<close>

fun make_noncontiguous_loop :: "'d exfat_os \<Rightarrow> nat \<Rightarrow> u32 \<Rightarrow> 'd exfat \<Rightarrow> bool \<times> 'd exfat" where
  "make_noncontiguous_loop os 0 c ef = (True, ef)"
| "make_noncontiguous_loop os (Suc k) c ef =
    (let (ok, ef) = set_next_cluster os False c (c + 1) ef
     in if \<not> ok then (False, ef) else make_noncontiguous_loop os k (c + 1) ef)"

definition make_noncontiguous ::
  "'d exfat_os \<Rightarrow> u32 \<Rightarrow> u32 \<Rightarrow> 'd exfat \<Rightarrow> bool \<times> 'd exfat" where
  "make_noncontiguous os c1 c2 ef = make_noncontiguous_loop os (unat c2 - unat c1) c1 ef"

fun shrink_loop :: "'d exfat_os \<Rightarrow> nat \<Rightarrow> nat \<Rightarrow> u32 \<Rightarrow> 'd exfat \<Rightarrow> (errno \<times> 'd exfat) option" where
  "shrink_loop os n 0 previous ef = Some (EOK, ef)"
| "shrink_loop os n (Suc k) previous ef =
    (if CLUSTER_INVALID (sb ef) previous then Some (EIO, ef)
     else do {
       (next_c, ef) \<leftarrow> exfat_next_cluster os n previous ef;
       nd \<leftarrow> nodes ef n;
       let (ok, ef) = set_next_cluster os (is_contiguous nd) previous EXFAT_CLUSTER_FREE ef;
       if \<not> ok then Some (EIO, ef)
       else do { ef \<leftarrow> free_cluster previous ef; shrink_loop os n k next_c ef }})"

text \<open>Cropping the chain: the first cluster to free, or an error.\<close>

definition shrink_crop ::
  "'d exfat_os \<Rightarrow> nat \<Rightarrow> u32 \<Rightarrow> u32 \<Rightarrow> 'd exfat \<Rightarrow> ((errno + u32) \<times> 'd exfat) option" where
  "shrink_crop os n current difference ef =
    (if current > difference then do {
       (final, ef) \<leftarrow> exfat_advance_cluster os n (current - difference - 1) ef;
       if CLUSTER_INVALID (sb ef) final then Some (Inl EIO, ef)
       else do {
         (previous, ef) \<leftarrow> exfat_next_cluster os n final ef;
         nd \<leftarrow> nodes ef n;
         let (ok, ef) = set_next_cluster os (is_contiguous nd) final EXFAT_CLUSTER_END ef;
         Some (if ok then Inr previous else Inl EIO, ef)}}
     else do {
       nd \<leftarrow> nodes ef n;
       Some (Inr (start_cluster nd),
             set_node n (nd\<lparr>start_cluster := EXFAT_CLUSTER_FREE, is_dirty := True\<rparr>) ef)})"

definition shrink_file ::
  "'d exfat_os \<Rightarrow> nat \<Rightarrow> u32 \<Rightarrow> u32 \<Rightarrow> 'd exfat \<Rightarrow> (errno \<times> 'd exfat) option" where
  "shrink_file os n current difference ef = do {
     nd \<leftarrow> nodes ef n;
     if difference = 0 \<or> start_cluster nd = EXFAT_CLUSTER_FREE \<or> current < difference then None
     else do {
       (r, ef) \<leftarrow> shrink_crop os n current difference ef;
       case r of Inl e \<Rightarrow> Some (e, ef)
       | Inr previous \<Rightarrow> do {
           nd \<leftarrow> nodes ef n;
           let ef = set_node n (nd\<lparr>fptr_index := 0, fptr_cluster := start_cluster nd\<rparr>) ef;
           shrink_loop os n (unat difference) previous ef}}}"

text \<open>The \<open>while (allocated < difference)\<close> loop, with \<open>k = difference - allocated\<close> turns left;
  on success the last cluster of the file.\<close>

fun grow_loop ::
  "'d exfat_os \<Rightarrow> nat \<Rightarrow> u32 \<Rightarrow> u32 \<Rightarrow> nat \<Rightarrow> u32 \<Rightarrow> 'd exfat \<Rightarrow> ((errno + u32) \<times> 'd exfat) option" where
  "grow_loop os n current allocated 0 previous ef = Some (Inr previous, ef)"
| "grow_loop os n current allocated (Suc k) previous ef = do {
     (next_c, ef) \<leftarrow> allocate_cluster (previous + 1) ef;
     if CLUSTER_INVALID (sb ef) next_c then
       (if allocated \<noteq> 0 then do {
          (_, ef) \<leftarrow> shrink_file os n (current + allocated) allocated ef;
          Some (Inl ENOSPC, ef)}
        else Some (Inl ENOSPC, ef))
     else do {
       nd \<leftarrow> nodes ef n;
       let (ok, ef) =
         (if next_c \<noteq> previous + 1 \<and> is_contiguous nd
          then let (ok, ef) = make_noncontiguous os (start_cluster nd) previous ef
               in (ok, if ok then set_node n (nd\<lparr>is_contiguous := False, is_dirty := True\<rparr>) ef else ef)
          else (True, ef));
       if \<not> ok then Some (Inl EIO, ef)
       else do {
         nd \<leftarrow> nodes ef n;
         let (ok, ef) = set_next_cluster os (is_contiguous nd) previous next_c ef;
         if \<not> ok then Some (Inl EIO, ef)
         else grow_loop os n current (allocated + 1) k next_c ef}}}"

text \<open>The last cluster of the file and how many clusters were already allocated for it here.\<close>

definition grow_start ::
  "'d exfat_os \<Rightarrow> nat \<Rightarrow> u32 \<Rightarrow> 'd exfat \<Rightarrow> ((errno + u32 \<times> u32) \<times> 'd exfat) option" where
  "grow_start os n current ef = do {
     nd \<leftarrow> nodes ef n;
     if start_cluster nd \<noteq> EXFAT_CLUSTER_FREE then do {
       (previous, ef) \<leftarrow> exfat_advance_cluster os n (current - 1) ef;
       Some (if CLUSTER_INVALID (sb ef) previous then Inl EIO else Inr (previous, 0), ef)}
     else if fptr_index nd \<noteq> 0 then None
     else do {
       (previous, ef) \<leftarrow> allocate_cluster 0 ef;
       if CLUSTER_INVALID (sb ef) previous then Some (Inl ENOSPC, ef)
       else do {
         nd \<leftarrow> nodes ef n;
         Some (Inr (previous, 1), set_node n (nd\<lparr>start_cluster := previous,
           fptr_cluster := previous, is_contiguous := True\<rparr>) ef)}}}"

definition grow_file ::
  "'d exfat_os \<Rightarrow> nat \<Rightarrow> u32 \<Rightarrow> u32 \<Rightarrow> 'd exfat \<Rightarrow> (errno \<times> 'd exfat) option" where
  "grow_file os n current difference ef =
    (if difference = 0 then None
     else do {
       (r, ef) \<leftarrow> grow_start os n current ef;
       case r of Inl e \<Rightarrow> Some (e, ef)
       | Inr (previous, allocated) \<Rightarrow> do {
           (r, ef) \<leftarrow> grow_loop os n current allocated (unat difference - unat allocated) previous ef;
           case r of Inl e \<Rightarrow> Some (e, ef)
           | Inr previous \<Rightarrow> do {
               nd \<leftarrow> nodes ef n;
               let (ok, ef) = set_next_cluster os (is_contiguous nd) previous EXFAT_CLUSTER_END ef;
               Some (if ok then EOK else EIO, ef)}}})"

section \<open>Erasing and truncating\<close>

text \<open>The source of the zeros is \<open>zero_cluster\<close>, one cluster of them.\<close>

definition erase_raw :: "'d exfat_os \<Rightarrow> nat \<Rightarrow> int \<Rightarrow> 'd exfat \<Rightarrow> bool \<times> 'd exfat" where
  "erase_raw os len off ef =
    (let (res, d) = os_pwrite os (replicate len 0) off (dev ef) in (\<not> res < 0, ef\<lparr>dev := d\<rparr>))"

partial_function (option) erase_loop ::
  "'d exfat_os \<Rightarrow> nat \<Rightarrow> u64 \<Rightarrow> u64 \<Rightarrow> u32 \<Rightarrow> 'd exfat \<Rightarrow> (errno \<times> 'd exfat) option" where
  "erase_loop os n cluster_boundary e cluster ef =
    (if cluster_boundary < e then do {
       (cluster, ef) \<leftarrow> exfat_next_cluster os n cluster ef;
       if CLUSTER_INVALID (sb ef) cluster then None
       else do {
         off \<leftarrow> exfat_c2o ef cluster;
         let (ok, ef) = erase_raw os (nat (CLUSTER_SIZE (sb ef))) off ef;
         if \<not> ok then Some (EIO, ef)
         else erase_loop os n (cluster_boundary + cluster_size64 (sb ef)) e cluster ef}}
     else Some (EOK, ef))"

definition erase_range ::
  "'d exfat_os \<Rightarrow> nat \<Rightarrow> u64 \<Rightarrow> u64 \<Rightarrow> 'd exfat \<Rightarrow> (errno \<times> 'd exfat) option" where
  "erase_range os n b e ef =
    (if b \<ge> e then Some (EOK, ef)
     else let cs = cluster_size64 (sb ef); cluster_boundary = (b OR (cs - 1)) + 1
          in do {
            (cluster, ef) \<leftarrow> exfat_advance_cluster os n (ucast (b div cs)) ef;
            if CLUSTER_INVALID (sb ef) cluster then Some (EIO, ef)
            else do {
              off \<leftarrow> exfat_c2o ef cluster;
              let (ok, ef) = erase_raw os (unat (min cluster_boundary e - b))
                               (off + uint (b mod cs)) ef;
              if \<not> ok then Some (EIO, ef)
              else erase_loop os n cluster_boundary e cluster ef}})"

definition exfat_truncate ::
  "'d exfat_os \<Rightarrow> nat \<Rightarrow> u64 \<Rightarrow> bool \<Rightarrow> 'd exfat \<Rightarrow> (errno \<times> 'd exfat) option" where
  "exfat_truncate os n len erase ef = do {
     nd \<leftarrow> nodes ef n;
     let c1 = bytes2clusters ef (node_size nd);
     let c2 = bytes2clusters ef len;
     if references nd = 0 \<and> node_parent nd \<noteq> None then None
     else if node_size nd = len then Some (EOK, ef)
     else do {
       (rc, ef) \<leftarrow> (if c1 < c2 then grow_file os n c1 (c2 - c1) ef
                  else if c1 > c2 then shrink_file os n c1 (c1 - c2) ef
                  else Some (EOK, ef));
       if rc \<noteq> EOK then Some (rc, ef)
       else do {
         nd \<leftarrow> nodes ef n;
         (rc, ef) \<leftarrow> (if erase then erase_range os n (valid_size nd) len ef else Some (EOK, ef));
         if rc \<noteq> EOK then Some (rc, ef)
         else do {
           nd \<leftarrow> nodes ef n;
           (_, ef) \<leftarrow> exfat_update_mtime os n
             (set_node n (nd\<lparr>valid_size := (if erase then len else min (valid_size nd) len)\<rparr>) ef);
           nd \<leftarrow> nodes ef n;
           Some (EOK, set_node n (nd\<lparr>node_size := len, is_dirty := True\<rparr>) ef)}}}}"

definition exfat_cleanup_node :: "'d exfat_os \<Rightarrow> nat \<Rightarrow> 'd exfat \<Rightarrow> (errno \<times> 'd exfat) option" where
  "exfat_cleanup_node os n ef = do {
     nd \<leftarrow> nodes ef n;
     if references nd \<noteq> 0 then None
     else if is_unlinked nd then do {
       (rc, ef) \<leftarrow> exfat_truncate os n 0 True ef;
       Some (rc, free_node n ef)}
     else Some (EOK, ef)}"

section \<open>Reporting the used part of the volume\<close>

text \<open>Both loops count \<open>u32\<close> cluster numbers up to \<open>end\<close>; the results are the new values of
  \<open>*a\<close> and \<open>*b\<close>, or \<open>None\<close> where the C code returns 1 (having set \<open>*a\<close> only).\<close>

definition find_used_clusters :: "'d exfat \<Rightarrow> u64 list \<Rightarrow> u32 \<Rightarrow> (u32 \<times> u32) option" where
  "find_used_clusters ef chunk b =
    (let end_c = unat (cluster_count (sb ef));
         used = (\<lambda>c. BMAP_GET chunk (unat (of_nat c - EXFAT_FIRST_DATA_CLUSTER)))
     in case find used [unat (b + 1)..<end_c] of
          None \<Rightarrow> None
        | Some a \<Rightarrow>
            (case find (\<lambda>c. \<not> used c) [a..<end_c] of
               Some c \<Rightarrow> Some (of_nat a, of_nat c - 1)
             | None \<Rightarrow> Some (of_nat a, of_nat end_c)))"

text \<open>The results are the return value and the new \<open>*a\<close> and \<open>*b\<close>.\<close>

definition exfat_find_used_sectors :: "'d exfat \<Rightarrow> int \<Rightarrow> int \<Rightarrow> (int \<times> int \<times> int) option" where
  "exfat_find_used_sectors ef a b = do {
     chunk \<leftarrow> cmap_chunk ef;
     let cb = (if a = 0 \<and> b = 0 then EXFAT_FIRST_DATA_CLUSTER - 1 else s2c ef b);
     case find_used_clusters ef chunk cb of
       None \<Rightarrow> Some (1, a, b)
     | Some (ca, cb) \<Rightarrow> do {
         a' \<leftarrow> (if a \<noteq> 0 \<or> b \<noteq> 0 then c2s ef ca else Some a);
         sector \<leftarrow> c2s ef cb;
         Some (0, a', sector + (CLUSTER_SIZE (sb ef) - 1) div SECTOR_SIZE (sb ef))}}"

end
