(* ===== verification/ExfatRw.thy ===== *)
theory ExfatRw
  imports ExfatCluster
begin

text \<open>
  \<open>exfat_generic_pread\<close> and \<open>exfat_generic_pwrite\<close> of io.c: reading and writing the contents of
  a node through its cluster chain; and repair.c, which fixes what the checks find.
\<close>

section \<open>Reading\<close>

text \<open>A read returns the bytes it has filled in, as many as the C function's result says.\<close>

partial_function (option) pread_loop ::
  "'d exfat_os \<Rightarrow> nat \<Rightarrow> int \<Rightarrow> int \<Rightarrow> u32 \<Rightarrow> bytes \<Rightarrow> 'd exfat
     \<Rightarrow> ((errno + bytes) \<times> 'd exfat) option" where
  "pread_loop os n loffset remainder cluster acc ef =
    (if remainder > 0 then
       if CLUSTER_INVALID (sb ef) cluster then Some (Inl EIO, ef)
       else do {
         off \<leftarrow> exfat_c2o ef cluster;
         let lsize = min (CLUSTER_SIZE (sb ef) - loffset) remainder;
         let (res, buf, d) = os_pread os (nat lsize) (off + loffset) (dev ef);
         let ef = ef\<lparr>dev := d\<rparr>;
         if res < 0 then Some (Inl EIO, ef)
         else do {
           (cluster, ef) \<leftarrow> exfat_next_cluster os n cluster ef;
           pread_loop os n 0 (remainder - lsize) cluster (acc @ buf) ef}}
     else Some (Inr acc, ef))"

partial_function (option) exfat_generic_pread ::
  "'d exfat_os \<Rightarrow> nat \<Rightarrow> u64 \<Rightarrow> int \<Rightarrow> 'd exfat \<Rightarrow> ((errno + bytes) \<times> 'd exfat) option" where
  "exfat_generic_pread os n len offset ef = do {
     nd \<leftarrow> nodes ef n;
     let uoffset = word_of_int offset;
     if offset < 0 then Some (Inl EINVAL, ef)
     else if uoffset \<ge> node_size nd then Some (Inr [], ef)
     else if len = 0 then Some (Inr [], ef)
     else if uoffset + len > valid_size nd then do {
       (r, ef) \<leftarrow> (if uoffset < valid_size nd
                  then exfat_generic_pread os n (valid_size nd - uoffset) offset ef
                  else Some (Inr [], ef));
       nd \<leftarrow> nodes ef n;
       case r of Inl e \<Rightarrow> Some (Inl e, ef)
       | Inr bs \<Rightarrow>
           if uoffset < valid_size nd \<and> length bs < unat (valid_size nd - uoffset)
           then Some (Inr bs, ef)
           else Some (Inr (take (unat (min len (node_size nd - uoffset)))
                  (bs @ replicate (unat (min (len - of_nat (length bs)) (node_size nd - valid_size nd))) 0)),
                  ef)}
     else do {
       let cs = cluster_size64 (sb ef);
       (cluster, ef) \<leftarrow> exfat_advance_cluster os n (ucast (uoffset div cs)) ef;
       if CLUSTER_INVALID (sb ef) cluster then Some (Inl EIO, ef)
       else do {
         (r, ef) \<leftarrow> pread_loop os n (uint (uoffset mod cs)) (sint (min len (node_size nd - uoffset)))
                     cluster [] ef;
         nd \<leftarrow> nodes ef n;
         case r of Inl e \<Rightarrow> Some (Inl e, ef)
         | Inr bs \<Rightarrow>
             if attrib nd AND EXFAT_ATTRIB_DIR = 0 \<and> ro ef = 0 \<and> \<not> noatime ef
             then do { (_, ef) \<leftarrow> exfat_update_atime os n ef; Some (Inr bs, ef) }
             else Some (Inr bs, ef)}}}"

section \<open>Writing\<close>

partial_function (option) pwrite_loop ::
  "'d exfat_os \<Rightarrow> nat \<Rightarrow> u64 \<Rightarrow> int \<Rightarrow> bytes \<Rightarrow> u32 \<Rightarrow> 'd exfat \<Rightarrow> (errno \<times> 'd exfat) option" where
  "pwrite_loop os n done_off loffset buf cluster ef =
    (if buf \<noteq> [] then
       if CLUSTER_INVALID (sb ef) cluster then Some (EIO, ef)
       else do {
         off \<leftarrow> exfat_c2o ef cluster;
         let lsize = nat (min (CLUSTER_SIZE (sb ef) - loffset) (int (length buf)));
         let (res, d) = os_pwrite os (take lsize buf) (off + loffset) (dev ef);
         let ef = ef\<lparr>dev := d\<rparr>;
         if res < 0 then Some (EIO, ef)
         else do {
           nd \<leftarrow> nodes ef n;
           let done_off = done_off + of_nat lsize;
           let ef = set_node n (nd\<lparr>valid_size := max (valid_size nd) done_off\<rparr>) ef;
           (cluster, ef) \<leftarrow> exfat_next_cluster os n cluster ef;
           pwrite_loop os n done_off 0 (drop lsize buf) cluster ef}}
     else Some (EOK, ef))"

definition exfat_generic_pwrite ::
  "'d exfat_os \<Rightarrow> nat \<Rightarrow> bytes \<Rightarrow> int \<Rightarrow> 'd exfat \<Rightarrow> ((errno + nat) \<times> 'd exfat) option" where
  "exfat_generic_pwrite os n buf offset ef =
    (if offset < 0 then Some (Inl EINVAL, ef)
     else do {
       nd \<leftarrow> nodes ef n;
       let uoffset = word_of_int offset;
       let len = of_nat (length buf);
       (rc, ef) \<leftarrow> (if uoffset > node_size nd then exfat_truncate os n uoffset True ef
                   else Some (EOK, ef));
       if rc \<noteq> EOK then Some (Inl rc, ef)
       else do {
         nd \<leftarrow> nodes ef n;
         (rc, ef) \<leftarrow> (if uoffset + len > node_size nd then exfat_truncate os n (uoffset + len) False ef
                     else Some (EOK, ef));
         if rc \<noteq> EOK then Some (Inl rc, ef)
         else if buf = [] then Some (Inr 0, ef)
         else do {
           let cs = cluster_size64 (sb ef);
           (cluster, ef) \<leftarrow> exfat_advance_cluster os n (ucast (uoffset div cs)) ef;
           if CLUSTER_INVALID (sb ef) cluster then Some (Inl EIO, ef)
           else do {
             (rc, ef) \<leftarrow> pwrite_loop os n uoffset (uint (uoffset mod cs)) buf cluster ef;
             if rc \<noteq> EOK then Some (Inl rc, ef)
             else do {
               nd \<leftarrow> nodes ef n;
               (_, ef) \<leftarrow> (if attrib nd AND EXFAT_ATTRIB_DIR = 0 then exfat_update_mtime os n ef
                          else Some ((), ef));
               Some (Inr (length buf), ef)}}}}})"

section \<open>Repairs\<close>

text \<open>\<open>"Y\n"\<close> and \<open>"N\n"\<close> in either case, as bytes. The end of the input counts as a no.\<close>

partial_function (option) ask_loop :: "'d exfat_os \<Rightarrow> 'd exfat \<Rightarrow> (bool \<times> 'd exfat) option" where
  "ask_loop os ef =
    (let (answer, d) = os_fgets os (dev ef); ef = ef\<lparr>dev := d\<rparr>
     in case answer of
          None \<Rightarrow> Some (False, ef)
        | Some line \<Rightarrow>
            if line \<in> {[0x59, 0x0a], [0x79, 0x0a]} then Some (True, ef)
            else if line \<in> {[0x4e, 0x0a], [0x6e, 0x0a]} then Some (False, ef)
            else ask_loop os ef)"

definition exfat_ask_to_fix :: "'d exfat_os \<Rightarrow> 'd exfat \<Rightarrow> (bool \<times> 'd exfat) option" where
  "exfat_ask_to_fix os ef =
    (case repair ef of
       EXFAT_REPAIR_NO \<Rightarrow> Some (False, ef)
     | EXFAT_REPAIR_YES \<Rightarrow> Some (True, ef)
     | EXFAT_REPAIR_ASK \<Rightarrow> ask_loop os ef)"

text \<open>The result also has the contents of the \<open>sector\<close> buffer afterwards.\<close>

definition exfat_fix_invalid_vbr_checksum ::
  "'d exfat_os \<Rightarrow> bytes \<Rightarrow> u32 \<Rightarrow> 'd exfat \<Rightarrow> (bool \<times> bytes) \<times> 'd exfat" where
  "exfat_fix_invalid_vbr_checksum os sector vbr_checksum ef =
    (let sector_size = SECTOR_SIZE (sb ef);
         sector = concat (replicate (nat (sector_size div 4)) (le32 vbr_checksum));
         (res, d) = os_pwrite os sector (11 * sector_size) (dev ef); ef = ef\<lparr>dev := d\<rparr>
     in if res < 0 then ((False, sector), ef)
        else ((True, sector), ef\<lparr>exfat_errors_fixed := exfat_errors_fixed ef + 1\<rparr>))"

definition exfat_fix_invalid_node_checksum :: "nat \<Rightarrow> 'd exfat \<Rightarrow> (bool \<times> 'd exfat) option" where
  "exfat_fix_invalid_node_checksum n ef = do {
     nd \<leftarrow> nodes ef n;
     Some (True, (set_node n (nd\<lparr>is_dirty := True\<rparr>) ef)
       \<lparr>exfat_errors_fixed := exfat_errors_fixed ef + 1\<rparr>)}"

definition exfat_fix_unknown_entry ::
  "'d exfat_os \<Rightarrow> nat \<Rightarrow> bytes \<Rightarrow> int \<Rightarrow> 'd exfat \<Rightarrow> (bool \<times> 'd exfat) option" where
  "exfat_fix_unknown_entry os dir entry offset ef = do {
     let deleted = entry[0 := entry ! 0 AND NOT EXFAT_ENTRY_VALID];
     (r, ef) \<leftarrow> exfat_generic_pwrite os dir deleted offset ef;
     Some (if r = Inr 32 then (True, ef\<lparr>exfat_errors_fixed := exfat_errors_fixed ef + 1\<rparr>)
           else (False, ef))}"

end
