(* ===== verification/ExfatNode.thy ===== *)
theory ExfatNode
  imports ExfatRw
begin

text \<open>
  node.c, first half: reading directory entries, checking them and building the nodes of a
  directory, the cache of nodes, and writing the metadata of a node back.
\<close>

section \<open>Directory entries\<close>

text \<open>An entry is 32 bytes; these are the fields of the packed structures of exfatfs.h.\<close>

definition entries_of :: "bytes \<Rightarrow> bytes list" where
  "entries_of bs = map (\<lambda>i. seg (32 * i) 32 bs) [0..<length bs div 32]"

fun u16s :: "bytes \<Rightarrow> u16 list" where
  "u16s (a # b # rest) = rd16 [a, b] # u16s rest"
| "u16s _ = []"

definition read_entries ::
  "'d exfat_os \<Rightarrow> nat \<Rightarrow> nat \<Rightarrow> int \<Rightarrow> 'd exfat \<Rightarrow> ((errno + bytes list) \<times> 'd exfat) option" where
  "read_entries os dir n offset ef = do {
     nd \<leftarrow> nodes ef dir;
     if attrib nd AND EXFAT_ATTRIB_DIR = 0 then None
     else do {
       (r, ef) \<leftarrow> exfat_generic_pread os dir (of_nat (32 * n)) offset ef;
       Some (case r of Inl e \<Rightarrow> Inl EIO
             | Inr bs \<Rightarrow> if length bs = 32 * n then Inr (entries_of bs)
                        else if bs = [] then Inl ENOENT else Inl EIO, ef)}}"

definition write_entries ::
  "'d exfat_os \<Rightarrow> nat \<Rightarrow> bytes list \<Rightarrow> int \<Rightarrow> 'd exfat \<Rightarrow> (errno \<times> 'd exfat) option" where
  "write_entries os dir entries offset ef = do {
     nd \<leftarrow> nodes ef dir;
     if attrib nd AND EXFAT_ATTRIB_DIR = 0 then None
     else do {
       (r, ef) \<leftarrow> exfat_generic_pwrite os dir (concat entries) offset ef;
       Some (if r = Inr (32 * length entries) then EOK else EIO, ef)}}"

section \<open>A file's entries\<close>

definition init_node_meta1 :: "int \<Rightarrow> bytes \<Rightarrow> exfat_node \<Rightarrow> exfat_node" where
  "init_node_meta1 tz meta1 nd = nd\<lparr>
     attrib := rd16 (drop 4 meta1), continuations := meta1 ! 1,
     mtime := exfat_exfat2unix tz (rd16 (drop 14 meta1)) (rd16 (drop 12 meta1)) (meta1 ! 21) (meta1 ! 23),
     atime := exfat_exfat2unix tz (rd16 (drop 18 meta1)) (rd16 (drop 16 meta1)) 0 (meta1 ! 24)\<rparr>"

definition init_node_meta2 :: "bytes \<Rightarrow> exfat_node \<Rightarrow> exfat_node" where
  "init_node_meta2 meta2 nd = nd\<lparr>
     valid_size := rd64 (drop 8 meta2), node_size := rd64 (drop 24 meta2),
     start_cluster := rd32 (drop 20 meta2), fptr_cluster := rd32 (drop 20 meta2),
     is_contiguous := meta2 ! 1 AND EXFAT_FLAG_CONTIGUOUS \<noteq> 0\<rparr>"

text \<open>The names of the first \<open>n\<close> of \<open>entries\<close>, 15 units each, go to the start of the node's name.\<close>

definition init_node_name :: "bytes list \<Rightarrow> nat \<Rightarrow> exfat_node \<Rightarrow> exfat_node" where
  "init_node_name entries n nd =
    nd\<lparr>node_name := patch 0 (concat (map (\<lambda>e. u16s (seg 2 30 e)) (take n entries))) (node_name nd)\<rparr>"

text \<open>\<open>EXFAT_ENTRY_NONE\<close> is -1.\<close>

definition valid_transition :: "int \<Rightarrow> int \<Rightarrow> bool" where
  "valid_transition previous current =
    (if previous = -1 then current = uint EXFAT_ENTRY_FILE
     else if previous = uint EXFAT_ENTRY_FILE then current = uint EXFAT_ENTRY_FILE_INFO
     else if previous = uint EXFAT_ENTRY_FILE_INFO then current = uint EXFAT_ENTRY_FILE_NAME
     else if previous = uint EXFAT_ENTRY_FILE_NAME
          then current = uint EXFAT_ENTRY_FILE_NAME \<or> current = -1
               \<or> current \<ge> uint EXFAT_ENTRY_FILE_TAIL
     else if uint EXFAT_ENTRY_FILE_TAIL \<le> previous \<and> previous \<le> 0xff
          then current \<ge> uint EXFAT_ENTRY_FILE_TAIL \<or> current = -1
     else False)"

fun check_transitions :: "int \<Rightarrow> int list \<Rightarrow> bool" where
  "check_transitions previous [] = True"
| "check_transitions previous (current # rest) =
    (valid_transition previous current \<and> check_transitions current rest)"

definition check_entries :: "bytes list \<Rightarrow> bool" where
  "check_entries entries = check_transitions (-1) (map (\<lambda>e. uint (e ! 0)) entries @ [-1])"

text \<open>The checks of \<open>check_node\<close> that follow the checksum; each failing one only logs the name and
  clears the result.\<close>

definition node_fields_ok :: "exfat_super_block \<Rightarrow> exfat_node \<Rightarrow> bool" where
  "node_fields_ok b nd \<longleftrightarrow>
     (let cluster_size = cluster_size64 b;
          clusters_heap_size = ucast (cluster_count b) * cluster_size
      in \<not> valid_size nd > node_size nd
         \<and> \<not> (node_size nd = 0 \<and> start_cluster nd \<noteq> EXFAT_CLUSTER_FREE)
         \<and> \<not> (node_size nd > 0 \<and> CLUSTER_INVALID b (start_cluster nd))
         \<and> \<not> node_size nd > clusters_heap_size
         \<and> \<not> (node_size nd = 0 \<and> is_contiguous nd)
         \<and> \<not> (attrib nd AND EXFAT_ATTRIB_DIR \<noteq> 0 \<and> node_size nd mod cluster_size \<noteq> 0))"

definition check_node ::
  "'d exfat_os \<Rightarrow> nat \<Rightarrow> u16 \<Rightarrow> bytes \<Rightarrow> 'd exfat \<Rightarrow> (bool \<times> 'd exfat) option" where
  "check_node os n actual_checksum meta1 ef = do {
     nd \<leftarrow> nodes ef n;
     (ret, ef) \<leftarrow>
       (if actual_checksum \<noteq> rd16 (drop 2 meta1) then do {
          _ \<leftarrow> exfat_get_name nd;
          (fix_it, ef) \<leftarrow> exfat_ask_to_fix os ef;
          if fix_it then exfat_fix_invalid_node_checksum n ef else Some (False, ef)}
        else Some (True, ef));
     if node_fields_ok (sb ef) nd then Some (ret, ef)
     else do { _ \<leftarrow> exfat_get_name nd; Some (False, ef) }}"

definition parse_file_entries ::
  "'d exfat_os \<Rightarrow> nat \<Rightarrow> bytes list \<Rightarrow> 'd exfat \<Rightarrow> (errno \<times> 'd exfat) option" where
  "parse_file_entries os n entries ef =
    (if \<not> check_entries entries then Some (EIO, ef)
     else let meta1 = entries ! 0; conts = uint (meta1 ! 1)
     in if conts < 2 then Some (EIO, ef)
     else let meta2 = entries ! 1
     in if meta2 ! 1 AND NOT (EXFAT_FLAG_ALWAYS1 OR EXFAT_FLAG_CONTIGUOUS) \<noteq> 0 then Some (EIO, ef)
     else let mandatory_entries = 2 + DIV_ROUND_UP (uint (meta2 ! 3)) 15
     in if conts < mandatory_entries - 1 then Some (EIO, ef)
     else do {
       nd \<leftarrow> nodes ef n;
       let nd = init_node_name (drop 2 entries) (nat (mandatory_entries - 2))
                  (init_node_meta2 meta2 (init_node_meta1 (exfat_timezone ef) meta1 nd));
       (ok, ef) \<leftarrow> check_node os n (exfat_calc_checksum entries (length entries)) meta1
                    (set_node n nd ef);
       Some (if ok then EOK else EIO, ef)})"

text \<open>The new node and the offset behind its entries.\<close>

definition parse_file_entry ::
  "'d exfat_os \<Rightarrow> nat \<Rightarrow> int \<Rightarrow> nat \<Rightarrow> 'd exfat \<Rightarrow> ((errno + nat \<times> int) \<times> 'd exfat) option" where
  "parse_file_entry os par offset n ef = do {
     (r, ef) \<leftarrow> read_entries os par n offset ef;
     case r of Inl e \<Rightarrow> Some (Inl e, ef)
     | Inr entries \<Rightarrow>
         (case allocate_node os ef of
            (None, ef) \<Rightarrow> Some (Inl ENOMEM, ef)
          | (Some node, ef) \<Rightarrow> do {
              nd \<leftarrow> nodes ef node;
              (rc, ef) \<leftarrow> parse_file_entries os node entries
                           (set_node node (nd\<lparr>entry_offset := offset\<rparr>) ef);
              if rc \<noteq> EOK then Some (Inl rc, free_node node ef)
              else Some (Inr (node, offset + 32 * int n), ef)})}"

section \<open>The up-case table\<close>

fun decompress_loop :: "u16 list \<Rightarrow> nat \<Rightarrow> u16 list \<Rightarrow> u16 list" where
  "decompress_loop [] oi output = output"
| "decompress_loop (ch # rest) oi output =
    (if oi \<ge> 0x10000 then output
     else if ch = 0xffff \<and> rest \<noteq> [] then decompress_loop (tl rest) (oi + unat (hd rest)) output
     else decompress_loop rest (oi + 1) (output[oi := ch]))"

definition decompress_upcase :: "u16 list \<Rightarrow> u16 list" where
  "decompress_upcase source = decompress_loop source 0 (map of_nat [0..<0x10000])"

section \<open>Reading a directory\<close>

text \<open>The three cases of \<open>readdir\<close> that do not end it; \<open>EOK\<close> is the \<open>break\<close> of the switch.\<close>

definition readdir_upcase :: "'d exfat_os \<Rightarrow> bytes \<Rightarrow> 'd exfat \<Rightarrow> (errno \<times> 'd exfat) option" where
  "readdir_upcase os entry ef =
    (if upcase ef \<noteq> None then Some (EOK, ef)
     else let start_c = rd32 (drop 20 entry); upcase_size = rd64 (drop 24 entry)
     in if CLUSTER_INVALID (sb ef) start_c then Some (EIO, ef)
     else if upcase_size = 0 \<or> upcase_size > 0x20000 \<or> upcase_size mod 2 \<noteq> 0 then Some (EIO, ef)
     else if \<not> os_malloc os (unat upcase_size) (dev ef) then Some (ENOMEM, ef)
     else do {
       off \<leftarrow> exfat_c2o ef start_c;
       let (res, buf, d) = os_pread os (unat upcase_size) off (dev ef);
       let ef = ef\<lparr>dev := d\<rparr>;
       if res < 0 then Some (EIO, ef)
       else if \<not> os_malloc os 0x20000 (dev ef) then Some (ENOMEM, ef)
       else Some (EOK, ef\<lparr>upcase := Some (decompress_upcase (u16s buf))\<rparr>)})"

definition readdir_bitmap :: "'d exfat_os \<Rightarrow> bytes \<Rightarrow> 'd exfat \<Rightarrow> (errno \<times> 'd exfat) option" where
  "readdir_bitmap os entry ef =
    (let ef = ef\<lparr>cmap_start_cluster := rd32 (drop 20 entry)\<rparr>
     in if CLUSTER_INVALID (sb ef) (cmap_start_cluster ef) then Some (EIO, ef)
     else let ef = ef\<lparr>cmap_size := cluster_count (sb ef)\<rparr>
     in if rd64 (drop 24 entry) < ucast ((cmap_size ef + 8 - 1) div 8) then Some (EIO, ef)
     else let ef = ef\<lparr>cmap_chunk_size := cmap_size ef\<rparr>;
              len = BMAP_SIZE (unat (cmap_chunk_size ef))
     in if \<not> os_malloc os len (dev ef) then Some (ENOMEM, ef\<lparr>cmap_chunk := None\<rparr>)
     else do {
       off \<leftarrow> exfat_c2o ef (cmap_start_cluster ef);
       let (res, buf, d) = os_pread os len off (dev ef);
       Some (if res < 0 then EIO else EOK, ef\<lparr>dev := d, cmap_chunk := Some (bmap_of_bytes buf)\<rparr>)})"

text \<open>\<open>label\<close> is the C string in the 46 bytes of \<open>ef->label\<close>; after an error, which ends the
  mount, what is left in them is not modelled.\<close>

definition readdir_label :: "bytes \<Rightarrow> 'd exfat \<Rightarrow> errno \<times> 'd exfat" where
  "readdir_label entry ef =
    (if unat (entry ! 1) > EXFAT_ENAME_MAX then (EIO, ef)
     else case exfat_utf16_to_utf8 (u16s (seg 2 30 entry)) 46 of
            Inl e \<Rightarrow> (EIO, ef)
          | Inr name \<Rightarrow> (EOK, ef\<lparr>label := name\<rparr>))"

definition readdir_other ::
  "'d exfat_os \<Rightarrow> nat \<Rightarrow> bytes \<Rightarrow> int \<Rightarrow> 'd exfat \<Rightarrow> (errno \<times> 'd exfat) option" where
  "readdir_other os par entry offset ef =
    (if entry ! 0 AND EXFAT_ENTRY_VALID = 0 then Some (EOK, ef)
     else do {
       (fix_it, ef) \<leftarrow> exfat_ask_to_fix os ef;
       (fixed, ef) \<leftarrow> (if fix_it then exfat_fix_unknown_entry os par entry offset ef
                      else Some (False, ef));
       Some (if fixed then EOK else EIO, ef)})"

partial_function (option) readdir ::
  "'d exfat_os \<Rightarrow> nat \<Rightarrow> int \<Rightarrow> 'd exfat \<Rightarrow> ((errno + nat \<times> int) \<times> 'd exfat) option" where
  "readdir os par offset ef = do {
     (r, ef) \<leftarrow> read_entries os par 1 offset ef;
     case r of Inl e \<Rightarrow> Some (Inl e, ef)
     | Inr entries \<Rightarrow>
         let entry = entries ! 0
         in if entry ! 0 = EXFAT_ENTRY_FILE
            then parse_file_entry os par offset (1 + unat (entry ! 1)) ef
            else do {
              (rc, ef) \<leftarrow> (if entry ! 0 = EXFAT_ENTRY_UPCASE then readdir_upcase os entry ef
                          else if entry ! 0 = EXFAT_ENTRY_BITMAP then readdir_bitmap os entry ef
                          else if entry ! 0 = EXFAT_ENTRY_LABEL then Some (readdir_label entry ef)
                          else readdir_other os par entry offset ef);
              if rc \<noteq> EOK then Some (Inl rc, ef) else readdir os par (offset + 32) ef}}"

section \<open>The tree of nodes\<close>

text \<open>The loop of \<open>exfat_cache_directory\<close>: it links each node behind \<open>current\<close>.\<close>

partial_function (option) cache_loop ::
  "'d exfat_os \<Rightarrow> nat \<Rightarrow> nat option \<Rightarrow> int \<Rightarrow> 'd exfat \<Rightarrow> (errno \<times> 'd exfat) option" where
  "cache_loop os dir current offset ef = do {
     (r, ef) \<leftarrow> readdir os dir offset ef;
     case r of Inl e \<Rightarrow> Some (e, ef)
     | Inr p \<Rightarrow> do {
         let (node, offset) = p;
         nd \<leftarrow> nodes ef node;
         let ef = set_node node (nd\<lparr>node_parent := Some dir\<rparr>) ef;
         ef \<leftarrow> (case current of
            Some c \<Rightarrow> do {
              cd \<leftarrow> nodes ef c;
              let ef = set_node c (cd\<lparr>node_next := Some node\<rparr>) ef;
              nd \<leftarrow> nodes ef node;
              Some (set_node node (nd\<lparr>node_prev := Some c\<rparr>) ef)}
          | None \<Rightarrow> do {
              dd \<leftarrow> nodes ef dir;
              Some (set_node dir (dd\<lparr>node_child := Some node\<rparr>) ef)});
         cache_loop os dir (Some node) offset ef}}"

partial_function (option) free_list :: "nat option \<Rightarrow> 'd exfat \<Rightarrow> 'd exfat option" where
  "free_list current ef =
    (case current of None \<Rightarrow> Some ef
     | Some c \<Rightarrow> do { nd \<leftarrow> nodes ef c; free_list (node_next nd) (free_node c ef) })"

definition exfat_cache_directory ::
  "'d exfat_os \<Rightarrow> nat \<Rightarrow> 'd exfat \<Rightarrow> (errno \<times> 'd exfat) option" where
  "exfat_cache_directory os dir ef = do {
     dd \<leftarrow> nodes ef dir;
     if is_cached dd then Some (EOK, ef)
     else do {
       (rc, ef) \<leftarrow> cache_loop os dir None 0 ef;
       dd \<leftarrow> nodes ef dir;
       if rc \<noteq> ENOENT then do {
         ef \<leftarrow> free_list (node_child dd) ef;
         dd \<leftarrow> nodes ef dir;
         Some (rc, set_node dir (dd\<lparr>node_child := None\<rparr>) ef)}
       else Some (EOK, set_node dir (dd\<lparr>is_cached := True\<rparr>) ef)}}"

definition tree_attach :: "nat \<Rightarrow> nat \<Rightarrow> 'd exfat \<Rightarrow> 'd exfat option" where
  "tree_attach dir node ef = do {
     nd \<leftarrow> nodes ef node;
     let ef = set_node node (nd\<lparr>node_parent := Some dir\<rparr>) ef;
     dd \<leftarrow> nodes ef dir;
     ef \<leftarrow> (case node_child dd of
              None \<Rightarrow> Some ef
            | Some c \<Rightarrow> do {
                cd \<leftarrow> nodes ef c;
                let ef = set_node c (cd\<lparr>node_prev := Some node\<rparr>) ef;
                nd \<leftarrow> nodes ef node;
                Some (set_node node (nd\<lparr>node_next := Some c\<rparr>) ef)});
     dd \<leftarrow> nodes ef dir;
     Some (set_node dir (dd\<lparr>node_child := Some node\<rparr>) ef)}"

definition tree_detach :: "nat \<Rightarrow> 'd exfat \<Rightarrow> 'd exfat option" where
  "tree_detach node ef = do {
     nd \<leftarrow> nodes ef node;
     ef \<leftarrow> (case node_prev nd of
              Some p \<Rightarrow> do {
                pd \<leftarrow> nodes ef p;
                Some (set_node p (pd\<lparr>node_next := node_next nd\<rparr>) ef)}
            | None \<Rightarrow> do {
                q \<leftarrow> node_parent nd;
                qd \<leftarrow> nodes ef q;
                Some (set_node q (qd\<lparr>node_child := node_next nd\<rparr>) ef)});
     ef \<leftarrow> (case node_next nd of
              Some x \<Rightarrow> do {
                xd \<leftarrow> nodes ef x;
                Some (set_node x (xd\<lparr>node_prev := node_prev nd\<rparr>) ef)}
            | None \<Rightarrow> Some ef);
     nd \<leftarrow> nodes ef node;
     Some (set_node node (nd\<lparr>node_parent := None, node_prev := None, node_next := None\<rparr>) ef)}"

partial_function (option) put_all :: "nat \<Rightarrow> 'd exfat \<Rightarrow> 'd exfat option" where
  "put_all n ef = do {
     nd \<leftarrow> nodes ef n;
     if references nd \<noteq> 0 then do { (_, ef) \<leftarrow> exfat_put_node n ef; put_all n ef }
     else Some ef}"

partial_function (option) reset_cache :: "nat \<Rightarrow> 'd exfat \<Rightarrow> 'd exfat option" where
  "reset_cache n ef = do {
     nd \<leftarrow> nodes ef n;
     case node_child nd of
       Some p \<Rightarrow> do {
         ef \<leftarrow> reset_cache p ef;
         ef \<leftarrow> tree_detach p ef;
         reset_cache n (free_node p ef)}
     | None \<Rightarrow> do {
         let nd = nd\<lparr>is_cached := False\<rparr>;
         _ \<leftarrow> (if references nd \<noteq> 0 then exfat_get_name nd else Some []);
         if n \<noteq> root ef \<and> is_dirty nd then None
         else put_all n (set_node n nd ef)}}"

definition exfat_reset_cache :: "'d exfat \<Rightarrow> 'd exfat option" where
  "exfat_reset_cache ef = reset_cache (root ef) ef"

section \<open>Writing a node back\<close>

text \<open>The two metadata entries with the fields of the node; the checksum is set afterwards.\<close>

definition flush_meta1 :: "int \<Rightarrow> exfat_node \<Rightarrow> bytes \<Rightarrow> bytes" where
  "flush_meta1 tz nd meta1 =
    (let (mdate, mtim, mcs, mtzo) = exfat_unix2exfat tz (mtime nd);
         (adate, atim, _, atzo) = exfat_unix2exfat tz (atime nd);
         b = patch 4 (le16 (attrib nd)) meta1;
         b = patch 21 [mcs] (patch 23 [mtzo] b);
         b = patch 14 (le16 mdate) (patch 12 (le16 mtim) b);
         b = patch 24 [atzo] b
     in patch 18 (le16 adate) (patch 16 (le16 atim) b))"

definition flush_meta2 :: "exfat_node \<Rightarrow> bytes \<Rightarrow> bytes" where
  "flush_meta2 nd meta2 =
    (let b = patch 8 (le64 (valid_size nd)) meta2;
         b = patch 24 (le64 (node_size nd)) b;
         b = patch 20 (le32 (start_cluster nd)) b
     in patch 1 [if node_size nd \<noteq> 0 \<and> is_contiguous nd
                 then EXFAT_FLAG_ALWAYS1 OR EXFAT_FLAG_CONTIGUOUS else EXFAT_FLAG_ALWAYS1] b)"

definition exfat_flush_node :: "'d exfat_os \<Rightarrow> nat \<Rightarrow> 'd exfat \<Rightarrow> (errno \<times> 'd exfat) option" where
  "exfat_flush_node os n ef = do {
     nd \<leftarrow> nodes ef n;
     if \<not> is_dirty nd then Some (EOK, ef)
     else if ro ef \<noteq> 0 then None
     else case node_parent nd of
       None \<Rightarrow> Some (EOK, ef)
     | Some par \<Rightarrow> do {
         (r, ef) \<leftarrow> read_entries os par (1 + unat (continuations nd)) (entry_offset nd) ef;
         case r of Inl e \<Rightarrow> Some (e, ef)
         | Inr entries \<Rightarrow>
             if \<not> check_entries entries then Some (EIO, ef)
             else do {
               nd \<leftarrow> nodes ef n;
               let entries = entries[0 := flush_meta1 (exfat_timezone ef) nd (entries ! 0),
                                     1 := flush_meta2 nd (entries ! 1)];
               let checksum = exfat_calc_checksum entries (1 + unat (continuations nd));
               let entries = entries[0 := patch 2 (le16 checksum) (entries ! 0)];
               (rc, ef) \<leftarrow> write_entries os par entries (entry_offset nd) ef;
               if rc \<noteq> EOK then Some (rc, ef)
               else do {
                 nd \<leftarrow> nodes ef n;
                 exfat_flush os (set_node n (nd\<lparr>is_dirty := False\<rparr>) ef)}}}}"

text \<open>\<open>flush_nodes\<close> of cluster.c: the children first, in list order, stopping at an error.\<close>

partial_function (option) flush_nodes_from ::
  "'d exfat_os \<Rightarrow> nat \<Rightarrow> nat option \<Rightarrow> 'd exfat \<Rightarrow> (errno \<times> 'd exfat) option" where
  "flush_nodes_from os n p ef =
    (case p of
       None \<Rightarrow> exfat_flush_node os n ef
     | Some c \<Rightarrow> do {
         cd \<leftarrow> nodes ef c;
         (rc, ef) \<leftarrow> flush_nodes_from os c (node_child cd) ef;
         if rc \<noteq> EOK then Some (rc, ef)
         else do { cd \<leftarrow> nodes ef c; flush_nodes_from os n (node_next cd) ef }})"

definition flush_nodes :: "'d exfat_os \<Rightarrow> nat \<Rightarrow> 'd exfat \<Rightarrow> (errno \<times> 'd exfat) option" where
  "flush_nodes os n ef = do { nd \<leftarrow> nodes ef n; flush_nodes_from os n (node_child nd) ef }"

definition exfat_flush_nodes :: "'d exfat_os \<Rightarrow> 'd exfat \<Rightarrow> (errno \<times> 'd exfat) option" where
  "exfat_flush_nodes os ef = flush_nodes os (root ef) ef"

end
