(* ===== verification/ExfatLookup.thy ===== *)
theory ExfatLookup
  imports ExfatNode
begin

text \<open>
  lookup.c: iterating over a directory, comparing names through the up-case table, and resolving
  paths. Strings are lists of bytes without their final NUL; arrays of units keep theirs, and a
  comparison that runs past the end of a list has no result.
\<close>

section \<open>Directory iterators\<close>

record exfat_iterator =
  it_parent :: nat
  it_current :: "nat option"

definition exfat_opendir ::
  "'d exfat_os \<Rightarrow> nat \<Rightarrow> 'd exfat \<Rightarrow> ((errno \<times> exfat_iterator) \<times> 'd exfat) option" where
  "exfat_opendir os dir ef = do {
     (_, ef) \<leftarrow> exfat_get_node dir ef;
     (rc, ef) \<leftarrow> exfat_cache_directory os dir ef;
     (_, ef) \<leftarrow> (if rc \<noteq> EOK then exfat_put_node dir ef else Some ((), ef));
     Some ((rc, \<lparr>it_parent = dir, it_current = None\<rparr>), ef)}"

definition exfat_closedir :: "exfat_iterator \<Rightarrow> 'd exfat \<Rightarrow> (unit \<times> 'd exfat) option" where
  "exfat_closedir it ef = exfat_put_node (it_parent it) ef"

definition exfat_readdir ::
  "exfat_iterator \<Rightarrow> 'd exfat \<Rightarrow> ((nat option \<times> exfat_iterator) \<times> 'd exfat) option" where
  "exfat_readdir it ef = do {
     current \<leftarrow> (case it_current it of
         None \<Rightarrow> do { nd \<leftarrow> nodes ef (it_parent it); Some (node_child nd) }
       | Some c \<Rightarrow> do { nd \<leftarrow> nodes ef c; Some (node_next nd) });
     let it = it\<lparr>it_current := current\<rparr>;
     case current of
       None \<Rightarrow> Some ((None, it), ef)
     | Some c \<Rightarrow> do { (_, ef) \<leftarrow> exfat_get_node c ef; Some ((Some c, it), ef) }}"

section \<open>Comparing names\<close>

definition compare_char :: "u16 list \<Rightarrow> u16 \<Rightarrow> u16 \<Rightarrow> int" where
  "compare_char up a b = uint (up ! unat a) - uint (up ! unat b)"

fun compare_name :: "u16 list \<Rightarrow> u16 list \<Rightarrow> u16 list \<Rightarrow> int option" where
  "compare_name up (a # as) (b # bs) =
    (if a \<noteq> 0 \<and> b \<noteq> 0 then
       let rc = compare_char up a b in if rc \<noteq> 0 then Some rc else compare_name up as bs
     else Some (compare_char up a b))"
| "compare_name up _ _ = None"

partial_function (option) lookup_loop ::
  "u16 list \<Rightarrow> exfat_iterator \<Rightarrow> 'd exfat \<Rightarrow> ((errno + nat) \<times> 'd exfat) option" where
  "lookup_loop buffer it ef = do {
     (r, ef) \<leftarrow> exfat_readdir it ef;
     let (node, it) = r;
     case node of
       None \<Rightarrow> do { (_, ef) \<leftarrow> exfat_closedir it ef; Some (Inl ENOENT, ef) }
     | Some n \<Rightarrow> do {
         nd \<leftarrow> nodes ef n;
         up \<leftarrow> upcase ef;
         rc \<leftarrow> compare_name up buffer (node_name nd);
         if rc = 0 then do { (_, ef) \<leftarrow> exfat_closedir it ef; Some (Inr n, ef) }
         else do { (_, ef) \<leftarrow> exfat_put_node n ef; lookup_loop buffer it ef }}}"

definition lookup_name ::
  "'d exfat_os \<Rightarrow> nat \<Rightarrow> bytes \<Rightarrow> 'd exfat \<Rightarrow> ((errno + nat) \<times> 'd exfat) option" where
  "lookup_name os par name ef =
    (case exfat_utf8_to_utf16 name (EXFAT_NAME_MAX + 1) of
       Inl e \<Rightarrow> Some (Inl e, ef)
     | Inr buffer \<Rightarrow> do {
         (r, ef) \<leftarrow> exfat_opendir os par ef;
         if fst r \<noteq> EOK then Some (Inl (fst r), ef) else lookup_loop buffer (snd r) ef})"

section \<open>Paths\<close>

text \<open>The rest of the path from the component on, and the length of the component.\<close>

definition get_comp :: "bytes \<Rightarrow> bytes \<times> nat" where
  "get_comp path = (let p = dropWhile (\<lambda>c. c = 0x2f) path
                    in (p, length (takeWhile (\<lambda>c. c \<noteq> 0x2f) p)))"

lemma get_comp_shorter:
  "get_comp path = (p, n) \<Longrightarrow> n \<noteq> 0 \<Longrightarrow> length (drop n p) < length path"
  using length_dropWhile_le [of "\<lambda>c. c = 0x2f" path] by (cases p) (auto simp: get_comp_def Let_def)

function lookup_from ::
  "'d exfat_os \<Rightarrow> bytes \<Rightarrow> nat \<Rightarrow> 'd exfat \<Rightarrow> ((errno + nat) \<times> 'd exfat) option" where
  "lookup_from os path par ef =
    (case get_comp path of (p, n) \<Rightarrow>
       if n = 0 then Some (Inr par, ef)
       else if n = 1 \<and> p ! 0 = 0x2e then lookup_from os (drop n p) par ef
       else (case lookup_name os par (take n p) ef of
               None \<Rightarrow> None
             | Some (r, ef') \<Rightarrow>
                 (case exfat_put_node par ef' of
                    None \<Rightarrow> None
                  | Some (_, ef'') \<Rightarrow>
                      (case r of Inl e \<Rightarrow> Some (Inl e, ef'')
                       | Inr node \<Rightarrow> lookup_from os (drop n p) node ef''))))"
  by pat_completeness auto
termination
  by (relation "measure (\<lambda>(os, path, par, ef). length path)") (use get_comp_shorter in force)+

declare lookup_from.simps [simp del]

definition exfat_lookup ::
  "'d exfat_os \<Rightarrow> bytes \<Rightarrow> 'd exfat \<Rightarrow> ((errno + nat) \<times> 'd exfat) option" where
  "exfat_lookup os path ef = do {
     (r, ef) \<leftarrow> exfat_get_node (root ef) ef;
     lookup_from os path r ef}"

definition is_last_comp :: "bytes \<Rightarrow> nat \<Rightarrow> bool" where
  "is_last_comp p n \<longleftrightarrow> snd (get_comp (drop n p)) = 0"

definition is_allowed :: "bytes \<Rightarrow> nat \<Rightarrow> bool" where
  "is_allowed p n \<longleftrightarrow>
     list_all (\<lambda>c. \<not> (0x01 \<le> c \<and> c \<le> 0x1f)
       \<and> c \<notin> {0x2f, 0x5c, 0x3a, 0x2a, 0x3f, 0x22, 0x3c, 0x3e, 0x7c}) (take n p)"

text \<open>The result is the parent, the node if there is one, and the name, an array of 256 units.
  Past the last component the code stops in \<open>exfat_bug\<close>.\<close>

function split_from ::
  "'d exfat_os \<Rightarrow> bytes \<Rightarrow> nat \<Rightarrow> 'd exfat
     \<Rightarrow> ((errno + nat \<times> nat option \<times> u16 list) \<times> 'd exfat) option" where
  "split_from os path par ef =
    (case get_comp path of (p, n) \<Rightarrow>
       if n = 0 then None
       else if n = 1 \<and> p ! 0 = 0x2e then split_from os (drop n p) par ef
       else if is_last_comp p n then
         (if \<not> is_allowed p n then do {
            (_, ef) \<leftarrow> exfat_put_node par ef; Some (Inl ENOENT, ef)}
          else case exfat_utf8_to_utf16 (take n p) (EXFAT_NAME_MAX + 1) of
            Inl e \<Rightarrow> do { (_, ef) \<leftarrow> exfat_put_node par ef; Some (Inl e, ef) }
          | Inr us \<Rightarrow> do {
              (r, ef) \<leftarrow> lookup_name os par (take n p) ef;
              let name = patch 0 us (replicate 256 0);
              case r of
                Inr node \<Rightarrow> Some (Inr (par, Some node, name), ef)
              | Inl e \<Rightarrow>
                  if e = ENOENT then Some (Inr (par, None, name), ef)
                  else do { (_, ef) \<leftarrow> exfat_put_node par ef; Some (Inl e, ef) }})
       else (case lookup_name os par (take n p) ef of
               None \<Rightarrow> None
             | Some (r, ef') \<Rightarrow>
                 (case exfat_put_node par ef' of
                    None \<Rightarrow> None
                  | Some (_, ef'') \<Rightarrow>
                      (case r of Inl e \<Rightarrow> Some (Inl e, ef'')
                       | Inr node \<Rightarrow> split_from os (drop n p) node ef''))))"
  by pat_completeness auto
termination
  by (relation "measure (\<lambda>(os, path, par, ef). length path)") (use get_comp_shorter in force)+

declare split_from.simps [simp del]

definition exfat_split ::
  "'d exfat_os \<Rightarrow> bytes \<Rightarrow> 'd exfat
     \<Rightarrow> ((errno + nat \<times> nat option \<times> u16 list) \<times> 'd exfat) option" where
  "exfat_split os path ef = do {
     (r, ef) \<leftarrow> exfat_get_node (root ef) ef;
     split_from os path r ef}"

end
