(* ===== verification/ExfatDir.thy ===== *)
theory ExfatDir
  imports ExfatLookup
begin

text \<open>
  node.c, second half: creating, deleting and renaming files and directories, and the volume
  label. An array of units handed over as a name has 256 units and ends in NULs.
\<close>

section \<open>Deleting\<close>

definition erase_entries ::
  "'d exfat_os \<Rightarrow> nat \<Rightarrow> nat \<Rightarrow> int \<Rightarrow> 'd exfat \<Rightarrow> (errno \<times> 'd exfat) option" where
  "erase_entries os dir n offset ef = do {
     (r, ef) \<leftarrow> read_entries os dir n offset ef;
     case r of Inl e \<Rightarrow> Some (e, ef)
     | Inr entries \<Rightarrow>
         write_entries os dir (map (\<lambda>e. e[0 := e ! 0 AND NOT EXFAT_ENTRY_VALID]) entries) offset ef}"

definition erase_node :: "'d exfat_os \<Rightarrow> nat \<Rightarrow> 'd exfat \<Rightarrow> (errno \<times> 'd exfat) option" where
  "erase_node os node ef = do {
     nd \<leftarrow> nodes ef node;
     par \<leftarrow> node_parent nd;
     (_, ef) \<leftarrow> exfat_get_node par ef;
     (rc, ef) \<leftarrow> erase_entries os par (1 + unat (continuations nd)) (entry_offset nd) ef;
     (rc, ef) \<leftarrow> (if rc \<noteq> EOK then Some (rc, ef) else exfat_flush_node os par ef);
     (_, ef) \<leftarrow> exfat_put_node par ef;
     Some (rc, ef)}"

text \<open>The scan of the children: \<open>Inl ()\<close> when one lies behind the deleted entry, otherwise the
  node with the highest offset.\<close>

partial_function (option) last_entry ::
  "int \<Rightarrow> nat option \<Rightarrow> nat option \<Rightarrow> 'd exfat \<Rightarrow> (unit + nat option) option" where
  "last_entry deleted_offset final node ef =
    (case node of
       None \<Rightarrow> Some (Inr final)
     | Some n \<Rightarrow> do {
         nd \<leftarrow> nodes ef n;
         f \<leftarrow> final;
         fd \<leftarrow> nodes ef f;
         if deleted_offset < entry_offset nd then Some (Inl ())
         else last_entry deleted_offset
                (if entry_offset fd < entry_offset nd then Some n else final) (node_next nd) ef})"

definition shrink_directory ::
  "'d exfat_os \<Rightarrow> nat \<Rightarrow> int \<Rightarrow> 'd exfat \<Rightarrow> (errno \<times> 'd exfat) option" where
  "shrink_directory os dir deleted_offset ef = do {
     dd \<leftarrow> nodes ef dir;
     if attrib dd AND EXFAT_ATTRIB_DIR = 0 \<or> \<not> is_cached dd then None
     else do {
       r \<leftarrow> last_entry deleted_offset (node_child dd) (node_child dd) ef;
       case r of Inl _ \<Rightarrow> Some (EOK, ef)
       | Inr final \<Rightarrow> do {
           entries \<leftarrow> (case final of None \<Rightarrow> Some 0
             | Some f \<Rightarrow> do {
                 fd \<leftarrow> nodes ef f;
                 Some (word_of_int (entry_offset fd) div 32 + 2
                   + of_nat ((exfat_utf16_length (node_name fd) + 15 - 1) div 15))});
           let cs = cluster_size64 (sb ef);
           let new_size = (entries * 32 + cs - 1) div cs * cs;
           let new_size = (if new_size = 0 then cs else new_size);
           if new_size = node_size dd then Some (EOK, ef)
           else exfat_truncate os dir new_size True ef}}}"

definition delete_node :: "'d exfat_os \<Rightarrow> nat \<Rightarrow> 'd exfat \<Rightarrow> (errno \<times> 'd exfat) option" where
  "delete_node os node ef = do {
     nd \<leftarrow> nodes ef node;
     par \<leftarrow> node_parent nd;
     let deleted_offset = entry_offset nd;
     (_, ef) \<leftarrow> exfat_get_node par ef;
     (rc, ef) \<leftarrow> erase_node os node ef;
     if rc \<noteq> EOK then do { (_, ef) \<leftarrow> exfat_put_node par ef; Some (rc, ef) }
     else do {
       ef \<leftarrow> tree_detach node ef;
       (rc, ef) \<leftarrow> shrink_directory os par deleted_offset ef;
       nd \<leftarrow> nodes ef node;
       let ef = set_node node (nd\<lparr>is_unlinked := True\<rparr>) ef;
       if rc \<noteq> EOK then do {
         (_, ef) \<leftarrow> exfat_flush_node os par ef;
         (_, ef) \<leftarrow> exfat_put_node par ef;
         Some (rc, ef)}
       else do {
         (_, ef) \<leftarrow> exfat_update_mtime os par ef;
         (rc, ef) \<leftarrow> exfat_flush_node os par ef;
         (_, ef) \<leftarrow> exfat_put_node par ef;
         Some (rc, ef)}}}"

definition exfat_unlink :: "'d exfat_os \<Rightarrow> nat \<Rightarrow> 'd exfat \<Rightarrow> (errno \<times> 'd exfat) option" where
  "exfat_unlink os node ef = do {
     nd \<leftarrow> nodes ef node;
     if attrib nd AND EXFAT_ATTRIB_DIR \<noteq> 0 then Some (EISDIR, ef) else delete_node os node ef}"

definition exfat_rmdir :: "'d exfat_os \<Rightarrow> nat \<Rightarrow> 'd exfat \<Rightarrow> (errno \<times> 'd exfat) option" where
  "exfat_rmdir os node ef = do {
     nd \<leftarrow> nodes ef node;
     if attrib nd AND EXFAT_ATTRIB_DIR = 0 then Some (ENOTDIR, ef)
     else do {
       (rc, ef) \<leftarrow> exfat_cache_directory os node ef;
       if rc \<noteq> EOK then Some (rc, ef)
       else do {
         nd \<leftarrow> nodes ef node;
         if node_child nd \<noteq> None then Some (ENOTEMPTY, ef) else delete_node os node ef}}}"

section \<open>Finding room for entries\<close>

definition check_slot ::
  "'d exfat_os \<Rightarrow> nat \<Rightarrow> int \<Rightarrow> nat \<Rightarrow> 'd exfat \<Rightarrow> (errno \<times> 'd exfat) option" where
  "check_slot os dir offset n ef =
    (if dir \<noteq> root ef then Some (EOK, ef)
     else do {
       (r, ef) \<leftarrow> read_entries os dir n offset ef;
       case r of Inl e \<Rightarrow> Some (e, ef)
       | Inr entries \<Rightarrow>
           Some (if list_ex (\<lambda>e. e ! 0 AND EXFAT_ENTRY_VALID \<noteq> 0) entries then EINVAL else EOK, ef)})"

text \<open>The bitmap of the entries that the cached nodes occupy.\<close>

partial_function (option) mark_entries :: "nat option \<Rightarrow> u64 list \<Rightarrow> 'd exfat \<Rightarrow> u64 list option" where
  "mark_entries p dmap ef =
    (case p of None \<Rightarrow> Some dmap
     | Some n \<Rightarrow> do {
         nd \<leftarrow> nodes ef n;
         mark_entries (node_next nd)
           (foldl (\<lambda>m i. BMAP_SET m (nat (entry_offset nd sdiv 32) + i)) dmap
              [0..<1 + unat (continuations nd)]) ef})"

text \<open>The search: \<open>Inl\<close> is a return from inside the loop, \<open>Inr\<close> the number of free entries at the
  end of the directory; both with \<open>*offset\<close>.\<close>

partial_function (option) find_slot_loop ::
  "'d exfat_os \<Rightarrow> nat \<Rightarrow> u64 list \<Rightarrow> nat \<Rightarrow> nat \<Rightarrow> nat \<Rightarrow> nat \<Rightarrow> int \<Rightarrow> 'd exfat
     \<Rightarrow> (((errno + nat) \<times> int) \<times> 'd exfat) option" where
  "find_slot_loop os dir dmap n bound i contiguous offset ef =
    (if i < bound then
       if \<not> BMAP_GET dmap i then do {
         let offset = (if contiguous = 0 then int i * 32 else offset);
         let contiguous = contiguous + 1;
         if contiguous = n then do {
           (rc, ef) \<leftarrow> check_slot os dir offset n ef;
           if rc = EINVAL
           then find_slot_loop os dir dmap n bound (i - (contiguous - 1) + 1) 0 offset ef
           else Some ((Inl rc, offset), ef)}
         else find_slot_loop os dir dmap n bound (i + 1) contiguous offset ef}
       else find_slot_loop os dir dmap n bound (i + 1) 0 offset ef
     else Some ((Inr contiguous, offset), ef))"

definition find_slot ::
  "'d exfat_os \<Rightarrow> nat \<Rightarrow> nat \<Rightarrow> int \<Rightarrow> 'd exfat \<Rightarrow> ((errno \<times> int) \<times> 'd exfat) option" where
  "find_slot os dir n offset ef = do {
     dd \<leftarrow> nodes ef dir;
     if \<not> is_cached dd then None
     else do {
       let bound = unat (node_size dd div 32);
       if \<not> os_malloc os (BMAP_SIZE bound * 8) (dev ef) then Some ((ENOMEM, offset), ef)
       else do {
         dmap \<leftarrow> mark_entries (node_child dd) (replicate (BMAP_SIZE bound) 0) ef;
         (r, ef) \<leftarrow> find_slot_loop os dir dmap n bound 0 0 offset ef;
         case fst r of Inl rc \<Rightarrow> Some ((rc, snd r), ef)
         | Inr contiguous \<Rightarrow> do {
             dd \<leftarrow> nodes ef dir;
             let cs = cluster_size64 (sb ef);
             let offset = (if contiguous = 0 then sint (node_size dd) else snd r);
             (rc, ef) \<leftarrow> exfat_truncate os dir
               ((node_size dd + of_nat (32 * (n - contiguous)) + cs - 1) div cs * cs) True ef;
             Some ((rc, offset), ef)}}}}"

section \<open>Creating\<close>

definition name_entry_count :: "u16 list \<Rightarrow> nat" where
  "name_entry_count name = (exfat_utf16_length name + 15 - 1) div 15"

text \<open>The entries that hold the name, 15 units each.\<close>

definition name_entries :: "u16 list \<Rightarrow> bytes list" where
  "name_entries name =
    map (\<lambda>i. [EXFAT_ENTRY_FILE_NAME, 0] @ concat (map le16 (seg (i * 15) 15 name)))
      [0..<name_entry_count name]"

definition new_meta1 :: "int \<Rightarrow> int \<Rightarrow> u16 list \<Rightarrow> u16 \<Rightarrow> bytes" where
  "new_meta1 tz now name attribs =
    (let (edate, etime, cs, tzo) = exfat_unix2exfat tz now
     in [EXFAT_ENTRY_FILE, 1 + of_nat (name_entry_count name)] @ le16 0 @ le16 attribs @ le16 0
        @ le16 etime @ le16 edate @ le16 etime @ le16 edate @ le16 etime @ le16 edate
        @ [cs, cs, tzo, tzo, tzo] @ replicate 7 0)"

definition new_meta2 :: "u16 list \<Rightarrow> u16 list \<Rightarrow> bytes" where
  "new_meta2 up name =
    (let name_length = exfat_utf16_length name
     in [EXFAT_ENTRY_FILE_INFO, EXFAT_FLAG_ALWAYS1, 0, of_nat name_length]
        @ le16 (exfat_calc_name_hash up name name_length) @ le16 0 @ le64 0 @ replicate 4 0
        @ le32 EXFAT_CLUSTER_FREE @ le64 0)"

text \<open>Entries with the checksum over all of them stored in the first.\<close>

definition with_checksum :: "bytes list \<Rightarrow> bytes list" where
  "with_checksum entries =
    entries[0 := patch 2 (le16 (exfat_calc_checksum entries (length entries))) (entries ! 0)]"

definition new_entries :: "int \<Rightarrow> int \<Rightarrow> u16 list \<Rightarrow> u16 list \<Rightarrow> u16 \<Rightarrow> bytes list" where
  "new_entries tz now up name attribs =
    with_checksum ([new_meta1 tz now name attribs, new_meta2 up name] @ name_entries name)"

text \<open>The node of a file that was just created, from the zeroed memory \<open>nd\<close>.\<close>

definition new_node :: "int \<Rightarrow> bytes list \<Rightarrow> u16 list \<Rightarrow> int \<Rightarrow> exfat_node \<Rightarrow> exfat_node" where
  "new_node tz entries name offset nd =
    init_node_meta2 (entries ! 1) (init_node_meta1 tz (entries ! 0)
      (nd\<lparr>entry_offset := offset,
         node_name := patch 0 (take (exfat_utf16_length name) name) (node_name nd)\<rparr>))"

definition commit_entry ::
  "'d exfat_os \<Rightarrow> nat \<Rightarrow> u16 list \<Rightarrow> int \<Rightarrow> u16 \<Rightarrow> 'd exfat \<Rightarrow> (errno \<times> 'd exfat) option" where
  "commit_entry os dir name offset attribs ef = do {
     up \<leftarrow> upcase ef;
     let entries = new_entries (exfat_timezone ef) (os_time os (dev ef)) up name attribs;
     (rc, ef) \<leftarrow> write_entries os dir entries offset ef;
     if rc \<noteq> EOK then Some (rc, ef)
     else case allocate_node os ef of
       (None, ef) \<Rightarrow> Some (ENOMEM, ef)
     | (Some node, ef) \<Rightarrow> do {
         nd \<leftarrow> nodes ef node;
         ef \<leftarrow> tree_attach dir node
           (set_node node (new_node (exfat_timezone ef) entries name offset nd) ef);
         Some (EOK, ef)}}"

definition create_node :: "'d exfat_os \<Rightarrow> bytes \<Rightarrow> u16 \<Rightarrow> 'd exfat \<Rightarrow> (errno \<times> 'd exfat) option" where
  "create_node os path attribs ef = do {
     (r, ef) \<leftarrow> exfat_split os path ef;
     case r of
       Inl e \<Rightarrow> Some (e, ef)
     | Inr (dir, Some existing, name) \<Rightarrow> do {
         (_, ef) \<leftarrow> exfat_put_node existing ef;
         (_, ef) \<leftarrow> exfat_put_node dir ef;
         Some (EEXIST, ef)}
     | Inr (dir, None, name) \<Rightarrow> do {
         (r, ef) \<leftarrow> find_slot os dir (2 + name_entry_count name) (-1) ef;
         (rc, ef) \<leftarrow> (if fst r \<noteq> EOK then Some (fst r, ef)
                     else commit_entry os dir name (snd r) attribs ef);
         if rc \<noteq> EOK then do { (_, ef) \<leftarrow> exfat_put_node dir ef; Some (rc, ef) }
         else do {
           (_, ef) \<leftarrow> exfat_update_mtime os dir ef;
           (rc, ef) \<leftarrow> exfat_flush_node os dir ef;
           (_, ef) \<leftarrow> exfat_put_node dir ef;
           Some (rc, ef)}}}"

definition exfat_mknod :: "'d exfat_os \<Rightarrow> bytes \<Rightarrow> 'd exfat \<Rightarrow> (errno \<times> 'd exfat) option" where
  "exfat_mknod os path ef = create_node os path EXFAT_ATTRIB_ARCH ef"

definition exfat_mkdir :: "'d exfat_os \<Rightarrow> bytes \<Rightarrow> 'd exfat \<Rightarrow> (errno \<times> 'd exfat) option" where
  "exfat_mkdir os path ef = do {
     (rc, ef) \<leftarrow> create_node os path EXFAT_ATTRIB_DIR ef;
     if rc \<noteq> EOK then Some (rc, ef)
     else do {
       (r, ef) \<leftarrow> exfat_lookup os path ef;
       case r of Inl e \<Rightarrow> Some (EOK, ef)
       | Inr node \<Rightarrow> do {
           (rc, ef) \<leftarrow> exfat_truncate os node (cluster_size64 (sb ef)) True ef;
           (rc, ef) \<leftarrow> (if rc \<noteq> EOK then Some (rc, ef) else exfat_flush_node os node ef);
           (_, ef) \<leftarrow> (if rc \<noteq> EOK then delete_node os node ef else Some (EOK, ef));
           (_, ef) \<leftarrow> exfat_put_node node ef;
           Some (rc, ef)}}}"

section \<open>Renaming\<close>

definition rename_entry ::
  "'d exfat_os \<Rightarrow> nat \<Rightarrow> nat \<Rightarrow> u16 list \<Rightarrow> int \<Rightarrow> 'd exfat \<Rightarrow> (errno \<times> 'd exfat) option" where
  "rename_entry os dir node name new_offset ef = do {
     nd \<leftarrow> nodes ef node;
     par \<leftarrow> node_parent nd;
     (r, ef) \<leftarrow> read_entries os par 2 (entry_offset nd) ef;
     case r of Inl e \<Rightarrow> Some (e, ef)
     | Inr entries \<Rightarrow> do {
         up \<leftarrow> upcase ef;
         let name_length = exfat_utf16_length name;
         let meta1 = (entries ! 0)[1 := 1 + of_nat (name_entry_count name)];
         let meta2 = patch 4 (le16 (exfat_calc_name_hash up name name_length))
           ((entries ! 1)[3 := of_nat name_length]);
         (rc, ef) \<leftarrow> erase_node os node ef;
         if rc \<noteq> EOK then Some (rc, ef)
         else do {
           nd \<leftarrow> nodes ef node;
           let ef = set_node node (nd\<lparr>entry_offset := new_offset,
             continuations := 1 + of_nat (name_entry_count name)\<rparr>) ef;
           (rc, ef) \<leftarrow> write_entries os dir (with_checksum ([meta1, meta2] @ name_entries name))
             new_offset ef;
           if rc \<noteq> EOK then Some (rc, ef)
           else do {
             nd \<leftarrow> nodes ef node;
             ef \<leftarrow> tree_detach node (set_node node (nd\<lparr>node_name := name\<rparr>) ef);
             ef \<leftarrow> tree_attach dir node ef;
             Some (EOK, ef)}}}}"

text \<open>Whether \<open>node\<close> is \<open>p\<close> or one of the directories above it.\<close>

partial_function (option) is_above :: "nat \<Rightarrow> nat option \<Rightarrow> 'd exfat \<Rightarrow> bool option" where
  "is_above node p ef =
    (case p of None \<Rightarrow> Some False
     | Some q \<Rightarrow> if q = node then Some True
                else do { qd \<leftarrow> nodes ef q; is_above node (node_parent qd) ef })"

text \<open>Removing the target of a rename. The node is cleaned up after an error too.\<close>

definition rename_remove_target ::
  "'d exfat_os \<Rightarrow> nat \<Rightarrow> nat \<Rightarrow> 'd exfat \<Rightarrow> (errno \<times> 'd exfat) option" where
  "rename_remove_target os existing node ef = do {
     xd \<leftarrow> nodes ef existing;
     nd \<leftarrow> nodes ef node;
     (rc, ef) \<leftarrow>
       (if attrib xd AND EXFAT_ATTRIB_DIR \<noteq> 0 then
          (if attrib nd AND EXFAT_ATTRIB_DIR \<noteq> 0 then exfat_rmdir os existing ef else Some (ENOTDIR, ef))
        else
          (if attrib nd AND EXFAT_ATTRIB_DIR = 0 then exfat_unlink os existing ef else Some (EISDIR, ef)));
     (_, ef) \<leftarrow> exfat_put_node existing ef;
     (rc', ef) \<leftarrow> exfat_cleanup_node os existing ef;
     Some (if rc \<noteq> EOK then rc else rc', ef)}"

definition exfat_rename ::
  "'d exfat_os \<Rightarrow> bytes \<Rightarrow> bytes \<Rightarrow> 'd exfat \<Rightarrow> (errno \<times> 'd exfat) option" where
  "exfat_rename os old_path new_path ef = do {
     (r, ef) \<leftarrow> exfat_lookup os old_path ef;
     case r of Inl e \<Rightarrow> Some (e, ef)
     | Inr node \<Rightarrow> do {
       (r, ef) \<leftarrow> exfat_split os new_path ef;
       case r of Inl e \<Rightarrow> do { (_, ef) \<leftarrow> exfat_put_node node ef; Some (e, ef) }
       | Inr (dir, existing, name) \<Rightarrow> do {
         nd \<leftarrow> nodes ef node;
         loop \<leftarrow> (if attrib nd AND EXFAT_ATTRIB_DIR \<noteq> 0 then is_above node (Some dir) ef
                 else Some False);
         if loop then do {
           (_, ef) \<leftarrow> (case existing of Some x \<Rightarrow> exfat_put_node x ef | None \<Rightarrow> Some ((), ef));
           (_, ef) \<leftarrow> exfat_put_node dir ef;
           (_, ef) \<leftarrow> exfat_put_node node ef;
           Some (EINVAL, ef)}
         else do {
           (rc, ef) \<leftarrow> (case existing of
               None \<Rightarrow> Some (EOK, ef)
             | Some x \<Rightarrow> if x \<noteq> node then rename_remove_target os x node ef
                        else do { (_, ef) \<leftarrow> exfat_put_node x ef; Some (EOK, ef) });
           (rc, ef) \<leftarrow> (if rc \<noteq> EOK then Some (rc, ef)
             else do {
               (r, ef) \<leftarrow> find_slot os dir (2 + name_entry_count name) (-1) ef;
               if fst r \<noteq> EOK then Some (fst r, ef)
               else do {
                 (rc, ef) \<leftarrow> rename_entry os dir node name (snd r) ef;
                 if rc \<noteq> EOK then Some (rc, ef) else exfat_flush_node os dir ef}});
           (_, ef) \<leftarrow> exfat_put_node dir ef;
           (_, ef) \<leftarrow> exfat_put_node node ef;
           Some (rc, ef)}}}}"

section \<open>The label\<close>

partial_function (option) find_label ::
  "'d exfat_os \<Rightarrow> int \<Rightarrow> 'd exfat \<Rightarrow> ((errno \<times> int) \<times> 'd exfat) option" where
  "find_label os offset ef = do {
     (r, ef) \<leftarrow> read_entries os (root ef) 1 offset ef;
     case r of Inl e \<Rightarrow> Some ((e, offset), ef)
     | Inr entries \<Rightarrow>
         if entries ! 0 ! 0 = EXFAT_ENTRY_LABEL then Some ((EOK, offset), ef)
         else find_label os (offset + 32) ef}"

definition label_entry :: "u16 list \<Rightarrow> bytes" where
  "label_entry us =
    (let n = exfat_utf16_length us
     in (if n = 0 then EXFAT_ENTRY_LABEL XOR EXFAT_ENTRY_VALID else EXFAT_ENTRY_LABEL)
        # of_nat n # concat (map le16 (take 15 us)))"

definition exfat_set_label :: "'d exfat_os \<Rightarrow> bytes \<Rightarrow> 'd exfat \<Rightarrow> (errno \<times> 'd exfat) option" where
  "exfat_set_label os name ef =
    (case exfat_utf8_to_utf16 name (EXFAT_ENAME_MAX + 1) of
       Inl e \<Rightarrow> Some (e, ef)
     | Inr us \<Rightarrow> do {
         let label_utf16 = patch 0 us (replicate 16 0);
         (r, ef) \<leftarrow> find_label os 0 ef;
         (r, ef) \<leftarrow> (if fst r = ENOENT then find_slot os (root ef) 1 (snd r) ef else Some (r, ef));
         if fst r \<noteq> EOK then Some (fst r, ef)
         else do {
           (rc, ef) \<leftarrow> write_entries os (root ef) [label_entry label_utf16] (snd r) ef;
           if rc \<noteq> EOK then Some (rc, ef)
           else Some (EOK, ef\<lparr>label := name @ [0]\<rparr>)}})"

end
