(* ===== verification/ExfatMount.thy ===== *)
theory ExfatMount
  imports ExfatDir
begin

text \<open>
  mount.c: mount options, the checks of the super block and of the boot record's checksum, the
  root directory, and unmounting; with \<open>exfat_match_option\<close> of utils.c.
\<close>

section \<open>Options\<close>

text \<open>\<open>strstr\<close> finds the occurrences from left to right; a test after the end of the string sees
  its final NUL.\<close>

definition char_at :: "string \<Rightarrow> nat \<Rightarrow> char" where
  "char_at s i = (if i < length s then s ! i else CHR 0x00)"

definition occurs_at :: "string \<Rightarrow> string \<Rightarrow> nat \<Rightarrow> bool" where
  "occurs_at options option_name i \<longleftrightarrow> take (length option_name) (drop i options) = option_name"

definition exfat_match_option :: "string \<Rightarrow> string \<Rightarrow> bool" where
  "exfat_match_option options option_name =
    list_ex (\<lambda>i. occurs_at options option_name i
        \<and> (i = 0 \<or> options ! (i - 1) = CHR '','')
        \<and> (char_at options (i + length option_name) = CHR '',''
           \<or> char_at options (i + length option_name) = CHR 0x00)) [0..<length options + 1]"

definition get_option :: "string \<Rightarrow> string \<Rightarrow> string option" where
  "get_option options option_name =
    map_option (\<lambda>i. drop (i + length option_name + 1) options)
      (find (\<lambda>i. occurs_at options option_name i
          \<and> (i = 0 \<or> options ! (i - 1) = CHR '','')
          \<and> char_at options (i + length option_name) = CHR ''='') [0..<length options + 1])"

text \<open>\<open>strtol\<close> for the bases 8 and 10: white space, a sign, digits, saturation to 64 bits.\<close>

definition is_space :: "char \<Rightarrow> bool" where
  "is_space c \<longleftrightarrow> of_char c \<in> {32, 9, 10, 11, 12, 13 :: nat}"

fun digits_value :: "int \<Rightarrow> int \<Rightarrow> string \<Rightarrow> int" where
  "digits_value base acc [] = acc"
| "digits_value base acc (c # s) =
    (let d = int (of_char c) - 48
     in if 0 \<le> d \<and> d < base then digits_value base (acc * base + d) s else acc)"

definition strtol :: "string \<Rightarrow> int \<Rightarrow> int" where
  "strtol s base =
    (let t = dropWhile is_space s;
         v = (case t of [] \<Rightarrow> 0
              | c # u \<Rightarrow> if c = CHR ''-'' then - digits_value base 0 u
                        else if c = CHR ''+'' then digits_value base 0 u
                        else digits_value base 0 t)
     in max (- (2 ^ 63)) (min (2 ^ 63 - 1) v))"

definition get_int_option :: "string \<Rightarrow> string \<Rightarrow> int \<Rightarrow> int \<Rightarrow> int" where
  "get_int_option options option_name base default_value =
    (case get_option options option_name of
       None \<Rightarrow> default_value
     | Some p \<Rightarrow> sint (word_of_int (strtol p base) :: u32))"

definition parse_options :: "'d exfat_os \<Rightarrow> string \<Rightarrow> 'd exfat \<Rightarrow> 'd exfat" where
  "parse_options os options ef =
    (let opt_umask = get_int_option options ''umask'' 8 0;
         r = get_int_option options ''repair'' 10 0
     in ef\<lparr>dmask := get_int_option options ''dmask'' 8 opt_umask,
          fmask := get_int_option options ''fmask'' 8 opt_umask,
          uid := get_int_option options ''uid'' 10 (os_euid os (dev ef)) mod 2 ^ 32,
          gid := get_int_option options ''gid'' 10 (os_egid os (dev ef)) mod 2 ^ 32,
          noatime := exfat_match_option options ''noatime'',
          repair := (if r = 1 then EXFAT_REPAIR_ASK else if r = 2 then EXFAT_REPAIR_YES
                     else EXFAT_REPAIR_NO)\<rparr>)"

section \<open>The boot record\<close>

fun vbr_sum_loop ::
  "'d exfat_os \<Rightarrow> int list \<Rightarrow> u32 \<Rightarrow> 'd exfat \<Rightarrow> u32 option \<times> 'd exfat" where
  "vbr_sum_loop os [] vbr_checksum ef = (Some vbr_checksum, ef)"
| "vbr_sum_loop os (i # is) vbr_checksum ef =
    (let sector_size = SECTOR_SIZE (sb ef);
         (res, sector, d) = os_pread os (nat sector_size) (i * sector_size) (dev ef);
         ef = ef\<lparr>dev := d\<rparr>
     in if res < 0 then (None, ef)
        else vbr_sum_loop os is (exfat_vbr_add_checksum sector (nat sector_size) vbr_checksum) ef)"

fun vbr_check_loop ::
  "'d exfat_os \<Rightarrow> u32 \<Rightarrow> nat list \<Rightarrow> bytes \<Rightarrow> 'd exfat \<Rightarrow> (bool \<times> 'd exfat) option" where
  "vbr_check_loop os vbr_checksum [] sector ef = Some (True, ef)"
| "vbr_check_loop os vbr_checksum (i # is) sector ef =
    (if rd32 (drop (4 * i) sector) \<noteq> vbr_checksum then
       case exfat_ask_to_fix os ef of
         None \<Rightarrow> None
       | Some (fix_it, ef) \<Rightarrow>
           if \<not> fix_it then Some (False, ef)
           else (case exfat_fix_invalid_vbr_checksum os sector vbr_checksum ef of
                   ((ok, sector), ef) \<Rightarrow>
                     if ok then vbr_check_loop os vbr_checksum is sector ef else Some (False, ef))
     else vbr_check_loop os vbr_checksum is sector ef)"

definition verify_vbr_checksum :: "'d exfat_os \<Rightarrow> 'd exfat \<Rightarrow> (bool \<times> 'd exfat) option" where
  "verify_vbr_checksum os ef =
    (let sector_size = SECTOR_SIZE (sb ef);
         (res, sector, d) = os_pread os (nat sector_size) 0 (dev ef); ef = ef\<lparr>dev := d\<rparr>
     in if res < 0 then Some (False, ef)
     else let (r, ef) = vbr_sum_loop os [1..10] (exfat_vbr_start_checksum sector (nat sector_size)) ef
     in case r of None \<Rightarrow> Some (False, ef)
     | Some vbr_checksum \<Rightarrow>
         let (res, sector, d) = os_pread os (nat sector_size) (11 * sector_size) (dev ef);
             ef = ef\<lparr>dev := d\<rparr>
         in if res < 0 then Some (False, ef)
            else vbr_check_loop os vbr_checksum [0..<nat (sector_size div 4)] sector ef)"

text \<open>\<open>0\<close> on success.\<close>

definition commit_super_block :: "'d exfat_os \<Rightarrow> 'd exfat \<Rightarrow> int \<times> 'd exfat" where
  "commit_super_block os ef =
    (let (res, d) = os_pwrite os (sb_block ef) 0 (dev ef)
     in if res < 0 then (1, ef\<lparr>dev := d\<rparr>)
        else let (r, d) = os_fsync os d in (r, ef\<lparr>dev := d\<rparr>))"

definition set_volume_state :: "u16 \<Rightarrow> 'd exfat \<Rightarrow> 'd exfat" where
  "set_volume_state s ef = ef\<lparr>sb_block := patch 0x6a (le16 s) (sb_block ef)\<rparr>"

definition exfat_soil_super_block :: "'d exfat_os \<Rightarrow> 'd exfat \<Rightarrow> int \<times> 'd exfat" where
  "exfat_soil_super_block os ef =
    (if ro ef \<noteq> 0 then (0, ef)
     else commit_super_block os (set_volume_state (volume_state (sb ef) OR EXFAT_STATE_MOUNTED) ef))"

section \<open>Mounting\<close>

text \<open>\<open>k\<close> is \<open>clusters_max - clusters\<close>.\<close>

fun rootdir_loop :: "'d exfat_os \<Rightarrow> nat \<Rightarrow> u32 \<Rightarrow> u32 \<Rightarrow> 'd exfat \<Rightarrow> (u64 \<times> 'd exfat) option" where
  "rootdir_loop os 0 clusters cluster ef = Some (0, ef)"
| "rootdir_loop os (Suc k) clusters cluster ef =
    (if CLUSTER_INVALID (sb ef) cluster then Some (0, ef)
     else do {
       (next_c, ef) \<leftarrow> exfat_next_cluster os (root ef) cluster ef;
       if next_c \<noteq> EXFAT_CLUSTER_END then rootdir_loop os k (clusters + 1) next_c ef
       else Some (ucast (clusters + 1) * cluster_size64 (sb ef), ef)})"

definition rootdir_size :: "'d exfat_os \<Rightarrow> 'd exfat \<Rightarrow> (u64 \<times> 'd exfat) option" where
  "rootdir_size os ef =
    rootdir_loop os (unat (cluster_count (sb ef))) 0 (rootdir_cluster (sb ef)) ef"

definition exfat_free :: "'d exfat_os \<Rightarrow> 'd exfat \<Rightarrow> 'd exfat" where
  "exfat_free os ef = ef\<lparr>dev := os_close os (dev ef), nodes := (nodes ef)(root ef := None),
     cmap_chunk := None, upcase := None, sb_block := []\<rparr>"

text \<open>\<open>memset(ef, 0, ...)\<close>; the heap, the time zone and the count of repairs live outside.\<close>

definition clear_exfat :: "'d exfat \<Rightarrow> 'd exfat" where
  "clear_exfat ef = ef\<lparr>sb_block := [], upcase := None, root := 0, cmap_start_cluster := 0,
     cmap_size := 0, cmap_chunk := None, cmap_chunk_size := 0, cmap_dirty := False, label := [0],
     dmask := 0, fmask := 0, uid := 0, gid := 0, ro := 0, noatime := False,
     repair := EXFAT_REPAIR_NO\<rparr>"

text \<open>"EXFAT" and three spaces.\<close>

definition oem_exfat :: bytes where
  "oem_exfat = [0x45, 0x58, 0x46, 0x41, 0x54, 0x20, 0x20, 0x20]"

text \<open>The checks on the super block before anything else is read, and the ones after the boot
  record's checksum (\<open>volume\<close> is the size of the device).\<close>

definition super_block_readable :: "exfat_super_block \<Rightarrow> bool" where
  "super_block_readable b \<longleftrightarrow> oem_name b = oem_exfat \<and> \<not> sb_sector_bits b < 9
     \<and> \<not> unat (sb_sector_bits b) + unat (sb_spc_bits b) > 25"

definition super_block_supported :: "exfat_super_block \<Rightarrow> int \<Rightarrow> bool" where
  "super_block_supported b volume \<longleftrightarrow> version_major b = 1 \<and> version_minor b = 0 \<and> fat_count b = 1
     \<and> \<not> uint (cluster_count b) * CLUSTER_SIZE b > volume"

definition make_root :: "u32 \<Rightarrow> exfat_node" where
  "make_root cluster = zero_node\<lparr>attrib := EXFAT_ATTRIB_DIR, start_cluster := cluster,
     fptr_cluster := cluster\<rparr>"

text \<open>The part from the allocation of the root node on.\<close>

definition mount_root :: "'d exfat_os \<Rightarrow> 'd exfat \<Rightarrow> (errno \<times> 'd exfat) option" where
  "mount_root os ef =
    (case allocate_node os ef of
       (None, ef) \<Rightarrow> Some (ENOMEM, exfat_free os ef)
     | (Some r, ef) \<Rightarrow> do {
         let ef = set_node r (make_root (rootdir_cluster (sb ef))) (ef\<lparr>root := r\<rparr>);
         (size64, ef) \<leftarrow> rootdir_size os ef;
         nd \<leftarrow> nodes ef r;
         let ef = set_node r (nd\<lparr>node_size := size64, valid_size := size64\<rparr>) ef;
         if size64 = 0 then Some (EIO, exfat_free os ef)
         else do {
           (_, ef) \<leftarrow> exfat_get_node r ef;
           (rc, ef) \<leftarrow> exfat_cache_directory os r ef;
           if rc \<noteq> EOK \<or> upcase ef = None \<or> cmap_chunk ef = None then do {
             (_, ef) \<leftarrow> exfat_put_node r ef;
             ef \<leftarrow> exfat_reset_cache ef;
             Some (EIO, exfat_free os ef)}
           else Some (EOK, ef)}})"

definition mount_mode :: "string \<Rightarrow> exfat_mode" where
  "mount_mode options =
    (if exfat_match_option options ''ro'' then EXFAT_MODE_RO
     else if exfat_match_option options ''ro_fallback'' then EXFAT_MODE_ANY else EXFAT_MODE_RW)"

definition exfat_mount :: "'d exfat_os \<Rightarrow> string \<Rightarrow> 'd exfat \<Rightarrow> (errno \<times> 'd exfat) option" where
  "exfat_mount os options ef =
    (let ef = ef\<lparr>exfat_timezone := exfat_tzset (os_gm_mktime os (dev ef)) (os_time os (dev ef))\<rparr>;
         ef = parse_options os options (clear_exfat ef);
         (opened, d) = os_open os (mount_mode options) (dev ef);
         ef = ef\<lparr>dev := d\<rparr>
     in if \<not> opened then Some (ENODEV, ef)
     else let ef = (if os_mode os (dev ef) = EXFAT_MODE_RO
                    then ef\<lparr>ro := (if mount_mode options = EXFAT_MODE_ANY then -1 else 1)\<rparr> else ef)
     in if \<not> os_malloc os 512 (dev ef) then Some (ENOMEM, exfat_free os ef)
     else let (res, buf, d) = os_pread os 512 0 (dev ef); ef = ef\<lparr>dev := d, sb_block := buf\<rparr>
     in if res < 0 \<or> \<not> super_block_readable (sb ef) then Some (EIO, exfat_free os ef)
     else if \<not> os_malloc os (nat (CLUSTER_SIZE (sb ef))) (dev ef)
          then Some (ENOMEM, exfat_free os ef)
     else do {
       (ok, ef) \<leftarrow> verify_vbr_checksum os ef;
       if \<not> ok \<or> \<not> super_block_supported (sb ef) (os_size os (dev ef))
       then Some (EIO, exfat_free os ef)
       else mount_root os ef})"

section \<open>Unmounting\<close>

text \<open>The percentage in use, in 32-bit arithmetic; \<open>None\<close> is a division by zero.\<close>

definition used_percent :: "u32 \<Rightarrow> u32 \<Rightarrow> u8 option" where
  "used_percent free_c total_c =
    (if total_c = 0 then None
     else Some (ucast (((total_c - free_c) * 100 + total_c div 2) div total_c)))"

definition finalize_super_block :: "'d exfat_os \<Rightarrow> 'd exfat \<Rightarrow> (unit \<times> 'd exfat) option" where
  "finalize_super_block os ef =
    (if ro ef \<noteq> 0 then Some ((), ef)
     else do {
       let ef = set_volume_state (volume_state (sb ef) AND NOT EXFAT_STATE_MOUNTED) ef;
       ef \<leftarrow> (if allocated_percent (sb ef) \<noteq> 0xff then do {
                free_c \<leftarrow> exfat_count_free_clusters ef;
                percent \<leftarrow> used_percent free_c (cluster_count (sb ef));
                Some (ef\<lparr>sb_block := patch 0x70 [percent] (sb_block ef)\<rparr>)}
              else Some ef);
       Some ((), snd (commit_super_block os ef))})"

definition exfat_unmount :: "'d exfat_os \<Rightarrow> 'd exfat \<Rightarrow> (unit \<times> 'd exfat) option" where
  "exfat_unmount os ef = do {
     (_, ef) \<leftarrow> exfat_flush_nodes os ef;
     (_, ef) \<leftarrow> exfat_flush os ef;
     (_, ef) \<leftarrow> exfat_put_node (root ef) ef;
     ef \<leftarrow> exfat_reset_cache ef;
     (_, ef) \<leftarrow> finalize_super_block os ef;
     Some ((), exfat_free os ef)}"

end
