(* ===== verification/ExfatAlloc.thy ===== *)
theory ExfatAlloc
  imports ExfatCluster
begin

text \<open>
  The cluster allocator: the block-wise search finds what a scan bit by bit would, allocation
  takes a free cluster and nothing else, freeing undoes it, and what \<open>exfat_find_used_sectors\<close>
  reports.
\<close>

section \<open>The search for a free bit\<close>

lemma full_block: "bm ! b = NOT 0 \<Longrightarrow> b * 64 \<le> c \<Longrightarrow> c < (b + 1) * 64 \<Longrightarrow> BMAP_GET bm c"
proof -
  assume f: "bm ! b = NOT 0" and c: "b * 64 \<le> c" "c < (b + 1) * 64"
  have "c div 64 = b" using c by (intro div_nat_eqI) auto
  then show ?thesis using f by (simp add: BMAP_GET_bit bit_not_iff)
qed

lemma upt_split: "a \<le> b \<Longrightarrow> b \<le> c \<Longrightarrow> [a..<c] = [a..<b] @ [b..<c]"
  using upt_add_eq_append [of a b "c - b"] by simp

lemma block_range:
  "[max (i * 64) s..<min ((i + Suc k) * 64) e]
    = [max (i * 64) s..<min ((i + 1) * 64) e] @ [max ((i + 1) * 64) s..<min ((i + Suc k) * 64) e]"
proof (cases "s \<le> (i + 1) * 64 \<and> (i + 1) * 64 \<le> e")
  case True
  then have "max (i * 64) s \<le> (i + 1) * 64" "(i + 1) * 64 \<le> min ((i + Suc k) * 64) e" by auto
  then show ?thesis using True upt_split [of "max (i * 64) s" "(i + 1) * 64" "min ((i + Suc k) * 64) e"]
    by (simp add: max_absorb1)
next
  case False
  then show ?thesis by (auto simp: max_def min_def)
qed

lemma find_bit_blocks_scan:
  "find_bit_blocks bm s e i k
    = find (\<lambda>c. \<not> BMAP_GET bm c) [max (i * 64) s..<min ((i + k) * 64) e]"
proof (induction k arbitrary: i)
  case 0
  have "[max (i * 64) s..<min ((i + 0) * 64) e] = []" by simp
  then show ?case by (simp only: find_bit_blocks.simps List.find.simps)
next
  case (Suc k)
  have full: "find (\<lambda>c. \<not> BMAP_GET bm c) [max (i * 64) s..<min ((i + 1) * 64) e] = None"
    if "bm ! i = NOT 0"
    using full_block [OF that] by (simp add: find_None_iff)
  show ?case
    unfolding block_range find_append find_bit_blocks.simps Suc.IH using full
    by (auto simp del: upt_Suc split: option.split)
qed

lemma find_bit_and_set_scan:
  "find_bit_and_set bm s e =
    (case find (\<lambda>c. \<not> BMAP_GET bm c) [s..<e] of
       Some c \<Rightarrow> (of_nat c + EXFAT_FIRST_DATA_CLUSTER, BMAP_SET bm c)
     | None \<Rightarrow> (EXFAT_CLUSTER_END, bm))"
proof -
  define i j where "i = s div 64" and "j = (e + 64 - 1) div 64"
  have i: "i * 64 \<le> s" and j: "e \<le> j * 64" by (simp_all add: i_def j_def)
  have "[max (i * 64) s..<min ((i + (j - i)) * 64) e] = [s..<e]"
  proof (cases "i \<le> j")
    case True
    then show ?thesis using i j by (simp add: max_absorb2 min_absorb2)
  next
    case False
    then have "e \<le> s" using i j by (meson less_imp_le_nat linorder_not_le mult_le_mono1 order_trans)
    then show ?thesis by simp
  qed
  then show ?thesis
    by (simp add: find_bit_and_set_def Let_def find_bit_blocks_scan div_mult2_eq [symmetric] i_def j_def)
qed

section \<open>The state of the bitmap\<close>

definition bitmap_ok :: "'d exfat \<Rightarrow> u64 list \<Rightarrow> bool" where
  "bitmap_ok ef bm \<longleftrightarrow> cmap_chunk ef = Some bm \<and> unat (cmap_chunk_size ef) \<le> 64 * length bm
     \<and> unat (cmap_chunk_size ef) \<le> 0xfffffffd"

lemma cluster_of_bit:
  assumes "i < 0xfffffffd"
  shows "(of_nat i + EXFAT_FIRST_DATA_CLUSTER :: u32) \<noteq> EXFAT_CLUSTER_END"
    "unat (of_nat i + EXFAT_FIRST_DATA_CLUSTER :: u32) = i + 2"
    "unat (of_nat i + EXFAT_FIRST_DATA_CLUSTER - EXFAT_FIRST_DATA_CLUSTER :: u32) = i"
proof -
  have i: "unat (of_nat i :: u32) = i"
    using assms by (simp add: unsigned_of_nat take_bit_nat_eq_self)
  show u: "unat (of_nat i + EXFAT_FIRST_DATA_CLUSTER :: u32) = i + 2"
    using assms by (simp add: unat_word_ariths i EXFAT_FIRST_DATA_CLUSTER_def)
  show "(of_nat i + EXFAT_FIRST_DATA_CLUSTER :: u32) \<noteq> EXFAT_CLUSTER_END"
  proof
    assume "(of_nat i + EXFAT_FIRST_DATA_CLUSTER :: u32) = EXFAT_CLUSTER_END"
    then have "unat (EXFAT_CLUSTER_END) = i + 2" using u by simp
    then show False using assms by (simp add: EXFAT_CLUSTER_END_def)
  qed
  show "unat (of_nat i + EXFAT_FIRST_DATA_CLUSTER - EXFAT_FIRST_DATA_CLUSTER :: u32) = i"
    by (simp add: i)
qed

lemma find_range:
  "(find P [a..<b] = Some i) \<Longrightarrow> a \<le> i \<and> i < b \<and> P i \<and> (\<forall>j. a \<le> j \<and> j < i \<longrightarrow> \<not> P j)"
  "(find P [a..<b] = None) \<Longrightarrow> a \<le> j \<Longrightarrow> j < b \<Longrightarrow> \<not> P j"
proof -
  show "find P [a..<b] = Some i \<Longrightarrow> a \<le> i \<and> i < b \<and> P i \<and> (\<forall>j. a \<le> j \<and> j < i \<longrightarrow> \<not> P j)"
  proof -
    assume "find P [a..<b] = Some i"
    then obtain k where k: "k < b - a" "P (a + k)" "i = a + k" "\<forall>j<k. \<not> P (a + j)"
      by (auto simp: find_Some_iff)
    have "\<not> P j" if "a \<le> j" "j < i" for j
      using k(4) [rule_format, of "j - a"] that k(3) by simp
    then show ?thesis using k by auto
  qed
qed (simp add: find_None_iff)

text \<open>Where the search starts.\<close>

definition hint_index :: "u32 \<Rightarrow> 'd exfat \<Rightarrow> nat" where
  "hint_index hint ef =
    (if hint - EXFAT_FIRST_DATA_CLUSTER \<ge> cmap_chunk_size ef then 0
     else unat (hint - EXFAT_FIRST_DATA_CLUSTER))"

lemma allocate_cluster_cases:
  fixes hint :: u32
  assumes "bitmap_ok ef bm"
  defines "n \<equiv> unat (cmap_chunk_size ef)" and "h \<equiv> hint_index hint ef"
  shows "(\<forall>i<n. BMAP_GET bm i) \<Longrightarrow> allocate_cluster hint ef = Some (EXFAT_CLUSTER_END, ef)"
    and "\<not> (\<forall>i<n. BMAP_GET bm i) \<Longrightarrow>
      \<exists>i<n. \<not> BMAP_GET bm i
        \<and> (\<forall>j. h \<le> j \<and> j < (if h \<le> i then i else n) \<longrightarrow> BMAP_GET bm j)
        \<and> (i < h \<longrightarrow> (\<forall>j<i. BMAP_GET bm j))
        \<and> allocate_cluster hint ef = Some (of_nat i + EXFAT_FIRST_DATA_CLUSTER,
            ef\<lparr>cmap_chunk := Some (BMAP_SET bm i), cmap_dirty := True\<rparr>)"
proof -
  have bm: "cmap_chunk ef = Some bm" and n: "n \<le> 0xfffffffd"
    using assms(1) by (simp_all add: bitmap_ok_def n_def)
  have h: "h \<le> n"
    by (auto simp: h_def hint_index_def n_def word_less_nat_alt not_le less_imp_le)
  have ifs: "unat (if b then 0 else w) = (if b then 0 else unat w)" for b and w :: u32 by simp
  have alloc: "allocate_cluster hint ef =
    (case find (\<lambda>c. \<not> BMAP_GET bm c) [h..<n] of
       Some i \<Rightarrow> Some (of_nat i + EXFAT_FIRST_DATA_CLUSTER,
            ef\<lparr>cmap_chunk := Some (BMAP_SET bm i), cmap_dirty := True\<rparr>)
     | None \<Rightarrow> (case find (\<lambda>c. \<not> BMAP_GET bm c) [0..<h] of
         Some i \<Rightarrow> Some (of_nat i + EXFAT_FIRST_DATA_CLUSTER,
            ef\<lparr>cmap_chunk := Some (BMAP_SET bm i), cmap_dirty := True\<rparr>)
       | None \<Rightarrow> Some (EXFAT_CLUSTER_END, ef)))"
  proof (cases "find (\<lambda>c. \<not> BMAP_GET bm c) [h..<n]")
    case (Some i)
    then have "i < n" by (blast dest: find_range(1))
    then show ?thesis using Some cluster_of_bit(1) [of i] n
      by (simp add: allocate_cluster_def bm find_bit_and_set_scan h_def hint_index_def ifs n_def Let_def)
  next
    case None
    show ?thesis
    proof (cases "find (\<lambda>c. \<not> BMAP_GET bm c) [0..<h]")
      case (Some i)
      then have "i < h" by (blast dest: find_range(1))
      then show ?thesis using Some None cluster_of_bit(1) [of i] n h
        by (simp add: allocate_cluster_def bm find_bit_and_set_scan h_def hint_index_def ifs n_def Let_def)
    next
      case None
      then show ?thesis using \<open>find _ [h..<n] = None\<close>
        by (simp add: allocate_cluster_def bm find_bit_and_set_scan h_def hint_index_def ifs n_def Let_def)
    qed
  qed
  show "allocate_cluster hint ef = Some (EXFAT_CLUSTER_END, ef)" if full: "\<forall>i<n. BMAP_GET bm i"
  proof -
    have "find (\<lambda>c. \<not> BMAP_GET bm c) [h..<n] = None" "find (\<lambda>c. \<not> BMAP_GET bm c) [0..<h] = None"
      using full h by (auto simp: find_None_iff)
    then show ?thesis by (simp add: alloc)
  qed
  show "\<exists>i<n. \<not> BMAP_GET bm i
        \<and> (\<forall>j. h \<le> j \<and> j < (if h \<le> i then i else n) \<longrightarrow> BMAP_GET bm j)
        \<and> (i < h \<longrightarrow> (\<forall>j<i. BMAP_GET bm j))
        \<and> allocate_cluster hint ef = Some (of_nat i + EXFAT_FIRST_DATA_CLUSTER,
            ef\<lparr>cmap_chunk := Some (BMAP_SET bm i), cmap_dirty := True\<rparr>)"
    if some: "\<not> (\<forall>i<n. BMAP_GET bm i)"
  proof (cases "find (\<lambda>c. \<not> BMAP_GET bm c) [h..<n]")
    case (Some i)
    then show ?thesis using find_range(1) [OF Some] by (intro exI [of _ i]) (simp add: alloc)
  next
    case hn: None
    note full = find_range(2) [OF hn]
    show ?thesis
    proof (cases "find (\<lambda>c. \<not> BMAP_GET bm c) [0..<h]")
      case (Some i)
      then show ?thesis using find_range(1) [OF Some] full hn h
        by (intro exI [of _ i]) (auto simp: alloc)
    next
      case None
      then show ?thesis using some full find_range(2) [OF None] by (meson le0 linorder_not_le)
    qed
  qed
qed

section \<open>Lemmas on the bitmap\<close>

lemma BMAP_CLR_SET:
  assumes "\<not> BMAP_GET bm i" "i < 64 * length bm"
  shows "BMAP_CLR (BMAP_SET bm i) i = bm"
proof -
  define b k where "b = i div 64" and "k = i mod 64"
  have b: "b < length bm" using assms(2) by (simp add: b_def div_less_iff_less_mult mult.commute)
  have nb: "\<not> bit (bm ! b) k" using assms(1) by (simp add: BMAP_GET_bit b_def k_def)
  have "(bm ! b OR push_bit k 1) AND NOT (push_bit k 1) = bm ! b"
    using nb by (intro bit_word_eqI) (auto simp: bit_simps)
  then show ?thesis
    using b by (simp add: BMAP_CLR_def BMAP_SET_def BMAP_BLOCK_64 BMAP_MASK_def b_def k_def)
qed

lemma clear_bits_after_set:
  assumes "i < n" "\<not> BMAP_GET bm i" "n \<le> 64 * length bm"
  shows "length (filter (\<lambda>j. \<not> BMAP_GET bm j) [0..<n])
    = Suc (length (filter (\<lambda>j. \<not> BMAP_GET (BMAP_SET bm i) j) [0..<n]))"
proof -
  have card: "length (filter P [0..<n]) = card {j. j < n \<and> P j}" for P
    by (simp add: length_filter_conv_card cong: conj_cong)
  have "{j. j < n \<and> \<not> BMAP_GET bm j}
      = insert i {j. j < n \<and> \<not> BMAP_GET (BMAP_SET bm i) j}"
    using assms BMAP_GET_SET [of i bm] by auto
  moreover have "i \<notin> {j. j < n \<and> \<not> BMAP_GET (BMAP_SET bm i) j}"
    using assms BMAP_GET_SET [of i bm] by auto
  ultimately show ?thesis by (simp add: card)
qed

section \<open>Properties\<close>

text \<open>C21: The allocator's search, which skips full blocks of 64 clusters, finds and marks what a
  scan bit by bit over the range finds, and nothing when that scan finds nothing.\<close>

theorem block_search_equals_bit_scan:
  "find_bit_and_set bm s e =
    (case find (\<lambda>c. \<not> BMAP_GET bm c) [s..<e] of
       Some c \<Rightarrow> (of_nat c + EXFAT_FIRST_DATA_CLUSTER, BMAP_SET bm c)
     | None \<Rightarrow> (EXFAT_CLUSTER_END, bm))"
  by (rule find_bit_and_set_scan)

text \<open>C20: Allocating a cluster takes one that was free: the first free one from the hint on, and
  only if all from the hint to the end are in use the first free one of the volume. It changes
  nothing but its bit; it fails only when every cluster is in use, and then changes nothing.\<close>

theorem allocate_cluster_takes_a_free_cluster:
  fixes ef :: "'d exfat" and hint :: u32
  assumes ok: "bitmap_ok ef bm"
  shows "\<exists>c ef'. allocate_cluster hint ef = Some (c, ef') \<and>
    (if \<forall>i < unat (cmap_chunk_size ef). BMAP_GET bm i then c = EXFAT_CLUSTER_END \<and> ef' = ef
     else \<exists>i < unat (cmap_chunk_size ef). \<not> BMAP_GET bm i \<and> unat c = i + 2
       \<and> (if hint_index hint ef \<le> i then \<forall>j. hint_index hint ef \<le> j \<and> j < i \<longrightarrow> BMAP_GET bm j
          else (\<forall>j. hint_index hint ef \<le> j \<and> j < unat (cmap_chunk_size ef) \<longrightarrow> BMAP_GET bm j)
            \<and> (\<forall>j<i. BMAP_GET bm j))
       \<and> ef' = ef\<lparr>cmap_chunk := Some (BMAP_SET bm i), cmap_dirty := True\<rparr>
       \<and> (\<forall>j. BMAP_GET (BMAP_SET bm i) j \<longleftrightarrow> j = i \<or> BMAP_GET bm j))"
proof (cases "\<forall>i < unat (cmap_chunk_size ef). BMAP_GET bm i")
  case True
  then show ?thesis using allocate_cluster_cases(1) [OF ok] by auto
next
  case False
  then obtain i where i: "i < unat (cmap_chunk_size ef)" "\<not> BMAP_GET bm i"
    "\<forall>j. hint_index hint ef \<le> j \<and> j < (if hint_index hint ef \<le> i then i else unat (cmap_chunk_size ef))
      \<longrightarrow> BMAP_GET bm j" "i < hint_index hint ef \<longrightarrow> (\<forall>j<i. BMAP_GET bm j)"
    "allocate_cluster hint ef = Some (of_nat i + EXFAT_FIRST_DATA_CLUSTER,
            ef\<lparr>cmap_chunk := Some (BMAP_SET bm i), cmap_dirty := True\<rparr>)"
    using allocate_cluster_cases(2) [OF ok] by blast
  have n: "i < 0xfffffffd" "i < 64 * length bm" using i(1) ok by (simp_all add: bitmap_ok_def)
  have g: "\<forall>j. BMAP_GET (BMAP_SET bm i) j \<longleftrightarrow> j = i \<or> BMAP_GET bm j"
    using BMAP_GET_SET [OF n(2)] by blast
  have h: "if hint_index hint ef \<le> i then \<forall>j. hint_index hint ef \<le> j \<and> j < i \<longrightarrow> BMAP_GET bm j
          else (\<forall>j. hint_index hint ef \<le> j \<and> j < unat (cmap_chunk_size ef) \<longrightarrow> BMAP_GET bm j)
            \<and> (\<forall>j<i. BMAP_GET bm j)" using i(3,4) by auto
  show ?thesis using i(1,2,5) g h cluster_of_bit(2) [OF n(1)] False by auto
qed

text \<open>A bitmap of 64 clusters, all but the last in use.\<close>

definition nearly_full :: "u64 list" where
  "nearly_full = [0x7fffffffffffffff]"

lemma nearly_full_get: "i < 64 \<Longrightarrow> BMAP_GET nearly_full i \<longleftrightarrow> i \<noteq> 63"
proof -
  have e: "(0x7fffffffffffffff :: u64) = mask 63" by (simp add: mask_eq_exp_minus_1)
  assume "i < 64"
  then show ?thesis by (auto simp: BMAP_GET_bit nearly_full_def e bit_mask_iff)
qed

definition blank_fs :: "'d \<Rightarrow> 'd exfat" where
  "blank_fs d = \<lparr>dev = d, sb_block = [], upcase = None, root = 0, nodes = (\<lambda>_. None), node_brk = 1,
     cmap_start_cluster = 0, cmap_size = 0, cmap_chunk = None, cmap_chunk_size = 0,
     cmap_dirty = False, label = [0], dmask = 0, fmask = 0, uid = 0, gid = 0, ro = 0,
     noatime = False, repair = EXFAT_REPAIR_NO, exfat_errors_fixed = 0, exfat_timezone = 0\<rparr>"

text \<open>A device on which every operation fails.\<close>

definition no_os :: "'d exfat_os" where
  "no_os = \<lparr>os_open = (\<lambda>m d. (False, d)), os_close = (\<lambda>d. d), os_mode = (\<lambda>d. EXFAT_MODE_RO),
     os_size = (\<lambda>d. 0), os_pread = (\<lambda>n off d. (-1, replicate n 0, d)),
     os_pwrite = (\<lambda>bs off d. (-1, d)), os_fsync = (\<lambda>d. (-1, d)), os_malloc = (\<lambda>n d. False),
     os_time = (\<lambda>d. 0), os_gm_mktime = (\<lambda>d t. t), os_euid = (\<lambda>d. 0), os_egid = (\<lambda>d. 0),
     os_fgets = (\<lambda>d. (None, d))\<rparr>"

definition alloc_fs :: "unit exfat" where
  "alloc_fs = (blank_fs ())\<lparr>cmap_chunk := Some nearly_full, cmap_chunk_size := 64, cmap_size := 64\<rparr>"

lemma alloc_fs_ok: "bitmap_ok alloc_fs nearly_full"
  by (simp add: bitmap_ok_def alloc_fs_def nearly_full_def)

lemma alloc_fs_not_full: "\<not> (\<forall>i<unat (cmap_chunk_size alloc_fs). BMAP_GET nearly_full i)"
  using nearly_full_get by (auto simp: alloc_fs_def)

lemma allocate_cluster_takes_a_free_cluster_witness:
  "\<exists>ef'. allocate_cluster 9 alloc_fs = Some (65, ef')"
proof -
  obtain c ef' i where c: "allocate_cluster 9 alloc_fs = Some (c, ef')" "unat c = i + 2"
    "i < unat (cmap_chunk_size alloc_fs)" "\<not> BMAP_GET nearly_full i"
    using allocate_cluster_takes_a_free_cluster [OF alloc_fs_ok, of 9]
    unfolding if_not_P [OF alloc_fs_not_full] by blast
  then have "unat c = unat (65 :: u32)" using nearly_full_get [of i] by (simp add: alloc_fs_def)
  then show ?thesis using c(1) by (metis word_unat_eq_iff)
qed

text \<open>Freeing the cluster just allocated gives back the bitmap as it was, and in between the
  volume has exactly one free cluster less.\<close>

theorem free_undoes_allocate:
  fixes ef :: "'d exfat"
  assumes ok: "bitmap_ok ef bm" and same: "cmap_size ef = cmap_chunk_size ef"
    and a: "allocate_cluster hint ef = Some (c, ef')" and c: "c \<noteq> EXFAT_CLUSTER_END"
  shows "free_cluster c ef' = Some (ef\<lparr>cmap_dirty := True\<rparr>)
    \<and> map_option unat (exfat_count_free_clusters ef)
      = map_option (\<lambda>k. unat k + 1) (exfat_count_free_clusters ef')"
proof -
  define n where "n = unat (cmap_chunk_size ef)"
  have bm: "cmap_chunk ef = Some bm" and n: "n \<le> 0xfffffffd" "n \<le> 64 * length bm"
    using ok by (simp_all add: bitmap_ok_def n_def)
  obtain i where i: "i < n" "\<not> BMAP_GET bm i" "c = of_nat i + EXFAT_FIRST_DATA_CLUSTER"
    "ef' = ef\<lparr>cmap_chunk := Some (BMAP_SET bm i), cmap_dirty := True\<rparr>"
    using allocate_cluster_cases [OF ok, of hint] a c by (fastforce simp: n_def)
  have u: "unat (c - EXFAT_FIRST_DATA_CLUSTER) = i"
    using cluster_of_bit(3) [of i] i(1,3) n(1) by simp
  have "\<not> cmap_size ef' \<le> c - EXFAT_FIRST_DATA_CLUSTER"
    using i(1) u by (simp add: i(4) same word_le_nat_alt n_def)
  then have f: "free_cluster c ef' = Some (ef\<lparr>cmap_dirty := True\<rparr>)"
    using BMAP_CLR_SET [OF i(2)] i(1) n(2) bm u by (simp add: free_cluster_def i(4))
  have small: "unat (of_nat (length (filter P [0..<n])) :: u32) = length (filter P [0..<n])" for P
  proof -
    have "length (filter P [0..<n]) \<le> n" by (rule order_trans [OF length_filter_le]) simp
    then have "length (filter P [0..<n]) < 2 ^ 32" using n(1) by simp
    then show ?thesis by (simp add: unsigned_of_nat take_bit_nat_eq_self)
  qed
  have cnt: "exfat_count_free_clusters ef = Some (of_nat (length (filter (\<lambda>j. \<not> BMAP_GET bm j) [0..<n])))"
    "exfat_count_free_clusters ef'
      = Some (of_nat (length (filter (\<lambda>j. \<not> BMAP_GET (BMAP_SET bm i) j) [0..<n])))"
    by (simp_all add: exfat_count_free_clusters_def bm i(4) same n_def)
  show ?thesis
    unfolding cnt option.map small using f clear_bits_after_set [OF i(1,2) n(2)] by simp
qed

lemma free_undoes_allocate_witness:
  "\<exists>ef'. allocate_cluster 9 alloc_fs = Some (65, ef')
    \<and> free_cluster 65 ef' = Some (alloc_fs\<lparr>cmap_dirty := True\<rparr>)"
proof -
  obtain i ef' where i: "i < unat (cmap_chunk_size alloc_fs)" "\<not> BMAP_GET nearly_full i"
    "allocate_cluster 9 alloc_fs = Some (of_nat i + EXFAT_FIRST_DATA_CLUSTER, ef')"
    using allocate_cluster_cases(2) [OF alloc_fs_ok alloc_fs_not_full] by blast
  then have "i = 63" using nearly_full_get [of i] by (simp add: alloc_fs_def)
  then have a: "allocate_cluster 9 alloc_fs = Some (65, ef')"
    using i(3) by (simp add: EXFAT_FIRST_DATA_CLUSTER_def)
  then show ?thesis
    using free_undoes_allocate [OF alloc_fs_ok _ a] by (simp add: alloc_fs_def EXFAT_CLUSTER_END_def)
qed

text \<open>Used space reported by \<open>exfat_find_used_sectors\<close> never includes the last two clusters of
  the volume: the scan stops at the cluster count, but cluster numbers go up to the count plus
  one. A volume in which only those two are in use counts as unused.\<close>

theorem last_two_clusters_are_not_reported:
  fixes ef :: "'d exfat"
  assumes bm: "cmap_chunk ef = Some bm" and n: "2 \<le> unat (cluster_count (sb ef))"
    and clear: "\<forall>i < unat (cluster_count (sb ef)) - 2. \<not> BMAP_GET bm i"
  shows "exfat_find_used_sectors ef 0 0 = Some (1, 0, 0)"
proof -
  define n where "n = unat (cluster_count (sb ef))"
  have "n < 2 ^ 32" using unsigned_less [of "cluster_count (sb ef)"] by (simp add: n_def)
  have u: "unat (of_nat c - EXFAT_FIRST_DATA_CLUSTER :: u32) = c - 2" if "2 \<le> c" "c < n" for c
  proof -
    have c: "unat (of_nat c :: u32) = c"
      using that \<open>n < 2 ^ 32\<close> by (simp add: unsigned_of_nat take_bit_nat_eq_self)
    have "(2 :: u32) \<le> of_nat c" using that c by (simp add: word_le_nat_alt)
    then show ?thesis using c by (simp add: EXFAT_FIRST_DATA_CLUSTER_def unat_sub)
  qed
  have "\<not> BMAP_GET bm (unat (of_nat c - EXFAT_FIRST_DATA_CLUSTER :: u32))" if "2 \<le> c" "c < n" for c
    unfolding u [OF that] using clear that by (auto simp: n_def)
  then have "find (\<lambda>c. BMAP_GET bm (unat (of_nat c - EXFAT_FIRST_DATA_CLUSTER :: u32))) [2..<n] = None"
    by (simp add: find_None_iff)
  moreover have "unat (EXFAT_FIRST_DATA_CLUSTER - 1 + 1) = 2"
    by (simp add: EXFAT_FIRST_DATA_CLUSTER_def)
  ultimately have "find_used_clusters ef bm (EXFAT_FIRST_DATA_CLUSTER - 1) = None"
    unfolding find_used_clusters_def Let_def n_def by simp
  then show ?thesis by (simp add: exfat_find_used_sectors_def bm)
qed

text \<open>A volume of 64 clusters of which the last is in use.\<close>

definition last_used_fs :: "unit exfat" where
  "last_used_fs = (blank_fs ())\<lparr>sb_block := replicate 0x5c 0 @ [64, 0, 0, 0] @ replicate 0x1a0 0,
     cmap_chunk := Some [0x8000000000000000]\<rparr>"

lemma bit_one_shift: "bit (push_bit k 1 :: u64) i \<longleftrightarrow> i = k \<and> k < 64"
  by (auto simp: bit_simps)

lemma last_two_clusters_are_not_reported_witness:
  "exfat_find_used_sectors last_used_fs 0 0 = Some (1, 0, 0) \<and> BMAP_GET [0x8000000000000000] 63"
proof -
  have n: "unat (cluster_count (sb last_used_fs)) = 64"
    by (simp add: sb_def sb_of_bytes_def last_used_fs_def rd32_def)
  have e: "(0x8000000000000000 :: u64) = push_bit 63 1" by simp
  have g: "BMAP_GET [0x8000000000000000] i \<longleftrightarrow> i = 63" if "i < 64" for i
  proof -
    have "bit (0x8000000000000000 :: u64) i \<longleftrightarrow> i = 63" unfolding e bit_one_shift by simp
    then show ?thesis using that by (simp add: BMAP_GET_bit)
  qed
  show ?thesis
    using last_two_clusters_are_not_reported [of last_used_fs "[0x8000000000000000]"] n g
    by (simp add: last_used_fs_def)
qed

end
