(* ===== verification/ExfatVolume.thy ===== *)
theory ExfatVolume
  imports ExfatMount ExfatAlloc
begin

text \<open>
  The interface between the library and its device: \<open>volume_os\<close>, a device of \<open>cap\<close> bytes whose
  reads return what it holds and whose writes change exactly the bytes written. Inside it, what
  the reading operations return is computed from the medium alone.
\<close>

section \<open>The interface\<close>

locale volume_os =
  fixes os :: "'d exfat_os" and ready :: "'d \<Rightarrow> bool" and img :: "'d \<Rightarrow> medium" and cap :: int
  assumes open_law: "ready d \<Longrightarrow> \<exists>d'. os_open os mode d = (True, d') \<and> ready d' \<and> img d' = img d"
    and mode_law: "ready d \<Longrightarrow> os_mode os d = EXFAT_MODE_RW"
    and size_law: "ready d \<Longrightarrow> os_size os d = cap"
    and pread_law: "ready d \<Longrightarrow> 0 \<le> off \<Longrightarrow> off + int n \<le> cap \<Longrightarrow> n < 2 ^ 31 \<Longrightarrow>
      \<exists>d'. os_pread os n off d = (int n, mread (img d) (nat off) n, d') \<and> ready d' \<and> img d' = img d"
    and pwrite_law: "ready d \<Longrightarrow> 0 \<le> off \<Longrightarrow> off + int (length bs) \<le> cap \<Longrightarrow> length bs < 2 ^ 31 \<Longrightarrow>
      \<exists>d'. os_pwrite os bs off d = (int (length bs), d') \<and> ready d' \<and> img d' = mwrite (img d) (nat off) bs"
    and fsync_law: "ready d \<Longrightarrow> \<exists>d'. os_fsync os d = (0, d') \<and> ready d' \<and> img d' = img d"
    and malloc_law: "ready d \<Longrightarrow> os_malloc os n d"

section \<open>Sizes of a sane super block\<close>

definition sb_sane :: "exfat_super_block \<Rightarrow> bool" where
  "sb_sane b \<longleftrightarrow> 9 \<le> unat (sb_sector_bits b) \<and> unat (sb_sector_bits b) + unat (sb_spc_bits b) \<le> 25"

lemma sane_sizes:
  assumes "sb_sane b"
  shows "512 \<le> CLUSTER_SIZE b" "CLUSTER_SIZE b \<le> 33554432" "512 \<le> SECTOR_SIZE b"
    "SECTOR_SIZE b \<le> CLUSTER_SIZE b" "uint (cluster_size64 b) = CLUSTER_SIZE b"
    "unat (cluster_size64 b) = nat (CLUSTER_SIZE b)"
proof -
  define i k where "i = unat (sb_sector_bits b)" and "k = unat (sb_spc_bits b)"
  have b: "9 \<le> i" "i + k \<le> 25" using assms by (simp_all add: sb_sane_def i_def k_def)
  have e: "CLUSTER_SIZE b = 2 ^ (i + k)" "SECTOR_SIZE b = 2 ^ i"
    by (simp_all add: CLUSTER_SIZE_def SECTOR_SIZE_def power_add i_def k_def)
  have p: "(2 :: int) ^ 9 \<le> 2 ^ i" "(2 :: int) ^ i \<le> 2 ^ (i + k)" "(2 :: int) ^ (i + k) \<le> 2 ^ 25"
    by (rule power_increasing; use b in simp)+
  have "512 \<le> CLUSTER_SIZE b \<and> CLUSTER_SIZE b \<le> 33554432 \<and> 512 \<le> SECTOR_SIZE b
    \<and> SECTOR_SIZE b \<le> CLUSTER_SIZE b" unfolding e using p order_trans [OF p(1,2)] by simp
  then show c: "512 \<le> CLUSTER_SIZE b" "CLUSTER_SIZE b \<le> 33554432" "512 \<le> SECTOR_SIZE b"
    "SECTOR_SIZE b \<le> CLUSTER_SIZE b" by blast+
  then show "uint (cluster_size64 b) = CLUSTER_SIZE b"
    unfolding cluster_size64_def by (intro uint_of_int_small) auto
  show "unat (cluster_size64 b) = nat (CLUSTER_SIZE b)"
    unfolding cluster_size64_def using c by (intro unat_of_int_small) auto
qed

definition heap_offset :: "exfat_super_block \<Rightarrow> int" where
  "heap_offset b = uint (cluster_sector_start b) * SECTOR_SIZE b"

lemma c2o_eq:
  assumes "2 \<le> c"
  shows "exfat_c2o ef c = Some (heap_offset (sb ef) + (uint c - 2) * CLUSTER_SIZE (sb ef))"
proof -
  have "uint c = uint (c - 2) + 2"
    using assms by (simp add: uint_sub_lem [THEN iffD1] word_le_def)
  moreover have "\<not> c < 2" using assms by (simp add: not_less)
  ultimately show ?thesis
    by (simp add: exfat_c2o_def c2s_def s2o_def EXFAT_FIRST_DATA_CLUSTER_def heap_offset_def
        CLUSTER_SIZE_def SECTOR_SIZE_def algebra_simps)
qed

lemma set_node_same: "nodes ef n = Some nd \<Longrightarrow> set_node n nd ef = ef"
  by (simp add: set_node_def fun_upd_idem)

section \<open>Reading\<close>

context volume_os
begin

text \<open>\<open>read_on ef ef'\<close>: only the device's own state differs, and it holds the same medium.\<close>

definition read_on :: "'d exfat \<Rightarrow> 'd exfat \<Rightarrow> bool" where
  "read_on ef ef' \<longleftrightarrow> (\<exists>d. ef' = ef\<lparr>dev := d\<rparr> \<and> ready d \<and> img d = img (dev ef))"

lemma read_onI: "ready d \<Longrightarrow> img d = img (dev ef) \<Longrightarrow> read_on ef (ef\<lparr>dev := d\<rparr>)"
  by (auto simp: read_on_def)

lemma read_on_refl: "ready (dev ef) \<Longrightarrow> read_on ef ef"
  unfolding read_on_def by (intro exI [of _ "dev ef"]) simp

lemma read_on_trans: "read_on a b \<Longrightarrow> read_on b c \<Longrightarrow> read_on a c"
  by (auto simp: read_on_def)

lemma read_on_fields:
  assumes "read_on ef ef'"
  shows "sb ef' = sb ef" "nodes ef' = nodes ef" "root ef' = root ef" "ready (dev ef')"
    "img (dev ef') = img (dev ef)" "upcase ef' = upcase ef" "ro ef' = ro ef" "noatime ef' = noatime ef"
    "cmap_chunk ef' = cmap_chunk ef" "repair ef' = repair ef" "sb_block ef' = sb_block ef"
    "label ef' = label ef" "cmap_size ef' = cmap_size ef"
  using assms by (auto simp: read_on_def)

lemma next_cluster_read:
  assumes r: "ready (dev ef)" and nd: "nodes ef n = Some nd" "\<not> is_contiguous nd"
    and c: "2 \<le> c" and fo: "0 \<le> fat_offset ef c" "fat_offset ef c + 4 \<le> cap"
  shows "\<exists>ef'. exfat_next_cluster os n c ef
      = Some (rd32 (mread (img (dev ef)) (nat (fat_offset ef c)) 4), ef') \<and> read_on ef ef'"
proof -
  obtain d' where "os_pread os 4 (fat_offset ef c) (dev ef)
      = (int 4, mread (img (dev ef)) (nat (fat_offset ef c)) 4, d')" "ready d'" "img d' = img (dev ef)"
    using pread_law [OF r fo(1), of 4] fo(2) by auto
  moreover have "\<not> c < EXFAT_FIRST_DATA_CLUSTER"
    using c by (simp add: EXFAT_FIRST_DATA_CLUSTER_def not_less)
  ultimately show ?thesis
    using nd by (auto simp: exfat_next_cluster_def intro!: read_onI)
qed

text \<open>A read inside the first cluster of a directory whose chain has just been rewound.\<close>

lemma read_first_cluster:
  assumes r: "ready (dev ef)" and s: "sb_sane (sb ef)"
    and nd: "nodes ef n = Some nd" "fptr_index nd = 0" "fptr_cluster nd = c" "\<not> is_contiguous nd"
      "attrib nd AND EXFAT_ATTRIB_DIR \<noteq> 0" "valid_size nd = node_size nd"
      "uint (node_size nd) = CLUSTER_SIZE (sb ef)"
    and c: "\<not> CLUSTER_INVALID (sb ef) c" "exfat_c2o ef c = Some pos" "0 \<le> pos"
      "pos + CLUSTER_SIZE (sb ef) \<le> cap"
    and fo: "0 \<le> fat_offset ef c" "fat_offset ef c + 4 \<le> cap"
    and off: "0 \<le> off" "0 < len" "off + int len \<le> CLUSTER_SIZE (sb ef)"
  shows "\<exists>ef'. exfat_generic_pread os n (of_nat len) off ef
    = Some (Inr (mread (img (dev ef)) (nat (pos + off)) len), ef') \<and> read_on ef ef'"
proof -
  note z = sane_sizes [OF s]
  define cs where "cs = CLUSTER_SIZE (sb ef)"
  have cs: "uint (cluster_size64 (sb ef)) = cs" "cs \<le> 33554432" "512 \<le> cs"
    using z by (simp_all add: cs_def)
  have uo: "uint (word_of_int off :: u64) = off"
    by (rule uint_of_int_small) (use off cs cs_def in auto)
  have ul: "uint (of_nat len :: u64) = int len"
    using off cs by (simp add: unsigned_of_nat take_bit_nat_eq_self cs_def)
  have ns: "uint (node_size nd) = cs" using nd(7) by (simp add: cs_def)
  have lt: "off < cs" using off by (simp add: cs_def)
  have sum: "uint (word_of_int off + of_nat len :: u64) = off + int len"
    using off cs by (subst uint_add_lem [THEN iffD1]) (simp_all add: uo ul cs_def)
  have n1: "\<not> node_size nd \<le> word_of_int off" "(of_nat len :: u64) \<noteq> 0"
    "\<not> valid_size nd < word_of_int off + of_nat len"
    using lt off ns by (auto simp: word_le_def word_less_def uo sum nd(6) cs_def word_uint_eq_iff ul)
  have dv: "(word_of_int off :: u64) div cluster_size64 (sb ef) = 0"
    and md: "uint ((word_of_int off :: u64) mod cluster_size64 (sb ef)) = off"
    using lt off by (simp_all add: word_uint_eq_iff uint_div uint_mod uo cs)
  have "uint (node_size nd - word_of_int off) = cs - off"
    using lt off(1) by (subst uint_sub_lem [THEN iffD1]) (simp_all add: uo ns)
  then have mn: "sint (min (of_nat len) (node_size nd - word_of_int off)) = int len"
  proof -
    assume "uint (node_size nd - word_of_int off) = cs - off"
    then have "min (of_nat len) (node_size nd - word_of_int off) = of_nat len"
      using off by (simp add: min_def word_le_def ul cs_def)
    moreover have "sint (of_nat len :: u64) = int len"
      using off cs by (intro sint_of_nat_small) (simp add: cs_def)
    ultimately show ?thesis by simp
  qed
  have adv: "exfat_advance_cluster os n 0 ef = Some (c, ef)"
    using nd(1-3) by (simp add: exfat_advance_cluster_def set_node_same)
  obtain d' where d: "os_pread os len (pos + off) (dev ef)
      = (int len, mread (img (dev ef)) (nat (pos + off)) len, d')" "ready d'" "img d' = img (dev ef)"
    using pread_law [OF r, of "pos + off" len] off c z(2) by auto
  define ef1 where "ef1 = ef\<lparr>dev := d'\<rparr>"
  have r1: "read_on ef ef1" using d by (simp add: ef1_def read_onI)
  have "2 \<le> c" using valid_clusterE(1) [OF c(1)] .
  then obtain x ef2 where n2: "exfat_next_cluster os n c ef1 = Some (x, ef2)" "read_on ef1 ef2"
    using next_cluster_read [of ef1 n nd c] nd fo d by (auto simp: ef1_def fat_offset_def s2o_def)
  have loop0: "pread_loop os n 0 0 x bs ef2 = Some (Inr bs, ef2)" for bs
    by (subst pread_loop.simps) simp
  have "min (cs - off) (int len) = int len" using off by (simp add: cs_def)
  then have loop: "pread_loop os n off (int len) c [] ef
      = Some (Inr (mread (img (dev ef)) (nat (pos + off)) len), ef2)"
    using off(2) c(1,2) d(1) n2(1) loop0
    by (subst pread_loop.simps) (simp add: cs_def ef1_def)
  have "nodes ef2 n = Some nd" using read_on_trans [OF r1 n2(2)] nd(1) by (simp add: read_on_fields)
  then have "exfat_generic_pread os n (of_nat len) off ef
      = Some (Inr (mread (img (dev ef)) (nat (pos + off)) len), ef2)"
    using off(1) nd(1,5) n1 adv loop c(1)
    by (subst exfat_generic_pread.simps) (simp add: dv md mn)
  then show ?thesis using read_on_trans [OF r1 n2(2)] by blast
qed

end

end
