(* ===== verification/ExfatEntries.thy ===== *)
theory ExfatEntries
  imports ExfatDir ExfatAlloc
begin

text \<open>
  Directory entry sets: which sequences of entry types \<open>check_entries\<close> accepts, and that the
  entries the library writes for a new file, or for a changed one, are read back as what it holds
  in memory.
\<close>

section \<open>The sequence of entry types\<close>

lemmas entry_types = EXFAT_ENTRY_FILE_def EXFAT_ENTRY_FILE_INFO_def EXFAT_ENTRY_FILE_NAME_def
  EXFAT_ENTRY_FILE_TAIL_def

lemma uint_not_none [simp]: "uint (t :: u8) \<noteq> - 1"
proof
  assume "uint t = - 1"
  moreover have "0 \<le> uint t" by simp
  ultimately show False by simp
qed

lemma transition_from_tail:
  assumes "0xe0 \<le> (t :: u8)"
  shows "valid_transition (uint t) c \<longleftrightarrow> 0xe0 \<le> c \<or> c = -1"
proof -
  have "0xe0 \<le> uint t" "uint t < 256" "0 \<le> uint t"
    using assms unsigned_less [of t] by (simp_all add: word_le_def)
  then show ?thesis by (auto simp: valid_transition_def entry_types)
qed

lemma tails_accepted:
  assumes "0xe0 \<le> (t :: u8)"
  shows "check_transitions (uint t) (map uint ts @ [-1]) \<longleftrightarrow> list_all ((\<le>) EXFAT_ENTRY_FILE_TAIL) ts"
  using assms
proof (induction ts arbitrary: t)
  case (Cons u ts)
  then show ?case
    by (auto simp: transition_from_tail entry_types word_le_def)
qed (simp add: transition_from_tail)

lemma names_accepted:
  "check_transitions (uint EXFAT_ENTRY_FILE_NAME) (map uint ts @ [-1])
    \<longleftrightarrow> (\<exists>k tails. ts = replicate k EXFAT_ENTRY_FILE_NAME @ tails
          \<and> list_all ((\<le>) EXFAT_ENTRY_FILE_TAIL) tails)"
proof (induction ts)
  case Nil
  then show ?case by (simp add: valid_transition_def entry_types)
next
  case (Cons t ts)
  have v: "valid_transition (uint EXFAT_ENTRY_FILE_NAME) (uint t)
      \<longleftrightarrow> t = EXFAT_ENTRY_FILE_NAME \<or> EXFAT_ENTRY_FILE_TAIL \<le> t"
    by (auto simp: valid_transition_def entry_types word_le_def word_uint_eq_iff)
  have n: "\<not> EXFAT_ENTRY_FILE_TAIL \<le> EXFAT_ENTRY_FILE_NAME" by (simp add: entry_types)
  have split: "(\<exists>k tails. t # ts = replicate k EXFAT_ENTRY_FILE_NAME @ tails
        \<and> list_all ((\<le>) EXFAT_ENTRY_FILE_TAIL) tails)
    \<longleftrightarrow> (EXFAT_ENTRY_FILE_TAIL \<le> t \<and> list_all ((\<le>) EXFAT_ENTRY_FILE_TAIL) ts)
      \<or> (t = EXFAT_ENTRY_FILE_NAME \<and> (\<exists>k tails. ts = replicate k EXFAT_ENTRY_FILE_NAME @ tails
          \<and> list_all ((\<le>) EXFAT_ENTRY_FILE_TAIL) tails))" (is "?l = ?r")
  proof
    assume ?l
    then obtain k tails where k: "t # ts = replicate k EXFAT_ENTRY_FILE_NAME @ tails"
      "list_all ((\<le>) EXFAT_ENTRY_FILE_TAIL) tails" by blast
    then show ?r by (cases k) auto
  next
    assume ?r
    then show ?l
    proof
      assume "EXFAT_ENTRY_FILE_TAIL \<le> t \<and> list_all ((\<le>) EXFAT_ENTRY_FILE_TAIL) ts"
      then show ?l by (intro exI [of _ 0] exI [of _ "t # ts"]) simp
    next
      assume "t = EXFAT_ENTRY_FILE_NAME \<and> (\<exists>k tails. ts = replicate k EXFAT_ENTRY_FILE_NAME @ tails
          \<and> list_all ((\<le>) EXFAT_ENTRY_FILE_TAIL) tails)"
      then obtain k tails where "t = EXFAT_ENTRY_FILE_NAME" "ts = replicate k EXFAT_ENTRY_FILE_NAME @ tails"
        "list_all ((\<le>) EXFAT_ENTRY_FILE_TAIL) tails" by blast
      then show ?l by (intro exI [of _ "Suc k"] exI [of _ tails]) simp
    qed
  qed
  show ?case
    unfolding split
    using v n Cons.IH tails_accepted [of t ts] by (auto simp: entry_types)
qed

lemma check_transitions_start:
  "check_transitions (-1) (map uint ts @ [-1]) \<longleftrightarrow>
    (\<exists>k tails. ts = EXFAT_ENTRY_FILE # EXFAT_ENTRY_FILE_INFO
          # replicate (Suc k) EXFAT_ENTRY_FILE_NAME @ tails
        \<and> list_all ((\<le>) EXFAT_ENTRY_FILE_TAIL) tails)"
proof -
  have s: "valid_transition (-1) (uint t) \<longleftrightarrow> t = EXFAT_ENTRY_FILE"
    "valid_transition (uint EXFAT_ENTRY_FILE) (uint t) \<longleftrightarrow> t = EXFAT_ENTRY_FILE_INFO"
    "valid_transition (uint EXFAT_ENTRY_FILE_INFO) (uint t) \<longleftrightarrow> t = EXFAT_ENTRY_FILE_NAME" for t
    by (simp_all add: valid_transition_def entry_types word_uint_eq_iff)
  have e: "\<not> valid_transition (-1) (-1)" "\<not> valid_transition (uint EXFAT_ENTRY_FILE) (-1)"
    "\<not> valid_transition (uint EXFAT_ENTRY_FILE_INFO) (-1)"
    by (simp_all add: valid_transition_def entry_types)
  consider "ts = []" | a where "ts = [a]" | a b where "ts = [a, b]"
    | a b c r where "ts = a # b # c # r" by (metis list.exhaust)
  then show ?thesis
  proof cases
    case 4
    then show ?thesis
      using s names_accepted [of r] by auto
  qed (use s e in auto)
qed

section \<open>Names in entries\<close>

lemma u16s_units: "u16s (concat (map le16 us)) = us"
proof (induction us)
  case (Cons w us)
  have "u16s (le16 w @ xs) = w # u16s xs" for xs
    using rd16_le16 [of w] by (simp add: le16_def)
  then show ?case using Cons by simp
qed simp

lemma length_units [simp]: "length (concat (map le16 us)) = 2 * length us"
  by (induction us) simp_all

lemma concat_segs: "k * m \<le> length xs \<Longrightarrow> concat (map (\<lambda>i. seg (i * m) m xs) [0..<k]) = take (k * m) xs"
proof (induction k)
  case (Suc k)
  then have "concat (map (\<lambda>i. seg (i * m) m xs) [0..<k]) = take (k * m) xs" by simp
  then show ?case using take_add [of "k * m" m xs] by (simp add: seg_def add.commute)
qed simp

lemma DIV_ROUND_UP_15: "DIV_ROUND_UP (int n) 15 = int ((n + 14) div 15)"
  by (simp add: DIV_ROUND_UP_pos zdiv_int)

text \<open>A name as the functions take it: a C array of 256 units.\<close>

definition name_array :: "u16 list \<Rightarrow> u16 list" where
  "name_array us = us @ replicate (256 - length us) 0"

definition good_name :: "u16 list \<Rightarrow> bool" where
  "good_name us \<longleftrightarrow> 0 < length us \<and> length us \<le> 255 \<and> 0 \<notin> set us"

lemma name_array_length: "good_name us \<Longrightarrow> exfat_utf16_length (name_array us) = length us"
proof -
  assume g: "good_name us"
  then have "takeWhile (\<lambda>c. c \<noteq> 0) (us @ replicate (256 - length us) 0)
      = us @ takeWhile (\<lambda>c. c \<noteq> 0) (replicate (256 - length us) 0)"
    by (intro takeWhile_append2) (auto simp: good_name_def)
  then show ?thesis using g by (simp add: exfat_utf16_length_def name_array_def good_name_def)
qed

lemma name_entries_shape:
  assumes "good_name us"
  defines "k \<equiv> name_entry_count (name_array us)"
  shows "k = (length us + 14) div 15" "0 < k" "k \<le> 17"
    "length (name_entries (name_array us)) = k"
    "map (\<lambda>e. e ! 0) (name_entries (name_array us)) = replicate k EXFAT_ENTRY_FILE_NAME"
    "concat (map (\<lambda>e. u16s (seg 2 30 e)) (name_entries (name_array us))) = take (k * 15) (name_array us)"
    "\<And>e. e \<in> set (name_entries (name_array us)) \<Longrightarrow> length e = 32"
proof -
  show k: "k = (length us + 14) div 15"
    using name_array_length [OF assms(1)] by (simp add: k_def name_entry_count_def)
  have "1 \<le> length us" "length us \<le> 255" using assms(1) by (auto simp: good_name_def Suc_le_eq)
  then show b: "0 < k" "k \<le> 17" unfolding k by linarith+
  have l: "length (name_array us) = 256" using assms(1) by (simp add: name_array_def good_name_def)
  have s: "length (seg (i * 15) 15 (name_array us)) = 15" if "i < k" for i
    using that b l by (intro length_seg) simp
  show "length (name_entries (name_array us)) = k" by (simp add: name_entries_def k_def)
  show "map (\<lambda>e. e ! 0) (name_entries (name_array us)) = replicate k EXFAT_ENTRY_FILE_NAME"
    by (rule nth_equalityI) (simp_all add: name_entries_def k_def)
  show "length e = 32" if "e \<in> set (name_entries (name_array us))" for e
    using that s by (auto simp: name_entries_def k_def [symmetric])
  have "map (\<lambda>e. u16s (seg 2 30 e)) (name_entries (name_array us))
      = map (\<lambda>i. seg (i * 15) 15 (name_array us)) [0..<k]"
  proof (rule nth_equalityI)
    fix i
    assume "i < length (map (\<lambda>e. u16s (seg 2 30 e)) (name_entries (name_array us)))"
    then have i: "i < k" by (simp add: name_entries_def k_def)
    then have "seg 2 30 ([EXFAT_ENTRY_FILE_NAME, 0] @ concat (map le16 (seg (i * 15) 15 (name_array us))))
        = concat (map le16 (seg (i * 15) 15 (name_array us)))"
      using s [OF i] by (simp add: seg_def [of 2 30])
    then show "map (\<lambda>e. u16s (seg 2 30 e)) (name_entries (name_array us)) ! i
        = map (\<lambda>i. seg (i * 15) 15 (name_array us)) [0..<k] ! i"
      using i by (simp add: name_entries_def k_def [symmetric] u16s_units)
  qed (simp add: name_entries_def k_def)
  then show "concat (map (\<lambda>e. u16s (seg 2 30 e)) (name_entries (name_array us))) = take (k * 15) (name_array us)"
    using concat_segs [of k 15 "name_array us"] b l by simp
qed

lemma name_restored:
  assumes "good_name us" "length us \<le> m" "m \<le> 256"
  shows "patch 0 (take m (name_array us)) (replicate 256 0) = name_array us"
    "patch 0 (take (length us) (name_array us)) (replicate 256 0) = name_array us"
proof -
  have l: "length us \<le> 255" using assms(1) by (simp add: good_name_def)
  have p: "take m (name_array us) = us @ replicate (m - length us) 0"
    using assms by (simp add: name_array_def min_def)
  have "us @ replicate (m - length us) 0 @ replicate (256 - m) 0 = name_array us"
    using assms by (simp add: name_array_def replicate_add [symmetric])
  then show "patch 0 (take m (name_array us)) (replicate 256 0) = name_array us"
    using assms by (simp add: p patch_def)
  show "patch 0 (take (length us) (name_array us)) (replicate 256 0) = name_array us"
    using l by (simp add: name_array_def patch_def)
qed

section \<open>A file that was just created\<close>

lemma with_checksum_keeps:
  assumes "\<And>x. x \<in> set es \<Longrightarrow> length x = 32" "length e = 32"
  shows "exfat_calc_checksum (with_checksum (e # es)) (length (with_checksum (e # es)))
    = exfat_calc_checksum (e # es) (length (e # es))"
proof -
  have "exfat_start_checksum (patch 2 (le16 w) e) = exfat_start_checksum e" for w
    using assms(2) by (intro start_checksum_cong) (auto simp: nth_patch)
  then show ?thesis
    using assms(1) by (simp add: with_checksum_def calc_checksum_bytes)
qed

lemma rd16_patch: "length e = 32 \<Longrightarrow> rd16 (drop 2 (patch 2 (le16 w) e)) = w"
  by (simp add: patch_def)

lemma length_new_meta:
  "length (new_meta1 tz now name attribs) = 32" "length (new_meta2 up name) = 32"
  by (simp_all add: new_meta1_def new_meta2_def Let_def split: prod.split)

lemma patch_2_nth: "length e = 32 \<Longrightarrow> i < 32 \<Longrightarrow> i < 2 \<or> 4 \<le> i \<Longrightarrow> patch 2 (le16 w) e ! i = e ! i"
  by (auto simp: nth_patch)

lemma new_entries_shape:
  assumes "good_name us" and k_def: "k = (length us + 14) div 15"
    and es_def: "es = new_entries tz now up (name_array us) attribs"
  shows "es = es ! 0 # es ! 1 # name_entries (name_array us)"
    "es ! 0 = patch 2 (le16 (exfat_calc_checksum es (length es))) (new_meta1 tz now (name_array us) attribs)"
    "es ! 1 = new_meta2 up (name_array us)" "length es = k + 2"
    "map (\<lambda>e. e ! 0) es = EXFAT_ENTRY_FILE # EXFAT_ENTRY_FILE_INFO # replicate k EXFAT_ENTRY_FILE_NAME"
    "es ! 0 ! 1 = 1 + of_nat k"
proof -
  note ne = name_entries_shape [OF assms(1)]
  have k: "name_entry_count (name_array us) = k" using ne(1) by (simp add: k_def)
  define raw where "raw = [new_meta1 tz now (name_array us) attribs, new_meta2 up (name_array us)]
    @ name_entries (name_array us)"
  have es: "es = with_checksum raw" by (simp add: es_def new_entries_def raw_def)
  have ck: "exfat_calc_checksum es (length es) = exfat_calc_checksum raw (length raw)"
    unfolding es raw_def append.simps
    by (rule with_checksum_keeps) (use ne(7) in \<open>auto simp: length_new_meta\<close>)
  have h: "es = patch 2 (le16 (exfat_calc_checksum raw (length raw)))
      (new_meta1 tz now (name_array us) attribs) # new_meta2 up (name_array us) # name_entries (name_array us)"
    by (simp add: es with_checksum_def raw_def)
  show "es = es ! 0 # es ! 1 # name_entries (name_array us)" by (subst h) (simp add: h)
  show e0: "es ! 0 = patch 2 (le16 (exfat_calc_checksum es (length es)))
      (new_meta1 tz now (name_array us) attribs)"
    unfolding ck by (simp add: h)
  show "es ! 1 = new_meta2 up (name_array us)" by (simp add: h)
  show "length es = k + 2" using ne(4) by (simp add: h k)
  have m: "new_meta1 tz now (name_array us) attribs ! 0 = EXFAT_ENTRY_FILE"
    "new_meta1 tz now (name_array us) attribs ! 1 = 1 + of_nat k"
    "new_meta2 up (name_array us) ! 0 = EXFAT_ENTRY_FILE_INFO"
    by (simp_all add: new_meta1_def new_meta2_def Let_def k split: prod.split)
  show "map (\<lambda>e. e ! 0) es = EXFAT_ENTRY_FILE # EXFAT_ENTRY_FILE_INFO # replicate k EXFAT_ENTRY_FILE_NAME"
    using m ne(5) by (simp add: h k patch_2_nth length_new_meta)
  show "es ! 0 ! 1 = 1 + of_nat k" using m by (simp add: h patch_2_nth length_new_meta)
qed

lemma of_nat_u8: "n < 256 \<Longrightarrow> uint (of_nat n :: u8) = int n"
  by (simp add: unsigned_of_nat take_bit_nat_eq_self)

lemma new_node_fields:
  assumes "good_name us" and es: "es = new_entries tz now up (name_array us) attribs"
  shows "init_node_name (drop 2 es) ((length us + 14) div 15)
      (init_node_meta2 (es ! 1) (init_node_meta1 tz (es ! 0) (zero_node\<lparr>entry_offset := off\<rparr>)))
    = new_node tz es (name_array us) off zero_node"
    and "node_fields_ok b (new_node tz es (name_array us) off zero_node)"
proof -
  define k where "k = (length us + 14) div 15"
  note ne = name_entries_shape [OF assms(1), folded name_array_length [OF assms(1)]]
  note sh = new_entries_shape [OF assms(1) k_def es]
  have d: "drop 2 es = name_entries (name_array us)" by (subst sh(1)) simp
  have n: "concat (map (\<lambda>e. u16s (seg 2 30 e)) (name_entries (name_array us)))
      = take (15 * k) (name_array us)" "length (name_entries (name_array us)) = k"
    using name_entries_shape(1,4,6) [OF assms(1)] by (simp_all add: k_def mult.commute)
  have kb: "length us \<le> 15 * k" "15 * k \<le> 256"
  proof -
    show "length us \<le> 15 * k" unfolding k_def by linarith
    show "15 * k \<le> 256" using name_entries_shape(1,3) [OF assms(1)] by (simp add: k_def)
  qed
  have p: "patch 0 (take (15 * k) (name_array us)) (replicate 256 0)
      = patch 0 (take (length us) (name_array us)) (replicate 256 0)"
    using name_restored [OF assms(1) kb] by simp
  show "init_node_name (drop 2 es) ((length us + 14) div 15)
      (init_node_meta2 (es ! 1) (init_node_meta1 tz (es ! 0) (zero_node\<lparr>entry_offset := off\<rparr>)))
    = new_node tz es (name_array us) off zero_node"
    unfolding d init_node_name_def k_def [symmetric]
    using n p name_array_length [OF assms(1)]
    by (simp add: new_node_def init_node_meta2_def init_node_meta1_def zero_node_def)
  have z: "rd32 (le32 0) = 0" "rd64 (le64 0) = 0" by (rule rd32_le32, rule rd64_le64)
  have "rd64 (drop 8 (new_meta2 up (name_array us))) = 0"
    "rd64 (drop 24 (new_meta2 up (name_array us))) = 0"
    "rd32 (drop 20 (new_meta2 up (name_array us))) = 0"
    "new_meta2 up (name_array us) ! 1 = EXFAT_FLAG_ALWAYS1"
    using z by (simp_all add: new_meta2_def Let_def EXFAT_CLUSTER_FREE_def)
  then show "node_fields_ok b (new_node tz es (name_array us) off zero_node)"
    by (simp add: node_fields_ok_def new_node_def sh(3) init_node_meta2_def Let_def
        EXFAT_CLUSTER_FREE_def EXFAT_FLAG_ALWAYS1_def EXFAT_FLAG_CONTIGUOUS_def del: One_nat_def)
qed

section \<open>Fields of a patched entry\<close>

lemma rd_patch_same:
  "off + 2 \<le> length b \<Longrightarrow> rd16 (drop off (patch off (le16 w) b)) = w"
  "off + 4 \<le> length b \<Longrightarrow> rd32 (drop off (patch off (le32 v) b)) = v"
  "off + 8 \<le> length b \<Longrightarrow> rd64 (drop off (patch off (le64 u) b)) = u"
  by (simp_all add: patch_def)

lemma rd_patch_other:
  assumes "off + length xs \<le> length b"
  shows "a + 2 \<le> length b \<Longrightarrow> a + 2 \<le> off \<or> off + length xs \<le> a
      \<Longrightarrow> rd16 (drop a (patch off xs b)) = rd16 (drop a b)"
    "a + 4 \<le> length b \<Longrightarrow> a + 4 \<le> off \<or> off + length xs \<le> a
      \<Longrightarrow> rd32 (drop a (patch off xs b)) = rd32 (drop a b)"
    "a + 8 \<le> length b \<Longrightarrow> a + 8 \<le> off \<or> off + length xs \<le> a
      \<Longrightarrow> rd64 (drop a (patch off xs b)) = rd64 (drop a b)"
proof -
  have n: "drop a (patch off xs b) ! i = drop a b ! i"
    if "i < m" "a + m \<le> length b" "a + m \<le> off \<or> off + length xs \<le> a" for i m
    using that assms by (auto simp: nth_patch)
  show "rd16 (drop a (patch off xs b)) = rd16 (drop a b)"
    if "a + 2 \<le> length b" "a + 2 \<le> off \<or> off + length xs \<le> a"
    unfolding rd16_def using n [OF _ that] by simp
  show "rd32 (drop a (patch off xs b)) = rd32 (drop a b)"
    if "a + 4 \<le> length b" "a + 4 \<le> off \<or> off + length xs \<le> a"
    unfolding rd32_def using n [OF _ that] by simp
  show "rd64 (drop a (patch off xs b)) = rd64 (drop a b)"
    if "a + 8 \<le> length b" "a + 8 \<le> off \<or> off + length xs \<le> a"
    unfolding rd64_def using n [OF _ that] by simp
qed

lemmas patched_fields = rd_patch_same rd_patch_other nth_patch

lemma flush_meta2_fields:
  assumes "length meta2 = 32"
  shows "init_node_meta2 (flush_meta2 nd meta2) x = x\<lparr>valid_size := valid_size nd,
    node_size := node_size nd, start_cluster := start_cluster nd, fptr_cluster := start_cluster nd,
    is_contiguous := is_contiguous nd \<and> node_size nd \<noteq> 0\<rparr>"
  using assms
  by (simp add: init_node_meta2_def flush_meta2_def Let_def patched_fields
      EXFAT_FLAG_ALWAYS1_def EXFAT_FLAG_CONTIGUOUS_def conj_commute)

lemma flush_meta1_fields:
  assumes "length meta1 = 32" and w: "exfat_unix2exfat tz (mtime nd) = (md, mt, mcs, mtzo)"
    "exfat_unix2exfat tz (atime nd) = (ad, at, acs, atzo)"
  shows "init_node_meta1 tz' (patch 2 (le16 ck) (flush_meta1 tz nd meta1)) x = x\<lparr>attrib := attrib nd,
    continuations := meta1 ! 1, mtime := exfat_exfat2unix tz' md mt mcs mtzo,
    atime := exfat_exfat2unix tz' ad at 0 atzo\<rparr>"
  using assms(1)
  by (simp add: init_node_meta1_def flush_meta1_def Let_def w patched_fields)

text \<open>What the entries of a new file say, field by field.\<close>

lemma new_meta1_fields:
  assumes "exfat_unix2exfat tz now = (ed, et, cs, tzo)" and m: "m = new_meta1 tz now name attribs"
  shows "rd16 (drop 4 m) = attribs" "rd16 (drop 8 m) = et" "rd16 (drop 10 m) = ed"
    "rd16 (drop 12 m) = et" "rd16 (drop 14 m) = ed" "rd16 (drop 16 m) = et" "rd16 (drop 18 m) = ed"
    "m ! 20 = cs" "m ! 21 = cs" "m ! 22 = tzo" "m ! 23 = tzo" "m ! 24 = tzo" "length m = 32"
  using assms(1) by (simp_all add: m new_meta1_def nth_append)

lemma patched_checksum:
  assumes "length m = 32"
  shows "4 \<le> a \<Longrightarrow> a + 2 \<le> 32 \<Longrightarrow> rd16 (drop a (patch 2 (le16 ck) m)) = rd16 (drop a m)"
    "4 \<le> i \<Longrightarrow> i < 32 \<Longrightarrow> patch 2 (le16 ck) m ! i = m ! i"
  using assms by (simp_all add: patched_fields)

lemma created_node_fields:
  assumes us: "good_name us" and es: "es = new_entries tz now up (name_array us) attribs"
    and nd: "nd = new_node tz es (name_array us) off zero_node"
  shows "attrib nd = attribs" "node_name nd = us @ replicate (256 - length us) 0"
    "uint (continuations nd) = 1 + int ((length us + 14) div 15)"
    "start_cluster nd = EXFAT_CLUSTER_FREE" "node_size nd = 0" "valid_size nd = 0"
    "\<not> is_contiguous nd" "entry_offset nd = off"
proof -
  define k where "k = (length us + 14) div 15"
  note sh = new_entries_shape [OF us k_def es]
  obtain ed et cs tzo where w: "exfat_unix2exfat tz now = (ed, et, cs, tzo)" by (metis prod.exhaust)
  note m = new_meta1_fields [OF w refl, of "name_array us" attribs]
  show "attrib nd = attribs"
    by (simp add: nd new_node_def init_node_meta2_def init_node_meta1_def sh(2) patched_checksum m)
  show "node_name nd = us @ replicate (256 - length us) 0"
    unfolding name_array_def [symmetric] using name_restored(2) [OF us order_refl] us
    by (simp add: nd new_node_def init_node_meta2_def init_node_meta1_def zero_node_def
        name_array_length [OF us] good_name_def)
  have "k \<le> 17" using name_entries_shape(1,3) [OF us] by (simp add: k_def)
  moreover have "(1 + of_nat k :: u8) = of_nat (1 + k)" by simp
  ultimately have "uint (1 + of_nat k :: u8) = 1 + int k" using of_nat_u8 [of "1 + k"] by simp
  then show "uint (continuations nd) = 1 + int ((length us + 14) div 15)"
    by (simp add: nd new_node_def init_node_meta2_def init_node_meta1_def sh(6) [unfolded One_nat_def] k_def [symmetric])
  have z: "rd32 (le32 0) = 0" "rd64 (le64 0) = 0" by (rule rd32_le32, rule rd64_le64)
  show "start_cluster nd = EXFAT_CLUSTER_FREE" "node_size nd = 0" "valid_size nd = 0" "\<not> is_contiguous nd"
    using z by (simp_all add: nd new_node_def init_node_meta2_def sh(3) [unfolded One_nat_def] new_meta2_def Let_def
        EXFAT_CLUSTER_FREE_def EXFAT_FLAG_ALWAYS1_def EXFAT_FLAG_CONTIGUOUS_def)
  show "entry_offset nd = off"
    by (simp add: nd new_node_def init_node_meta2_def init_node_meta1_def)
qed

lemma created_node_times:
  assumes us: "good_name us" and es: "es = new_entries tz now up (name_array us) attribs"
    and nd: "nd = new_node tz es (name_array us) off zero_node"
    and tz: "tz = 900 * k" "- 63 \<le> k" "k \<le> 64"
    and t: "EPOCH_DIFF_SEC + tz \<le> now" "now < EPOCH_DIFF_SEC + tz + 46752 * SEC_IN_DAY"
  shows "mtime nd = now" "atime nd = now - now mod 2"
    "exfat_exfat2unix tz' (rd16 (drop 10 (es ! 0))) (rd16 (drop 8 (es ! 0))) (es ! 0 ! 20) (es ! 0 ! 22) = now"
proof -
  obtain ed et cs tzo where w: "exfat_unix2exfat tz now = (ed, et, cs, tzo)" by (metis prod.exhaust)
  note sh = new_entries_shape [OF us refl es] and m = new_meta1_fields [OF w refl, of "name_array us" attribs]
  show "mtime nd = now" "atime nd = now - now mod 2"
    using unix2exfat_read_back [OF t tz w] unix2exfat_read_even [OF t tz w]
    by (simp_all add: nd new_node_def init_node_meta2_def init_node_meta1_def sh(2) patched_checksum m)
  show "exfat_exfat2unix tz' (rd16 (drop 10 (es ! 0))) (rd16 (drop 8 (es ! 0))) (es ! 0 ! 20) (es ! 0 ! 22) = now"
    using unix2exfat_read_back [OF t tz w] by (simp add: sh(2) patched_checksum m)
qed

lemma file_entries_parse:
  fixes ef :: "'d exfat"
  assumes us: "good_name us" and n: "nodes ef n = Some (zero_node\<lparr>entry_offset := off\<rparr>)"
    and es: "es = new_entries (exfat_timezone ef) now up (name_array us) attribs"
  shows "parse_file_entries os n es ef
    = Some (EOK, set_node n (new_node (exfat_timezone ef) es (name_array us) off zero_node) ef)"
proof -
  define k where "k = (length us + 14) div 15"
  note sh = new_entries_shape [OF us k_def es] and nf = new_node_fields [OF us es]
  have k: "0 < k" "k \<le> 17" using name_entries_shape(1-3) [OF us] by (simp_all add: k_def)
  obtain j where j: "k = Suc j" using k(1) by (cases k) auto
  have c: "check_entries es"
  proof -
    have "check_transitions (-1) (map uint (map (\<lambda>e. e ! 0) es) @ [-1])"
      unfolding check_transitions_start sh(5) j by (intro exI [of _ j] exI [of _ "[]"]) simp
    then show ?thesis by (simp add: check_entries_def comp_def)
  qed
  have conts: "uint (es ! 0 ! 1) = 1 + int k"
  proof -
    have "(1 + of_nat k :: u8) = of_nat (1 + k)" by simp
    then show ?thesis using k of_nat_u8 [of "1 + k"] by (simp only: sh(6))
  qed
  have "length us < 256" using us by (simp add: good_name_def)
  then have len: "uint (es ! 1 ! 3) = int (length us)"
    using of_nat_u8 [of "length us"] name_array_length [OF us]
    by (simp add: sh(3) new_meta2_def Let_def del: One_nat_def)
  have flags: "es ! 1 ! 1 AND NOT (EXFAT_FLAG_ALWAYS1 OR EXFAT_FLAG_CONTIGUOUS) = 0"
    by (simp add: sh(3) new_meta2_def Let_def EXFAT_FLAG_ALWAYS1_def EXFAT_FLAG_CONTIGUOUS_def
        del: One_nat_def)
  have ck: "rd16 (drop 2 (es ! 0)) = exfat_calc_checksum es (length es)"
    unfolding sh(2) by (rule rd16_patch) (rule length_new_meta)
  have dru: "nat (2 + DIV_ROUND_UP (int (length us)) 15 - 2) = k"
    "DIV_ROUND_UP (int (length us)) 15 = int k"
    by (simp_all add: DIV_ROUND_UP_15 k_def)
  have chk: "check_node os n (exfat_calc_checksum es (length es)) (es ! 0)
      (set_node n (new_node (exfat_timezone ef) es (name_array us) off zero_node) ef)
    = Some (True, set_node n (new_node (exfat_timezone ef) es (name_array us) off zero_node) ef)"
    using nf(2) by (simp add: check_node_def ck)
  show ?thesis
    unfolding parse_file_entries_def Let_def len dru
    using c conts k flags n nf(1) [folded k_def, of off] chk by simp
qed

section \<open>Properties\<close>

text \<open>C22: \<open>check_entries\<close> accepts exactly the sets of one file entry, one file-info entry, one or
  more name entries and then any number of entries of the optional types.\<close>

theorem check_entries_accepts_exactly:
  "check_entries entries \<longleftrightarrow>
    (\<exists>k tails. map (\<lambda>e. e ! 0) entries = EXFAT_ENTRY_FILE # EXFAT_ENTRY_FILE_INFO
          # replicate (Suc k) EXFAT_ENTRY_FILE_NAME @ tails
        \<and> list_all ((\<le>) EXFAT_ENTRY_FILE_TAIL) tails)"
  using check_transitions_start [of "map (\<lambda>e. e ! 0) entries"]
  by (simp add: check_entries_def comp_def)

text \<open>C19: The entries written for a new file read back as the file: parsing them succeeds, without
  repairs, and builds the very node that creating the file put into the cache, with the attributes
  asked for, the name, one entry more than its name needs behind the first, no clusters and size
  0. If the time zone is a multiple of 15 minutes that fits the field on disk and the time of the
  creation lies between 1980 and 2107, the time of modification is that time, the time of access
  is that time to two seconds, its resolution on disk, and the time of creation, which the library
  does not read, is on disk as well.\<close>

theorem created_file_reads_back:
  fixes ef :: "'d exfat"
  assumes us: "good_name us" and n: "nodes ef n = Some (zero_node\<lparr>entry_offset := off\<rparr>)"
    and es: "es = new_entries (exfat_timezone ef) now up (name_array us) attribs"
    and nd: "nd = new_node (exfat_timezone ef) es (name_array us) off zero_node"
  shows "parse_file_entries os n es ef = Some (EOK, set_node n nd ef)
    \<and> attrib nd = attribs \<and> node_name nd = us @ replicate (256 - length us) 0
    \<and> uint (continuations nd) = 1 + int ((length us + 14) div 15)
    \<and> start_cluster nd = EXFAT_CLUSTER_FREE \<and> node_size nd = 0 \<and> valid_size nd = 0
    \<and> \<not> is_contiguous nd \<and> entry_offset nd = off
    \<and> (\<forall>k. exfat_timezone ef = 900 * k \<and> - 63 \<le> k \<and> k \<le> 64
          \<and> EPOCH_DIFF_SEC + exfat_timezone ef \<le> now
          \<and> now < EPOCH_DIFF_SEC + exfat_timezone ef + 46752 * SEC_IN_DAY \<longrightarrow>
        mtime nd = now \<and> atime nd = now - now mod 2
        \<and> exfat_exfat2unix tz' (rd16 (drop 10 (es ! 0))) (rd16 (drop 8 (es ! 0))) (es ! 0 ! 20) (es ! 0 ! 22) = now)"
  using file_entries_parse [OF us n es] created_node_fields [OF us es nd] created_node_times [OF us es nd]
  by (simp add: nd)

lemma good_name_a: "good_name [0x61]"
  by (simp add: good_name_def)

definition one_node_fs :: "unit exfat" where
  "one_node_fs = (blank_fs ())\<lparr>nodes := (\<lambda>_. None)(5 \<mapsto> zero_node\<lparr>entry_offset := 96\<rparr>)\<rparr>"

lemma created_file_reads_back_witness:
  "\<exists>nd. parse_file_entries no_os 5 (new_entries 0 1700000001 [] (name_array [0x61]) EXFAT_ATTRIB_ARCH) one_node_fs
    = Some (EOK, set_node 5 nd one_node_fs)
    \<and> attrib nd = EXFAT_ATTRIB_ARCH \<and> mtime nd = 1700000001 \<and> atime nd = 1700000000"
proof -
  have f: "nodes one_node_fs 5 = Some (zero_node\<lparr>entry_offset := 96\<rparr>)" "exfat_timezone one_node_fs = 0"
    by (simp_all add: one_node_fs_def blank_fs_def)
  have t: "exfat_timezone one_node_fs = 900 * 0 \<and> - 63 \<le> (0 :: int) \<and> (0 :: int) \<le> 64
      \<and> EPOCH_DIFF_SEC + exfat_timezone one_node_fs \<le> 1700000001
      \<and> 1700000001 < EPOCH_DIFF_SEC + exfat_timezone one_node_fs + 46752 * SEC_IN_DAY"
    by (simp add: f(2) time_consts cdiv_simps)
  show ?thesis
    using created_file_reads_back [OF good_name_a f(1) refl refl, where now = 1700000001 and up = "[]"
        and attribs = EXFAT_ATTRIB_ARCH and os = no_os] t
    unfolding f(2) by fastforce
qed

text \<open>The metadata \<open>exfat_flush_node\<close> writes for a node reads back as the node, in any reader's
  time zone: attributes, both sizes, first cluster, both times (the access time to two seconds, its
  resolution on disk), and the contiguous flag except for an empty file, which is never marked.\<close>

theorem flushed_metadata_reads_back:
  assumes len: "length meta1 = 32" "length meta2 = 32"
    and tz: "tz = 900 * k" "- 63 \<le> k" "k \<le> 64"
    and m: "EPOCH_DIFF_SEC + tz \<le> mtime nd" "mtime nd < EPOCH_DIFF_SEC + tz + 46752 * SEC_IN_DAY"
    and a: "EPOCH_DIFF_SEC + tz \<le> atime nd" "atime nd < EPOCH_DIFF_SEC + tz + 46752 * SEC_IN_DAY"
      "even (atime nd)"
  shows "init_node_meta2 (flush_meta2 nd meta2)
      (init_node_meta1 tz' (patch 2 (le16 ck) (flush_meta1 tz nd meta1)) x)
    = x\<lparr>attrib := attrib nd, continuations := meta1 ! 1, mtime := mtime nd, atime := atime nd,
        valid_size := valid_size nd, node_size := node_size nd, start_cluster := start_cluster nd,
        fptr_cluster := start_cluster nd, is_contiguous := is_contiguous nd \<and> node_size nd \<noteq> 0\<rparr>"
proof -
  obtain md mt mcs mtzo where w1: "exfat_unix2exfat tz (mtime nd) = (md, mt, mcs, mtzo)"
    by (metis prod.exhaust)
  obtain ad at acs atzo where w2: "exfat_unix2exfat tz (atime nd) = (ad, at, acs, atzo)"
    by (metis prod.exhaust)
  have "even (EPOCH_DIFF_SEC + tz)" by (simp add: time_consts cdiv_simps tz(1))
  then have "(atime nd - (EPOCH_DIFF_SEC + tz)) mod 2 = 0" using a(3) by (simp flip: even_iff_mod_2_eq_zero)
  then have "acs = 0"
    using w2 a(1) by (auto simp: exfat_unix2exfat_def Let_def cdiv_simps split: prod.splits)
  then have "exfat_exfat2unix tz' ad at 0 atzo = atime nd"
    using unix2exfat_read_back [OF a(1,2) tz w2, of tz'] by simp
  then show ?thesis
    using unix2exfat_read_back [OF m tz w1, of tz']
    by (simp add: flush_meta1_fields [OF len(1) w1 w2] flush_meta2_fields [OF len(2)])
qed

definition dated_node :: exfat_node where
  "dated_node = zero_node\<lparr>attrib := EXFAT_ATTRIB_ARCH, mtime := 1700000001, atime := 1700000000,
     node_size := 9, valid_size := 9, start_cluster := 7, is_contiguous := True\<rparr>"

lemma flushed_metadata_reads_back_witness:
  "mtime (init_node_meta2 (flush_meta2 dated_node (replicate 32 0))
      (init_node_meta1 0 (patch 2 (le16 5) (flush_meta1 (- 7200) dated_node (replicate 32 0))) zero_node))
    = 1700000001"
proof -
  have "EPOCH_DIFF_SEC = 315532800" "SEC_IN_DAY = 86400"
    by (simp_all add: time_consts cdiv_simps)
  then show ?thesis
    by (subst flushed_metadata_reads_back [where k = "- 8"]) (simp_all add: dated_node_def)
qed

end
