(* ===== verification/ExfatNames.thy ===== *)
theory ExfatNames
  imports ExfatEntries
begin

text \<open>
  Names and paths: what the decompressed up-case table holds, when two names are the same to the
  file system, and which paths \<open>exfat_split\<close> cannot take.
\<close>

section \<open>The decompressed table\<close>

lemma length_decompress_loop [simp]: "length (decompress_loop src oi out) = length out"
  by (induction src oi out rule: decompress_loop.induct) auto

lemma decompress_keeps: "j < oi \<Longrightarrow> decompress_loop src oi out ! j = out ! j"
  by (induction src oi out rule: decompress_loop.induct) auto

lemma decompress_prefix:
  assumes "0xffff \<notin> set xs" "oi + length xs \<le> 0x10000" "length out = 0x10000"
  shows "decompress_loop (xs @ ys) oi out = decompress_loop ys (oi + length xs) (patch oi xs out)"
  using assms
proof (induction xs arbitrary: oi out)
  case (Cons x xs)
  have "patch (oi + 1) xs (out[oi := x]) = patch oi (x # xs) out"
    using Cons.prems by (intro nth_equalityI) (auto simp: nth_patch nth_list_update nth_Cons')
  then show ?case using Cons by simp
qed simp

lemma decompress_plain:
  assumes "0xffff \<notin> set xs" "length xs \<le> 0x10000" "c < length xs"
  shows "decompress_upcase (xs @ ys) ! c = xs ! c"
proof -
  have "decompress_upcase (xs @ ys)
      = decompress_loop ys (length xs) (patch 0 xs (map of_nat [0..<0x10000]))"
    using decompress_prefix [OF assms(1), of 0 "map of_nat [0..<0x10000]" ys] assms(2)
    by (simp add: decompress_upcase_def)
  then show ?thesis using assms(2,3) decompress_keeps [of c "length xs" ys] by (simp add: nth_patch)
qed

definition ascii_upper :: "u16 \<Rightarrow> u16" where
  "ascii_upper c = (if 0x61 \<le> c \<and> c \<le> 0x7a then c - 0x20 else c)"

lemma first_units:
  "take 128 (u16s upcase_table_0) = map (\<lambda>c. ascii_upper (of_nat c)) [0..<128]"
  by code_simp

lemma u16s_append: "even (length xs) \<Longrightarrow> u16s (xs @ ys) = u16s xs @ u16s ys"
  by (induction xs rule: u16s.induct) auto

definition mkfs_upcase :: "u16 list" where
  "mkfs_upcase = decompress_upcase (u16s upcase_table)"

lemma mkfs_upcase_ascii:
  assumes "c < 128"
  shows "mkfs_upcase ! c = ascii_upper (of_nat c)"
proof -
  have even0: "even (length upcase_table_0)" by code_simp
  define xs where "xs = take 128 (u16s upcase_table_0)"
  have u: "u16s upcase_table = xs @ drop 128 (u16s upcase_table_0)
      @ u16s (upcase_table_1 @ upcase_table_2 @ upcase_table_3 @ upcase_table_4 @ upcase_table_5)"
    unfolding upcase_table_def u16s_append [OF even0] xs_def by simp
  have xs: "xs = map (\<lambda>c. ascii_upper (of_nat c)) [0..<128]" unfolding xs_def by (rule first_units)
  have "0xffff \<noteq> ascii_upper (of_nat c)" if "c < 128" for c
  proof -
    have w: "(of_nat c :: u16) < 128" using that by (simp add: word_less_nat_alt unsigned_of_nat take_bit_nat_eq_self)
    then show ?thesis unfolding ascii_upper_def by (auto simp: word_less_nat_alt unat_sub word_le_nat_alt)
  qed
  then have "0xffff \<notin> set xs" by (auto simp: xs)
  moreover have "length xs = 128" by (simp add: xs)
  ultimately show ?thesis
    unfolding mkfs_upcase_def u using assms decompress_plain [of xs c] by (simp add: xs)
qed

section \<open>Comparing names\<close>

lemma compare_name_fold:
  assumes "0 \<notin> set a" "0 \<notin> set b" and up: "up ! 0 = (0 :: u16)"
    and nz: "\<And>c. c \<in> set a \<union> set b \<Longrightarrow> up ! unat c \<noteq> 0"
  shows "\<exists>r. compare_name up (a @ 0 # x) (b @ 0 # y) = Some r
    \<and> (r = 0 \<longleftrightarrow> map (\<lambda>c. up ! unat c) a = map (\<lambda>c. up ! unat c) b)"
  using assms(1,2) nz
proof (induction a arbitrary: b)
  case Nil
  then show ?case
    by (cases b) (auto simp: compare_char_def up word_uint_eq_iff)
next
  case (Cons c a)
  show ?case
  proof (cases b)
    case Nil
    have "uint (up ! unat c) \<noteq> 0" using Cons.prems(3) [of c] by (simp add: word_uint_eq_iff)
    then show ?thesis using Cons.prems by (simp add: Nil compare_char_def up)
  next
    case (Cons d b')
    have "\<exists>r. compare_name up (a @ 0 # x) (b' @ 0 # y) = Some r
        \<and> (r = 0 \<longleftrightarrow> map (\<lambda>c. up ! unat c) a = map (\<lambda>c. up ! unat c) b')"
      using Cons.IH [of b'] Cons.prems by (simp add: Cons)
    then show ?thesis
      using Cons.prems by (auto simp: Cons compare_char_def Let_def word_uint_eq_iff)
  qed
qed

section \<open>Paths\<close>

text \<open>The components of a path, as \<open>get_comp\<close> cuts them.\<close>

function components :: "bytes \<Rightarrow> bytes list" where
  "components path =
    (case get_comp path of (p, n) \<Rightarrow> if n = 0 then [] else take n p # components (drop n p))"
  by pat_completeness auto
termination
  by (relation "measure length") (use get_comp_shorter in force)+

declare components.simps [simp del]

lemma split_needs_a_name:
  "components path = [] \<or> last (components path) = [0x2e]
    \<Longrightarrow> (case split_from os path par ef of None \<Rightarrow> True | Some (r, ef') \<Rightarrow> isl r)
      \<and> (list_all ((=) [0x2e]) (components path) \<longrightarrow> split_from os path par ef = None)"
proof (induction path arbitrary: par ef rule: length_induct)
  case (1 path)
  obtain p n where g: "get_comp path = (p, n)" by fastforce
  show ?case
  proof (cases "n = 0")
    case True
    then show ?thesis by (simp add: split_from.simps [of os path] g)
  next
    case n: False
    have c: "components path = take n p # components (drop n p)"
      using n by (simp add: components.simps [of path] g)
    have IH: "components (drop n p) = [] \<or> last (components (drop n p)) = [0x2e]
        \<Longrightarrow> (case split_from os (drop n p) node ef' of None \<Rightarrow> True | Some (r, ef') \<Rightarrow> isl r)
          \<and> (list_all ((=) [0x2e]) (components (drop n p)) \<longrightarrow> split_from os (drop n p) node ef' = None)"
      for node ef'
      using 1 get_comp_shorter [OF g n] by blast
    have last_p: "is_last_comp p n \<longleftrightarrow> components (drop n p) = []"
      by (simp add: is_last_comp_def components.simps [of "drop n p"] split: prod.split)
    show ?thesis
    proof (cases "n = 1 \<and> p ! 0 = 0x2e")
      case True
      moreover have "components (drop n p) = [] \<or> last (components (drop n p)) = [0x2e]"
        using "1.prems" c by (auto split: if_splits)
      ultimately show ?thesis using n IH c by (auto simp: split_from.simps [of os path] g)
    next
      case dot: False
      have "n \<le> length p"
        using g by (auto simp: get_comp_def Let_def intro: length_takeWhile_le)
      then have "take n p \<noteq> [0x2e]" using dot n by (cases p; cases n; auto)
      then have "components (drop n p) \<noteq> []" "last (components (drop n p)) = [0x2e]"
        using "1.prems" c by (auto split: if_splits)
      then have "isl r" if "split_from os (drop n p) node ef' = Some (r, ef'')" for node ef' r ef''
        using IH [of node ef'] that by simp
      then show ?thesis using n dot last_p c \<open>take n p \<noteq> [0x2e]\<close> \<open>components (drop n p) \<noteq> []\<close>
        by (auto simp: split_from.simps [of os path] g split: option.split sum.split)
    qed
  qed
qed

section \<open>Properties\<close>

text \<open>With the up-case table the formatter writes, decompressed as the library does it, two
  names of ASCII characters are the same name exactly when they differ in nothing but the case of
  the letters a to z. The comparison stops inside both names.\<close>

theorem ascii_names_compare_ignoring_case:
  assumes "list_all (\<lambda>c. 0 < c \<and> c < 128) a" "list_all (\<lambda>c. 0 < c \<and> c < 128) b"
  shows "\<exists>r. compare_name mkfs_upcase (a @ 0 # x) (b @ 0 # y) = Some r
    \<and> (r = 0 \<longleftrightarrow> map ascii_upper a = map ascii_upper b)"
proof -
  have up: "mkfs_upcase ! unat c = ascii_upper c" if "c < 128" for c
    using mkfs_upcase_ascii [of "unat c"] that by (simp add: word_less_nat_alt)
  have up0: "mkfs_upcase ! 0 = 0" using up [of 0] by (simp add: ascii_upper_def)
  have nz: "ascii_upper c \<noteq> 0" if "0 < c" for c
    using that by (auto simp: ascii_upper_def word_le_nat_alt word_less_nat_alt)
  have s: "map (\<lambda>c. mkfs_upcase ! unat c) s = map ascii_upper s" "0 \<notin> set s"
    "c \<in> set s \<Longrightarrow> mkfs_upcase ! unat c \<noteq> 0"
    if "list_all (\<lambda>c. 0 < c \<and> c < 128) s" for s c
    using that up nz by (auto simp: list_all_iff)
  have "\<exists>r. compare_name mkfs_upcase (a @ 0 # x) (b @ 0 # y) = Some r
    \<and> (r = 0 \<longleftrightarrow> map (\<lambda>c. mkfs_upcase ! unat c) a = map (\<lambda>c. mkfs_upcase ! unat c) b)"
    using s(2,3) [OF assms(1)] s(2,3) [OF assms(2)] up0 by (intro compare_name_fold) auto
  then show ?thesis by (simp only: s(1) [OF assms(1)] s(1) [OF assms(2)])
qed

lemma ascii_names_compare_ignoring_case_witness:
  "compare_name mkfs_upcase [0x61, 0x42, 0] [0x41, 0x62, 0] = Some 0"
  using ascii_names_compare_ignoring_case [of "[0x61, 0x42]" "[0x41, 0x62]" "[]" "[]"]
  by (auto simp: ascii_upper_def)

text \<open>For a path whose last component is a dot, or that has no component at all, \<open>exfat_split\<close>
  never delivers a parent and a name: it fails on an earlier component or runs out of components
  and stops the program in the \<open>exfat_bug\<close> it calls impossible. A path of dots and slashes only
  always does the latter.\<close>

theorem split_stops_on_a_final_dot:
  assumes "components path = [] \<or> last (components path) = [0x2e]"
  shows "(case exfat_split os path ef of None \<Rightarrow> True | Some (r, ef') \<Rightarrow> isl r)
    \<and> (list_all ((=) [0x2e]) (components path) \<longrightarrow> exfat_split os path ef = None)"
  using split_needs_a_name [OF assms]
  by (cases "exfat_get_node (root ef) ef") (auto simp: exfat_split_def)

lemma split_stops_on_a_final_dot_witness:
  "exfat_split no_os [0x2f, 0x2e, 0x2f, 0x2f, 0x2e] one_node_fs = None"
proof -
  have "components [0x2f, 0x2e, 0x2f, 0x2f, 0x2e] = [[0x2e], [0x2e]]"
    by (simp add: components.simps get_comp_def)
  then show ?thesis
    using split_stops_on_a_final_dot [of "[0x2f, 0x2e, 0x2f, 0x2f, 0x2e]" no_os one_node_fs] by simp
qed

end
