(* ===== verification/ExfatFormatted.thy ===== *)
theory ExfatFormatted
  imports ExfatVbr ExfatVolume ExfatNames
begin

text \<open>
  A freshly formatted volume as the library finds it: FAT entries, the root directory and its
  entries, the up-case table and the bitmap, read from \<open>mkfs_image\<close> at the places the super block
  leads to.
\<close>

section \<open>The super block\<close>

lemma init_sb_sizes:
  assumes wf: "mkfs_wf p"
  shows "SECTOR_SIZE (init_sb p) = 512" "CLUSTER_SIZE (init_sb p) = get_cluster_size p"
    "sb_sane (init_sb p)" "super_block_readable (init_sb p)"
proof -
  have spc: "p_spc_bits p \<le> 16" "p_sector_bits p = 9" using wf by (simp_all add: mkfs_wf_def)
  then have u: "unat (sb_sector_bits (init_sb p)) = 9" "unat (sb_spc_bits (init_sb p)) = p_spc_bits p"
    by (simp_all add: init_sb_def Let_def unsigned_of_nat take_bit_nat_eq_self)
  show "SECTOR_SIZE (init_sb p) = 512" by (simp add: SECTOR_SIZE_def u)
  then show "CLUSTER_SIZE (init_sb p) = get_cluster_size p"
    using wf_sizes(2) [OF wf] by (simp add: CLUSTER_SIZE_def u)
  show "sb_sane (init_sb p)" using spc by (simp add: sb_sane_def u)
  have "\<not> sb_sector_bits (init_sb p) < 9" using u(1) by (simp add: word_less_nat_alt)
  then show "super_block_readable (init_sb p)"
    using spc by (simp add: super_block_readable_def u) (simp add: init_sb_def Let_def oem_exfat_def)
qed

definition first_clusters :: "mkfs_param \<Rightarrow> nat \<times> nat" where
  "first_clusters p = (2 + nat (clusters_of p (cbm_size p)),
     2 + nat (clusters_of p (cbm_size p)) + nat (clusters_of p 5836))"

lemma heap_offset_init_sb:
  assumes wf: "mkfs_wf p" and ck: "check_size p (p_volume_size p) = 0"
  shows "heap_offset (init_sb p) = heap_start p"
  using boot_fields(3) [OF wf ck] init_sb_sizes(1) [OF wf] by (simp add: heap_offset_def)

lemma valid_cluster:
  assumes wf: "mkfs_wf p" and ck: "check_size p (p_volume_size p) = 0"
    and c: "2 \<le> uint c" "uint c < heap_clusters p + 2"
  shows "\<not> CLUSTER_INVALID (init_sb p) c" "2 \<le> c"
proof -
  show c2: "2 \<le> c" using c(1) by (simp add: word_le_def)
  then have "uint (c - 2) = uint c - 2" by (simp add: uint_sub_lem [THEN iffD1] word_le_def)
  then show "\<not> CLUSTER_INVALID (init_sb p) c"
    using c c2 boot_fields(4) [OF wf ck]
    by (simp add: CLUSTER_INVALID_def EXFAT_FIRST_DATA_CLUSTER_def word_less_def word_le_def)
qed

section \<open>The FAT\<close>

lemma seg_concat_le32: "c < length xs \<Longrightarrow> seg (4 * c) 4 (concat (map le32 xs)) = le32 (xs ! c)"
proof (induction xs arbitrary: c)
  case (Cons x xs)
  show ?case
  proof (cases c)
    case 0
    then show ?thesis by (simp add: seg_def)
  next
    case (Suc k)
    then have "seg (4 * c) 4 (concat (map le32 (x # xs))) = seg (4 * k) 4 (concat (map le32 xs))"
      by (simp add: seg_def)
    then show ?thesis using Cons Suc by simp
  qed
qed simp

lemma fat_entry_read:
  assumes wf: "mkfs_wf p" and ck: "check_size p (p_volume_size p) = 0"
    and lb: "15 \<le> length (p_volume_label p)" and c: "c < length (fat_table p)"
  shows "mread (mkfs_image p m) (65536 + 4 * c) 4 = le32 (fat_table p ! c)"
proof -
  have "mread (mkfs_image p m) 65536 (length (object_bytes p FAT)) = object_bytes p FAT"
    using object_at [OF wf ck lb, of m FAT] position_VBR_FAT_CBM(2) [OF wf]
    by (simp del: object_bytes.simps)
  then have "seg (4 * c) 4 (mread (mkfs_image p m) 65536 (length (object_bytes p FAT)))
      = le32 (fat_table p ! c)"
    using seg_concat_le32 [OF c] by simp
  moreover have "4 * c + 4 \<le> length (object_bytes p FAT)" using c by simp
  ultimately show ?thesis by (simp add: seg_mread del: object_bytes.simps)
qed

lemma root_fat_entry:
  assumes wf: "mkfs_wf p" and ck: "check_size p (p_volume_size p) = 0"
  shows "length (fat_table p) = snd (first_clusters p) + 1"
    "fat_table p ! snd (first_clusters p) = EXFAT_CLUSTER_END"
proof -
  have r: "ExfatMkfs.rootdir_size p = get_cluster_size p" "uct_size p = 5836"
    by (simp_all add: ExfatMkfs.rootdir_size_def uct_size_def length_upcase_table)
  define a b where "a = nat (clusters_of p (cbm_size p))" and "b = nat (clusters_of p 5836)"
  define C where "C = fat_chain p (2 + of_nat (a + b)) (get_cluster_size p)"
  have C: "C = [EXFAT_CLUSTER_END]"
    using clusters_of_one [OF wf] by (simp add: C_def fat_chain_def Let_def)
  have t: "fat_table p = [0xfffffff8, 0xffffffff] @ fat_chain p 2 (cbm_size p)
      @ fat_chain p (2 + of_nat a) 5836 @ C"
    by (simp add: fat_table_def Let_def r a_def b_def C_def)
  show "length (fat_table p) = snd (first_clusters p) + 1"
    by (simp add: t C first_clusters_def a_def b_def)
  show "fat_table p ! snd (first_clusters p) = EXFAT_CLUSTER_END"
    by (simp add: t C first_clusters_def nth_append a_def b_def)
qed

section \<open>The root directory and the objects its entries lead to\<close>

lemma root_position:
  assumes wf: "mkfs_wf p" and ck: "check_size p (p_volume_size p) = 0"
  shows "65536 \<le> get_position p ROOTDIR"
    "get_position p ROOTDIR + get_cluster_size p \<le> p_volume_size p"
proof -
  note o = object_order [OF wf ck] and sz = sizes [OF wf]
  have "5836 = get_size p UCT" "get_cluster_size p = get_size p ROOTDIR" using sz by simp_all
  then show "65536 \<le> get_position p ROOTDIR"
    "get_position p ROOTDIR + get_cluster_size p \<le> p_volume_size p"
    using o(1,3-8) by linarith+
qed

lemma root_entries_read:
  assumes wf: "mkfs_wf p" and ck: "check_size p (p_volume_size p) = 0"
    and lb: "15 \<le> length (p_volume_label p)"
  defines "r \<equiv> nat (get_position p ROOTDIR)"
  shows "mread (mkfs_image p m) r 32 = init_label_entry p"
    "mread (mkfs_image p m) (r + 32) 32 = init_bitmap_entry p"
    "mread (mkfs_image p m) (r + 64) 32 = init_upcase_entry p"
    "96 \<le> i \<Longrightarrow> i + n \<le> nat (get_cluster_size p)
      \<Longrightarrow> mread (mkfs_image p m) (r + i) n = replicate n 0"
proof -
  have l: "length (object_bytes p ROOTDIR) = 96" by (rule object_lengths(5) [OF wf ck lb])
  have rd: "mread (mkfs_image p m) r 96 = init_label_entry p @ init_bitmap_entry p @ init_upcase_entry p"
    using object_at [OF wf ck lb, of m ROOTDIR] l by (simp add: r_def)
  have el: "length (init_bitmap_entry p) = 32" "length (init_upcase_entry p) = 32"
    by (simp_all add: init_bitmap_entry_def init_upcase_entry_def)
  then have ll: "length (init_label_entry p) = 32" using l by simp
  have part: "mread (mkfs_image p m) (r + a) 32 = seg a 32 (mread (mkfs_image p m) r 96)"
    if "a + 32 \<le> 96" for a using that by (simp add: seg_mread)
  show "mread (mkfs_image p m) r 32 = init_label_entry p"
    using part [of 0] ll unfolding rd by (simp add: seg_def)
  show "mread (mkfs_image p m) (r + 32) 32 = init_bitmap_entry p"
    using part [of 32] ll el unfolding rd by (simp add: seg_def)
  show "mread (mkfs_image p m) (r + 64) 32 = init_upcase_entry p"
    using part [of 64] ll el unfolding rd by (simp add: seg_def)
  show "mread (mkfs_image p m) (r + i) n = replicate n 0"
    if i: "96 \<le> i" "i + n \<le> nat (get_cluster_size p)"
  proof -
    note o = object_order [OF wf ck] and len = object_lengths [OF wf ck lb] and sz = sizes [OF wf]
    define Z where "Z = lay (objs_at p (\<lambda>pp. replicate (nat (get_size p pp)) 0)) m"
    have r: "int r = get_position p ROOTDIR" using root_position(1) [OF wf ck] by (simp add: r_def)
    have out: "b + length ys \<le> r + i"
      if "(b, ys) \<in> set (objs_at p (object_bytes p))" for b ys
      using that o len r i(1) sz(1,2,4,5) get_size.simps(3) [of p]
      by (auto simp: objs_at_def simp del: object_bytes.simps get_size.simps)
    have "mread (mkfs_image p m) (r + i) n = mread Z (r + i) n"
      unfolding mkfs_image_lay [OF wf ck] Z_def by (rule lay_outside) (use out in auto)
    also have "\<dots> = seg i n (mread Z r (nat (get_cluster_size p)))" using i(2) by (simp add: seg_mread)
    also have "mread Z r (nat (get_cluster_size p)) = replicate (nat (get_cluster_size p)) 0"
    proof -
      have "(r, replicate (nat (get_cluster_size p)) 0) \<in> set (objs_at p (\<lambda>pp. replicate (nat (get_size p pp)) 0))"
        using sz(5) by (simp add: objs_at_def r_def del: get_size.simps)
      from lay_reads [OF objects_ascending(2) [OF wf ck lb] this, of m] show ?thesis by (simp add: Z_def)
    qed
    finally show ?thesis using i(2) by (simp add: seg_def)
  qed
qed

text \<open>Cluster numbers of the objects, as the super block and the entries give them.\<close>

lemma object_clusters:
  assumes wf: "mkfs_wf p" and ck: "check_size p (p_volume_size p) = 0" and sb: "sb ef = init_sb p"
  shows "\<not> CLUSTER_INVALID (init_sb p) 2" "exfat_c2o ef 2 = Some (get_position p CBM)"
    "\<not> CLUSTER_INVALID (init_sb p) (rootdir_cluster (init_sb p))"
    "exfat_c2o ef (rootdir_cluster (init_sb p)) = Some (get_position p ROOTDIR)"
    "unat (rootdir_cluster (init_sb p)) = snd (first_clusters p)"
    "rd32 (drop 20 (init_upcase_entry p)) = c \<Longrightarrow> \<not> CLUSTER_INVALID (init_sb p) c
      \<and> exfat_c2o ef c = Some (get_position p UCT)"
proof -
  note hp = heap_positions [OF wf ck] and pos = position_VBR_FAT_CBM [OF wf]
    and b = boot_fields [OF wf ck] and s = wf_sizes [OF wf]
  define A B where "A = clusters_of p (cbm_size p)" and "B = clusters_of p 5836"
  have AB: "0 < A" "0 < B" "A + B + 1 \<le> heap_clusters p"
    using clusters_of_pos(1) [OF wf] heap_less_clusters(3) [OF wf ck] hp(3) by (simp_all add: A_def B_def)
  have at: "\<not> CLUSTER_INVALID (init_sb p) c
      \<and> exfat_c2o ef c = Some (heap_start p + (uint c - 2) * get_cluster_size p)"
    if "2 \<le> uint c" "uint c < heap_clusters p + 2" for c
    using valid_cluster [OF wf ck that] init_sb_sizes(2) [OF wf] heap_offset_init_sb [OF wf ck]
    by (simp add: c2o_eq sb)
  show "\<not> CLUSTER_INVALID (init_sb p) 2" "exfat_c2o ef 2 = Some (get_position p CBM)"
    using at [of 2] AB pos by simp_all
  have r: "uint (rootdir_cluster (init_sb p)) = A + B + 2" using b(5) by (simp add: A_def B_def)
  show "\<not> CLUSTER_INVALID (init_sb p) (rootdir_cluster (init_sb p))"
    "exfat_c2o ef (rootdir_cluster (init_sb p)) = Some (get_position p ROOTDIR)"
    using at [of "rootdir_cluster (init_sb p)"] AB hp(2) by (simp_all add: r A_def B_def)
  show "unat (rootdir_cluster (init_sb p)) = snd (first_clusters p)"
    unfolding unat_eq_nat_uint r using AB
    by (simp add: first_clusters_def A_def B_def nat_add_distrib)
  show "\<not> CLUSTER_INVALID (init_sb p) c \<and> exfat_c2o ef c = Some (get_position p UCT)"
    if c: "rd32 (drop 20 (init_upcase_entry p)) = c"
  proof -
    have "get_position p UCT - get_position p CBM = A * get_cluster_size p"
      using hp(1) by (simp add: pos A_def)
    then have "(get_position p UCT - get_position p CBM) sdiv get_cluster_size p = A"
      using AB(1) s(3) by (simp add: cdiv_simps)
    then have "c = word_of_int A + 2"
      using c by (simp add: init_upcase_entry_def EXFAT_FIRST_DATA_CLUSTER_def)
    moreover have "A < 0xfffffff6" using AB heap_less_clusters(2) [OF wf ck] s(7) by linarith
    ultimately have "uint c = A + 2"
      using AB(1) uint_of_int_small [of "A + 2", where 'a = 32] by simp
    then show ?thesis using at [of c] AB hp(1) by (simp add: A_def)
  qed
qed

end
