(* ===== verification/ExfatMountable.thy ===== *)
theory ExfatMountable
  imports ExfatFormatted ExfatBridge
begin

text \<open>
  The library mounts what the formatter produced: on a device that holds \<open>mkfs_image\<close>, the boot
  record's checksum is accepted, the root directory is one cluster, its three entries deliver the
  label, the bitmap and the up-case table, and there are no files.
\<close>

context volume_os
begin

section \<open>The boot record\<close>

lemma read_sector:
  assumes "ready (dev ef)" "SECTOR_SIZE (sb ef) = 512" "0 \<le> i" "i * 512 + 512 \<le> cap"
  obtains d where "os_pread os (nat (SECTOR_SIZE (sb ef))) (i * SECTOR_SIZE (sb ef)) (dev ef)
      = (512, mread (img (dev ef)) (nat (i * 512)) 512, d)" "read_on ef (ef\<lparr>dev := d\<rparr>)"
  using pread_law [OF assms(1), of "i * 512" 512] assms(2-4) by (auto intro: read_onI)

lemma vbr_sum_read:
  assumes "ready (dev ef)" "SECTOR_SIZE (sb ef) = 512" "\<And>i. i \<in> set is \<Longrightarrow> 0 \<le> i \<and> i * 512 + 512 \<le> cap"
  shows "\<exists>ef'. vbr_sum_loop os is c ef
      = (Some (foldl (\<lambda>c i. exfat_vbr_add_checksum (mread (img (dev ef)) (nat (i * 512)) 512) 512 c) c is), ef')
    \<and> read_on ef ef'"
  using assms
proof (induction "is" arbitrary: c ef)
  case Nil
  then show ?case by (simp add: read_on_refl)
next
  case (Cons i "is")
  obtain d where d: "os_pread os (nat (SECTOR_SIZE (sb ef))) (i * SECTOR_SIZE (sb ef)) (dev ef)
      = (512, mread (img (dev ef)) (nat (i * 512)) 512, d)" "read_on ef (ef\<lparr>dev := d\<rparr>)"
    using read_sector [of ef i] Cons.prems by auto
  note f = read_on_fields [OF d(2)]
  obtain ef' where "vbr_sum_loop os is (exfat_vbr_add_checksum (mread (img (dev ef)) (nat (i * 512)) 512) 512 c)
      (ef\<lparr>dev := d\<rparr>) = (Some (foldl (\<lambda>c i. exfat_vbr_add_checksum (mread (img (dev ef)) (nat (i * 512)) 512) 512 c)
         (exfat_vbr_add_checksum (mread (img (dev ef)) (nat (i * 512)) 512) 512 c) is), ef')"
    "read_on (ef\<lparr>dev := d\<rparr>) ef'"
    using Cons.IH [of "ef\<lparr>dev := d\<rparr>"
        "exfat_vbr_add_checksum (mread (img (dev ef)) (nat (i * 512)) 512) 512 c"] Cons.prems f
    by auto
  then show ?case
    using d Cons.prems(2) read_on_trans by (auto simp: Let_def)
qed

lemma vbr_check_read:
  assumes "\<And>i. i \<in> set is \<Longrightarrow> rd32 (drop (4 * i) sector) = c"
  shows "vbr_check_loop os c is sector ef = Some (True, ef)"
  using assms by (induction "is") auto

end

section \<open>The boot record's checksum\<close>

definition vbr_sectors :: "mkfs_param \<Rightarrow> bytes list" where
  "vbr_sectors p = sb_bytes (init_sb p) # replicate 8 (boot_sector p)
     @ replicate 2 (empty_sector p) @ [checksum_sector p]"

lemma seg_concat_sectors:
  "(\<And>x. x \<in> set xs \<Longrightarrow> length x = n) \<Longrightarrow> i < length xs \<Longrightarrow> seg (n * i) n (concat xs) = xs ! i"
proof (induction xs arbitrary: i)
  case (Cons x xs)
  then show ?case by (cases i) (auto simp: seg_def)
qed simp

lemma sector_read:
  assumes wf: "mkfs_wf p" and ck: "check_size p (p_volume_size p) = 0"
    and lb: "15 \<le> length (p_volume_label p)" and i: "i < 12"
  shows "mread (mkfs_image p m) (i * 512) 512 = vbr_sectors p ! i"
proof -
  have c: "object_bytes p VBR = concat (vbr_sectors p)" by (simp add: vbr_sectors_def)
  have "sb_wf (init_sb p)" by (simp add: sb_wf_def init_sb_def Let_def)
  then have l: "length x = 512" if "x \<in> set (vbr_sectors p)" for x
    using that wf_sizes(1) [OF wf]
    by (auto simp: vbr_sectors_def length_sb_bytes boot_sector_def empty_sector_def
        checksum_sector_def length_concat sum_list_replicate)
  have n: "i < length (vbr_sectors p)" using i by (simp add: vbr_sectors_def)
  have "seg (512 * i) 512 (mread (mkfs_image p m) 0 6144) = vbr_sectors p ! i"
    unfolding boot_record_read(2) [OF wf ck lb] c by (rule seg_concat_sectors [OF l n])
  then show ?thesis using i by (simp add: seg_mread mult.commute)
qed

lemma vbr_checksum_sum:
  assumes "mkfs_wf p"
  shows "foldl (\<lambda>c i. exfat_vbr_add_checksum (vbr_sectors p ! nat i) 512 c)
      (exfat_vbr_start_checksum (vbr_sectors p ! 0) 512) [1..10] = vbr_checksum p"
proof -
  have l: "[1..10] = [1, 2, 3, 4, 5, 6, 7, 8, 9, 10 :: int]" by (simp add: upto_rec1)
  have n: "vbr_sectors p ! Suc k = (if k < 8 then boot_sector p else empty_sector p)" if "k < 10" for k
    using that by (auto simp: vbr_sectors_def nth_append nth_Cons' less_Suc_eq numeral_2_eq_2)
  show ?thesis
    unfolding l using wf_sizes(1) [OF assms]
    by (simp add: vbr_checksum_def Let_def n eval_nat_numeral) (simp add: vbr_sectors_def)
qed

lemma checksum_sector_words:
  assumes "mkfs_wf p" "i < 128"
  shows "rd32 (drop (4 * i) (vbr_sectors p ! 11)) = vbr_checksum p"
proof -
  have s: "vbr_sectors p ! 11 = concat (replicate 128 (le32 (vbr_checksum p)))"
    using wf_sizes(1) [OF assms(1)] by (simp add: vbr_sectors_def checksum_sector_def nth_append)
  have "concat (replicate 128 (le32 (vbr_checksum p)))
      = concat (replicate i (le32 (vbr_checksum p))) @ le32 (vbr_checksum p)
        @ concat (replicate (127 - i) (le32 (vbr_checksum p)))"
  proof -
    have "(128 :: nat) = i + Suc (127 - i)" using assms(2) by simp
    then have "replicate 128 (le32 (vbr_checksum p))
        = replicate i (le32 (vbr_checksum p)) @ le32 (vbr_checksum p) # replicate (127 - i) (le32 (vbr_checksum p))"
      by (metis replicate_Suc replicate_add)
    then show ?thesis by simp
  qed
  then show ?thesis unfolding s by (simp add: length_concat sum_list_replicate mult.commute)
qed

section \<open>Reading the root directory\<close>

context volume_os
begin

text \<open>The state while the root directory, node \<open>r\<close>, of the freshly formatted volume is read.\<close>

definition at_root :: "mkfs_param \<Rightarrow> medium \<Rightarrow> nat \<Rightarrow> 'd exfat \<Rightarrow> bool" where
  "at_root p m r ef \<longleftrightarrow> ready (dev ef) \<and> img (dev ef) = mkfs_image p m \<and> sb ef = init_sb p
     \<and> (\<exists>nd. nodes ef r = Some nd \<and> fptr_index nd = 0
         \<and> fptr_cluster nd = rootdir_cluster (init_sb p) \<and> \<not> is_contiguous nd
         \<and> attrib nd = EXFAT_ATTRIB_DIR \<and> valid_size nd = node_size nd
         \<and> uint (node_size nd) = get_cluster_size p)"

lemma at_root_read_on: "at_root p m r ef \<Longrightarrow> read_on ef ef' \<Longrightarrow> at_root p m r ef'"
  unfolding at_root_def by (simp add: read_on_fields)

lemma vbr_verified:
  assumes wf: "mkfs_wf p" and ck: "check_size p (p_volume_size p) = 0"
    and lb: "15 \<le> length (p_volume_label p)" and cap: "p_volume_size p \<le> cap"
    and r: "ready (dev ef)" and img: "img (dev ef) = mkfs_image p m" and sb: "sb ef = init_sb p"
  shows "\<exists>ef'. verify_vbr_checksum os ef = Some (True, ef') \<and> read_on ef ef'"
proof -
  have ss: "SECTOR_SIZE (init_sb p) = 512" by (rule init_sb_sizes(1) [OF wf])
  have c: "6144 \<le> cap" using root_position [OF wf ck] wf_sizes(3) [OF wf] cap by linarith
  have sec: "mread (mkfs_image p m) (nat (i * 512)) 512 = vbr_sectors p ! nat i"
    if "0 \<le> i" "i < 12" for i
    using sector_read [OF wf ck lb, of "nat i" m] that by (simp add: nat_mult_distrib)
  obtain d0 where d0: "os_pread os 512 0 (dev ef) = (512, vbr_sectors p ! 0, d0)"
    "read_on ef (ef\<lparr>dev := d0\<rparr>)"
    using read_sector [OF r, of 0] ss c sec [of 0] by (auto simp: sb img)
  note f0 = read_on_fields [OF d0(2)]
  obtain ef1 where e1: "vbr_sum_loop os [1..10] (exfat_vbr_start_checksum (vbr_sectors p ! 0) 512)
        (ef\<lparr>dev := d0\<rparr>)
      = (Some (foldl (\<lambda>c i. exfat_vbr_add_checksum (mread (mkfs_image p m) (nat (i * 512)) 512) 512 c)
           (exfat_vbr_start_checksum (vbr_sectors p ! 0) 512) [1..10]), ef1)"
    "read_on (ef\<lparr>dev := d0\<rparr>) ef1"
    using vbr_sum_read [of "ef\<lparr>dev := d0\<rparr>" "[1..10]"] f0 ss c by (auto simp: sb img)
  have "foldl (\<lambda>c i. exfat_vbr_add_checksum (mread (mkfs_image p m) (nat (i * 512)) 512) 512 c)
           (exfat_vbr_start_checksum (vbr_sectors p ! 0) 512) [1..10]
      = foldl (\<lambda>c i. exfat_vbr_add_checksum (vbr_sectors p ! nat i) 512 c)
           (exfat_vbr_start_checksum (vbr_sectors p ! 0) 512) [1..10]"
    by (rule foldl_cong) (use sec in auto)
  then have e1': "vbr_sum_loop os [1..10] (exfat_vbr_start_checksum (vbr_sectors p ! 0) 512)
        (ef\<lparr>dev := d0\<rparr>) = (Some (vbr_checksum p), ef1)"
    using e1(1) vbr_checksum_sum [OF wf] by simp
  have r1: "read_on ef ef1" using d0(2) e1(2) by (rule read_on_trans)
  note f1 = read_on_fields [OF r1]
  obtain d2 where d2: "os_pread os 512 (11 * 512) (dev ef1) = (512, vbr_sectors p ! 11, d2)"
    "read_on ef1 (ef1\<lparr>dev := d2\<rparr>)"
    using read_sector [of ef1 11] f1 ss c sec [of 11] by (auto simp: sb img)
  have "vbr_check_loop os (vbr_checksum p) [0..<128] (vbr_sectors p ! 11) (ef1\<lparr>dev := d2\<rparr>)
      = Some (True, ef1\<lparr>dev := d2\<rparr>)"
    by (rule vbr_check_read) (use checksum_sector_words [OF wf] in auto)
  then have "verify_vbr_checksum os ef = Some (True, ef1\<lparr>dev := d2\<rparr>)"
    using d0(1) e1' d2(1) f1(1) ss by (simp add: verify_vbr_checksum_def sb Let_def)
  then show ?thesis using read_on_trans [OF r1 d2(2)] by blast
qed

lemma root_read_entry:
  assumes wf: "mkfs_wf p" and ck: "check_size p (p_volume_size p) = 0" and cap: "p_volume_size p \<le> cap"
    and a: "at_root p m r ef" and off: "0 \<le> off" "off + 32 \<le> get_cluster_size p"
  shows "\<exists>ef'. read_entries os r 1 off ef
      = Some (Inr [mread (mkfs_image p m) (nat (get_position p ROOTDIR + off)) 32], ef') \<and> read_on ef ef'"
proof -
  obtain nd where nd: "nodes ef r = Some nd" "fptr_index nd = 0"
    "fptr_cluster nd = rootdir_cluster (init_sb p)" "\<not> is_contiguous nd"
    "attrib nd = EXFAT_ATTRIB_DIR" "valid_size nd = node_size nd"
    "uint (node_size nd) = get_cluster_size p"
    and s: "ready (dev ef)" "img (dev ef) = mkfs_image p m" "sb ef = init_sb p"
    using a by (auto simp: at_root_def)
  note oc = object_clusters [OF wf ck s(3)] and rp = root_position [OF wf ck] and z = init_sb_sizes [OF wf]
  have u: "uint (rootdir_cluster (init_sb p)) = clusters_of p (cbm_size p) + clusters_of p 5836 + 2"
    by (rule boot_fields(5) [OF wf ck])
  have fo: "fat_offset ef (rootdir_cluster (init_sb p)) = 65536 + uint (rootdir_cluster (init_sb p)) * 4"
    using z(1) boot_fields(1) [OF wf ck] by (simp add: fat_offset_def s2o_def s(3) SECTOR_SIZE_def)
  have "65536 + 4 * (clusters_of p (cbm_size p) + clusters_of p 5836 + 3) \<le> p_volume_size p"
    using fat_room [OF wf ck] heap_fits(1) [OF wf ck] by linarith
  then have fb: "fat_offset ef (rootdir_cluster (init_sb p)) + 4 \<le> cap" using cap by (simp add: fo u)
  have dir: "attrib nd AND EXFAT_ATTRIB_DIR \<noteq> 0" by (simp add: nd(5) EXFAT_ATTRIB_DIR_def)
  obtain ef' where g: "exfat_generic_pread os r (of_nat 32) off ef
      = Some (Inr (mread (mkfs_image p m) (nat (get_position p ROOTDIR + off)) 32), ef')" "read_on ef ef'"
    using read_first_cluster [OF s(1), unfolded s(2,3), OF z(3) nd(1-4) dir nd(6), of "get_position p ROOTDIR" off 32]
      nd(7) oc(3,4) rp cap fb off by (auto simp: z fo)
  have "entries_of bs = [bs]" if "length bs = 32" for bs
    using that by (simp add: entries_of_def seg_def)
  then show ?thesis using g nd(1) dir by (simp add: read_entries_def)
qed

lemma root_read_end:
  assumes a: "at_root p m r ef" and off: "off = get_cluster_size p" "mkfs_wf p"
  shows "read_entries os r 1 off ef = Some (Inl ENOENT, ef)"
proof -
  obtain nd where nd: "nodes ef r = Some nd" "attrib nd = EXFAT_ATTRIB_DIR"
    "uint (node_size nd) = get_cluster_size p" using a by (auto simp: at_root_def)
  have b: "0 \<le> off" "off < 2 ^ 64" using wf_sizes(3,4) [OF off(2)] off(1) by simp_all
  then have "uint (word_of_int off :: u64) = off" by (intro uint_of_int_small) auto
  then have "node_size nd \<le> word_of_int off" using nd(3) off(1) by (simp add: word_le_def)
  then have "exfat_generic_pread os r (of_nat 32) off ef = Some (Inr [], ef)"
    using b nd(1) by (subst exfat_generic_pread.simps) simp
  then show ?thesis using nd by (simp add: read_entries_def EXFAT_ATTRIB_DIR_def)
qed

end

end
