(* ===== verification/ExfatBitmap.thy ===== *)
theory ExfatBitmap
  imports ExfatFormatted
begin

text \<open>
  The allocation bitmap of a freshly formatted volume, as it lies on the device and as the library
  reads it: bytes into 64-bit words, a set bit for exactly the clusters of the three objects of the
  heap.
\<close>

section \<open>The bitmap in memory\<close>

text \<open>Bits of a bitmap held as the 64-bit words the library reads its bytes into.\<close>

lemma bit_rd64:
  assumes "i < 64" "length bs = 8"
  shows "bit (rd64 bs) i \<longleftrightarrow> bit (bs ! (i div 8)) (i mod 8)"
proof -
  have hi: "\<not> bit (w :: u8) n" if "8 \<le> n" for w n using that bit_imp_le_length [of w n] by auto
  define j where "j = i mod 8"
  have j: "j < 8" by (simp add: j_def)
  have "bit (rd64 bs) (8 * k + j) \<longleftrightarrow> bit (bs ! k) j" if "k < 8" for k
  proof -
    have "k = 0 \<or> k = 1 \<or> k = 2 \<or> k = 3 \<or> k = 4 \<or> k = 5 \<or> k = 6 \<or> k = 7"
      using that by linarith
    then show ?thesis using j by (elim disjE) (simp_all add: rd64_def bit_simps hi)
  qed
  moreover have "i div 8 < 8" using assms(1) by simp
  ultimately show ?thesis by (metis j_def mult_div_mod_eq)
qed

lemma BMAP_GET_of_bytes:
  "8 dvd length bs \<Longrightarrow> i < 8 * length bs \<Longrightarrow> BMAP_GET (bmap_of_bytes bs) i = byte_bit bs i"
proof (induction bs arbitrary: i rule: bmap_of_bytes.induct)
  case (1 a b c d e f g h rest)
  define w where "w = [a, b, c, d, e, f, g, h]"
  have split: "a # b # c # d # e # f # g # h # rest = w @ rest" "length w = 8" by (simp_all add: w_def)
  show ?case
  proof (cases "i < 64")
    case True
    then have "i div 8 < 8" by simp
    then have "byte_bit (w @ rest) i \<longleftrightarrow> bit (w ! (i div 8)) (i mod 8)"
      by (simp add: byte_bit_def nth_append split(2))
    then show ?thesis using True bit_rd64 [OF True split(2)]
      by (simp add: BMAP_GET_bit split(1)) (simp add: w_def)
  next
    case False
    then obtain j where j: "i = 64 + j" using le_Suc_ex by (metis not_less)
    have "(64 + j) div 64 = Suc (j div 64)" by simp
    then have "BMAP_GET (bmap_of_bytes (a # b # c # d # e # f # g # h # rest)) i = BMAP_GET (bmap_of_bytes rest) j"
      by (simp only: BMAP_GET_bit j bmap_of_bytes.simps nth_Cons_Suc) simp
    also have "\<dots> = byte_bit rest j"
    proof (rule "1.IH")
      have "length (a # b # c # d # e # f # g # h # rest) = 8 + length rest" by simp
      then show "8 dvd length rest" using "1.prems"(1) by (metis dvd_add_right_iff dvd_refl)
      show "j < 8 * length rest" using "1.prems"(2) j by simp
    qed
    also have "\<dots> = byte_bit (w @ rest) i"
    proof -
      have "(64 + j) div 8 = 8 + j div 8" "(64 + j) mod 8 = j mod 8" by presburger+
      then show ?thesis using split(2) by (simp only: byte_bit_def j nth_append) simp
    qed
    finally show ?thesis unfolding split(1) .
  qed
qed (auto dest!: dvd_imp_le)

lemma byte_bit_bmap: "i < 64 * length bm \<Longrightarrow> byte_bit (bmap_bytes bm) i = BMAP_GET bm i"
  using BMAP_GET_of_bytes [of "bmap_bytes bm" i] by simp

text \<open>A bit of the bitmap as it lies on the volume, in the bytes the formatter writes and in the
  erased ones behind them.\<close>

lemma volume_bitmap_bit:
  assumes wf: "mkfs_wf p" and ck: "check_size p (p_volume_size p) = 0"
    and lb: "15 \<le> length (p_volume_label p)" and i: "i div 8 < nat (cbm_size p)"
  shows "bit (mkfs_image p m (nat (get_position p CBM) + i div 8)) (i mod 8)
    \<longleftrightarrow> i < unat (allocated_clusters p)"
proof -
  define A where "A = unat (allocated_clusters p)"
  have L: "length (object_bytes p CBM) = (A + 7) div 8" "bitmap_size p = (A + 7) div 8 * 8"
    using allocated [OF wf ck] by (simp_all add: A_def)
  show ?thesis
  proof (cases "i div 8 < (A + 7) div 8")
    case True
    define bm where "bm = cbm_bitmap p"
    have ib: "i < bitmap_size p" using True L(2) by simp
    have "mread (mkfs_image p m) (nat (get_position p CBM)) (length (object_bytes p CBM)) ! (i div 8)
        = mkfs_image p m (nat (get_position p CBM) + i div 8)"
      using True L(1) by (simp add: nth_mread del: object_bytes.simps)
    then have "mkfs_image p m (nat (get_position p CBM) + i div 8) = object_bytes p CBM ! (i div 8)"
      using object_at [OF wf ck lb, of m CBM] by (simp del: object_bytes.simps)
    also have "\<dots> = bmap_bytes bm ! (i div 8)"
      using True L(2) by (simp add: bm_def)
    finally have "bit (mkfs_image p m (nat (get_position p CBM) + i div 8)) (i mod 8)
        = byte_bit (bmap_bytes bm) i" by (simp add: byte_bit_def)
    also have "\<dots> = BMAP_GET bm i"
    proof (rule byte_bit_bmap)
      have "length bm = BMAP_SIZE (bitmap_size p) div 8"
      proof -
        have "length (foldl (\<lambda>b j. if j < k then BMAP_SET b j else b) b0 xs) = length b0" for k b0 xs
          by (induction xs arbitrary: b0) simp_all
        then show ?thesis by (simp add: bm_def cbm_bitmap_def)
      qed
      moreover have "BMAP_SIZE (bitmap_size p) div 8 = (bitmap_size p + 63) div 64" by (simp add: BMAP_SIZE_def)
      ultimately show "i < 64 * length bm" using ib by simp
    qed
    finally show ?thesis using cbm_bitmap_get [OF wf ck ib] by (simp add: bm_def)
  next
    case False
    have "get_size p CBM = cbm_size p" by simp
    then have "mkfs_image p m (nat (get_position p CBM) + i div 8) = 0"
      using object_tail [OF wf ck lb, of CBM "i div 8" m] i False L(1)
      by (simp del: object_bytes.simps)
    then show ?thesis using False by (simp add: A_def [symmetric])
  qed
qed

text \<open>The words the library holds for the bitmap of the volume.\<close>

definition volume_chunk :: "mkfs_param \<Rightarrow> medium \<Rightarrow> u64 list" where
  "volume_chunk p m = bmap_of_bytes (mread (mkfs_image p m) (nat (get_position p CBM))
     (BMAP_SIZE (unat (cluster_count (init_sb p)))))"

lemma volume_chunk_bits:
  assumes wf: "mkfs_wf p" and ck: "check_size p (p_volume_size p) = 0"
    and lb: "15 \<le> length (p_volume_label p)" and i: "i < unat (cluster_count (init_sb p))"
  shows "BMAP_GET (volume_chunk p m) i \<longleftrightarrow> i < unat (allocated_clusters p)"
proof -
  define n where "n = unat (cluster_count (init_sb p))"
  define bs where "bs = mread (mkfs_image p m) (nat (get_position p CBM)) (BMAP_SIZE n)"
  have n: "int n = heap_clusters p" using boot_fields(4) [OF wf ck] by (simp add: n_def)
  have B: "BMAP_SIZE n = 8 * ((n + 63) div 64)" by (simp add: BMAP_SIZE_def)
  have i8: "i < 8 * length bs" using i unfolding bs_def length_mread B n_def [symmetric] by linarith
  have "i div 8 < (n + 7) div 8" using div_le_mono [of "i + 8" "n + 7" 8] i by (simp add: n_def)
  then have "int (i div 8) < (int n + 7) div 8"
    using zdiv_int [of "n + 7" 8] by simp
  then have ic: "i div 8 < nat (cbm_size p)" using heap_fits(3) [OF wf ck] n by simp
  have "BMAP_GET (volume_chunk p m) i = byte_bit bs i"
    using BMAP_GET_of_bytes [OF _ i8] by (simp add: volume_chunk_def n_def [symmetric] bs_def B)
  also have "\<dots> = bit (mkfs_image p m (nat (get_position p CBM) + i div 8)) (i mod 8)"
    using i8 by (simp add: byte_bit_def bs_def nth_mread less_mult_imp_div_less mult.commute)
  finally show ?thesis using volume_bitmap_bit [OF wf ck lb ic] by simp
qed

lemma count_free_formatted:
  assumes wf: "mkfs_wf p" and ck: "check_size p (p_volume_size p) = 0"
    and lb: "15 \<le> length (p_volume_label p)"
    and ef: "cmap_chunk ef = Some (volume_chunk p m)" "cmap_size ef = cluster_count (init_sb p)"
  shows "exfat_count_free_clusters ef = Some (cluster_count (init_sb p) - allocated_clusters p)"
proof -
  define n A where "n = unat (cluster_count (init_sb p))" and "A = unat (allocated_clusters p)"
  have "int A \<le> int n"
    using allocated(1,4) [OF wf ck] boot_fields(4) [OF wf ck] by (simp add: A_def n_def)
  then have le: "A \<le> n" by simp
  have "filter (\<lambda>i. \<not> BMAP_GET (volume_chunk p m) i) [0..<n] = filter (\<lambda>i. \<not> i < A) [0..<n]"
    using volume_chunk_bits [OF wf ck lb] by (intro filter_cong) (auto simp: n_def A_def)
  moreover have "length (filter (\<lambda>i. \<not> i < A) [0..<n]) = n - A"
  proof -
    have "filter (\<lambda>i. \<not> i < A) ([0..<A] @ [A..<n]) = [A..<n]" by (simp add: filter_empty_conv)
    then show ?thesis using upt_add_eq_append [of 0 A "n - A"] le by simp
  qed
  moreover have "(of_nat (n - A) :: u32) = of_nat n - of_nat A" by (simp add: of_nat_diff [OF le])
  ultimately show ?thesis
    using ef by (simp add: exfat_count_free_clusters_def n_def [symmetric]) (simp add: n_def A_def)
qed

section \<open>The property\<close>

text \<open>C13: The cluster bitmap marks exactly the clusters that the three objects of the heap
  occupy. After \<open>mkfs\<close> has succeeded on a seekable device, each bit of the bitmap's whole room on
  the device, the bits behind the last byte written and those behind the last cluster included, is
  set if its cluster starts before the end of the root directory, and clear otherwise.\<close>

theorem bitmap_marks_exactly_the_used_clusters:
  assumes dev: "byte_device io ready pos img cap" and d: "ready d" and wf: "mkfs_wf p"
    and ck: "check_size p (p_volume_size p) = 0" and lb: "15 \<le> length (p_volume_label p)"
    and cap: "p_volume_size p \<le> int cap"
  shows "\<exists>d'. mkfs io p (p_volume_size p) d = (0, d')
    \<and> (\<forall>i. i div 8 < nat (cbm_size p) \<longrightarrow>
         (bit (img d' (nat (get_position p CBM) + i div 8)) (i mod 8)
          \<longleftrightarrow> get_position p CBM + int i * get_cluster_size p
              < get_position p ROOTDIR + get_size p ROOTDIR))"
proof -
  note a = allocated(1) [OF wf ck] and hp = heap_positions(2) [OF wf ck] and s = wf_sizes [OF wf]
    and c = fat_chain_bounds(1,2) [OF wf ck]
  define n where "n = clusters_of p (cbm_size p) + clusters_of p 5836 + 1"
  define A where "A = unat (allocated_clusters p)"
  have A: "int A = n" using a [folded A_def] c by (simp add: n_def)
  have end_: "get_position p ROOTDIR + get_size p ROOTDIR
      = get_position p CBM + n * get_cluster_size p"
    using hp sizes(5) [OF wf] position_VBR_FAT_CBM(3) [OF wf] by (simp add: n_def algebra_simps)
  have lt: "get_position p CBM + int i * get_cluster_size p
      < get_position p ROOTDIR + get_size p ROOTDIR \<longleftrightarrow> i < A" for i
    unfolding end_ using s(3) A by (auto simp: mult_less_cancel_right)
  obtain d' where "mkfs io p (p_volume_size p) d = (0, d')" "img d' = mkfs_image p (img d)"
    using mkfs_writes_image_on [OF dev d wf ck lb cap] by blast
  then show ?thesis unfolding lt using volume_bitmap_bit [OF wf ck lb] by (simp add: A_def)
qed

lemma bitmap_marks_exactly_the_used_clusters_witness:
  "\<exists>d'. mkfs ram_io small_param (p_volume_size small_param) (0, \<lambda>_. 9) = (0, d')
    \<and> bit (snd d' 131072) 0 \<and> \<not> bit (snd d' 131079) 7"
proof -
  have v: "p_volume_size small_param \<le> int (2 ^ 40)" by (simp add: small_sizes)
  obtain d' where d': "mkfs ram_io small_param (p_volume_size small_param) (0, \<lambda>_. 9) = (0, d')"
    "\<forall>i. i div 8 < nat (cbm_size small_param) \<longrightarrow>
       (bit (snd d' (nat (get_position small_param CBM) + i div 8)) (i mod 8)
        \<longleftrightarrow> get_position small_param CBM + int i * get_cluster_size small_param
            < get_position small_param ROOTDIR + get_size small_param ROOTDIR)"
    using bitmap_marks_exactly_the_used_clusters
      [OF ram.byte_device_axioms _ small_wf small_check small_label v, of "(0, \<lambda>_. 9)"] by auto
  have cbm: "cbm_size small_param = 2044"
    using sizes(3) [OF small_wf] by (simp add: small_sizes DIV_ROUND_UP_def cdiv_simps)
  then have "get_position small_param CBM = 131072" "get_position small_param ROOTDIR = 143360"
    "get_size small_param ROOTDIR = 4096"
    using position_VBR_FAT_CBM(3) [OF small_wf] heap_positions(2) [OF small_wf small_check] sizes(5) [OF small_wf]
    by (simp_all add: small_sizes clusters_of_def DIV_ROUND_UP_def cdiv_simps)
  then show ?thesis
    using d'(1) d'(2) [rule_format, of 0] d'(2) [rule_format, of 63] by (simp add: cbm small_sizes)
qed

end
