(* ===== verification/ExfatRoot.thy ===== *)
theory ExfatRoot
  imports ExfatMountable ExfatBitmap
begin

text \<open>
  Mounting the freshly formatted volume: the entries of the root directory one after another (the
  label, the allocation bitmap, the up-case table, then unused ones), and from there the state
  \<open>exfat_mount\<close> returns.
\<close>

section \<open>Entries that are not files\<close>

context volume_os
begin

text \<open>One step of \<open>readdir\<close> on an entry that is not a file.\<close>

lemma readdir_step:
  assumes "read_entries os r 1 off ef = Some (Inr [e], ef1)" "e ! 0 \<noteq> EXFAT_ENTRY_FILE"
    and "(if e ! 0 = EXFAT_ENTRY_UPCASE then readdir_upcase os e ef1
          else if e ! 0 = EXFAT_ENTRY_BITMAP then readdir_bitmap os e ef1
          else if e ! 0 = EXFAT_ENTRY_LABEL then Some (readdir_label e ef1)
          else readdir_other os r e off ef1) = Some (EOK, ef2)"
  shows "readdir os r off ef = readdir os r (off + 32) ef2"
  using assms by (subst readdir.simps) simp

lemma readdir_unused:
  assumes "read_entries os r 1 off ef = Some (Inr [e], ef1)" "e ! 0 AND EXFAT_ENTRY_VALID = 0"
  shows "readdir os r off ef = readdir os r (off + 32) ef1"
proof -
  have "e ! 0 \<noteq> EXFAT_ENTRY_FILE" "e ! 0 \<noteq> EXFAT_ENTRY_UPCASE" "e ! 0 \<noteq> EXFAT_ENTRY_BITMAP"
    "e ! 0 \<noteq> EXFAT_ENTRY_LABEL"
    using assms(2) by (auto simp: EXFAT_ENTRY_FILE_def EXFAT_ENTRY_UPCASE_def EXFAT_ENTRY_BITMAP_def
        EXFAT_ENTRY_LABEL_def EXFAT_ENTRY_VALID_def)
  then show ?thesis
    using assms by (intro readdir_step) (auto simp: readdir_other_def)
qed

lemma readdir_rest:
  assumes wf: "mkfs_wf p" and ck: "check_size p (p_volume_size p) = 0" and cap: "p_volume_size p \<le> cap"
    and lb: "15 \<le> length (p_volume_label p)"
    and a: "at_root p m r ef" and off: "96 \<le> off" "off \<le> get_cluster_size p" "32 dvd off"
  shows "\<exists>ef'. readdir os r off ef = Some (Inl ENOENT, ef') \<and> read_on ef ef'"
  using a off
proof (induction "nat (get_cluster_size p - off)" arbitrary: off ef rule: less_induct)
  case less
  show ?case
  proof (cases "off = get_cluster_size p")
    case True
    then show ?thesis
      using root_read_end [OF less.prems(1) True wf] less.prems(1)
      by (subst readdir.simps) (auto simp: at_root_def read_on_refl)
  next
    case False
    have d: "32 dvd get_cluster_size p" unfolding wf_sizes(2) [OF wf] by simp
    have le: "off + 32 \<le> get_cluster_size p"
    proof -
      obtain a b where "off = 32 * a" "get_cluster_size p = 32 * b" using less.prems(4) d by (metis dvdE)
      then show ?thesis using False less.prems(3) by (cases "a < b") auto
    qed
    obtain ef1 where e1: "read_entries os r 1 off ef
        = Some (Inr [mread (mkfs_image p m) (nat (get_position p ROOTDIR + off)) 32], ef1)" "read_on ef ef1"
      using root_read_entry [OF wf ck cap less.prems(1), of off] less.prems(2) le by auto
    have "nat (get_position p ROOTDIR + off) = nat (get_position p ROOTDIR) + nat off"
      using root_position(1) [OF wf ck] less.prems(2) by (simp add: nat_add_distrib)
    then have z: "mread (mkfs_image p m) (nat (get_position p ROOTDIR + off)) 32 = replicate 32 0"
      using root_entries_read(4) [OF wf ck lb, of "nat off" 32 m] less.prems(2) le by simp
    have "readdir os r off ef = readdir os r (off + 32) ef1"
      using e1(1) unfolding z by (rule readdir_unused) simp
    moreover have "\<exists>ef'. readdir os r (off + 32) ef1 = Some (Inl ENOENT, ef') \<and> read_on ef1 ef'"
      by (rule less.hyps) (use le less.prems at_root_read_on [OF less.prems(1) e1(2)] in auto)
    ultimately show ?thesis using read_on_trans [OF e1(2)] by auto
  qed
qed
end

section \<open>Label, bitmap and up-case table\<close>


definition volume_label :: "mkfs_param \<Rightarrow> bytes" where
  "volume_label p =
    (if exfat_utf16_length (p_volume_label p) = 0 then [0]
     else case exfat_utf16_to_utf8 (take 15 (p_volume_label p)) 46 of Inl e \<Rightarrow> [0] | Inr name \<Rightarrow> name)"

definition label_fits :: "mkfs_param \<Rightarrow> bool" where
  "label_fits p \<longleftrightarrow> 15 \<le> length (p_volume_label p) \<and> exfat_utf16_length (p_volume_label p) \<le> 15
     \<and> (exfat_utf16_length (p_volume_label p) = 0
        \<or> (\<exists>name. exfat_utf16_to_utf8 (take 15 (p_volume_label p)) 46 = Inr name))"

definition with_bitmap :: "mkfs_param \<Rightarrow> medium \<Rightarrow> 'd exfat \<Rightarrow> 'd exfat" where
  "with_bitmap p m ef = ef\<lparr>cmap_start_cluster := 2, cmap_size := cluster_count (init_sb p),
     cmap_chunk_size := cluster_count (init_sb p), cmap_chunk := Some (volume_chunk p m)\<rparr>"

context volume_os
begin

lemma at_root_fields:
  assumes "at_root p m r ef"
  shows "at_root p m r (ef\<lparr>label := l\<rparr>)" "at_root p m r (ef\<lparr>upcase := u\<rparr>)"
    "at_root p m r (with_bitmap q m' ef)"
  using assms by (simp_all add: at_root_def with_bitmap_def sb_def)

lemma read_on_upd:
  assumes "read_on ef ef'"
  shows "read_on (ef\<lparr>label := l\<rparr>) (ef'\<lparr>label := l\<rparr>)"
    "read_on (ef\<lparr>upcase := u\<rparr>) (ef'\<lparr>upcase := u\<rparr>)"
    "read_on (with_bitmap p m ef) (with_bitmap p m ef')"
proof -
  obtain d where d: "ef' = ef\<lparr>dev := d\<rparr>" "ready d" "img d = img (dev ef)"
    using assms by (auto simp: read_on_def)
  have e: "ef'\<lparr>label := l\<rparr> = (ef\<lparr>label := l\<rparr>)\<lparr>dev := d\<rparr>"
    "ef'\<lparr>upcase := u\<rparr> = (ef\<lparr>upcase := u\<rparr>)\<lparr>dev := d\<rparr>"
    "with_bitmap p m ef' = (with_bitmap p m ef)\<lparr>dev := d\<rparr>"
    by (simp_all add: d(1) with_bitmap_def)
  show "read_on (ef\<lparr>label := l\<rparr>) (ef'\<lparr>label := l\<rparr>)"
    unfolding e(1) by (rule read_onI) (simp_all add: d)
  show "read_on (ef\<lparr>upcase := u\<rparr>) (ef'\<lparr>upcase := u\<rparr>)"
    unfolding e(2) by (rule read_onI) (simp_all add: d)
  show "read_on (with_bitmap p m ef) (with_bitmap p m ef')"
    unfolding e(3) by (rule read_onI) (simp_all add: d with_bitmap_def)
qed

lemma label_step:
  assumes wf: "mkfs_wf p" and ck: "check_size p (p_volume_size p) = 0" and cap: "p_volume_size p \<le> cap"
    and lf: "label_fits p" and a: "at_root p m r ef" and l: "label ef = [0]"
  shows "\<exists>ef'. readdir os r 0 ef = readdir os r 32 ef' \<and> read_on (ef\<lparr>label := volume_label p\<rparr>) ef'"
proof -
  have lb: "15 \<le> length (p_volume_label p)" using lf by (simp add: label_fits_def)
  have cs: "512 \<le> get_cluster_size p" by (rule wf_sizes(3) [OF wf])
  obtain ef1 where e1: "read_entries os r 1 0 ef = Some (Inr [init_label_entry p], ef1)" "read_on ef ef1"
    using root_read_entry [OF wf ck cap a, of 0] cs root_entries_read(1) [OF wf ck lb, of m] by auto
  show ?thesis
  proof (cases "exfat_utf16_length (p_volume_label p) = 0")
    case True
    then have "readdir os r 0 ef = readdir os r 32 ef1"
      using readdir_unused [OF e1(1)]
      by (simp add: init_label_entry_def EXFAT_ENTRY_LABEL_def EXFAT_ENTRY_VALID_def)
    moreover have "ef\<lparr>label := volume_label p\<rparr> = ef" using True l by (simp add: volume_label_def)
    ultimately show ?thesis using e1(2) by metis
  next
    case False
    define e where "e = init_label_entry p"
    obtain name where name: "exfat_utf16_to_utf8 (take 15 (p_volume_label p)) 46 = Inr name"
      "exfat_utf16_length (p_volume_label p) \<le> 15"
      using lf False by (auto simp: label_fits_def)
    have e: "e = 0x83 # of_nat (exfat_utf16_length (p_volume_label p))
        # concat (map le16 (take 15 (p_volume_label p)))"
      using False by (simp add: e_def init_label_entry_def EXFAT_ENTRY_LABEL_def
          EXFAT_ENTRY_VALID_def EXFAT_ENAME_MAX_def)
    have "length (concat (map le16 (take 15 (p_volume_label p)))) = 30"
      using lb by (simp add: length_concat sum_list_triv comp_def)
    then have "seg 2 30 e = concat (map le16 (take 15 (p_volume_label p)))"
      by (simp add: e seg_def)
    moreover have "unat (e ! 1) \<le> 15"
      using name(2) by (simp add: e unsigned_of_nat take_bit_nat_eq_self)
    ultimately have "readdir_label e ef1 = (EOK, ef1\<lparr>label := volume_label p\<rparr>)"
      using name(1) False
      by (simp add: readdir_label_def u16s_units EXFAT_ENAME_MAX_def volume_label_def)
    then have "readdir os r 0 ef = readdir os r (0 + 32) (ef1\<lparr>label := volume_label p\<rparr>)"
      by (intro readdir_step [OF e1(1) [folded e_def]])
        (simp_all add: e EXFAT_ENTRY_LABEL_def EXFAT_ENTRY_UPCASE_def EXFAT_ENTRY_BITMAP_def
           EXFAT_ENTRY_FILE_def)
    moreover have "read_on (ef\<lparr>label := volume_label p\<rparr>) (ef1\<lparr>label := volume_label p\<rparr>)"
      using read_on_upd(1) [OF e1(2)] .
    ultimately show ?thesis by auto
  qed
qed

lemma bitmap_step:
  assumes wf: "mkfs_wf p" and ck: "check_size p (p_volume_size p) = 0" and cap: "p_volume_size p \<le> cap"
    and lf: "label_fits p" and a: "at_root p m r ef"
  shows "\<exists>ef'. readdir os r 32 ef = readdir os r 64 ef' \<and> read_on (with_bitmap p m ef) ef'"
proof -
  have lb: "15 \<le> length (p_volume_label p)" using lf by (simp add: label_fits_def)
  note s = wf_sizes [OF wf] and f = heap_fits [OF wf ck] and l = heap_less_clusters [OF wf ck]
    and o = object_order [OF wf ck] and b = boot_fields [OF wf ck]
  have n32: "nat (get_position p ROOTDIR + 32) = nat (get_position p ROOTDIR) + 32"
    using root_position(1) [OF wf ck] by (simp add: nat_add_distrib)
  define e where "e = init_bitmap_entry p"
  define n where "n = unat (cluster_count (init_sb p))"
  have n: "int n = heap_clusters p" using b(4) by (simp add: n_def)
  obtain ef1 where e1: "read_entries os r 1 32 ef = Some (Inr [e], ef1)" "read_on ef ef1"
    using root_read_entry [OF wf ck cap a, of 32] s(3) root_entries_read(2) [OF wf ck lb, of m]
    by (auto simp: n32 e_def)
  have a1: "at_root p m r ef1" by (rule at_root_read_on [OF a e1(2)])
  then have r1: "ready (dev ef1)" "img (dev ef1) = mkfs_image p m" "sb ef1 = init_sb p"
    by (simp_all add: at_root_def)
  have e0: "e ! 0 = EXFAT_ENTRY_BITMAP" "rd32 (drop 20 e) = 2" "rd64 (drop 24 e) = word_of_int (cbm_size p)"
    by (simp_all add: e_def init_bitmap_entry_def EXFAT_FIRST_DATA_CLUSTER_def)
  note oc = object_clusters [OF wf ck]
  have c31: "heap_clusters p < 2 ^ 32" using l(2) s(7) by simp
  have nb: "BMAP_SIZE n \<le> n div 8 + 8" by (simp add: BMAP_SIZE_def)
  have small: "BMAP_SIZE n < 2 ^ 31" using nb n c31 by simp
  have "int (BMAP_SIZE n) \<le> cbm_size p + 8"
  proof -
    have "int (n div 8) \<le> cbm_size p" using f(3) n by (simp add: zdiv_int)
    then show ?thesis using nb by linarith
  qed
  then have "get_position p CBM + int (BMAP_SIZE n) \<le> cap" "0 \<le> get_position p CBM"
    using o cap sizes [OF wf] fat_room [OF wf ck] get_size.simps(3) [of p]
    by (simp_all del: get_size.simps)
  then obtain d where d: "os_pread os (BMAP_SIZE n) (get_position p CBM) (dev ef1)
      = (int (BMAP_SIZE n), mread (mkfs_image p m) (nat (get_position p CBM)) (BMAP_SIZE n), d)"
    "ready d" "img d = mkfs_image p m"
    using pread_law [OF r1(1), of "get_position p CBM" "BMAP_SIZE n"] small r1(2) by auto
  have enough: "\<not> word_of_int (cbm_size p) < (ucast ((cluster_count (init_sb p) + 8 - 1) div 8) :: u64)"
  proof -
    define cc where "cc = cluster_count (init_sb p)"
    have u: "uint cc = heap_clusters p" using n by (simp add: n_def cc_def)
    define w where "w = cc + 7"
    have w: "cc + 8 - 1 = w" by (simp add: w_def)
    have "uint w = heap_clusters p + 7"
      unfolding w_def using l(2) s(7) by (subst uint_add_lem [THEN iffD1]) (simp_all add: u)
    then have "uint ((cc + 8 - 1) div 8) = cbm_size p" unfolding w using f(3) by (simp add: uint_div)
    then have "uint (ucast ((cc + 8 - 1) div 8) :: u64) = cbm_size p" by (simp add: uint_up_ucast is_up)
    moreover have "uint (word_of_int (cbm_size p) :: u64) = cbm_size p"
      using f(3) l(3) c31 by (intro uint_of_int_small) auto
    ultimately show ?thesis by (simp add: word_less_def cc_def)
  qed
  define ef2 where "ef2 = (with_bitmap p m ef1)\<lparr>dev := d\<rparr>"
  have sb': "sb (ef1\<lparr>cmap_start_cluster := x\<rparr>) = init_sb p"
    "sb (ef1\<lparr>cmap_start_cluster := x, cmap_size := y\<rparr>) = init_sb p"
    "sb (ef1\<lparr>cmap_start_cluster := x, cmap_size := y, cmap_chunk_size := z\<rparr>) = init_sb p" for x y z
    using r1(3) by (simp_all add: sb_def)
  have "readdir_bitmap os e ef1 = Some (EOK, ef2)"
    using oc(1) [OF r1(3)] oc(2) [of "ef1\<lparr>cmap_start_cluster := 2, cmap_size := cluster_count (init_sb p),
      cmap_chunk_size := cluster_count (init_sb p)\<rparr>"] e0 enough malloc_law [OF r1(1)] d(1)
    by (simp add: readdir_bitmap_def sb' Let_def n_def ef2_def with_bitmap_def volume_chunk_def)
  then have "readdir os r 32 ef = readdir os r (32 + 32) ef2"
    by (intro readdir_step [OF e1(1)])
      (simp_all add: e0 EXFAT_ENTRY_UPCASE_def EXFAT_ENTRY_BITMAP_def EXFAT_ENTRY_FILE_def)
  moreover have "read_on (with_bitmap p m ef) ef2"
    unfolding ef2_def
    by (rule read_on_trans [OF read_on_upd(3) [OF e1(2)] read_onI])
      (use d(2,3) r1(2) in \<open>simp_all add: with_bitmap_def\<close>)
  ultimately show ?thesis by auto
qed

lemma upcase_step:
  assumes wf: "mkfs_wf p" and ck: "check_size p (p_volume_size p) = 0" and cap: "p_volume_size p \<le> cap"
    and lf: "label_fits p" and a: "at_root p m r ef" and u: "upcase ef = None"
  shows "\<exists>ef'. readdir os r 64 ef = readdir os r 96 ef' \<and> read_on (ef\<lparr>upcase := Some mkfs_upcase\<rparr>) ef'"
proof -
  have lb: "15 \<le> length (p_volume_label p)" using lf by (simp add: label_fits_def)
  note s = wf_sizes [OF wf] and o = object_order [OF wf ck] and oc = object_clusters [OF wf ck]
  have n64: "nat (get_position p ROOTDIR + 64) = nat (get_position p ROOTDIR) + 64"
    using root_position(1) [OF wf ck] by (simp add: nat_add_distrib)
  define e where "e = init_upcase_entry p"
  obtain ef1 where e1: "read_entries os r 1 64 ef = Some (Inr [e], ef1)" "read_on ef ef1"
    using root_read_entry [OF wf ck cap a, of 64] s(3) root_entries_read(3) [OF wf ck lb, of m]
    by (auto simp: n64 e_def)
  have a1: "at_root p m r ef1" by (rule at_root_read_on [OF a e1(2)])
  then have r1: "ready (dev ef1)" "img (dev ef1) = mkfs_image p m" "sb ef1 = init_sb p"
    by (simp_all add: at_root_def)
  have e0: "e ! 0 = EXFAT_ENTRY_UPCASE" "rd64 (drop 24 e) = 5836"
    by (simp_all add: e_def init_upcase_entry_def length_upcase_table)
  define c where "c = rd32 (drop 20 e)"
  have c: "\<not> CLUSTER_INVALID (init_sb p) c" "exfat_c2o ef1 c = Some (get_position p UCT)"
    using oc(6) [OF r1(3), of c] by (simp_all add: c_def e_def)
  have "get_position p UCT + 5836 \<le> cap" "0 \<le> get_position p UCT"
    using o cap sizes [OF wf] fat_room [OF wf ck] by (simp_all del: get_size.simps)
  moreover have "mread (mkfs_image p m) (nat (get_position p UCT)) 5836 = upcase_table"
    using object_at [OF wf ck lb, of m UCT] by (simp add: length_upcase_table)
  ultimately obtain d where d: "os_pread os 5836 (get_position p UCT) (dev ef1) = (5836, upcase_table, d)"
    "ready d" "img d = mkfs_image p m"
    using pread_law [OF r1(1), of "get_position p UCT" 5836] r1(2) by auto
  have "readdir_upcase os e ef1 = Some (EOK, ef1\<lparr>dev := d, upcase := Some mkfs_upcase\<rparr>)"
    using c e0 u read_on_fields(6) [OF e1(2)] malloc_law [OF r1(1)] malloc_law [OF d(2)] d(1) r1(3)
    by (simp add: readdir_upcase_def Let_def c_def [symmetric] mkfs_upcase_def)
  then have "readdir os r 64 ef = readdir os r (64 + 32) (ef1\<lparr>dev := d, upcase := Some mkfs_upcase\<rparr>)"
    by (intro readdir_step [OF e1(1)])
      (simp_all add: e0 EXFAT_ENTRY_UPCASE_def EXFAT_ENTRY_FILE_def)
  moreover have "read_on (ef\<lparr>upcase := Some mkfs_upcase\<rparr>) (ef1\<lparr>dev := d, upcase := Some mkfs_upcase\<rparr>)"
    using e1(2) d r1(2) read_on_upd(2) [of ef "ef1\<lparr>dev := d\<rparr>"] read_onI [of d ef1] read_on_trans
    by simp
  ultimately show ?thesis by auto
qed
end

text \<open>The library's state after the mount: everything the volume determines.\<close>

definition mounted ::
  "('d \<Rightarrow> bool) \<Rightarrow> ('d \<Rightarrow> medium) \<Rightarrow> mkfs_param \<Rightarrow> medium \<Rightarrow> 'd exfat \<Rightarrow> bool" where
  "mounted ready img p m ef \<longleftrightarrow> ready (dev ef) \<and> img (dev ef) = mkfs_image p m \<and> sb ef = init_sb p
     \<and> upcase ef = Some mkfs_upcase \<and> label ef = volume_label p \<and> ro ef = 0
     \<and> cmap_size ef = cluster_count (init_sb p) \<and> cmap_chunk ef = Some (volume_chunk p m)
     \<and> (\<exists>nd. nodes ef (root ef) = Some nd \<and> is_cached nd \<and> node_child nd = None \<and> references nd = 1
          \<and> attrib nd = EXFAT_ATTRIB_DIR \<and> uint (node_size nd) = get_cluster_size p)"

section \<open>The mount\<close>

context volume_os
begin

lemma root_cached:
  assumes wf: "mkfs_wf p" and ck: "check_size p (p_volume_size p) = 0" and cap: "p_volume_size p \<le> cap"
    and lf: "label_fits p" and a: "at_root p m r ef" and u: "upcase ef = None" and l: "label ef = [0]"
    and nd: "nodes ef r = Some nd" "\<not> is_cached nd"
  shows "\<exists>ef'. exfat_cache_directory os r ef = Some (EOK, set_node r (nd\<lparr>is_cached := True\<rparr>) ef')
    \<and> read_on ((with_bitmap p m ef)\<lparr>label := volume_label p, upcase := Some mkfs_upcase\<rparr>) ef'"
proof -
  have lb: "15 \<le> length (p_volume_label p)" using lf by (simp add: label_fits_def)
  obtain e1 where e1: "readdir os r 0 ef = readdir os r 32 e1" "read_on (ef\<lparr>label := volume_label p\<rparr>) e1"
    using label_step [OF wf ck cap lf a l] by blast
  have a1: "at_root p m r e1" by (rule at_root_read_on [OF at_root_fields(1) [OF a] e1(2)])
  obtain e2 where e2: "readdir os r 32 e1 = readdir os r 64 e2" "read_on (with_bitmap p m e1) e2"
    using bitmap_step [OF wf ck cap lf a1] by blast
  have a2: "at_root p m r e2" by (rule at_root_read_on [OF at_root_fields(3) [OF a1] e2(2)])
  have u2: "upcase e2 = None"
    using read_on_fields(6) [OF e2(2)] read_on_fields(6) [OF e1(2)] u by (simp add: with_bitmap_def)
  obtain e3 where e3: "readdir os r 64 e2 = readdir os r 96 e3" "read_on (e2\<lparr>upcase := Some mkfs_upcase\<rparr>) e3"
    using upcase_step [OF wf ck cap lf a2 u2] by blast
  have a3: "at_root p m r e3" by (rule at_root_read_on [OF at_root_fields(2) [OF a2] e3(2)])
  have "96 \<le> get_cluster_size p" "(32 :: int) dvd 96" using wf_sizes(3) [OF wf] by simp_all
  then obtain e4 where e4: "readdir os r 96 e3 = Some (Inl ENOENT, e4)" "read_on e3 e4"
    using readdir_rest [OF wf ck cap lb a3, of 96] by auto
  have rest: "readdir os r 0 ef = Some (Inl ENOENT, e4)" using e1(1) e2(1) e3(1) e4(1) by simp
  have "read_on ((with_bitmap p m ef)\<lparr>label := volume_label p, upcase := Some mkfs_upcase\<rparr>) e4"
  proof -
    have "with_bitmap p m (ef\<lparr>label := volume_label p\<rparr>) = (with_bitmap p m ef)\<lparr>label := volume_label p\<rparr>"
      by (simp add: with_bitmap_def)
    then have "read_on ((with_bitmap p m ef)\<lparr>label := volume_label p\<rparr>) e2"
      using read_on_trans [OF read_on_upd(3) [OF e1(2)] e2(2)] by metis
    from read_on_trans [OF read_on_trans [OF read_on_upd(2) [OF this] e3(2)] e4(2)] show ?thesis .
  qed
  moreover have "nodes e4 r = Some nd"
    using read_on_fields(2) [OF calculation] nd(1) by (simp add: with_bitmap_def)
  moreover have "cache_loop os r None 0 ef = Some (ENOENT, e4)"
    by (subst cache_loop.simps) (simp add: rest)
  ultimately show ?thesis
    using nd by (auto simp: exfat_cache_directory_def)
qed

lemma rootdir_size_read:
  assumes wf: "mkfs_wf p" and ck: "check_size p (p_volume_size p) = 0" and cap: "p_volume_size p \<le> cap"
    and lb: "15 \<le> length (p_volume_label p)" and r: "ready (dev ef)" "img (dev ef) = mkfs_image p m"
    and sb: "sb ef = init_sb p" and nd: "nodes ef (root ef) = Some nd" "\<not> is_contiguous nd"
  shows "\<exists>ef'. ExfatMount.rootdir_size os ef = Some (word_of_int (get_cluster_size p), ef') \<and> read_on ef ef'"
proof -
  define c where "c = rootdir_cluster (init_sb p)"
  note oc = object_clusters [OF wf ck sb] and z = init_sb_sizes [OF wf]
  have u: "uint c = clusters_of p (cbm_size p) + clusters_of p 5836 + 2"
    unfolding c_def by (rule boot_fields(5) [OF wf ck])
  have un: "unat c = snd (first_clusters p)" using oc(5) by (simp add: c_def)
  have fo: "fat_offset ef c = 65536 + uint c * 4"
    using z(1) boot_fields(1) [OF wf ck] by (simp add: fat_offset_def s2o_def sb SECTOR_SIZE_def)
  have "65536 + 4 * (clusters_of p (cbm_size p) + clusters_of p 5836 + 3) \<le> p_volume_size p"
    using fat_room [OF wf ck] heap_fits(1) [OF wf ck] by linarith
  then have fb: "fat_offset ef c + 4 \<le> cap" "0 \<le> fat_offset ef c"
    using cap fat_chain_bounds(1,2) [OF wf ck] by (simp_all add: fo u)
  have v: "\<not> CLUSTER_INVALID (init_sb p) c" using oc(3) by (simp add: c_def)
  note vc = valid_clusterE [OF v]
  have nf: "nat (fat_offset ef c) = 65536 + 4 * unat c" 
    by (simp add: fo nat_add_distrib nat_mult_distrib)
  have "rd32 (mread (img (dev ef)) (nat (fat_offset ef c)) 4) = EXFAT_CLUSTER_END"
    using fat_entry_read [OF wf ck lb, of "unat c" m] root_fat_entry [OF wf ck] by (simp add: nf r(2) un)
  then obtain ef' where n: "exfat_next_cluster os (root ef) c ef = Some (EXFAT_CLUSTER_END, ef')" "read_on ef ef'"
    using next_cluster_read [OF r(1) nd vc(1) fb(2,1)] by auto
  have "unat (cluster_count (init_sb p)) \<noteq> 0" using vc(3) by simp
  then obtain k where k: "unat (cluster_count (init_sb p)) = Suc k" by (cases "unat (cluster_count (init_sb p))") auto
  have "sb ef' = init_sb p" using n(2) sb by (simp add: read_on_fields)
  then have "ExfatMount.rootdir_size os ef = Some (word_of_int (get_cluster_size p), ef')"
    using n(1) v z(2)
    by (simp add: ExfatMount.rootdir_size_def sb k c_def [symmetric] cluster_size64_def)
  then show ?thesis using n(2) by blast
qed

lemma sb_fields [simp]: "sb (ef\<lparr>node_brk := b\<rparr>) = sb ef" "sb (ef\<lparr>root := i\<rparr>) = sb ef"
  "sb (ef\<lparr>label := l\<rparr>) = sb ef" "sb (ef\<lparr>upcase := u\<rparr>) = sb ef" "sb (with_bitmap p m ef) = sb ef"
  by (simp_all add: sb_def with_bitmap_def)

lemma root_mounted:
  assumes wf: "mkfs_wf p" and ck: "check_size p (p_volume_size p) = 0" and cap: "p_volume_size p \<le> cap"
    and lf: "label_fits p" and r: "ready (dev ef)" "img (dev ef) = mkfs_image p m"
    and sb: "sb ef = init_sb p" and init: "upcase ef = None" "label ef = [0]" "ro ef = 0"
  shows "\<exists>ef'. mount_root os ef = Some (EOK, ef') \<and> mounted ready img p m ef'"
proof -
  have lb: "15 \<le> length (p_volume_label p)" using lf by (simp add: label_fits_def)
  define i where "i = node_brk ef"
  define nd where "nd = make_root (rootdir_cluster (init_sb p))"
  define e1 where "e1 = set_node i nd (set_node i zero_node (ef\<lparr>node_brk := i + 1, root := i\<rparr>))"
  define cs where "cs = (word_of_int (get_cluster_size p) :: u64)"
  have s: "512 \<le> get_cluster_size p" "get_cluster_size p \<le> 33554432" using wf_sizes [OF wf] by blast+
  then have cs: "uint cs = get_cluster_size p" unfolding cs_def by (intro uint_of_int_small) auto
  then have cs0: "cs \<noteq> 0" using s(1) by auto
  have f1: "ready (dev e1)" "img (dev e1) = mkfs_image p m" "sb e1 = init_sb p" "root e1 = i"
    "nodes e1 i = Some nd" "\<not> is_contiguous nd"
    using r sb by (simp_all add: e1_def nd_def make_root_def zero_node_def sb_def)
  obtain e2 where e2: "ExfatMount.rootdir_size os e1 = Some (cs, e2)" "read_on e1 e2"
    using rootdir_size_read [OF wf ck cap lb f1(1-3), of nd] f1(4-6) by (auto simp: cs_def)
  note f2 = read_on_fields [OF e2(2)]
  define nd3 where "nd3 = nd\<lparr>node_size := cs, valid_size := cs, references := 1\<rparr>"
  define e3 where "e3 = set_node i nd3 e2"
  have e3: "set_node i nd3 (set_node i (nd\<lparr>node_size := cs, valid_size := cs\<rparr>) e2) = e3"
    by (simp add: e3_def set_node_def)
  have at: "at_root p m i e3" "nodes e3 i = Some nd3" "\<not> is_cached nd3"
    "upcase e3 = None" "label e3 = [0]" "root e3 = i" "ro e3 = 0"
    using f1 f2 r init cs
    by (simp_all add: e3_def at_root_def nd3_def nd_def make_root_def zero_node_def sb_def e1_def)
  obtain e4 where e4: "exfat_cache_directory os i e3 = Some (EOK, set_node i (nd3\<lparr>is_cached := True\<rparr>) e4)"
    "read_on ((with_bitmap p m e3)\<lparr>label := volume_label p, upcase := Some mkfs_upcase\<rparr>) e4"
    using root_cached [OF wf ck cap lf at(1) at(4,5,2,3)] by blast
  note f4 = read_on_fields [OF e4(2)]
  define ef' where "ef' = set_node i (nd3\<lparr>is_cached := True\<rparr>) e4"
  have "allocate_node os ef = (Some i, set_node i zero_node (ef\<lparr>node_brk := i + 1\<rparr>))"
    using malloc_law [OF r(1)] by (simp add: allocate_node_def i_def)
  moreover have "set_node i nd (set_node i zero_node (ef\<lparr>node_brk := i + 1\<rparr>) \<lparr>root := i\<rparr>) = e1"
    by (simp add: e1_def set_node_def)
  moreover have "sb (set_node i zero_node (ef\<lparr>node_brk := i + 1\<rparr>) \<lparr>root := i\<rparr>) = init_sb p"
    using sb by (simp add: sb_def)
  moreover have "nodes e2 i = Some nd" using f2(2) f1(5) by simp
  moreover have "exfat_get_node i (set_node i (nd\<lparr>node_size := cs, valid_size := cs\<rparr>) e2) = Some (i, e3)"
    using e3 by (simp add: exfat_get_node_def nd3_def nd_def make_root_def zero_node_def)
  moreover have "upcase ef' \<noteq> None" "cmap_chunk ef' \<noteq> None"
    using f4 by (simp_all add: ef'_def with_bitmap_def)
  ultimately have "mount_root os ef = Some (EOK, ef')"
    using e2(1) cs0 e4(1) [folded ef'_def] sb
    by (simp add: mount_root_def Let_def nd_def [symmetric] del: not_None_eq)
  moreover have "mounted ready img p m ef'"
    using f4 at e1_def f1 f2
    by (simp add: mounted_def ef'_def with_bitmap_def sb_def nd3_def nd_def make_root_def zero_node_def cs
        e3_def at_root_def)
  ultimately show ?thesis by blast
qed

lemma supported:
  assumes wf: "mkfs_wf p" and ck: "check_size p (p_volume_size p) = 0" and cap: "p_volume_size p \<le> cap"
  shows "super_block_supported (init_sb p) cap"
proof -
  note s = wf_sizes [OF wf] and b = boot_fields [OF wf ck] and l = heap_less_clusters [OF wf ck]
  have "heap_clusters p * get_cluster_size p \<le> clusters p * get_cluster_size p"
    by (rule mult_right_mono) (use l(2) s(3) in auto)
  then have "heap_clusters p * get_cluster_size p \<le> cap" using s(6) cap by linarith
  then show ?thesis
    using b(4) init_sb_sizes(2) [OF wf]
    by (simp add: super_block_supported_def) (simp add: init_sb_def Let_def)
qed

lemma formatted_mounts:
  assumes wf: "mkfs_wf p" and ck: "check_size p (p_volume_size p) = 0" and cap: "p_volume_size p \<le> cap"
    and lf: "label_fits p" and r: "ready (dev ef)" "img (dev ef) = mkfs_image p m"
  shows "\<exists>ef'. exfat_mount os options ef = Some (EOK, ef') \<and> mounted ready img p m ef'"
proof -
  have lb: "15 \<le> length (p_volume_label p)" using lf by (simp add: label_fits_def)
  define e0 where "e0 = parse_options os options (clear_exfat (ef\<lparr>exfat_timezone :=
     exfat_tzset (os_gm_mktime os (dev ef)) (os_time os (dev ef))\<rparr>))"
  have f0: "dev e0 = dev ef" "upcase e0 = None" "label e0 = [0]" "ro e0 = 0"
    by (simp_all add: e0_def parse_options_def clear_exfat_def Let_def)
  obtain d1 where d1: "os_open os (mount_mode options) (dev ef) = (True, d1)" "ready d1" "img d1 = mkfs_image p m"
    using open_law [OF r(1), of "mount_mode options"] r(2) by auto
  have c: "512 \<le> cap" using root_position [OF wf ck] wf_sizes(3) [OF wf] cap by linarith
  have "mread (mkfs_image p m) 0 512 = vbr_sectors p ! 0" using sector_read [OF wf ck lb, of 0 m] by simp
  then have s0: "mread (mkfs_image p m) 0 512 = sb_bytes (init_sb p)" by (simp add: vbr_sectors_def)
  obtain d2 where d2: "os_pread os 512 0 d1 = (512, sb_bytes (init_sb p), d2)" "ready d2" "img d2 = mkfs_image p m"
    using pread_law [OF d1(2), of 0 512] c d1(3) s0 by auto
  define e2 where "e2 = e0\<lparr>dev := d2, sb_block := sb_bytes (init_sb p)\<rparr>"
  have "sb_of_bytes (sb_bytes (init_sb p)) = init_sb p"
    by (rule sb_of_sb_bytes) (simp add: sb_wf_def init_sb_def Let_def)
  then have f2: "sb e2 = init_sb p" "dev e2 = d2" by (simp_all add: e2_def sb_def)
  obtain e3 where e3: "verify_vbr_checksum os e2 = Some (True, e3)" "read_on e2 e3"
    using vbr_verified [OF wf ck lb cap, of e2] d2 f2 by auto
  note f3 = read_on_fields [OF e3(2)]
  obtain ef' where e': "mount_root os e3 = Some (EOK, ef')" "mounted ready img p m ef'"
    using root_mounted [OF wf ck cap lf, of e3 m] f3 f2 d2 f0 by (auto simp: e2_def)
  have "exfat_mount os options ef = Some (EOK, ef')"
    using d1 d2 e3(1) e'(1) f2 f3 mode_law [OF d1(2)] malloc_law [OF d1(2)] malloc_law [OF d2(2)]
      init_sb_sizes(4) [OF wf] supported [OF wf ck cap] size_law [OF f3(4)] 
    by (simp add: exfat_mount_def Let_def e0_def [symmetric] f0 e2_def)
  then show ?thesis using e'(2) by blast
qed
end

end
