(* ===== verification/ExfatStickMount.thy ===== *)
theory ExfatStickMount
  imports ExfatRoot
begin

text \<open>
  The library's device operations of exfat_bridge.cpp (\<open>exfat_open\<close>, \<open>exfat_pread\<close>,
  \<open>exfat_pwrite\<close> and the rest), which run on the USB driver, and what the library finds on a
  partition that the bridge's formatter has just written.
\<close>

section \<open>The device operations of the bridge\<close>

text \<open>\<open>whence\<close> is 0, 1 or 2 (\<open>SEEK_SET\<close>, \<open>SEEK_CUR\<close>, \<open>SEEK_END\<close>); any other leaves the position.\<close>

definition bridge_lseek :: "int \<Rightarrow> int \<Rightarrow> nat \<Rightarrow> 'w bridge \<Rightarrow> int \<times> 'w bridge" where
  "bridge_lseek volume_size offset whence bd =
    (let pos = (if whence = 0 then offset else if whence = 1 then br_pos bd + offset
                else if whence = 2 then volume_size + offset else br_pos bd)
     in (pos, bd\<lparr>br_pos := pos\<rparr>))"

definition bridge_open :: "'w usb \<Rightarrow> exfat_mode \<Rightarrow> 'w bridge \<Rightarrow> bool \<times> 'w bridge" where
  "bridge_open u mode bd =
    (if malloc_ok u 8 (g_world (br_drv bd)) then (True, bd\<lparr>br_pos := 0\<rparr>) else (False, bd))"

definition bridge_close :: "'w bridge \<Rightarrow> 'w bridge" where
  "bridge_close bd = bd"

definition bridge_get_mode :: "'w bridge \<Rightarrow> exfat_mode" where
  "bridge_get_mode bd = EXFAT_MODE_RW"

definition bridge_get_size :: "int \<Rightarrow> 'w bridge \<Rightarrow> int" where
  "bridge_get_size volume_size bd = volume_size"

text \<open>The caller's buffer is cleared memory in the model; on success every byte of it is
  overwritten.\<close>

definition bridge_pread :: "'w usb \<Rightarrow> nat \<Rightarrow> int \<Rightarrow> 'w bridge \<Rightarrow> int \<times> bytes \<times> 'w bridge" where
  "bridge_pread u n offset bd =
    (case scsi_pread u (replicate n 0) (int n) offset (br_drv bd) of
       None \<Rightarrow> (-1, replicate n 0, bd\<lparr>br_hung := True\<rparr>)
     | Some (res, buffer, d) \<Rightarrow> (res, buffer, bd\<lparr>br_drv := d\<rparr>))"

definition bridge_read :: "'w usb \<Rightarrow> nat \<Rightarrow> 'w bridge \<Rightarrow> int \<times> bytes \<times> 'w bridge" where
  "bridge_read u n bd =
    (let (res, buffer, bd') = bridge_pread u n (br_pos bd) bd
     in (res, buffer, if res > 0 then bd'\<lparr>br_pos := br_pos bd + res\<rparr> else bd'))"

definition bridge_pwrite :: "'w usb \<Rightarrow> bytes \<Rightarrow> int \<Rightarrow> 'w bridge \<Rightarrow> int \<times> 'w bridge" where
  "bridge_pwrite u buffer offset bd =
    (case scsi_pwrite u buffer (int (length buffer)) offset (br_drv bd) of
       None \<Rightarrow> (-1, bd\<lparr>br_hung := True\<rparr>)
     | Some (res, d) \<Rightarrow> (res, bd\<lparr>br_drv := d\<rparr>))"

text \<open>The clock, the user and the console of \<open>host\<close> are not the bridge's.\<close>

definition bridge_os :: "'w usb \<Rightarrow> int \<Rightarrow> 'w bridge exfat_os \<Rightarrow> 'w bridge exfat_os" where
  "bridge_os u volume_size host = host\<lparr>os_open := bridge_open u, os_close := bridge_close,
     os_mode := bridge_get_mode, os_size := bridge_get_size volume_size,
     os_pread := bridge_pread u, os_pwrite := bridge_pwrite u, os_fsync := bridge_fsync,
     os_malloc := (\<lambda>n bd. malloc_ok u n (g_world (br_drv bd)))\<rparr>"

section \<open>They form a volume\<close>

lemma bridge_view:
  assumes "bridge_ready idle cap epi epo base bd" "disk_inv idle cap epi epo d" "io_frame (br_drv bd) d"
  shows "bridge_ready idle cap epi epo base (bd\<lparr>br_drv := d\<rparr>)"
  using assms actual_offset_frame [OF assms(3), of 0] by (simp add: bridge_ready_def)

context partition_on_stick
begin

lemma bridge_offset:
  assumes r: "bridge_ready idle cap epi epo base bd" and off: "0 \<le> off" "off + int n \<le> int len"
  shows "disk_inv idle cap epi epo (br_drv bd)" "actual_offset (br_drv bd) off = int base + off"
    "0 \<le> actual_offset (br_drv bd) off" "actual_offset (br_drv bd) off + int n \<le> int (cap * 512)"
    "nat (actual_offset (br_drv bd) off) = base + nat off"
proof -
  show "disk_inv idle cap epi epo (br_drv bd)" using r by (simp add: bridge_ready_def)
  show a: "actual_offset (br_drv bd) off = int base + off"
    using r actual_offset_shift [of "br_drv bd" off] by (simp add: bridge_ready_def)
  show "0 \<le> actual_offset (br_drv bd) off" "actual_offset (br_drv bd) off + int n \<le> int (cap * 512)"
    "nat (actual_offset (br_drv bd) off) = base + nat off"
    using partition_fits off by (simp_all add: a nat_add_distrib)
qed

lemma bridge_pread_works:
  assumes r: "bridge_ready idle cap epi epo base bd" and off: "0 \<le> off" "off + int n \<le> int len"
    and n: "n < 2 ^ 31"
  shows "\<exists>bd'. bridge_pread u n off bd = (int n, mread (bridge_img store base bd) (nat off) n, bd')
    \<and> bridge_ready idle cap epi epo base bd' \<and> bridge_img store base bd' = bridge_img store base bd"
proof -
  note o = bridge_offset [OF r off]
  obtain d where d: "scsi_pread u (replicate n 0) (int n) off (br_drv bd)
      = Some (int n, mread (disk_view store (br_drv bd)) (base + nat off) n, d)"
    "disk_inv idle cap epi epo d" "disk_view store d = disk_view store (br_drv bd)" "io_frame (br_drv bd) d"
    using dev_pread [OF bot_device_axioms o(1,3), of "replicate n 0"] o(4,5) n by auto
  have "mread (disk_view store (br_drv bd)) (base + nat off) n = mread (bridge_img store base bd) (nat off) n"
    by (simp add: mread_def bridge_img_def shifted_def add.assoc)
  then show ?thesis
    using d(1,3) bridge_view [OF r d(2,4)] by (simp add: bridge_pread_def bridge_img_def)
qed

lemma bridge_pwrite_works:
  assumes r: "bridge_ready idle cap epi epo base bd" and off: "0 \<le> off" "off + int (length bs) \<le> int len"
    and n: "length bs < 2 ^ 31"
  shows "\<exists>bd'. bridge_pwrite u bs off bd = (int (length bs), bd')
    \<and> bridge_ready idle cap epi epo base bd'
    \<and> bridge_img store base bd' = mwrite (bridge_img store base bd) (nat off) bs"
proof -
  note o = bridge_offset [OF r off]
  obtain d where d: "scsi_pwrite u bs (int (length bs)) off (br_drv bd) = Some (int (length bs), d)"
    "disk_inv idle cap epi epo d" "io_frame (br_drv bd) d"
    "disk_view store d = mwrite (disk_view store (br_drv bd)) (base + nat off) bs"
    using dev_pwrite [OF bot_device_axioms o(1,3), of bs] o(4,5) n by auto
  then show ?thesis
    using bridge_view [OF r d(2,3)] by (simp add: bridge_pwrite_def bridge_img_def shifted_mwrite)
qed

end

sublocale partition_on_stick \<subseteq> library: volume_os "bridge_os u (int len) host"
  "bridge_ready idle cap epi epo base" "bridge_img store base" "int len"
proof unfold_locales
  show "\<exists>d'. os_open (bridge_os u (int len) host) mode d = (True, d')
      \<and> bridge_ready idle cap epi epo base d' \<and> bridge_img store base d' = bridge_img store base d"
    if "bridge_ready idle cap epi epo base d" for mode d
    using that by (simp add: bridge_os_def bridge_open_def malloc_succeeds bridge_ready_def bridge_img_def)
qed (auto simp: bridge_os_def bridge_get_mode_def bridge_get_size_def bridge_fsync_def malloc_succeeds
    bridge_pread_works bridge_pwrite_works)

context partition_on_stick
begin

lemma library_volume: "volume_os (bridge_os u (int len) host) (bridge_ready idle cap epi epo base)
    (bridge_img store base) (int len)"
  by unfold_locales

end

text \<open>The volume of the concrete stick.\<close>

interpretation stick_library: volume_os "bridge_os stick_usb 134217728 host"
  "bridge_ready stick_idle (2 ^ 32) 0x81 0x02 2097152" "bridge_img stick_medium 2097152" 134217728
  for host
  using stick_volume.library_volume [of host] by simp

section \<open>Formatting, then mounting\<close>

text \<open>C9: Mounting what the formatter wrote. After \<open>usb_scsi_format_exfat\<close> has returned success on a
  working stick, \<open>exfat_mount\<close> with the bridge's device operations returns, with any options, and
  succeeds: the up-case table in memory is the one the formatter carries, the label is the one
  given, the free clusters are all but those of the three objects of the heap, the root directory
  is one cluster long, cached and empty, and the volume is unchanged.\<close>

theorem formatted_partition_mounts:
  assumes dev: "bot_device u store idle cap epi epo" and inv: "disk_inv idle cap epi epo d"
    and p: "p = exfat_param cs name serial d"
    and base: "actual_offset d 0 = int base" "base + nat (p_volume_size p) \<le> cap * 512"
    and wf: "mkfs_wf p" and ck: "check_size p (p_volume_size p) = 0" and lf: "label_fits p"
  shows "\<exists>dev' ef' nd. usb_scsi_format_exfat u cs name serial d = (0, dev')
    \<and> exfat_mount (bridge_os u (p_volume_size p) host) options (ef\<lparr>dev := dev'\<rparr>) = Some (EOK, ef')
    \<and> sb ef' = init_sb p \<and> upcase ef' = Some mkfs_upcase \<and> exfat_get_label ef' = volume_label p
    \<and> exfat_count_free_clusters ef' = Some (cluster_count (init_sb p) - allocated_clusters p)
    \<and> nodes ef' (root ef') = Some nd \<and> is_cached nd \<and> node_child nd = None
    \<and> uint (node_size nd) = get_cluster_size p
    \<and> bridge_img store base (dev ef') = bridge_img store base dev'"
proof -
  define len where "len = nat (p_volume_size p)"
  have v: "int len = p_volume_size p" using heap_fits(1) [OF wf ck] heap_start_bounds(1) [OF wf] wf_sizes(5) [OF wf]
    by (simp add: len_def)
  have loc: "partition_on_stick u store idle cap epi epo base len"
    using dev base(2) by (simp add: partition_on_stick_def partition_on_stick_axioms_def len_def)
  have lb: "15 \<le> length (p_volume_label p)" using lf by (simp add: label_fits_def)
  define d0 where "d0 = \<lparr>br_pos = 0, br_drv = d, br_hung = False\<rparr>"
  define m where "m = bridge_img store base d0"
  have r: "bridge_ready idle cap epi epo base d0"
    using inv base(1) by (simp add: bridge_ready_def d0_def)
  obtain dev' where d': "usb_scsi_format_exfat u cs name serial d = (0, dev')"
    "bridge_ready idle cap epi epo base dev'" "bridge_img store base dev' = mkfs_image p m"
    using mkfs_writes_image_on [OF partition_on_stick.device [OF loc] r wf ck lb] v
    by (auto simp: usb_scsi_format_exfat_def Let_def d0_def p [symmetric] m_def)
  have "\<exists>ef'. exfat_mount (bridge_os u (int len) host) options (ef\<lparr>dev := dev'\<rparr>) = Some (EOK, ef')
      \<and> mounted (bridge_ready idle cap epi epo base) (bridge_img store base) p m ef'"
    by (rule volume_os.formatted_mounts [OF partition_on_stick.library_volume [OF loc] wf ck _ lf])
      (use d' v in auto)
  then obtain ef' where ef': "exfat_mount (bridge_os u (p_volume_size p) host) options (ef\<lparr>dev := dev'\<rparr>) = Some (EOK, ef')"
    "mounted (bridge_ready idle cap epi epo base) (bridge_img store base) p m ef'"
    by (auto simp: v)
  have "exfat_count_free_clusters ef' = Some (cluster_count (init_sb p) - allocated_clusters p)"
    by (rule count_free_formatted [OF wf ck lb]) (use ef'(2) in \<open>auto simp: mounted_def\<close>)
  then show ?thesis
    using d' ef' by (auto simp: mounted_def exfat_get_label_def)
qed

lemma part_label:
  "label_fits (exfat_param 4096 [0x55] 7 (part_drv m))"
  "volume_label (exfat_param 4096 [0x55] 7 (part_drv m)) = [0x55, 0]"
proof -
  have m: "label_memory [0x55] 7 = 0x55 # replicate 15 0 @ [7, 0, 0]" by code_simp
  have u: "exfat_utf16_to_utf8 (0x55 # replicate 14 0) 46 = Inr [0x55, 0]" by code_simp
  have t: "take 15 (label_memory [0x55] 7) = 0x55 # replicate 14 0" by (simp add: m)
  have l: "exfat_utf16_length (label_memory [0x55] 7) = 1" by (simp add: m exfat_utf16_length_def)
  show "label_fits (exfat_param 4096 [0x55] 7 (part_drv m))"
    "volume_label (exfat_param 4096 [0x55] 7 (part_drv m)) = [0x55, 0]"
    by (simp_all add: label_fits_def volume_label_def part_param t l u label_memory_length)
qed

lemma formatted_partition_mounts_witness:
  "\<exists>dev' ef'. usb_scsi_format_exfat stick_usb 4096 [0x55] 7 (part_drv (\<lambda>_. 9)) = (0, dev')
    \<and> exfat_mount (bridge_os stick_usb 67108864 no_os) ''ro'' (blank_fs dev') = Some (EOK, ef')
    \<and> exfat_get_label ef' = [0x55, 0]"
proof -
  define p where "p = exfat_param 4096 [0x55] 7 (part_drv (\<lambda>_. 9))"
  have v: "p_volume_size p = 67108864" by (simp add: p_def part_param)
  have b: "2097152 + nat (p_volume_size p) \<le> 2 ^ 32 * 512" by (simp add: v)
  from formatted_partition_mounts [OF stick_device part_drv_inv(1) p_def part_drv_inv(3) b
      part_param_ok(2,3) [where m = "\<lambda>_. 9", folded p_def] part_label(1) [where m = "\<lambda>_. 9", folded p_def], of no_os "''ro''" "blank_fs undefined"]
  show ?thesis using part_label(2) [of "\<lambda>_. 9", folded p_def] by (auto simp: v blank_fs_def)
qed

end
