(* ===== verification/DriverRun.thy ===== *)
theory DriverRun
  imports ScsiProps
begin

text \<open>
  Runs of the driver: the operations usb_scsi.cpp offers to the formatters, in any order and
  number, against a flat file with a position. The step relation \<open>reached\<close> carries the driver's
  invariant, and a whole run refines the run of the file.
\<close>

section \<open>Operations\<close>

text \<open>A read names the buffer it overwrites; \<open>whence\<close> is 0, 1 or 2.\<close>

datatype drv_op =
    Pread bytes int
  | Pwrite bytes int
  | Read bytes
  | Write bytes
  | Lseek int int
  | Sync

datatype drv_res =
    Bytes int bytes
  | Count int

definition drv_exec :: "'w usb \<Rightarrow> drv_op \<Rightarrow> 'w drv \<Rightarrow> (drv_res \<times> 'w drv) option" where
  "drv_exec u op d =
    (case op of
       Pread buf off \<Rightarrow> map_option (\<lambda>(r, b, d). (Bytes r b, d)) (scsi_pread u buf (int (length buf)) off d)
     | Pwrite buf off \<Rightarrow> map_option (\<lambda>(r, d). (Count r, d)) (scsi_pwrite u buf (int (length buf)) off d)
     | Read buf \<Rightarrow> map_option (\<lambda>(r, b, d). (Bytes r b, d)) (usb_scsi_read_internal u buf (int (length buf)) d)
     | Write buf \<Rightarrow> map_option (\<lambda>(r, d). (Count r, d)) (usb_scsi_write_internal u buf (int (length buf)) d)
     | Lseek off whence \<Rightarrow> (case usb_scsi_lseek_internal off whence d of (r, d) \<Rightarrow> Some (Count r, d))
     | Sync \<Rightarrow> (case usb_scsi_sync u d of (r, d) \<Rightarrow> Some (Count r, d)))"

fun drv_run :: "'w usb \<Rightarrow> drv_op list \<Rightarrow> 'w drv \<Rightarrow> (drv_res list \<times> 'w drv) option" where
  "drv_run u [] d = Some ([], d)"
| "drv_run u (op # ops) d =
    Option.bind (drv_exec u op d) (\<lambda>(r, d).
      map_option (\<lambda>(rs, d). (r # rs, d)) (drv_run u ops d))"

section \<open>The file\<close>

text \<open>The window on the stick: where the partition starts, in bytes, and where a seek to its end
  goes.\<close>

definition window_base :: "'w drv \<Rightarrow> int" where
  "window_base d = actual_offset d 0"

definition window_end :: "'w drv \<Rightarrow> int" where
  "window_end d = sint (usb_scsi_get_usable_sectors d * ucast (g_sector_size d))"

definition in_range :: "nat \<Rightarrow> int \<Rightarrow> int \<Rightarrow> bytes \<Rightarrow> bool" where
  "in_range cap base off buf \<longleftrightarrow>
     0 \<le> base + off \<and> length buf \<le> 2 ^ 31 \<and> base + off + int (length buf) \<le> int (cap * 512)"

text \<open>The position moves past the bytes of a sequential operation.\<close>

definition flat_exec ::
  "nat \<Rightarrow> int \<Rightarrow> int \<Rightarrow> drv_op \<Rightarrow> medium \<times> int \<Rightarrow> (drv_res \<times> medium \<times> int) option" where
  "flat_exec cap base eof op = (\<lambda>(m, pos).
    case op of
       Pread buf off \<Rightarrow> if in_range cap base off buf
         then Some (Bytes (int (length buf)) (mread m (nat (base + off)) (length buf)), m, pos) else None
     | Pwrite buf off \<Rightarrow> if in_range cap base off buf
         then Some (Count (int (length buf)), mwrite m (nat (base + off)) buf, pos) else None
     | Read buf \<Rightarrow> if in_range cap base pos buf
         then Some (Bytes (int (length buf)) (mread m (nat (base + pos)) (length buf)), m, pos + int (length buf))
         else None
     | Write buf \<Rightarrow> if in_range cap base pos buf
         then Some (Count (int (length buf)), mwrite m (nat (base + pos)) buf, pos + int (length buf)) else None
     | Lseek off whence \<Rightarrow>
         let pos = (if whence = 0 then off else if whence = 1 then pos + off
                    else if whence = 2 then eof + off else pos)
         in Some (Count pos, m, pos)
     | Sync \<Rightarrow> Some (Count 0, m, pos))"

fun flat_run ::
  "nat \<Rightarrow> int \<Rightarrow> int \<Rightarrow> drv_op list \<Rightarrow> medium \<times> int \<Rightarrow> (drv_res list \<times> medium \<times> int) option" where
  "flat_run cap base eof [] s = Some ([], s)"
| "flat_run cap base eof (op # ops) s =
    Option.bind (flat_exec cap base eof op s) (\<lambda>(r, s).
      map_option (\<lambda>(rs, s). (r # rs, s)) (flat_run cap base eof ops s))"

section \<open>One step\<close>

definition flat_view :: "('w \<Rightarrow> medium) \<Rightarrow> 'w drv \<Rightarrow> medium \<times> int" where
  "flat_view store d = (disk_view store d, g_cur_pos d)"

definition same_window :: "'w drv \<Rightarrow> 'w drv \<Rightarrow> bool" where
  "same_window d d' \<longleftrightarrow> g_sector_size d' = g_sector_size d \<and> g_sector_count d' = g_sector_count d
     \<and> g_drive_offset_sectors d' = g_drive_offset_sectors d
     \<and> g_partition_sectors d' = g_partition_sectors d \<and> g_partition_type d' = g_partition_type d"

lemma same_window_refl [simp]: "same_window d d"
  by (simp add: same_window_def)

lemma same_window_trans: "same_window a b \<Longrightarrow> same_window b c \<Longrightarrow> same_window a c"
  by (simp add: same_window_def)

lemma same_window_cur_pos [simp]: "same_window d (d'\<lparr>g_cur_pos := p\<rparr>) = same_window d d'"
  by (simp add: same_window_def)

lemma same_window_frame: "io_frame d d' \<Longrightarrow> same_window d d'"
  by (simp add: same_window_def io_frame_fields)

lemma same_window_ends: "same_window d d' \<Longrightarrow> window_base d' = window_base d \<and> window_end d' = window_end d"
  by (simp add: same_window_def window_base_def window_end_def actual_offset_def usb_scsi_get_usable_sectors_def)

lemma window_offset: "actual_offset d off = window_base d + off"
  by (simp add: window_base_def actual_offset_def)

text \<open>An operation the file can do, the driver does, with the same result and the same effect.\<close>

lemma drv_step:
  assumes dev: "bot_device u store idle cap epi epo" and inv: "disk_inv idle cap epi epo d"
    and flat: "flat_exec cap (window_base d) (window_end d) op (flat_view store d) = Some (r, s)"
  shows "\<exists>d'. drv_exec u op d = Some (r, d') \<and> disk_inv idle cap epi epo d'
    \<and> flat_view store d' = s \<and> same_window d d'"
proof -
  note wr = dev_pwrite [OF dev inv] and rd = dev_pread [OF dev inv]
  show ?thesis
  proof (cases op)
    case (Pread buf off)
    then show ?thesis
      using rd [of off buf] flat
      by (auto simp: drv_exec_def flat_exec_def flat_view_def in_range_def window_offset io_frame_fields
          intro: same_window_frame split: if_splits)
  next
    case (Pwrite buf off)
    then show ?thesis
      using wr [of off buf] flat
      by (auto simp: drv_exec_def flat_exec_def flat_view_def in_range_def window_offset io_frame_fields
          intro: same_window_frame split: if_splits)
  next
    case (Read buf)
    then show ?thesis
      using rd [of "g_cur_pos d" buf] flat
      by (cases "buf = []")
        (auto simp: drv_exec_def flat_exec_def flat_view_def in_range_def window_offset io_frame_fields
          usb_scsi_read_internal_def intro: same_window_frame split: if_splits)
  next
    case (Write buf)
    then show ?thesis
      using wr [of "g_cur_pos d" buf] flat
      by (cases "buf = []")
        (auto simp: drv_exec_def flat_exec_def flat_view_def in_range_def window_offset io_frame_fields
          usb_scsi_write_internal_def intro: same_window_frame split: if_splits)
  next
    case (Lseek off whence)
    then show ?thesis
      using inv flat
      by (auto simp: drv_exec_def flat_exec_def flat_view_def usb_scsi_lseek_internal_def window_end_def Let_def)
  next
    case Sync
    then show ?thesis
      using dev_sync [OF dev inv] flat
      by (auto simp: drv_exec_def flat_exec_def flat_view_def io_frame_fields intro: same_window_frame)
  qed
qed

lemma drv_run_refines:
  assumes dev: "bot_device u store idle cap epi epo" and inv: "disk_inv idle cap epi epo d"
    and flat: "flat_run cap (window_base d) (window_end d) ops (flat_view store d) = Some (rs, s)"
  shows "\<exists>d'. drv_run u ops d = Some (rs, d') \<and> disk_inv idle cap epi epo d'
    \<and> flat_view store d' = s \<and> same_window d d'"
  using inv flat
proof (induction ops arbitrary: d rs)
  case Nil
  then show ?case by simp
next
  case (Cons op ops)
  obtain r t rs' where f: "flat_exec cap (window_base d) (window_end d) op (flat_view store d) = Some (r, t)"
    "flat_run cap (window_base d) (window_end d) ops t = Some (rs', s)" "rs = r # rs'"
    using Cons.prems(2) by (auto simp: bind_eq_Some_conv)
  obtain d1 where d1: "drv_exec u op d = Some (r, d1)" "disk_inv idle cap epi epo d1"
    "flat_view store d1 = t" "same_window d d1"
    using drv_step [OF dev Cons.prems(1) f(1)] by blast
  obtain d' where "drv_run u ops d1 = Some (rs', d')" "disk_inv idle cap epi epo d'"
    "flat_view store d' = s" "same_window d1 d'"
    using Cons.IH [OF d1(2)] f(2) d1(3) same_window_ends [OF d1(4)] by auto
  then show ?case
    using d1 f(3) same_window_trans by (intro exI [of _ d']) auto
qed

section \<open>Reachable states\<close>

text \<open>What the driver can reach from a state with operations the file can do.\<close>

inductive reached :: "'w usb \<Rightarrow> ('w \<Rightarrow> medium) \<Rightarrow> nat \<Rightarrow> 'w drv \<Rightarrow> 'w drv \<Rightarrow> bool"
  for u :: "'w usb" and store :: "'w \<Rightarrow> medium" and cap :: nat and d0 :: "'w drv" where
  start: "reached u store cap d0 d0"
| step: "reached u store cap d0 d \<Longrightarrow>
    flat_exec cap (window_base d) (window_end d) op (flat_view store d) \<noteq> None \<Longrightarrow>
    drv_exec u op d = Some (r, d') \<Longrightarrow> reached u store cap d0 d'"

lemma reached_inv:
  assumes dev: "bot_device u store idle cap epi epo" and inv: "disk_inv idle cap epi epo d0"
    and r: "reached u store cap d0 d"
  shows "disk_inv idle cap epi epo d \<and> same_window d0 d"
  using r
proof (induction rule: reached.induct)
  case start
  then show ?case using inv by simp
next
  case (step d op r d')
  then show ?case
    using drv_step [OF dev, of d op] same_window_trans by fastforce
qed

section \<open>Properties\<close>

text \<open>C5: Whatever positioned and sequential reads and writes, seeks and flushes are run on the
  driver of a working stick, as long as each stays on the stick, the run returns, every operation
  gives the result that a plain file of the same content and position would give, and one more
  \<open>usb_scsi_sync\<close> leaves on the stick exactly the content of that file. The write cache, its
  flushes and the read-patch-write of partial sectors cannot be observed.\<close>

theorem driver_run_refines_file:
  assumes dev: "bot_device u store idle cap epi epo" and inv: "disk_inv idle cap epi epo d"
    and flat: "flat_run cap (window_base d) (window_end d) ops (flat_view store d) = Some (rs, m, pos)"
  shows "\<exists>d' d''. drv_run u ops d = Some (rs, d') \<and> g_cur_pos d' = pos \<and> disk_view store d' = m
    \<and> usb_scsi_sync u d' = (0, d'') \<and> store (g_world d'') = m"
proof -
  obtain d' where d': "drv_run u ops d = Some (rs, d')" "disk_inv idle cap epi epo d'"
    "flat_view store d' = (m, pos)"
    using drv_run_refines [OF assms] by blast
  show ?thesis
    using d' dev_sync [OF dev d'(2)] by (auto simp: flat_view_def)
qed

lemma driver_run_refines_file_witness:
  "\<exists>d'. drv_run stick_usb [Write [1, 2], Lseek (-1) 1, Pwrite [9] 0, Read [0, 0], Sync] (stick_drv (\<lambda>_. 7))
      = Some ([Count 2, Count 1, Count 1, Bytes 2 [2, 7], Count 0], d')
    \<and> stick_medium (g_world (snd (usb_scsi_sync stick_usb d'))) 0 = 9 \<and> g_cur_pos d' = 3"
proof -
  have b: "window_base (stick_drv (\<lambda>_. 7)) = 0" by (simp add: window_base_def stick_actual_offset)
  have v: "flat_view stick_medium (stick_drv (\<lambda>_. 7)) = (\<lambda>_. 7, 0)"
    by (simp add: flat_view_def stick_inv stick_cur_pos)
  have f: "flat_run (2 ^ 32) (window_base (stick_drv (\<lambda>_. 7))) (window_end (stick_drv (\<lambda>_. 7)))
      [Write [1, 2], Lseek (-1) 1, Pwrite [9] 0, Read [0, 0], Sync] (flat_view stick_medium (stick_drv (\<lambda>_. 7)))
      = Some ([Count 2, Count 1, Count 1, Bytes 2 [2, 7], Count 0],
              mwrite (mwrite (\<lambda>_. 7) 0 [1, 2]) 0 [9], 3)"
    by (simp add: b v flat_exec_def in_range_def mread_def mwrite_def upt_rec)
  show ?thesis
    using driver_run_refines_file [OF stick_device stick_inv(1) f] by (auto simp: mwrite_def)
qed

text \<open>C6: In every state the driver can reach from a sound one, in whatever order the operations
  come, the driver is still bound to the stick, the cached run is at most the 2048 sectors the
  cache holds and lies on the stick, the window of the partition has not moved, and every
  operation that stays on the stick returns and leads to such a state again.\<close>

theorem reached_states_are_sound:
  assumes dev: "bot_device u store idle cap epi epo" and inv: "disk_inv idle cap epi epo d0"
    and reach: "reached u store cap d0 d"
  shows "bound_to idle epi epo d \<and> unat (g_cache_sectors d) \<le> 2048
    \<and> (g_cache_sectors d \<noteq> 0 \<longrightarrow> unat (g_cache_lba d) + unat (g_cache_sectors d) \<le> cap)
    \<and> window_base d = window_base d0 \<and> window_end d = window_end d0
    \<and> (\<forall>op. flat_exec cap (window_base d) (window_end d) op (flat_view store d) \<noteq> None
        \<longrightarrow> (\<exists>r d'. drv_exec u op d = Some (r, d') \<and> reached u store cap d0 d'))"
proof -
  have i: "disk_inv idle cap epi epo d" "same_window d0 d" using reached_inv [OF assms] by auto
  have c: "unat (g_cache_sectors d) \<le> 2048
      \<and> (g_cache_sectors d \<noteq> 0 \<longrightarrow> unat (g_cache_lba d) + unat (g_cache_sectors d) \<le> cap)"
    using i(1) by (auto simp: disk_inv_def cache_wf_def split: option.splits)
  have "\<exists>r d'. drv_exec u op d = Some (r, d') \<and> reached u store cap d0 d'"
    if "flat_exec cap (window_base d) (window_end d) op (flat_view store d) \<noteq> None" for op
    using drv_step [OF dev i(1), of op] that reached.step [OF reach that] by fastforce
  then show ?thesis
    using i(1) c same_window_ends [OF i(2)] by (simp add: disk_inv_def)
qed

lemma reached_states_are_sound_witness:
  "\<exists>d. drv_exec stick_usb (Write [1, 2]) (stick_drv (\<lambda>_. 7)) = Some (Count 2, d)
    \<and> unat (g_cache_sectors d) \<le> 2048 \<and> bound_to stick_idle 0x81 0x02 d"
proof -
  have b: "window_base (stick_drv (\<lambda>_. 7)) = 0" by (simp add: window_base_def stick_actual_offset)
  have v: "flat_view stick_medium (stick_drv (\<lambda>_. 7)) = (\<lambda>_. 7, 0)"
    by (simp add: flat_view_def stick_inv stick_cur_pos)
  have f: "flat_exec (2 ^ 32) (window_base (stick_drv (\<lambda>_. 7))) (window_end (stick_drv (\<lambda>_. 7))) (Write [1, 2])
      (flat_view stick_medium (stick_drv (\<lambda>_. 7))) = Some (Count 2, mwrite (\<lambda>_. 7) 0 [1, 2], 2)"
    by (simp add: b v flat_exec_def in_range_def)
  obtain d where d: "drv_exec stick_usb (Write [1, 2]) (stick_drv (\<lambda>_. 7)) = Some (Count 2, d)"
    using drv_step [OF stick_device stick_inv(1) f] by auto
  have "reached stick_usb stick_medium (2 ^ 32) (stick_drv (\<lambda>_. 7)) d"
    using reached.step [OF reached.start _ d] f by simp
  from reached_states_are_sound [OF stick_device stick_inv(1) this] d show ?thesis by auto
qed

end
