(* ===== verification/BridgeProps.thy ===== *)
theory BridgeProps
  imports FormatBridges DriverRun
begin

text \<open>
  What the formatters of other projects can rely on when their device I/O is redirected to the
  driver: the I/O manager of mke2fs is an array of blocks, vectored I/O of mkfs.xfs is I/O of the
  concatenation, and the fill operation of mkfs.f2fs does not reach the stick.
\<close>

section \<open>C integers\<close>

lemma s64_id: "- (2 ^ 63) \<le> x \<Longrightarrow> x < 2 ^ 63 \<Longrightarrow> s64 x = x"
  by (simp add: s64_def signed_of_int signed_take_bit_int_eq_self)

lemma s64_nat: "n < 2 ^ 63 \<Longrightarrow> s64 (int n) = int n"
  by (rule s64_id) simp_all

lemma s32_id: "- (2 ^ 31) \<le> x \<Longrightarrow> x < 2 ^ 31 \<Longrightarrow> s32 x = x"
  by (simp add: s32_def signed_of_int signed_take_bit_int_eq_self)

lemma sint_small: "unat (w :: u64) < 2 ^ 63 \<Longrightarrow> sint w = int (unat w)"
  using sint_of_nat_small [of "unat w"] by simp

section \<open>Exit statuses\<close>

text \<open>What counts as success of a formatter that calls \<open>exit\<close>.\<close>

lemma exit_status_minus_one: "engine_result (EngineExited status) = 0 \<longleftrightarrow> status = 0 \<or> status = -1"
  by (simp add: engine_result_def exit_jump_def)

section \<open>Blocks of mke2fs\<close>

text \<open>The bytes a request of so many blocks (or, if negative, bytes) covers.\<close>

definition request_bytes :: "nat \<Rightarrow> int \<Rightarrow> nat" where
  "request_bytes bs count = (if count < 0 then nat (- count) else nat count * bs)"

lemma ext_request:
  assumes bs: "ioc_block_size ch = int bs" "0 < bs" and count: "- (2 ^ 31) < count"
    and fits: "unat block * bs + request_bytes bs count < 2 ^ 62"
  shows "ext_size ch count = int (request_bytes bs count)" "ext_offset ch block = int (unat block * bs)"
proof -
  show "ext_size ch count = int (request_bytes bs count)"
  proof (cases "count < 0")
    case True
    then show ?thesis using count by (simp add: ext_size_def request_bytes_def s32_id)
  next
    case False
    then have "count * int bs = int (nat count * bs)" by simp
    moreover have "nat count * bs < 2 ^ 62" using fits False by (simp add: request_bytes_def)
    then have "s64 (int (nat count * bs)) = int (nat count * bs)" by (intro s64_nat) simp
    ultimately show ?thesis using False by (simp add: ext_size_def request_bytes_def bs)
  qed
  have "unat block \<le> unat block * bs" using bs(2) by simp
  then have "unat block < 2 ^ 62" using fits by linarith
  then have "sint block = int (unat block)" by (intro sint_small) simp
  moreover have "s64 (int (unat block * bs)) = int (unat block * bs)"
    using fits by (intro s64_nat) simp
  ultimately show "ext_offset ch block = int (unat block * bs)"
    by (simp add: ext_offset_def bs)
qed

text \<open>C29: The I/O manager of mke2fs on the stick is an array of blocks. After a write of some blocks
  (or, for a negative count, of so many bytes) the channel reports success and the partition holds
  the data at the place of the first block and is otherwise as before; any later read of any
  blocks returns what the partition then holds.\<close>

theorem ext_channel_is_block_array:
  assumes dev: "bot_device u store idle cap epi epo" and inv: "disk_inv idle cap epi epo d"
    and base: "actual_offset d 0 = int base"
    and bs: "ioc_block_size ch = int bs" "0 < bs" and count: "- (2 ^ 31) < count" "- (2 ^ 31) < k"
    and data: "length data = request_bytes bs count" "length data < 2 ^ 32"
    and fits: "base + unat block * bs + length data \<le> cap * 512"
    and buf: "length buf = request_bytes bs k" "length buf \<le> 2 ^ 31"
    and fits': "base + unat block' * bs + length buf \<le> cap * 512"
  shows "\<exists>d1 d2 m. scsi_write_blk64 u ch block count data d = Some (ERR_OK, d1)
    \<and> m = mwrite (disk_view store d) (base + unat block * bs) data \<and> disk_view store d1 = m
    \<and> scsi_read_blk64 u ch block' k buf d1
      = Some (ERR_OK, mread m (base + unat block' * bs) (length buf), d2) \<and> disk_view store d2 = m"
proof -
  have cap: "cap * 512 \<le> 2 ^ 41" using dev by (simp add: bot_device_def)
  have w: "ext_size ch count = int (length data)" "ext_offset ch block = int (unat block * bs)"
    using ext_request [OF bs count(1), of block] data(1) fits cap by simp_all
  have r: "ext_size ch k = int (length buf)" "ext_offset ch block' = int (unat block' * bs)"
    using ext_request [OF bs count(2), of block'] buf(1) fits' cap by simp_all
  have a: "actual_offset d (int n) = int (base + n)" for n
    using base by (simp add: actual_offset_def)
  have pa: "0 \<le> actual_offset d (int (unat block * bs))"
    "actual_offset d (int (unat block * bs)) + int (length data) \<le> int (cap * 512)"
    "nat (actual_offset d (int (unat block * bs))) = base + unat block * bs"
    unfolding a using fits by linarith+
  obtain d1 where d1: "scsi_pwrite u data (int (length data)) (int (unat block * bs)) d = Some (int (length data), d1)"
    "disk_inv idle cap epi epo d1" "io_frame d d1"
    "disk_view store d1 = mwrite (disk_view store d) (base + unat block * bs) data"
    using dev_pwrite [OF dev inv pa(1) data(2) pa(2)] unfolding pa(3) by blast
  have a1: "actual_offset d1 (int n) = int (base + n)" for n
    using actual_offset_frame [OF d1(3)] a by simp
  have pb: "0 \<le> actual_offset d1 (int (unat block' * bs))"
    "actual_offset d1 (int (unat block' * bs)) + int (length buf) \<le> int (cap * 512)"
    "nat (actual_offset d1 (int (unat block' * bs))) = base + unat block' * bs"
    unfolding a1 using fits' by linarith+
  obtain d2 where d2: "scsi_pread u buf (int (length buf)) (int (unat block' * bs)) d1
      = Some (int (length buf), mread (disk_view store d1) (base + unat block' * bs) (length buf), d2)"
    "disk_view store d2 = disk_view store d1"
    using dev_pread [OF dev d1(2) pb(1) buf(2) pb(2)] unfolding pb(3) by blast
  show ?thesis
    using d1 d2 by (auto simp: scsi_write_blk64_def scsi_read_blk64_def w r simp del: of_nat_mult)
qed

lemma ext_channel_is_block_array_witness:
  "\<exists>d1 d2. scsi_write_blk64 stick_usb \<lparr>ioc_magic = EXT2_ET_MAGIC_IO_CHANNEL, ioc_name = [], ioc_block_size = 2,
        ioc_refcount = 1\<rparr> 3 2 [1, 2, 3, 4] (stick_drv (\<lambda>_. 7)) = Some (ERR_OK, d1)
    \<and> scsi_read_blk64 stick_usb \<lparr>ioc_magic = EXT2_ET_MAGIC_IO_CHANNEL, ioc_name = [], ioc_block_size = 2,
        ioc_refcount = 1\<rparr> 4 (- 3) [0, 0, 0] d1 = Some (ERR_OK, [3, 4, 7], d2)"
  using ext_channel_is_block_array [OF stick_device stick_inv(1), of "\<lambda>_. 7" 0
      "\<lparr>ioc_magic = EXT2_ET_MAGIC_IO_CHANNEL, ioc_name = [], ioc_block_size = 2, ioc_refcount = 1\<rparr>" 2 2 "- 3"
      "[1, 2, 3, 4]" 3 "[0, 0, 0]" 4]
  by (auto simp: stick_actual_offset stick_inv request_bytes_def mread_def mwrite_def upt_rec)

section \<open>Vectored I/O of mkfs.xfs\<close>

text \<open>Cutting a string of bytes into pieces of given lengths.\<close>

fun cut :: "nat list \<Rightarrow> bytes \<Rightarrow> bytes list" where
  "cut [] bs = []"
| "cut (n # ns) bs = take n bs # cut ns (drop n bs)"

lemma cut_concat: "cut (map length vs) (concat vs) = vs"
  by (induction vs) simp_all

lemma sum_length: "length (concat vs) = sum_list (map length vs)"
  by (simp add: length_concat)

lemma pwritev_on:
  assumes dev: "bot_device u store idle cap epi epo"
  shows "disk_inv idle cap epi epo d \<Longrightarrow> 0 \<le> actual_offset d off
    \<Longrightarrow> actual_offset d off + int (length (concat iov)) \<le> int (cap * 512) \<Longrightarrow> length (concat iov) < 2 ^ 32
    \<Longrightarrow> \<exists>d'. xfs_pwritev_loop u iov t off d = Some (t + int (length (concat iov)), d')
      \<and> disk_inv idle cap epi epo d' \<and> io_frame d d'
      \<and> disk_view store d' = mwrite (disk_view store d) (nat (actual_offset d off)) (concat iov)"
proof (induction iov arbitrary: t off d)
  case Nil
  then show ?case by simp
next
  case (Cons v iov)
  obtain d1 where d1: "scsi_pwrite u v (int (length v)) off d = Some (int (length v), d1)"
    "disk_inv idle cap epi epo d1" "io_frame d d1"
    "disk_view store d1 = mwrite (disk_view store d) (nat (actual_offset d off)) v"
    using dev_pwrite [OF dev Cons.prems(1,2), of v] Cons.prems(3,4) by auto
  have o1: "actual_offset d1 (off + int (length v)) = actual_offset d off + int (length v)"
    using actual_offset_frame [OF d1(3)] by (simp add: actual_offset_def)
  obtain d' where "xfs_pwritev_loop u iov (t + int (length v)) (off + int (length v)) d1
      = Some (t + int (length v) + int (length (concat iov)), d')"
    "disk_inv idle cap epi epo d'" "io_frame d1 d'"
    "disk_view store d' = mwrite (disk_view store d1) (nat (actual_offset d off + int (length v))) (concat iov)"
    using Cons.IH [OF d1(2), of "off + int (length v)" "t + int (length v)"] Cons.prems o1 by auto
  then show ?case
    using d1 io_frame_trans [OF d1(3)] Cons.prems(2)
    by (auto simp: mwrite_append nat_add_distrib)
qed

lemma preadv_on:
  assumes dev: "bot_device u store idle cap epi epo"
  shows "disk_inv idle cap epi epo d \<Longrightarrow> 0 \<le> actual_offset d off
    \<Longrightarrow> actual_offset d off + int (length (concat iov)) \<le> int (cap * 512) \<Longrightarrow> length (concat iov) \<le> 2 ^ 31
    \<Longrightarrow> \<exists>d'. xfs_preadv_loop u iov t off d = Some (t + int (length (concat iov)),
          cut (map length iov) (mread (disk_view store d) (nat (actual_offset d off)) (length (concat iov))), d')"
proof (induction iov arbitrary: t off d)
  case Nil
  then show ?case by simp
next
  case (Cons v iov)
  obtain d1 where d1: "scsi_pread u v (int (length v)) off d = Some (int (length v),
      mread (disk_view store d) (nat (actual_offset d off)) (length v), d1)"
    "disk_inv idle cap epi epo d1" "io_frame d d1" "disk_view store d1 = disk_view store d"
    using dev_pread [OF dev Cons.prems(1,2), of v] Cons.prems(3,4) by auto
  have o1: "actual_offset d1 (off + int (length v)) = actual_offset d off + int (length v)"
    using actual_offset_frame [OF d1(3)] by (simp add: actual_offset_def)
  obtain d' where d': "xfs_preadv_loop u iov (t + int (length v)) (off + int (length v)) d1
      = Some (t + int (length v) + int (length (concat iov)), cut (map length iov)
          (mread (disk_view store d) (nat (actual_offset d off + int (length v))) (length (concat iov))), d')"
    using Cons.IH [OF d1(2), of "off + int (length v)" "t + int (length v)"] Cons.prems o1 d1(4) by auto
  show ?case
    using d1(1) d' Cons.prems(2) by (simp add: mread_Suc_app nat_add_distrib)
qed

text \<open>C30: \<open>pwritev\<close> on the stick writes the buffers one behind the other from the offset on, as one
  write of their concatenation would, and a \<open>preadv\<close> of the same shape brings the buffers back;
  both report the sum of the lengths.\<close>

theorem vectored_io_is_flat_io:
  assumes dev: "bot_device u store idle cap epi epo" and inv: "disk_inv idle cap epi epo d"
    and off: "0 \<le> actual_offset d off" "actual_offset d off + int (length (concat iov)) \<le> int (cap * 512)"
    and len: "length (concat iov) \<le> 2 ^ 31" and shape: "map length bufs = map length iov"
  shows "\<exists>d1 d2 e. xfs_pwritev_hook u iov off d = Some (int (length (concat iov)), d1)
    \<and> scsi_pwrite u (concat iov) (int (length (concat iov))) off d = Some (int (length (concat iov)), e)
    \<and> disk_view store d1 = disk_view store e
    \<and> xfs_preadv_hook u bufs off d1 = Some (int (length (concat iov)), iov, d2)"
proof -
  obtain d1 where d1: "xfs_pwritev_loop u iov 0 off d = Some (int (length (concat iov)), d1)"
    "disk_inv idle cap epi epo d1" "io_frame d d1"
    "disk_view store d1 = mwrite (disk_view store d) (nat (actual_offset d off)) (concat iov)"
    using pwritev_on [OF dev inv off, of 0] len by auto
  obtain e where e: "scsi_pwrite u (concat iov) (int (length (concat iov))) off d = Some (int (length (concat iov)), e)"
    "disk_view store e = mwrite (disk_view store d) (nat (actual_offset d off)) (concat iov)"
    using dev_pwrite [OF dev inv off(1), of "concat iov"] off(2) len by auto
  have lb: "length (concat bufs) = length (concat iov)" by (simp add: sum_length shape)
  have "\<exists>d2. xfs_preadv_loop u bufs 0 off d1 = Some (int (length (concat iov)), iov, d2)"
    using preadv_on [OF dev d1(2), of off bufs 0] off len actual_offset_frame [OF d1(3)]
    by (simp add: lb shape d1(4) cut_concat)
  then show ?thesis
    using d1(1,4) e by (auto simp: xfs_pwritev_hook_def xfs_preadv_hook_def)
qed

lemma vectored_io_is_flat_io_witness:
  "\<exists>d1 d2. xfs_pwritev_hook stick_usb [[1, 2], [], [3]] 700 (stick_drv (\<lambda>_. 7)) = Some (3, d1)
    \<and> xfs_preadv_hook stick_usb [[0, 0], [], [0]] 700 d1 = Some (3, [[1, 2], [], [3]], d2)"
  using vectored_io_is_flat_io [OF stick_device stick_inv(1), of "\<lambda>_. 7" 700 "[[1, 2], [], [3]]" "[[0, 0], [], [0]]"]
  by (auto simp: stick_actual_offset)

section \<open>The fill operation of mkfs.f2fs\<close>

text \<open>C31: \<open>dev_fill_block\<close> of mkfs.f2fs, with which it clears the tables of a new volume, does not
  reach the stick. The descriptor of the stick is 0, the process's standard input, and only the
  read and write operations are redirected to the driver: the fill seeks and writes that
  descriptor, reports success when the host does, and reading the block afterwards gives what it
  held before.\<close>

theorem f2fs_fill_misses_the_stick:
  assumes dev: "bot_device u store idle cap epi epo" and inv: "disk_inv idle cap epi epo d"
    and base: "actual_offset d 0 = int base"
    and vs: "vs = [\<lparr>start_blkaddr = 0, end_blkaddr = last_blk, f2fs_fd = 0\<rparr>]"
    and blk: "blk \<le> last_blk" "unat blk < 2 ^ 51" "base + unat blk * 4096 + 4096 \<le> cap * 512"
    and host: "host_lseek os 0 (push_bit 12 blk) h = (pos, h1)" "0 \<le> pos"
      "host_write os 0 (take 4096 zeros) h1 = (r, h2)" "0 \<le> r"
    and zeros: "zeros = replicate 4096 0" and buf: "length buf = 4096"
  shows "\<exists>d'. f2fs_dev_fill_block os vs zeros blk (h, d) = (0, h2, d)
    \<and> f2fs_dev_read_block u buf blk d
      = Some (0, mread (disk_view store d) (base + unat blk * 4096) 4096, d')"
proof -
  have p: "unat (push_bit 12 blk) = unat blk * 4096"
    using blk(2) by (simp add: push_bit_eq_mult unat_word_ariths)
  have "unat (drop_bit 12 (push_bit 12 blk)) = unat blk"
    unfolding unat_drop_bit_eq p by (simp add: drop_bit_eq_div)
  then have "drop_bit 12 (push_bit 12 blk) = blk" by (simp only: word_unat_eq_iff)
  then have f: "get_device_fd vs (push_bit 12 blk) = (0, push_bit 12 blk)"
    using blk(1) by (simp add: vs)
  have fill: "f2fs_dev_fill_block os vs zeros blk (h, d) = (0, h2, d)"
    using host by (simp add: f2fs_dev_fill_block_def f2fs_dev_fill_def f zeros)
  have s: "sint (push_bit 12 blk) = int (unat blk * 4096)"
    using sint_small [of "push_bit 12 blk"] blk(2) by (simp add: p)
  have a: "actual_offset d (int (unat blk * 4096)) = int (base + unat blk * 4096)"
    using base by (simp add: actual_offset_def)
  have pa: "0 \<le> actual_offset d (int (unat blk * 4096))"
    "actual_offset d (int (unat blk * 4096)) + int (length buf) \<le> int (cap * 512)"
    "nat (actual_offset d (int (unat blk * 4096))) = base + unat blk * 4096"
    unfolding a buf using blk(3) by linarith+
  obtain d' where "scsi_pread u buf 4096 (int (unat blk * 4096)) d = Some (4096,
      mread (disk_view store d) (base + unat blk * 4096) 4096, d')"
    using dev_pread [OF dev inv pa(1) _ pa(2)] unfolding pa(3) buf by auto
  then show ?thesis
    using fill by (auto simp: f2fs_dev_read_block_def f2fs_dev_read_def s buf)
qed

text \<open>A host on which seeking and writing standard input work.\<close>

definition dev_null :: "unit host" where
  "dev_null = \<lparr>host_lseek = \<lambda>_ off h. (sint off, h), host_write = \<lambda>_ bs h. (int (length bs), h)\<rparr>"

lemma f2fs_fill_misses_the_stick_witness:
  "\<exists>d'. f2fs_dev_fill_block dev_null [\<lparr>start_blkaddr = 0, end_blkaddr = 100, f2fs_fd = 0\<rparr>] (replicate 4096 0) 5
      ((), stick_drv (\<lambda>_. 7)) = (0, (), stick_drv (\<lambda>_. 7))
    \<and> f2fs_dev_read_block stick_usb (replicate 4096 0) 5 (stick_drv (\<lambda>_. 7)) = Some (0, replicate 4096 7, d')"
  using f2fs_fill_misses_the_stick [OF stick_device stick_inv(1) _ refl _ _ _ _ _ _ _ refl, of "\<lambda>_. 7" 0 5 100
      dev_null "()" 20480 "()" 4096 "()" "replicate 4096 0"]
  by (simp add: stick_actual_offset stick_inv dev_null_def mread_def map_replicate_const)

end
