(* ===== verification/UdfExtents.thy ===== *)
theory UdfExtents
  imports Prelude
begin

text \<open>
  udf_src/libudffs/extent.c, the space map mkudffs plans a volume with: a list of extents, each with
  its kind of space and a list of descriptors to be written into it. The doubly linked lists are
  lists and a pointer into one is an index; a null pointer is \<open>None\<close>. Block numbers and counts are
  \<open>uint32_t\<close> and wrap. \<open>exit(1)\<close> is the result \<open>None\<close> of the operations that call it.
\<close>

section \<open>Data\<close>

record udf_data =
  data_buffer :: bytes
  data_length :: u64

record udf_desc =
  desc_ident :: u16
  desc_offset :: u32
  desc_length :: u64
  desc_data :: "udf_data list"

record udf_extent =
  space_type :: u32
  ext_start :: u32
  ext_blocks :: u32
  ext_descs :: "udf_desc list"

definition RESERVED :: u32 where "RESERVED = 0x0001"

definition PSPACE :: u32 where "PSPACE = 0x0100"

definition USPACE :: u32 where "USPACE = 0x0200"

section \<open>Searching extents\<close>

text \<open>The loops of \<open>next_extent\<close> and \<open>prev_extent\<close>, from the extent at an index on.\<close>

function next_extent_from :: "udf_extent list \<Rightarrow> u32 \<Rightarrow> nat \<Rightarrow> nat option" where
  "next_extent_from exts type i =
    (if i < length exts then
       if space_type (exts ! i) AND type = 0 then next_extent_from exts type (Suc i) else Some i
     else None)"
  by pat_completeness auto

termination
  by (relation "measure (\<lambda>(exts, type, i). length exts - i)") auto

declare next_extent_from.simps [simp del]

definition next_extent :: "udf_extent list \<Rightarrow> nat option \<Rightarrow> u32 \<Rightarrow> nat option" where
  "next_extent exts start_ext type =
    (case start_ext of None \<Rightarrow> None | Some i \<Rightarrow> next_extent_from exts type i)"

fun prev_extent_from :: "udf_extent list \<Rightarrow> u32 \<Rightarrow> nat \<Rightarrow> nat option" where
  "prev_extent_from exts type 0 = (if space_type (exts ! 0) AND type = 0 then None else Some 0)"
| "prev_extent_from exts type (Suc i) =
    (if space_type (exts ! Suc i) AND type = 0 then prev_extent_from exts type i else Some (Suc i))"

definition prev_extent :: "udf_extent list \<Rightarrow> nat option \<Rightarrow> u32 \<Rightarrow> nat option" where
  "prev_extent exts start_ext type =
    (case start_ext of None \<Rightarrow> None | Some i \<Rightarrow> prev_extent_from exts type i)"

text \<open>\<open>->next\<close> and \<open>->prev\<close>.\<close>

definition next_ptr :: "'a list \<Rightarrow> nat \<Rightarrow> nat option" where
  "next_ptr xs i = (if Suc i < length xs then Some (Suc i) else None)"

definition prev_ptr :: "nat \<Rightarrow> nat option" where
  "prev_ptr i = (case i of 0 \<Rightarrow> None | Suc j \<Rightarrow> Some j)"

function find_extent_from :: "udf_extent list \<Rightarrow> u32 \<Rightarrow> nat \<Rightarrow> nat" where
  "find_extent_from exts start i =
    (if Suc i < length exts then
       if ext_start (exts ! i) + ext_blocks (exts ! i) > start then i
       else find_extent_from exts start (Suc i)
     else i)"
  by pat_completeness auto

termination
  by (relation "measure (\<lambda>(exts, start, i). length exts - i)") auto

declare find_extent_from.simps [simp del]

text \<open>The list is not empty: the disc starts with one extent of unallocated space.\<close>

definition find_extent :: "udf_extent list \<Rightarrow> u32 \<Rightarrow> nat" where
  "find_extent exts start = find_extent_from exts start 0"

section \<open>Searching room\<close>

lemma next_extent_from_ge: "next_extent_from exts type i = Some j \<Longrightarrow> i \<le> j \<and> j < length exts"
  by (induction exts type i rule: next_extent_from.induct)
    (subst (asm) next_extent_from.simps, auto split: if_splits)

lemma prev_extent_from_le: "prev_extent_from exts type i = Some j \<Longrightarrow> j \<le> i"
  by (induction i) (auto split: if_splits)

text \<open>The extents that are large enough, one after the other, until one has the room behind the
  alignment; \<open>None\<close> is a remainder by zero, \<open>Some 0\<close> is no room. An index past the end, which
  \<open>next_extent\<close> never gives, is a null pointer.\<close>

function room_from ::
  "udf_extent list \<Rightarrow> u32 \<Rightarrow> u32 \<Rightarrow> u32 \<Rightarrow> u32 \<Rightarrow> nat option \<Rightarrow> u32 option" where
  "room_from exts start type blocks offset start_ext =
    (case start_ext of None \<Rightarrow> Some 0
     | Some i \<Rightarrow>
         if length exts \<le> i then Some 0
         else if ext_blocks (exts ! i) < blocks
         then room_from exts start type blocks offset (next_extent exts (next_ptr exts i) type)
         else if offset = 0 then None
         else if ext_start (exts ! i) mod offset \<noteq> 0 \<or> ext_start (exts ! i) < start then
           let inc = (if ext_start (exts ! i) < start then start - ext_start (exts ! i)
                      else offset - ext_start (exts ! i) mod offset)
           in if ext_blocks (exts ! i) - inc < blocks
              then room_from exts start type blocks offset (next_extent exts (next_ptr exts i) type)
              else Some (ext_start (exts ! i) + inc)
         else Some (ext_start (exts ! i)))"
  by pat_completeness auto

termination
  by (relation "measure (\<lambda>(exts, start, type, blocks, offset, p). case p of None \<Rightarrow> 0
        | Some i \<Rightarrow> Suc (length exts) - i)")
    (auto simp: next_extent_def next_ptr_def dest!: next_extent_from_ge split: option.splits if_splits)

declare room_from.simps [simp del]

definition find_next_extent_size ::
  "udf_extent list \<Rightarrow> u32 \<Rightarrow> u32 \<Rightarrow> u32 \<Rightarrow> u32 \<Rightarrow> u32 option" where
  "find_next_extent_size exts start type blocks offset =
    room_from exts start type blocks offset (next_extent exts (Some (find_extent exts start)) type)"

definition next_extent_size ::
  "udf_extent list \<Rightarrow> nat \<Rightarrow> u32 \<Rightarrow> u32 \<Rightarrow> u32 \<Rightarrow> u32 option" where
  "next_extent_size exts start_ext type blocks offset =
    find_next_extent_size exts (ext_start (exts ! start_ext)) type blocks offset"

function room_before ::
  "udf_extent list \<Rightarrow> u32 \<Rightarrow> u32 \<Rightarrow> u32 \<Rightarrow> nat option \<Rightarrow> u32 option" where
  "room_before exts type blocks offset start_ext =
    (case start_ext of None \<Rightarrow> Some 0
     | Some i \<Rightarrow>
         if ext_blocks (exts ! i) < blocks
         then room_before exts type blocks offset (prev_extent exts (prev_ptr i) type)
         else if offset = 0 then None
         else let misfit = ext_start (exts ! i) mod offset \<noteq> 0;
                  inc = (if misfit then offset - ext_start (exts ! i) mod offset else 0)
              in if misfit \<and> ext_blocks (exts ! i) - inc < blocks
                 then room_before exts type blocks offset (prev_extent exts (prev_ptr i) type)
                 else Some (ext_start (exts ! i) + inc
                        + ((ext_blocks (exts ! i) - inc - blocks) div offset) * offset))"
  by pat_completeness auto

termination
  by (relation "measure (\<lambda>(exts, type, blocks, offset, p). case p of None \<Rightarrow> 0 | Some i \<Rightarrow> Suc i)")
    (auto simp: prev_extent_def prev_ptr_def less_Suc_eq_le dest!: prev_extent_from_le
      split: option.splits nat.splits if_splits)

declare room_before.simps [simp del]

definition prev_extent_size ::
  "udf_extent list \<Rightarrow> nat \<Rightarrow> u32 \<Rightarrow> u32 \<Rightarrow> u32 \<Rightarrow> u32 option" where
  "prev_extent_size exts start_ext type blocks offset =
    room_before exts type blocks offset (prev_extent exts (Some start_ext) type)"

section \<open>Changing the map\<close>

definition new_extent :: "u32 \<Rightarrow> u32 \<Rightarrow> u32 \<Rightarrow> udf_extent" where
  "new_extent type start blocks =
    \<lparr>space_type = type, ext_start = start, ext_blocks = blocks, ext_descs = []\<rparr>"

text \<open>An extent replaced by a list of extents.\<close>

definition splice :: "'a list \<Rightarrow> nat \<Rightarrow> 'a list \<Rightarrow> 'a list" where
  "splice xs i ys = take i xs @ ys @ drop (Suc i) xs"

text \<open>\<open>malloc_ok k\<close> says whether the \<open>k\<close>-th allocation succeeds. The result is the index of the
  extent that was set and the list.\<close>

definition set_extent ::
  "(nat \<Rightarrow> bool) \<Rightarrow> udf_extent list \<Rightarrow> u32 \<Rightarrow> u32 \<Rightarrow> u32 \<Rightarrow> (nat \<times> udf_extent list) option" where
  "set_extent malloc_ok exts type start blocks =
    (let i = find_extent exts start; e = exts ! i
     in if start < ext_start e then None
        else if start = ext_start e then
          if blocks = ext_blocks e then Some (i, exts[i := e\<lparr>space_type := type\<rparr>])
          else if blocks < ext_blocks e then
            if \<not> malloc_ok 0 then None
            else Some (i, splice exts i [new_extent type start blocks,
                   e\<lparr>ext_start := ext_start e + blocks, ext_blocks := ext_blocks e - blocks\<rparr>])
          else None
        else if start + blocks = ext_start e + ext_blocks e then
          if \<not> malloc_ok 0 then None
          else Some (Suc i, splice exts i [e\<lparr>ext_blocks := ext_blocks e - blocks\<rparr>, new_extent type start blocks])
        else if start + blocks < ext_start e + ext_blocks e then
          if \<not> malloc_ok 0 \<or> \<not> malloc_ok 1 then None
          else Some (Suc i, splice exts i [e\<lparr>ext_blocks := start - ext_start e\<rparr>, new_extent type start blocks,
                 new_extent (space_type e) (start + blocks) (ext_blocks e - blocks - start + ext_start e)])
        else if ext_blocks e < blocks \<or> \<not> malloc_ok 0 then None
        else Some (Suc i, splice exts i [e\<lparr>ext_blocks := ext_blocks e - blocks\<rparr>, new_extent type start blocks]))"

definition remove_extent :: "udf_extent list \<Rightarrow> nat \<Rightarrow> udf_extent list" where
  "remove_extent exts i = splice exts i []"

section \<open>Descriptors\<close>

function next_desc_from :: "udf_desc list \<Rightarrow> u16 \<Rightarrow> nat \<Rightarrow> nat option" where
  "next_desc_from descs ident i =
    (if i < length descs then
       if desc_ident (descs ! i) \<noteq> ident then next_desc_from descs ident (Suc i) else Some i
     else None)"
  by pat_completeness auto

termination
  by (relation "measure (\<lambda>(descs, ident, i). length descs - i)") auto

declare next_desc_from.simps [simp del]

definition next_desc :: "udf_desc list \<Rightarrow> nat option \<Rightarrow> u16 \<Rightarrow> nat option" where
  "next_desc descs start_desc ident =
    (case start_desc of None \<Rightarrow> None | Some i \<Rightarrow> next_desc_from descs ident i)"

text \<open>The list is not empty.\<close>

function find_desc_from :: "udf_desc list \<Rightarrow> u32 \<Rightarrow> nat \<Rightarrow> nat option" where
  "find_desc_from descs offset i =
    (if Suc i < length descs then
       if desc_offset (descs ! i) = offset then Some i
       else if desc_offset (descs ! i) > offset then prev_ptr i
       else find_desc_from descs offset (Suc i)
     else Some i)"
  by pat_completeness auto

termination
  by (relation "measure (\<lambda>(descs, offset, i). length descs - i)") auto

declare find_desc_from.simps [simp del]

definition find_desc :: "udf_desc list \<Rightarrow> u32 \<Rightarrow> nat option" where
  "find_desc descs offset = find_desc_from descs offset 0"

text \<open>\<open>alloc_data(NULL, length)\<close> and \<open>alloc_data(buffer, length)\<close>; the length is an \<open>int\<close>, and
  \<open>calloc\<close> of a negative length, a \<open>size_t\<close> above every object size, fails. \<open>calloc_ok\<close> says that memory
  for the other allocations is there.\<close>

definition alloc_data :: "bool \<Rightarrow> bytes option \<Rightarrow> int \<Rightarrow> udf_data option" where
  "alloc_data calloc_ok buffer len =
    (if \<not> calloc_ok \<or> buffer = None \<and> len < 0 then None
     else Some \<lparr>data_buffer = (case buffer of Some b \<Rightarrow> b | None \<Rightarrow> replicate (nat len) 0),
                data_length = word_of_int len\<rparr>)"

text \<open>The index of the new descriptor and the descriptors of the extent.\<close>

definition set_desc ::
  "bool \<Rightarrow> udf_desc list \<Rightarrow> u16 \<Rightarrow> u32 \<Rightarrow> u32 \<Rightarrow> udf_data list option \<Rightarrow> (nat \<times> udf_desc list) option" where
  "set_desc calloc_ok descs ident offset len data =
    (if \<not> calloc_ok then None
     else Option.bind (case data of Some ds \<Rightarrow> Some ds
         | None \<Rightarrow> map_option (\<lambda>d. [d]) (alloc_data calloc_ok None (sint len))) (\<lambda>ds.
       let new_desc = \<lparr>desc_ident = ident, desc_offset = offset, desc_length = ucast len, desc_data = ds\<rparr>
       in if descs = [] then Some (0, [new_desc])
          else case find_desc descs offset of
                 None \<Rightarrow> Some (0, new_desc # descs)
               | Some i \<Rightarrow> Some (Suc i, take (Suc i) descs @ new_desc # drop (Suc i) descs)))"

definition append_data :: "udf_desc \<Rightarrow> udf_data list \<Rightarrow> udf_desc" where
  "append_data d ds = d\<lparr>desc_length := desc_length d + data_length (hd ds), desc_data := desc_data d @ ds\<rparr>"

end
