(* ===== verification/UdfProps.thy ===== *)
theory UdfProps
  imports UdfExtents
begin

text \<open>
  Properties of the space map of mkudffs: setting an extent changes the kind of exactly the blocks
  named, what the search for room finds, and when the descriptors of an extent stay in order.
\<close>

section \<open>Tilings\<close>

text \<open>Extents that follow each other without gap or overlap from one block to another.\<close>

fun tiles :: "nat \<Rightarrow> udf_extent list \<Rightarrow> nat \<Rightarrow> bool" where
  "tiles lo [] hi = (lo = hi)"
| "tiles lo (e # es) hi = (unat (ext_start e) = lo \<and> 0 < unat (ext_blocks e)
     \<and> tiles (lo + unat (ext_blocks e)) es hi)"

text \<open>The kind of space a block has.\<close>

definition holds :: "udf_extent \<Rightarrow> nat \<Rightarrow> bool" where
  "holds e b \<longleftrightarrow> unat (ext_start e) \<le> b \<and> b < unat (ext_start e) + unat (ext_blocks e)"

fun space_at :: "udf_extent list \<Rightarrow> nat \<Rightarrow> u32 option" where
  "space_at [] b = None"
| "space_at (e # es) b = (if holds e b then Some (space_type e) else space_at es b)"

lemma tiles_le: "tiles lo es hi \<Longrightarrow> lo \<le> hi"
  by (induction lo es hi rule: tiles.induct) auto

lemma tiles_append: "tiles lo (xs @ ys) hi \<longleftrightarrow> (\<exists>mid. tiles lo xs mid \<and> tiles mid ys hi)"
  by (induction xs arbitrary: lo) auto

lemma space_at_append:
  "space_at (xs @ ys) b = (case space_at xs b of None \<Rightarrow> space_at ys b | Some t \<Rightarrow> Some t)"
  by (induction xs) auto

lemma space_at_tiles: "tiles lo es hi \<Longrightarrow> space_at es b = None \<longleftrightarrow> b < lo \<or> hi \<le> b"
  by (induction lo es hi rule: tiles.induct) (auto simp: holds_def dest: tiles_le)

lemma find_extent_from_tiles:
  "tiles lo (drop i exts) hi \<Longrightarrow> i < length exts \<Longrightarrow> lo \<le> unat start \<Longrightarrow> unat start < hi \<Longrightarrow> hi < 2 ^ 32
    \<Longrightarrow> find_extent_from exts start i < length exts \<and> holds (exts ! find_extent_from exts start i) (unat start)"
proof (induction exts start i arbitrary: lo rule: find_extent_from.induct)
  case (1 exts start i)
  define e where "e = exts ! i"
  have d: "drop i exts = e # drop (Suc i) exts" using "1.prems"(2) by (simp add: Cons_nth_drop_Suc e_def)
  have t: "unat (ext_start e) = lo" "tiles (lo + unat (ext_blocks e)) (drop (Suc i) exts) hi"
    using "1.prems"(1) d by simp_all
  have end_nat: "unat (ext_start e + ext_blocks e) = lo + unat (ext_blocks e)"
    using tiles_le [OF t(2)] "1.prems"(5) t(1) by (simp add: unat_word_ariths)
  show ?case
  proof (cases "Suc i < length exts \<and> \<not> ext_start e + ext_blocks e > start")
    case True
    then have "find_extent_from exts start i = find_extent_from exts start (Suc i)"
      by (subst find_extent_from.simps) (simp add: e_def)
    moreover have "lo + unat (ext_blocks e) \<le> unat start"
      using True end_nat by (simp add: word_less_nat_alt)
    ultimately show ?thesis
      using "1.IH" [OF _ _ t(2)] True "1.prems"(4,5) by (simp add: e_def)
  next
    case False
    then have f: "find_extent_from exts start i = i"
      by (subst find_extent_from.simps) (auto simp: e_def)
    have "unat start < lo + unat (ext_blocks e)"
    proof (cases "Suc i < length exts")
      case True
      then show ?thesis using False end_nat by (simp add: word_less_nat_alt)
    next
      case last: False
      then show ?thesis using t(2) "1.prems"(4) by simp
    qed
    then show ?thesis using f "1.prems"(2,3) t(1) by (simp add: holds_def e_def)
  qed
qed

lemma find_extent_split:
  assumes t: "tiles lo exts hi" "lo \<le> unat start" "unat start < hi" "hi < 2 ^ 32"
    and i: "i = find_extent exts start"
  obtains pre e post where "exts = pre @ e # post" "length pre = i" "holds e (unat start)"
    "tiles lo pre (unat (ext_start e))" "tiles (unat (ext_start e) + unat (ext_blocks e)) post hi"
proof -
  have ne: "0 < length exts" using t by (cases exts) auto
  have "i < length exts" "holds (exts ! i) (unat start)"
    using find_extent_from_tiles [of lo 0 exts hi start] t ne by (simp_all add: i find_extent_def)
  then show ?thesis
    using that [of "take i exts" "exts ! i" "drop (Suc i) exts"] t(1)
    by (auto simp: id_take_nth_drop [symmetric] tiles_append [of lo "take i exts", simplified]
        dest!: arg_cong [OF id_take_nth_drop, of i exts "\<lambda>x. tiles lo x hi", THEN iffD1])
qed

lemma splice_split: "splice (pre @ e # post) (length pre) ys = pre @ ys @ post"
  by (simp add: splice_def)

text \<open>The extents that replace one may be anything that covers the same blocks.\<close>

lemma retile:
  assumes "tiles lo pre (unat (ext_start e))" "tiles (unat (ext_start e)) ys (unat (ext_start e) + unat (ext_blocks e))"
    "tiles (unat (ext_start e) + unat (ext_blocks e)) post hi"
  shows "tiles lo (pre @ ys @ post) hi"
    and "space_at (pre @ ys @ post) b = (if holds e b then space_at ys b else space_at (pre @ e # post) b)"
proof -
  show "tiles lo (pre @ ys @ post) hi"  using assms unfolding tiles_append by blast
  have ys: "space_at ys b = None \<longleftrightarrow> \<not> holds e b"
    unfolding space_at_tiles [OF assms(2)] holds_def by linarith
  have "holds e b \<Longrightarrow> space_at pre b = None"
    unfolding space_at_tiles [OF assms(1)] holds_def by linarith
  then show "space_at (pre @ ys @ post) b = (if holds e b then space_at ys b else space_at (pre @ e # post) b)"
    using ys by (auto simp: space_at_append split: option.splits)
qed

text \<open>The extents \<open>set_extent\<close> puts in the place of the one it found.\<close>

definition pieces :: "udf_extent \<Rightarrow> u32 \<Rightarrow> u32 \<Rightarrow> u32 \<Rightarrow> udf_extent list" where
  "pieces e type start blocks =
    (if start = ext_start e then
       if blocks = ext_blocks e then [e\<lparr>space_type := type\<rparr>]
       else [new_extent type start blocks,
             e\<lparr>ext_start := ext_start e + blocks, ext_blocks := ext_blocks e - blocks\<rparr>]
     else if start + blocks = ext_start e + ext_blocks e then
       [e\<lparr>ext_blocks := ext_blocks e - blocks\<rparr>, new_extent type start blocks]
     else [e\<lparr>ext_blocks := start - ext_start e\<rparr>, new_extent type start blocks,
           new_extent (space_type e) (start + blocks) (ext_blocks e - blocks - start + ext_start e)])"

lemma pieces_cover:
  assumes "holds e (unat start)" "0 < blocks"
    "unat start + unat blocks \<le> unat (ext_start e) + unat (ext_blocks e)"
    "unat (ext_start e) + unat (ext_blocks e) < 2 ^ 32"
  shows "tiles (unat (ext_start e)) (pieces e type start blocks) (unat (ext_start e) + unat (ext_blocks e))"
    and "holds e b \<Longrightarrow> space_at (pieces e type start blocks) b =
      Some (if unat start \<le> b \<and> b < unat start + unat blocks then type else space_type e)"
proof -
  have r: "unat (ext_start e) \<le> unat start" "0 < unat blocks"
    using assms by (auto simp: holds_def unat_gt_0 word_neq_0_conv)
  have diff: "unat (x - y) = unat x - unat y" if "unat y \<le> unat x" for x y :: u32
    using that by (simp add: unat_sub word_le_nat_alt)
  have ends: "unat (start + blocks) = unat start + unat blocks"
    "unat (ext_start e + ext_blocks e) = unat (ext_start e) + unat (ext_blocks e)"
    using assms by (simp_all add: unat_word_ariths)
  have eqs: "start = ext_start e \<longleftrightarrow> unat start = unat (ext_start e)"
    "blocks = ext_blocks e \<longleftrightarrow> unat blocks = unat (ext_blocks e)"
    "start + blocks = ext_start e + ext_blocks e \<longleftrightarrow> unat start + unat blocks = unat (ext_start e) + unat (ext_blocks e)"
    by (simp_all only: ends word_unat_eq_iff)
  have "ext_blocks e - blocks - start + ext_start e = (ext_start e + ext_blocks e) - (start + blocks)" by simp
  then have last_part: "unat (ext_blocks e - blocks - start + ext_start e) =
      unat (ext_start e) + unat (ext_blocks e) - (unat start + unat blocks)"
    using diff [of "start + blocks" "ext_start e + ext_blocks e"] assms(3) by (simp only: ends)
  have first_part: "unat (ext_start e + blocks) = unat (ext_start e) + unat blocks"
    if "unat start = unat (ext_start e)" using ends(1) that by (metis word_unat_eq_iff)
  have db: "unat (ext_blocks e - blocks) = unat (ext_blocks e) - unat blocks"
    using diff [of blocks "ext_blocks e"] assms(3) r by linarith
  have ds: "unat (start - ext_start e) = unat start - unat (ext_start e)"
    using diff [of "ext_start e" start] r by linarith
  show "tiles (unat (ext_start e)) (pieces e type start blocks) (unat (ext_start e) + unat (ext_blocks e))"
    using assms(3) r last_part first_part db ds ends
    by (auto simp: pieces_def eqs new_extent_def holds_def simp del: word_unat_eq_iff split: if_splits)
  show "holds e b \<Longrightarrow> space_at (pieces e type start blocks) b =
      Some (if unat start \<le> b \<and> b < unat start + unat blocks then type else space_type e)"
    using assms(3) r last_part first_part db ds ends
    by (auto simp: pieces_def eqs new_extent_def holds_def split: if_splits)
qed

lemma set_extent_pieces:
  assumes "exts = pre @ e # post" "length pre = find_extent exts start" "holds e (unat start)"
    "unat start + unat blocks \<le> unat (ext_start e) + unat (ext_blocks e)"
    "unat (ext_start e) + unat (ext_blocks e) < 2 ^ 32" "malloc_ok 0" "malloc_ok 1"
  shows "set_extent malloc_ok exts type start blocks =
    Some (if start = ext_start e then length pre else Suc (length pre),
          pre @ pieces e type start blocks @ post)"
proof -
  define i where "i = find_extent exts start"
  have i: "length pre = i" using assms(2) by (simp add: i_def)
  have e: "exts ! i = e" using assms(1) i by (metis nth_append_length)
  have ends: "unat (start + blocks) = unat start + unat blocks"
    "unat (ext_start e + ext_blocks e) = unat (ext_start e) + unat (ext_blocks e)"
    using assms(4,5) by (simp_all add: unat_word_ariths)
  have le: "start + blocks \<le> ext_start e + ext_blocks e" using assms(4) ends by (simp add: word_le_nat_alt)
  have fits: "start = ext_start e \<Longrightarrow> blocks \<le> ext_blocks e"
    using assms(4) by (simp add: word_le_nat_alt)
  have low: "\<not> start < ext_start e" using assms(3) by (simp add: holds_def word_less_nat_alt)
  have s: "splice exts i ys = pre @ ys @ post" for ys
    using assms(1) i splice_split [of pre e post ys] by simp
  have u: "exts[i := x] = pre @ [x] @ post" for x
    using assms(1) i by (metis append_Cons append_Nil list_update_length)
  show ?thesis
    unfolding set_extent_def i_def [symmetric] Let_def e s u i pieces_def
    using low fits le assms(6,7) by (auto simp: order_le_less)
qed

text \<open>C39: \<open>set_extent\<close> on a map that tiles the disc, asked for blocks inside one extent, keeps it a
  tiling, returns an extent of just the blocks asked for, and changes the kind of these blocks and
  of no other.\<close>

theorem set_extent_retypes_exactly:
  assumes "tiles lo exts hi" "hi < 2 ^ 32" "lo \<le> unat start" "unat start < hi" "0 < blocks"
    and "unat start + unat blocks \<le> unat (ext_start (exts ! find_extent exts start))
      + unat (ext_blocks (exts ! find_extent exts start))"
    and "malloc_ok 0" "malloc_ok 1"
  shows "\<exists>i exts'. set_extent malloc_ok exts type start blocks = Some (i, exts') \<and> tiles lo exts' hi
    \<and> i < length exts' \<and> ext_start (exts' ! i) = start \<and> ext_blocks (exts' ! i) = blocks
    \<and> space_type (exts' ! i) = type
    \<and> (\<forall>b. space_at exts' b =
         (if unat start \<le> b \<and> b < unat start + unat blocks then Some type else space_at exts b))"
proof -
  obtain pre e post where split: "exts = pre @ e # post" "length pre = find_extent exts start"
      "holds e (unat start)" and t: "tiles lo pre (unat (ext_start e))"
      "tiles (unat (ext_start e) + unat (ext_blocks e)) post hi"
    using find_extent_split [OF assms(1,3,4,2) refl] by metis
  have e: "exts ! find_extent exts start = e" using split(1,2) by (metis nth_append_length)
  note fits = assms(6) [unfolded e]
  have small: "unat (ext_start e) + unat (ext_blocks e) < 2 ^ 32" using tiles_le [OF t(2)] assms(2) by simp
  note cover = pieces_cover [OF split(3) assms(5) fits small, where type = type]
  define i where "i = (if start = ext_start e then length pre else Suc (length pre))"
  define exts' where "exts' = pre @ pieces e type start blocks @ post"
  have "set_extent malloc_ok exts type start blocks = Some (i, exts')"
    unfolding i_def exts'_def by (rule set_extent_pieces [where e = e and pre = pre and post = post, OF split fits small assms(7,8)])
  moreover have "tiles lo exts' hi" unfolding exts'_def by (rule retile(1) [OF t(1) cover(1) t(2)])
  moreover have "i < length exts' \<and> ext_start (exts' ! i) = start \<and> ext_blocks (exts' ! i) = blocks
      \<and> space_type (exts' ! i) = type"
    by (auto simp: i_def exts'_def pieces_def new_extent_def nth_append)
  moreover have "space_at exts' b =
      (if unat start \<le> b \<and> b < unat start + unat blocks then Some type else space_at exts b)" for b
  proof (cases "holds e b")
    case True
    moreover have "space_at exts b = Some (space_type e)"
      using True space_at_tiles [OF t(1), of b] by (auto simp: split(1) space_at_append holds_def split: option.split)
    ultimately show ?thesis using retile(2) [OF t(1) cover(1) t(2), of b] cover(2) [of b] by (simp add: exts'_def)
  next
    case False
    then have out: "\<not> (unat start \<le> b \<and> b < unat start + unat blocks)" using split(3) fits by (auto simp: holds_def)
    show ?thesis unfolding if_not_P [OF out] using False retile(2) [OF t(1) cover(1) t(2), of b] by (simp add: exts'_def split(1))
  qed
  ultimately show ?thesis by blast
qed

theorem set_extent_retypes_exactly_witness:
  "\<exists>i exts'. set_extent (\<lambda>k. True) [new_extent USPACE 0 1000] PSPACE 257 600 = Some (i, exts')
    \<and> tiles 0 exts' 1000 \<and> i < length exts' \<and> ext_start (exts' ! i) = 257 \<and> ext_blocks (exts' ! i) = 600
    \<and> space_type (exts' ! i) = PSPACE
    \<and> (\<forall>b. space_at exts' b = (if unat (257 :: u32) \<le> b \<and> b < unat (257 :: u32) + unat (600 :: u32)
         then Some PSPACE else space_at [new_extent USPACE 0 1000] b))"
proof -
  have found: "find_extent [new_extent USPACE 0 1000] 257 = 0"
    by (simp add: find_extent_def find_extent_from.simps)
  show ?thesis
    by (rule set_extent_retypes_exactly) (simp_all only: found, simp_all add: new_extent_def)
qed

section \<open>Searching room\<close>

text \<open>What the search has checked of the extent it answers with.\<close>

definition room_in :: "udf_extent \<Rightarrow> u32 \<Rightarrow> u32 \<Rightarrow> u32 \<Rightarrow> u32 \<Rightarrow> u32 \<Rightarrow> bool" where
  "room_in e start type blocks offset r \<longleftrightarrow> space_type e AND type \<noteq> 0 \<and> blocks \<le> ext_blocks e
    \<and> (if ext_start e < start then r = start \<and> blocks \<le> ext_blocks e - (start - ext_start e)
       else if ext_start e mod offset = 0 then r = ext_start e
       else r = ext_start e + (offset - ext_start e mod offset)
         \<and> blocks \<le> ext_blocks e - (offset - ext_start e mod offset))"

lemma next_extent_from_type:
  "next_extent_from exts type i = Some j \<Longrightarrow> space_type (exts ! j) AND type \<noteq> 0"
  by (induction exts type i rule: next_extent_from.induct)
    (subst (asm) (2) next_extent_from.simps, auto split: if_splits)

lemma next_extent_Some:
  "next_extent exts p type = Some j \<Longrightarrow>
    \<exists>i. p = Some i \<and> i \<le> j \<and> j < length exts \<and> space_type (exts ! j) AND type \<noteq> 0"
  by (auto simp: next_extent_def dest: next_extent_from_ge next_extent_from_type split: option.splits)

lemma room_from_sound:
  "room_from exts start type blocks offset p = Some r \<Longrightarrow> r \<noteq> 0
    \<Longrightarrow> (\<And>i. p = Some i \<Longrightarrow> k \<le> i \<and> space_type (exts ! i) AND type \<noteq> 0)
    \<Longrightarrow> \<exists>j < length exts. k \<le> j \<and> room_in (exts ! j) start type blocks offset r"
proof (induction exts start type blocks offset p rule: room_from.induct)
  case (1 exts start type blocks offset p)
  obtain i where p: "p = Some i" and i: "i < length exts"
    using "1.prems"(1,2) by (subst (asm) room_from.simps) (auto split: option.splits if_splits)
  have k: "k \<le> i" "space_type (exts ! i) AND type \<noteq> 0" using "1.prems"(3) p by auto
  have later: "k \<le> j \<and> space_type (exts ! j) AND type \<noteq> 0"
    if "next_extent exts (next_ptr exts i) type = Some j" for j
    using next_extent_Some [OF that] k(1) by (auto simp: next_ptr_def split: if_splits)
  define inc where "inc = (if ext_start (exts ! i) < start then start - ext_start (exts ! i)
    else offset - ext_start (exts ! i) mod offset)"
  consider (small) "ext_blocks (exts ! i) < blocks"
    | (misfit) "\<not> ext_blocks (exts ! i) < blocks" "offset \<noteq> 0"
        "ext_start (exts ! i) mod offset \<noteq> 0 \<or> ext_start (exts ! i) < start" "ext_blocks (exts ! i) - inc < blocks"
    | (found) "room_in (exts ! i) start type blocks offset r"
    using "1.prems"(1) k(2) i
    by (subst (asm) room_from.simps)
      (auto simp: p room_in_def inc_def Let_def simp flip: linorder_not_less split: if_splits)
  then show ?case
  proof cases
    case small
    then show ?thesis
      using "1.IH"(1) [OF p _ small] "1.prems"(1,2) later i
      by (subst (asm) (2) room_from.simps) (auto simp: p)
  next
    case misfit
    then have "room_from exts start type blocks offset p =
        room_from exts start type blocks offset (next_extent exts (next_ptr exts i) type)"
      using i by (subst room_from.simps) (auto simp: p inc_def Let_def)
    then show ?thesis
      using "1.IH"(2) [OF p _ misfit(1-3) inc_def misfit(4)] "1.prems"(1,2) later i by auto
  next
    case found
    then show ?thesis using i k(1) by blast
  qed
qed

lemma find_extent_lowest:
  assumes t: "tiles lo exts hi" "lo \<le> unat start" "unat start < hi" "hi < 2 ^ 32"
    and j: "find_extent exts start \<le> j" "j < length exts"
  shows "ext_start (exts ! j) < start \<Longrightarrow> holds (exts ! j) (unat start)"
    and "unat (ext_start (exts ! j)) + unat (ext_blocks (exts ! j)) < 2 ^ 32"
proof -
  obtain pre e post where split: "exts = pre @ e # post" "length pre = find_extent exts start"
      "holds e (unat start)" and post: "tiles (unat (ext_start e) + unat (ext_blocks e)) post hi"
    using find_extent_split [OF t refl] by metis
  have later: "lo' \<le> unat (ext_start (es ! i)) \<and> unat (ext_start (es ! i)) + unat (ext_blocks (es ! i)) \<le> hi'"
    if "tiles lo' es hi'" "i < length es" for lo' es hi' i
    using that by (induction lo' es hi' arbitrary: i rule: tiles.induct)
      (force simp: nth_Cons dest: tiles_le split: nat.splits)+
  show "unat (ext_start (exts ! j)) + unat (ext_blocks (exts ! j)) < 2 ^ 32"
    using later [OF t(1) j(2)] t(4) by simp
  assume low: "ext_start (exts ! j) < start"
  have "j = length pre"
  proof (rule ccontr)
    assume "j \<noteq> length pre"
    then have ij: "length pre < j" using j(1) split(2) by simp
    then have "exts ! j = post ! (j - Suc (length pre))" "j - Suc (length pre) < length post"
      using j(2) by (auto simp: split(1) nth_append nth_Cons')
    then show False
      using later [OF post, of "j - Suc (length pre)"] split(3) low by (simp add: holds_def word_less_nat_alt)
  qed
  then show "holds (exts ! j) (unat start)" using split(1,3) by simp
qed

text \<open>C40: room \<open>find_next_extent_size\<close> finds, in a map that tiles the disc, is of the kind asked for: it
  begins at the block the search starts at or is aligned, and has the blocks asked for inside one
  extent; or else that extent is shorter than the alignment, and the block returned lies behind its
  end, because \<open>start_ext->blocks - inc\<close> wrapped around.\<close>

theorem room_found_is_room_unless_short:
  assumes "tiles lo exts hi" "lo \<le> unat start" "unat start < hi" "hi < 2 ^ 32" "0 < offset" "r \<noteq> 0"
    and "find_next_extent_size exts start type blocks offset = Some r"
  shows "\<exists>e \<in> set exts. space_type e AND type \<noteq> 0 \<and> blocks \<le> ext_blocks e \<and>
    (unat (ext_start e) \<le> unat r \<and> unat r + unat blocks \<le> unat (ext_start e) + unat (ext_blocks e)
      \<and> (r = start \<or> r mod offset = 0)
     \<or> unat (ext_blocks e) < unat offset \<and> ext_blocks e < r - ext_start e)"
proof -
  have "\<exists>j < length exts. find_extent exts start \<le> j \<and> room_in (exts ! j) start type blocks offset r"
    using assms(7) [unfolded find_next_extent_size_def] assms(6)
    by (rule room_from_sound) (auto dest!: next_extent_Some)
  then obtain j where j: "find_extent exts start \<le> j" "j < length exts"
    and room: "room_in (exts ! j) start type blocks offset r" by blast
  define e where "e = exts ! j"
  have e: "e \<in> set exts" using j(2) by (simp add: e_def)
  note low = find_extent_lowest [OF assms(1-4) j, folded e_def]
  have kind: "space_type e AND type \<noteq> 0" and big: "blocks \<le> ext_blocks e"
    using room by (simp_all add: room_in_def e_def)
  define inc where "inc = (if ext_start e < start then start - ext_start e
    else if ext_start e mod offset = 0 then 0 else offset - ext_start e mod offset)"
  have r: "r = ext_start e + inc" and room_inc: "blocks \<le> ext_blocks e - inc"
    using room by (auto simp: room_in_def e_def [symmetric] inc_def split: if_splits)
  have m: "ext_start e mod offset < offset" using assms(5) by (simp add: word_mod_less_divisor)
  have al: "(ext_start e + inc) mod offset = 0" if "inc \<le> ext_blocks e" "\<not> ext_start e < start"
  proof (cases "ext_start e mod offset = 0")
    case True
    then show ?thesis using that by (simp add: inc_def)
  next
    case False
    have no: "unat (ext_start e + inc) = unat (ext_start e) + unat inc"
      using low(2) that(1) by (simp add: unat_word_ariths word_le_nat_alt)
    have inc_nat: "unat inc = unat offset - unat (ext_start e) mod unat offset"
      using m False that(2) by (simp add: inc_def unat_sub order_less_imp_le unat_mod)
    have "(unat (ext_start e) + unat inc) mod unat offset = 0"
    proof -
      have lt: "unat (ext_start e) mod unat offset < unat offset" using assms(5) by (simp add: word_less_nat_alt)
      have "unat (ext_start e) + unat inc = unat offset * (unat (ext_start e) div unat offset + 1)"
        using lt mult_div_mod_eq [of "unat offset" "unat (ext_start e)"]
        by (simp only: inc_nat distrib_left mult_1_right)
      then show ?thesis by simp
    qed
    then show ?thesis by (simp only: no word_unat_eq_iff unat_mod unat_0)
  qed
  have "unat (ext_start e) \<le> unat r \<and> unat r + unat blocks \<le> unat (ext_start e) + unat (ext_blocks e)
      \<and> (r = start \<or> r mod offset = 0)" if ok: "inc \<le> ext_blocks e"
  proof -
    have "unat r = unat (ext_start e) + unat inc"
      using low(2) ok by (simp add: r unat_word_ariths word_le_nat_alt)
    moreover have "unat blocks + unat inc \<le> unat (ext_blocks e)"
      using room_inc ok by (simp add: word_le_nat_alt unat_sub)
    moreover have "r = start \<or> r mod offset = 0"
      using al [OF ok] by (cases "ext_start e < start") (simp_all add: r inc_def)
    ultimately show ?thesis by simp
  qed
  moreover have "unat (ext_blocks e) < unat offset \<and> ext_blocks e < r - ext_start e" if short: "\<not> inc \<le> ext_blocks e"
  proof -
    have "\<not> ext_start e < start"
    proof
      assume lt: "ext_start e < start"
      then have "unat inc = unat start - unat (ext_start e)"
        by (simp add: inc_def unat_sub order_less_imp_le)
      then show False using low(1) [OF lt] short by (auto simp: holds_def word_le_nat_alt)
    qed
    then have "inc \<le> offset"
      by (auto simp: inc_def word_le_nat_alt unat_sub [OF order_less_imp_le [OF m]] simp del: unat_mod)
    then show ?thesis using short by (simp add: r word_le_nat_alt word_less_nat_alt)
  qed
  ultimately show ?thesis by (intro bexI [OF _ e] conjI kind big) metis
qed

theorem room_found_is_room_unless_short_witness:
  "find_next_extent_size [new_extent RESERVED 0 1, new_extent USPACE 1 4, new_extent PSPACE 5 95] 0 USPACE 4 32 = Some 32
    \<and> (\<exists>e \<in> set [new_extent RESERVED 0 1, new_extent USPACE 1 4, new_extent PSPACE 5 95].
         space_type e AND USPACE \<noteq> 0 \<and> (4 :: u32) \<le> ext_blocks e \<and>
         (unat (ext_start e) \<le> unat (32 :: u32) \<and> unat (32 :: u32) + unat (4 :: u32) \<le> unat (ext_start e) + unat (ext_blocks e)
           \<and> ((32 :: u32) = 0 \<or> (32 :: u32) mod 32 = 0)
          \<or> unat (ext_blocks e) < unat (32 :: u32) \<and> ext_blocks e < 32 - ext_start e))"
proof -
  have found: "find_next_extent_size [new_extent RESERVED 0 1, new_extent USPACE 1 4, new_extent PSPACE 5 95]
      0 USPACE 4 32 = Some 32"
    by (simp add: find_next_extent_size_def find_extent_def find_extent_from.simps next_extent_def
        next_extent_from.simps room_from.simps new_extent_def USPACE_def PSPACE_def RESERVED_def Let_def)
  show ?thesis
    using found room_found_is_room_unless_short [where lo = 0 and hi = 100, OF _ _ _ _ _ _ found]
    by (simp add: new_extent_def)
qed

section \<open>The order of descriptors\<close>

text \<open>Where \<open>set_desc\<close> puts a descriptor, by recursion on the list.\<close>

fun put :: "udf_desc \<Rightarrow> udf_desc list \<Rightarrow> udf_desc list" where
  "put n [] = [n]"
| "put n [d] = [d, n]"
| "put n (d # ds) = (if desc_offset d = desc_offset n then d # n # ds
     else if desc_offset d > desc_offset n then n # d # ds else d # put n ds)"

lemma set_put: "set (put n ds) = insert n (set ds)"
  by (induction n ds rule: put.induct) auto

lemma find_desc_from_put:
  "i < length descs \<Longrightarrow>
    (case find_desc_from descs (desc_offset n) i of None \<Rightarrow> n # descs
     | Some j \<Rightarrow> take (Suc j) descs @ n # drop (Suc j) descs) = take i descs @ put n (drop i descs)"
proof (induction descs "desc_offset n" i rule: find_desc_from.induct)
  case (1 descs i)
  show ?case
  proof (cases "Suc i < length descs")
    case True
    then have d: "drop i descs = descs ! i # drop (Suc i) descs"
      and d': "drop (Suc i) descs = descs ! Suc i # drop (Suc (Suc i)) descs"
      by (simp_all add: Cons_nth_drop_Suc)
    have tk: "take (Suc i) descs = take i descs @ [descs ! i]" using 1(2) by (simp add: take_Suc_conv_app_nth)
    consider (eq) "desc_offset (descs ! i) = desc_offset n" | (gt) "desc_offset (descs ! i) > desc_offset n"
      | (lt) "desc_offset (descs ! i) < desc_offset n" by fastforce
    then show ?thesis
    proof cases
      case eq
      then show ?thesis using True tk d
        by (subst find_desc_from.simps) (simp add: d')
    next
      case gt
      then have "find_desc_from descs (desc_offset n) i = prev_ptr i"
        using True by (subst find_desc_from.simps) auto
      moreover have "put n (drop i descs) = n # drop i descs" using gt by (simp add: d d')
      ultimately show ?thesis by (cases i) (auto simp: prev_ptr_def)
    next
      case lt
      then have "find_desc_from descs (desc_offset n) i = find_desc_from descs (desc_offset n) (Suc i)"
        using True by (subst find_desc_from.simps) auto
      then show ?thesis using 1(1) [OF True] lt True tk by (auto simp: d d')
    qed
  next
    case False
    then have "drop i descs = [descs ! i]" "Suc i = length descs"
      using 1(2) by (simp_all add: Cons_nth_drop_Suc [symmetric])
    moreover from this have "take i descs @ [descs ! i] = descs" by (metis append_take_drop_id)
    ultimately show ?thesis by (subst find_desc_from.simps) simp
  qed
qed

lemma set_desc_put:
  assumes "set_desc calloc_ok descs ident offset len data = Some (i, descs')"
  shows "\<exists>n. desc_offset n = offset \<and> desc_ident n = ident \<and> descs' = put n descs"
proof -
  define insert_desc where "insert_desc new = (if descs = [] then Some (0, [new])
      else case find_desc descs offset of None \<Rightarrow> Some (0, new # descs)
           | Some i \<Rightarrow> Some (Suc i, take (Suc i) descs @ new # drop (Suc i) descs))" for new
  have "\<exists>ds. insert_desc \<lparr>desc_ident = ident, desc_offset = offset, desc_length = ucast len, desc_data = ds\<rparr>
      = Some (i, descs')"
    using assms unfolding set_desc_def Let_def insert_desc_def [symmetric]
    by (auto simp: bind_eq_Some_conv split: if_splits)
  then obtain n where n: "insert_desc n = Some (i, descs')" "desc_offset n = offset" "desc_ident n = ident"
    by fastforce
  have "descs' = put n descs"
  proof (cases "descs = []")
    case True
    then show ?thesis using n(1) by (simp add: insert_desc_def)
  next
    case False
    then show ?thesis
      using find_desc_from_put [of 0 descs n] n by (auto simp: insert_desc_def find_desc_def split: option.splits)
  qed
  then show ?thesis using n by blast
qed

lemma sorted_put:
  "sorted (map desc_offset (xs @ [l])) \<Longrightarrow>
    sorted (map desc_offset (put n (xs @ [l]))) \<longleftrightarrow>
      \<not> (desc_offset n < desc_offset l \<and> (\<forall>d \<in> set xs. desc_offset d < desc_offset n))"
proof (induction xs)
  case Nil
  then show ?case by auto
next
  case (Cons x xs)
  obtain y ys where yys: "xs @ [l] = y # ys" by (cases xs) auto
  have s: "sorted (map desc_offset (xs @ [l]))" "\<forall>d \<in> set (xs @ [l]). desc_offset x \<le> desc_offset d"
    using Cons.prems by auto
  consider (eq) "desc_offset x = desc_offset n" | (gt) "desc_offset x > desc_offset n"
    | (lt) "desc_offset x < desc_offset n" by fastforce
  then show ?case
  proof cases
    case lt
    then have "put n ((x # xs) @ [l]) = x # put n (xs @ [l])" by (auto simp: yys)
    then show ?thesis using Cons.IH [OF s(1)] s(2) lt by (auto simp: set_put)
  qed (use s yys in \<open>auto simp: order.strict_iff_order\<close>)
qed

text \<open>The descriptors of an extent, in order before, are in order after \<open>set_desc\<close> exactly when
  the new one does not belong just before the last: \<open>find_desc\<close> answers with the last descriptor
  without comparing it.\<close>

theorem set_desc_keeps_order_iff:
  assumes "sorted (map desc_offset (descs @ [l]))"
    and "set_desc calloc_ok (descs @ [l]) ident offset len data = Some (i, descs')"
  shows "sorted (map desc_offset descs') \<longleftrightarrow>
    \<not> (offset < desc_offset l \<and> (\<forall>d \<in> set descs. desc_offset d < offset))"
proof -
  obtain n where "desc_offset n = offset" "descs' = put n (descs @ [l])"
    using set_desc_put [OF assms(2)] by blast
  then show ?thesis using sorted_put [OF assms(1), of n] by simp
qed

theorem set_desc_keeps_order_iff_witness:
  "\<not> sorted (map desc_offset (snd (the (set_desc True [\<lparr>desc_ident = 1, desc_offset = 10, desc_length = 0, desc_data = []\<rparr>]
      2 5 0 None))))"
proof -
  have "set_desc True ([] @ [\<lparr>desc_ident = 1, desc_offset = 10, desc_length = 0, desc_data = []\<rparr>]) 2 5 0 None
    = Some (1, [\<lparr>desc_ident = 1, desc_offset = 10, desc_length = 0, desc_data = []\<rparr>,
        \<lparr>desc_ident = 2, desc_offset = 5, desc_length = 0,
          desc_data = [\<lparr>data_buffer = [], data_length = 0\<rparr>]\<rparr>])"
    by (simp add: set_desc_def alloc_data_def find_desc_def find_desc_from.simps Let_def)
  from set_desc_keeps_order_iff [OF _ this] this show ?thesis by simp
qed

end
