(* ===== verification/UdfCrc.thy ===== *)
theory UdfCrc
  imports UdfExtents
begin

text \<open>
  udf_src/libudffs/crc.c, the CRC of the descriptors of UDF, and the tags of descriptors that carry
  it (\<open>query_tag\<close> and \<open>udf_query_tag\<close> of mkudffs/file.c). What the CRC should be is the division bit by
  bit by the polynomial of ITU-T V.41.
\<close>

section \<open>The CRC\<close>

definition udf_crc_table :: "u16 list" where
  "udf_crc_table = [
    0x0000, 0x1021, 0x2042, 0x3063, 0x4084, 0x50a5, 0x60c6, 0x70e7, 0x8108, 0x9129, 0xa14a, 0xb16b,
    0xc18c, 0xd1ad, 0xe1ce, 0xf1ef, 0x1231, 0x0210, 0x3273, 0x2252, 0x52b5, 0x4294, 0x72f7, 0x62d6,
    0x9339, 0x8318, 0xb37b, 0xa35a, 0xd3bd, 0xc39c, 0xf3ff, 0xe3de, 0x2462, 0x3443, 0x0420, 0x1401,
    0x64e6, 0x74c7, 0x44a4, 0x5485, 0xa56a, 0xb54b, 0x8528, 0x9509, 0xe5ee, 0xf5cf, 0xc5ac, 0xd58d,
    0x3653, 0x2672, 0x1611, 0x0630, 0x76d7, 0x66f6, 0x5695, 0x46b4, 0xb75b, 0xa77a, 0x9719, 0x8738,
    0xf7df, 0xe7fe, 0xd79d, 0xc7bc, 0x48c4, 0x58e5, 0x6886, 0x78a7, 0x0840, 0x1861, 0x2802, 0x3823,
    0xc9cc, 0xd9ed, 0xe98e, 0xf9af, 0x8948, 0x9969, 0xa90a, 0xb92b, 0x5af5, 0x4ad4, 0x7ab7, 0x6a96,
    0x1a71, 0x0a50, 0x3a33, 0x2a12, 0xdbfd, 0xcbdc, 0xfbbf, 0xeb9e, 0x9b79, 0x8b58, 0xbb3b, 0xab1a,
    0x6ca6, 0x7c87, 0x4ce4, 0x5cc5, 0x2c22, 0x3c03, 0x0c60, 0x1c41, 0xedae, 0xfd8f, 0xcdec, 0xddcd,
    0xad2a, 0xbd0b, 0x8d68, 0x9d49, 0x7e97, 0x6eb6, 0x5ed5, 0x4ef4, 0x3e13, 0x2e32, 0x1e51, 0x0e70,
    0xff9f, 0xefbe, 0xdfdd, 0xcffc, 0xbf1b, 0xaf3a, 0x9f59, 0x8f78, 0x9188, 0x81a9, 0xb1ca, 0xa1eb,
    0xd10c, 0xc12d, 0xf14e, 0xe16f, 0x1080, 0x00a1, 0x30c2, 0x20e3, 0x5004, 0x4025, 0x7046, 0x6067,
    0x83b9, 0x9398, 0xa3fb, 0xb3da, 0xc33d, 0xd31c, 0xe37f, 0xf35e, 0x02b1, 0x1290, 0x22f3, 0x32d2,
    0x4235, 0x5214, 0x6277, 0x7256, 0xb5ea, 0xa5cb, 0x95a8, 0x8589, 0xf56e, 0xe54f, 0xd52c, 0xc50d,
    0x34e2, 0x24c3, 0x14a0, 0x0481, 0x7466, 0x6447, 0x5424, 0x4405, 0xa7db, 0xb7fa, 0x8799, 0x97b8,
    0xe75f, 0xf77e, 0xc71d, 0xd73c, 0x26d3, 0x36f2, 0x0691, 0x16b0, 0x6657, 0x7676, 0x4615, 0x5634,
    0xd94c, 0xc96d, 0xf90e, 0xe92f, 0x99c8, 0x89e9, 0xb98a, 0xa9ab, 0x5844, 0x4865, 0x7806, 0x6827,
    0x18c0, 0x08e1, 0x3882, 0x28a3, 0xcb7d, 0xdb5c, 0xeb3f, 0xfb1e, 0x8bf9, 0x9bd8, 0xabbb, 0xbb9a,
    0x4a75, 0x5a54, 0x6a37, 0x7a16, 0x0af1, 0x1ad0, 0x2ab3, 0x3a92, 0xfd2e, 0xed0f, 0xdd6c, 0xcd4d,
    0xbdaa, 0xad8b, 0x9de8, 0x8dc9, 0x7c26, 0x6c07, 0x5c64, 0x4c45, 0x3ca2, 0x2c83, 0x1ce0, 0x0cc1,
    0xef1f, 0xff3e, 0xcf5d, 0xdf7c, 0xaf9b, 0xbfba, 0x8fd9, 0x9ff8, 0x6e17, 0x7e36, 0x4e55, 0x5e74,
    0x2e93, 0x3eb2, 0x0ed1, 0x1ef0]"

definition udf_crc_byte :: "u16 \<Rightarrow> u8 \<Rightarrow> u16" where
  "udf_crc_byte crc b = udf_crc_table ! unat ((drop_bit 8 crc XOR ucast b) AND 0xff) XOR push_bit 8 crc"

definition udf_crc :: "bytes \<Rightarrow> u16 \<Rightarrow> u16" where
  "udf_crc data crc = foldl udf_crc_byte crc data"

section \<open>What it should be\<close>

definition v41_step :: "u16 \<Rightarrow> u16" where
  "v41_step c = (if bit c 15 then push_bit 1 c XOR 0x1021 else push_bit 1 c)"

definition v41_byte :: "u16 \<Rightarrow> u8 \<Rightarrow> u16" where
  "v41_byte c b = (v41_step ^^ 8) (c XOR push_bit 8 (ucast b))"

lemma v41_step_xor: "v41_step (a XOR b) = v41_step a XOR v41_step b"
  by (auto simp: v41_step_def bit_xor_iff push_bit_xor ac_simps)

lemma v41_steps_xor: "(v41_step ^^ n) (a XOR b) = (v41_step ^^ n) a XOR (v41_step ^^ n) b"
  by (induction n) (simp_all add: v41_step_xor)

text \<open>A word whose upper byte is zero only moves.\<close>

lemma v41_steps_shift: "n \<le> 8 \<Longrightarrow> unat c < 256 \<Longrightarrow> (v41_step ^^ n) c = push_bit n c"
proof (induction n)
  case (Suc n)
  then have "\<not> bit (push_bit n c) 15"
    using bits_below [of c 8 "15 - n"] by (auto simp: bit_push_bit_iff)
  then show ?case using Suc by (simp add: v41_step_def add.commute)
qed simp

text \<open>The entries of the table at \<open>2 * i\<close> and \<open>2 * i + 1\<close> follow from the entry at \<open>i\<close>.\<close>

fun doubled :: "u16 list \<Rightarrow> u16 list" where
  "doubled [] = []"
| "doubled (x # xs) = v41_step x # (v41_step x XOR 0x1021) # doubled xs"

lemma v41_step_and: "v41_step c = (if c AND 0x8000 = 0 then push_bit 1 c else push_bit 1 c XOR 0x1021)"
proof -
  have "(0x8000 :: u16) = push_bit 15 1" by simp
  then show ?thesis by (simp add: v41_step_def bit_iff_and_push_bit_not_eq_0)
qed

lemma udf_crc_table_doubled: "udf_crc_table = doubled (take 128 udf_crc_table)"
  by (simp add: udf_crc_table_def v41_step_and)

lemma length_udf_crc_table: "length udf_crc_table = 256"
  by (simp add: udf_crc_table_def)

lemma nth_doubled:
  "i < length xs \<Longrightarrow> doubled xs ! (2 * i) = v41_step (xs ! i)
    \<and> doubled xs ! (2 * i + 1) = v41_step (xs ! i) XOR 0x1021"
  by (induction xs arbitrary: i rule: doubled.induct) (auto simp: less_Suc_eq_0_disj)

lemma udf_crc_table_step:
  "i < 128 \<Longrightarrow> udf_crc_table ! (2 * i) = v41_step (udf_crc_table ! i)
    \<and> udf_crc_table ! (2 * i + 1) = v41_step (udf_crc_table ! i) XOR 0x1021"
  using nth_doubled [of i "take 128 udf_crc_table"]
  by (simp add: length_udf_crc_table udf_crc_table_doubled [symmetric])

lemma udf_crc_table_nth: "n < 256 \<Longrightarrow> udf_crc_table ! n = (v41_step ^^ 8) (push_bit 8 (of_nat n))"
proof (induction n rule: less_induct)
  case (less n)
  show ?case
  proof (cases "n = 0")
    case True
    then show ?thesis by (simp add: udf_crc_table_def v41_step_def eval_nat_numeral)
  next
    case False
    define i where "i = n div 2"
    have i: "i < n" "i < 128" using less.prems False by (simp_all add: i_def)
    have "unat (of_nat i :: u16) = i" using i by (simp add: unsigned_of_nat take_bit_nat_eq_self)
    then have "\<not> bit (push_bit 8 (of_nat i :: u16)) 15"
      using bits_below [of "of_nat i :: u16" 7 7] i(2) by (simp add: bit_push_bit_iff)
    then have "v41_step (push_bit 8 (of_nat i)) = push_bit 8 (of_nat (2 * i))"
      by (simp add: v41_step_def push_bit_eq_mult)
    then have even: "v41_step (udf_crc_table ! i) = (v41_step ^^ 8) (push_bit 8 (of_nat (2 * i)))"
      using less.IH [OF i(1)] i(2) by (simp add: funpow_swap1)
    have one: "(v41_step ^^ 8) (push_bit 8 1) = 0x1021"
      by code_simp
    show ?thesis
    proof (cases "even n")
      case True
      then show ?thesis using even udf_crc_table_step [OF i(2)] by (simp add: i_def)
    next
      case odd: False
      then have n: "n = 2 * i + 1" by (simp add: i_def)
      have "(of_nat n :: u16) = of_nat (2 * i) XOR 1" by (simp add: n xor_one_eq)
      then have "push_bit 8 (of_nat n :: u16) = push_bit 8 (of_nat (2 * i)) XOR push_bit 8 1"
        by (simp only: push_bit_xor)
      then show ?thesis
        using even one udf_crc_table_step [OF i(2)] by (simp add: n v41_steps_xor)
    qed
  qed
qed

lemma udf_crc_byte_v41: "udf_crc_byte c b = v41_byte c b"
proof -
  define h where "h = (drop_bit 8 c XOR ucast b) AND (0xff :: u16)"
  define l where "l = c AND (0xff :: u16)"
  have m: "(0xff :: u16) = mask 8" by (simp add: mask_eq_exp_minus_1)
  have u: "unat h < 256" "unat l < 256"
    unfolding h_def l_def m 
    using and_mask_less' [of 8 "drop_bit 8 c XOR ucast b"] and_mask_less' [of 8 c] by (simp_all add: word_less_nat_alt)
  have "c XOR push_bit 8 (ucast b) = push_bit 8 h XOR l"
    by (rule bit_word_eqI) (auto simp: h_def l_def m bit_simps)
  moreover have "push_bit 8 c = (v41_step ^^ 8) l"
    unfolding v41_steps_shift [OF order_refl u(2)] by (rule bit_word_eqI) (auto simp: l_def m bit_simps)
  ultimately show ?thesis
    using udf_crc_table_nth [OF u(1)]
    by (simp add: udf_crc_byte_def v41_byte_def h_def [symmetric] v41_steps_xor)
qed

section \<open>Descriptor tags\<close>

text \<open>\<open>sizeof(tag)\<close>, and a \<open>tag\<close> as the bytes it has in memory.\<close>

definition TAG_SIZE :: nat where "TAG_SIZE = 16"

definition tag_bytes :: "u16 \<Rightarrow> u16 \<Rightarrow> u8 \<Rightarrow> u16 \<Rightarrow> u16 \<Rightarrow> u16 \<Rightarrow> u32 \<Rightarrow> bytes" where
  "tag_bytes ident version checksum serial crc crc_length location =
    le16 ident @ le16 version @ [checksum, 0] @ le16 serial @ le16 crc @ le16 crc_length @ le32 location"

definition tag_sum :: "bytes \<Rightarrow> u8" where
  "tag_sum t = fold (\<lambda>i sum. if i \<noteq> 4 then sum + t ! i else sum) [0..<16] 0"

definition checked_tag :: "u16 \<Rightarrow> u16 \<Rightarrow> u16 \<Rightarrow> u16 \<Rightarrow> u16 \<Rightarrow> u32 \<Rightarrow> bytes" where
  "checked_tag ident udf_rev serial crc crc_length location =
    (let ret = (\<lambda>c. tag_bytes ident (if udf_rev \<ge> 0x0200 then 3 else 2) c serial crc crc_length location)
     in ret (tag_sum (ret 0)))"

text \<open>The loop of \<open>query_tag\<close> over the data of a descriptor. Only what lies behind the tag counts; for
  data shorter than the tag \<open>data->length - offset\<close> wraps around and the CRC reads past the buffer,
  which has no value.\<close>

fun data_crc :: "udf_data list \<Rightarrow> nat \<Rightarrow> u16 \<Rightarrow> u16 option" where
  "data_crc [] offset crc = Some crc"
| "data_crc (data # ds) offset crc =
    (if unat (data_length data) < offset then None
     else data_crc ds 0 (udf_crc (seg offset (unat (data_length data) - offset) (data_buffer data)) crc))"

definition query_tag :: "u16 \<Rightarrow> udf_extent \<Rightarrow> udf_desc \<Rightarrow> u16 \<Rightarrow> bytes option" where
  "query_tag udf_rev ext desc serial =
    map_option (\<lambda>crc. checked_tag (desc_ident desc) udf_rev serial crc (ucast (desc_length desc - 16))
        (if space_type ext AND PSPACE \<noteq> 0 then desc_offset desc else ext_start ext + desc_offset desc))
      (data_crc (desc_data desc) TAG_SIZE 0)"

text \<open>The loop of \<open>udf_query_tag\<close>, over at most \<open>len\<close> bytes of the data, \<open>skip\<close> bytes into the first
  buffer.\<close>

fun data_crc_upto :: "udf_data list \<Rightarrow> nat \<Rightarrow> nat \<Rightarrow> u32 \<Rightarrow> u16 \<Rightarrow> u16 option" where
  "data_crc_upto [] skip offset len crc = Some crc"
| "data_crc_upto (data # ds) skip offset len crc =
    (if len = 0 then Some crc
     else let clen = (if data_length data > ucast len then len else ucast (data_length data))
     in if unat clen < offset then None
        else data_crc_upto ds 0 0 (len - clen)
          (udf_crc (seg (skip + offset) (unat clen - offset) (data_buffer data)) crc))"

definition udf_query_tag :: "u16 \<Rightarrow> u16 \<Rightarrow> u16 \<Rightarrow> u32 \<Rightarrow> udf_data list \<Rightarrow> u32 \<Rightarrow> u32 \<Rightarrow> bytes option" where
  "udf_query_tag udf_rev ident serial location data skip len =
    map_option (\<lambda>crc. checked_tag ident udf_rev serial crc (ucast (len - 16)) location)
      (data_crc_upto data (unat skip) TAG_SIZE len 0)"

section \<open>Checking a tag\<close>

text \<open>What a reader checks of a descriptor at a block: the tag's identifier, that it names its own
  block, its checksum, and the CRC of the bytes behind it.\<close>

definition valid_desc :: "u16 \<Rightarrow> u32 \<Rightarrow> bytes \<Rightarrow> bool" where
  "valid_desc ident location bs \<longleftrightarrow> rd16 bs = ident \<and> rd32 (drop 12 bs) = location
     \<and> bs ! 4 = (\<Sum>i \<in> {0..<16} - {4}. bs ! i)
     \<and> (let n = unat (rd16 (drop 10 bs)) in 16 + n \<le> length bs
          \<and> rd16 (drop 8 bs) = foldl v41_byte 0 (seg 16 n bs))"

lemma length_tag [simp]: "length (tag_bytes a b c d e f g) = 16" "length (checked_tag a b d e f g) = 16"
  by (simp_all add: tag_bytes_def checked_tag_def Let_def)

lemma udf_crc_v41: "udf_crc data crc = foldl v41_byte crc data"
  by (simp add: udf_crc_def udf_crc_byte_v41 [abs_def])

text \<open>C38: The CRC of mkudffs, a look-up of each byte in a table of 256 numbers, is the CRC of ITU-T V.41: for each
  byte, eight steps of the shift register with the polynomial x^16 + x^12 + x^5 + 1.\<close>

theorem udf_crc_is_v41: "udf_crc data crc = foldl v41_byte crc data"
  by (rule udf_crc_v41)

lemma tag_bytes_fields:
  "rd16 (tag_bytes a b c d e f g @ xs) = a" "(tag_bytes a b c d e f g @ xs) ! 4 = c"
  "rd16 (drop 8 (tag_bytes a b c d e f g @ xs)) = e" "rd16 (drop 10 (tag_bytes a b c d e f g @ xs)) = f"
  "rd32 (drop 12 (tag_bytes a b c d e f g @ xs)) = g"
  by (simp_all add: tag_bytes_def nth_append)

lemma checked_tag_sum: "(checked_tag a v d e f g @ xs) ! 4 = (\<Sum>i \<in> {0..<16} - {4}. (checked_tag a v d e f g @ xs) ! i)"
proof -
  have s: "{0..<16} - {4} = {0, 1, 2, 3, 5, 6, 7, 8, 9, 10, 11, 12, 13, 14, 15 :: nat}" by (auto, presburger)
  show ?thesis
    unfolding s by (simp add: checked_tag_def Let_def tag_sum_def tag_bytes_def le16_def le32_def
        upt_conv_Cons add.commute add.left_commute)
qed

lemma checked_tag_valid:
  assumes "length body < 2 ^ 16"
  shows "valid_desc ident location
    (checked_tag ident udf_rev serial (udf_crc body 0) (of_nat (length body)) location @ body)"
proof -
  define t where "t = checked_tag ident udf_rev serial (udf_crc body 0) (of_nat (length body)) location @ body"
  have n: "unat (of_nat (length body) :: u16) = length body"
    using assms by (simp add: unsigned_of_nat take_bit_nat_eq_self)
  have f: "rd16 t = ident" "rd32 (drop 12 t) = location" "rd16 (drop 10 t) = of_nat (length body)"
    "rd16 (drop 8 t) = udf_crc body 0"
    by (simp_all only: t_def checked_tag_def Let_def tag_bytes_fields)
  have "seg 16 (length body) t = body" "length t = 16 + length body" by (simp_all add: t_def seg_def)
  moreover have "t ! 4 = (\<Sum>i \<in> {0..<16} - {4}. t ! i)" unfolding t_def by (rule checked_tag_sum)
  ultimately show ?thesis
    unfolding t_def [symmetric] valid_desc_def Let_def by (simp add: f n udf_crc_v41)
qed

text \<open>A descriptor of one buffer, tagged in its place.\<close>

lemma query_tag_valid:
  assumes "desc_data desc = [\<lparr>data_buffer = bs, data_length = of_nat (length bs)\<rparr>]"
    and "desc_length desc = of_nat (length bs)" "16 \<le> length bs" "length bs < 2 ^ 16"
  shows "\<exists>t. query_tag udf_rev ext desc serial = Some t \<and> length t = 16
    \<and> valid_desc (desc_ident desc) (if space_type ext AND PSPACE \<noteq> 0 then desc_offset desc
        else ext_start ext + desc_offset desc) (t @ drop 16 bs)"
proof -
  define body where "body = drop 16 bs"
  have n: "length bs = 16 + length body" using assms(3) by (simp add: body_def)
  have u: "unat (of_nat (length bs) :: u64) = length bs"
    using assms(4) by (simp add: unsigned_of_nat take_bit_nat_eq_self)
  have "(of_nat (length bs) - 16 :: u64) = of_nat (length body)" by (simp add: n)
  then have l: "(ucast (of_nat (length bs) - 16 :: u64) :: u16) = of_nat (length body)"
    using assms(4) by (simp only: unsigned_of_nat) (simp add: n take_bit_nat_eq_self)
  have "seg 16 (length bs - 16) bs = body" by (simp add: seg_def body_def)
  then have "query_tag udf_rev ext desc serial =
      Some (checked_tag (desc_ident desc) udf_rev serial (udf_crc body 0) (of_nat (length body))
        (if space_type ext AND PSPACE \<noteq> 0 then desc_offset desc else ext_start ext + desc_offset desc))"
    using assms(3) by (simp add: query_tag_def assms(1,2) TAG_SIZE_def u l)
  moreover have "length body < 2 ^ 16" using n assms(4) by linarith
  ultimately show ?thesis
    using checked_tag_valid [of body] by (simp add: body_def [symmetric])
qed

end
