(* ===== verification/UdfDisc.thy ===== *)
theory UdfDisc
  imports UdfCrc "HOL-Library.Monad_Syntax"
begin

text \<open>
  The plan mkudffs makes of a volume: \<open>split_space\<close>, \<open>setup_vrs\<close> and \<open>setup_anchor\<close> of
  udf_src/mkudffs/mkudffs.c over the space map of theory UdfExtents. A call of \<open>exit\<close>, a division by
  zero and a null pointer that is followed end the run: their value is \<open>None\<close>. Whether memory can be
  had depends on the map at the time of the call, so that every call may go its own way.
\<close>

section \<open>The disc\<close>

definition VRS :: u32 where "VRS = 0x0002"
definition ANCHOR :: u32 where "ANCHOR = 0x0004"
definition MVDS :: u32 where "MVDS = 0x0008"
definition RVDS :: u32 where "RVDS = 0x0010"
definition LVID :: u32 where "LVID = 0x0020"
definition STABLE :: u32 where "STABLE = 0x0040"
definition SSPACE :: u32 where "SSPACE = 0x0080"
definition MBR :: u32 where "MBR = 0x0800"

definition FLAG_UNALLOC_BITMAP :: u32 where "FLAG_UNALLOC_BITMAP = 0x00000004"
definition FLAG_CLOSED :: u32 where "FLAG_CLOSED = 0x00000800"
definition FLAG_VAT :: u32 where "FLAG_VAT = 0x00001000"
definition FLAG_NO_WRITE :: u32 where "FLAG_NO_WRITE = 0x00004000"
definition FLAG_BOOTAREA_PRESERVE :: u32 where "FLAG_BOOTAREA_PRESERVE = 0x00010000"
definition FLAG_BOOTAREA_ERASE :: u32 where "FLAG_BOOTAREA_ERASE = 0x00020000"
definition FLAG_BOOTAREA_MBR :: u32 where "FLAG_BOOTAREA_MBR = 0x00040000"

definition PD_ACCESS_TYPE_REWRITABLE :: u32 where "PD_ACCESS_TYPE_REWRITABLE = 3"
definition PD_ACCESS_TYPE_OVERWRITABLE :: u32 where "PD_ACCESS_TYPE_OVERWRITABLE = 4"

lemmas udf_consts = RESERVED_def VRS_def ANCHOR_def MVDS_def RVDS_def LVID_def STABLE_def SSPACE_def
  PSPACE_def USPACE_def MBR_def

lemmas udf_flags = FLAG_UNALLOC_BITMAP_def FLAG_CLOSED_def FLAG_VAT_def FLAG_NO_WRITE_def
  FLAG_BOOTAREA_PRESERVE_def FLAG_BOOTAREA_ERASE_def FLAG_BOOTAREA_MBR_def

datatype udf_alloc_type = VDS_SIZE | LVID_SIZE | STABLE_SIZE | SSPACE_SIZE | PSPACE_SIZE

record udf_sizing =
  sz_align :: u32
  sz_numSize :: u32
  sz_denomSize :: u32
  sz_minSize :: u32

text \<open>The fields of \<open>struct udf_disc\<close> the plan uses; of the logical volume and partition descriptors it
  points to, the access type, the number of partition maps, the sparable partition map
  \<open>find_type2_sparable_partition\<close> finds (packet length, number of sparing tables) and the two tables
  of the integrity descriptor.\<close>

record udf_disc =
  udf_rev :: u16
  blocksize :: u32
  disc_blocks :: u32
  disc_flags :: u32
  sizing :: "udf_alloc_type \<Rightarrow> udf_sizing"
  start_block :: u32
  last_block :: u32
  accessType :: u32
  numPartitionMaps :: u32
  sparable_map :: "(u16 \<times> u8) option"
  lvid_tables :: bytes
  extents :: "udf_extent list"

type_synonym memory = "udf_extent list \<Rightarrow> nat \<Rightarrow> bool"

definition flagged :: "udf_disc \<Rightarrow> u32 \<Rightarrow> bool" where
  "flagged disc flag \<longleftrightarrow> disc_flags disc AND flag \<noteq> 0"

text \<open>\<open>set_extent\<close> on the map of a disc, and the last extent of the map.\<close>

definition set_space :: "memory \<Rightarrow> u32 \<Rightarrow> u32 \<Rightarrow> u32 \<Rightarrow> udf_disc \<Rightarrow> udf_disc option" where
  "set_space mem type start blocks disc =
    map_option (\<lambda>(_, exts). disc\<lparr>extents := exts\<rparr>) (set_extent (mem (extents disc)) (extents disc) type start blocks)"

definition tail_ptr :: "udf_disc \<Rightarrow> nat" where
  "tail_ptr disc = length (extents disc) - 1"

text \<open>\<open>if (!start) exit(1)\<close>.\<close>

definition required :: "u32 option \<Rightarrow> u32 option" where
  "required r = Option.bind r (\<lambda>start. if start = 0 then None else Some start)"

definition udiv :: "u32 \<Rightarrow> u32 \<Rightarrow> u32 option" where
  "udiv a b = (if b = 0 then None else Some (a div b))"

text \<open>The sizes for media of the type \<open>hd\<close> (\<open>default_sizing\<close>), and what the option \<open>--packetlen\<close> makes
  of them.\<close>

definition default_sizing_hd :: "udf_alloc_type \<Rightarrow> udf_sizing" where
  "default_sizing_hd i = \<lparr>sz_align = 1, sz_numSize = 0, sz_denomSize = 1,
     sz_minSize = (case i of VDS_SIZE \<Rightarrow> 16 | LVID_SIZE \<Rightarrow> 1 | _ \<Rightarrow> 0)\<rparr>"

definition with_packetlen :: "u16 \<Rightarrow> (udf_alloc_type \<Rightarrow> udf_sizing) \<Rightarrow> udf_alloc_type \<Rightarrow> udf_sizing" where
  "with_packetlen packetlen szs i =
    (if packetlen \<noteq> 0 then (szs i)\<lparr>sz_align := ucast packetlen\<rparr> else szs i)"

section \<open>Splitting the space\<close>

definition mark_boot_area :: "memory \<Rightarrow> udf_disc \<Rightarrow> udf_disc option" where
  "mark_boot_area mem disc =
    (let start_block = start_block disc; blocksize = blocksize disc in do {
       disc \<leftarrow> (if start_block \<noteq> 0 then set_space mem RESERVED 0 start_block disc else Some disc);
       (start, disc) \<leftarrow> (if flagged disc FLAG_BOOTAREA_MBR
          then map_option (Pair 1) (set_space mem MBR (start_block + 0) 1 disc) else Some (0, disc));
       reserved \<leftarrow> udiv 32768 blocksize;
       disc \<leftarrow> (if reserved > start
          then set_space mem RESERVED (start_block + start) (reserved - start) disc else Some disc);
       if blocksize \<ge> 2048 then set_space mem VRS (start_block + (2048 * 16) div blocksize) 4 disc
       else set_space mem VRS (start_block + (2048 * 16) div blocksize)
              ((2048 * 3 + blocksize) div blocksize) disc
     })"

definition mark_anchors :: "memory \<Rightarrow> u32 \<Rightarrow> udf_disc \<Rightarrow> udf_disc option" where
  "mark_anchors mem blocks disc =
    (let start_block = start_block disc in do {
       disc \<leftarrow> (if blocks > 257 then set_space mem ANCHOR (start_block + 256) 1 disc else Some disc);
       disc \<leftarrow> (if flagged disc FLAG_VAT \<and> flagged disc FLAG_CLOSED then do {
            let value = sz_align (sizing disc PSPACE_SIZE);
            packets \<leftarrow> udiv (start_block + 257 + 1 + value - 1) value;
            let start = packets * value - 1 + 256 mod value;
            if blocks \<le> start \<or> blocks - start \<le> 256 then None else set_space mem ANCHOR start 1 disc
          }
          else if \<not> flagged disc FLAG_VAT \<and> blocks \<ge> 3072
          then set_space mem ANCHOR (start_block + blocks - 257) 1 disc else Some disc);
       if \<not> flagged disc FLAG_VAT then set_space mem ANCHOR (start_block + blocks - 1) 1 disc else Some disc
     })"

text \<open>\<open>sizeof(struct sparingTable)\<close> is 56 and \<open>sizeof(struct sparingEntry)\<close> 8.\<close>

definition size_sparing_table :: "udf_disc \<Rightarrow> udf_disc option" where
  "size_sparing_table disc =
    (case sparable_map disc of
       Some (packetLength, _) \<Rightarrow>
         if sz_minSize (sizing disc STABLE_SIZE) \<noteq> 0 then Some disc
         else if packetLength = 0 \<or> blocksize disc = 0 then None
         else let packets = sz_minSize (sizing disc SSPACE_SIZE) div ucast packetLength;
                  n = (56 + ucast packets * 8 + ucast (blocksize disc) - 1) div (ucast (blocksize disc) :: u64)
              in Some (disc\<lparr>sizing := (sizing disc)(STABLE_SIZE := (sizing disc STABLE_SIZE)\<lparr>sz_minSize := ucast n\<rparr>)\<rparr>)
     | None \<Rightarrow> Some disc)"

definition asked_size :: "udf_disc \<Rightarrow> u32 \<Rightarrow> udf_alloc_type \<Rightarrow> u32 option" where
  "asked_size disc blocks i =
    map_option (\<lambda>n. if sz_minSize (sizing disc i) > n then sz_minSize (sizing disc i) else n)
      (udiv (sz_numSize (sizing disc i) * blocks) (sz_denomSize (sizing disc i)))"

text \<open>The sizes of the volume descriptor sequence, the integrity sequence, the sparing table, the
  sparing space and the partition; the last is computed and not used.\<close>

definition space_sizes :: "udf_disc \<Rightarrow> u32 \<Rightarrow> (udf_alloc_type \<Rightarrow> u32) option" where
  "space_sizes disc blocks = do {
     vds \<leftarrow> asked_size disc blocks VDS_SIZE;
     lvid \<leftarrow> asked_size disc blocks LVID_SIZE;
     stable \<leftarrow> asked_size disc blocks STABLE_SIZE;
     sspace \<leftarrow> asked_size disc blocks SSPACE_SIZE;
     pspace \<leftarrow> asked_size disc blocks PSPACE_SIZE;
     lvid8k \<leftarrow> udiv (8192 + blocksize disc - 1) (blocksize disc);
     let lvid = (if (accessType disc = PD_ACCESS_TYPE_OVERWRITABLE \<or> accessType disc = PD_ACCESS_TYPE_REWRITABLE)
                   \<and> (ucast lvid :: u64) * ucast (blocksize disc) < 8192 \<and> blocks > 257
                 then lvid8k else lvid);
     let vds = (if vds > 6 \<and> blocks \<le> 257 then 6 else vds);
     Some (\<lambda>t. case t of VDS_SIZE \<Rightarrow> vds | LVID_SIZE \<Rightarrow> lvid | STABLE_SIZE \<Rightarrow> stable
        | SSPACE_SIZE \<Rightarrow> sspace | PSPACE_SIZE \<Rightarrow> pspace)
   }"

definition offset_of :: "udf_disc \<Rightarrow> udf_alloc_type \<Rightarrow> u32" where
  "offset_of disc t = sz_align (sizing disc t)"

definition place_mvds :: "memory \<Rightarrow> u32 \<Rightarrow> u32 \<Rightarrow> udf_disc \<Rightarrow> udf_disc option" where
  "place_mvds mem blocks count disc =
    (let start_block = start_block disc; offset = offset_of disc VDS_SIZE in do {
       n \<leftarrow> (if \<not> flagged disc FLAG_VAT \<and> blocks < 770 then udiv (start_block + offset - 1) offset
             else udiv (start_block + 96) offset);
       start \<leftarrow> required (find_next_extent_size (extents disc) (n * offset) USPACE count offset);
       set_space mem MVDS start count disc
     })"

definition place_rvds :: "memory \<Rightarrow> u32 \<Rightarrow> u32 \<Rightarrow> udf_disc \<Rightarrow> udf_disc option" where
  "place_rvds mem blocks count disc =
    (let start_block = start_block disc; offset = offset_of disc VDS_SIZE in
     if flagged disc FLAG_VAT then do {
       n \<leftarrow> udiv (start_block + 256 - count) offset;
       start \<leftarrow> required (find_next_extent_size (extents disc) (n * offset) USPACE count offset);
       set_space mem RVDS start count disc
     }
     else if blocks > 257 then do {
       start \<leftarrow> required (if blocks \<ge> 3072
          then find_next_extent_size (extents disc) ((start_block + blocks - 257 + 97) div 32 * 32) USPACE count offset
          else prev_extent_size (extents disc) (tail_ptr disc) USPACE count offset);
       set_space mem RVDS start count disc
     }
     else Some disc)"

definition place_lvid :: "memory \<Rightarrow> u32 \<Rightarrow> u32 \<Rightarrow> udf_disc \<Rightarrow> udf_disc option" where
  "place_lvid mem blocks count disc =
    (let start_block = start_block disc; offset = offset_of disc LVID_SIZE in do {
       start \<leftarrow> prev_extent_size (extents disc) (tail_ptr disc) USPACE count offset;
       if start < 256 \<or> blocks \<ge> 770 then do {
         n \<leftarrow> (if \<not> flagged disc FLAG_VAT \<and> blocks < 770 then udiv (start_block + offset - 1) offset
               else udiv (start_block + 128) offset);
         start \<leftarrow> required (find_next_extent_size (extents disc) (n * offset) USPACE count offset);
         set_space mem LVID start count disc
       }
       else Some disc
     })"

text \<open>\<open>next_extent(disc->head, type)->start\<close>.\<close>

definition first_start :: "udf_disc \<Rightarrow> u32 \<Rightarrow> u32 option" where
  "first_start disc type = map_option (\<lambda>i. ext_start (extents disc ! i)) (next_extent (extents disc) (Some 0) type)"

definition sparing_table_at :: "udf_disc \<Rightarrow> nat \<Rightarrow> u32 \<Rightarrow> u32 option" where
  "sparing_table_at disc i count =
    (let exts = extents disc; offset = offset_of disc STABLE_SIZE in
     if i = 0 then first_start disc MVDS \<bind> (\<lambda>mvds. find_next_extent_size exts mvds USPACE count offset)
     else if i = 1 then prev_extent_size exts (tail_ptr disc) USPACE count offset
     else if i = 2 then
       (case next_extent exts (Some 0) ANCHOR of None \<Rightarrow> room_before exts USPACE count offset None
        | Some anchor \<Rightarrow> prev_extent_size exts anchor USPACE count offset)
     else prev_extent exts (prev_ptr (tail_ptr disc)) ANCHOR
       \<bind> (\<lambda>anchor. find_next_extent_size exts (ext_start (exts ! anchor)) USPACE count offset))"

fun place_sparing_tables :: "memory \<Rightarrow> nat list \<Rightarrow> u32 \<Rightarrow> udf_disc \<Rightarrow> udf_disc option" where
  "place_sparing_tables mem [] count disc = Some disc"
| "place_sparing_tables mem (i # is) count disc =
    required (sparing_table_at disc i count) \<bind> (\<lambda>start.
    set_space mem STABLE start count disc \<bind> place_sparing_tables mem is count)"

definition place_sparing :: "memory \<Rightarrow> (udf_alloc_type \<Rightarrow> u32) \<Rightarrow> udf_disc \<Rightarrow> udf_disc option" where
  "place_sparing mem sizes disc =
    (case sparable_map disc of None \<Rightarrow> Some disc
     | Some (_, numSparingTables) \<Rightarrow> do {
         disc \<leftarrow> place_sparing_tables mem [0..<unat numSparingTables] (sizes STABLE_SIZE) disc;
         mvds \<leftarrow> first_start disc MVDS;
         start \<leftarrow> required (find_next_extent_size (extents disc) mvds USPACE (sizes SSPACE_SIZE)
            (offset_of disc SSPACE_SIZE));
         set_space mem SSPACE start (sizes SSPACE_SIZE) disc
       })"

text \<open>What an extent offers to the partition: start and size, aligned, \<open>None\<close> if nothing is left.\<close>

definition partition_room :: "u32 \<Rightarrow> bool \<Rightarrow> udf_extent \<Rightarrow> (u32 \<times> u32) option" where
  "partition_room offset bitmap ext =
    (let rest = ext_start ext mod offset in
     if rest \<noteq> 0 \<and> offset \<ge> ext_blocks ext + rest then None
     else let (start, count) = (if rest \<noteq> 0 then (ext_start ext + offset - rest, ext_blocks ext - offset + rest)
                               else (ext_start ext, ext_blocks ext));
              count = (if bitmap \<and> count AND 7 \<noteq> 0 then count AND NOT 7 else count);
              count = (if count mod offset \<noteq> 0 then count - count mod offset else count)
          in if count = 0 then None else Some (start, count))"

function best_room_from :: "udf_extent list \<Rightarrow> u32 \<Rightarrow> bool \<Rightarrow> nat option \<Rightarrow> u32 \<times> u32 \<Rightarrow> u32 \<times> u32" where
  "best_room_from exts offset bitmap p best =
    (case p of None \<Rightarrow> best
     | Some i \<Rightarrow>
         if length exts \<le> i then best
         else let best = (case partition_room offset bitmap (exts ! i) of None \<Rightarrow> best
                          | Some (start, count) \<Rightarrow> if snd best < count then (start, count) else best)
              in best_room_from exts offset bitmap (next_extent exts (next_ptr exts i) USPACE) best)"
  by pat_completeness auto

termination
  by (relation "measure (\<lambda>(exts, offset, bitmap, p, best). case p of None \<Rightarrow> 0 | Some i \<Rightarrow> Suc (length exts) - i)")
    (auto simp: next_extent_def next_ptr_def dest!: next_extent_from_ge split: option.splits if_splits)

declare best_room_from.simps [simp del]

definition best_room :: "u32 \<Rightarrow> udf_disc \<Rightarrow> u32 \<times> u32" where
  "best_room blocks disc =
    (let exts = extents disc; offset = offset_of disc PSPACE_SIZE; bitmap = flagged disc FLAG_UNALLOC_BITMAP;
         best = best_room_from exts offset bitmap
           (next_extent exts (Some (find_extent exts (start_block disc + 256))) USPACE) (0, 0)
     in if flagged disc FLAG_VAT \<or> blocks \<ge> 770 then best
        else let best = best_room_from exts offset bitmap (prev_extent exts (Some (tail_ptr disc)) USPACE) best
             in best_room_from exts offset bitmap (next_extent exts (Some 0) USPACE) best)"

text \<open>The tables of free space and of sizes in the integrity descriptor, one entry per partition map
  each; the entry of the second map is \<open>0xFFFFFFFF\<close>.\<close>

definition lvid_entry :: "u32 \<Rightarrow> nat \<Rightarrow> u32" where
  "lvid_entry count i = (if i = 1 then 0xFFFFFFFF else count)"

definition fill_lvid_tables :: "u32 \<Rightarrow> udf_disc \<Rightarrow> udf_disc" where
  "fill_lvid_tables count disc =
    (let n = unat (numPartitionMaps disc);
         tables = fold (\<lambda>i t. patch (4 * i) (le32 (lvid_entry count i)) t) [0..<n] (lvid_tables disc);
         tables = fold (\<lambda>i t. patch (4 * n + 4 * i) (le32 (lvid_entry count i)) t) [0..<n] tables
     in disc\<lparr>lvid_tables := tables\<rparr>)"

definition place_pspace :: "memory \<Rightarrow> u32 \<Rightarrow> udf_disc \<Rightarrow> udf_disc option" where
  "place_pspace mem blocks disc =
    (if offset_of disc PSPACE_SIZE = 0 then None
     else let (start, count) = best_room blocks disc
     in if count = 0 then None
        else map_option (fill_lvid_tables count) (set_space mem PSPACE start count disc))"

definition place_late_lvid :: "memory \<Rightarrow> u32 \<Rightarrow> udf_disc \<Rightarrow> udf_disc option" where
  "place_late_lvid mem count disc =
    (if next_extent (extents disc) (Some 0) LVID \<noteq> None then Some disc
     else do {
       start \<leftarrow> required (find_next_extent_size (extents disc) 0 USPACE count (offset_of disc LVID_SIZE));
       set_space mem LVID start count disc
     })"

definition split_space :: "memory \<Rightarrow> udf_disc \<Rightarrow> udf_disc option" where
  "split_space mem disc =
    (if start_block disc \<ge> disc_blocks disc then None
     else if last_block disc \<noteq> 0 \<and> last_block disc \<ge> disc_blocks disc then None
     else let blocks = disc_blocks disc - start_block disc in do {
       disc \<leftarrow> mark_boot_area mem disc;
       disc \<leftarrow> mark_anchors mem blocks disc;
       disc \<leftarrow> size_sparing_table disc;
       sizes \<leftarrow> space_sizes disc blocks;
       disc \<leftarrow> place_mvds mem blocks (sizes VDS_SIZE) disc;
       disc \<leftarrow> place_rvds mem blocks (sizes VDS_SIZE) disc;
       disc \<leftarrow> place_lvid mem blocks (sizes LVID_SIZE) disc;
       disc \<leftarrow> place_sparing mem sizes disc;
       disc \<leftarrow> place_pspace mem blocks disc;
       disc \<leftarrow> place_late_lvid mem (sizes LVID_SIZE) disc;
       Some (if start_block disc \<noteq> 0
             then disc\<lparr>extents := remove_extent (extents disc) (find_extent (extents disc) 0)\<rparr> else disc)
     })"

section \<open>Volume recognition sequence and anchors\<close>

definition volStructDesc :: "string \<Rightarrow> bytes" where
  "volStructDesc stdIdent = [0] @ map of_char stdIdent @ [1] @ replicate 2041 0"

text \<open>A descriptor of one buffer put into the extent at an index, and the buffer it starts with
  written over.\<close>

definition set_ext_desc ::
  "bool \<Rightarrow> nat \<Rightarrow> u16 \<Rightarrow> u32 \<Rightarrow> bytes \<Rightarrow> udf_extent list \<Rightarrow> udf_extent list option" where
  "set_ext_desc calloc_ok i ident offset buf exts =
    map_option (\<lambda>(k, descs). exts[i := (exts ! i)\<lparr>ext_descs := descs[k := (descs ! k)\<lparr>desc_data :=
        [(hd (desc_data (descs ! k)))\<lparr>data_buffer := buf\<rparr>]\<rparr>]\<rparr>])
      (set_desc calloc_ok (ext_descs (exts ! i)) ident offset (of_nat (length buf)) None)"

definition vrs_offset :: "u32 \<Rightarrow> u32 \<Rightarrow> u32" where
  "vrs_offset bs k = (if bs \<ge> 2048 then k else 2048 * k div bs)"

definition setup_vrs :: "memory \<Rightarrow> udf_disc \<Rightarrow> udf_disc option" where
  "setup_vrs mem disc =
    (case next_extent (extents disc) (Some 0) VRS of None \<Rightarrow> Some disc
     | Some i \<Rightarrow> do {
         exts \<leftarrow> set_ext_desc (mem (extents disc) 0) i 0 0 (volStructDesc ''BEA01'') (extents disc);
         exts \<leftarrow> set_ext_desc (mem exts 0) i 0 (vrs_offset (blocksize disc) 1)
            (volStructDesc (if udf_rev disc \<ge> 0x0200 then ''NSR03'' else ''NSR02'')) exts;
         exts \<leftarrow> set_ext_desc (mem exts 0) i 0 (vrs_offset (blocksize disc) 2) (volStructDesc ''TEA01'') exts;
         Some (disc\<lparr>extents := exts\<rparr>)
       })"

definition TAG_IDENT_AVDP :: u16 where "TAG_IDENT_AVDP = 0x0002"

definition anchorVolDescPtr :: "bytes \<Rightarrow> u32 \<Rightarrow> u32 \<Rightarrow> u32 \<Rightarrow> u32 \<Rightarrow> bytes" where
  "anchorVolDescPtr descTag mlen mloc rlen rloc =
    descTag @ le32 mlen @ le32 mloc @ le32 rlen @ le32 rloc @ replicate 480 0"

text \<open>The anchor in an extent. The bytes \<open>malloc\<close> leaves in the place of the tag do not count: the CRC
  begins behind them.\<close>

definition set_anchor :: "u16 \<Rightarrow> u32 \<Rightarrow> u32 \<Rightarrow> u32 \<Rightarrow> u32 \<Rightarrow> udf_extent \<Rightarrow> udf_extent option" where
  "set_anchor rv mlen mloc rlen rloc ext =
    (let desc = (\<lambda>t. \<lparr>desc_ident = TAG_IDENT_AVDP, desc_offset = 0, desc_length = 512,
           desc_data = [\<lparr>data_buffer = anchorVolDescPtr t mlen mloc rlen rloc, data_length = 512\<rparr>]\<rparr>)
     in map_option (\<lambda>t. ext\<lparr>ext_descs := [desc t]\<rparr>)
          (query_tag rv ext (desc (replicate 16 0)) 1))"

text \<open>The loop over the anchors, from the extent at an index on.\<close>

function set_anchors_from ::
  "memory \<Rightarrow> (udf_extent \<Rightarrow> udf_extent option) \<Rightarrow> nat option \<Rightarrow> udf_extent list \<Rightarrow> udf_extent list option" where
  "set_anchors_from mem set_one p exts =
    (case p of None \<Rightarrow> Some exts
     | Some i \<Rightarrow>
         if length exts \<le> i then Some exts
         else if \<not> mem exts 0 \<or> \<not> mem exts 1 then None
         else case set_one (exts ! i) of None \<Rightarrow> None
              | Some ext \<Rightarrow> set_anchors_from mem set_one
                  (next_extent (exts[i := ext]) (next_ptr (exts[i := ext]) i) ANCHOR) (exts[i := ext]))"
  by pat_completeness auto

termination
  by (relation "measure (\<lambda>(mem, set_one, p, exts). case p of None \<Rightarrow> 0 | Some i \<Rightarrow> Suc (length exts) - i)")
    (auto simp: next_extent_def next_ptr_def dest!: next_extent_from_ge split: option.splits if_splits)

declare set_anchors_from.simps [simp del]

definition setup_anchor :: "memory \<Rightarrow> udf_disc \<Rightarrow> udf_disc option" where
  "setup_anchor mem disc =
    (let exts = extents disc; large = disc_blocks disc - start_block disc > 257 in do {
       m \<leftarrow> next_extent exts (Some 0) MVDS;
       let mloc = ext_start (exts ! m);
       let mlen = ext_blocks (exts ! m) * blocksize disc;
       (rlen, rloc) \<leftarrow> (case next_extent exts (Some 0) RVDS of
            None \<Rightarrow> if large then None else Some (mlen, mloc)
          | Some r \<Rightarrow> Some (if large then (ext_blocks (exts ! r) * blocksize disc, ext_start (exts ! r))
                        else (mlen, mloc)));
       a \<leftarrow> next_extent exts (Some 0) ANCHOR;
       exts \<leftarrow> set_anchors_from mem (set_anchor (udf_rev disc) mlen mloc rlen rloc) (Some a) exts;
       Some (disc\<lparr>extents := exts\<rparr>)
     })"

end
