(* ===== verification/UdfVds.thy ===== *)
theory UdfVds
  imports UdfDisc
begin

text \<open>
  The volume descriptor sequences: \<open>setup_vds\<close> of udf_src/mkudffs/mkudffs.c and what it calls, and the
  master boot record of \<open>setup_mbr\<close>. The
  descriptors \<open>struct udf_disc\<close> points to are given as the bytes they have; a plan changes the extents
  of the map and these bytes. \<open>None\<close> is a call of \<open>exit\<close>.
\<close>

section \<open>The master boot record\<close>

text \<open>\<open>fill_mbr\<close> for the file descriptor the app gives, which is no block device; \<open>rnd\<close> is the value of
  \<open>randu32\<close>, \<open>blkssz\<close> the sector size the options set, or 0.\<close>

definition chs_heads :: "u64 \<Rightarrow> u64" where
  "chs_heads lba_blocks =
    (if lba_blocks < 16 * 63 * 1024 then 16 else if lba_blocks < 32 * 63 * 1024 then 32
     else if lba_blocks < 64 * 63 * 1024 then 64 else if lba_blocks < 128 * 63 * 1024 then 128 else 255)"

definition ending_chs :: "u64 \<Rightarrow> bytes" where
  "ending_chs lba_blocks =
    (let heads = chs_heads lba_blocks; sectors = 63
     in if lba_blocks \<ge> heads * sectors * 1024 then [254, 255, 255]
        else [ucast ((lba_blocks div sectors) mod heads),
              ucast (((1 + lba_blocks mod sectors) AND 63) OR (drop_bit 8 (lba_blocks div (heads * sectors)) * 64)),
              ucast ((lba_blocks div (heads * sectors)) AND 255)])"

definition fill_mbr :: "u32 \<Rightarrow> u32 \<Rightarrow> udf_disc \<Rightarrow> bytes option" where
  "fill_mbr rnd blkssz disc =
    (if start_block disc \<noteq> 0 then None
     else let blkssz = (if blkssz \<noteq> 0 then ucast blkssz else 512);
              lba_blocks = (ucast (disc_blocks disc) * ucast (blocksize disc) + blkssz - 1) div blkssz
          in Some (replicate 440 0 @ le32 rnd @ [0, 0]
               @ [0, 0, 1, 0, 0x07] @ ending_chs lba_blocks @ le32 0 @ le32 (ucast lba_blocks)
               @ replicate 48 0 @ le16 0xAA55))"

definition setup_mbr :: "memory \<Rightarrow> u32 \<Rightarrow> u32 \<Rightarrow> udf_disc \<Rightarrow> udf_disc option" where
  "setup_mbr mem rnd blkssz disc =
    (case next_extent (extents disc) (Some 0) MBR of None \<Rightarrow> Some disc
     | Some i \<Rightarrow> do {
         let exts = extents disc;
         (k, descs) \<leftarrow> set_desc (mem exts 0) (ext_descs (exts ! i)) 0 0 (ext_blocks (exts ! i) * blocksize disc) None;
         mbr \<leftarrow> fill_mbr rnd blkssz disc;
         let data = hd (desc_data (descs ! k));
         Some (disc\<lparr>extents := exts[i := (exts ! i)\<lparr>ext_descs := descs[k := (descs ! k)\<lparr>desc_data :=
           [data\<lparr>data_buffer := mbr @ drop 512 (data_buffer data)\<rparr>]\<rparr>]\<rparr>]\<rparr>)
       })"

section \<open>The descriptors\<close>

definition STABLE_LEN :: u32 where "STABLE_LEN = 56"

definition TAG_IDENT_PVD :: u16 where "TAG_IDENT_PVD = 0x0001"
definition TAG_IDENT_IUVD :: u16 where "TAG_IDENT_IUVD = 0x0004"
definition TAG_IDENT_PD :: u16 where "TAG_IDENT_PD = 0x0005"
definition TAG_IDENT_LVD :: u16 where "TAG_IDENT_LVD = 0x0006"
definition TAG_IDENT_USD :: u16 where "TAG_IDENT_USD = 0x0007"
definition TAG_IDENT_TD :: u16 where "TAG_IDENT_TD = 0x0008"
definition TAG_IDENT_LVID :: u16 where "TAG_IDENT_LVID = 0x0009"

definition FLAG_BLANK_TERMINAL :: u32 where "FLAG_BLANK_TERMINAL = 0x00000200"

lemmas tag_idents = TAG_IDENT_AVDP_def TAG_IDENT_PVD_def TAG_IDENT_IUVD_def TAG_IDENT_PD_def TAG_IDENT_LVD_def
  TAG_IDENT_USD_def TAG_IDENT_TD_def TAG_IDENT_LVID_def

text \<open>The descriptors with index 0. Of the integrity descriptor, the 80 bytes before its two tables (a
  field of the disc) and the bytes behind them.\<close>

record udf_vol =
  vol_pvd :: bytes
  vol_lvd :: bytes
  vol_pd :: bytes
  vol_usd :: bytes
  vol_iuvd :: bytes
  vol_td :: bytes
  vol_lvid :: bytes
  vol_lvid_use :: bytes
  vol_stable :: bytes

text \<open>A descriptor that keeps its buffer, put into the extent at an index, tagged there: the bytes it has
  then and the extents. Its length is an \<open>int\<close>.\<close>

definition put_owned ::
  "memory \<Rightarrow> u16 \<Rightarrow> nat \<Rightarrow> u16 \<Rightarrow> u32 \<Rightarrow> u32 \<Rightarrow> bytes \<Rightarrow> udf_extent list \<Rightarrow> (bytes \<times> udf_extent list) option" where
  "put_owned mem rv i ident offset n buf exts = do {
     (k, descs) \<leftarrow> set_desc (mem exts 0) (ext_descs (exts ! i)) ident offset 0 None;
     let desc = (\<lambda>b. (descs ! k)\<lparr>desc_length := scast n,
       desc_data := [\<lparr>data_buffer = b, data_length = scast n\<rparr>]\<rparr>);
     t \<leftarrow> query_tag rv (exts ! i) (desc buf) 1;
     let buf = t @ drop 16 buf;
     Some (buf, exts[i := (exts ! i)\<lparr>ext_descs := descs[k := desc buf]\<rparr>])
   }"

text \<open>A descriptor with a copy of a buffer.\<close>

definition put_copied ::
  "memory \<Rightarrow> u16 \<Rightarrow> nat \<Rightarrow> u16 \<Rightarrow> u32 \<Rightarrow> u32 \<Rightarrow> bytes \<Rightarrow> udf_extent list \<Rightarrow> udf_extent list option" where
  "put_copied mem rv i ident offset n buf exts = do {
     (k, descs) \<leftarrow> set_desc (mem exts 0) (ext_descs (exts ! i)) ident offset n None;
     let desc = (\<lambda>b. (descs ! k)\<lparr>desc_data := [(hd (desc_data (descs ! k)))\<lparr>data_buffer := b\<rparr>]\<rparr>);
     let copy = take (unat n) buf;
     t \<leftarrow> query_tag rv (exts ! i) (desc copy) 1;
     Some (exts[i := (exts ! i)\<lparr>ext_descs := descs[k := desc (t @ drop 16 copy)]\<rparr>])
   }"

text \<open>The main descriptor and its copy in the reserve sequence, where there is one.\<close>

definition put_both ::
  "memory \<Rightarrow> u16 \<Rightarrow> nat \<Rightarrow> nat option \<Rightarrow> u16 \<Rightarrow> u32 \<Rightarrow> u32 \<Rightarrow> bytes \<Rightarrow> udf_extent list
    \<Rightarrow> (bytes \<times> udf_extent list) option" where
  "put_both mem rv mvds rvds ident offset n buf exts = do {
     (buf, exts) \<leftarrow> put_owned mem rv mvds ident offset n buf exts;
     case rvds of None \<Rightarrow> Some (buf, exts)
     | Some r \<Rightarrow> map_option (Pair buf) (put_copied mem rv r ident offset n buf exts)
   }"

type_synonym vds_step = "udf_vol \<times> udf_extent list \<Rightarrow> (udf_vol \<times> udf_extent list) option"

definition setup_pvd :: "memory \<Rightarrow> udf_disc \<Rightarrow> nat \<Rightarrow> nat option \<Rightarrow> u32 \<Rightarrow> vds_step" where
  "setup_pvd mem disc mvds rvds offset = (\<lambda>(v, exts).
     map_option (\<lambda>(b, exts). (v\<lparr>vol_pvd := b\<rparr>, exts))
       (put_both mem (udf_rev disc) mvds rvds TAG_IDENT_PVD offset 512 (vol_pvd v) exts))"

definition setup_lvd :: "memory \<Rightarrow> udf_disc \<Rightarrow> nat \<Rightarrow> nat option \<Rightarrow> nat \<Rightarrow> u32 \<Rightarrow> vds_step" where
  "setup_lvd mem disc mvds rvds lvid offset = (\<lambda>(v, exts).
     let n = 440 + rd32 (drop 264 (vol_lvd v));
         b = patch 432 (le32 (ext_blocks (exts ! lvid) * blocksize disc) @ le32 (ext_start (exts ! lvid))) (vol_lvd v)
     in map_option (\<lambda>(b, exts). (v\<lparr>vol_lvd := b\<rparr>, exts))
          (put_both mem (udf_rev disc) mvds rvds TAG_IDENT_LVD offset n b exts))"

definition setup_pd :: "memory \<Rightarrow> udf_disc \<Rightarrow> nat \<Rightarrow> nat option \<Rightarrow> u32 \<Rightarrow> vds_step" where
  "setup_pd mem disc mvds rvds offset = (\<lambda>(v, exts). do {
     p \<leftarrow> next_extent exts (Some 0) PSPACE;
     let b = patch 188 (le32 (ext_start (exts ! p)) @ le32 (ext_blocks (exts ! p))) (vol_pd v);
     map_option (\<lambda>(b, exts). (v\<lparr>vol_pd := b\<rparr>, exts))
       (put_both mem (udf_rev disc) mvds rvds TAG_IDENT_PD offset 512 b exts)
   })"

text \<open>The loop of \<open>setup_usd\<close> over the free extents, from the extent at an index on: each grows the
  descriptor, of length \<open>n\<close> and with \<open>count\<close> entries, by one entry.\<close>

function usd_from ::
  "memory \<Rightarrow> u32 \<Rightarrow> udf_extent list \<Rightarrow> nat option \<Rightarrow> nat \<Rightarrow> u32 \<times> bytes \<Rightarrow> (u32 \<times> bytes) option" where
  "usd_from mem bs exts p count nb =
    (case p of None \<Rightarrow> Some nb
     | Some i \<Rightarrow>
         if length exts \<le> i then Some nb
         else if \<not> mem exts (2 + count) then None
         else let ext = exts ! i; (n, b) = nb;
                b = patch 20 (le32 (rd32 (drop 20 b) + 1)) b;
                b = take (24 + 8 * count) b @ le32 (ext_blocks ext * bs) @ le32 (ext_start ext)
              in usd_from mem bs exts (next_extent exts (next_ptr exts i) USPACE) (Suc count) (n + 8, b))"
  by pat_completeness auto

termination
  by (relation "measure (\<lambda>(mem, bs, exts, p, count, nb). case p of None \<Rightarrow> 0 | Some i \<Rightarrow> Suc (length exts) - i)")
    (auto simp: next_extent_def next_ptr_def dest!: next_extent_from_ge split: option.splits if_splits)

declare usd_from.simps [simp del]

definition setup_usd :: "memory \<Rightarrow> udf_disc \<Rightarrow> nat \<Rightarrow> nat option \<Rightarrow> u32 \<Rightarrow> vds_step" where
  "setup_usd mem disc mvds rvds offset = (\<lambda>(v, exts). do {
     (n, b) \<leftarrow> usd_from mem (blocksize disc) exts (next_extent exts (Some 0) USPACE) 0 (24, vol_usd v);
     map_option (\<lambda>(b, exts). (v\<lparr>vol_usd := b\<rparr>, exts))
       (put_both mem (udf_rev disc) mvds rvds TAG_IDENT_USD offset n b exts)
   })"

definition setup_iuvd :: "memory \<Rightarrow> udf_disc \<Rightarrow> nat \<Rightarrow> nat option \<Rightarrow> u32 \<Rightarrow> vds_step" where
  "setup_iuvd mem disc mvds rvds offset = (\<lambda>(v, exts).
     map_option (\<lambda>(b, exts). (v\<lparr>vol_iuvd := b\<rparr>, exts))
       (put_both mem (udf_rev disc) mvds rvds TAG_IDENT_IUVD offset 512 (vol_iuvd v) exts))"

definition setup_td :: "memory \<Rightarrow> udf_disc \<Rightarrow> nat \<Rightarrow> nat option \<Rightarrow> u32 \<Rightarrow> vds_step" where
  "setup_td mem disc mvds rvds offset = (\<lambda>(v, exts).
     map_option (\<lambda>(b, exts). (v\<lparr>vol_td := b\<rparr>, exts))
       (put_both mem (udf_rev disc) mvds rvds TAG_IDENT_TD offset 512 (vol_td v) exts))"

text \<open>The integrity descriptor: 80 bytes, the two tables of the partitions, the bytes for the
  implementation; then a terminating descriptor. \<open>LVID_INTEGRITY_TYPE_OPEN\<close> is 0.\<close>

definition setup_lvid :: "memory \<Rightarrow> udf_disc \<Rightarrow> nat \<Rightarrow> vds_step" where
  "setup_lvid mem disc lvid = (\<lambda>(v, exts).
     let n = 80 + rd32 (drop 72 (vol_lvid v)) * 4 * 2 + rd32 (drop 76 (vol_lvid v));
         b = (if flagged disc FLAG_VAT then patch 28 (le32 0) (vol_lvid v) else vol_lvid v)
     in do {
       (b, exts) \<leftarrow> put_owned mem (udf_rev disc) lvid TAG_IDENT_LVID 0 n (b @ lvid_tables disc @ vol_lvid_use v) exts;
       let v = v\<lparr>vol_lvid := take 80 b\<rparr>;
       if \<not> flagged disc FLAG_BLANK_TERMINAL \<and> ext_blocks (exts ! lvid) > 1
       then map_option (Pair v)
         (put_copied mem (udf_rev disc) lvid TAG_IDENT_TD 1 512 (replicate 512 0) exts)
       else Some (v, exts)
     })"

section \<open>The sparing table\<close>

text \<open>\<open>find_type2_sparable_partition\<close>: where the map is in the table of partition maps, which begins at
  byte 440 of the logical volume descriptor. A map past the end of the descriptor has no value.\<close>

definition UDF_ID_SPARABLE :: bytes where
  "UDF_ID_SPARABLE = map of_char ''*UDF Sparable Partition''"

fun find_sparable :: "bytes \<Rightarrow> u16 \<Rightarrow> nat \<Rightarrow> nat \<Rightarrow> nat option" where
  "find_sparable lvd num mtl 0 = None"
| "find_sparable lvd num mtl (Suc npm) =
    (let pm = drop (440 + mtl) lvd
     in if pm ! 0 = 2 \<and> seg 5 23 pm = UDF_ID_SPARABLE \<and> rd16 (drop 38 pm) = num then Some (440 + mtl)
        else find_sparable lvd num (mtl + unat (pm ! 1)) npm)"

definition find_type2_sparable_partition :: "bytes \<Rightarrow> u16 \<Rightarrow> nat option" where
  "find_type2_sparable_partition lvd num = find_sparable lvd num 0 (nat (sint (rd32 (drop 268 lvd))))"

text \<open>How many entries the table has and how long it is; \<open>None\<close> if not one entry fits.\<close>

definition stable_entries :: "u16 \<Rightarrow> u32 \<Rightarrow> u32 \<Rightarrow> u32 \<Rightarrow> (u32 \<times> u32) option" where
  "stable_entries packetlen sspace tblocks bs =
    (if packetlen = 0 then None
     else let cap = (\<lambda>num :: u32. if num > 65535 then 65535 else num);
              num = cap (sspace div ucast packetlen); len = STABLE_LEN + num * 8; room = tblocks * bs
     in if len > room then
          (let num = cap ((room - STABLE_LEN) div 8)
           in if room < STABLE_LEN \<or> num = 0 then None else Some (num, STABLE_LEN + num * 8))
        else Some (num, len))"

definition stable_table :: "bytes \<Rightarrow> u16 \<Rightarrow> u32 \<Rightarrow> u32 \<Rightarrow> bytes" where
  "stable_table head packetlen sspace num =
     patch 48 (le16 (ucast num)) (take 56 head) @
       concat (map (\<lambda>i. le32 0xFFFFFFFF @ le32 (sspace + of_nat i * ucast packetlen)) [0..<unat num])"

fun put_stables :: "memory \<Rightarrow> u16 \<Rightarrow> u32 \<Rightarrow> bytes \<Rightarrow> nat list \<Rightarrow> udf_extent list \<Rightarrow> udf_extent list option" where
  "put_stables mem rv n b [] exts = Some exts"
| "put_stables mem rv n b (s # stables) exts =
    put_copied mem rv s 0 0 n b exts \<bind> put_stables mem rv n b stables"

text \<open>A map that asks for more tables than there are extents for has no value.\<close>

definition setup_stable :: "memory \<Rightarrow> udf_disc \<Rightarrow> nat list \<Rightarrow> nat \<Rightarrow> vds_step" where
  "setup_stable mem disc stables sspace = (\<lambda>(v, exts). do {
     spm \<leftarrow> find_type2_sparable_partition (vol_lvd v) 0;
     let packetlen = rd16 (drop (spm + 40) (vol_lvd v));
     let tables = unat (vol_lvd v ! (spm + 42));
     (num, n) \<leftarrow> stable_entries packetlen (ext_blocks (exts ! sspace)) (ext_blocks (exts ! hd stables)) (blocksize disc);
     lvd \<leftarrow> (if tables \<le> length stables
        then Some (fold (\<lambda>i. patch (spm + 48 + 4 * i) (le32 (ext_start (exts ! (stables ! i))))) [0..<tables]
          (patch (spm + 44) (le32 n) (vol_lvd v)))
        else None);
     if mem exts 1 then do {
       (b, exts) \<leftarrow> put_owned mem (udf_rev disc) (hd stables) 0 0 n
         (stable_table (vol_stable v) packetlen (ext_start (exts ! sspace)) num) exts;
       exts \<leftarrow> put_stables mem (udf_rev disc) n b (tl stables) exts;
       Some (v\<lparr>vol_lvd := lvd, vol_stable := b\<rparr>, exts)
     } else None
   })"

text \<open>At most four extents for sparing tables, from the first on.\<close>

fun stables_from :: "udf_extent list \<Rightarrow> nat \<Rightarrow> nat option \<Rightarrow> nat list" where
  "stables_from exts 0 p = []"
| "stables_from exts (Suc n) p =
    (case p of None \<Rightarrow> []
     | Some i \<Rightarrow> i # stables_from exts n (next_extent exts (next_ptr exts i) STABLE))"

section \<open>All descriptors\<close>

definition setup_vds :: "memory \<Rightarrow> udf_vol \<Rightarrow> udf_disc \<Rightarrow> (udf_vol \<times> udf_disc) option" where
  "setup_vds mem v disc =
    (let exts = extents disc; rvds = next_extent exts (Some 0) RVDS in do {
       mvds \<leftarrow> next_extent exts (Some 0) MVDS;
       lvid \<leftarrow> next_extent exts (Some 0) LVID;
       st \<leftarrow> (if rvds = None \<and> disc_blocks disc - start_block disc > 257 then None else Some (v, exts));
       st \<leftarrow> setup_pvd mem disc mvds rvds 0 st;
       st \<leftarrow> setup_lvid mem disc lvid st;
       st \<leftarrow> (case next_extent exts (Some 0) SSPACE of None \<Rightarrow> Some st
          | Some sspace \<Rightarrow>
              if next_extent exts (Some 0) STABLE = None then Some st
              else setup_stable mem disc (stables_from exts 4 (next_extent exts (Some 0) STABLE)) sspace st);
       st \<leftarrow> setup_lvd mem disc mvds rvds lvid 1 st;
       st \<leftarrow> setup_pd mem disc mvds rvds 2 st;
       st \<leftarrow> setup_usd mem disc mvds rvds 3 st;
       st \<leftarrow> setup_iuvd mem disc mvds rvds 4 st;
       (v, exts) \<leftarrow> setup_td mem disc mvds rvds 5 st;
       Some (v, disc\<lparr>extents := exts\<rparr>)
     })"

end
