(* ===== verification/UdfWrite.thy ===== *)
theory UdfWrite
  imports UdfDisc FormatBridges
begin

text \<open>
  Writing a planned volume to the stick: \<open>write_func\<close> of udf_src/mkudffs/main.c, as the app changed it
  (\<open>fd == -100\<close>), and \<open>write_disc\<close> of mkudffs.c. A result of \<open>None\<close> is a write that does not return.
\<close>

text \<open>\<open>g_udf_usb_offset\<close>, the static \<open>bufferlen\<close> of \<open>write_func\<close> (\<open>None\<close> while \<open>buffer\<close> is null) and the
  driver. What the buffer holds is always written before it is read.\<close>

record 'w udf_out =
  udf_pos :: int
  udf_buflen :: "u64 option"
  udf_drv :: "'w drv"

text \<open>\<open>(x + blocksize - 1) & ~(blocksize - 1)\<close>: the mask is a \<open>uint32_t\<close> and loses the upper half of \<open>x\<close>.\<close>

definition round_blocks :: "u32 \<Rightarrow> u64 \<Rightarrow> u64" where
  "round_blocks bs x = (x + ucast bs - 1) AND ucast (NOT (bs - 1))"

text \<open>The data of a descriptor one behind the other, and the length of the buffer they needed; the
  data are \<open>None\<close> when \<open>realloc\<close> fails.\<close>

fun gather :: "(u64 \<Rightarrow> bool) \<Rightarrow> u32 \<Rightarrow> udf_data list \<Rightarrow> bytes \<Rightarrow> u64 \<Rightarrow> (bytes \<times> u64) option" where
  "gather realloc_ok bs [] acc buflen = Some (acc, buflen)"
| "gather realloc_ok bs (data # ds) acc buflen =
    (let need = data_length data + of_nat (length acc);
         more = round_blocks bs need;
         acc' = acc @ take (unat (data_length data)) (data_buffer data)
     in if need > buflen then if realloc_ok more then gather realloc_ok bs ds acc' more else None
        else gather realloc_ok bs ds acc' buflen)"

definition udf_seek :: "udf_disc \<Rightarrow> u32 \<Rightarrow> 'w udf_out \<Rightarrow> 'w udf_out" where
  "udf_seek disc block st =
    (if flagged disc FLAG_NO_WRITE then st
     else st\<lparr>udf_pos := udf_lseek (s64 (uint block * uint (blocksize disc))) 0 (udf_pos st)\<rparr>)"

definition udf_put :: "'w usb \<Rightarrow> bytes \<Rightarrow> u64 \<Rightarrow> 'w udf_out \<Rightarrow> (int \<times> 'w udf_out) option" where
  "udf_put u buf n st =
    map_option (\<lambda>(res, pos, d). (if res \<noteq> sint n then -1 else 0, st\<lparr>udf_pos := pos, udf_drv := d\<rparr>))
      (udf_write_nointr u buf n (udf_pos st) (udf_drv st))"

fun write_descs :: "'w usb \<Rightarrow> udf_disc \<Rightarrow> u32 \<Rightarrow> udf_desc list \<Rightarrow> u64 \<Rightarrow> 'w udf_out \<Rightarrow> (int \<times> 'w udf_out) option" where
  "write_descs u disc start [] buflen st = Some (0, st)"
| "write_descs u disc start (desc # descs) buflen st =
    (let st = udf_seek disc (start + desc_offset desc) st
     in if \<not> flagged disc FLAG_NO_WRITE \<and> udf_pos st < 0 then Some (-1, st)
        else case gather (\<lambda>n. malloc_ok u (unat n) (g_world (udf_drv st))) (blocksize disc) (desc_data desc) [] buflen of
          None \<Rightarrow> Some (-1, st\<lparr>udf_buflen := None\<rparr>)
        | Some (bs, buflen) \<Rightarrow>
            let st = st\<lparr>udf_buflen := Some buflen\<rparr>; n = round_blocks (blocksize disc) (of_nat (length bs))
            in case udf_put u (bs @ replicate (unat n - length bs) 0) n st of
                 None \<Rightarrow> None
               | Some (r, st) \<Rightarrow> if r < 0 then Some (-1, st) else write_descs u disc start descs buflen st)"

fun write_zeros :: "'w usb \<Rightarrow> u32 \<Rightarrow> nat \<Rightarrow> 'w udf_out \<Rightarrow> (int \<times> 'w udf_out) option" where
  "write_zeros u bs 0 st = Some (0, st)"
| "write_zeros u bs (Suc blocks) st =
    (case udf_put u (replicate (unat bs) 0) (ucast bs) st of None \<Rightarrow> None
     | Some (r, st) \<Rightarrow> if r < 0 then Some (-1, st) else write_zeros u bs blocks st)"

definition write_func :: "'w usb \<Rightarrow> udf_disc \<Rightarrow> udf_extent \<Rightarrow> 'w udf_out \<Rightarrow> (int \<times> 'w udf_out) option" where
  "write_func u disc ext st =
    (let st = (if udf_buflen st = None \<and> malloc_ok u (unat (blocksize disc)) (g_world (udf_drv st))
               then st\<lparr>udf_buflen := Some (ucast (blocksize disc))\<rparr> else st)
     in case udf_buflen st of None \<Rightarrow> Some (-1, st)
        | Some buflen \<Rightarrow>
            if space_type ext AND (USPACE OR RESERVED) = 0
            then write_descs u disc (ext_start ext) (ext_descs ext) buflen st
            else if \<not> flagged disc FLAG_BOOTAREA_PRESERVE then
              let st = udf_seek disc (ext_start ext) st
              in if \<not> flagged disc FLAG_NO_WRITE \<and> udf_pos st < 0 then Some (-1, st)
                 else write_zeros u (blocksize disc) (unat (ext_blocks ext)) st
            else Some (0, st))"

fun write_extents :: "'w usb \<Rightarrow> udf_disc \<Rightarrow> udf_extent list \<Rightarrow> 'w udf_out \<Rightarrow> (int \<times> 'w udf_out) option" where
  "write_extents u disc [] st = Some (0, st)"
| "write_extents u disc (ext # exts) st =
    (case write_func u disc ext st of None \<Rightarrow> None
     | Some (r, st) \<Rightarrow> if r < 0 then Some (r, st) else write_extents u disc exts st)"

definition write_disc :: "'w usb \<Rightarrow> udf_disc \<Rightarrow> 'w udf_out \<Rightarrow> (int \<times> 'w udf_out) option" where
  "write_disc u disc st = write_extents u disc (extents disc) st"

end
