(* ===== verification/UdfLayout.thy ===== *)
theory UdfLayout
  imports UdfDisc UdfProps
begin

text \<open>
  The layout \<open>split_space\<close> gives a stick: from 3072 blocks of 512 bytes on, every extent is known.
\<close>

section \<open>Extents by natural numbers\<close>

definition xt :: "u32 \<Rightarrow> nat \<Rightarrow> nat \<Rightarrow> udf_extent" where
  "xt type a m = new_extent type (of_nat a) (of_nat m)"

lemma xt_sel [simp]:
  "space_type (xt t a m) = t" "ext_start (xt t a m) = of_nat a" "ext_blocks (xt t a m) = of_nat m"
  "ext_descs (xt t a m) = []"
  by (simp_all add: xt_def new_extent_def)

lemma unat_of_nat_small: "a < 2 ^ 32 \<Longrightarrow> unat (of_nat a :: u32) = a"
  by (simp add: unsigned_of_nat take_bit_nat_eq_self)

lemma of_nat_u32_eq_iff: "a < 2 ^ 32 \<Longrightarrow> b < 2 ^ 32 \<Longrightarrow> (of_nat a :: u32) = of_nat b \<longleftrightarrow> a = b"
  using unat_of_nat_small by metis

lemma of_nat_u32_less_iff: "a < 2 ^ 32 \<Longrightarrow> b < 2 ^ 32 \<Longrightarrow> (of_nat a :: u32) < of_nat b \<longleftrightarrow> a < b"
  by (simp add: word_less_nat_alt unat_of_nat_small)

lemma of_nat_u32_le_iff: "a < 2 ^ 32 \<Longrightarrow> b < 2 ^ 32 \<Longrightarrow> (of_nat a :: u32) \<le> of_nat b \<longleftrightarrow> a \<le> b"
  by (simp add: word_le_nat_alt unat_of_nat_small)

lemma of_nat_u32_div: "a < 2 ^ 32 \<Longrightarrow> b < 2 ^ 32 \<Longrightarrow> (of_nat a :: u32) div of_nat b = of_nat (a div b)"
  using div_le_dividend [of a b]
  by (simp only: word_unat_eq_iff unat_div unat_of_nat_small le_less_trans)

lemma of_nat_u32_mod: "a < 2 ^ 32 \<Longrightarrow> b < 2 ^ 32 \<Longrightarrow> (of_nat a :: u32) mod of_nat b = of_nat (a mod b)"
  using mod_less_eq_dividend [of a b]
  by (simp only: word_unat_eq_iff unat_mod unat_of_nat_small le_less_trans)

lemmas of_nat_u32 = of_nat_u32_eq_iff of_nat_u32_less_iff of_nat_u32_le_iff of_nat_u32_div of_nat_u32_mod

text \<open>The extents that replace one when blocks inside it are set.\<close>

definition rest_before :: "u32 \<Rightarrow> nat \<Rightarrow> nat \<Rightarrow> udf_extent list" where
  "rest_before t a b = (if a < b then [xt t a (b - a)] else [])"

definition cut :: "u32 \<Rightarrow> nat \<Rightarrow> nat \<Rightarrow> u32 \<Rightarrow> nat \<Rightarrow> nat \<Rightarrow> udf_extent list" where
  "cut t a m type s k = rest_before t a s @ xt type s k # rest_before t (s + k) (a + m)"

lemma pieces_xt:
  assumes "a \<le> s" "0 < k" "s + k \<le> a + m" "a + m < 2 ^ 32"
  shows "pieces (xt t a m) type (of_nat s) (of_nat k) = cut t a m type s k"
proof -
  have n: "(of_nat s = (of_nat a :: u32)) = (s = a)" "(of_nat k = (of_nat m :: u32)) = (k = m)"
    "(of_nat s + of_nat k = (of_nat a + of_nat m :: u32)) = (s + k = a + m)"
    using assms of_nat_u32_eq_iff [of "s + k" "a + m"] by (simp_all add: of_nat_u32_eq_iff)
  consider "s = a" "k = m" | "s = a" "k < m" | "a < s" "s + k = a + m" | "a < s" "s + k < a + m"
    using assms by linarith
  then show ?thesis
  proof cases
    case 1
    then show ?thesis by (simp add: pieces_def cut_def rest_before_def n; simp add: xt_def new_extent_def)
  next
    case 2
    then have "(of_nat m - of_nat k :: u32) = of_nat (m - k)" by (simp add: of_nat_diff)
    then show ?thesis using 2 by (simp add: pieces_def cut_def rest_before_def n; simp add: xt_def new_extent_def)
  next
    case 3
    then have "m = k + (s - a)" using assms by linarith
    then have "(of_nat m - of_nat k :: u32) = of_nat (s - a)" by simp
    then show ?thesis using 3 by (simp add: pieces_def cut_def rest_before_def n; simp add: xt_def new_extent_def)
  next
    case 4
    have "(of_nat s - of_nat a :: u32) = of_nat (s - a)" using 4 by (simp add: of_nat_diff)
    moreover have "(of_nat m - of_nat k - of_nat s + of_nat a :: u32) = of_nat (a + m - (s + k))"
      using 4 by (simp add: of_nat_diff)
    ultimately show ?thesis using 4 by (simp add: pieces_def cut_def rest_before_def n; simp add: xt_def new_extent_def)
  qed
qed

lemma tiles_from: "tiles lo es hi \<Longrightarrow> i < length es \<Longrightarrow> lo \<le> unat (ext_start (es ! i))"
  by (induction lo es hi arbitrary: i rule: tiles.induct) (force simp: nth_Cons split: nat.splits)+

lemma tiles_holds_once:
  "tiles lo es hi \<Longrightarrow> i < j \<Longrightarrow> j < length es \<Longrightarrow> holds (es ! i) b \<Longrightarrow> \<not> holds (es ! j) b"
proof (induction lo es hi arbitrary: i j rule: tiles.induct)
  case (2 lo e es hi)
  then obtain k where k: "j = Suc k" "k < length es" by (cases j) auto
  show ?case
  proof (cases i)
    case 0
    then show ?thesis using 2 k tiles_from [of _ es hi k] by (force simp: holds_def)
  next
    case (Suc l)
    then show ?thesis using 2 k by simp
  qed
qed simp

lemma find_extent_unique:
  assumes t: "tiles lo (pre @ e # post) hi" "hi < 2 ^ 32" and h: "holds e (unat b)"
  shows "find_extent (pre @ e # post) b = length pre"
proof -
  define exts where "exts = pre @ e # post"
  have e: "exts ! length pre = e" "length pre < length exts" "exts \<noteq> []" by (simp_all add: exts_def)
  have "space_at exts (unat b) \<noteq> None" using h by (auto simp: exts_def space_at_append split: option.split)
  then have r: "lo \<le> unat b" "unat b < hi" using space_at_tiles [OF t(1)] by (auto simp: exts_def)
  have f: "find_extent exts b < length exts" "holds (exts ! find_extent exts b) (unat b)"
    using find_extent_from_tiles [of lo 0 exts hi b] t r e(3) by (simp_all add: find_extent_def exts_def [symmetric])
  show ?thesis
    using tiles_holds_once [of lo exts hi "find_extent exts b" "length pre" "unat b"]
      tiles_holds_once [of lo exts hi "length pre" "find_extent exts b" "unat b"] t(1) f e h
    by (metis exts_def linorder_neqE_nat)
qed

text \<open>Setting blocks inside one extent, and where the search for an extent ends.\<close>

lemma find_xt:
  assumes "exts = pre @ xt t a m # post" "tiles 0 exts hi" "hi < 2 ^ 32" "a + m < 2 ^ 32" "a \<le> b" "b < a + m"
  shows "find_extent exts (of_nat b) = length pre"
  using find_extent_unique [of 0 pre "xt t a m" post hi "of_nat b"] assms
  by (simp add: holds_def unat_of_nat_small)

lemma set_space_xt:
  assumes e: "extents disc = pre @ xt t a m # post" and t: "tiles 0 (extents disc) hi" "hi < 2 ^ 32"
    and r: "a + m < 2 ^ 32" "a \<le> s" "0 < k" "s + k \<le> a + m"
    and mem: "mem (extents disc) 0" "mem (extents disc) 1"
  shows "set_space mem type (of_nat s) (of_nat k) disc
    = Some (disc\<lparr>extents := pre @ cut t a m type s k @ post\<rparr>)"
proof -
  have f: "length pre = find_extent (extents disc) (of_nat s)"
    using find_xt [OF e t, of s] r by simp
  have "set_extent (mem (extents disc)) (extents disc) type (of_nat s) (of_nat k)
    = Some (if (of_nat s :: u32) = ext_start (xt t a m) then length pre else Suc (length pre),
        pre @ pieces (xt t a m) type (of_nat s) (of_nat k) @ post)"
    using r mem f by (intro set_extent_pieces [where e = "xt t a m" and pre = pre and post = post, OF e])
      (simp_all add: holds_def unat_of_nat_small)
  then show ?thesis using pieces_xt [of a s k m t type] r by (simp add: set_space_def)
qed

lemma tiles_xt [simp]:
  "0 < m \<Longrightarrow> a + m < 2 ^ 32 \<Longrightarrow> tiles lo (xt t a m # es) hi \<longleftrightarrow> a = lo \<and> tiles (lo + m) es hi"
  by (auto simp: unat_of_nat_small)

section \<open>The layout\<close>

text \<open>What the arguments of the bridge make of the disc, for a stick of \<open>N\<close> blocks.\<close>

definition stick_params :: "udf_disc \<Rightarrow> nat \<Rightarrow> bool" where
  "stick_params disc N \<longleftrightarrow> disc_blocks disc = of_nat N \<and> blocksize disc = 512 \<and> start_block disc = 0
     \<and> last_block disc = 0 \<and> \<not> flagged disc FLAG_VAT \<and> \<not> flagged disc FLAG_BOOTAREA_MBR
     \<and> flagged disc FLAG_UNALLOC_BITMAP \<and> sizing disc = with_packetlen 64 default_sizing_hd
     \<and> accessType disc = PD_ACCESS_TYPE_OVERWRITABLE \<and> sparable_map disc = None"

lemma flagged_extents [simp]: "flagged (disc\<lparr>extents := e\<rparr>) f = flagged disc f"
  by (simp add: flagged_def)

lemma stick_params_extents [simp]: "stick_params (disc\<lparr>extents := e\<rparr>) N = stick_params disc N"
  by (simp add: stick_params_def)

lemma stick_paramsD:
  assumes "stick_params disc N"
  shows "disc_blocks disc = of_nat N" "blocksize disc = 512" "start_block disc = 0" "last_block disc = 0"
    "\<not> flagged disc FLAG_VAT" "\<not> flagged disc FLAG_BOOTAREA_MBR" "flagged disc FLAG_UNALLOC_BITMAP"
    "offset_of disc t = 64" "sparable_map disc = None"
  using assms by (simp_all add: stick_params_def offset_of_def with_packetlen_def)

definition memory_ok :: "memory \<Rightarrow> bool" where
  "memory_ok mem \<longleftrightarrow> (\<forall>exts k. mem exts k)"

definition boot_layout :: "nat \<Rightarrow> udf_extent list" where
  "boot_layout N = [xt RESERVED 0 64, xt VRS 64 13, xt USPACE 77 (N - 77)]"

lemma boot_area_layout:
  assumes p: "stick_params disc N" and mem: "memory_ok mem" and e: "extents disc = [xt USPACE 0 N]"
    and N: "3072 \<le> N" "N < 2 ^ 32"
  shows "mark_boot_area mem disc = Some (disc\<lparr>extents := boot_layout N\<rparr>)"
proof -
  note p = stick_paramsD [OF p]
  obtain k where k: "N = k + 3072" using N by (metis le_iff_add add.commute)
  have "set_space mem RESERVED 0 64 disc = Some (disc\<lparr>extents := [xt RESERVED 0 64, xt USPACE 64 (N - 64)]\<rparr>)"
    using set_space_xt [of disc "[]" USPACE 0 N "[]" N 0 64 mem RESERVED] e N mem
    by (simp del: tiles.simps(2) One_nat_def add: k memory_ok_def cut_def rest_before_def)
  moreover have "set_space mem VRS 64 13 (disc\<lparr>extents := [xt RESERVED 0 64, xt USPACE 64 (N - 64)]\<rparr>)
      = Some (disc\<lparr>extents := boot_layout N\<rparr>)"
    using set_space_xt [of "disc\<lparr>extents := [xt RESERVED 0 64, xt USPACE 64 (N - 64)]\<rparr>" "[xt RESERVED 0 64]"
        USPACE 64 "N - 64" "[]" N 64 13 mem VRS] N mem
    by (simp del: tiles.simps(2) One_nat_def add: k memory_ok_def cut_def rest_before_def boot_layout_def)
  ultimately show ?thesis
    by (simp add: mark_boot_area_def Let_def p udiv_def)
qed

definition anchor_layout :: "nat \<Rightarrow> udf_extent list" where
  "anchor_layout N = [xt RESERVED 0 64, xt VRS 64 13, xt USPACE 77 179, xt ANCHOR 256 1, xt USPACE 257 (N - 514),
     xt ANCHOR (N - 257) 1, xt USPACE (N - 256) 255, xt ANCHOR (N - 1) 1]"

lemma anchors_layout:
  assumes p: "stick_params disc N" and mem: "memory_ok mem" and e: "extents disc = boot_layout N"
    and N: "3072 \<le> N" "N < 2 ^ 32"
  shows "mark_anchors mem (of_nat N) disc = Some (disc\<lparr>extents := anchor_layout N\<rparr>)"
proof -
  note p = stick_paramsD [OF p]
  obtain k where k: "N = k + 3072" using N by (metis le_iff_add add.commute)
  define e1 where "e1 = [xt RESERVED 0 64, xt VRS 64 13, xt USPACE 77 179, xt ANCHOR 256 1, xt USPACE 257 (N - 257)]"
  define e2 where "e2 = [xt RESERVED 0 64, xt VRS 64 13, xt USPACE 77 179, xt ANCHOR 256 1, xt USPACE 257 (N - 514),
     xt ANCHOR (N - 257) 1, xt USPACE (N - 256) 256]"
  have s1: "set_space mem ANCHOR 256 1 disc = Some (disc\<lparr>extents := e1\<rparr>)"
    using set_space_xt [of disc "[xt RESERVED 0 64, xt VRS 64 13]" USPACE 77 "N - 77" "[]" N 256 1 mem ANCHOR] e N mem
    by (simp del: tiles.simps(2) One_nat_def add: k memory_ok_def cut_def rest_before_def boot_layout_def e1_def)
  have s2: "set_space mem ANCHOR (of_nat (N - 257)) 1 (disc\<lparr>extents := e1\<rparr>) = Some (disc\<lparr>extents := e2\<rparr>)"
    using set_space_xt [of "disc\<lparr>extents := e1\<rparr>" "[xt RESERVED 0 64, xt VRS 64 13, xt USPACE 77 179, xt ANCHOR 256 1]"
        USPACE 257 "N - 257" "[]" N "N - 257" 1 mem ANCHOR] N mem
    by (simp del: tiles.simps(2) One_nat_def add: k memory_ok_def cut_def rest_before_def e1_def e2_def)
  have s3: "set_space mem ANCHOR (of_nat (N - 1)) 1 (disc\<lparr>extents := e2\<rparr>) = Some (disc\<lparr>extents := anchor_layout N\<rparr>)"
    using set_space_xt [of "disc\<lparr>extents := e2\<rparr>" "[xt RESERVED 0 64, xt VRS 64 13, xt USPACE 77 179, xt ANCHOR 256 1,
        xt USPACE 257 (N - 514), xt ANCHOR (N - 257) 1]" USPACE "N - 256" 256 "[]" N "N - 1" 1 mem ANCHOR] N mem
    by (simp del: tiles.simps(2) One_nat_def add: k memory_ok_def cut_def rest_before_def anchor_layout_def e2_def)
  have w: "(of_nat N - 257 :: u32) = of_nat (N - 257)" "(of_nat N - 1 :: u32) = of_nat (N - 1)"
    using N by (simp_all add: of_nat_diff)
  have c: "(257 :: u32) < of_nat N" "(3072 :: u32) \<le> of_nat N"
    using of_nat_u32_less_iff [of 257 N] of_nat_u32_le_iff [of 3072 N] N by simp_all
  show ?thesis
    by (simp del: One_nat_def add: mark_anchors_def Let_def p c w s1 s2 s3)
qed

text \<open>The search for room on explicit lists.\<close>

lemma next_extent_from_Some:
  "i < length exts \<Longrightarrow> space_type (exts ! i) AND type \<noteq> 0 \<Longrightarrow> next_extent_from exts type i = Some i"
  by (subst next_extent_from.simps) simp

lemma next_extent_from_skip:
  "i < length exts \<Longrightarrow> space_type (exts ! i) AND type = 0 \<Longrightarrow> next_extent_from exts type i = next_extent_from exts type (Suc i)"
  by (subst next_extent_from.simps) simp

lemmas next_extent_from_simps = next_extent_from_Some next_extent_from_skip

lemma room_before_Some: "offset \<noteq> 0 \<Longrightarrow> \<exists>r. room_before exts type blocks offset p = Some r"
  by (induction exts type blocks offset p rule: room_before.induct)
    (subst room_before.simps, auto simp: Let_def split: option.splits)

definition udf_rvds :: "nat \<Rightarrow> nat" where "udf_rvds N = (N - 160) div 32 * 32"

lemma udf_rvds_bounds: "3072 \<le> N \<Longrightarrow> N - 192 < udf_rvds N \<and> udf_rvds N \<le> N - 160"
  using mod_less_divisor [of 32 "N - 160"] div_mult_mod_eq [of "N - 160" 32] unfolding udf_rvds_def by linarith

definition vds_layout :: "nat \<Rightarrow> udf_extent list" where
  "vds_layout N = [xt RESERVED 0 64, xt VRS 64 13, xt USPACE 77 51, xt MVDS 128 16, xt USPACE 144 112,
     xt ANCHOR 256 1, xt USPACE 257 (N - 514), xt ANCHOR (N - 257) 1, xt USPACE (N - 256) 255, xt ANCHOR (N - 1) 1]"

lemma mvds_layout:
  assumes p: "stick_params disc N" and mem: "memory_ok mem" and e: "extents disc = anchor_layout N"
    and N: "3072 \<le> N" "N < 2 ^ 32"
  shows "place_mvds mem (of_nat N) 16 disc = Some (disc\<lparr>extents := vds_layout N\<rparr>)"
proof -
  note p = stick_paramsD [OF p]
  obtain k where k: "N = k + 3072" using N by (metis le_iff_add add.commute)
  have c: "\<not> of_nat N < (770 :: u32)" using of_nat_u32_less_iff [of N 770] N by simp
  have t: "tiles 0 (anchor_layout N) N" using N by (simp del: tiles.simps(2) One_nat_def add: k anchor_layout_def)
  have f: "find_extent (anchor_layout N) 64 = 1"
    using find_xt [of "anchor_layout N" "[xt RESERVED 0 64]" VRS 64 13 _ N 64] t N by (simp add: anchor_layout_def)
  have r: "find_next_extent_size (anchor_layout N) 64 USPACE 16 64 = Some 128"
    unfolding find_next_extent_size_def f
    by (simp add: next_extent_def anchor_layout_def next_extent_from_simps udf_consts room_from.simps)
  have "set_space mem MVDS 128 16 disc = Some (disc\<lparr>extents := vds_layout N\<rparr>)"
    using set_space_xt [of disc "[xt RESERVED 0 64, xt VRS 64 13]" USPACE 77 179 _ N 128 16 mem MVDS] e t N mem
    by (simp add: memory_ok_def cut_def rest_before_def anchor_layout_def vds_layout_def)
  then show ?thesis by (simp add: place_mvds_def Let_def p c udiv_def e r required_def)
qed

definition rvds_layout :: "nat \<Rightarrow> udf_extent list" where
  "rvds_layout N = [xt RESERVED 0 64, xt VRS 64 13, xt USPACE 77 51, xt MVDS 128 16, xt USPACE 144 112,
     xt ANCHOR 256 1, xt USPACE 257 (N - 514), xt ANCHOR (N - 257) 1, xt USPACE (N - 256) (udf_rvds N - (N - 256)),
     xt RVDS (udf_rvds N) 16, xt USPACE (udf_rvds N + 16) (N - 1 - (udf_rvds N + 16)), xt ANCHOR (N - 1) 1]"

lemma rvds_layout:
  assumes p: "stick_params disc N" and mem: "memory_ok mem" and e: "extents disc = vds_layout N"
    and N: "3072 \<le> N" "N < 2 ^ 32"
  shows "place_rvds mem (of_nat N) 16 disc = Some (disc\<lparr>extents := rvds_layout N\<rparr>)"
proof -
  note p = stick_paramsD [OF p]
  obtain k where k: "N = k + 3072" using N by (metis le_iff_add add.commute)
  define r where "r = udf_rvds N"
  have r: "N - 192 < r" "r \<le> N - 160" using udf_rvds_bounds N by (simp_all add: r_def)
  have c: "(257 :: u32) < of_nat N" "(3072 :: u32) \<le> of_nat N"
    using of_nat_u32_less_iff [of 257 N] of_nat_u32_le_iff [of 3072 N] N by simp_all
  have t: "tiles 0 (vds_layout N) N" using N by (simp del: tiles.simps(2) One_nat_def add: vds_layout_def k)
  have w: "(of_nat N - 257 + 97 :: u32) = of_nat (N - 160)" using N by (simp add: of_nat_diff)
  have "(of_nat (N - 160) :: u32) div 32 = of_nat ((N - 160) div 32)"
    using of_nat_u32_div [of "N - 160" 32] N by simp
  then have w': "(of_nat N - 257 + 97 :: u32) div 32 * 32 = of_nat r" unfolding w r_def udf_rvds_def by simp
  then have w'': "((of_nat N - 160) div 32 * 32 :: u32) = of_nat r" by simp
  have f: "find_extent (vds_layout N) (of_nat r) = 8"
    using find_xt [of "vds_layout N" "[xt RESERVED 0 64, xt VRS 64 13, xt USPACE 77 51, xt MVDS 128 16, xt USPACE 144 112,
     xt ANCHOR 256 1, xt USPACE 257 (N - 514), xt ANCHOR (N - 257) 1]" USPACE "N - 256" 255 "[xt ANCHOR (N - 1) 1]" N r] t N r
    by (simp add: vds_layout_def)
  have lt: "(of_nat (N - 256) :: u32) < of_nat r" using N r of_nat_u32_less_iff [of "N - 256" r] by simp
  have inc: "(of_nat r - of_nat (N - 256) :: u32) = of_nat (r - (N - 256))" using N r by (simp add: of_nat_diff)
  have left: "(255 - of_nat (r - (N - 256)) :: u32) = of_nat (255 - (r - (N - 256)))" using N r by (simp add: of_nat_diff)
  have room: "\<not> 255 - (of_nat r - of_nat (N - 256) :: u32) < 16"
    unfolding inc left using N r of_nat_u32_less_iff [of "255 - (r - (N - 256))" 16] by (simp del: of_nat_diff)
  have nz: "(of_nat r :: u32) \<noteq> 0" using of_nat_u32_eq_iff [of r 0] N r by simp
  have "room_from (vds_layout N) (of_nat r) USPACE 16 64 (Some 8) = Some (of_nat r)"
    using lt room by (subst room_from.simps) (simp add: vds_layout_def Let_def del: of_nat_diff)
  then have r': "find_next_extent_size (vds_layout N) (of_nat r) USPACE 16 64 = Some (of_nat r)"
    unfolding find_next_extent_size_def f
    by (simp add: next_extent_def vds_layout_def next_extent_from_simps udf_consts)
  have "set_space mem RVDS (of_nat r) 16 disc = Some (disc\<lparr>extents := rvds_layout N\<rparr>)"
    using set_space_xt [of disc "[xt RESERVED 0 64, xt VRS 64 13, xt USPACE 77 51, xt MVDS 128 16, xt USPACE 144 112,
       xt ANCHOR 256 1, xt USPACE 257 (N - 514), xt ANCHOR (N - 257) 1]" USPACE "N - 256" 255 "[xt ANCHOR (N - 1) 1]" N r 16 mem RVDS]
      e t N r mem
    by (simp del: One_nat_def add: memory_ok_def cut_def rest_before_def vds_layout_def rvds_layout_def r_def [symmetric])
  then show ?thesis by (simp add: place_rvds_def Let_def p c w'' e r' required_def nz)
qed

definition lvid_layout :: "nat \<Rightarrow> udf_extent list" where
  "lvid_layout N = [xt RESERVED 0 64, xt VRS 64 13, xt USPACE 77 51, xt MVDS 128 16, xt USPACE 144 48,
     xt LVID 192 16, xt USPACE 208 48,
     xt ANCHOR 256 1, xt USPACE 257 (N - 514), xt ANCHOR (N - 257) 1, xt USPACE (N - 256) (udf_rvds N - (N - 256)),
     xt RVDS (udf_rvds N) 16, xt USPACE (udf_rvds N + 16) (N - 1 - (udf_rvds N + 16)), xt ANCHOR (N - 1) 1]"

lemma layout_tiles:
  assumes N: "3072 \<le> N"  "N < 2 ^ 32"
  shows "tiles 0 (rvds_layout N) N" "tiles 0 (lvid_layout N) N"
proof -
  obtain k where k: "N = k + 3072" using N by (metis le_iff_add add.commute)
  have r: "N - 192 < udf_rvds N" "udf_rvds N \<le> N - 160" using udf_rvds_bounds N by simp_all
  then show "tiles 0 (rvds_layout N) N" "tiles 0 (lvid_layout N) N" using N
    by (simp_all del: tiles.simps(2) One_nat_def add: rvds_layout_def lvid_layout_def k)
qed

lemma lvid_layout:
  assumes p: "stick_params disc N" and mem: "memory_ok mem" and e: "extents disc = rvds_layout N"
    and N: "3072 \<le> N" "N < 2 ^ 32"
  shows "place_lvid mem (of_nat N) 16 disc = Some (disc\<lparr>extents := lvid_layout N\<rparr>)"
proof -
  note p = stick_paramsD [OF p]
  note t = layout_tiles(1) [OF N]
  have c: "(770 :: u32) \<le> of_nat N" "\<not> of_nat N < (770 :: u32)"
    using of_nat_u32_le_iff [of 770 N] of_nat_u32_less_iff [of N 770] N by simp_all
  obtain last where last: "prev_extent_size (rvds_layout N) (tail_ptr disc) USPACE 16 64 = Some last"
    using room_before_Some [of 64 "rvds_layout N" USPACE 16 "prev_extent (rvds_layout N) (Some (tail_ptr disc)) USPACE"]
    by (auto simp: prev_extent_size_def)
  have f: "find_extent (rvds_layout N) 128 = 3"
    using find_xt [of "rvds_layout N" "[xt RESERVED 0 64, xt VRS 64 13, xt USPACE 77 51]" MVDS 128 16 _ N 128] t N
    by (simp add: rvds_layout_def)
  have r: "find_next_extent_size (rvds_layout N) 128 USPACE 16 64 = Some 192"
    unfolding find_next_extent_size_def f
    by (simp add: next_extent_def rvds_layout_def next_extent_from_simps udf_consts room_from.simps)
  have "set_space mem LVID 192 16 disc = Some (disc\<lparr>extents := lvid_layout N\<rparr>)"
    using set_space_xt [of disc "[xt RESERVED 0 64, xt VRS 64 13, xt USPACE 77 51, xt MVDS 128 16]" USPACE 144 112 _ N 192 16 mem LVID]
      e t N mem
    by (simp del: One_nat_def add: memory_ok_def cut_def rest_before_def rvds_layout_def lvid_layout_def)
  then show ?thesis by (simp add: place_lvid_def Let_def p c udiv_def e r required_def last)
qed

text \<open>The partition takes the room between the anchors, aligned; the other rooms are smaller.\<close>

lemma partition_room_le:
  assumes r: "partition_room offset bitmap e = Some (s, n)"
    and b: "unat (ext_blocks e) + unat offset < 2 ^ 32" "offset \<noteq> 0"
  shows "n \<le> ext_blocks e"
proof -
  define rest where "rest = ext_start e mod offset"
  define n1 where "n1 = (if rest \<noteq> 0 then ext_blocks e - offset + rest else ext_blocks e)"
  define n2 where "n2 = (if bitmap \<and> n1 AND 7 \<noteq> 0 then n1 AND NOT 7 else n1)"
  have rest: "unat rest < unat offset" using b(2) by (simp add: rest_def unat_mod unat_gt_0)
  have room: "rest = 0 \<or> offset < ext_blocks e + rest"
    and n: "n = (if n2 mod offset \<noteq> 0 then n2 - n2 mod offset else n2)"
    using r by (auto simp: partition_room_def Let_def rest_def [symmetric] n1_def n2_def split: if_splits)
  have "n1 \<le> ext_blocks e"
  proof (cases "rest = 0")
    case False
    then have "unat offset < unat (ext_blocks e) + unat rest"
      using room rest b(1) by (simp add: word_less_nat_alt unat_word_ariths)
    moreover have "ext_blocks e - offset + rest = ext_blocks e + rest - offset" by simp
    moreover have sum: "unat (ext_blocks e + rest) = unat (ext_blocks e) + unat rest"
      using b(1) rest by (simp add: unat_word_ariths)
    ultimately have "unat (ext_blocks e - offset + rest) = unat (ext_blocks e) + unat rest - unat offset"
      by (simp only:) (subst unat_sub, simp_all add: word_le_nat_alt)
    then show ?thesis using False rest by (simp add: n1_def word_le_nat_alt)
  qed (simp add: n1_def)
  moreover have "n2 \<le> n1" by (auto simp: n2_def word_and_le2 word_and_le1)
  moreover have "n \<le> n2"
  proof -
    have "unat (n2 mod offset) \<le> unat n2" by (simp add: unat_mod)
    then show ?thesis by (auto simp: n word_le_nat_alt unat_sub)
  qed
  ultimately show ?thesis by (meson order_trans)
qed

lemma best_room_from_keep:
  "offset \<noteq> 0 \<Longrightarrow>
    (\<And>i e. p = Some i \<Longrightarrow> e \<in> set (drop i exts) \<Longrightarrow> ext_blocks e \<le> snd best \<and> unat (ext_blocks e) + unat offset < 2 ^ 32)
    \<Longrightarrow> best_room_from exts offset bitmap p best = best"
proof (induction exts offset bitmap p best rule: best_room_from.induct)
  case (1 exts offset bitmap p best)
  show ?case
  proof (cases "\<exists>i. p = Some i \<and> i < length exts")
    case False
    then show ?thesis by (subst best_room_from.simps) (auto split: option.splits)
  next
    case True
    then obtain i where p: "p = Some i" "i < length exts" by blast
    have d: "drop i exts = exts ! i # drop (Suc i) exts" using p(2) by (simp add: Cons_nth_drop_Suc)
    have le: "ext_blocks (exts ! i) \<le> snd best" "unat (ext_blocks (exts ! i)) + unat offset < 2 ^ 32"
      using "1.prems"(2) [OF p(1)] d by auto
    have keep: "(case partition_room offset bitmap (exts ! i) of None \<Rightarrow> best
        | Some (start, n) \<Rightarrow> if snd best < n then (start, n) else best) = best"
    proof (cases "partition_room offset bitmap (exts ! i)")
      case (Some sn)
      then obtain s n where sn: "partition_room offset bitmap (exts ! i) = Some (s, n)" by (cases sn) simp
      have "n \<le> snd best"
        using partition_room_le [OF sn le(2) "1.prems"(1)] le(1) by (rule order_trans)
      then have "\<not> snd best < n" by (rule leD)
      then show ?thesis by (simp add: sn)
    qed simp
    have "best_room_from exts offset bitmap (next_extent exts (next_ptr exts i) USPACE) best = best"
    proof (rule "1.IH" [OF p(1) _ keep [symmetric] "1.prems"(1)])
      show "\<not> length exts \<le> i" using p(2) by simp
      fix j e assume j: "next_extent exts (next_ptr exts i) USPACE = Some j" "e \<in> set (drop j exts)"
      then have "i \<le> j" using next_extent_Some [OF j(1)] by (auto simp: next_ptr_def split: if_splits)
      then have "e \<in> set (drop i exts)" using j(2) set_drop_subset_set_drop [of i j exts] by auto
      then show "ext_blocks e \<le> snd best \<and> unat (ext_blocks e) + unat offset < 2 ^ 32"
        using "1.prems"(2) [OF p(1)] by blast
    qed
    then show ?thesis using p keep by (subst best_room_from.simps) (simp add: Let_def)
  qed
qed

lemma clear_low_bits: "(if x AND 7 \<noteq> 0 then x AND NOT 7 else x) = (of_nat (unat x div 8 * 8) :: u32)"
proof -
  have m: "(7 :: u32) = mask 3" by (simp add: mask_eq_exp_minus_1)
  have eq: "x AND NOT (mask 3) = push_bit 3 (drop_bit 3 x)"
    by (rule bit_word_eqI) (auto simp: bit_simps)
  have same: "x AND 7 = 0 \<Longrightarrow> x AND NOT 7 = x" unfolding m
    by (rule bit_word_eqI) (metis bit_and_iff bit_mask_iff bit_not_iff bit_0_eq bot_apply bot_bool_def possible_bit_word)
  have "unat (push_bit 3 (drop_bit 3 x)) = unat x div 8 * 8"
  proof -
    have "unat x < 2 ^ LENGTH(32)" by (rule unsigned_less)
    then have "unat x div 8 * 8 < 2 ^ 32" by simp
    then show ?thesis
      by (simp only: unsigned_push_bit_eq unsigned_drop_bit_eq)
        (simp add: push_bit_eq_mult drop_bit_eq_div take_bit_nat_eq_self)
  qed
  moreover have "unat (of_nat (unat x div 8 * 8) :: u32) = unat x div 8 * 8"
  proof (rule unat_of_nat_small)
    have "unat x < 2 ^ LENGTH(32)" by (rule unsigned_less)
    then show "unat x div 8 * 8 < 2 ^ 32" by simp
  qed
  ultimately have "push_bit 3 (drop_bit 3 x) = (of_nat (unat x div 8 * 8) :: u32)" by (simp only: word_unat_eq_iff)
  then show ?thesis using eq m same by auto
qed

definition udf_pspace :: "nat \<Rightarrow> nat" where "udf_pspace N = (N - 577) div 64 * 64"

lemma udf_pspace_bounds: "3072 \<le> N \<Longrightarrow> N - 641 < udf_pspace N \<and> udf_pspace N \<le> N - 577 \<and> 2432 \<le> udf_pspace N"
  using mod_less_divisor [of 64 "N - 577"] div_mult_mod_eq [of "N - 577" 64] div_le_mono [of 2495 "N - 577" 64]
  unfolding udf_pspace_def by linarith

lemma partition_roomI:
  assumes "rest = ext_start e mod offset" "rest \<noteq> 0" "\<not> offset \<ge> ext_blocks e + rest"
    and "x = ext_blocks e - offset + rest" "(if x AND 7 \<noteq> 0 then x AND NOT 7 else x) = y"
    and "(if y mod offset \<noteq> 0 then y - y mod offset else y) = z" "z \<noteq> 0"
  shows "partition_room offset True e = Some (ext_start e + offset - rest, z)"
  using assms(2,3,5,6,7) unfolding partition_room_def assms(1) [symmetric] assms(4) [symmetric] Let_def
  by (auto split: if_splits)

lemma partition_room_main:
  assumes N: "3072 \<le> N" "N < 2 ^ 32"
  shows "partition_room 64 True (xt USPACE 257 (N - 514)) = Some (320, of_nat (udf_pspace N))"
proof -
  define x where "x = (of_nat (N - 514) - 64 + 1 :: u32)"
  have x: "x = of_nat (N - 577)" using N by (simp add: x_def of_nat_diff)
  define y where "y = (N - 577) div 8 * 8"
  have y: "y \<le> N - 577" by (simp add: y_def)
  have ux: "unat x = N - 577" unfolding x using N by (intro unat_of_nat_small) simp
  have m: "(of_nat y :: u32) mod 64 = of_nat (y mod 64)" using of_nat_u32_mod [of y 64] y N by simp
  have z: "y - y mod 64 = udf_pspace N"
  proof -
    have "(N - 577) div 8 * 8 div 64 = (N - 577) div 64"
      using div_mult2_eq [of "(N - 577) div 8 * 8" 8 8] div_mult2_eq [of "N - 577" 8 8] by simp
    then show ?thesis by (simp add: y_def udf_pspace_def minus_mod_eq_div_mult)
  qed
  have "(of_nat y - of_nat (y mod 64) :: u32) = of_nat (y - y mod 64)" by (simp add: of_nat_diff)
  then have aligned: "(if (of_nat y :: u32) mod 64 \<noteq> 0 then of_nat y - of_nat y mod 64 else of_nat y) = (of_nat (udf_pspace N) :: u32)"
    using m z by (auto simp: )
  have big: "\<not> of_nat (N - 514) + 1 \<le> (64 :: u32)"
    using of_nat_u32_le_iff [of "N - 513" 64] N by (simp add: of_nat_diff)
  have nz: "(of_nat (udf_pspace N) :: u32) \<noteq> 0"
  proof -
    have "udf_pspace N < 2 ^ 32" "udf_pspace N \<noteq> 0" using udf_pspace_bounds [OF N(1)] N by linarith+
    then show ?thesis using of_nat_u32_eq_iff [of "udf_pspace N" 0] by simp
  qed
  have low: "(if x AND 7 \<noteq> 0 then x AND NOT 7 else x) = of_nat y"
    using clear_low_bits [of x] by (simp only: ux y_def)
  have "partition_room 64 True (xt USPACE 257 (N - 514)) = Some (257 + 64 - 1, of_nat (udf_pspace N))"
    using partition_roomI [of 1 "xt USPACE 257 (N - 514)" 64, OF _ _ _ _ low aligned nz] big by (simp add: x_def del: of_nat_diff)
  then show ?thesis by simp
qed

definition udf_layout :: "nat \<Rightarrow> udf_extent list" where
  "udf_layout N = [xt RESERVED 0 64, xt VRS 64 13, xt USPACE 77 51, xt MVDS 128 16, xt USPACE 144 48,
     xt LVID 192 16, xt USPACE 208 48, xt ANCHOR 256 1, xt USPACE 257 63, xt PSPACE 320 (udf_pspace N)]
     @ rest_before USPACE (320 + udf_pspace N) (N - 257) @
     [xt ANCHOR (N - 257) 1, xt USPACE (N - 256) (udf_rvds N - (N - 256)),
      xt RVDS (udf_rvds N) 16, xt USPACE (udf_rvds N + 16) (N - 1 - (udf_rvds N + 16)), xt ANCHOR (N - 1) 1]"

lemma xt_at_most: "m \<le> k \<Longrightarrow> \<exists>n \<le> k. ext_blocks (xt t a m) = of_nat n"
  by auto

lemma pspace_layout:
  assumes p: "stick_params disc N" and mem: "memory_ok mem" and e: "extents disc = lvid_layout N"
    and N: "3072 \<le> N" "N < 2 ^ 32"
  shows "place_pspace mem (of_nat N) disc
    = Some (fill_lvid_tables (of_nat (udf_pspace N)) (disc\<lparr>extents := udf_layout N\<rparr>))"
proof -
  note p = stick_paramsD [OF p]
  note t = layout_tiles(2) [OF N]
  have z: "N - 641 < udf_pspace N" "udf_pspace N \<le> N - 577" "2432 \<le> udf_pspace N"
    using udf_pspace_bounds [OF N(1)] by simp_all
  have r: "N - 192 < udf_rvds N" "udf_rvds N \<le> N - 160" using udf_rvds_bounds N by simp_all
  have c: "(770 :: u32) \<le> of_nat N" using of_nat_u32_le_iff [of 770 N] N by simp
  have f: "find_extent (lvid_layout N) 256 = 7"
    using find_xt [of "lvid_layout N" "[xt RESERVED 0 64, xt VRS 64 13, xt USPACE 77 51, xt MVDS 128 16, xt USPACE 144 48,
     xt LVID 192 16, xt USPACE 208 48]" ANCHOR 256 1 _ N 256] t N by (simp add: lvid_layout_def)
  define best where "best = (320 :: u32, of_nat (udf_pspace N) :: u32)"
  have pos: "(0 :: u32) < of_nat (udf_pspace N)"
    using of_nat_u32_less_iff [of 0 "udf_pspace N"] z N by simp
  have keep: "best_room_from (lvid_layout N) 64 True (next_extent (lvid_layout N) (next_ptr (lvid_layout N) 8) USPACE) best = best"
  proof (rule best_room_from_keep)
    fix i e assume i: "next_extent (lvid_layout N) (next_ptr (lvid_layout N) 8) USPACE = Some i" "e \<in> set (drop i (lvid_layout N))"
    have "9 \<le> i" using next_extent_Some [OF i(1)] by (auto simp: next_ptr_def split: if_splits)
    then have "e \<in> set (drop 9 (lvid_layout N))" using i(2) set_drop_subset_set_drop [of 9 i "lvid_layout N"] by auto
    then have "\<exists>m \<le> 255. ext_blocks e = of_nat m" using N r by (auto simp: lvid_layout_def simp del: xt_sel of_nat_diff intro: xt_at_most)
    then show "ext_blocks e \<le> snd best \<and> unat (ext_blocks e) + unat (64 :: u32) < 2 ^ 32"
      using of_nat_u32_le_iff [of _ "udf_pspace N"] z N by (auto simp: best_def unat_of_nat_small)
  qed simp
  have "best_room_from (lvid_layout N) 64 True (Some 8) (0, 0) = best"
  proof -
    have at: "lvid_layout N ! 8 = xt USPACE 257 (N - 514)" "length (lvid_layout N) = 14"
      by (simp_all add: lvid_layout_def)
    show ?thesis
      using keep pos by (subst best_room_from.simps) (simp add: at partition_room_main [OF N] best_def)
  qed
  moreover have nx: "next_extent (lvid_layout N) (Some 7) USPACE = Some 8"
    by (simp add: next_extent_def lvid_layout_def next_extent_from_simps udf_consts)
  ultimately have b: "best_room (of_nat N) disc = best"
    unfolding best_room_def Let_def e
    using nx by (simp add: p c f)
  have "set_space mem PSPACE 320 (of_nat (udf_pspace N)) disc = Some (disc\<lparr>extents := udf_layout N\<rparr>)"
    using set_space_xt [of disc "[xt RESERVED 0 64, xt VRS 64 13, xt USPACE 77 51, xt MVDS 128 16, xt USPACE 144 48,
     xt LVID 192 16, xt USPACE 208 48, xt ANCHOR 256 1]" USPACE 257 "N - 514" _ N 320 "udf_pspace N" mem PSPACE]
      e t N z mem
    by (simp del: One_nat_def add: memory_ok_def cut_def rest_before_def lvid_layout_def udf_layout_def)
  then show ?thesis
    using pos by (simp add: place_pspace_def p b best_def)
qed

lemma stick_sizes:
  assumes "stick_params disc N" "3072 \<le> N" "N < 2 ^ 32"
  shows "\<exists>sizes. space_sizes disc (of_nat N) = Some sizes \<and> sizes VDS_SIZE = 16 \<and> sizes LVID_SIZE = 16"
proof -
  have c: "(257 :: u32) < of_nat N" "\<not> of_nat N \<le> (257 :: u32)"
    using of_nat_u32_less_iff [of 257 N] assms(2,3) by simp_all
  have "asked_size disc (of_nat N) t = Some (case t of VDS_SIZE \<Rightarrow> 16 | LVID_SIZE \<Rightarrow> 1 | _ \<Rightarrow> 0)" for t
    using assms(1) by (cases t) (simp_all add: asked_size_def stick_params_def with_packetlen_def default_sizing_hd_def udiv_def)
  then show ?thesis
    using assms(1) c by (simp add: space_sizes_def stick_params_def udiv_def PD_ACCESS_TYPE_OVERWRITABLE_def
        PD_ACCESS_TYPE_REWRITABLE_def)
qed

lemma split_space_layout_plan:
  assumes p: "stick_params disc N" and mem: "memory_ok mem" and e: "extents disc = [xt USPACE 0 N]"
    and N: "3072 \<le> N" "N < 2 ^ 32"
  shows "split_space mem disc = Some (fill_lvid_tables (of_nat (udf_pspace N)) (disc\<lparr>extents := udf_layout N\<rparr>))
    \<and> tiles 0 (udf_layout N) N \<and> N - 641 < udf_pspace N \<and> udf_pspace N \<le> N - 577"
proof -
  note q = stick_paramsD [OF p]
  note step = p mem _ N
  obtain sizes where sizes: "\<And>e. space_sizes (disc\<lparr>extents := e\<rparr>) (of_nat N) = Some sizes"
    "sizes VDS_SIZE = 16" "sizes LVID_SIZE = 16"
  proof -
    obtain sizes where s: "space_sizes disc (of_nat N) = Some sizes" "sizes VDS_SIZE = 16" "sizes LVID_SIZE = 16"
      using stick_sizes [OF p N] by blast
    have "space_sizes (disc\<lparr>extents := e\<rparr>) (of_nat N) = space_sizes disc (of_nat N)" for e
    proof -
      have "asked_size (disc\<lparr>extents := e\<rparr>) b t = asked_size disc b t" for b t
        unfolding asked_size_def by (simp cong: if_cong)
      then show ?thesis by (simp add: space_sizes_def)
    qed
    then show thesis using that s by simp
  qed
  have boot: "mark_boot_area mem disc = Some (disc\<lparr>extents := boot_layout N\<rparr>)"
    by (rule boot_area_layout [OF p mem e N])
  have anchors: "mark_anchors mem (of_nat N) (disc\<lparr>extents := boot_layout N\<rparr>) = Some (disc\<lparr>extents := anchor_layout N\<rparr>)"
    using anchors_layout [OF _ mem _ N, of "disc\<lparr>extents := boot_layout N\<rparr>"] p by simp
  have mvds: "place_mvds mem (of_nat N) 16 (disc\<lparr>extents := anchor_layout N\<rparr>) = Some (disc\<lparr>extents := vds_layout N\<rparr>)"
    using mvds_layout [OF _ mem _ N, of "disc\<lparr>extents := anchor_layout N\<rparr>"] p by simp
  have rvds: "place_rvds mem (of_nat N) 16 (disc\<lparr>extents := vds_layout N\<rparr>) = Some (disc\<lparr>extents := rvds_layout N\<rparr>)"
    using rvds_layout [OF _ mem _ N, of "disc\<lparr>extents := vds_layout N\<rparr>"] p by simp
  have lvid: "place_lvid mem (of_nat N) 16 (disc\<lparr>extents := rvds_layout N\<rparr>) = Some (disc\<lparr>extents := lvid_layout N\<rparr>)"
    using lvid_layout [OF _ mem _ N, of "disc\<lparr>extents := rvds_layout N\<rparr>"] p by simp
  define d' where "d' = fill_lvid_tables (of_nat (udf_pspace N)) (disc\<lparr>extents := udf_layout N\<rparr>)"
  have pspace: "place_pspace mem (of_nat N) (disc\<lparr>extents := lvid_layout N\<rparr>) = Some d'"
    using pspace_layout [OF _ mem _ N, of "disc\<lparr>extents := lvid_layout N\<rparr>"] p by (simp add: d'_def)
  have d': "extents d' = udf_layout N" "start_block d' = 0"
    using q(3) by (simp_all add: d'_def fill_lvid_tables_def Let_def)
  have "next_extent (udf_layout N) (Some 0) LVID = Some 5"
    by (simp add: next_extent_def udf_layout_def next_extent_from_simps udf_consts)
  then have late: "place_late_lvid mem 16 d' = Some d'" by (simp add: place_late_lvid_def d')
  have start: "\<not> of_nat N \<le> (0 :: u32)" using of_nat_u32_le_iff [of N 0] N by simp
  have "tiles 0 (udf_layout N) N"
  proof -
    have "N - 192 < udf_rvds N" "udf_rvds N \<le> N - 160" "320 + udf_pspace N \<le> N - 257" "2432 \<le> udf_pspace N"
      using udf_rvds_bounds [OF N(1)] udf_pspace_bounds [OF N(1)] N by linarith+
    then show ?thesis using N
      by (cases "320 + udf_pspace N < N - 257")
        (simp_all del: tiles.simps(2) One_nat_def add: udf_layout_def rest_before_def)
  qed
  then show ?thesis
    using start q(3) udf_pspace_bounds [OF N(1)]
    by (simp add: split_space_def q(1,3,4) boot anchors size_sparing_table_def q(9) sizes mvds rvds lvid
        place_sparing_def pspace late d' d'_def [symmetric])
qed

text \<open>C33: The plan mkudffs makes for the arguments of the bridge, on every stick of 3072 blocks or more:
  \<open>split_space\<close> returns and yields exactly this layout, which tiles the stick: reserved blocks, the
  recognition sequence at byte 32768, main and integrity sequences at blocks 128 and 192, anchors at
  blocks 256, \<open>N - 257\<close> and \<open>N - 1\<close>, the partition from block 320 on, a multiple of 64 blocks of
  which at most 63 fit before the second anchor are left, and the reserve sequence behind it.\<close>

theorem split_space_layout:
  assumes "stick_params disc N" "memory_ok mem" "extents disc = [xt USPACE 0 N]" "3072 \<le> N" "N < 2 ^ 32"
  shows "split_space mem disc = Some (fill_lvid_tables (of_nat (udf_pspace N)) (disc\<lparr>extents := udf_layout N\<rparr>))
    \<and> tiles 0 (udf_layout N) N \<and> N - 641 < udf_pspace N \<and> udf_pspace N \<le> N - 577"
  by (rule split_space_layout_plan [OF assms])

text \<open>The plan for a stick of 131072 blocks.\<close>

definition stick_disc :: "nat \<Rightarrow> udf_disc" where
  "stick_disc N = \<lparr>udf_rev = 0x0201, blocksize = 512, disc_blocks = of_nat N, disc_flags = 0x22084,
     sizing = with_packetlen 64 default_sizing_hd, start_block = 0, last_block = 0,
     accessType = PD_ACCESS_TYPE_OVERWRITABLE, numPartitionMaps = 1, sparable_map = None,
     lvid_tables = replicate 8 0, extents = [xt USPACE 0 N]\<rparr>"

lemma stick_disc_params: "stick_params (stick_disc N) N" "extents (stick_disc N) = [xt USPACE 0 N]"
  by (simp_all add: stick_params_def stick_disc_def flagged_def udf_flags)

lemma split_space_layout_witness:
  "split_space (\<lambda>_ _. True) (stick_disc 131072)
      = Some (fill_lvid_tables 130432 ((stick_disc 131072)\<lparr>extents := udf_layout 131072\<rparr>))
    \<and> tiles 0 (udf_layout 131072) 131072"
  using split_space_layout [OF stick_disc_params(1) _ stick_disc_params(2), of "\<lambda>_ _. True" 131072]
  by (simp add: memory_ok_def udf_pspace_def)

end
