(* ===== verification/UdfVolume.thy ===== *)
theory UdfVolume
  imports UdfWrite UdfLayout ScsiProps ExfatBridge
begin

text \<open>
  What mkudffs leaves on the stick: the medium as a function of the extents and descriptors of the
  plan, that \<open>write_disc\<close> leaves exactly this, and that a reader finds the recognition sequence and
  valid anchors on it.
\<close>

section \<open>The image of a plan\<close>

text \<open>The blocks of a descriptor: its data, filled up with zeros. Blocks have 512 bytes.\<close>

definition full_blocks :: "nat \<Rightarrow> nat" where
  "full_blocks n = (n + 511) div 512"

definition desc_bytes :: "udf_desc \<Rightarrow> bytes" where
  "desc_bytes d = concat (map data_buffer (desc_data d))"

definition desc_blocks :: "udf_desc \<Rightarrow> bytes" where
  "desc_blocks d = desc_bytes d @ replicate (full_blocks (length (desc_bytes d)) * 512 - length (desc_bytes d)) 0"

definition block_at :: "nat \<Rightarrow> nat \<Rightarrow> nat" where
  "block_at base b = base + b * 512"

definition put_desc :: "nat \<Rightarrow> udf_extent \<Rightarrow> udf_desc \<Rightarrow> medium \<Rightarrow> medium" where
  "put_desc base e d m = mwrite m (block_at base (unat (ext_start e) + unat (desc_offset d))) (desc_blocks d)"

definition free_ext :: "udf_extent \<Rightarrow> bool" where
  "free_ext e \<longleftrightarrow> space_type e AND (USPACE OR RESERVED) \<noteq> 0"

definition put_ext :: "nat \<Rightarrow> udf_extent \<Rightarrow> medium \<Rightarrow> medium" where
  "put_ext base e m =
    (if free_ext e then mwrite m (block_at base (unat (ext_start e))) (replicate (unat (ext_blocks e) * 512) 0)
     else fold (put_desc base e) (ext_descs e) m)"

definition disc_image :: "nat \<Rightarrow> udf_extent list \<Rightarrow> medium \<Rightarrow> medium" where
  "disc_image base exts m = fold (put_ext base) exts m"

text \<open>Descriptors whose data have the length they say, inside their extent.\<close>

definition desc_sane :: "udf_desc \<Rightarrow> bool" where
  "desc_sane d \<longleftrightarrow> (\<forall>x \<in> set (desc_data d). unat (data_length x) = length (data_buffer x))
     \<and> length (desc_bytes d) + 511 < 2 ^ 32"

definition ext_sane :: "nat \<Rightarrow> udf_extent \<Rightarrow> bool" where
  "ext_sane N e \<longleftrightarrow> unat (ext_start e) + unat (ext_blocks e) \<le> N \<and>
     (\<not> free_ext e \<longrightarrow> (\<forall>d \<in> set (ext_descs e). desc_sane d
        \<and> unat (desc_offset d) + full_blocks (length (desc_bytes d)) \<le> unat (ext_blocks e)))"

lemma length_desc_blocks [simp]: "length (desc_blocks d) = full_blocks (length (desc_bytes d)) * 512"
  by (simp add: desc_blocks_def full_blocks_def)

section \<open>Writing\<close>

lemma round_blocks_512:
  assumes "n + 511 < 2 ^ 32"
  shows "unat (round_blocks 512 (of_nat n)) = full_blocks n * 512"
proof -
  define y where "y = (of_nat n + ucast (512 :: u32) - 1 :: u64)"
  have "y = of_nat (n + 511)" by (simp add: y_def)
  then have uy: "unat y = n + 511"
    using assms by (simp only: \<open>y = of_nat (n + 511)\<close>) (simp only: unsigned_of_nat, simp add: take_bit_nat_eq_self)
  have mask: "(ucast (NOT (512 - 1 :: u32)) :: u64) = push_bit 9 (mask 23)" by (simp add: mask_eq_exp_minus_1)
  have high: "k < 32" if "bit y k" for k using bits_below [of y 32 k] uy assms that by (cases "k < 32") simp_all
  have "y AND push_bit 9 (mask 23) = push_bit 9 (drop_bit 9 y)"
    by (rule bit_word_eqI) (use high in \<open>fastforce simp: bit_simps\<close>)
  moreover have "unat (push_bit 9 (drop_bit 9 y)) = (n + 511) div 512 * 512"
  proof -
    have "(n + 511) div 512 * 512 < 2 ^ 64" using assms by simp
    then show ?thesis
      by (simp only: unsigned_push_bit_eq unsigned_drop_bit_eq uy)
        (simp add: push_bit_eq_mult drop_bit_eq_div take_bit_nat_eq_self)
  qed
  ultimately show ?thesis
    by (simp only: round_blocks_def y_def [symmetric] mask full_blocks_def)
qed

lemma gather_all:
  "\<forall>x \<in> set ds. unat (data_length x) = length (data_buffer x) \<Longrightarrow> (\<And>n. ok n)
    \<Longrightarrow> \<exists>buflen'. gather ok bs ds acc buflen = Some (acc @ concat (map data_buffer ds), buflen')"
  by (induction ok bs ds acc buflen rule: gather.induct) (auto simp: Let_def)

text \<open>The driver with the window on the volume.\<close>

definition udf_ready :: "('w \<Rightarrow> bool) \<Rightarrow> nat \<Rightarrow> u8 \<Rightarrow> u8 \<Rightarrow> nat \<Rightarrow> 'w udf_out \<Rightarrow> bool" where
  "udf_ready idle cap epi epo base st \<longleftrightarrow> disk_inv idle cap epi epo (udf_drv st)
     \<and> actual_offset (udf_drv st) 0 = int base"

lemma udf_ready_fields [simp]:
  "udf_ready idle cap epi epo base (st\<lparr>udf_pos := p\<rparr>) = udf_ready idle cap epi epo base st"
  "udf_ready idle cap epi epo base (st\<lparr>udf_buflen := b\<rparr>) = udf_ready idle cap epi epo base st"
  by (simp_all add: udf_ready_def)

definition udf_img :: "('w \<Rightarrow> medium) \<Rightarrow> 'w udf_out \<Rightarrow> medium" where
  "udf_img store st = disk_view store (udf_drv st)"

lemma udf_img_fields [simp]:
  "udf_img store (st\<lparr>udf_pos := p\<rparr>) = udf_img store st" "udf_img store (st\<lparr>udf_buflen := b\<rparr>) = udf_img store st"
  by (simp_all add: udf_img_def)

lemma udf_put_works:
  assumes dev: "bot_device u store idle cap epi epo" and r: "udf_ready idle cap epi epo base st"
    and pos: "udf_pos st = int p" and n: "unat n = length buf" "length buf < 2 ^ 32"
    and fit: "base + p + length buf \<le> cap * 512"
  shows "\<exists>st'. udf_put u buf n st = Some (0, st') \<and> udf_ready idle cap epi epo base st'
    \<and> udf_pos st' = int (p + length buf) \<and> udf_buflen st' = udf_buflen st
    \<and> udf_img store st' = mwrite (udf_img store st) (base + p) buf"
proof -
  have sn: "sint n = int (length buf)"
  proof -
    have "n = of_nat (length buf)" by (simp add: n(1) [symmetric])
    then show ?thesis using sint_of_nat_small [of "length buf"] n(2) by simp
  qed
  have off: "actual_offset (udf_drv st) (udf_pos st) = int (base + p)"
    using r actual_offset_shift [of "udf_drv st" "int p"] by (simp add: udf_ready_def pos)
  obtain d where d: "scsi_pwrite u buf (int (length buf)) (udf_pos st) (udf_drv st) = Some (int (length buf), d)"
    "disk_inv idle cap epi epo d" "disk_view store d = mwrite (udf_img store st) (base + p) buf"
    "io_frame (udf_drv st) d"
    using dev_pwrite [OF dev, of "udf_drv st" "udf_pos st" buf] r off n(2) fit
    by (auto simp: udf_ready_def udf_img_def nat_add_distrib simp del: of_nat_add of_nat_mult
        simp flip: of_nat_add of_nat_mult)
  show ?thesis
    using d actual_offset_frame [OF d(4), of 0] r
    by (auto simp: udf_put_def udf_write_nointr_def sn pos udf_ready_def udf_img_def)
qed

lemma seek_block:
  assumes "blocksize disc = 512" "\<not> flagged disc FLAG_NO_WRITE"
  shows "udf_seek disc b st = st\<lparr>udf_pos := int (unat b * 512)\<rparr>"
proof -
  have "unat b < 2 ^ LENGTH(32)" by (rule unsigned_less)
  then have "unat b * 512 < 2 ^ 63" by simp
  then have "s64 (int (unat b * 512)) = int (unat b * 512)"
    using sint_of_nat_small [of "unat b * 512"] by (simp add: s64_def)
  then show ?thesis using assms by (simp add: udf_seek_def udf_lseek_def)
qed

lemma write_zeros_works:
  assumes dev: "bot_device u store idle cap epi epo"
  shows "udf_ready idle cap epi epo base st \<Longrightarrow> udf_pos st = int p \<Longrightarrow> base + p + n * 512 \<le> cap * 512
    \<Longrightarrow> \<exists>st'. write_zeros u 512 n st = Some (0, st') \<and> udf_ready idle cap epi epo base st'
      \<and> udf_img store st' = mwrite (udf_img store st) (base + p) (replicate (n * 512) 0)
      \<and> udf_buflen st' = udf_buflen st"
proof (induction n arbitrary: st p)
  case (Suc n)
  obtain st1 where st1: "udf_put u (replicate 512 0) 512 st = Some (0, st1)" "udf_ready idle cap epi epo base st1"
    "udf_pos st1 = int (p + 512)" "udf_buflen st1 = udf_buflen st"
    "udf_img store st1 = mwrite (udf_img store st) (base + p) (replicate 512 0)"
    using udf_put_works [OF dev Suc.prems(1,2), of 512 "replicate 512 0"] Suc.prems(3) by auto
  obtain st2 where st2: "write_zeros u 512 n st1 = Some (0, st2)" "udf_ready idle cap epi epo base st2"
    "udf_img store st2 = mwrite (udf_img store st1) (base + (p + 512)) (replicate (n * 512) 0)"
    "udf_buflen st2 = udf_buflen st1"
    using Suc.IH [OF st1(2,3)] Suc.prems(3) by auto
  have "mwrite (mwrite m (base + p) (replicate 512 0)) (base + (p + 512)) (replicate (n * 512) 0)
      = mwrite m (base + p) (replicate (Suc n * 512) 0)" for m
    using mwrite_append [of m "base + p" "replicate 512 0" "replicate (n * 512) 0"] by (simp add: replicate_add add.assoc)
  then show ?case using st1 st2 by simp
qed simp

lemma unat_block_sum:
  assumes "unat (a :: u32) + unat b < 2 ^ 32"
  shows "unat (a + b) = unat a + unat b"
  using assms by (simp add: unat_add_lem [THEN iffD1])

lemma write_descs_works:
  assumes dev: "bot_device u store idle cap epi epo"
    and disc: "blocksize disc = 512" "\<not> flagged disc FLAG_NO_WRITE"
    and e: "unat (ext_start e) + unat (ext_blocks e) \<le> N" "N < 2 ^ 32" and fit: "base + N * 512 \<le> cap * 512"
  shows "udf_ready idle cap epi epo base st \<Longrightarrow> \<forall>d \<in> set ds. desc_sane d
        \<and> unat (desc_offset d) + full_blocks (length (desc_bytes d)) \<le> unat (ext_blocks e)
    \<Longrightarrow> \<exists>st'. write_descs u disc (ext_start e) ds buflen st = Some (0, st') \<and> udf_ready idle cap epi epo base st'
      \<and> udf_img store st' = fold (put_desc base e) ds (udf_img store st)"
proof (induction ds arbitrary: st buflen)
  case (Cons d ds)
  define k where "k = full_blocks (length (desc_bytes d))"
  have d: "\<forall>x \<in> set (desc_data d). unat (data_length x) = length (data_buffer x)"
    "length (desc_bytes d) + 511 < 2 ^ 32" "unat (desc_offset d) + k \<le> unat (ext_blocks e)"
    using Cons.prems(2) by (auto simp: desc_sane_def k_def)
  define b where "b = unat (ext_start e) + unat (desc_offset d)"
  have at: "unat (ext_start e + desc_offset d) = b"
    using unat_block_sum [of "ext_start e" "desc_offset d"] d(3) e by (simp add: b_def)
  have bound: "b + k \<le> N" using d(3) e(1) by (simp add: b_def)
  define st1 where "st1 = udf_seek disc (ext_start e + desc_offset d) st"
  have st1: "udf_pos st1 = int (b * 512)" "udf_ready idle cap epi epo base st1" "udf_img store st1 = udf_img store st"
    using Cons.prems(1) by (simp_all add: st1_def seek_block [OF disc] at)
  obtain buflen' where g: "gather (\<lambda>n. malloc_ok u (unat n) (g_world (udf_drv st1))) 512 (desc_data d) [] buflen
      = Some (desc_bytes d, buflen')"
    using gather_all [OF d(1), of "\<lambda>n. malloc_ok u (unat n) (g_world (udf_drv st1))" 512 "[]" buflen]
      bot_device.malloc_succeeds [OF dev] by (auto simp: desc_bytes_def)
  define n where "n = round_blocks 512 (of_nat (length (desc_bytes d)))"
  have n: "unat n = k * 512" using round_blocks_512 [OF d(2)] by (simp add: n_def k_def)
  have whole: "desc_bytes d @ replicate (unat n - length (desc_bytes d)) 0 = desc_blocks d"
    by (simp add: desc_blocks_def n k_def)
  have "k * 512 < 2 ^ 32" using d(2) by (simp add: k_def full_blocks_def)
  moreover have "base + b * 512 + k * 512 \<le> cap * 512"
    using mult_le_mono1 [OF bound, of 512] fit by (simp add: add_mult_distrib)
  ultimately obtain st2 where st2: "udf_put u (desc_blocks d) n (st1\<lparr>udf_buflen := Some buflen'\<rparr>) = Some (0, st2)"
    "udf_ready idle cap epi epo base st2"
    "udf_img store st2 = mwrite (udf_img store st) (base + b * 512) (desc_blocks d)"
    using udf_put_works [OF dev, of base "st1\<lparr>udf_buflen := Some buflen'\<rparr>" "b * 512" n "desc_blocks d"] st1 n
    by (auto simp: k_def)
  obtain st3 where st3: "write_descs u disc (ext_start e) ds buflen' st2 = Some (0, st3)"
    "udf_ready idle cap epi epo base st3" "udf_img store st3 = fold (put_desc base e) ds (udf_img store st2)"
    using Cons.IH [OF st2(2), of buflen'] Cons.prems(2) by auto
  have "put_desc base e d (udf_img store st) = udf_img store st2"
    by (simp add: put_desc_def block_at_def st2(3) b_def)
  then show ?case
    using st3 st1(1) st2(1) g
    by (simp add: st1_def [symmetric] disc Let_def n_def [symmetric] whole)
qed simp

lemma write_func_works:
  assumes dev: "bot_device u store idle cap epi epo"
    and disc: "blocksize disc = 512" "\<not> flagged disc FLAG_NO_WRITE" "\<not> flagged disc FLAG_BOOTAREA_PRESERVE"
    and e: "ext_sane N e" "N < 2 ^ 32" and fit: "base + N * 512 \<le> cap * 512"
    and r: "udf_ready idle cap epi epo base st"
  shows "\<exists>st'. write_func u disc e st = Some (0, st') \<and> udf_ready idle cap epi epo base st'
      \<and> udf_img store st' = put_ext base e (udf_img store st)"
proof -
  obtain st1 buflen where st1: "(if udf_buflen st = None \<and> malloc_ok u (unat (blocksize disc)) (g_world (udf_drv st))
      then st\<lparr>udf_buflen := Some (ucast (blocksize disc))\<rparr> else st) = st1"
    "udf_buflen st1 = Some buflen" "udf_ready idle cap epi epo base st1" "udf_img store st1 = udf_img store st"
    using r bot_device.malloc_succeeds [OF dev] by (cases "udf_buflen st") auto
  have func: "write_func u disc e st =
      (if free_ext e then let st = udf_seek disc (ext_start e) st1
         in if udf_pos st < 0 then Some (-1, st) else write_zeros u 512 (unat (ext_blocks e)) st
       else write_descs u disc (ext_start e) (ext_descs e) buflen st1)"
    unfolding write_func_def st1(1) Let_def by (simp add: st1(2) free_ext_def disc)
  have b: "unat (ext_start e) + unat (ext_blocks e) \<le> N" using e(1) by (simp add: ext_sane_def)
  show ?thesis
  proof (cases "free_ext e")
    case False
    then show ?thesis
      using write_descs_works [OF dev disc(1,2) b e(2) fit st1(3), of "ext_descs e" buflen] e(1)
      by (simp add: func st1(4) ext_sane_def put_ext_def)
  next
    case True
    define st2 where "st2 = udf_seek disc (ext_start e) st1"
    have st2: "udf_pos st2 = int (unat (ext_start e) * 512)" "udf_ready idle cap epi epo base st2"
      "udf_img store st2 = udf_img store st"
      using st1(3,4) by (simp_all add: st2_def seek_block [OF disc(1,2)])
    have "base + unat (ext_start e) * 512 + unat (ext_blocks e) * 512 \<le> cap * 512"
      using mult_le_mono1 [OF b, of 512] fit by (simp add: add_mult_distrib)
    then obtain st3 where "write_zeros u 512 (unat (ext_blocks e)) st2 = Some (0, st3)"
      "udf_ready idle cap epi epo base st3" "udf_img store st3 =
        mwrite (udf_img store st) (base + unat (ext_start e) * 512) (replicate (unat (ext_blocks e) * 512) 0)"
      using write_zeros_works [OF dev st2(2,1), of "unat (ext_blocks e)"] st2(3) by auto
    then show ?thesis
      using True st2(1) by (simp add: func put_ext_def block_at_def st2_def [symmetric])
  qed
qed

lemma write_extents_works:
  assumes dev: "bot_device u store idle cap epi epo"
    and disc: "blocksize disc = 512" "\<not> flagged disc FLAG_NO_WRITE" "\<not> flagged disc FLAG_BOOTAREA_PRESERVE"
    and N: "N < 2 ^ 32" and fit: "base + N * 512 \<le> cap * 512"
  shows "\<forall>e \<in> set exts. ext_sane N e \<Longrightarrow> udf_ready idle cap epi epo base st
    \<Longrightarrow> \<exists>st'. write_extents u disc exts st = Some (0, st') \<and> udf_ready idle cap epi epo base st'
      \<and> udf_img store st' = disc_image base exts (udf_img store st)"
proof (induction exts arbitrary: st)
  case (Cons e exts)
  obtain st1 where st1: "write_func u disc e st = Some (0, st1)" "udf_ready idle cap epi epo base st1"
    "udf_img store st1 = put_ext base e (udf_img store st)"
    using write_func_works [OF dev disc _ N fit Cons.prems(2), of e] Cons.prems(1) by auto
  then show ?case using Cons.IH [OF _ st1(2)] Cons.prems(1) by (auto simp: disc_image_def)
qed (simp add: disc_image_def)

section \<open>What can be read back\<close>

text \<open>Descriptors of an extent in the order of their blocks, none reaching into the next.\<close>

fun descs_apart :: "udf_desc list \<Rightarrow> bool" where
  "descs_apart [] = True"
| "descs_apart (d # ds) = (descs_apart ds
     \<and> (\<forall>d' \<in> set ds. unat (desc_offset d) + full_blocks (length (desc_bytes d)) \<le> unat (desc_offset d')))"

lemma mwrite_outside: "x < a \<or> a + length xs \<le> x \<Longrightarrow> mwrite m a xs x = m x"
  by (auto simp: mwrite_def)

lemma put_descs_below:
  "\<forall>d \<in> set ds. x < block_at base (unat (ext_start e) + unat (desc_offset d)) \<Longrightarrow> fold (put_desc base e) ds m x = m x"
  by (induction ds arbitrary: m) (auto simp: put_desc_def mwrite_outside)

lemma put_descs_above:
  "\<forall>d \<in> set ds. block_at base (unat (ext_start e) + unat (desc_offset d) + full_blocks (length (desc_bytes d))) \<le> x
    \<Longrightarrow> fold (put_desc base e) ds m x = m x"
  by (induction ds arbitrary: m) (auto simp: put_desc_def block_at_def mwrite_outside add_mult_distrib)

lemma put_ext_outside:
  assumes s: "ext_sane N e"
    and x: "x < block_at base (unat (ext_start e)) \<or> block_at base (unat (ext_start e) + unat (ext_blocks e)) \<le> x"
  shows "put_ext base e m x = m x"
proof (cases "free_ext e")
  case True
  then show ?thesis using x by (auto simp: put_ext_def block_at_def add_mult_distrib mwrite_outside)
next
  case False
  have d: "unat (desc_offset d) + full_blocks (length (desc_bytes d)) \<le> unat (ext_blocks e)" if "d \<in> set (ext_descs e)" for d
    using s False that by (simp add: ext_sane_def)
  show ?thesis
  proof (cases "x < block_at base (unat (ext_start e))")
    case True
    then have "fold (put_desc base e) (ext_descs e) m x = m x"
      by (intro put_descs_below) (auto simp: block_at_def)
    then show ?thesis using False by (simp add: put_ext_def)
  next
    case notbelow: False
    then have "fold (put_desc base e) (ext_descs e) m x = m x"
      using x d by (intro put_descs_above ballI) (force simp: block_at_def)
    then show ?thesis using False by (simp add: put_ext_def)
  qed
qed

lemma mread_cong: "(\<And>i. i < n \<Longrightarrow> m (a + i) = m' (a + i)) \<Longrightarrow> mread m a n = mread m' a n"
  by (simp add: mread_def)

lemma put_descs_read:
  "descs_apart ds \<Longrightarrow> d \<in> set ds \<Longrightarrow>
   mread (fold (put_desc base e) ds m) (block_at base (unat (ext_start e) + unat (desc_offset d)))
     (length (desc_blocks d)) = desc_blocks d"
proof (induction ds arbitrary: m)
  case (Cons d' ds)
  show ?case
  proof (cases "d \<in> set ds")
    case False
    then have d: "d' = d" using Cons.prems(2) by simp
    define a where "a = block_at base (unat (ext_start e) + unat (desc_offset d))"
    have "fold (put_desc base e) ds (put_desc base e d m) (a + i) = put_desc base e d m (a + i)"
      if "i < length (desc_blocks d)" for i
    proof (rule put_descs_below, rule ballI)
      fix d2 assume "d2 \<in> set ds"
      then have "unat (desc_offset d) + full_blocks (length (desc_bytes d)) \<le> unat (desc_offset d2)"
        using Cons.prems(1) d by simp
      then have "(unat (desc_offset d) + full_blocks (length (desc_bytes d))) * 512 \<le> unat (desc_offset d2) * 512"
        by (rule mult_le_mono1)
      then show "a + i < block_at base (unat (ext_start e) + unat (desc_offset d2))"
        using that by (simp add: a_def block_at_def add_mult_distrib)
    qed
    then have "mread (fold (put_desc base e) ds (put_desc base e d m)) a (length (desc_blocks d))
        = mread (put_desc base e d m) a (length (desc_blocks d))"
      by (rule mread_cong)
    moreover have "mread (put_desc base e d m) a (length (desc_blocks d)) = desc_blocks d"
      unfolding put_desc_def a_def by (rule mread_mwrite_same)
    ultimately show ?thesis by (simp add: d a_def)
  qed (use Cons in simp)
qed simp

text \<open>A medium holds an extent: zeros where the extent is free or reserved, every descriptor at its
  block where it is not.\<close>

definition holds_ext :: "nat \<Rightarrow> medium \<Rightarrow> udf_extent \<Rightarrow> bool" where
  "holds_ext base m e \<longleftrightarrow>
    (if free_ext e
     then mread m (block_at base (unat (ext_start e))) (unat (ext_blocks e) * 512) = replicate (unat (ext_blocks e) * 512) 0
     else \<forall>d \<in> set (ext_descs e). mread m (block_at base (unat (ext_start e) + unat (desc_offset d)))
       (length (desc_blocks d)) = desc_blocks d)"

lemma put_ext_reads:
  assumes "free_ext e \<or> descs_apart (ext_descs e)"
  shows "holds_ext base (put_ext base e m) e"
  using assms put_descs_read [of "ext_descs e" _ base e m]
    mread_mwrite_same [of m "block_at base (unat (ext_start e))" "replicate (unat (ext_blocks e) * 512) 0"]
  by (auto simp: put_ext_def holds_ext_def simp del: length_desc_blocks)

lemma disc_image_outside:
  "tiles lo exts hi \<Longrightarrow> \<forall>e \<in> set exts. ext_sane N e \<Longrightarrow> x < block_at base lo \<or> block_at base hi \<le> x
    \<Longrightarrow> disc_image base exts m x = m x"
proof (induction exts arbitrary: lo m)
  case (Cons e exts)
  have t: "unat (ext_start e) = lo" "tiles (lo + unat (ext_blocks e)) exts hi" using Cons.prems(1) by simp_all
  then have "lo + unat (ext_blocks e) \<le> hi" by (simp add: tiles_le)
  then have x: "x < block_at base lo \<or> block_at base (lo + unat (ext_blocks e)) \<le> x"
    "x < block_at base (lo + unat (ext_blocks e)) \<or> block_at base hi \<le> x"
    using Cons.prems(3) by (auto simp: block_at_def)
  have "disc_image base exts (put_ext base e m) x = put_ext base e m x"
    using Cons.IH [OF t(2) _ x(2)] Cons.prems(2) by simp
  then show ?case
    using put_ext_outside [of N e x base m] x(1) t(1) Cons.prems(2) by (simp add: disc_image_def)
qed (simp add: disc_image_def)

lemma disc_image_inside:
  assumes t: "tiles lo (pre @ e # post) hi" and s: "\<forall>e' \<in> set post. ext_sane N e'"
    and x: "x < block_at base (unat (ext_start e) + unat (ext_blocks e))"
  shows "disc_image base (pre @ e # post) m x = put_ext base e (disc_image base pre m) x"
proof -
  have "tiles (unat (ext_start e) + unat (ext_blocks e)) post hi" using t by (auto simp: tiles_append)
  from disc_image_outside [OF this s disjI1 [OF x]] show ?thesis by (simp add: disc_image_def)
qed

lemma disc_image_reads:
  assumes t: "tiles 0 exts N" and s: "\<forall>e \<in> set exts. ext_sane N e"
    and apart: "\<forall>e \<in> set exts. free_ext e \<or> descs_apart (ext_descs e)" and e: "e \<in> set exts"
  shows "holds_ext base (disc_image base exts m) e"
proof -
  obtain pre post where exts: "exts = pre @ e # post" using e by (meson split_list)
  have same: "mread (disc_image base exts m) a n = mread (put_ext base e (disc_image base pre m)) a n"
    if "a + n \<le> block_at base (unat (ext_start e) + unat (ext_blocks e))" for a n
    using disc_image_inside [of 0 pre e post N N _ base m] t s that by (intro mread_cong) (auto simp: exts)
  have put: "holds_ext base (put_ext base e (disc_image base pre m)) e"
    using put_ext_reads apart e by blast
  show ?thesis
  proof (cases "free_ext e")
    case True
    then show ?thesis
      using put same [of "block_at base (unat (ext_start e))" "unat (ext_blocks e) * 512"]
      by (simp add: holds_ext_def) (simp add: block_at_def add_mult_distrib)
  next
    case False
    have "block_at base (unat (ext_start e) + unat (desc_offset d)) + length (desc_blocks d)
      \<le> block_at base (unat (ext_start e) + unat (ext_blocks e))" if "d \<in> set (ext_descs e)" for d
    proof -
      have "unat (desc_offset d) + full_blocks (length (desc_bytes d)) \<le> unat (ext_blocks e)"
        using s e that False by (simp add: ext_sane_def)
      from mult_le_mono1 [OF this, of 512] show ?thesis by (simp add: block_at_def add_mult_distrib)
    qed
    then show ?thesis using put same False unfolding holds_ext_def by auto
  qed
qed

text \<open>The bytes the plan has something for: the blocks of the descriptors, and the free and reserved
  extents.\<close>

definition ext_covers :: "nat \<Rightarrow> udf_extent \<Rightarrow> nat \<Rightarrow> bool" where
  "ext_covers base e x \<longleftrightarrow>
    (if free_ext e then block_at base (unat (ext_start e)) \<le> x
        \<and> x < block_at base (unat (ext_start e) + unat (ext_blocks e))
     else \<exists>d \<in> set (ext_descs e). block_at base (unat (ext_start e) + unat (desc_offset d)) \<le> x
        \<and> x < block_at base (unat (ext_start e) + unat (desc_offset d) + full_blocks (length (desc_bytes d))))"

lemma put_ext_uncovered: "\<not> ext_covers base e x \<Longrightarrow> put_ext base e m x = m x"
proof (cases "free_ext e")
  case True
  moreover assume "\<not> ext_covers base e x"
  ultimately show ?thesis by (auto simp: ext_covers_def put_ext_def mwrite_def block_at_def algebra_simps)
next
  case False
  have "fold (put_desc base e) ds m x = m x"
    if "\<forall>d \<in> set ds. x < block_at base (unat (ext_start e) + unat (desc_offset d))
      \<or> block_at base (unat (ext_start e) + unat (desc_offset d) + full_blocks (length (desc_bytes d))) \<le> x" for ds
    using that
    by (induction ds arbitrary: m) (auto simp: put_desc_def mwrite_def block_at_def algebra_simps)
  moreover assume "\<not> ext_covers base e x"
  ultimately show ?thesis using False by (simp add: ext_covers_def put_ext_def not_le not_less disj_commute)
qed

lemma disc_image_uncovered:
  "\<forall>e \<in> set exts. \<not> ext_covers base e x \<Longrightarrow> disc_image base exts m x = m x"
  by (induction exts arbitrary: m) (simp_all add: disc_image_def put_ext_uncovered)

section \<open>The volume on the stick\<close>

lemma write_disc_holds:
  assumes dev: "bot_device u store idle cap epi epo" and r: "udf_ready idle cap epi epo base st"
    and disc: "blocksize disc = 512" "\<not> flagged disc FLAG_NO_WRITE" "\<not> flagged disc FLAG_BOOTAREA_PRESERVE"
    and N: "N < 2 ^ 32" and fit: "base + N * 512 \<le> cap * 512" and t: "tiles 0 (extents disc) N"
    and s: "\<forall>e \<in> set (extents disc). ext_sane N e \<and> (free_ext e \<or> descs_apart (ext_descs e))"
  shows "\<exists>st'. write_disc u disc st = Some (0, st') \<and> udf_ready idle cap epi epo base st'
    \<and> (\<forall>e \<in> set (extents disc). holds_ext base (udf_img store st') e)
    \<and> (\<forall>x. (\<forall>e \<in> set (extents disc). \<not> ext_covers base e x) \<longrightarrow> udf_img store st' x = udf_img store st x)
    \<and> (\<forall>x. x < base \<or> base + N * 512 \<le> x \<longrightarrow> udf_img store st' x = udf_img store st x)"
proof -
  obtain st' where st': "write_extents u disc (extents disc) st = Some (0, st')" "udf_ready idle cap epi epo base st'"
    "udf_img store st' = disc_image base (extents disc) (udf_img store st)"
    using write_extents_works [OF dev disc N fit _ r, of "extents disc"] s by blast
  have "holds_ext base (udf_img store st') e" if "e \<in> set (extents disc)" for e
    unfolding st'(3) using disc_image_reads [OF t _ _ that] s by blast
  moreover have "udf_img store st' x = udf_img store st x" if "x < base \<or> base + N * 512 \<le> x" for x
    unfolding st'(3) using disc_image_outside [OF t, of N x base] s that by (simp add: block_at_def)
  moreover have "udf_img store st' x = udf_img store st x" if "\<forall>e \<in> set (extents disc). \<not> ext_covers base e x" for x
    unfolding st'(3) by (rule disc_image_uncovered [OF that])
  ultimately show ?thesis using st'(1,2) by (simp add: write_disc_def)
qed

text \<open>C32: \<open>write_disc\<close> on a stick that obeys the protocol, for every plan whose extents tile the volume
  and whose descriptors lie in their extents one behind the other: it returns 0, every descriptor can be
  read back at its block filled up with zeros, every free or reserved extent reads as zeros, every
  other byte is as it was, in the blocks of the other extents that no descriptor takes as well as outside the
  volume, and the driver stays ready.\<close>

theorem write_disc_leaves_the_plan:
  assumes "bot_device u store idle cap epi epo" "udf_ready idle cap epi epo base st"
    and "blocksize disc = 512" "\<not> flagged disc FLAG_NO_WRITE" "\<not> flagged disc FLAG_BOOTAREA_PRESERVE"
    and "N < 2 ^ 32" "base + N * 512 \<le> cap * 512" "tiles 0 (extents disc) N"
    and "\<forall>e \<in> set (extents disc). ext_sane N e \<and> (free_ext e \<or> descs_apart (ext_descs e))"
  shows "\<exists>st'. write_disc u disc st = Some (0, st') \<and> udf_ready idle cap epi epo base st'
    \<and> (\<forall>e \<in> set (extents disc). holds_ext base (udf_img store st') e)
    \<and> (\<forall>x. (\<forall>e \<in> set (extents disc). \<not> ext_covers base e x) \<longrightarrow> udf_img store st' x = udf_img store st x)
    \<and> (\<forall>x. x < base \<or> base + N * 512 \<le> x \<longrightarrow> udf_img store st' x = udf_img store st x)"
  by (rule write_disc_holds [OF assms])

text \<open>The driver with its window on the second MiB of a stick, and two extents: 7 blocks of zeros, and two
  blocks of which the first has a descriptor of three bytes.\<close>

definition udf_stick :: "stick udf_out" where
  "udf_stick = \<lparr>udf_pos = 0, udf_buflen = None, udf_drv = (stick_drv (\<lambda>_. 9))\<lparr>g_drive_offset_sectors := 2048\<rparr>\<rparr>"

lemma udf_stick_ready: "udf_ready stick_idle (2 ^ 32) 0x81 0x02 1048576 udf_stick"
  "udf_img stick_medium udf_stick = (\<lambda>_. 9)"
  by (simp_all add: udf_ready_def udf_img_def udf_stick_def disk_inv_def disk_view_def bound_to_def stick_drv_def
      stick_idle_def cache_wf_def actual_offset_def)

definition small_disc :: udf_disc where
  "small_disc = (stick_disc 9)\<lparr>extents := [xt RESERVED 0 7, (xt ANCHOR 7 2)\<lparr>ext_descs :=
     [\<lparr>desc_ident = 2, desc_offset = 0, desc_length = 3, desc_data = [\<lparr>data_buffer = [1, 2, 3], data_length = 3\<rparr>]\<rparr>]\<rparr>]\<rparr>"

lemma small_disc_ok:
  "\<not> flagged small_disc FLAG_NO_WRITE" "\<not> flagged small_disc FLAG_BOOTAREA_PRESERVE" "blocksize small_disc = 512"
  "tiles 0 (extents small_disc) 9"
  "\<forall>e \<in> set (extents small_disc). ext_sane 9 e \<and> (free_ext e \<or> descs_apart (ext_descs e))"
  by (simp_all add: small_disc_def stick_disc_def flagged_def udf_flags ext_sane_def free_ext_def udf_consts desc_sane_def
      desc_bytes_def full_blocks_def)

lemma write_disc_leaves_the_plan_witness:
  "\<exists>st'. write_disc stick_usb small_disc udf_stick = Some (0, st')
    \<and> mread (udf_img stick_medium st') 1048576 3584 = replicate 3584 0
    \<and> mread (udf_img stick_medium st') 1052160 512 = [1, 2, 3] @ replicate 509 0
    \<and> udf_img stick_medium st' 1048575 = 9 \<and> udf_img stick_medium st' 1052672 = 9"
proof -
  obtain st' where st': "write_disc stick_usb small_disc udf_stick = Some (0, st')"
    "\<forall>e \<in> set (extents small_disc). holds_ext 1048576 (udf_img stick_medium st') e"
    "\<forall>x. (\<forall>e \<in> set (extents small_disc). \<not> ext_covers 1048576 e x)
      \<longrightarrow> udf_img stick_medium st' x = udf_img stick_medium udf_stick x"
    using write_disc_leaves_the_plan [OF stick_device udf_stick_ready(1) small_disc_ok(3,1,2) _ _ small_disc_ok(4,5)] by auto
  have "mread (udf_img stick_medium st') 1048576 3584 = replicate 3584 0
      \<and> mread (udf_img stick_medium st') 1052160 512 = [1, 2, 3] @ replicate 509 0"
    using st'(2) by (simp add: small_disc_def holds_ext_def free_ext_def udf_consts block_at_def desc_blocks_def
        desc_bytes_def full_blocks_def)
  moreover have "\<forall>e \<in> set (extents small_disc). \<not> ext_covers 1048576 e x" if "x \<in> {1048575, 1052672}" for x
    using that by (auto simp: small_disc_def ext_covers_def free_ext_def udf_consts block_at_def desc_bytes_def full_blocks_def)
  ultimately show ?thesis using st'(1) st'(3) by (simp add: udf_stick_ready(2))
qed

end
