(* ===== verification/UdfSequences.thy ===== *)
theory UdfSequences
  imports UdfVds UdfVolume
begin

text \<open>
  What \<open>setup_vds\<close> leaves in a plan: both volume descriptor sequences with the same six descriptors, the
  integrity sequence with its descriptor and a terminator, every descriptor with a tag that checks, the
  list of free space exact.
\<close>

section \<open>Descriptors at the end of an extent\<close>

definition one_desc :: "u16 \<Rightarrow> u32 \<Rightarrow> bytes \<Rightarrow> udf_desc" where
  "one_desc ident offset b = \<lparr>desc_ident = ident, desc_offset = offset, desc_length = of_nat (length b),
     desc_data = [\<lparr>data_buffer = b, data_length = of_nat (length b)\<rparr>]\<rparr>"

lemma one_desc_sel [simp]:
  "desc_ident (one_desc a o' b) = a" "desc_offset (one_desc a o' b) = o'" "desc_length (one_desc a o' b) = of_nat (length b)"
  "desc_data (one_desc a o' b) = [\<lparr>data_buffer = b, data_length = of_nat (length b)\<rparr>]" "desc_bytes (one_desc a o' b) = b"
  by (simp_all add: one_desc_def desc_bytes_def)

lemma find_desc_from_last:
  "i < length descs \<Longrightarrow> \<forall>d \<in> set descs. desc_offset d < offset \<Longrightarrow> find_desc_from descs offset i = Some (length descs - 1)"
proof (induction descs offset i rule: find_desc_from.induct)
  case (1 descs offset i)
  have "desc_offset (descs ! i) < offset" using 1 by simp
  then have "desc_offset (descs ! i) \<noteq> offset" "\<not> desc_offset (descs ! i) > offset" by auto
  then show ?case using 1 by (subst find_desc_from.simps) auto
qed

lemma small_u32:
  assumes "n < 2 ^ 31"
  shows "sint (of_nat n :: u32) = int n" "unat (of_nat n :: u32) = n"
    "(scast (of_nat n :: u32) :: u64) = of_nat n" "(ucast (of_nat n :: u32) :: u64) = of_nat n"
proof -
  have "n < 2 ^ 32" using assms by simp
  then show u: "unat (of_nat n :: u32) = n" by (rule unat_of_nat_small)
  show s: "sint (of_nat n :: u32) = int n" using assms by (simp add: signed_of_nat signed_take_bit_int_eq_self)
  show "(scast (of_nat n :: u32) :: u64) = of_nat n" unfolding scast_eq s by simp
  show "(ucast (of_nat n :: u32) :: u64) = of_nat n" using u by (metis of_nat_unat)
qed

lemma set_desc_end:
  assumes "\<forall>d \<in> set descs. desc_offset d < offset" "n < 2 ^ 31"
  shows "set_desc True descs ident offset (of_nat n) None
    = Some (length descs, descs @ [one_desc ident offset (replicate n 0)])"
proof (cases "descs = []")
  case False
  then have "find_desc descs offset = Some (length descs - 1)"
    using find_desc_from_last [of 0 descs offset] assms(1) by (simp add: find_desc_def)
  then show ?thesis using False by (simp add: set_desc_def alloc_data_def small_u32 [OF assms(2)] Let_def one_desc_def)
qed (simp add: set_desc_def alloc_data_def small_u32 [OF assms(2)] Let_def one_desc_def)

lemma set_ext_desc_end:
  assumes "i < length exts" "\<forall>d \<in> set (ext_descs (exts ! i)). desc_offset d < offset" "length buf < 2 ^ 31"
  shows "set_ext_desc True i ident offset buf exts
    = Some (exts[i := (exts ! i)\<lparr>ext_descs := ext_descs (exts ! i) @ [one_desc ident offset buf]\<rparr>])"
  using assms by (simp add: set_ext_desc_def set_desc_end) (simp add: one_desc_def)

text \<open>Extents that differ in their descriptors only, and those only at some indices.\<close>

definition bare :: "udf_extent \<Rightarrow> udf_extent" where
  "bare e = e\<lparr>ext_descs := []\<rparr>"

definition only_at :: "nat set \<Rightarrow> udf_extent list \<Rightarrow> udf_extent list \<Rightarrow> bool" where
  "only_at I exts exts' \<longleftrightarrow> map bare exts' = map bare exts \<and> (\<forall>j < length exts. j \<notin> I \<longrightarrow> exts' ! j = exts ! j)"

lemma bare_sel: "bare e = bare e' \<Longrightarrow> space_type e = space_type e' \<and> ext_start e = ext_start e' \<and> ext_blocks e = ext_blocks e'"
  by (cases e, cases e') (simp add: bare_def)

lemma only_at_length: "only_at I exts exts' \<Longrightarrow> length exts' = length exts"
  unfolding only_at_def by (metis length_map)

lemma only_at_refl [simp]: "only_at I exts exts"
  by (simp add: only_at_def)

lemma only_at_trans: "only_at I a b \<Longrightarrow> only_at J b c \<Longrightarrow> only_at (I \<union> J) a c"
  using only_at_length [of I a b] by (simp add: only_at_def)

lemma only_at_mono: "only_at I a b \<Longrightarrow> I \<subseteq> J \<Longrightarrow> only_at J a b"
  by (auto simp: only_at_def)

lemma only_at_nth: "only_at I a b \<Longrightarrow> j < length a \<Longrightarrow> j \<notin> I \<Longrightarrow> b ! j = a ! j"
  by (simp add: only_at_def)

lemma only_at_sel:
  assumes "only_at I a b" "j < length a"
  shows "space_type (b ! j) = space_type (a ! j)" "ext_start (b ! j) = ext_start (a ! j)"
    "ext_blocks (b ! j) = ext_blocks (a ! j)"
proof -
  have "map bare b ! j = map bare a ! j" using assms(1) by (simp add: only_at_def)
  then have "bare (b ! j) = bare (a ! j)" using assms(2) only_at_length [OF assms(1)] by simp
  from bare_sel [OF this] show "space_type (b ! j) = space_type (a ! j)" "ext_start (b ! j) = ext_start (a ! j)"
    "ext_blocks (b ! j) = ext_blocks (a ! j)" by simp_all
qed

lemma only_at_update: "i < length exts \<Longrightarrow> only_at {i} exts (exts[i := (exts ! i)\<lparr>ext_descs := ds\<rparr>])"
  by (auto simp: only_at_def bare_def nth_list_update intro!: nth_equalityI)

lemma next_extent_from_types:
  "map space_type exts' = map space_type exts \<Longrightarrow> next_extent_from exts' t i = next_extent_from exts t i"
proof (induction exts t i rule: next_extent_from.induct)
  case (1 exts t i)
  have l: "length exts' = length exts" using "1.prems" by (metis length_map)
  have "space_type (exts' ! i) = space_type (exts ! i)" if "i < length exts"
    using arg_cong [OF "1.prems", of "\<lambda>xs. xs ! i"] that l by simp
  then show ?case using 1 l
    by (subst next_extent_from.simps, subst (2) next_extent_from.simps) auto
qed

lemma only_at_types: "only_at I exts exts' \<Longrightarrow> map space_type exts' = map space_type exts"
  by (rule nth_equalityI) (simp_all add: only_at_length only_at_sel)

lemma only_at_next: "only_at I exts exts' \<Longrightarrow> next_extent exts' p t = next_extent exts p t"
  using next_extent_from_types [OF only_at_types] by (simp add: next_extent_def split: option.split)

lemma tiles_bare: "map bare exts' = map bare exts \<Longrightarrow> tiles lo exts' hi = tiles lo exts hi"
proof (induction exts arbitrary: lo exts')
  case (Cons e exts)
  then obtain e' r where "exts' = e' # r" "bare e' = bare e" "map bare r = map bare exts" by (cases exts') auto
  then show ?case using Cons.IH [of r] bare_sel [of e' e] by simp
qed simp

section \<open>Tagged descriptors\<close>

text \<open>An extent with tagged descriptors, one per block from its first on, given by their identifiers and
  the bytes behind their tags.\<close>

definition carries :: "udf_extent \<Rightarrow> (u16 \<times> bytes) list \<Rightarrow> bool" where
  "carries e ds \<longleftrightarrow> length (ext_descs e) = length ds \<and> (\<forall>k < length ds. \<exists>b.
     ext_descs e ! k = one_desc (fst (ds ! k)) (of_nat k) b \<and> valid_desc (fst (ds ! k)) (ext_start e + of_nat k) b
     \<and> drop 16 b = snd (ds ! k) \<and> 16 \<le> length b \<and> length b \<le> 512)"

lemma carries_Nil: "ext_descs e = [] \<Longrightarrow> carries e []"
  by (simp add: carries_def)

lemma carries_snoc:
  assumes "carries e ds" "valid_desc ident (ext_start e + of_nat (length ds)) b" "drop 16 b = body"
    "16 \<le> length b" "length b \<le> 512"
  shows "carries (e\<lparr>ext_descs := ext_descs e @ [one_desc ident (of_nat (length ds)) b]\<rparr>) (ds @ [(ident, body)])"
  using assms by (auto simp: carries_def nth_append less_Suc_eq)

lemma carries_before:
  assumes "carries e ds" "length ds < 2 ^ 16"
  shows "\<forall>d \<in> set (ext_descs e). desc_offset d < of_nat (length ds)"
proof
  fix d assume "d \<in> set (ext_descs e)"
  then obtain k where k: "k < length ds" "ext_descs e ! k = d"
    using assms(1) by (auto simp: in_set_conv_nth carries_def)
  then have "desc_offset d = of_nat k" using assms(1) by (force simp: carries_def)
  then show "desc_offset d < of_nat (length ds)" using of_nat_u32_less_iff [of k "length ds"] k(1) assms(2) by simp
qed

lemma put_owned_carries:
  assumes mem: "memory_ok mem" and i: "i < length exts" "space_type (exts ! i) AND PSPACE = 0"
    and c: "carries (exts ! i) ds" "length ds < 2 ^ 16" "offset = of_nat (length ds)"
    and buf: "n = of_nat (length buf)" "16 \<le> length buf" "length buf \<le> 512"
  shows "\<exists>b exts'. put_owned mem rv i ident offset n buf exts = Some (b, exts') \<and> only_at {i} exts exts'
    \<and> drop 16 b = drop 16 buf \<and> length b = length buf \<and> carries (exts' ! i) (ds @ [(ident, drop 16 buf)])"
proof -
  have m: "mem exts 0" using mem by (simp add: memory_ok_def)
  have set0: "set_desc (mem exts 0) (ext_descs (exts ! i)) ident offset 0 None
      = Some (length ds, ext_descs (exts ! i) @ [one_desc ident offset []])"
    using set_desc_end [of "ext_descs (exts ! i)" offset 0 ident] carries_before [OF c(1,2)] c m by (simp add: carries_def)
  have l: "length (ext_descs (exts ! i)) = length ds" using c(1) by (simp add: carries_def)
  have n: "(scast n :: u64) = of_nat (length buf)" using small_u32(3) [of "length buf"] buf by simp
  obtain t where t: "query_tag rv (exts ! i) (one_desc ident offset buf) 1 = Some t" "length t = 16"
    "valid_desc ident (ext_start (exts ! i) + offset) (t @ drop 16 buf)"
    using query_tag_valid [of "one_desc ident offset buf" buf rv "exts ! i" 1] buf i(2) by auto
  define b where "b = t @ drop 16 buf"
  have b: "length b = length buf" "drop 16 b = drop 16 buf" using t(2) buf(2) by (simp_all add: b_def)
  have q: "query_tag rv (exts ! i) ((one_desc ident offset [])\<lparr>desc_length := of_nat (length buf),
      desc_data := [\<lparr>data_buffer = buf, data_length = of_nat (length buf)\<rparr>]\<rparr>) 1 = Some t"
    using t(1) by (simp add: one_desc_def)
  have "put_owned mem rv i ident offset n buf exts
      = Some (b, exts[i := (exts ! i)\<lparr>ext_descs := ext_descs (exts ! i) @ [one_desc ident offset b]\<rparr>])"
    using q b(1) by (simp add: put_owned_def set0 n l [symmetric] b_def [symmetric]) (simp add: one_desc_def)
  moreover have "carries ((exts ! i)\<lparr>ext_descs := ext_descs (exts ! i) @ [one_desc ident offset b]\<rparr>) (ds @ [(ident, drop 16 buf)])"
    using carries_snoc [OF c(1), of ident b "drop 16 buf"] t(3) b buf c(3) by (simp add: b_def)
  ultimately show ?thesis using i(1) b by (auto intro!: only_at_update)
qed

lemma put_copied_carries:
  assumes mem: "memory_ok mem" and i: "i < length exts" "space_type (exts ! i) AND PSPACE = 0"
    and c: "carries (exts ! i) ds" "length ds < 2 ^ 16" "offset = of_nat (length ds)"
    and buf: "n = of_nat (length buf)" "16 \<le> length buf" "length buf \<le> 512"
  shows "\<exists>exts'. put_copied mem rv i ident offset n buf exts = Some exts' \<and> only_at {i} exts exts'
    \<and> carries (exts' ! i) (ds @ [(ident, drop 16 buf)])"
proof -
  have m: "mem exts 0" using mem by (simp add: memory_ok_def)
  have set0: "set_desc (mem exts 0) (ext_descs (exts ! i)) ident offset n None
      = Some (length ds, ext_descs (exts ! i) @ [one_desc ident offset (replicate (length buf) 0)])"
    using set_desc_end [of "ext_descs (exts ! i)" offset "length buf" ident] carries_before [OF c(1,2)] c m buf
    by (simp add: carries_def)
  have l: "length (ext_descs (exts ! i)) = length ds" using c(1) by (simp add: carries_def)
  have n: "unat n = length buf" using small_u32(2) [of "length buf"] buf by simp
  obtain t where t: "query_tag rv (exts ! i) (one_desc ident offset buf) 1 = Some t" "length t = 16"
    "valid_desc ident (ext_start (exts ! i) + offset) (t @ drop 16 buf)"
    using query_tag_valid [of "one_desc ident offset buf" buf rv "exts ! i" 1] buf i(2) by auto
  define b where "b = t @ drop 16 buf"
  have b: "length b = length buf" "drop 16 b = drop 16 buf" using t(2) buf(2) by (simp_all add: b_def)
  have w: "(one_desc ident offset (replicate (length buf) 0))\<lparr>desc_data :=
      [\<lparr>data_buffer = x, data_length = of_nat (length buf)\<rparr>]\<rparr> = one_desc ident offset x" if "length x = length buf" for x
    using that by (simp add: one_desc_def)
  have "put_copied mem rv i ident offset n buf exts
      = Some (exts[i := (exts ! i)\<lparr>ext_descs := ext_descs (exts ! i) @ [one_desc ident offset b]\<rparr>])"
    using t(1) b(1) by (simp add: put_copied_def set0 n l [symmetric] w b_def [symmetric])
  moreover have "carries ((exts ! i)\<lparr>ext_descs := ext_descs (exts ! i) @ [one_desc ident offset b]\<rparr>) (ds @ [(ident, drop 16 buf)])"
    using carries_snoc [OF c(1), of ident b "drop 16 buf"] t(3) b buf c(3) by (simp add: b_def)
  ultimately show ?thesis using i(1) by (auto intro!: only_at_update)
qed

text \<open>Two sequences with the same descriptors.\<close>

definition both_carry :: "udf_extent list \<Rightarrow> nat \<Rightarrow> nat \<Rightarrow> (u16 \<times> bytes) list \<Rightarrow> bool" where
  "both_carry exts m r ds \<longleftrightarrow> m < length exts \<and> r < length exts \<and> m \<noteq> r \<and> space_type (exts ! m) AND PSPACE = 0
     \<and> space_type (exts ! r) AND PSPACE = 0 \<and> carries (exts ! m) ds \<and> carries (exts ! r) ds"

lemma put_both_carries:
  assumes mem: "memory_ok mem" and c: "both_carry exts m r ds" "length ds < 2 ^ 16" "offset = of_nat (length ds)"
    and buf: "n = of_nat (length buf)" "16 \<le> length buf" "length buf \<le> 512"
  shows "\<exists>b exts'. put_both mem rv m (Some r) ident offset n buf exts = Some (b, exts') \<and> only_at {m, r} exts exts'
    \<and> drop 16 b = drop 16 buf \<and> length b = length buf \<and> both_carry exts' m r (ds @ [(ident, drop 16 buf)])"
proof -
  note c' = c(1) [unfolded both_carry_def]
  obtain b e1 where 1: "put_owned mem rv m ident offset n buf exts = Some (b, e1)" "only_at {m} exts e1"
    "drop 16 b = drop 16 buf" "length b = length buf" "carries (e1 ! m) (ds @ [(ident, drop 16 buf)])"
    using put_owned_carries [OF mem _ _ _ c(2,3) buf, of m exts rv ident] c' by blast
  have r: "r < length e1" "e1 ! r = exts ! r" using c' only_at_length [OF 1(2)] only_at_nth [OF 1(2), of r] by simp_all
  obtain e2 where 2: "put_copied mem rv r ident offset n b e1 = Some e2" "only_at {r} e1 e2"
    "carries (e2 ! r) (ds @ [(ident, drop 16 buf)])"
    using put_copied_carries [OF mem r(1) _ _ c(2,3), of n b rv ident] c' r(2) buf 1(3,4) by auto
  have o: "only_at {m, r} exts e2" using only_at_trans [OF 1(2) 2(2)] by (simp add: insert_commute)
  have "e2 ! m = e1 ! m" using only_at_nth [OF 2(2), of m] c' only_at_length [OF 1(2)] by simp
  moreover have "length e2 = length exts" by (rule only_at_length [OF o])
  ultimately show ?thesis
    using 1 2 o c' only_at_sel(1) [OF o] only_at_sel(1) [OF 1(2)] by (auto simp: put_both_def both_carry_def)
qed

lemma both_carry_only: "both_carry exts m r ds \<Longrightarrow> only_at I exts exts' \<Longrightarrow> m \<notin> I \<Longrightarrow> r \<notin> I \<Longrightarrow> both_carry exts' m r ds"
  by (simp add: both_carry_def only_at_length only_at_nth)

section \<open>The list of free extents\<close>

definition free_list :: "u32 \<Rightarrow> udf_extent list \<Rightarrow> bytes" where
  "free_list bs exts = concat (map (\<lambda>e. le32 (ext_blocks e * bs) @ le32 (ext_start e))
     (filter (\<lambda>e. space_type e AND USPACE \<noteq> 0) exts))"

definition free_count :: "udf_extent list \<Rightarrow> nat" where
  "free_count exts = length (filter (\<lambda>e. space_type e AND USPACE \<noteq> 0) exts)"

lemma length_free_list [simp]: "length (free_list bs exts) = 8 * free_count exts"
  by (induction exts) (auto simp: free_list_def free_count_def)

lemma next_extent_none:
  "next_extent exts (Some i) t = None \<Longrightarrow> filter (\<lambda>e. space_type e AND t \<noteq> 0) (drop i exts) = []"
proof (induction exts t i rule: next_extent_from.induct)
  case (1 exts t i)
  show ?case
  proof (cases "i < length exts")
    case True
    then have "drop i exts = exts ! i # drop (Suc i) exts" by (simp add: Cons_nth_drop_Suc)
    moreover have "space_type (exts ! i) AND t = 0" "next_extent exts (Some (Suc i)) t = None"
      using "1.prems" True
      by (simp_all add: next_extent_def next_extent_from.simps [of exts t i] split: if_splits)
    ultimately show ?thesis using "1.IH" True by simp
  qed simp
qed

lemma next_extent_some:
  "next_extent exts (Some i) t = Some j \<Longrightarrow> i \<le> j \<and> j < length exts \<and> space_type (exts ! j) AND t \<noteq> 0
    \<and> filter (\<lambda>e. space_type e AND t \<noteq> 0) (drop i exts) = exts ! j # filter (\<lambda>e. space_type e AND t \<noteq> 0) (drop (Suc j) exts)"
proof (induction exts t i rule: next_extent_from.induct)
  case (1 exts t i)
  have i: "i < length exts"
    using "1.prems" by (simp add: next_extent_def next_extent_from.simps [of exts t i] split: if_splits)
  then have d: "drop i exts = exts ! i # drop (Suc i) exts" by (simp add: Cons_nth_drop_Suc)
  show ?case
  proof (cases "space_type (exts ! i) AND t = 0")
    case True
    then have "next_extent exts (Some (Suc i)) t = Some j"
      using "1.prems" i by (simp add: next_extent_def next_extent_from.simps [of exts t i])
    then show ?thesis using "1.IH" [OF i True] d True by auto
  next
    case False
    then have "j = i" using "1.prems" i by (simp add: next_extent_def next_extent_from.simps [of exts t i])
    then show ?thesis using i d False by simp
  qed
qed

lemma next_ptr_extent: "next_extent exts (next_ptr exts i) t = next_extent exts (Some (Suc i)) t"
  by (simp add: next_ptr_def next_extent_def next_extent_from.simps)

lemma rd32_patch20:
  assumes "24 \<le> length b"
  shows "take 20 (patch 20 (le32 x) b) = take 20 b" "rd32 (drop 20 (patch 20 (le32 x) b)) = x"
    "drop 24 (patch 20 (le32 x) b) = drop 24 b" "length (patch 20 (le32 x) b) = length b"
    "rd32 (drop 20 (patch 20 (le32 x) b) @ ys) = x"
  using assms by (simp_all add: patch_def)

lemma usd_from_lists:
  assumes mem: "memory_ok mem"
  shows "length b = 24 + 8 * count \<Longrightarrow> n = of_nat (length b) \<Longrightarrow>
    \<exists>b'. usd_from mem bs exts (next_extent exts (Some i) USPACE) count (n, b) = Some (of_nat (length b'), b')
      \<and> take 20 b' = take 20 b \<and> rd32 (drop 20 b') = rd32 (drop 20 b) + of_nat (free_count (drop i exts))
      \<and> drop 24 b' = drop 24 b @ free_list bs (drop i exts) \<and> length b' = length b + 8 * free_count (drop i exts)"
proof (induction "length exts - i" arbitrary: i count n b rule: less_induct)
  case less
  show ?case
  proof (cases "next_extent exts (Some i) USPACE")
    case None
    then have "filter (\<lambda>e. space_type e AND USPACE \<noteq> 0) (drop i exts) = []" by (rule next_extent_none)
    then show ?thesis
      using None less.prems by (subst usd_from.simps) (simp add: free_count_def free_list_def)
  next
    case (Some j)
    note j = next_extent_some [OF Some]
    define b1 where "b1 = take (24 + 8 * count) (patch 20 (le32 (rd32 (drop 20 b) + 1)) b)
      @ le32 (ext_blocks (exts ! j) * bs) @ le32 (ext_start (exts ! j))"
    have l: "24 \<le> length b" using less.prems(1) by simp
    note p = rd32_patch20 [OF l]
    have b1: "length b1 = 24 + 8 * Suc count" "take 20 b1 = take 20 b" "rd32 (drop 20 b1) = rd32 (drop 20 b) + 1"
      "drop 24 b1 = drop 24 b @ le32 (ext_blocks (exts ! j) * bs) @ le32 (ext_start (exts ! j))"
      using less.prems(1) p by (simp_all add: b1_def)
    have step: "usd_from mem bs exts (Some j) count (n, b)
        = usd_from mem bs exts (next_extent exts (Some (Suc j)) USPACE) (Suc count) (n + 8, b1)"
      using j mem by (subst usd_from.simps) (simp add: memory_ok_def Let_def b1_def next_ptr_extent)
    have n1: "n + 8 = of_nat (length b1)" using less.prems b1(1) by simp
    have dec: "length exts - Suc j < length exts - i" using j by linarith
    from less.hyps [OF dec b1(1) n1] obtain b' where
      "usd_from mem bs exts (Some j) count (n, b) = Some (of_nat (length b'), b')"
      "take 20 b' = take 20 b1" "rd32 (drop 20 b') = rd32 (drop 20 b1) + of_nat (free_count (drop (Suc j) exts))"
      "drop 24 b' = drop 24 b1 @ free_list bs (drop (Suc j) exts)" "length b' = length b1 + 8 * free_count (drop (Suc j) exts)"
      unfolding step by blast
    then show ?thesis
      using Some j b1 less.prems(1) by (simp add: free_count_def free_list_def)
  qed
qed

lemma free_list_bare: "free_list bs (map bare exts) = free_list bs exts" "free_count (map bare exts) = free_count exts"
  by (induction exts) (simp_all add: free_list_def free_count_def bare_def)

lemma only_at_free:
  assumes "only_at I exts exts'"
  shows "free_list bs exts' = free_list bs exts" "free_count exts' = free_count exts"
  using assms free_list_bare(1) [of bs exts'] free_list_bare(1) [of bs exts]
    free_list_bare(2) [of exts'] free_list_bare(2) [of exts] by (simp_all add: only_at_def)

section \<open>The descriptor sequences\<close>

text \<open>Descriptors of the sizes mkudffs gives them, each within one block.\<close>

definition lvd_ok :: "bytes \<Rightarrow> bool" where
  "lvd_ok b \<longleftrightarrow> length b \<le> 512 \<and> length b = 440 + unat (rd32 (drop 264 b))"

definition vol_ok :: "udf_vol \<Rightarrow> bytes \<Rightarrow> bool" where
  "vol_ok v tables \<longleftrightarrow> length (vol_pvd v) = 512 \<and> length (vol_pd v) = 512 \<and> length (vol_iuvd v) = 512
     \<and> length (vol_td v) = 512 \<and> length (vol_usd v) = 24 \<and> lvd_ok (vol_lvd v)
     \<and> length (vol_lvid v) = 80 \<and> 80 + length tables + length (vol_lvid_use v) \<le> 512
     \<and> length tables + length (vol_lvid_use v) = unat (rd32 (drop 72 (vol_lvid v))) * 8 + unat (rd32 (drop 76 (vol_lvid v)))"

text \<open>The six descriptors of a sequence, with what \<open>setup_lvd\<close> and \<open>setup_pd\<close> fill in.\<close>

definition lvd_bytes :: "u32 \<Rightarrow> udf_extent \<Rightarrow> bytes \<Rightarrow> bytes" where
  "lvd_bytes bs e = patch 432 (le32 (ext_blocks e * bs) @ le32 (ext_start e))"

definition pd_bytes :: "udf_extent \<Rightarrow> bytes \<Rightarrow> bytes" where
  "pd_bytes e = patch 188 (le32 (ext_start e) @ le32 (ext_blocks e))"

definition vds_list :: "udf_vol \<Rightarrow> u32 \<Rightarrow> udf_extent \<Rightarrow> udf_extent \<Rightarrow> bytes \<Rightarrow> (u16 \<times> bytes) list" where
  "vds_list v bs lvid part usd = [(TAG_IDENT_PVD, drop 16 (vol_pvd v)), (TAG_IDENT_LVD, drop 16 (lvd_bytes bs lvid (vol_lvd v))),
     (TAG_IDENT_PD, drop 16 (pd_bytes part (vol_pd v))), (TAG_IDENT_USD, usd),
     (TAG_IDENT_IUVD, drop 16 (vol_iuvd v)), (TAG_IDENT_TD, drop 16 (vol_td v))]"

lemma length_lvd_bytes: "440 \<le> length b \<Longrightarrow> length (lvd_bytes bs e b) = length b"
  by (simp add: lvd_bytes_def)

lemma length_pd_bytes: "length b = 512 \<Longrightarrow> length (pd_bytes e b) = 512"
  by (simp add: pd_bytes_def)

lemma setup_lvid_carries:
  assumes mem: "memory_ok mem" and l: "l < length exts" "space_type (exts ! l) AND PSPACE = 0" "ext_descs (exts ! l) = []"
    and v: "vol_ok v (lvid_tables disc)" and f: "\<not> flagged disc FLAG_VAT" "\<not> flagged disc FLAG_BLANK_TERMINAL"
    and two: "ext_blocks (exts ! l) > 1"
  shows "\<exists>h exts'. setup_lvid mem disc l (v, exts) = Some (v\<lparr>vol_lvid := h\<rparr>, exts') \<and> only_at {l} exts exts'
    \<and> carries (exts' ! l) [(TAG_IDENT_LVID, drop 16 (vol_lvid v @ lvid_tables disc @ vol_lvid_use v)),
        (TAG_IDENT_TD, replicate 496 0)]"
proof -
  define buf where "buf = vol_lvid v @ lvid_tables disc @ vol_lvid_use v"
  define k m where "k = unat (rd32 (drop 72 (vol_lvid v)))" and "m = unat (rd32 (drop 76 (vol_lvid v)))"
  have len: "length buf = 80 + k * 8 + m" "length buf \<le> 512" "16 \<le> length buf"
    using v by (simp_all add: vol_ok_def buf_def k_def m_def)
  have "rd32 (drop 72 (vol_lvid v)) = of_nat k" "rd32 (drop 76 (vol_lvid v)) = of_nat m" by (simp_all add: k_def m_def)
  then have n: "80 + rd32 (drop 72 (vol_lvid v)) * 4 * 2 + rd32 (drop 76 (vol_lvid v)) = of_nat (length buf)"
    by (simp add: len(1))
  obtain b e1 where 1: "put_owned mem (udf_rev disc) l TAG_IDENT_LVID 0 (of_nat (length buf)) buf exts = Some (b, e1)"
    "only_at {l} exts e1" "carries (e1 ! l) [(TAG_IDENT_LVID, drop 16 buf)]"
    using put_owned_carries [OF mem l(1,2) carries_Nil [OF l(3)], where rv = "udf_rev disc" and ident = TAG_IDENT_LVID
        and buf = buf and offset = 0 and n = "of_nat (length buf)"] len(2,3) by auto
  have s: "l < length e1" "space_type (e1 ! l) AND PSPACE = 0" "ext_blocks (e1 ! l) > 1"
    using l two only_at_sel [OF 1(2) l(1)] only_at_length [OF 1(2)] by simp_all
  obtain e2 where 2: "put_copied mem (udf_rev disc) l TAG_IDENT_TD 1 512 (replicate 512 0) e1 = Some e2"
    "only_at {l} e1 e2" "carries (e2 ! l) [(TAG_IDENT_LVID, drop 16 buf), (TAG_IDENT_TD, replicate 496 0)]"
    using put_copied_carries [OF mem s(1,2) 1(3), of 1 512 "replicate 512 0" "udf_rev disc" TAG_IDENT_TD] by auto
  have "setup_lvid mem disc l (v, exts) = Some (v\<lparr>vol_lvid := take 80 b\<rparr>, e2)"
    using 1(1) 2(1) s(3) f by (simp add: setup_lvid_def Let_def n [simplified] buf_def [symmetric])
  then show ?thesis using only_at_trans [OF 1(2) 2(2)] 2(3) by (auto simp: buf_def)
qed

text \<open>The steps of a sequence: each puts its descriptor behind those that are there.\<close>

lemma put_both_done:
  assumes "memory_ok mem" "both_carry exts m r ds" "length ds < 2 ^ 16" "offset = of_nat (length ds)"
    and "n = of_nat (length buf)" "16 \<le> length buf" "length buf \<le> 512"
  shows "\<exists>b exts'. put_both mem rv m (Some r) ident offset n buf exts = Some (b, exts') \<and> length b = length buf
    \<and> only_at {m, r} exts exts' \<and> both_carry exts' m r (ds @ [(ident, drop 16 buf)])"
  using put_both_carries [OF assms] by blast

lemma map_done:
  "\<exists>b exts'. res = Some (b, exts') \<and> P b exts'
    \<Longrightarrow> \<exists>b exts'. map_option (\<lambda>(b, exts). (f b, exts)) res = Some (f b, exts') \<and> P b exts'"
  by auto

lemma setup_512_done:
  assumes "memory_ok mem" "both_carry exts m r ds" "length ds < 2 ^ 16" "offset = of_nat (length ds)"
  shows "length (vol_pvd v) = 512 \<Longrightarrow> \<exists>b exts'. setup_pvd mem disc m (Some r) offset (v, exts) = Some (v\<lparr>vol_pvd := b\<rparr>, exts')
      \<and> length b = 512 \<and> only_at {m, r} exts exts' \<and> both_carry exts' m r (ds @ [(TAG_IDENT_PVD, drop 16 (vol_pvd v))])"
    "length (vol_iuvd v) = 512 \<Longrightarrow> \<exists>b exts'. setup_iuvd mem disc m (Some r) offset (v, exts) = Some (v\<lparr>vol_iuvd := b\<rparr>, exts')
      \<and> length b = 512 \<and> only_at {m, r} exts exts' \<and> both_carry exts' m r (ds @ [(TAG_IDENT_IUVD, drop 16 (vol_iuvd v))])"
    "length (vol_td v) = 512 \<Longrightarrow> \<exists>b exts'. setup_td mem disc m (Some r) offset (v, exts) = Some (v\<lparr>vol_td := b\<rparr>, exts')
      \<and> length b = 512 \<and> only_at {m, r} exts exts' \<and> both_carry exts' m r (ds @ [(TAG_IDENT_TD, drop 16 (vol_td v))])"
    "length (vol_pd v) = 512 \<Longrightarrow> next_extent exts (Some 0) PSPACE = Some p \<Longrightarrow>
      \<exists>b exts'. setup_pd mem disc m (Some r) offset (v, exts) = Some (v\<lparr>vol_pd := b\<rparr>, exts')
      \<and> length b = 512 \<and> only_at {m, r} exts exts' \<and> both_carry exts' m r (ds @ [(TAG_IDENT_PD, drop 16 (pd_bytes (exts ! p) (vol_pd v)))])"
  using map_done [OF put_both_done [OF assms, of 512 "vol_pvd v" "udf_rev disc" TAG_IDENT_PVD], of "\<lambda>b. v\<lparr>vol_pvd := b\<rparr>"]
  apply (simp add: setup_pvd_def)
  using map_done [OF put_both_done [OF assms, of 512 "vol_iuvd v" "udf_rev disc" TAG_IDENT_IUVD], of "\<lambda>b. v\<lparr>vol_iuvd := b\<rparr>"]
  apply (simp add: setup_iuvd_def)
  using map_done [OF put_both_done [OF assms, of 512 "vol_td v" "udf_rev disc" TAG_IDENT_TD], of "\<lambda>b. v\<lparr>vol_td := b\<rparr>"]
  apply (simp add: setup_td_def)
  using map_done [OF put_both_done [OF assms, of 512 "pd_bytes (exts ! p) (vol_pd v)" "udf_rev disc" TAG_IDENT_PD],
      of "\<lambda>b. v\<lparr>vol_pd := b\<rparr>"]
  apply (simp add: setup_pd_def length_pd_bytes pd_bytes_def [symmetric])
  done

lemma setup_lvd_done:
  assumes "memory_ok mem" "both_carry exts m r ds" "length ds < 2 ^ 16" "offset = of_nat (length ds)"
    and ok: "lvd_ok (vol_lvd v)"
  shows "\<exists>b exts'. setup_lvd mem disc m (Some r) lvid offset (v, exts) = Some (v\<lparr>vol_lvd := b\<rparr>, exts')
      \<and> only_at {m, r} exts exts'
      \<and> both_carry exts' m r (ds @ [(TAG_IDENT_LVD, drop 16 (lvd_bytes (blocksize disc) (exts ! lvid) (vol_lvd v)))])"
proof -
  note l = ok [unfolded lvd_ok_def, THEN conjunct1] ok [unfolded lvd_ok_def, THEN conjunct2]
  have n: "440 + rd32 (drop 264 (vol_lvd v)) = of_nat (length (vol_lvd v))"
    using arg_cong [OF l(2), of "of_nat :: nat \<Rightarrow> u32"] by simp
  have k: "440 \<le> length (vol_lvd v)" using l(2) by linarith
  have "setup_lvd mem disc m (Some r) lvid offset (v, exts) = map_option (\<lambda>(b, exts). (v\<lparr>vol_lvd := b\<rparr>, exts))
      (put_both mem (udf_rev disc) m (Some r) TAG_IDENT_LVD offset (of_nat (length (vol_lvd v)))
        (lvd_bytes (blocksize disc) (exts ! lvid) (vol_lvd v)) exts)"
    by (simp only: setup_lvd_def Let_def n lvd_bytes_def split_conv)
  moreover have "length (lvd_bytes (blocksize disc) (exts ! lvid) (vol_lvd v)) = length (vol_lvd v)"
    using k by (rule length_lvd_bytes)
  ultimately show ?thesis
    using map_done [OF put_both_done [OF assms(1-4), of "of_nat (length (vol_lvd v))" "lvd_bytes (blocksize disc) (exts ! lvid) (vol_lvd v)"
        "udf_rev disc" TAG_IDENT_LVD], of "\<lambda>b. v\<lparr>vol_lvd := b\<rparr>"] l(1) k by auto
qed

lemma setup_usd_done:
  assumes "memory_ok mem" "both_carry exts m r ds" "length ds < 2 ^ 16" "offset = of_nat (length ds)"
    and l: "length (vol_usd v) = 24" "24 + 8 * free_count exts \<le> 512"
  shows "\<exists>b exts' usd. setup_usd mem disc m (Some r) offset (v, exts) = Some (v\<lparr>vol_usd := b\<rparr>, exts')
      \<and> only_at {m, r} exts exts' \<and> both_carry exts' m r (ds @ [(TAG_IDENT_USD, usd)])
      \<and> rd32 (drop 4 usd) = rd32 (drop 20 (vol_usd v)) + of_nat (free_count exts)
      \<and> drop 8 usd = free_list (blocksize disc) exts"
proof -
  obtain ub where u: "usd_from mem (blocksize disc) exts (next_extent exts (Some 0) USPACE) 0 (24, vol_usd v) = Some (of_nat (length ub), ub)"
    "rd32 (drop 20 ub) = rd32 (drop 20 (vol_usd v)) + of_nat (free_count exts)"
    "drop 24 ub = free_list (blocksize disc) exts" "length ub = 24 + 8 * free_count exts"
    using usd_from_lists [OF assms(1), of "vol_usd v" 0 24 "blocksize disc" exts 0] l by auto
  obtain b exts' where "put_both mem (udf_rev disc) m (Some r) TAG_IDENT_USD offset (of_nat (length ub)) ub exts = Some (b, exts')"
    "only_at {m, r} exts exts'" "both_carry exts' m r (ds @ [(TAG_IDENT_USD, drop 16 ub)])"
    using put_both_done [OF assms(1-4), of "of_nat (length ub)" ub "udf_rev disc" TAG_IDENT_USD] u(4) l(2) by auto
  then show ?thesis
    using u(1-3) by (intro exI [of _ b] exI [of _ exts'] exI [of _ "drop 16 ub"]) (simp add: setup_usd_def)
qed

lemma vol_okD:
  assumes "vol_ok v t"
  shows "length (vol_pvd v) = 512" "length (vol_pd v) = 512" "length (vol_iuvd v) = 512" "length (vol_td v) = 512"
    "length (vol_usd v) = 24" "lvd_ok (vol_lvd v)" "length b = 512 \<Longrightarrow> vol_ok (v\<lparr>vol_pvd := b\<rparr>) t"
  using assms by (simp_all add: vol_ok_def)

lemma bind_chain:
  "(a \<bind> b \<bind> c \<bind> d) = Some x
    \<Longrightarrow> a \<bind> (\<lambda>y. b y \<bind> (\<lambda>z. c z \<bind> (\<lambda>w. d w \<bind> g))) = g x"
  by (auto simp: bind_eq_Some_conv)

lemma vds_tail:
  assumes mem: "memory_ok mem" and c: "both_carry e m r ds" "length ds = 2"
    and v: "length (vol_pd v) = 512" "length (vol_usd v) = 24" "length (vol_iuvd v) = 512" "length (vol_td v) = 512"
    and p: "next_extent e (Some 0) PSPACE = Some p" and free: "24 + 8 * free_count e \<le> 512"
  shows "\<exists>v' e' usd. (setup_pd mem disc m (Some r) 2 (v, e) \<bind> setup_usd mem disc m (Some r) 3
      \<bind> setup_iuvd mem disc m (Some r) 4 \<bind> setup_td mem disc m (Some r) 5) = Some (v', e')
    \<and> only_at {m, r} e e' \<and> both_carry e' m r (ds @ [(TAG_IDENT_PD, drop 16 (pd_bytes (e ! p) (vol_pd v))),
        (TAG_IDENT_USD, usd), (TAG_IDENT_IUVD, drop 16 (vol_iuvd v)), (TAG_IDENT_TD, drop 16 (vol_td v))])
    \<and> rd32 (drop 4 usd) = rd32 (drop 20 (vol_usd v)) + of_nat (free_count e)
    \<and> drop 8 usd = free_list (blocksize disc) e"
proof -
  obtain b4 e4 where 4: "setup_pd mem disc m (Some r) 2 (v, e) = Some (v\<lparr>vol_pd := b4\<rparr>, e4)" "only_at {m, r} e e4"
    "both_carry e4 m r (ds @ [(TAG_IDENT_PD, drop 16 (pd_bytes (e ! p) (vol_pd v)))])"
    using setup_512_done(4) [OF mem c(1) _ _ v(1) p, of 2 disc] c(2) by auto
  note fl = only_at_free [OF 4(2)]
  obtain b5 e5 usd where 5: "setup_usd mem disc m (Some r) 3 (v\<lparr>vol_pd := b4\<rparr>, e4)
      = Some (v\<lparr>vol_pd := b4, vol_usd := b5\<rparr>, e5)" "only_at {m, r} e4 e5"
    "both_carry e5 m r ((ds @ [(TAG_IDENT_PD, drop 16 (pd_bytes (e ! p) (vol_pd v)))]) @ [(TAG_IDENT_USD, usd)])"
    "rd32 (drop 4 usd) = rd32 (drop 20 (vol_usd v)) + of_nat (free_count e)" "drop 8 usd = free_list (blocksize disc) e"
    using setup_usd_done [OF mem 4(3), of 3 "v\<lparr>vol_pd := b4\<rparr>" disc] c(2) v(2) free by (auto simp: fl)
  obtain b6 e6 where 6: "setup_iuvd mem disc m (Some r) 4 (v\<lparr>vol_pd := b4, vol_usd := b5\<rparr>, e5)
      = Some (v\<lparr>vol_pd := b4, vol_usd := b5, vol_iuvd := b6\<rparr>, e6)" "only_at {m, r} e5 e6"
    "both_carry e6 m r (((ds @ [(TAG_IDENT_PD, drop 16 (pd_bytes (e ! p) (vol_pd v)))]) @ [(TAG_IDENT_USD, usd)])
      @ [(TAG_IDENT_IUVD, drop 16 (vol_iuvd v))])"
    using setup_512_done(2) [OF mem 5(3), of 4 "v\<lparr>vol_pd := b4, vol_usd := b5\<rparr>" disc] c(2) v(3) by auto
  obtain b7 e7 where 7: "setup_td mem disc m (Some r) 5 (v\<lparr>vol_pd := b4, vol_usd := b5, vol_iuvd := b6\<rparr>, e6)
      = Some (v\<lparr>vol_pd := b4, vol_usd := b5, vol_iuvd := b6, vol_td := b7\<rparr>, e7)" "only_at {m, r} e6 e7"
    "both_carry e7 m r (ds @ [(TAG_IDENT_PD, drop 16 (pd_bytes (e ! p) (vol_pd v))),
        (TAG_IDENT_USD, usd), (TAG_IDENT_IUVD, drop 16 (vol_iuvd v)), (TAG_IDENT_TD, drop 16 (vol_td v))])"
    using setup_512_done(3) [OF mem 6(3), of 5 "v\<lparr>vol_pd := b4, vol_usd := b5, vol_iuvd := b6\<rparr>" disc] c(2) v(4) by auto
  have "only_at {m, r} e e7"
    using only_at_trans [OF only_at_trans [OF only_at_trans [OF 4(2) 5(2)] 6(2)] 7(2)] by simp
  then show ?thesis using 4(1) 5(1,4,5) 6(1) 7(1,3) by auto
qed

lemma setup_vds_carries:
  assumes mem: "memory_ok mem" and v: "vol_ok v (lvid_tables disc)"
    and f: "\<not> flagged disc FLAG_VAT" "\<not> flagged disc FLAG_BLANK_TERMINAL"
    and e0: "extents disc = e0"
    and at: "next_extent e0 (Some 0) MVDS = Some m" "next_extent e0 (Some 0) RVDS = Some r"
      "next_extent e0 (Some 0) LVID = Some l" "next_extent e0 (Some 0) PSPACE = Some p" "next_extent e0 (Some 0) SSPACE = None"
    and fresh: "m \<noteq> r" "l \<noteq> m" "l \<noteq> r" "\<And>i. i \<in> {m, r, l} \<Longrightarrow> ext_descs (e0 ! i) = [] \<and> space_type (e0 ! i) AND PSPACE = 0"
    and two: "ext_blocks (e0 ! l) > 1" and free: "24 + 8 * free_count e0 \<le> 512"
  shows "\<exists>v' exts usd. setup_vds mem v disc = Some (v', disc\<lparr>extents := exts\<rparr>) \<and> only_at {m, r, l} e0 exts
    \<and> both_carry exts m r (vds_list v (blocksize disc) (e0 ! l) (e0 ! p) usd)
    \<and> carries (exts ! l) [(TAG_IDENT_LVID, drop 16 (vol_lvid v @ lvid_tables disc @ vol_lvid_use v)),
        (TAG_IDENT_TD, replicate 496 0)]
    \<and> rd32 (drop 4 usd) = rd32 (drop 20 (vol_usd v)) + of_nat (free_count e0) \<and> drop 8 usd = free_list (blocksize disc) e0"
proof -
  note vd = vol_okD [OF v]
  have i: "m < length e0" "r < length e0" "l < length e0" "p < length e0"
    using at(1-4) [THEN next_extent_some] by simp_all
  have b0: "both_carry e0 m r []" using i fresh by (simp add: both_carry_def carries_Nil)
  obtain b1 e1 where 1: "setup_pvd mem disc m (Some r) 0 (v, e0) = Some (v\<lparr>vol_pvd := b1\<rparr>, e1)" "length b1 = 512"
    "only_at {m, r} e0 e1" "both_carry e1 m r ([] @ [(TAG_IDENT_PVD, drop 16 (vol_pvd v))])"
    using setup_512_done(1) [OF mem b0 _ _ vd(1), of 0 disc] by auto
  have l1: "l < length e1" "e1 ! l = e0 ! l"
    using i only_at_length [OF 1(3)] only_at_nth [OF 1(3) i(3)] fresh by simp_all
  have "space_type (e1 ! l) AND PSPACE = 0" "ext_descs (e1 ! l) = []" "ext_blocks (e1 ! l) > 1"
    using l1 fresh(4) [of l] two by simp_all
  from setup_lvid_carries [OF mem l1(1) this(1,2) vd(7) [OF 1(2)] f this(3)] obtain h e2 where
    2: "setup_lvid mem disc l (v\<lparr>vol_pvd := b1\<rparr>, e1) = Some (v\<lparr>vol_pvd := b1, vol_lvid := h\<rparr>, e2)" "only_at {l} e1 e2"
      "carries (e2 ! l) [(TAG_IDENT_LVID, drop 16 (vol_lvid v @ lvid_tables disc @ vol_lvid_use v)), (TAG_IDENT_TD, replicate 496 0)]"
    by auto
  have b2: "both_carry e2 m r ([] @ [(TAG_IDENT_PVD, drop 16 (vol_pvd v))])"
    using both_carry_only [OF 1(4) 2(2)] fresh by simp
  have o2: "only_at {m, r, l} e0 e2" using only_at_trans [OF 1(3) 2(2)] by (simp add: insert_commute)
  obtain b3 e3 where 3: "setup_lvd mem disc m (Some r) l 1 (v\<lparr>vol_pvd := b1, vol_lvid := h\<rparr>, e2)
      = Some (v\<lparr>vol_pvd := b1, vol_lvid := h, vol_lvd := b3\<rparr>, e3)" "only_at {m, r} e2 e3"
    "both_carry e3 m r (([] @ [(TAG_IDENT_PVD, drop 16 (vol_pvd v))])
      @ [(TAG_IDENT_LVD, drop 16 (lvd_bytes (blocksize disc) (e2 ! l) (vol_lvd v)))])"
    using setup_lvd_done [OF mem b2, of 1 "v\<lparr>vol_pvd := b1, vol_lvid := h\<rparr>" disc l] vd(6) by auto
  have o3: "only_at {m, r, l} e0 e3" using only_at_trans [OF o2 3(2)] by (simp add: insert_commute)
  define w where "w = v\<lparr>vol_pvd := b1, vol_lvid := h, vol_lvd := b3\<rparr>"
  have w: "vol_pd w = vol_pd v" "vol_usd w = vol_usd v" "vol_iuvd w = vol_iuvd v" "vol_td w = vol_td v" by (simp_all add: w_def)
  define ds where "ds = ([] @ [(TAG_IDENT_PVD, drop 16 (vol_pvd v))])
      @ [(TAG_IDENT_LVD, drop 16 (lvd_bytes (blocksize disc) (e2 ! l) (vol_lvd v)))]"
  have ds: "both_carry e3 m r ds" "length ds = 2" using 3(3) by (simp_all add: ds_def)
  have p3: "next_extent e3 (Some 0) PSPACE = Some p" using at(4) only_at_next [OF o3] by simp
  have f3: "24 + 8 * free_count e3 \<le> 512" using free only_at_free(2) [OF o3] by simp
  obtain w' e7 usd where 4: "(setup_pd mem disc m (Some r) 2 (w, e3) \<bind> setup_usd mem disc m (Some r) 3
      \<bind> setup_iuvd mem disc m (Some r) 4 \<bind> setup_td mem disc m (Some r) 5) = Some (w', e7)" "only_at {m, r} e3 e7"
    "both_carry e7 m r (ds @ [(TAG_IDENT_PD, drop 16 (pd_bytes (e3 ! p) (vol_pd v))), (TAG_IDENT_USD, usd),
      (TAG_IDENT_IUVD, drop 16 (vol_iuvd v)), (TAG_IDENT_TD, drop 16 (vol_td v))])"
    "rd32 (drop 4 usd) = rd32 (drop 20 (vol_usd v)) + of_nat (free_count e3)" "drop 8 usd = free_list (blocksize disc) e3"
    using vds_tail [OF mem ds _ _ _ _ p3 f3, of w disc] vd unfolding w by blast
  have o27: "only_at {m, r} e2 e7" using only_at_trans [OF 3(2) 4(2)] by simp
  have o7: "only_at {m, r, l} e0 e7" using only_at_trans [OF o2 o27] by (simp add: insert_commute)
  have l7: "e7 ! l = e2 ! l" using only_at_nth [OF o27, of l] fresh i only_at_length [OF o2] by simp
  have "setup_vds mem v disc = Some (w', disc\<lparr>extents := e7\<rparr>)"
    using 1(1) 2(1) 3(1) at bind_chain [OF 4(1), of "\<lambda>(v, exts). Some (v, disc\<lparr>extents := exts\<rparr>)"]
    by (simp add: setup_vds_def Let_def e0 w_def)
  moreover have "ds @ [(TAG_IDENT_PD, drop 16 (pd_bytes (e3 ! p) (vol_pd v))), (TAG_IDENT_USD, usd),
      (TAG_IDENT_IUVD, drop 16 (vol_iuvd v)), (TAG_IDENT_TD, drop 16 (vol_td v))]
      = vds_list v (blocksize disc) (e0 ! l) (e0 ! p) usd"
    using only_at_sel [OF o2 i(3)] only_at_sel [OF o3 i(4)] by (simp add: ds_def vds_list_def lvd_bytes_def pd_bytes_def)
  ultimately show ?thesis
    using 4(3,4,5) 2(3) l7 o7 only_at_free [OF o3] by (intro exI [of _ w'] exI [of _ e7] exI [of _ usd]) simp
qed

end
