(* ===== verification/UdfRecog.thy ===== *)
theory UdfRecog
  imports UdfSequences
begin

text \<open>
  What a reader of UDF finds on a stick mkudffs has formatted: the recognition sequence, the anchors and
  both volume descriptor sequences, every descriptor with a tag that checks.
\<close>

section \<open>Recognition sequence and anchors in the plan\<close>

definition vrs_descs :: "u16 \<Rightarrow> udf_desc list" where
  "vrs_descs rv = [one_desc 0 0 (volStructDesc ''BEA01''),
     one_desc 0 4 (volStructDesc (if rv \<ge> 0x0200 then ''NSR03'' else ''NSR02'')),
     one_desc 0 8 (volStructDesc ''TEA01'')]"

lemma length_volStructDesc [simp]: "length (volStructDesc s) = 2043 + length s"
  by (simp add: volStructDesc_def)

lemma setup_vrs_plan:
  assumes mem: "memory_ok mem" and i: "next_extent (extents disc) (Some 0) VRS = Some i"
    "ext_descs (extents disc ! i) = []" and bs: "blocksize disc = 512"
  shows "setup_vrs mem disc = Some (disc\<lparr>extents := (extents disc)[i := (extents disc ! i)\<lparr>ext_descs := vrs_descs (udf_rev disc)\<rparr>]\<rparr>)"
proof -
  have l: "i < length (extents disc)" using next_extent_some [OF i(1)] by simp
  have m: "mem e 0" for e using mem by (simp add: memory_ok_def)
  have u: "vrs_offset 512 1 = 4" "vrs_offset 512 2 = 8" by (simp_all add: vrs_offset_def)
  show ?thesis
    using l by (simp add: setup_vrs_def i m set_ext_desc_end bs u vrs_descs_def)
qed

lemma next_extent_skips:
  "next_extent exts (Some i) t = Some k \<Longrightarrow> i \<le> j \<Longrightarrow> j < k \<Longrightarrow> space_type (exts ! j) AND t = 0"
proof (induction exts t i rule: next_extent_from.induct)
  case (1 exts t i)
  then have i: "i < length exts" "space_type (exts ! i) AND t = 0"
    by (auto simp: next_extent_def next_extent_from.simps [of exts t i] split: if_splits)
  then have "next_extent exts (Some (Suc i)) t = Some k"
    using "1.prems"(1) by (simp add: next_extent_def next_extent_from.simps [of exts t i])
  then show ?case using 1 i by (cases "j = i") simp_all
qed

lemma set_anchors_from_each:
  "\<forall>j < length exts. i \<le> j \<and> space_type (exts ! j) AND ANCHOR \<noteq> 0
      \<longrightarrow> (\<exists>e. f (exts ! j) = Some e \<and> bare e = bare (exts ! j)) \<Longrightarrow> memory_ok mem
    \<Longrightarrow> \<exists>exts'. set_anchors_from mem f (next_extent exts (Some i) ANCHOR) exts = Some exts' \<and> map bare exts' = map bare exts
      \<and> (\<forall>j < length exts. if i \<le> j \<and> space_type (exts ! j) AND ANCHOR \<noteq> 0 then f (exts ! j) = Some (exts' ! j)
          else exts' ! j = exts ! j)"
proof (induction "length exts - i" arbitrary: i exts rule: less_induct)
  case less
  show ?case
  proof (cases "next_extent exts (Some i) ANCHOR")
    case None
    have "space_type (exts ! j) AND ANCHOR = 0" if "i \<le> j" "j < length exts" for j
    proof (rule ccontr)
      assume "space_type (exts ! j) AND ANCHOR \<noteq> 0"
      moreover have "exts ! j \<in> set (drop i exts)"
        using that nth_mem [of "j - i" "drop i exts"] by simp
      ultimately show False using next_extent_none [OF None] by (simp add: filter_empty_conv)
    qed
    then show ?thesis using None by (subst set_anchors_from.simps) auto
  next
    case (Some k)
    note k = next_extent_some [OF Some] next_extent_skips [OF Some]
    obtain e where e: "f (exts ! k) = Some e" "bare e = bare (exts ! k)" using less.prems(1) k(1) by blast
    define es where "es = exts[k := e]"
    have step: "set_anchors_from mem f (Some k) exts = set_anchors_from mem f (next_extent es (Some (Suc k)) ANCHOR) es"
      using k less.prems(2) e(1) by (subst set_anchors_from.simps) (simp add: memory_ok_def es_def next_ptr_extent)
    have es: "length es = length exts" "map bare es = map bare exts" "es ! k = e" "\<And>j. j \<noteq> k \<Longrightarrow> es ! j = exts ! j"
      using e(2) k(1) by (auto simp: es_def nth_list_update intro!: nth_equalityI)
    have "\<forall>j < length es. Suc k \<le> j \<and> space_type (es ! j) AND ANCHOR \<noteq> 0
        \<longrightarrow> (\<exists>e. f (es ! j) = Some e \<and> bare e = bare (es ! j))"
      using less.prems(1) k(1) es by auto
    from less.hyps [OF _ this less.prems(2)] k(1) obtain exts' where r:
      "set_anchors_from mem f (next_extent es (Some (Suc k)) ANCHOR) es = Some exts'" "map bare exts' = map bare es"
      "\<forall>j < length es. if Suc k \<le> j \<and> space_type (es ! j) AND ANCHOR \<noteq> 0 then f (es ! j) = Some (exts' ! j) else exts' ! j = es ! j"
      using es(1) by (auto simp: diff_less_mono2)
    have "if i \<le> j \<and> space_type (exts ! j) AND ANCHOR \<noteq> 0 then f (exts ! j) = Some (exts' ! j) else exts' ! j = exts ! j"
      if j: "j < length exts" for j
    proof -
      show ?thesis using k(2) [of j] r(3) [rule_format, of j] j es(1,3) es(4) [of j] e(1) k(1)
        by (cases j k rule: linorder_cases) (auto split: if_splits)
    qed
    then show ?thesis using r(1,2) es(2) by (simp add: Some step)
  qed
qed

definition anchor_body :: "u32 \<Rightarrow> u32 \<Rightarrow> u32 \<Rightarrow> u32 \<Rightarrow> bytes" where
  "anchor_body mlen mloc rlen rloc = le32 mlen @ le32 mloc @ le32 rlen @ le32 rloc @ replicate 480 0"

lemma set_anchor_carries:
  assumes "space_type ext AND PSPACE = 0"
  shows "\<exists>e. set_anchor rv mlen mloc rlen rloc ext = Some e \<and> bare e = bare ext
    \<and> carries e [(TAG_IDENT_AVDP, anchor_body mlen mloc rlen rloc)]"
proof -
  define b where "b = (\<lambda>t. anchorVolDescPtr t mlen mloc rlen rloc)"
  have b: "length (b t) = length t + 496" "length t = 16 \<Longrightarrow> drop 16 (b t) = anchor_body mlen mloc rlen rloc" 
    "length t = 16 \<Longrightarrow> t @ anchor_body mlen mloc rlen rloc = b t" for t
    by (simp_all add: b_def anchorVolDescPtr_def anchor_body_def)
  obtain t where t: "query_tag rv ext (one_desc TAG_IDENT_AVDP 0 (b (replicate 16 0))) 1 = Some t" "length t = 16"
    "valid_desc TAG_IDENT_AVDP (ext_start ext) (t @ drop 16 (b (replicate 16 0)))"
    using query_tag_valid [of "one_desc TAG_IDENT_AVDP 0 (b (replicate 16 0))" "b (replicate 16 0)" rv ext 1] assms b(1)
    by auto
  have v: "valid_desc TAG_IDENT_AVDP (ext_start ext) (b t)" using t(2,3) b by simp
  have "set_anchor rv mlen mloc rlen rloc ext = Some (ext\<lparr>ext_descs := [one_desc TAG_IDENT_AVDP 0 (b t)]\<rparr>)"
    using t(1,2) b(1) by (simp add: set_anchor_def Let_def b_def one_desc_def)
  moreover have "carries (ext\<lparr>ext_descs := [one_desc TAG_IDENT_AVDP 0 (b t)]\<rparr>) [(TAG_IDENT_AVDP, anchor_body mlen mloc rlen rloc)]"
    using v t(2) b by (auto simp: carries_def intro!: exI [of _ "b t"])
  ultimately show ?thesis by (simp add: bare_def)
qed

lemma setup_anchor_plan:
  assumes mem: "memory_ok mem" and e0: "extents disc = e0"
    and at: "next_extent e0 (Some 0) MVDS = Some m" "next_extent e0 (Some 0) RVDS = Some r" "next_extent e0 (Some 0) ANCHOR = Some a"
    and big: "disc_blocks disc - start_block disc > 257"
    and t: "\<forall>e \<in> set e0. space_type e AND ANCHOR \<noteq> 0 \<longrightarrow> space_type e AND PSPACE = 0"
    and body: "body = anchor_body (ext_blocks (e0 ! m) * blocksize disc) (ext_start (e0 ! m))
      (ext_blocks (e0 ! r) * blocksize disc) (ext_start (e0 ! r))"
  shows "\<exists>exts. setup_anchor mem disc = Some (disc\<lparr>extents := exts\<rparr>) \<and> map bare exts = map bare e0
    \<and> (\<forall>j < length e0. if space_type (e0 ! j) AND ANCHOR \<noteq> 0 then carries (exts ! j) [(TAG_IDENT_AVDP, body)]
        else exts ! j = e0 ! j)"
proof -
  define f where "f = set_anchor (udf_rev disc) (ext_blocks (e0 ! m) * blocksize disc) (ext_start (e0 ! m))
      (ext_blocks (e0 ! r) * blocksize disc) (ext_start (e0 ! r))"
  have f: "\<exists>e. f (e0 ! j) = Some e \<and> bare e = bare (e0 ! j) \<and> carries e [(TAG_IDENT_AVDP, body)]"
    if "j < length e0" "space_type (e0 ! j) AND ANCHOR \<noteq> 0" for j
    using t that set_anchor_carries unfolding f_def body by (metis nth_mem)
  obtain exts where x: "set_anchors_from mem f (next_extent e0 (Some 0) ANCHOR) e0 = Some exts" "map bare exts = map bare e0"
    "\<forall>j < length e0. if 0 \<le> j \<and> space_type (e0 ! j) AND ANCHOR \<noteq> 0 then f (e0 ! j) = Some (exts ! j) else exts ! j = e0 ! j"
    using set_anchors_from_each [OF _ mem, of e0 0 f] f by blast
  have "setup_anchor mem disc = Some (disc\<lparr>extents := exts\<rparr>)"
    using x(1) big at by (simp add: setup_anchor_def Let_def e0 f_def)
  moreover have "carries (exts ! j) [(TAG_IDENT_AVDP, body)]" if "j < length e0" "space_type (e0 ! j) AND ANCHOR \<noteq> 0" for j
    using f [OF that] x(3) that by force
  ultimately show ?thesis using x(2,3) by auto
qed

section \<open>Reading\<close>

text \<open>A tagged descriptor at a block of the medium, with these bytes behind its tag.\<close>

definition finds_desc :: "medium \<Rightarrow> nat \<Rightarrow> nat \<Rightarrow> u16 \<Rightarrow> bytes \<Rightarrow> bool" where
  "finds_desc m base b ident body \<longleftrightarrow> (let blk = mread m (block_at base b) 512
     in valid_desc ident (of_nat b) blk \<and> take (length body) (drop 16 blk) = body)"

lemma valid_desc_append:
  assumes "valid_desc ident loc b" "16 \<le> length b"
  shows "valid_desc ident loc (b @ zs)"
proof -
  have "rd16 (b @ zs) = rd16 b" "rd32 (drop 12 b @ drop (12 - length b) zs) = rd32 (drop 12 b)"
    "rd16 (drop 10 b @ drop (10 - length b) zs) = rd16 (drop 10 b)" "rd16 (drop 8 b @ drop (8 - length b) zs) = rd16 (drop 8 b)"
    using assms(2) by (auto simp: rd16_def rd32_def nth_append)
  moreover have "seg 16 n (b @ zs) = seg 16 n b" if "16 + n \<le> length b" for n
    using that by (simp add: seg_def)
  moreover have "(b @ zs) ! i = b ! i" if "i < 16" for i using assms(2) that by (simp add: nth_append)
  moreover have "(\<Sum>i \<in> {0..<16} - {4}. (b @ zs) ! i) = (\<Sum>i \<in> {0..<16} - {4}. b ! i)"
    using assms(2) by (intro sum.cong) (simp_all add: nth_append)
  ultimately show ?thesis using assms by (auto simp: valid_desc_def Let_def)
qed

lemma carries_read:
  assumes c: "carries e ds" and k: "k < length ds" and h: "holds_ext base m e" "\<not> free_ext e"
    and s: "unat (ext_start e) + k < 2 ^ 32" "k < 2 ^ 16"
  shows "finds_desc m base (unat (ext_start e) + k) (fst (ds ! k)) (snd (ds ! k))"
proof -
  obtain b where b: "ext_descs e ! k = one_desc (fst (ds ! k)) (of_nat k) b"
    "valid_desc (fst (ds ! k)) (ext_start e + of_nat k) b" "drop 16 b = snd (ds ! k)" "16 \<le> length b" "length b \<le> 512"
    using c k unfolding carries_def by blast
  have "full_blocks (length b) = 1" using b(4,5) by (simp add: full_blocks_def)
  then have d: "desc_blocks (one_desc (fst (ds ! k)) (of_nat k) b) = b @ replicate (512 - length b) 0"
    by (simp add: desc_blocks_def)
  have "one_desc (fst (ds ! k)) (of_nat k) b \<in> set (ext_descs e)"
    using b(1) c k nth_mem [of k "ext_descs e"] by (simp add: carries_def)
  moreover have "unat (of_nat k :: u32) = k" using s(2) by (intro unat_of_nat_small) simp
  moreover have "\<forall>d \<in> set (ext_descs e). mread m (block_at base (unat (ext_start e) + unat (desc_offset d)))
      (length (desc_blocks d)) = desc_blocks d"
    using h by (simp add: holds_ext_def del: length_desc_blocks)
  ultimately have "mread m (block_at base (unat (ext_start e) + k)) (length (b @ replicate (512 - length b) 0))
      = b @ replicate (512 - length b) 0"
    by (metis d one_desc_sel(2))
  then have "mread m (block_at base (unat (ext_start e) + k)) 512 = b @ replicate (512 - length b) 0"
    using b(5) by simp
  moreover have "ext_start e + of_nat k = of_nat (unat (ext_start e) + k)" by simp
  moreover have "take (length (snd (ds ! k))) (drop 16 (b @ replicate (512 - length b) 0)) = snd (ds ! k)"
    using b(3,4) by (simp flip: b(3))
  ultimately show ?thesis
    using valid_desc_append [OF b(2,4), of "replicate (512 - length b) 0"] unfolding finds_desc_def Let_def by simp
qed

section \<open>The extents of the layout\<close>

definition rvds_at :: "nat \<Rightarrow> nat" where
  "rvds_at N = (if 320 + udf_pspace N < N - 257 then 13 else 12)"

lemma layout_next:
  "next_extent (udf_layout N) (Some 0) VRS = Some 1" "next_extent (udf_layout N) (Some 0) MVDS = Some 3"
  "next_extent (udf_layout N) (Some 0) LVID = Some 5" "next_extent (udf_layout N) (Some 0) ANCHOR = Some 7"
  "next_extent (udf_layout N) (Some 0) PSPACE = Some 9" "next_extent (udf_layout N) (Some 0) RVDS = Some (rvds_at N)"
  by (simp_all add: next_extent_def udf_layout_def next_extent_from_simps udf_consts rest_before_def rvds_at_def)

lemma next_extent_absent: "\<forall>e \<in> set exts. space_type e AND t = 0 \<Longrightarrow> next_extent exts p t = None"
  using next_extent_Some [of exts p t] nth_mem by (cases "next_extent exts p t") fastforce+

lemma layout_absent:
  "next_extent (udf_layout N) p MBR = None" "next_extent (udf_layout N) p SSPACE = None"
  by (rule next_extent_absent, simp add: udf_layout_def rest_before_def udf_consts)+

lemma layout_nth:
  "udf_layout N ! 1 = xt VRS 64 13" "udf_layout N ! 3 = xt MVDS 128 16" "udf_layout N ! 5 = xt LVID 192 16"
  "udf_layout N ! 9 = xt PSPACE 320 (udf_pspace N)" "udf_layout N ! rvds_at N = xt RVDS (udf_rvds N) 16"
  by (simp_all add: udf_layout_def rest_before_def rvds_at_def)

lemma layout_length: "length (udf_layout N) = rvds_at N + 3"
  by (simp add: udf_layout_def rest_before_def rvds_at_def)

text \<open>All other extents are anchors or free.\<close>

lemma free_xt [simp]: "free_ext (xt USPACE a n)" "free_ext (xt RESERVED a n)"
  by (simp_all add: free_ext_def udf_consts)

lemma layout_kinds:
  "j < length (udf_layout N) \<Longrightarrow> j \<in> {1, 3, 5, 9, rvds_at N} \<or> (\<exists>b \<in> {256, N - 257, N - 1}. udf_layout N ! j = xt ANCHOR b 1)
    \<or> free_ext (udf_layout N ! j)"
proof -
  assume "j < length (udf_layout N)"
  then have "j < 16" by (simp add: layout_length rvds_at_def split: if_splits)
  then have "j \<in> {0, 1, 2, 3, 4, 5, 6, 7, 8, 9, 10, 11, 12, 13, 14, 15}" by (simp only: insert_iff empty_iff simp_thms) presburger
  then show ?thesis
    using \<open>j < length (udf_layout N)\<close>
    by (elim insertE emptyE) (simp_all add: udf_layout_def rest_before_def rvds_at_def split: if_splits)
qed

lemma layout_anchors:
  "b \<in> {256, N - 257, N - 1} \<Longrightarrow> \<exists>j < length (udf_layout N). udf_layout N ! j = xt ANCHOR b 1"
  unfolding in_set_conv_nth [symmetric] by (auto simp: udf_layout_def)

lemma layout_types:
  "e \<in> set (udf_layout N) \<Longrightarrow> space_type e AND ANCHOR \<noteq> 0 \<Longrightarrow> space_type e AND PSPACE = 0"
  "e \<in> set (udf_layout N) \<Longrightarrow> ext_descs e = []"
  by (auto simp: udf_layout_def rest_before_def udf_consts)

lemma layout_free: "free_count (udf_layout N) \<le> 7"
  by (simp add: free_count_def udf_layout_def rest_before_def udf_consts)

lemma bare_layout: "map bare (udf_layout N) = udf_layout N"
proof -
  have "bare e = e" if "ext_descs e = []" for e using that by (cases e) (simp add: bare_def)
  then show ?thesis using layout_types(2) [of _ N] by (simp add: map_idI)
qed

lemma tiles_within: "tiles lo es hi \<Longrightarrow> e \<in> set es \<Longrightarrow> unat (ext_start e) + unat (ext_blocks e) \<le> hi"
  by (induction lo es hi rule: tiles.induct) (auto dest: tiles_le)

section \<open>From the plan to the medium\<close>

text \<open>What \<open>setup_partition\<close> may do to the map between \<open>setup_anchor\<close> and \<open>setup_vds\<close>: descriptors for the
  partition, inside it and apart.\<close>

definition partition_set :: "nat \<Rightarrow> udf_extent list \<Rightarrow> udf_extent list \<Rightarrow> bool" where
  "partition_set N exts exts' \<longleftrightarrow> map bare exts' = map bare exts \<and> (\<forall>j < length exts.
     if space_type (exts ! j) AND PSPACE \<noteq> 0 then ext_sane N (exts' ! j) \<and> descs_apart (ext_descs (exts' ! j))
     else exts' ! j = exts ! j)"

text \<open>The free extents in the descriptor of unallocated space: their number added to the field, and the list.\<close>

definition usd_ok :: "nat \<Rightarrow> udf_vol \<Rightarrow> bytes \<Rightarrow> bool" where
  "usd_ok N v usd \<longleftrightarrow> rd32 (drop 4 usd) = rd32 (drop 20 (vol_usd v)) + of_nat (free_count (udf_layout N))
     \<and> drop 8 usd = free_list 512 (udf_layout N)"

definition stick_vds :: "nat \<Rightarrow> udf_vol \<Rightarrow> bytes \<Rightarrow> (u16 \<times> bytes) list" where
  "stick_vds N v = vds_list v 512 (xt LVID 192 16) (xt PSPACE 320 (udf_pspace N))"

definition stick_lvid :: "udf_vol \<Rightarrow> bytes \<Rightarrow> (u16 \<times> bytes) list" where
  "stick_lvid v tables = [(TAG_IDENT_LVID, drop 16 (vol_lvid v @ tables @ vol_lvid_use v)), (TAG_IDENT_TD, replicate 496 0)]"

definition stick_anchor :: "nat \<Rightarrow> bytes" where
  "stick_anchor N = anchor_body 8192 128 8192 (of_nat (udf_rvds N))"

definition udf_plan :: "nat \<Rightarrow> u16 \<Rightarrow> udf_vol \<Rightarrow> bytes \<Rightarrow> bytes \<Rightarrow> udf_extent list \<Rightarrow> bool" where
  "udf_plan N rv v tables usd exts \<longleftrightarrow> map bare exts = udf_layout N \<and> ext_descs (exts ! 1) = vrs_descs rv
     \<and> carries (exts ! 3) (stick_vds N v usd) \<and> carries (exts ! rvds_at N) (stick_vds N v usd)
     \<and> carries (exts ! 5) (stick_lvid v tables) \<and> ext_sane N (exts ! 9) \<and> descs_apart (ext_descs (exts ! 9))
     \<and> (\<forall>j < length exts. \<forall>b \<in> {256, N - 257, N - 1}. udf_layout N ! j = xt ANCHOR b 1
          \<longrightarrow> carries (exts ! j) [(TAG_IDENT_AVDP, stick_anchor N)])"

lemma plan_sel:
  assumes "udf_plan N rv v tables usd exts" "j < length (udf_layout N)"
  shows "space_type (exts ! j) = space_type (udf_layout N ! j)" "ext_start (exts ! j) = ext_start (udf_layout N ! j)"
    "ext_blocks (exts ! j) = ext_blocks (udf_layout N ! j)" "length exts = length (udf_layout N)"
proof -
  have m: "map bare exts = map bare (udf_layout N)" using assms(1) by (simp add: udf_plan_def bare_layout)
  then have o: "only_at UNIV (udf_layout N) exts" by (simp add: only_at_def)
  show "space_type (exts ! j) = space_type (udf_layout N ! j)" "ext_start (exts ! j) = ext_start (udf_layout N ! j)"
    "ext_blocks (exts ! j) = ext_blocks (udf_layout N ! j)" "length exts = length (udf_layout N)"
    using only_at_sel [OF o assms(2)] only_at_length [OF o] by simp_all
qed

lemma descs_apartI:
  "(\<And>i j. i < j \<Longrightarrow> j < length ds \<Longrightarrow> unat (desc_offset (ds ! i)) + full_blocks (length (desc_bytes (ds ! i)))
      \<le> unat (desc_offset (ds ! j))) \<Longrightarrow> descs_apart ds"
proof (induction ds)
  case (Cons d ds)
  have "unat (desc_offset d) + full_blocks (length (desc_bytes d)) \<le> unat (desc_offset d')" if "d' \<in> set ds" for d'
    using that Cons.prems [of 0 "Suc _"] by (auto simp: in_set_conv_nth)
  moreover have "descs_apart ds" using Cons.prems [of "Suc _" "Suc _"] by (intro Cons.IH) auto
  ultimately show ?case by simp
qed simp

lemma carries_sane:
  assumes c: "carries e ds" and l: "length ds \<le> unat (ext_blocks e)" "length ds < 2 ^ 16"
    and s: "unat (ext_start e) + unat (ext_blocks e) \<le> N"
  shows "ext_sane N e" "descs_apart (ext_descs e)"
proof -
  have each: "desc_sane (ext_descs e ! k) \<and> unat (desc_offset (ext_descs e ! k)) = k
      \<and> full_blocks (length (desc_bytes (ext_descs e ! k))) = 1" if k: "k < length ds" for k
  proof -
    obtain b where b: "ext_descs e ! k = one_desc (fst (ds ! k)) (of_nat k) b" "16 \<le> length b" "length b \<le> 512"
      using c k unfolding carries_def by blast
    have "unat (of_nat k :: u32) = k" using l(2) k by (intro unat_of_nat_small) simp
    moreover have "unat (of_nat (length b) :: u64) = length b" using b(3) by (simp add: unsigned_of_nat take_bit_nat_eq_self)
    ultimately show ?thesis using b by (simp add: desc_sane_def full_blocks_def)
  qed
  have n: "length (ext_descs e) = length ds" using c by (simp add: carries_def)
  show "ext_sane N e" using s each l(1) n by (auto simp: ext_sane_def in_set_conv_nth)
  show "descs_apart (ext_descs e)" using each n by (intro descs_apartI) simp
qed

lemma vrs_sane:
  assumes "ext_descs e = vrs_descs rv" "ext_start e = 64" "ext_blocks e = 13" "77 \<le> N"
  shows "ext_sane N e" "descs_apart (ext_descs e)"
  using assms by (simp_all add: ext_sane_def vrs_descs_def desc_sane_def full_blocks_def)

lemma plan_sane:
  assumes p: "udf_plan N rv v tables usd exts" and N: "3072 \<le> N" "N < 2 ^ 32" and t: "tiles 0 (udf_layout N) N"
    and j: "j < length exts"
  shows "ext_sane N (exts ! j) \<and> (free_ext (exts ! j) \<or> descs_apart (ext_descs (exts ! j)))"
proof -
  have jl: "j < length (udf_layout N)" using plan_sel(4) [OF p, of 0] j by (simp add: layout_length rvds_at_def)
  note sel = plan_sel(1-3) [OF p jl]
  have w: "unat (ext_start (exts ! j)) + unat (ext_blocks (exts ! j)) \<le> N"
    using tiles_within [OF t, of "udf_layout N ! j"] jl sel by simp
  note P = p [unfolded udf_plan_def]
  have vds: "length (stick_vds N v usd) = 6" by (simp add: stick_vds_def vds_list_def)
  consider "j = 1" | "j \<in> {3, rvds_at N}" | "j = 5" | "j = 9" | b where "b \<in> {256, N - 257, N - 1}" "udf_layout N ! j = xt ANCHOR b 1"
    | "free_ext (udf_layout N ! j)"
    using layout_kinds [OF jl] by blast
  then show ?thesis
  proof cases
    case 1
    have "77 \<le> N" using N by simp
    then show ?thesis using vrs_sane [of "exts ! j" rv N] sel P 1 by (simp add: layout_nth [simplified])
  next
    case 2
    have "ext_blocks (exts ! j) = 16" using 2 sel by (auto simp: layout_nth)
    then show ?thesis using carries_sane [of "exts ! j" "stick_vds N v usd" N] P 2 w vds by auto
  next
    case 3
    have "ext_blocks (exts ! j) = 16" using 3 sel by (simp add: layout_nth)
    then show ?thesis using carries_sane [of "exts ! j" "stick_lvid v tables" N] P 3 w by (simp add: stick_lvid_def)
  next
    case 4
    then show ?thesis using P by simp
  next
    case (5 b)
    have "carries (exts ! j) [(TAG_IDENT_AVDP, stick_anchor N)]" using P j 5 by blast
    then show ?thesis using carries_sane [of "exts ! j" _ N] w sel 5(2) by simp
  next
    case 6
    then show ?thesis using w sel by (simp add: ext_sane_def free_ext_def)
  qed
qed

text \<open>What a reader looks for on a volume of \<open>N\<close> blocks.\<close>

definition udf_volume :: "medium \<Rightarrow> nat \<Rightarrow> nat \<Rightarrow> u16 \<Rightarrow> udf_vol \<Rightarrow> bytes \<Rightarrow> bytes \<Rightarrow> bool" where
  "udf_volume m base N rv v tables usd \<longleftrightarrow>
     mread m (block_at base 64) 2048 = volStructDesc ''BEA01''
     \<and> mread m (block_at base 68) 2048 = volStructDesc (if rv \<ge> 0x0200 then ''NSR03'' else ''NSR02'')
     \<and> mread m (block_at base 72) 2048 = volStructDesc ''TEA01''
     \<and> (\<forall>b \<in> {256, N - 257, N - 1}. finds_desc m base b TAG_IDENT_AVDP (stick_anchor N))
     \<and> (\<forall>s \<in> {128, udf_rvds N}. \<forall>k < 6. finds_desc m base (s + k) (fst (stick_vds N v usd ! k)) (snd (stick_vds N v usd ! k)))
     \<and> (\<forall>k < 2. finds_desc m base (192 + k) (fst (stick_lvid v tables ! k)) (snd (stick_lvid v tables ! k)))"

lemma free_ext_type: "space_type e = space_type e' \<Longrightarrow> free_ext e = free_ext e'"
  by (simp add: free_ext_def)

lemma plan_carried:
  assumes h: "\<forall>j < length exts. holds_ext base m (exts ! j)" and j: "j < length exts"
    and c: "carries (exts ! j) ds" and k: "k < length ds" "length ds < 2 ^ 16"
    and s: "ext_start (exts ! j) = of_nat a" "a + length ds \<le> N" "N < 2 ^ 32" and f: "\<not> free_ext (exts ! j)"
  shows "finds_desc m base (a + k) (fst (ds ! k)) (snd (ds ! k))"
proof -
  have "unat (ext_start (exts ! j)) = a" using s k by (simp add: unat_of_nat_small)
  then show ?thesis using carries_read [OF c k(1) h [rule_format, OF j] f] s k by simp
qed

lemma plan_volume:
  assumes p: "udf_plan N rv v tables usd exts" and N: "3072 \<le> N" "N < 2 ^ 32"
    and h: "\<forall>j < length exts. holds_ext base m (exts ! j)"
  shows "udf_volume m base N rv v tables usd"
proof -
  note P = p [unfolded udf_plan_def]
  have len: "length exts = length (udf_layout N)" using plan_sel(4) [OF p, of 0] by (simp add: layout_length)
  have idx: "1 < length exts" "3 < length exts" "5 < length exts" "rvds_at N < length exts"
    by (simp_all add: len layout_length rvds_at_def)
  have at: "space_type (exts ! j) = space_type (udf_layout N ! j)" "ext_start (exts ! j) = ext_start (udf_layout N ! j)"
    "free_ext (exts ! j) = free_ext (udf_layout N ! j)" if j: "j < length exts" for j
  proof -
    have l: "j < length (udf_layout N)" using j len by simp
    show "space_type (exts ! j) = space_type (udf_layout N ! j)" "ext_start (exts ! j) = ext_start (udf_layout N ! j)"
      "free_ext (exts ! j) = free_ext (udf_layout N ! j)"
      using plan_sel(1,2) [OF p l] by (simp_all only: free_ext_def)
  qed
  have nf: "\<not> free_ext (xt VRS a n)" "\<not> free_ext (xt MVDS a n)" "\<not> free_ext (xt RVDS a n)" "\<not> free_ext (xt LVID a n)"
    "\<not> free_ext (xt ANCHOR a n)" for a n by (simp_all add: free_ext_def udf_consts)
  have r: "udf_rvds N + 6 \<le> N" using udf_rvds_bounds [OF N(1)] N by linarith
  have vds: "length (stick_vds N v usd) = 6" by (simp add: stick_vds_def vds_list_def)
  have "finds_desc m base b TAG_IDENT_AVDP (stick_anchor N)" if b: "b \<in> {256, N - 257, N - 1}" for b
  proof -
    obtain j where j: "j < length exts" "udf_layout N ! j = xt ANCHOR b 1" using layout_anchors [OF b] len by auto
    have "carries (exts ! j) [(TAG_IDENT_AVDP, stick_anchor N)]" "b + 1 \<le> N" using P j b N by auto
    then show ?thesis
      using plan_carried [OF h j(1), of "[(TAG_IDENT_AVDP, stick_anchor N)]" 0 b N] at [OF j(1)] j(2) N nf by simp
  qed
  moreover have "finds_desc m base (128 + k) (fst (stick_vds N v usd ! k)) (snd (stick_vds N v usd ! k))" if "k < 6" for k
    by (rule plan_carried [OF h idx(2), where N = N])
      (use P at(2,3) [OF idx(2)] N nf that vds in \<open>simp_all add: layout_nth\<close>)
  moreover have "finds_desc m base (udf_rvds N + k) (fst (stick_vds N v usd ! k)) (snd (stick_vds N v usd ! k))" if "k < 6" for k
    by (rule plan_carried [OF h idx(4), where N = N])
      (use P at(2,3) [OF idx(4)] N nf that vds r in \<open>simp_all add: layout_nth\<close>)
  moreover have "finds_desc m base (192 + k) (fst (stick_lvid v tables ! k)) (snd (stick_lvid v tables ! k))" if "k < 2" for k
    using plan_carried [OF h idx(3), of "stick_lvid v tables" k 192 N] P at [OF idx(3)] N nf that
    by (simp add: layout_nth stick_lvid_def)
  moreover have "\<forall>d \<in> set (vrs_descs rv). mread m (block_at base (64 + unat (desc_offset d))) (length (desc_blocks d)) = desc_blocks d"
  proof -
    have "holds_ext base m (exts ! 1)" "\<not> free_ext (exts ! 1)" "ext_start (exts ! 1) = 64" "ext_descs (exts ! 1) = vrs_descs rv"
      using h idx(1) at [OF idx(1)] P nf by (simp_all add: layout_nth [simplified])
    then show ?thesis by (simp add: holds_ext_def)
  qed
  then have "mread m (block_at base 64) 2048 = volStructDesc ''BEA01''"
    "mread m (block_at base 68) 2048 = volStructDesc (if rv \<ge> 0x0200 then ''NSR03'' else ''NSR02'')"
    "mread m (block_at base 72) 2048 = volStructDesc ''TEA01''"
    by (simp_all add: vrs_descs_def desc_blocks_def full_blocks_def split: if_splits)
  ultimately show ?thesis by (auto simp: udf_volume_def)
qed

text \<open>The plan after all steps, from the empty map on.\<close>

definition plan_stick :: "memory \<Rightarrow> u32 \<Rightarrow> u32 \<Rightarrow> udf_disc \<Rightarrow> udf_disc option" where
  "plan_stick mem rnd blkssz disc =
     split_space mem disc \<bind> setup_mbr mem rnd blkssz \<bind> setup_vrs mem \<bind> setup_anchor mem"

lemma plan_stick_result:
  assumes p: "stick_params disc N" and mem: "memory_ok mem" and e: "extents disc = [xt USPACE 0 N]"
    and N: "3072 \<le> N" "N < 2 ^ 32"
  shows "\<exists>exts t. plan_stick mem rnd blkssz disc = Some (disc\<lparr>lvid_tables := t, extents := exts\<rparr>)
    \<and> map bare exts = udf_layout N
    \<and> (\<forall>j < length (udf_layout N). if space_type (udf_layout N ! j) AND ANCHOR \<noteq> 0
        then carries (exts ! j) [(TAG_IDENT_AVDP, stick_anchor N)]
        else exts ! j = (if j = 1 then (xt VRS 64 13)\<lparr>ext_descs := vrs_descs (udf_rev disc)\<rparr> else udf_layout N ! j))"
proof -
  define L where "L = udf_layout N"
  define L1 where "L1 = L[1 := (xt VRS 64 13)\<lparr>ext_descs := vrs_descs (udf_rev disc)\<rparr>]"
  obtain t where t: "split_space mem disc = Some (disc\<lparr>extents := L, lvid_tables := t\<rparr>)"
    using split_space_layout_plan [OF p mem e N] by (auto simp: fill_lvid_tables_def Let_def L_def)
  define d1 where "d1 = disc\<lparr>extents := L, lvid_tables := t\<rparr>"
  have len: "1 < length L" by (simp add: L_def layout_length)
  have "ext_descs (L ! 1) = []" by (simp add: L_def layout_nth [simplified])
  then have vrs: "setup_vrs mem d1 = Some (disc\<lparr>lvid_tables := t, extents := L1\<rparr>)"
    using setup_vrs_plan [OF mem, of d1 1] stick_paramsD(2) [OF p]
    by (simp add: d1_def L_def L1_def layout_next layout_nth [simplified])
  have o: "only_at {1} L L1" unfolding L1_def
    using only_at_update [OF len, of "vrs_descs (udf_rev disc)"] by (simp add: L_def layout_nth [simplified])
  have nx: "next_extent L1 (Some 0) MVDS = Some 3" "next_extent L1 (Some 0) RVDS = Some (rvds_at N)"
    "next_extent L1 (Some 0) ANCHOR = Some 7"
    by (simp_all add: only_at_next [OF o]) (simp_all add: L_def layout_next)
  have ty: "\<forall>e \<in> set L1. space_type e AND ANCHOR \<noteq> 0 \<longrightarrow> space_type e AND PSPACE = 0"
  proof
    fix e assume "e \<in> set L1"
    then have "e = (xt VRS 64 13)\<lparr>ext_descs := vrs_descs (udf_rev disc)\<rparr> \<or> e \<in> set (udf_layout N)"
      unfolding L1_def using set_update_subset_insert by (fastforce simp: L_def)
    then show "space_type e AND ANCHOR \<noteq> 0 \<longrightarrow> space_type e AND PSPACE = 0"
      using layout_types(1) by (auto simp: VRS_def PSPACE_def)
  qed
  have big: "disc_blocks disc - start_block disc > 257"
    using of_nat_u32_less_iff [of 257 N] N by (simp add: stick_paramsD [OF p])
  have "rvds_at N \<noteq> 1" by (simp add: rvds_at_def)
  then have s: "L1 ! 3 = xt MVDS 128 16" "L1 ! rvds_at N = xt RVDS (udf_rvds N) 16"
    by (simp_all add: L1_def L_def layout_nth)
  have body: "stick_anchor N = anchor_body (ext_blocks (L1 ! 3) * blocksize disc) (ext_start (L1 ! 3))
      (ext_blocks (L1 ! rvds_at N) * blocksize disc) (ext_start (L1 ! rvds_at N))"
    by (simp add: stick_anchor_def s stick_paramsD(2) [OF p])
  obtain exts where x: "setup_anchor mem (disc\<lparr>lvid_tables := t, extents := L1\<rparr>) = Some (disc\<lparr>lvid_tables := t, extents := exts\<rparr>)"
    "map bare exts = map bare L1" "\<forall>j < length L1. if space_type (L1 ! j) AND ANCHOR \<noteq> 0
        then carries (exts ! j) [(TAG_IDENT_AVDP, stick_anchor N)] else exts ! j = L1 ! j"
    using setup_anchor_plan [OF mem, of "disc\<lparr>lvid_tables := t, extents := L1\<rparr>" L1 3 "rvds_at N" 7 "stick_anchor N"] nx ty big body
    by auto
  have "plan_stick mem rnd blkssz disc = Some (disc\<lparr>lvid_tables := t, extents := exts\<rparr>)"
    using vrs x(1) by (simp add: plan_stick_def t setup_mbr_def L_def layout_absent d1_def)
  moreover have "map bare exts = udf_layout N"
    using x(2) o bare_layout [of N] by (simp add: only_at_def L_def)
  moreover have "length L1 = length L" "\<And>j. j < length L \<Longrightarrow> space_type (L1 ! j) = space_type (L ! j)"
    using only_at_length [OF o] only_at_sel(1) [OF o] by simp_all
  moreover have "L1 ! j = (if j = 1 then (xt VRS 64 13)\<lparr>ext_descs := vrs_descs (udf_rev disc)\<rparr> else L ! j)" for j
    using len by (simp add: L1_def)
  ultimately show ?thesis using x(3) by (intro exI [of _ exts] exI [of _ t]) (simp add: L_def)
qed

lemma layout_one_pspace:
  assumes "j < length (udf_layout N)" "j \<noteq> 9"
  shows "space_type (udf_layout N ! j) AND PSPACE = 0"
proof -
  have "j < 16" using assms by (simp add: layout_length rvds_at_def split: if_splits)
  then have "j \<in> {0, 1, 2, 3, 4, 5, 6, 7, 8, 9, 10, 11, 12, 13, 14, 15}" by (simp only: insert_iff empty_iff simp_thms) presburger
  then show ?thesis
    using assms by (elim insertE emptyE) (simp_all add: udf_layout_def rest_before_def rvds_at_def udf_consts split: if_splits)
qed

lemma vds_plan:
  assumes mem: "memory_ok mem" and v: "vol_ok v (lvid_tables disc)" and bs: "blocksize disc = 512"
    and f: "\<not> flagged disc FLAG_VAT" "\<not> flagged disc FLAG_BLANK_TERMINAL"
    and e3: "map bare e3 = udf_layout N" "\<And>j. j < length (udf_layout N) \<Longrightarrow> if space_type (udf_layout N ! j) AND ANCHOR \<noteq> 0
        then carries (e3 ! j) [(TAG_IDENT_AVDP, stick_anchor N)]
        else e3 ! j = (if j = 1 then (xt VRS 64 13)\<lparr>ext_descs := vrs_descs rv\<rparr> else udf_layout N ! j)"
    and e4: "partition_set N e3 (extents disc)"
  shows "\<exists>v' e5 usd. setup_vds mem v disc = Some (v', disc\<lparr>extents := e5\<rparr>) \<and> udf_plan N rv v (lvid_tables disc) usd e5 \<and> usd_ok N v usd"
proof -
  define e where "e = extents disc"
  have len: "length e3 = length (udf_layout N)" using arg_cong [OF e3(1), of length] by simp
  have o: "only_at UNIV (udf_layout N) e3" using e3(1) by (simp add: only_at_def bare_layout)
  have oe: "only_at UNIV (udf_layout N) e" using e3(1) e4 by (simp add: only_at_def bare_layout partition_set_def e_def)
  have le: "length e = length (udf_layout N)" by (rule only_at_length [OF oe])
  note nx = only_at_next [OF oe, of "Some 0"] and sel = only_at_sel [OF oe]
  have same: "e ! j = e3 ! j" if "j < length (udf_layout N)" "j \<noteq> 9" for j
    using e4 layout_one_pspace [OF that] only_at_sel(1) [OF o that(1)] that(1) len
    by (auto simp: partition_set_def e_def)
  have idx: "1 < length (udf_layout N)" "3 < length (udf_layout N)" "5 < length (udf_layout N)" "9 < length (udf_layout N)"
    "rvds_at N < length (udf_layout N)" "rvds_at N \<notin> {1, 3, 5, 9}" by (simp_all add: layout_length rvds_at_def)
  have at: "e ! 3 = xt MVDS 128 16" "e ! 5 = xt LVID 192 16" "e ! rvds_at N = xt RVDS (udf_rvds N) 16"
    using same [OF idx(2)] same [OF idx(3)] same [OF idx(5)] e3(2) [OF idx(2)] e3(2) [OF idx(3)] e3(2) [OF idx(5)] idx(6)
    by (simp_all add: layout_nth udf_consts)
  have part: "ext_start (e ! 9) = 320" "ext_blocks (e ! 9) = of_nat (udf_pspace N)" using sel [OF idx(4)] by (simp_all add: layout_nth)
  have np: "space_type (xt MVDS a n) AND PSPACE = 0" "space_type (xt RVDS a n) AND PSPACE = 0" "space_type (xt LVID a n) AND PSPACE = 0" for a n
    by (simp_all add: udf_consts)
  have free: "24 + 8 * free_count e \<le> 512" using layout_free [of N] only_at_free(2) [OF oe] by simp
  have ds: "vds_list v 512 (e ! 5) (e ! 9) usd = stick_vds N v usd" for usd
    by (simp add: vds_list_def stick_vds_def lvd_bytes_def pd_bytes_def at part)
  have fresh: "\<And>i. i \<in> {3, rvds_at N, 5} \<Longrightarrow> ext_descs (e ! i) = [] \<and> space_type (e ! i) AND PSPACE = 0"
    using at np by auto
  have nx': "next_extent e (Some 0) MVDS = Some 3" "next_extent e (Some 0) RVDS = Some (rvds_at N)"
    "next_extent e (Some 0) LVID = Some 5" "next_extent e (Some 0) PSPACE = Some 9" "next_extent e (Some 0) SSPACE = None"
    by (simp_all only: nx layout_next layout_absent)
  have two: "ext_blocks (e ! 5) > 1" by (simp add: at)
  have ne: "3 \<noteq> rvds_at N" "5 \<noteq> (3 :: nat)" "5 \<noteq> rvds_at N" using idx(6) by auto
  obtain v' e5 usd where r: "setup_vds mem v disc = Some (v', disc\<lparr>extents := e5\<rparr>)" "only_at {3, rvds_at N, 5} e e5"
    "both_carry e5 3 (rvds_at N) (stick_vds N v usd)" "carries (e5 ! 5) (stick_lvid v (lvid_tables disc))"
    "rd32 (drop 4 usd) = rd32 (drop 20 (vol_usd v)) + of_nat (free_count e)" "drop 8 usd = free_list 512 e"
    using setup_vds_carries [OF mem v f e_def [symmetric] nx' ne fresh two free] by (auto simp: bs ds stick_lvid_def)
  have keep: "e5 ! j = e ! j" if "j < length (udf_layout N)" "j \<notin> {3, rvds_at N, 5}" for j
    using only_at_nth [OF r(2), of j] that le by simp
  have "map bare e5 = udf_layout N" using r(2) oe bare_layout [of N] by (simp add: only_at_def)
  moreover have "ext_descs (e5 ! 1) = vrs_descs rv"
    using keep [OF idx(1)] same [OF idx(1)] e3(2) [OF idx(1)] idx(6) by (auto simp: layout_nth [simplified] udf_consts)
  moreover have "ext_sane N (e5 ! 9)" "descs_apart (ext_descs (e5 ! 9))"
    using keep [OF idx(4)] e4 only_at_sel(1) [OF o idx(4)] idx(4,6) len by (auto simp: layout_nth partition_set_def e_def udf_consts)
  moreover have "carries (e5 ! j) [(TAG_IDENT_AVDP, stick_anchor N)]" if j: "j < length (udf_layout N)" "udf_layout N ! j = xt ANCHOR b 1" for j b
  proof -
    have "j \<notin> {3, rvds_at N, 5, 9}" using j(2) layout_nth [of N] by (auto simp: udf_consts dest: arg_cong [of _ _ space_type])
    then show ?thesis using keep [OF j(1)] same [OF j(1)] e3(2) [OF j(1)] j(2) by (simp add: ANCHOR_def)
  qed
  ultimately have "udf_plan N rv v (lvid_tables disc) usd e5"
    using r(3,4) only_at_length [OF r(2)] le by (simp add: udf_plan_def both_carry_def)
  moreover have "usd_ok N v usd" using r(5,6) only_at_free [OF oe] by (simp add: usd_ok_def)
  ultimately show ?thesis using r(1) by blast
qed

section \<open>A formatted stick is a UDF volume\<close>

text \<open>C4: The formatter of the app on a stick of 3072 blocks or more, from the empty map to the medium: the
  plan returns; whatever descriptors \<open>setup_partition\<close> puts into the partition, and for all descriptors of the
  sizes mkudffs gives them, \<open>setup_vds\<close> returns and \<open>write_disc\<close> returns 0; then a reader finds the recognition
  sequence at byte 32768, a valid anchor at each of the blocks 256, \<open>N - 257\<close> and \<open>N - 1\<close> that points to both
  sequences, in both sequences six descriptors with valid tags that name their own blocks (among them the
  partition and the exact list of free space), and a valid integrity descriptor; no byte outside the
  partition of the stick changes.\<close>

theorem formatted_stick_is_udf:
  assumes dev: "bot_device u store idle cap epi epo" and r: "udf_ready idle cap epi epo base st"
    and fit: "base + N * 512 \<le> cap * 512"
    and p: "stick_params disc N" and f: "\<not> flagged disc FLAG_NO_WRITE" "\<not> flagged disc FLAG_BOOTAREA_PRESERVE"
      "\<not> flagged disc FLAG_BLANK_TERMINAL"
    and mem: "memory_ok mem" and e: "extents disc = [xt USPACE 0 N]" and N: "3072 \<le> N" "N < 2 ^ 32"
  shows "\<exists>planned. plan_stick mem rnd blkssz disc = Some planned
    \<and> (\<forall>exts tables v. partition_set N (extents planned) exts \<and> vol_ok v tables \<longrightarrow>
        (\<exists>v' full st' usd. setup_vds mem v (planned\<lparr>extents := exts, lvid_tables := tables\<rparr>) = Some (v', full)
          \<and> write_disc u full st = Some (0, st') \<and> udf_ready idle cap epi epo base st'
          \<and> udf_volume (udf_img store st') base N (udf_rev disc) v tables usd \<and> usd_ok N v usd
          \<and> (\<forall>x. x < base \<or> base + N * 512 \<le> x \<longrightarrow> udf_img store st' x = udf_img store st x)))"
proof -
  obtain e3 t where plan: "plan_stick mem rnd blkssz disc = Some (disc\<lparr>lvid_tables := t, extents := e3\<rparr>)"
    "map bare e3 = udf_layout N" "\<And>j. j < length (udf_layout N) \<Longrightarrow> if space_type (udf_layout N ! j) AND ANCHOR \<noteq> 0
        then carries (e3 ! j) [(TAG_IDENT_AVDP, stick_anchor N)]
        else e3 ! j = (if j = 1 then (xt VRS 64 13)\<lparr>ext_descs := vrs_descs (udf_rev disc)\<rparr> else udf_layout N ! j)"
    using plan_stick_result [OF p mem e N] by blast
  have tiles: "tiles 0 (udf_layout N) N" using split_space_layout_plan [OF p mem e N] by blast
  have "\<exists>v' full st' usd. setup_vds mem v (disc\<lparr>extents := exts, lvid_tables := tables\<rparr>) = Some (v', full)
          \<and> write_disc u full st = Some (0, st') \<and> udf_ready idle cap epi epo base st'
          \<and> udf_volume (udf_img store st') base N (udf_rev disc) v tables usd \<and> usd_ok N v usd
          \<and> (\<forall>x. x < base \<or> base + N * 512 \<le> x \<longrightarrow> udf_img store st' x = udf_img store st x)"
    if "partition_set N e3 exts" "vol_ok v tables" for exts tables v
  proof -
    define d4 where "d4 = disc\<lparr>extents := exts, lvid_tables := tables\<rparr>"
    have d4: "vol_ok v (lvid_tables d4)" "blocksize d4 = 512" "\<not> flagged d4 FLAG_VAT" "\<not> flagged d4 FLAG_BLANK_TERMINAL"
      "partition_set N e3 (extents d4)" "lvid_tables d4 = tables" "\<not> flagged d4 FLAG_NO_WRITE" "\<not> flagged d4 FLAG_BOOTAREA_PRESERVE"
      using that stick_paramsD [OF p] f by (simp_all add: d4_def flagged_def)
    obtain v' e5 usd where vds: "setup_vds mem v d4 = Some (v', d4\<lparr>extents := e5\<rparr>)"
      "udf_plan N (udf_rev disc) v tables usd e5" "usd_ok N v usd"
      using vds_plan [OF mem d4(1-4) plan(2,3) d4(5)] unfolding d4(6) by blast
    have t5: "tiles 0 e5 N"
      using tiles_bare [of e5 "udf_layout N"] vds(2) tiles bare_layout by (simp add: udf_plan_def)
    have sane: "\<forall>e \<in> set e5. ext_sane N e \<and> (free_ext e \<or> descs_apart (ext_descs e))"
      using plan_sane [OF vds(2) N tiles] by (metis in_set_conv_nth)
    obtain st' where w: "write_disc u (d4\<lparr>extents := e5\<rparr>) st = Some (0, st')" "udf_ready idle cap epi epo base st'"
      "\<forall>e \<in> set e5. holds_ext base (udf_img store st') e"
      "\<forall>x. x < base \<or> base + N * 512 \<le> x \<longrightarrow> udf_img store st' x = udf_img store st x"
      using write_disc_holds [OF dev r, of "d4\<lparr>extents := e5\<rparr>" N] d4(2,7,8) N(2) fit t5 sane by auto
    have "\<forall>j < length e5. holds_ext base (udf_img store st') (e5 ! j)" using w(3) nth_mem by blast
    then have "udf_volume (udf_img store st') base N (udf_rev disc) v tables usd" by (rule plan_volume [OF vds(2) N])
    then show ?thesis using vds(1,3) w(1,2,4) unfolding d4_def by blast
  qed
  then show ?thesis using plan(1) by (intro exI [of _ "disc\<lparr>lvid_tables := t, extents := e3\<rparr>"]) simp
qed

text \<open>Descriptors of the right sizes, with one partition map of six bytes and one partition.\<close>

definition stick_vol :: udf_vol where
  "stick_vol = \<lparr>vol_pvd = replicate 512 0, vol_lvd = patch 264 (le32 6) (replicate 446 0), vol_pd = replicate 512 0,
     vol_usd = replicate 24 0, vol_iuvd = replicate 512 0, vol_td = replicate 512 0,
     vol_lvid = patch 72 (le32 1) (replicate 80 0), vol_lvid_use = [], vol_stable = replicate 56 0\<rparr>"

lemma stick_vol_ok: "vol_ok stick_vol (replicate 8 0)"
  by (simp add: vol_ok_def lvd_ok_def stick_vol_def patch_def rd32_def le32_def)

text \<open>An empty partition.\<close>

lemma partition_set_empty:
  assumes "plan_stick mem rnd blkssz disc = Some planned" "stick_params disc N" "memory_ok mem" "extents disc = [xt USPACE 0 N]"
    and N: "3072 \<le> N" "N < 2 ^ 32"
  shows "partition_set N (extents planned) (extents planned)"
proof -
  define e where "e = extents planned"
  obtain m: "map bare e = udf_layout N" and each: "\<And>j. j < length (udf_layout N) \<Longrightarrow> if space_type (udf_layout N ! j) AND ANCHOR \<noteq> 0
        then carries (e ! j) [(TAG_IDENT_AVDP, stick_anchor N)]
        else e ! j = (if j = 1 then (xt VRS 64 13)\<lparr>ext_descs := vrs_descs (udf_rev disc)\<rparr> else udf_layout N ! j)"
    using plan_stick_result [OF assms(2-6), of rnd blkssz] assms(1) by (auto simp: e_def)
  have len: "length e = length (udf_layout N)" using arg_cong [OF m, of length] by simp
  have o: "only_at UNIV (udf_layout N) e" using m by (simp add: only_at_def bare_layout)
  have i9: "9 < length (udf_layout N)" by (simp add: layout_length rvds_at_def)
  have "e ! 9 = xt PSPACE 320 (udf_pspace N)" using each [OF i9] by (simp add: layout_nth udf_consts)
  moreover have "320 + udf_pspace N \<le> N" "udf_pspace N < 2 ^ 32" using udf_pspace_bounds [OF N(1)] N by linarith+
  ultimately have "ext_sane N (e ! 9)" "descs_apart (ext_descs (e ! 9))"
    by (simp_all add: ext_sane_def unat_of_nat_small)
  moreover have "j = 9" if "j < length e" "space_type (e ! j) AND PSPACE \<noteq> 0" for j
    using layout_one_pspace [of j N] only_at_sel(1) [OF o, of j] that len by auto
  ultimately show ?thesis by (auto simp: partition_set_def e_def)
qed

lemma formatted_stick_is_udf_witness:
  "\<exists>planned v' full st' usd. plan_stick (\<lambda>_ _. True) 7 512 (stick_disc 131072) = Some planned
    \<and> setup_vds (\<lambda>_ _. True) stick_vol (planned\<lparr>extents := extents planned, lvid_tables := replicate 8 0\<rparr>) = Some (v', full)
    \<and> write_disc stick_usb full udf_stick = Some (0, st')
    \<and> mread (udf_img stick_medium st') (1048576 + 32768) 2048 = volStructDesc ''BEA01''
    \<and> (\<forall>b \<in> {256, 130815, 131071}. finds_desc (udf_img stick_medium st') 1048576 b TAG_IDENT_AVDP (stick_anchor 131072))
    \<and> finds_desc (udf_img stick_medium st') 1048576 131 TAG_IDENT_USD usd
    \<and> udf_img stick_medium st' 1048575 = 9"
proof -
  have mem: "memory_ok (\<lambda>_ _. True)" by (simp add: memory_ok_def)
  have f: "\<not> flagged (stick_disc 131072) FLAG_NO_WRITE" "\<not> flagged (stick_disc 131072) FLAG_BOOTAREA_PRESERVE"
    "\<not> flagged (stick_disc 131072) FLAG_BLANK_TERMINAL"
    by (simp_all add: stick_disc_def flagged_def udf_flags FLAG_BLANK_TERMINAL_def)
  obtain planned where plan: "plan_stick (\<lambda>_ _. True) 7 512 (stick_disc 131072) = Some planned"
    "\<forall>exts tables v. partition_set 131072 (extents planned) exts \<and> vol_ok v tables \<longrightarrow>
        (\<exists>v' full st' usd. setup_vds (\<lambda>_ _. True) v (planned\<lparr>extents := exts, lvid_tables := tables\<rparr>) = Some (v', full)
          \<and> write_disc stick_usb full udf_stick = Some (0, st') \<and> udf_ready stick_idle (2 ^ 32) 0x81 0x02 1048576 st'
          \<and> udf_volume (udf_img stick_medium st') 1048576 131072 (udf_rev (stick_disc 131072)) v tables usd \<and> usd_ok 131072 v usd
          \<and> (\<forall>x. x < 1048576 \<or> 1048576 + 131072 * 512 \<le> x \<longrightarrow> udf_img stick_medium st' x = udf_img stick_medium udf_stick x))"
    using formatted_stick_is_udf [OF stick_device udf_stick_ready(1) _ stick_disc_params(1) f mem stick_disc_params(2),
        of 7 512] by auto
  have part: "partition_set 131072 (extents planned) (extents planned)"
    by (rule partition_set_empty [OF plan(1) stick_disc_params(1) mem stick_disc_params(2)]) simp_all
  obtain v' full st' usd where r: "setup_vds (\<lambda>_ _. True) stick_vol (planned\<lparr>extents := extents planned, lvid_tables := replicate 8 0\<rparr>) = Some (v', full)"
    "write_disc stick_usb full udf_stick = Some (0, st')"
    "udf_volume (udf_img stick_medium st') 1048576 131072 (udf_rev (stick_disc 131072)) stick_vol (replicate 8 0) usd"
    "udf_img stick_medium st' 1048575 = udf_img stick_medium udf_stick 1048575"
    using plan(2) [rule_format, OF conjI, OF part stick_vol_ok] by auto
  have "finds_desc (udf_img stick_medium st') 1048576 131 TAG_IDENT_USD usd"
    using r(3) unfolding udf_volume_def by (auto simp: stick_vds_def vds_list_def dest!: spec [of _ 3])
  then show ?thesis
    using plan(1) r by (intro exI [of _ planned] exI [of _ v'] exI [of _ full] exI [of _ st'] exI [of _ usd])
      (simp add: udf_volume_def block_at_def udf_stick_ready(2))
qed

end
