(* ===== verification/UdfBits.thy ===== *)
theory UdfBits
  imports UdfExtents
begin

text \<open>
  The space bitmap of mkudffs: \<open>clear_bits\<close> of udf_src/mkudffs/file.h and the searches for the next bit of
  mkudffs/file.c, which take the bitmap in words of 32 bits although \<open>unsigned long\<close> has 64 on the
  64-bit devices modelled here. What they should be is a scan bit by bit.
\<close>

section \<open>The code\<close>

text \<open>\<open>bitmap[n/8] &= ~(1 << (n%8))\<close> for the numbers from \<open>offset + length - 1\<close> down to \<open>offset\<close>, in \<open>uint64_t\<close>.\<close>

definition clear_bit :: "u64 \<Rightarrow> bytes \<Rightarrow> bytes" where
  "clear_bit n bitmap = bitmap[unat (n div 8) := bitmap ! unat (n div 8) AND NOT (push_bit (unat (n mod 8)) 1)]"

fun clear_bits :: "bytes \<Rightarrow> u32 \<Rightarrow> nat \<Rightarrow> bytes" where
  "clear_bits bitmap offset 0 = bitmap"
| "clear_bits bitmap offset (Suc len) = clear_bits (clear_bit (of_nat len + ucast offset) bitmap) offset len"

function ffz :: "u64 \<Rightarrow> u64" where
  "ffz word = (if word AND 1 \<noteq> 0 then 1 + ffz (drop_bit 1 word) else 0)"
  by pat_completeness auto

text \<open>A word of the bitmap, and the bytes of the last, broken word.\<close>

definition bitmap_word :: "bytes \<Rightarrow> nat \<Rightarrow> u32" where
  "bitmap_word addr p = rd32 (drop (4 * p) addr)"

definition bitmap_tail :: "bytes \<Rightarrow> nat \<Rightarrow> u64 \<Rightarrow> u32" where
  "bitmap_tail addr p sz = (let n = unat ((sz + 7) div 8)
     in rd32 (take n (drop (4 * p) addr) @ replicate (4 - n) 0))"

lemma ffz_drop: "w AND 1 \<noteq> 0 \<Longrightarrow> unat (drop_bit 1 w) < unat (w :: u64)"
proof -
  assume "w AND 1 \<noteq> 0"
  then have "unat w \<noteq> 0" by (metis bit.conj_zero_left unsigned_eq_0_iff)
  moreover have "unat w < 2 ^ LENGTH(64)" by (rule unsigned_less)
  ultimately show ?thesis by (simp only: unsigned_drop_bit_eq) (simp add: drop_bit_eq_div take_bit_nat_eq_self)
qed

termination ffz
  by (relation "measure unat") (simp_all add: ffz_drop del: One_nat_def)

declare ffz.simps [simp del]

text \<open>The labels \<open>found_middle\<close> and \<open>found_first\<close> of the search for a one.\<close>

definition one_middle :: "u32 \<Rightarrow> u32 \<Rightarrow> u64" where
  "one_middle result tmp = ucast result + ffz (ucast (NOT tmp))"

definition one_first :: "u32 \<Rightarrow> u64 \<Rightarrow> u32 \<Rightarrow> u64" where
  "one_first result sz tmp =
    (let tmp = tmp AND ucast (drop_bit (unat (32 - sz)) (NOT 0 :: u64))
     in one_middle result (tmp OR ucast (push_bit (unat sz) 1 :: u64)))"

lemma words_left: "unat (sz AND NOT 31 :: u64) = unat sz div 32 * 32"
proof -
  have m: "(31 :: u64) = mask 5" by (simp add: mask_eq_exp_minus_1)
  have "sz AND NOT (mask 5) = push_bit 5 (drop_bit 5 sz)" by (rule bit_word_eqI) (auto simp: bit_simps)
  moreover have "unat (push_bit 5 (drop_bit 5 sz)) = unat sz div 32 * 32"
  proof -
    have "unat sz < 2 ^ LENGTH(64)" by (rule unsigned_less)
    then have "unat sz div 32 * 32 < 2 ^ 64" by simp
    then show ?thesis
      by (simp only: unsigned_push_bit_eq unsigned_drop_bit_eq)
        (simp add: push_bit_eq_mult drop_bit_eq_div take_bit_nat_eq_self)
  qed
  ultimately show ?thesis by (simp only: m)
qed

lemma no_words_left: "sz AND NOT 31 = (0 :: u64) \<longleftrightarrow> unat sz < 32"
proof -
  have "sz AND NOT 31 = (0 :: u64) \<longleftrightarrow> unat sz div 32 * 32 = 0" by (simp only: words_left [symmetric] unsigned_eq_0_iff)
  then show ?thesis by auto
qed

lemma one_word_less: "sz AND NOT 31 \<noteq> 0 \<Longrightarrow> unat (sz - 32) < unat (sz :: u64)"
  using unat_sub [of 32 sz] by (simp only: no_words_left word_le_nat_alt not_less) simp

function next_one_words :: "bytes \<Rightarrow> nat \<Rightarrow> u64 \<Rightarrow> u32 \<Rightarrow> u64" where
  "next_one_words addr p sz result =
    (if sz AND NOT 31 \<noteq> 0 then
       let tmp = bitmap_word addr p
       in if tmp \<noteq> 0 then one_middle result tmp else next_one_words addr (Suc p) (sz - 32) (result + 32)
     else if sz = 0 then ucast result else one_first result sz (bitmap_tail addr p sz))"
  by pat_completeness auto

termination
  by (relation "measure (\<lambda>(addr, p, sz, result). unat sz)") (simp_all add: one_word_less)

declare next_one_words.simps [simp del]

definition udf_find_next_one_bit :: "bytes \<Rightarrow> u64 \<Rightarrow> u64 \<Rightarrow> u64" where
  "udf_find_next_one_bit addr sz offset =
    (if offset \<ge> sz then sz
     else let p = unat (offset div 32); result = ucast (offset AND NOT 31); sz = sz - ucast result; offset = offset AND 31
     in if offset \<noteq> 0 then
          let tmp = (if sz \<ge> 32 then bitmap_word addr p else bitmap_tail addr p sz);
              tmp = tmp AND ucast (push_bit (unat offset) (NOT 0 :: u64))
          in if sz < 32 then one_first result sz tmp
             else if tmp \<noteq> 0 then one_middle result tmp
             else next_one_words addr (Suc p) (sz - 32) (result + 32)
        else next_one_words addr p sz result)"

text \<open>And of the search for a zero.\<close>

definition zero_middle :: "u32 \<Rightarrow> u32 \<Rightarrow> u64" where
  "zero_middle result tmp = ucast result + ffz (ucast tmp)"

definition zero_first :: "u32 \<Rightarrow> u64 \<Rightarrow> u32 \<Rightarrow> u64" where
  "zero_first result sz tmp =
    (let tmp = tmp OR ucast (push_bit (unat sz) (NOT 0 :: u64))
     in if tmp = NOT 0 then ucast result + sz else zero_middle result tmp)"

function next_zero_words :: "bytes \<Rightarrow> nat \<Rightarrow> u64 \<Rightarrow> u32 \<Rightarrow> u64" where
  "next_zero_words addr p sz result =
    (if sz AND NOT 31 \<noteq> 0 then
       let tmp = bitmap_word addr p
       in if NOT tmp \<noteq> 0 then zero_middle result tmp else next_zero_words addr (Suc p) (sz - 32) (result + 32)
     else if sz = 0 then ucast result else zero_first result sz (bitmap_tail addr p sz))"
  by pat_completeness auto

termination
  by (relation "measure (\<lambda>(addr, p, sz, result). unat sz)") (simp_all add: one_word_less)

declare next_zero_words.simps [simp del]

definition udf_find_next_zero_bit :: "bytes \<Rightarrow> u64 \<Rightarrow> u64 \<Rightarrow> u64" where
  "udf_find_next_zero_bit addr sz offset =
    (if offset \<ge> sz then sz
     else let p = unat (offset div 32); result = ucast (offset AND NOT 31); sz = sz - ucast result; offset = offset AND 31
     in if offset \<noteq> 0 then
          let tmp = (if sz \<ge> 32 then bitmap_word addr p else bitmap_tail addr p sz);
              tmp = tmp OR ucast (drop_bit (unat (32 - offset)) (NOT 0 :: u64))
          in if sz < 32 then zero_first result sz tmp
             else if NOT tmp \<noteq> 0 then zero_middle result tmp
             else next_zero_words addr (Suc p) (sz - 32) (result + 32)
        else next_zero_words addr p sz result)"

section \<open>What they should be\<close>

definition next_bit :: "(nat \<Rightarrow> bool) \<Rightarrow> nat \<Rightarrow> nat \<Rightarrow> nat" where
  "next_bit P lo hi = (case find P [lo..<hi] of Some n \<Rightarrow> n | None \<Rightarrow> hi)"

lemma next_bit_eqI:
  assumes "lo \<le> n" "n \<le> hi" "\<And>j. lo \<le> j \<Longrightarrow> j < n \<Longrightarrow> \<not> P j" "n < hi \<Longrightarrow> P n"
  shows "next_bit P lo hi = n"
proof (cases "n < hi")
  case True
  have "[lo..<hi] = [lo..<n] @ n # [Suc n..<hi]"
    using assms(1) True by (metis upt_conv_Cons upt_add_eq_append le_Suc_ex less_imp_le)
  moreover have "find P [lo..<n] = None" using assms(3) by (simp add: find_None_iff)
  ultimately show ?thesis using assms(4) True by (auto simp: next_bit_def find_append)
next
  case False
  then have "find P [lo..<hi] = None" using assms(2,3) by (auto simp: find_None_iff)
  then show ?thesis using assms(1,2) False by (simp add: next_bit_def)
qed

lemma next_bit_skip:
  assumes "lo \<le> mid" "mid \<le> hi" "\<And>j. lo \<le> j \<Longrightarrow> j < mid \<Longrightarrow> \<not> P j"
  shows "next_bit P lo hi = next_bit P mid hi"
proof -
  have "[lo..<hi] = [lo..<mid] @ [mid..<hi]" using assms(1,2) by (metis upt_add_eq_append le_Suc_ex)
  moreover have "find P [lo..<mid] = None" using assms(3) by (simp add: find_None_iff)
  ultimately show ?thesis using assms(1,2) by (simp add: next_bit_def find_append split: option.split)
qed

section \<open>The searches are scans\<close>

lemma ffz_eq: "n \<le> 64 \<Longrightarrow> (\<And>k. k < n \<Longrightarrow> bit w k) \<Longrightarrow> \<not> bit w n \<Longrightarrow> ffz w = of_nat n"
proof (induction n arbitrary: w)
  case 0
  then show ?case by (subst ffz.simps) (simp add: even_iff_mod_2_eq_zero and_one_eq bit_0)
next
  case (Suc n)
  have "w AND 1 \<noteq> 0" using Suc.prems(2) [of 0] by (simp add: and_one_eq bit_0 odd_iff_mod_2_eq_one)
  moreover have "ffz (drop_bit 1 w) = of_nat n"
    using Suc.prems by (intro Suc.IH) (auto simp: bit_drop_bit_eq)
  ultimately show ?case by (subst ffz.simps) simp
qed

lemma lowest_bit:
  assumes "(w :: u32) \<noteq> 0"
  obtains k where "k < 32" "bit w k" "\<And>j. j < k \<Longrightarrow> \<not> bit w j" "ffz (ucast (NOT w)) = of_nat k"
proof -
  define k where "k = (LEAST k. bit w k)"
  obtain b where "bit w b" using assms by (metis bit_word_eqI bit_0_eq bot_apply bot_bool_def)
  then have k: "bit w k" unfolding k_def by (rule LeastI)
  then have "k < 32" using bit_imp_le_length [of w k] by simp
  moreover have low: "\<not> bit w j" if "j < k" for j using that unfolding k_def by (rule not_less_Least)
  moreover have "ffz (ucast (NOT w)) = of_nat k"
    using \<open>k < 32\<close> k low by (intro ffz_eq) (auto simp: bit_simps)
  ultimately show thesis using that k by blast
qed

text \<open>Words of the bitmap, bit by bit.\<close>

lemma bit_rd32:
  assumes "i < 32"
  shows "bit (rd32 bs) i \<longleftrightarrow> byte_bit bs i"
proof -
  have hi: "\<not> bit (w :: u8) n" if "8 \<le> n" for w n using that bit_imp_le_length [of w n] by auto
  define j where "j = i mod 8"
  have j: "j < 8" by (simp add: j_def)
  have "bit (rd32 bs) (8 * k + j) \<longleftrightarrow> bit (bs ! k) j" if "k < 4" for k
  proof -
    have "k = 0 \<or> k = 1 \<or> k = 2 \<or> k = 3" using that by linarith
    then show ?thesis using j by (elim disjE) (simp_all add: rd32_def bit_simps hi)
  qed
  moreover have "i div 8 < 4" using assms by simp
  ultimately show ?thesis unfolding byte_bit_def by (metis j_def mult_div_mod_eq)
qed

lemma byte_bit_drop: "4 * p \<le> length addr \<Longrightarrow> byte_bit (drop (4 * p) addr) k = byte_bit addr (32 * p + k)"
proof -
  have "(32 * p + k) div 8 = 4 * p + k div 8" "(32 * p + k) mod 8 = k mod 8" by presburger+
  then show "4 * p \<le> length addr \<Longrightarrow> ?thesis" by (simp add: byte_bit_def)
qed

lemma bit_bitmap_word: "k < 32 \<Longrightarrow> 4 * p \<le> length addr \<Longrightarrow> bit (bitmap_word addr p) k = byte_bit addr (32 * p + k)"
  by (simp add: bitmap_word_def bit_rd32 byte_bit_drop)

lemma bit_bitmap_tail:
  assumes "k < unat sz" "unat sz < 32" "32 * p + unat sz \<le> 8 * length addr"
  shows "bit (bitmap_tail addr p sz) k = byte_bit addr (32 * p + k)"
proof -
  define n where "n = (unat sz + 7) div 8"
  have "unat (sz + 7) = unat sz + 7" using assms(2) by (simp add: unat_add_lem [THEN iffD1])
  then have n: "unat ((sz + 7) div 8) = n" by (simp add: n_def unat_div)
  have "k div 8 < n" "4 * p + n \<le> length addr" using assms by (auto simp: n_def)
  then have "(take n (drop (4 * p) addr) @ replicate (4 - n) 0) ! (k div 8) = drop (4 * p) addr ! (k div 8)"
    by (simp add: nth_append)
  then show ?thesis
    using assms(1,2) byte_bit_drop [of p addr k] \<open>4 * p + n \<le> length addr\<close>
    by (simp add: bitmap_tail_def n bit_rd32 Let_def) (simp add: byte_bit_def)
qed

lemma of_nat_u64: "n < 2 ^ 63 \<Longrightarrow> unat (of_nat n :: u64) = n"
  by (simp add: unsigned_of_nat take_bit_nat_eq_self)

lemma middle_value:
  assumes "32 * p + k < 2 ^ 32"
  shows "unat (ucast (of_nat (32 * p) :: u32) + of_nat k :: u64) = 32 * p + k"
proof -
  have "unat (of_nat (32 * p) :: u32) = 32 * p"
    using assms by (simp only: unsigned_of_nat) (simp add: take_bit_nat_eq_self)
  then have "(ucast (of_nat (32 * p) :: u32) :: u64) = of_nat (32 * p)" by (metis of_nat_unat)
  then have "ucast (of_nat (32 * p) :: u32) + of_nat k = (of_nat (32 * p + k) :: u64)" by simp
  then show ?thesis using of_nat_u64 [of "32 * p + k"] assms by simp
qed

lemma one_middle_next:
  assumes t: "tmp \<noteq> 0" "\<And>k. k < 32 \<Longrightarrow> bit tmp k \<longleftrightarrow> off \<le> k \<and> P (32 * p + k)"
    and hi: "32 * p + 32 \<le> hi" "hi < 2 ^ 32"
  shows "unat (one_middle (of_nat (32 * p)) tmp) = next_bit P (32 * p + off) hi"
proof -
  obtain k where k: "k < 32" "bit tmp k" "\<And>j. j < k \<Longrightarrow> \<not> bit tmp j" "ffz (ucast (NOT tmp)) = of_nat k"
    using lowest_bit [OF t(1)] by blast
  have "unat (one_middle (of_nat (32 * p)) tmp) = 32 * p + k"
    unfolding one_middle_def k(4) using k(1) hi by (intro middle_value) simp
  moreover have "next_bit P (32 * p + off) hi = 32 * p + k"
  proof (rule next_bit_eqI)
    show "\<not> P j" if j: "32 * p + off \<le> j" "j < 32 * p + k" for j
      using t(2) [of "j - 32 * p"] k(1) k(3) [of "j - 32 * p"] j by simp
  qed (use t(2) [OF k(1)] k hi in auto)
  ultimately show ?thesis by simp
qed

lemma one_first_next:
  assumes s: "0 < unat sz" "unat sz < 32" "off \<le> unat sz" "32 * p + 32 < 2 ^ 32"
    and t: "\<And>k. k < unat sz \<Longrightarrow> bit tmp k \<longleftrightarrow> off \<le> k \<and> P (32 * p + k)"
  shows "unat (one_first (of_nat (32 * p)) sz tmp) = next_bit P (32 * p + off) (32 * p + unat sz)"
proof -
  define w where "w = (tmp AND ucast (drop_bit (unat (32 - sz)) (NOT 0 :: u64))) OR ucast (push_bit (unat sz) 1 :: u64)"
  have n: "unat (32 - sz) = 32 - unat sz" using s(2) by (simp add: unat_sub word_le_nat_alt)
  have w: "bit w k \<longleftrightarrow> bit tmp k \<or> k = unat sz" if "k < 32" for k
    using that s by (auto simp: w_def n bit_simps)
  have "bit w (unat sz)" using w s(2) by blast
  then have "w \<noteq> 0" by auto
  obtain k where k: "k < 32" "bit w k" "\<And>j. j < k \<Longrightarrow> \<not> bit w j" "ffz (ucast (NOT w)) = of_nat k"
    using lowest_bit [OF \<open>w \<noteq> 0\<close>] by blast
  have ks: "k \<le> unat sz" using k(3) [of "unat sz"] \<open>bit w (unat sz)\<close> by force
  have "unat (one_first (of_nat (32 * p)) sz tmp) = 32 * p + k"
    unfolding one_first_def Let_def w_def [symmetric] one_middle_def k(4) using k(1) s(4) by (intro middle_value) simp
  moreover have "next_bit P (32 * p + off) (32 * p + unat sz) = 32 * p + k"
  proof (rule next_bit_eqI)
    show "\<not> P j" if j: "32 * p + off \<le> j" "j < 32 * p + k" for j
      using t [of "j - 32 * p"] w [of "j - 32 * p"] k(1) k(3) [of "j - 32 * p"] j ks by simp
    show "32 * p + off \<le> 32 * p + k" using t [of k] w [OF k(1)] k(2) ks s(3) by (cases "k = unat sz") auto
    show "P (32 * p + k)" if "32 * p + k < 32 * p + unat sz" using t [of k] w [OF k(1)] k(2) that by simp
  qed (use ks in simp)
  ultimately show ?thesis by simp
qed

lemma next_one_words_next:
  "unat sz = n \<Longrightarrow> 32 * p + n < 2 ^ 31 \<Longrightarrow> 32 * p + n \<le> 8 * length addr
    \<Longrightarrow> unat (next_one_words addr p sz (of_nat (32 * p))) = next_bit (byte_bit addr) (32 * p) (32 * p + n)"
proof (induction n arbitrary: p sz rule: less_induct)
  case (less n)
  have lim: "32 * p + 32 < 2 ^ 32" using less.prems(2) by simp
  show ?case
  proof (cases "n < 32")
    case True
    then have "sz AND NOT 31 = 0" using less.prems(1) by (simp only: no_words_left)
    then have eq: "next_one_words addr p sz (of_nat (32 * p))
        = (if sz = 0 then ucast (of_nat (32 * p) :: u32) else one_first (of_nat (32 * p)) sz (bitmap_tail addr p sz))"
      by (subst next_one_words.simps) simp
    show ?thesis
    proof (cases "sz = 0")
      case True
      then show ?thesis unfolding eq using less.prems middle_value [of p 0] lim by (simp add: next_bit_def)
    next
      case False
      then have "0 < unat sz" by (simp add: unat_gt_0)
      then show ?thesis unfolding eq
        using one_first_next [of sz 0 p "bitmap_tail addr p sz" "byte_bit addr"] bit_bitmap_tail [of _ sz p addr] less.prems True lim False
        by simp
    qed
  next
    case False
    then have ne: "sz AND NOT 31 \<noteq> 0" using less.prems(1) by (simp only: no_words_left simp_thms)
    have b: "bit (bitmap_word addr p) k = byte_bit addr (32 * p + k)" if "k < 32" for k
      using bit_bitmap_word [OF that, of p addr] less.prems(3) by simp
    show ?thesis
    proof (cases "bitmap_word addr p = 0")
      case True
      then have none: "\<not> byte_bit addr (32 * p + k)" if "k < 32" for k using b [OF that] by simp
      have u: "unat (sz - 32) = n - 32" using less.prems(1) False unat_sub [of 32 sz] by (simp add: word_le_nat_alt)
      have "of_nat (32 * p) + 32 = (of_nat (32 * Suc p) :: u32)" by simp
      then have step: "next_one_words addr p sz (of_nat (32 * p)) = next_one_words addr (Suc p) (sz - 32) (of_nat (32 * Suc p))"
        using ne True by (subst next_one_words.simps) (simp only: if_True Let_def not_True_eq_False if_False simp_thms)
      have "n - 32 < n" "32 * Suc p + (n - 32) < 2 ^ 31" "32 * Suc p + (n - 32) \<le> 8 * length addr"
        using False less.prems(2,3) by simp_all
      from less.IH [OF this(1) u this(2,3)]
      have "unat (next_one_words addr p sz (of_nat (32 * p))) = next_bit (byte_bit addr) (32 * Suc p) (32 * Suc p + (n - 32))"
        unfolding step .
      moreover have "32 * Suc p + (n - 32) = 32 * p + n" using False by simp
      moreover have "next_bit (byte_bit addr) (32 * p) (32 * p + n) = next_bit (byte_bit addr) (32 * Suc p) (32 * p + n)"
      proof (rule next_bit_skip)
        show "\<not> byte_bit addr j" if "32 * p \<le> j" "j < 32 * Suc p" for j using none [of "j - 32 * p"] that by simp
      qed (use False in simp_all)
      ultimately show ?thesis by simp
    next
      case nz: False
      then have "next_one_words addr p sz (of_nat (32 * p)) = one_middle (of_nat (32 * p)) (bitmap_word addr p)"
        using ne by (subst next_one_words.simps) simp
      then show ?thesis
        using one_middle_next [OF nz, of 0 "byte_bit addr" p "32 * p + n"] b False less.prems(2) by simp
    qed
  qed
qed

lemma zero_middle_next:
  assumes t: "NOT tmp \<noteq> 0" "\<And>k. k < 32 \<Longrightarrow> bit tmp k \<longleftrightarrow> \<not> P (32 * p + k)"
    and hi: "32 * p + 32 \<le> hi" "hi < 2 ^ 32"
  shows "unat (zero_middle (of_nat (32 * p)) tmp) = next_bit P (32 * p) hi"
proof -
  have "bit (NOT tmp) k \<longleftrightarrow> 0 \<le> k \<and> P (32 * p + k)" if "k < 32" for k
    using t(2) [OF that] that by (simp add: bit_not_iff)
  from one_middle_next [OF t(1) this hi] show ?thesis by (simp add: zero_middle_def one_middle_def)
qed

lemma zero_first_next:
  assumes s: "0 < unat sz" "unat sz < 32" "32 * p + 32 < 2 ^ 32"
    and t: "\<And>k. k < unat sz \<Longrightarrow> bit tmp k \<longleftrightarrow> \<not> P (32 * p + k)"
  shows "unat (zero_first (of_nat (32 * p)) sz tmp) = next_bit P (32 * p) (32 * p + unat sz)"
proof -
  define w where "w = NOT (tmp OR ucast (push_bit (unat sz) (NOT 0 :: u64)))"
  have w: "bit w k \<longleftrightarrow> k < unat sz \<and> P (32 * p + k)" if "k < 32" for k
    using that s t [of k] by (auto simp: w_def bit_simps)
  have n: "sz = of_nat (unat sz)" by simp
  show ?thesis
  proof (cases "w = 0")
    case True
    then have "tmp OR ucast (push_bit (unat sz) (NOT 0 :: u64)) = NOT 0" unfolding w_def by (metis bit.double_compl)
    then have "unat (zero_first (of_nat (32 * p)) sz tmp) = 32 * p + unat sz"
      unfolding zero_first_def Let_def using middle_value [of p "unat sz"] s by simp
    moreover have "next_bit P (32 * p) (32 * p + unat sz) = 32 * p + unat sz"
    proof (rule next_bit_eqI)
      show "\<not> P j" if "32 * p \<le> j" "j < 32 * p + unat sz" for j
        using w [of "j - 32 * p"] True that s by simp
    qed simp_all
    ultimately show ?thesis by simp
  next
    case False
    then obtain k where k: "k < 32" "bit w k" "\<And>j. j < k \<Longrightarrow> \<not> bit w j" "ffz (ucast (NOT w)) = of_nat k"
      using lowest_bit by blast
    have ks: "k < unat sz" "P (32 * p + k)" using w [OF k(1)] k(2) by simp_all
    have "tmp OR ucast (push_bit (unat sz) (NOT 0 :: u64)) \<noteq> NOT 0"
    proof
      assume "tmp OR ucast (push_bit (unat sz) (NOT 0 :: u64)) = NOT 0"
      then have "w = 0" unfolding w_def by (simp only: bit.double_compl)
      then show "False" using False by contradiction
    qed
    moreover have "ffz (ucast (tmp OR ucast (push_bit (unat sz) (NOT 0 :: u64)))) = of_nat k"
      using k(4) unfolding w_def by (simp only: bit.double_compl)
    ultimately have "unat (zero_first (of_nat (32 * p)) sz tmp) = 32 * p + k"
      unfolding zero_first_def Let_def zero_middle_def using middle_value [of p k] s k(1) by simp
    moreover have "next_bit P (32 * p) (32 * p + unat sz) = 32 * p + k"
    proof (rule next_bit_eqI)
      show "\<not> P j" if "32 * p \<le> j" "j < 32 * p + k" for j
        using w [of "j - 32 * p"] k(1) k(3) [of "j - 32 * p"] that ks by simp
    qed (use ks in simp_all)
    ultimately show ?thesis by simp
  qed
qed

lemma next_zero_words_next:
  "unat sz = n \<Longrightarrow> 32 * p + n < 2 ^ 31 \<Longrightarrow> 32 * p + n \<le> 8 * length addr
    \<Longrightarrow> unat (next_zero_words addr p sz (of_nat (32 * p))) = next_bit (\<lambda>i. \<not> byte_bit addr i) (32 * p) (32 * p + n)"
proof (induction n arbitrary: p sz rule: less_induct)
  case (less n)
  have lim: "32 * p + 32 < 2 ^ 32" using less.prems(2) by simp
  show ?case
  proof (cases "n < 32")
    case True
    then have "sz AND NOT 31 = 0" using less.prems(1) by (simp only: no_words_left)
    then have eq: "next_zero_words addr p sz (of_nat (32 * p))
        = (if sz = 0 then ucast (of_nat (32 * p) :: u32) else zero_first (of_nat (32 * p)) sz (bitmap_tail addr p sz))"
      by (subst next_zero_words.simps) simp
    show ?thesis
    proof (cases "sz = 0")
      case True
      then show ?thesis unfolding eq using less.prems middle_value [of p 0] lim by (simp add: next_bit_def)
    next
      case False
      then have "0 < unat sz" by (simp add: unat_gt_0)
      then show ?thesis unfolding eq
        using zero_first_next [of sz p "bitmap_tail addr p sz" "\<lambda>i. \<not> byte_bit addr i"] bit_bitmap_tail [of _ sz p addr]
          less.prems True lim False by simp
    qed
  next
    case False
    then have ne: "sz AND NOT 31 \<noteq> 0" using less.prems(1) by (simp only: no_words_left simp_thms)
    have b: "bit (bitmap_word addr p) k = byte_bit addr (32 * p + k)" if "k < 32" for k
      using bit_bitmap_word [OF that, of p addr] less.prems(3) by simp
    show ?thesis
    proof (cases "NOT (bitmap_word addr p) = 0")
      case True
      have all: "byte_bit addr (32 * p + k)" if "k < 32" for k
        using b [OF that] arg_cong [OF True, of "\<lambda>w. bit w k"] that by (simp add: bit_not_iff)
      have u: "unat (sz - 32) = n - 32" using less.prems(1) False unat_sub [of 32 sz] by (simp add: word_le_nat_alt)
      have "of_nat (32 * p) + 32 = (of_nat (32 * Suc p) :: u32)" by simp
      then have step: "next_zero_words addr p sz (of_nat (32 * p)) = next_zero_words addr (Suc p) (sz - 32) (of_nat (32 * Suc p))"
        using ne True by (subst next_zero_words.simps) (simp only: if_True Let_def not_True_eq_False if_False simp_thms)
      have "n - 32 < n" "32 * Suc p + (n - 32) < 2 ^ 31" "32 * Suc p + (n - 32) \<le> 8 * length addr"
        using False less.prems(2,3) by simp_all
      from less.IH [OF this(1) u this(2,3)]
      have "unat (next_zero_words addr p sz (of_nat (32 * p)))
          = next_bit (\<lambda>i. \<not> byte_bit addr i) (32 * Suc p) (32 * Suc p + (n - 32))"
        unfolding step .
      moreover have "32 * Suc p + (n - 32) = 32 * p + n" using False by simp
      moreover have "next_bit (\<lambda>i. \<not> byte_bit addr i) (32 * p) (32 * p + n)
          = next_bit (\<lambda>i. \<not> byte_bit addr i) (32 * Suc p) (32 * p + n)"
      proof (rule next_bit_skip)
        show "\<not> \<not> byte_bit addr j" if "32 * p \<le> j" "j < 32 * Suc p" for j using all [of "j - 32 * p"] that by simp
      qed (use False in simp_all)
      ultimately show ?thesis by simp
    next
      case nz: False
      then have "next_zero_words addr p sz (of_nat (32 * p)) = zero_middle (of_nat (32 * p)) (bitmap_word addr p)"
        using ne by (subst next_zero_words.simps) simp
      then show ?thesis
        using zero_middle_next [OF nz, of "\<lambda>i. \<not> byte_bit addr i" p "32 * p + n"] b False less.prems(2) by simp
    qed
  qed
qed

text \<open>The number of the first word, the rest of the size and the offset in the word.\<close>

lemma search_start:
  assumes "unat (offset :: u64) < unat (sz :: u64)" "unat sz < 2 ^ 31"
  shows "unat (offset div 32) = unat offset div 32"
    "(ucast (offset AND NOT 31) :: u32) = of_nat (32 * (unat offset div 32))"
    "unat (sz - ucast (of_nat (32 * (unat offset div 32)) :: u32)) = unat sz - 32 * (unat offset div 32)"
    "unat (offset AND 31) = unat offset mod 32"
proof -
  define p where "p = unat offset div 32"
  have p: "32 * p \<le> unat offset" by (simp add: p_def)
  show "unat (offset div 32) = unat offset div 32" by (simp add: unat_div)
  have "unat (offset AND NOT 31) = 32 * p" unfolding words_left p_def by simp
  then have o: "offset AND NOT 31 = of_nat (32 * p)" by (metis of_nat_unat ucast_id)
  have small: "unat (of_nat (32 * p) :: u64) = 32 * p" using assms p by (intro of_nat_u64) simp
  have "(ucast (of_nat (32 * p) :: u64) :: u32) = of_nat (unat (of_nat (32 * p) :: u64))" by (rule of_nat_unat [symmetric])
  then have "(ucast (of_nat (32 * p) :: u64) :: u32) = of_nat (32 * p)" by (simp only: small)
  then show "(ucast (offset AND NOT 31) :: u32) = of_nat (32 * (unat offset div 32))" unfolding o p_def .
  have "unat (of_nat (32 * p) :: u32) = 32 * p"
    using assms p by (simp only: unsigned_of_nat) (simp add: take_bit_nat_eq_self)
  then have "(ucast (of_nat (32 * p) :: u32) :: u64) = of_nat (32 * p)" by (metis of_nat_unat)
  moreover have "of_nat (32 * p) \<le> sz" by (simp only: word_le_nat_alt small) (use assms p in linarith)
  then have "unat (sz - of_nat (32 * p)) = unat sz - 32 * p" using unat_sub small by metis
  ultimately show "unat (sz - ucast (of_nat (32 * (unat offset div 32)) :: u32)) = unat sz - 32 * (unat offset div 32)"
    unfolding p_def by (simp only:)
  have m: "(31 :: u64) = mask 5" by (simp add: mask_eq_exp_minus_1)
  show "unat (offset AND 31) = unat offset mod 32"
    unfolding m by (simp only: take_bit_eq_mask [symmetric] unsigned_take_bit_eq) (simp add: take_bit_eq_mod)
qed

lemma one_bit_scan:
  assumes sz: "unat sz < 2 ^ 31" "unat sz \<le> 8 * length addr"
  shows "unat (udf_find_next_one_bit addr sz offset) = next_bit (byte_bit addr) (unat offset) (unat sz)"
proof (cases "unat offset < unat sz")
  case False
  then show ?thesis by (simp add: udf_find_next_one_bit_def word_le_nat_alt next_bit_def)
next
  case True
  define p off s where "p = unat offset div 32" and "off = unat offset mod 32" and "s = sz - ucast (of_nat (32 * p) :: u32)"
  note st = search_start [OF True sz(1), folded p_def off_def, folded s_def]
  have o: "unat offset = 32 * p + off" "off < 32" by (simp_all add: p_def off_def)
  have us: "32 * p + unat s = unat sz" "off < unat s" using st(3) True o by simp_all
  have lim: "32 * p + 32 < 2 ^ 32" using us sz by simp
  have "\<not> offset \<ge> sz" using True by (simp add: word_le_nat_alt)
  then have eq: "udf_find_next_one_bit addr sz offset = (if offset AND 31 \<noteq> 0 then
      let tmp = (if s \<ge> 32 then bitmap_word addr p else bitmap_tail addr p s);
          tmp = tmp AND ucast (push_bit off (NOT 0 :: u64))
      in if s < 32 then one_first (of_nat (32 * p)) s tmp
         else if tmp \<noteq> 0 then one_middle (of_nat (32 * p)) tmp
         else next_one_words addr (Suc p) (s - 32) (of_nat (32 * p) + 32)
    else next_one_words addr p s (of_nat (32 * p)))"
    by (simp only: udf_find_next_one_bit_def Let_def st if_False s_def [symmetric])
  show ?thesis
  proof (cases "off = 0")
    case True
    then have "offset AND 31 = 0" using st(4) by (simp add: unsigned_eq_0_iff)
    then have "udf_find_next_one_bit addr sz offset = next_one_words addr p s (of_nat (32 * p))"
      unfolding eq by (simp only: simp_thms if_False)
    then show ?thesis
      using next_one_words_next [of s "unat s" p addr] us sz o True by simp
  next
    case False
    then have nz: "offset AND 31 \<noteq> 0" using st(4) by (metis unsigned_0)
    define tmp where "tmp = (if s \<ge> 32 then bitmap_word addr p else bitmap_tail addr p s) AND ucast (push_bit off (NOT 0 :: u64))"
    have m: "bit (ucast (push_bit off (NOT 0 :: u64)) :: u32) k \<longleftrightarrow> off \<le> k" if "k < 32" for k
      using that by (auto simp: bit_simps)
    have c: "s \<ge> 32 \<longleftrightarrow> 32 \<le> unat s" "s < 32 \<longleftrightarrow> unat s < 32" by (simp_all add: word_le_nat_alt word_less_nat_alt)
    show ?thesis
    proof (cases "unat s < 32")
      case True
      have "bit tmp k \<longleftrightarrow> off \<le> k \<and> byte_bit addr (32 * p + k)" if "k < unat s" for k
        using bit_bitmap_tail [OF that True] us sz m [of k] that True by (auto simp: tmp_def c bit_and_iff)
      then have "unat (one_first (of_nat (32 * p)) s tmp) = next_bit (byte_bit addr) (32 * p + off) (32 * p + unat s)"
        using us(2) True lim by (intro one_first_next) auto
      then show ?thesis unfolding eq Let_def tmp_def [symmetric] unfolding c using nz True us(1) o(1) by simp
    next
      case False
      then have b: "bit tmp k \<longleftrightarrow> off \<le> k \<and> byte_bit addr (32 * p + k)" if "k < 32" for k
        using bit_bitmap_word [OF that, of p addr] us sz m [OF that] by (auto simp: tmp_def c bit_and_iff)
      show ?thesis
      proof (cases "tmp = 0")
        case True
        have w: "unat (s - 32) = unat s - 32" using False unat_sub [of 32 s] by (simp add: word_le_nat_alt)
        have r: "of_nat (32 * p) + 32 = (of_nat (32 * Suc p) :: u32)" by simp
        have "udf_find_next_one_bit addr sz offset = next_one_words addr (Suc p) (s - 32) (of_nat (32 * Suc p))"
          unfolding eq Let_def tmp_def [symmetric] unfolding c r using nz True False by simp
        moreover have "unat (next_one_words addr (Suc p) (s - 32) (of_nat (32 * Suc p)))
            = next_bit (byte_bit addr) (32 * Suc p) (32 * Suc p + (unat s - 32))"
          using us sz False by (intro next_one_words_next w) simp_all
        moreover have "next_bit (byte_bit addr) (unat offset) (unat sz) = next_bit (byte_bit addr) (32 * Suc p) (unat sz)"
        proof (rule next_bit_skip)
          show "\<not> byte_bit addr j" if "unat offset \<le> j" "j < 32 * Suc p" for j
            using b [of "j - 32 * p"] True that o by simp
        qed (use o us False in simp_all)
        ultimately show ?thesis using us(1) False by simp
      next
        case nt: False
        then have "unat (one_middle (of_nat (32 * p)) tmp) = next_bit (byte_bit addr) (32 * p + off) (unat sz)"
          using b us sz False by (intro one_middle_next) auto
        moreover have "udf_find_next_one_bit addr sz offset = one_middle (of_nat (32 * p)) tmp"
          unfolding eq Let_def tmp_def [symmetric] unfolding c using nz nt False by simp
        ultimately show ?thesis using o(1) by simp
      qed
    qed
  qed
qed

text \<open>The mask for the first word has more than 32 ones, since \<open>unsigned long\<close> has 64 bits: the bits behind the
  offset in that word count as ones.\<close>

lemma zero_bit_scan:
  assumes sz: "unat sz < 2 ^ 31" "unat sz \<le> 8 * length addr"
  shows "unat (udf_find_next_zero_bit addr sz offset) = next_bit (\<lambda>i. \<not> byte_bit addr i)
    (if unat offset mod 32 = 0 then unat offset else 32 * (unat offset div 32 + 1)) (unat sz)"
proof (cases "unat offset < unat sz")
  case False
  then show ?thesis by (auto simp: udf_find_next_zero_bit_def word_le_nat_alt next_bit_def)
next
  case True
  define p off s where "p = unat offset div 32" and "off = unat offset mod 32" and "s = sz - ucast (of_nat (32 * p) :: u32)"
  note st = search_start [OF True sz(1), folded p_def off_def, folded s_def]
  have o: "unat offset = 32 * p + off" "off < 32" by (simp_all add: p_def off_def)
  have us: "32 * p + unat s = unat sz" "off < unat s" using st(3) True o by simp_all
  have "\<not> offset \<ge> sz" using True by (simp add: word_le_nat_alt)
  then have eq: "udf_find_next_zero_bit addr sz offset = (if offset AND 31 \<noteq> 0 then
      let tmp = (if s \<ge> 32 then bitmap_word addr p else bitmap_tail addr p s);
          tmp = tmp OR ucast (drop_bit (unat (32 - (offset AND 31))) (NOT 0 :: u64))
      in if s < 32 then zero_first (of_nat (32 * p)) s tmp
         else if NOT tmp \<noteq> 0 then zero_middle (of_nat (32 * p)) tmp
         else next_zero_words addr (Suc p) (s - 32) (of_nat (32 * p) + 32)
    else next_zero_words addr p s (of_nat (32 * p)))"
    by (simp only: udf_find_next_zero_bit_def Let_def st if_False s_def [symmetric])
  show ?thesis
  proof (cases "off = 0")
    case True
    then have "offset AND 31 = 0" using st(4) by (simp add: unsigned_eq_0_iff)
    then have "udf_find_next_zero_bit addr sz offset = next_zero_words addr p s (of_nat (32 * p))"
      unfolding eq by (simp only: simp_thms if_False)
    moreover have "(if unat offset mod 32 = 0 then unat offset else 32 * (unat offset div 32 + 1)) = 32 * p"
      using True o(1) unfolding off_def by (simp only: simp_thms if_True add_0_right)
    ultimately show ?thesis
      using next_zero_words_next [of s "unat s" p addr] us sz by (simp only:)
  next
    case False
    then have nz: "offset AND 31 \<noteq> 0" using st(4) by (metis unsigned_0)
    have all: "t OR ucast (drop_bit (unat (32 - (offset AND 31))) (NOT 0 :: u64)) = (NOT 0 :: u32)" for t
    proof -
      have "unat (32 - (offset AND 31)) = 32 - off"
        using unat_sub [of "offset AND 31" 32] st(4) o(2) by (simp add: word_le_nat_alt)
      then show ?thesis using o(2) by (intro bit_word_eqI) (simp add: bit_simps)
    qed
    have c: "s < 32 \<longleftrightarrow> unat s < 32" by (simp add: word_less_nat_alt)
    have goal: "(if unat offset mod 32 = 0 then unat offset else 32 * (unat offset div 32 + 1)) = 32 * Suc p"
      using False by (simp add: off_def p_def)
    show ?thesis
    proof (cases "unat s < 32")
      case True
      have "udf_find_next_zero_bit addr sz offset = zero_first (of_nat (32 * p)) s (NOT 0)"
        unfolding eq Let_def all using nz True c by simp
      moreover have "zero_first (of_nat (32 * p)) s (NOT 0) = ucast (of_nat (32 * p) :: u32) + s"
        by (simp add: zero_first_def)
      moreover have "unat (ucast (of_nat (32 * p) :: u32) + s) = unat sz"
        using middle_value [of p "unat s"] us(1) sz(1) by simp
      moreover have "next_bit (\<lambda>i. \<not> byte_bit addr i) (32 * Suc p) (unat sz) = unat sz"
        using True us(1) by (simp add: next_bit_def)
      ultimately show ?thesis unfolding goal by simp
    next
      case big: False
      have w: "unat (s - 32) = unat s - 32" using big unat_sub [of 32 s] by (simp add: word_le_nat_alt)
      have r: "of_nat (32 * p) + 32 = (of_nat (32 * Suc p) :: u32)" by simp
      have "udf_find_next_zero_bit addr sz offset = next_zero_words addr (Suc p) (s - 32) (of_nat (32 * Suc p))"
        using nz big unfolding eq Let_def all r c by (simp only: simp_thms if_True if_False bit.double_compl)
      moreover have "unat (next_zero_words addr (Suc p) (s - 32) (of_nat (32 * Suc p)))
          = next_bit (\<lambda>i. \<not> byte_bit addr i) (32 * Suc p) (32 * Suc p + (unat s - 32))"
        using us sz big by (intro next_zero_words_next w) simp_all
      moreover have "32 * Suc p + (unat s - 32) = unat sz" using us(1) big by simp
      ultimately show ?thesis unfolding goal by simp
    qed
  qed
qed

text \<open>C37: The searches of mkudffs in a space bitmap of less than 2 GiB: the search for a one is a scan from
  the offset on, in words of 32 bits or not. The search for a zero is one only from a multiple of 32 on:
  from any other offset it passes over the rest of that word, whatever its bits are.\<close>

theorem bit_searches_are_scans:
  assumes "unat sz < 2 ^ 31" "unat sz \<le> 8 * length addr"
  shows "unat (udf_find_next_one_bit addr sz offset) = next_bit (byte_bit addr) (unat offset) (unat sz)
    \<and> unat (udf_find_next_zero_bit addr sz offset) = next_bit (\<lambda>i. \<not> byte_bit addr i)
        (if unat offset mod 32 = 0 then unat offset else 32 * (unat offset div 32 + 1)) (unat sz)"
  using one_bit_scan [OF assms] zero_bit_scan [OF assms] by blast

text \<open>Bits 0 to 3 and 33 to 39 of 64: from 1 on the next zero is 4, the search says 32.\<close>

lemma bit_searches_are_scans_witness:
  "unat (udf_find_next_one_bit [0x0f, 0, 0, 0, 0xfe, 0, 0, 0] 64 4) = 33
    \<and> unat (udf_find_next_zero_bit [0x0f, 0, 0, 0, 0xfe, 0, 0, 0] 64 0) = 4
    \<and> unat (udf_find_next_zero_bit [0x0f, 0, 0, 0, 0xfe, 0, 0, 0] 64 1) = 32"
  using bit_searches_are_scans [of 64 "[0x0f, 0, 0, 0, 0xfe, 0, 0, 0]" 4]
    bit_searches_are_scans [of 64 "[0x0f, 0, 0, 0, 0xfe, 0, 0, 0]" 0]
    bit_searches_are_scans [of 64 "[0x0f, 0, 0, 0, 0xfe, 0, 0, 0]" 1]
  by (simp add: next_bit_def byte_bit_def upt_conv_Cons bit_iff_odd)

end
