(* ===== verification/UdfSpace.thy ===== *)
theory UdfSpace
  imports UdfBits UdfVds
begin

text \<open>
  Free space inside the partition: \<open>setup_space\<close> of udf_src/mkudffs/mkudffs.c, which describes it by a bitmap or
  a table, and the allocation of blocks of mkudffs/file.c. An allocation has three ends: it does not return
  (\<open>None\<close>), it ends the run (\<open>Some None\<close>: \<open>exit\<close>, a division by zero, a null pointer that is followed), or it
  returns a block.
\<close>

section \<open>Allocating blocks\<close>

definition FLAG_FREED_BITMAP :: u32 where "FLAG_FREED_BITMAP = 0x00000001"
definition FLAG_FREED_TABLE :: u32 where "FLAG_FREED_TABLE = 0x00000002"
definition FLAG_UNALLOC_TABLE :: u32 where "FLAG_UNALLOC_TABLE = 0x00000008"
definition FLAG_STRATEGY4096 :: u32 where "FLAG_STRATEGY4096 = 0x00000100"

definition TAG_IDENT_TE :: u16 where "TAG_IDENT_TE = 0x0104"
definition TAG_IDENT_USE :: u16 where "TAG_IDENT_USE = 0x0107"
definition TAG_IDENT_SBD :: u16 where "TAG_IDENT_SBD = 0x0108"

definition EXT_LENGTH_MASK :: u32 where "EXT_LENGTH_MASK = 0x3FFFFFFF"
definition EXT_NOT_RECORDED_ALLOCATED :: u32 where "EXT_NOT_RECORDED_ALLOCATED = 0x40000000"

definition align_up :: "u32 \<Rightarrow> u32 \<Rightarrow> u32" where
  "align_up start alignment = ((start + alignment - 1) div alignment) * alignment"

text \<open>The run of free blocks from an aligned block on, or the next free block.\<close>

definition free_run :: "bytes \<Rightarrow> u32 \<Rightarrow> u32 \<Rightarrow> u32 \<times> u32" where
  "free_run bitmap nbits start =
    (if bitmap ! unat (start div 8) AND push_bit (unat (start mod 8)) 1 \<noteq> 0
     then (start, ucast (udf_find_next_zero_bit bitmap (ucast nbits) (ucast start)))
     else let n = ucast (udf_find_next_one_bit bitmap (ucast nbits) (ucast start)) in (n, n))"

partial_function (option) alloc_search :: "bytes \<Rightarrow> u32 \<Rightarrow> u32 \<Rightarrow> u32 \<Rightarrow> u32 \<Rightarrow> u32 option option" where
  "alloc_search bitmap nbits alignment blocks start =
    (if alignment = 0 \<or> align_up start alignment + blocks > nbits then Some None
     else let (start, stop) = free_run bitmap nbits (align_up start alignment)
     in if stop - start < blocks then alloc_search bitmap nbits alignment blocks start else Some (Some start))"

text \<open>The block and the bitmap descriptor: the bitmap begins at byte 24, its length in bits is at byte 16.\<close>

definition udf_alloc_bitmap_blocks :: "udf_disc \<Rightarrow> bytes \<Rightarrow> u32 \<Rightarrow> u32 \<Rightarrow> (u32 \<times> bytes) option option" where
  "udf_alloc_bitmap_blocks disc sbd start blocks =
    map_option (map_option (\<lambda>s. (s, take 24 sbd @ clear_bits (drop 24 sbd) s (unat blocks))))
      (alloc_search (drop 24 sbd) (rd32 (drop 16 sbd)) (sz_align (sizing disc PSPACE_SIZE)) blocks start)"

text \<open>The loop over a table, whose entries (length, position) begin at byte 40 and whose length is at byte 36: the
  start and end of the free blocks found and the offset behind their entry.\<close>

partial_function (option) table_search :: "u32 \<Rightarrow> u32 \<Rightarrow> bytes \<Rightarrow> u32 \<Rightarrow> u32 \<Rightarrow> u32 \<Rightarrow> (u32 \<times> u32 \<times> u32) option option" where
  "table_search bs alignment use blocks offset start =
    (if offset \<ge> rd32 (drop 36 use) \<or> alignment = 0 \<or> bs = 0 then Some None
     else let sad = drop (40 + unat offset) use; position = rd32 (drop 4 sad);
              start = align_up (if start < position then position else start) alignment;
              stop = position + (rd32 sad AND EXT_LENGTH_MASK) div bs;
              start = (if start > stop then stop else start)
     in if stop - start < blocks then table_search bs alignment use blocks (offset + 8) start
        else Some (Some (start, stop, offset + 8)))"

definition sad_bytes :: "u32 \<Rightarrow> u32 \<Rightarrow> bytes" where
  "sad_bytes len position = le32 len @ le32 position"

text \<open>The table with the blocks taken out of the entry that ends at an offset: the entry deleted, moved, cut, or split.\<close>

definition table_take :: "u32 \<Rightarrow> bytes \<Rightarrow> u32 \<Rightarrow> u32 \<Rightarrow> u32 \<Rightarrow> u32 \<Rightarrow> bytes" where
  "table_take bs use start stop offset blocks =
    (let at = 40 + unat offset - 8; sad = drop at use; len = rd32 (drop 36 use);
         extLength = rd32 sad; position = rd32 (drop 4 sad);
         behind = seg (40 + unat offset) (unat (len - offset)) use
     in if start = position \<and> start + blocks = stop then
          patch (40 + unat (len - 8)) (replicate 8 0) (patch 36 (le32 (len - 8)) (patch at behind use))
        else if start = position then patch at (sad_bytes (extLength - blocks * bs) (start + blocks)) use
        else if start + blocks = stop then patch at (le32 (extLength - blocks * bs)) use
        else patch 36 (le32 (len + 8))
               (patch at (sad_bytes (EXT_NOT_RECORDED_ALLOCATED OR (start - position) * bs) position
                   @ sad_bytes (EXT_NOT_RECORDED_ALLOCATED OR (stop - start - blocks) * bs) (start + blocks))
                 (patch (40 + unat offset + 8) behind use)))"

definition udf_alloc_table_blocks ::
  "udf_disc \<Rightarrow> u32 \<Rightarrow> udf_data list \<Rightarrow> u32 \<Rightarrow> u32 \<Rightarrow> (u32 \<times> bytes) option option" where
  "udf_alloc_table_blocks disc location data start blocks =
    (let use = data_buffer (hd data)
     in map_option (\<lambda>r. r \<bind> (\<lambda>(start, stop, offset).
          let use = table_take (blocksize disc) use start stop offset blocks;
              data = (hd data)\<lparr>data_buffer := use\<rparr> # tl data
          in map_option (\<lambda>t. (start, t @ drop 16 use))
               (udf_query_tag (udf_rev disc) TAG_IDENT_USE 1 location data 0 (40 + rd32 (drop 36 use)))))
          (table_search (blocksize disc) (sz_align (sizing disc PSPACE_SIZE)) use blocks 0 start))"

text \<open>Where the descriptors of free space are, in the header of the partition descriptor.\<close>

definition PHD_UNALLOC_TABLE :: nat where "PHD_UNALLOC_TABLE = 56"
definition PHD_UNALLOC_BITMAP :: nat where "PHD_UNALLOC_BITMAP = 64"
definition PHD_FREED_TABLE :: nat where "PHD_FREED_TABLE = 80"
definition PHD_FREED_BITMAP :: nat where "PHD_FREED_BITMAP = 88"

definition phd_position :: "nat \<Rightarrow> udf_vol \<Rightarrow> u32" where
  "phd_position field v = rd32 (drop (field + 4) (vol_pd v))"

text \<open>The count of free blocks, the first number of the first table of the integrity descriptor.\<close>

definition take_free :: "u32 \<Rightarrow> udf_disc \<Rightarrow> udf_disc" where
  "take_free n disc = disc\<lparr>lvid_tables := patch 0 (le32 (rd32 (lvid_tables disc) - n)) (lvid_tables disc)\<rparr>"

definition alloc_in :: "(udf_desc \<Rightarrow> (u32 \<times> bytes) option option) \<Rightarrow> u32 \<Rightarrow> udf_desc list \<Rightarrow> (u32 \<times> udf_desc list) option option" where
  "alloc_in f position descs =
    (if descs = [] then Some None
     else case find_desc descs position of None \<Rightarrow> Some None
     | Some i \<Rightarrow> map_option (map_option (\<lambda>(s, b). (s, descs[i := (descs ! i)\<lparr>desc_data :=
         (hd (desc_data (descs ! i)))\<lparr>data_buffer := b\<rparr> # tl (desc_data (descs ! i))\<rparr>]))) (f (descs ! i)))"

text \<open>The block, the disc, the partition's descriptors and the entries of the virtual allocation table.\<close>

definition udf_alloc_blocks :: "udf_vol \<Rightarrow> udf_extent \<Rightarrow> u32 \<Rightarrow> u32 \<Rightarrow> u32 list \<Rightarrow> udf_disc
    \<Rightarrow> (u32 \<times> u32 list \<times> udf_extent \<times> udf_disc) option option" where
  "udf_alloc_blocks v pspace start blocks vat disc =
    (let disc = take_free blocks disc; descs = ext_descs pspace;
         bitmap = (\<lambda>d. udf_alloc_bitmap_blocks disc (data_buffer (hd (desc_data d))) start blocks);
         table = (\<lambda>d. udf_alloc_table_blocks disc (desc_offset d) (desc_data d) start blocks);
         result = map_option (map_option (\<lambda>(s, descs). (s, vat, pspace\<lparr>ext_descs := descs\<rparr>, disc)))
     in if flagged disc FLAG_FREED_BITMAP then result (alloc_in bitmap (phd_position PHD_FREED_BITMAP v) descs)
        else if flagged disc FLAG_FREED_TABLE then result (alloc_in table (phd_position PHD_FREED_TABLE v) descs)
        else if flagged disc FLAG_UNALLOC_BITMAP then result (alloc_in bitmap (phd_position PHD_UNALLOC_BITMAP v) descs)
        else if flagged disc FLAG_UNALLOC_TABLE then result (alloc_in table (phd_position PHD_UNALLOC_TABLE v) descs)
        else if flagged disc FLAG_VAT then
          (let (offset, len) = (if descs = [] then (0, 0)
                 else (desc_offset (last descs),
                       ucast ((desc_length (last descs) + ucast (blocksize disc) - 1) div ucast (blocksize disc)) :: u32));
               start = (if offset + len > start then offset + len else start)
           in if blocksize disc = 0 \<and> descs \<noteq> [] \<or> start \<ge> ext_blocks pspace
                \<or> (of_nat (length vat) + ucast blocks) * 4 > (ucast (blocksize disc) :: u64) then Some None
              else Some (Some (start, vat @ map (\<lambda>i. start + of_nat i) [0..<unat blocks], pspace, disc)))
        else Some (Some (0, vat, pspace, disc)))"

section \<open>Describing the free space\<close>

text \<open>The first part of \<open>setup_space\<close>: which field of the partition header points to the descriptor, its
  length there, and the blocks it takes from the count of free ones.\<close>

definition bitmap_length :: "u32 \<Rightarrow> u32 \<Rightarrow> u32" where
  "bitmap_length bs blocks = ucast ((24 + ucast ((blocks + 7) div 8) + ucast bs - 1) div ucast bs * (ucast bs :: u64))"

definition space_field :: "udf_disc \<Rightarrow> u32 \<Rightarrow> (nat \<times> u32 \<times> u32) option" where
  "space_field disc len =
    (let table = (if flagged disc FLAG_STRATEGY4096 then (blocksize disc * 2, 2) else (blocksize disc, 1));
         bitmap = (len, len div blocksize disc)
     in if flagged disc FLAG_FREED_BITMAP then Some (PHD_FREED_BITMAP, bitmap)
        else if flagged disc FLAG_FREED_TABLE then Some (PHD_FREED_TABLE, table)
        else if flagged disc FLAG_UNALLOC_BITMAP then Some (PHD_UNALLOC_BITMAP, bitmap)
        else if flagged disc FLAG_UNALLOC_TABLE then Some (PHD_UNALLOC_TABLE, table) else None)"

definition point_to_space :: "u32 \<Rightarrow> udf_extent \<Rightarrow> udf_vol \<times> udf_disc \<Rightarrow> udf_vol \<times> udf_disc" where
  "point_to_space offset pspace = (\<lambda>(v, disc).
     case space_field disc (bitmap_length (blocksize disc) (ext_blocks pspace)) of None \<Rightarrow> (v, disc)
     | Some (field, len, used) \<Rightarrow>
         (v\<lparr>vol_pd := patch field (sad_bytes len offset) (vol_pd v)\<rparr>, take_free used disc))"

text \<open>All blocks of the partition free but for those of the bitmap itself, from the offset on.\<close>

definition space_bitmap :: "u32 \<Rightarrow> u32 \<Rightarrow> u32 \<Rightarrow> bytes" where
  "space_bitmap bs blocks offset =
    (let nbytes = (blocks + 7) div 8; bm = replicate (unat nbytes) 0xFF;
         bm = (if blocks mod 8 \<noteq> 0 then bm[unat nbytes - 1 := drop_bit (unat (8 - blocks mod 8)) 0xFF] else bm)
     in clear_bits bm offset (unat ((24 + nbytes + bs - 1) div bs)))"

definition setup_space_bitmap :: "bool \<Rightarrow> u32 \<Rightarrow> udf_disc \<Rightarrow> udf_extent \<Rightarrow> udf_extent option" where
  "setup_space_bitmap calloc_ok offset disc pspace =
    (let blocks = ext_blocks pspace; nbytes = (blocks + 7) div 8; bs = blocksize disc in do {
       (k, descs) \<leftarrow> set_desc calloc_ok (ext_descs pspace) TAG_IDENT_SBD offset (24 + nbytes) None;
       let data = hd (desc_data (descs ! k));
       let sbd = (\<lambda>t. t @ le32 blocks @ le32 nbytes @ space_bitmap bs blocks offset);
       t \<leftarrow> udf_query_tag (udf_rev disc) TAG_IDENT_SBD 1 offset [data\<lparr>data_buffer := sbd (replicate 16 0)\<rparr>] 0 24;
       Some (pspace\<lparr>ext_descs := descs[k := (descs ! k)\<lparr>desc_data := [data\<lparr>data_buffer := sbd t\<rparr>]\<rparr>]\<rparr>)
     })"

text \<open>The entries of a table over a number of bytes of free space: as many of the longest length as are
  needed, then the rest.\<close>

function table_entries :: "u32 \<Rightarrow> u32 \<Rightarrow> u32 \<Rightarrow> u64 \<Rightarrow> bytes" where
  "table_entries bs mx pos left =
    (if mx \<noteq> 0 \<and> left > ucast mx
     then sad_bytes (EXT_NOT_RECORDED_ALLOCATED OR mx) pos @ table_entries bs mx (pos + mx div bs) (left - ucast mx)
     else sad_bytes (EXT_NOT_RECORDED_ALLOCATED OR ucast left) pos)"
  by pat_completeness auto

termination
proof (relation "measure (\<lambda>(bs, mx, pos, left). unat left)")
  fix bs mx pos :: u32 and left :: u64
  assume h: "mx \<noteq> 0 \<and> left > ucast mx"
  then have "unat mx \<noteq> 0" by (simp add: unsigned_eq_0_iff)
  moreover have "unat (ucast mx :: u64) = unat mx" by transfer simp
  moreover have "unat (ucast mx :: u64) < unat left" using h by (simp add: word_less_nat_alt)
  moreover have "unat (left - ucast mx) = unat left - unat (ucast mx :: u64)"
    using h by (intro unat_sub) (simp add: word_le_nat_alt word_less_nat_alt)
  ultimately show "((bs, mx, pos + mx div bs, left - ucast mx), bs, mx, pos, left)
      \<in> measure (\<lambda>(bs, mx, pos, left). unat left)" by simp
qed simp

declare table_entries.simps [simp del]

text \<open>\<open>icbTag\<close> of an entry without prior ones and without flags; the terminal entry names its parent.\<close>

definition icb_bytes :: "u32 \<Rightarrow> u16 \<Rightarrow> u16 \<Rightarrow> u16 \<Rightarrow> u8 \<Rightarrow> u32 \<Rightarrow> bytes" where
  "icb_bytes prior strategy parameter entries fileType parent =
    le32 prior @ le16 strategy @ le16 parameter @ le16 entries @ [0, fileType] @ le32 parent @ le16 0 @ le16 0"

definition setup_space_table :: "memory \<Rightarrow> u32 \<Rightarrow> udf_disc \<Rightarrow> udf_extent \<Rightarrow> udf_extent option" where
  "setup_space_table mem offset disc pspace =
    (let bs = blocksize disc; strategy4096 = flagged disc FLAG_STRATEGY4096;
         len = (if strategy4096 then bs * 2 else bs);
         mx = EXT_LENGTH_MASK div bs * bs;
         rem = ucast (ext_blocks pspace) * ucast bs - ucast len :: u64 in do {
       (k, descs) \<leftarrow> set_desc (mem [pspace] 0) (ext_descs pspace) TAG_IDENT_USE offset bs None;
       pos \<leftarrow> (if mx = 0 \<or> ucast bs - 40 < (rem div ucast mx) * 8 then None else Some (offset + len div bs));
       let entries = (if rem > ucast EXT_LENGTH_MASK then table_entries bs mx pos rem
                      else sad_bytes (EXT_NOT_RECORDED_ALLOCATED OR ucast rem) pos);
       let data = hd (desc_data (descs ! k));
       let use = (\<lambda>t. patch 0 (t @ (if strategy4096 then icb_bytes 0 4096 1 2 0x01 0 else icb_bytes 0 4 0 1 0x01 0)
             @ le32 (of_nat (length entries)) @ entries) (data_buffer data));
       t \<leftarrow> udf_query_tag (udf_rev disc) TAG_IDENT_USE 1 offset [data\<lparr>data_buffer := use (replicate 16 0)\<rparr>] 0
             (40 + of_nat (length entries));
       let pspace = pspace\<lparr>ext_descs := descs[k := (descs ! k)\<lparr>desc_data := [data\<lparr>data_buffer := use t\<rparr>]\<rparr>]\<rparr>;
       if strategy4096 \<and> \<not> flagged disc FLAG_BLANK_TERMINAL then do {
         (k, descs) \<leftarrow> set_desc (mem [pspace] 0) (ext_descs pspace) TAG_IDENT_TE (offset + 1) 36 None;
         let desc = (\<lambda>t. (descs ! k)\<lparr>desc_data := [(hd (desc_data (descs ! k)))\<lparr>data_buffer :=
           t @ icb_bytes 1 4096 1 2 0x0B offset\<rparr>]\<rparr>);
         t \<leftarrow> query_tag (udf_rev disc) pspace (desc (replicate 16 0)) 1;
         Some (pspace\<lparr>ext_descs := descs[k := desc t]\<rparr>)
       } else Some pspace
     })"

definition setup_space :: "memory \<Rightarrow> nat \<Rightarrow> u32 \<Rightarrow> udf_vol \<Rightarrow> udf_disc \<Rightarrow> (udf_vol \<times> udf_disc) option" where
  "setup_space mem i offset v disc =
    (let pspace = extents disc ! i; (v, disc) = point_to_space offset pspace (v, disc) in
     if blocksize disc = 0 then None
     else map_option (\<lambda>pspace. (v, disc\<lparr>extents := (extents disc)[i := pspace]\<rparr>))
       (if flagged disc FLAG_FREED_BITMAP \<or> flagged disc FLAG_UNALLOC_BITMAP
        then setup_space_bitmap (mem (extents disc) 0) offset disc pspace
        else if flagged disc FLAG_FREED_TABLE \<or> flagged disc FLAG_UNALLOC_TABLE
        then setup_space_table mem offset disc pspace
        else Some pspace))"

end
