(* ===== verification/UdfAlloc.thy ===== *)
theory UdfAlloc
  imports UdfSpace UdfRecog
begin

text \<open>
  What the allocations of mkudffs do to the space bitmap: the bits that are cleared, the first block that is found, and
  the run of free blocks that is too short for the search to end.
\<close>

section \<open>Cleared bits\<close>

lemma length_clear_bit [simp]: "length (clear_bit n bitmap) = length bitmap"
  by (simp add: clear_bit_def)

lemma length_clear_bits [simp]: "length (clear_bits bitmap offset n) = length bitmap"
  by (induction bitmap offset n rule: clear_bits.induct) simp_all

lemma byte_bit_clear_bit:
  assumes "unat n div 8 < length bitmap" "i div 8 < length bitmap"
  shows "byte_bit (clear_bit n bitmap) i \<longleftrightarrow> byte_bit bitmap i \<and> i \<noteq> unat n"
proof -
  have u: "unat (n div 8) = unat n div 8" "unat (n mod 8) = unat n mod 8" by (simp_all add: unat_div unat_mod)
  show ?thesis
  proof (cases "i div 8 = unat n div 8")
    case True
    then have "i = unat n \<longleftrightarrow> i mod 8 = unat n mod 8" by (metis div_mult_mod_eq)
    then show ?thesis using True assms by (auto simp: byte_bit_def clear_bit_def u bit_simps)
  next
    case False
    then have "i \<noteq> unat n" by auto
    then show ?thesis using False by (simp add: byte_bit_def clear_bit_def u)
  qed
qed

lemma byte_bit_clear_bits:
  assumes "unat offset + n \<le> 8 * length bitmap" "unat offset + n < 2 ^ 63" "i < 8 * length bitmap"
  shows "byte_bit (clear_bits bitmap offset n) i \<longleftrightarrow> byte_bit bitmap i \<and> \<not> (unat offset \<le> i \<and> i < unat offset + n)"
  using assms
proof (induction n arbitrary: bitmap)
  case 0
  then show ?case by auto
next
  case (Suc n)
  have o: "unat (of_nat n + ucast offset :: u64) = unat offset + n"
  proof -
    have "(of_nat n + ucast offset :: u64) = of_nat (unat offset + n)" by simp
    then show ?thesis using Suc.prems(2) by (simp only: of_nat_u64)
  qed
  have "byte_bit (clear_bit (of_nat n + ucast offset) bitmap) i \<longleftrightarrow> byte_bit bitmap i \<and> i \<noteq> unat offset + n"
    using byte_bit_clear_bit [of "of_nat n + ucast offset" bitmap i] Suc.prems by (simp only: o)
  then show ?case using Suc.IH [of "clear_bit (of_nat n + ucast offset) bitmap"] Suc.prems by auto
qed

section \<open>The search for one block\<close>

lemma next_bit_unfold:
  "lo < hi \<Longrightarrow> next_bit P lo hi = (if P lo then lo else next_bit P (Suc lo) hi)"
  by (simp add: next_bit_def upt_conv_Cons)

lemma next_bit_le: "lo \<le> hi \<Longrightarrow> lo \<le> next_bit P lo hi \<and> next_bit P lo hi \<le> hi"
  by (auto simp: next_bit_def find_Some_iff split: option.split)

lemma next_bit_hi: "hi \<le> lo \<Longrightarrow> next_bit P lo hi = hi"
  by (simp add: next_bit_def)

lemma next_bit_P: "next_bit P lo hi < hi \<Longrightarrow> P (next_bit P lo hi)"
proof -
  assume h: "next_bit P lo hi < hi"
  then obtain n where n: "find P [lo..<hi] = Some n" by (auto simp: next_bit_def split: option.splits)
  then have "P n" by (auto simp: find_Some_iff)
  then show ?thesis by (simp add: next_bit_def n)
qed

lemma next_bit_before: "lo \<le> j \<Longrightarrow> j < next_bit P lo hi \<Longrightarrow> j < hi \<Longrightarrow> \<not> P j"
proof (induction "hi - lo" arbitrary: lo)
  case (Suc n)
  then have "n = hi - Suc lo" by simp
  then show ?case
    using Suc next_bit_unfold [of lo hi P] by (cases "j = lo") (auto split: if_splits)
qed simp

lemma unat_ucast_down: "unat (x :: u64) < 2 ^ 32 \<Longrightarrow> unat (ucast x :: u32) = unat x"
  by (simp add: unsigned_ucast_eq take_bit_nat_eq_self)

lemma unat_align_up:
  assumes "alignment \<noteq> 0" "unat start + unat alignment \<le> 2 ^ 32"
  shows "unat (align_up start alignment) = (unat start + unat alignment - 1) div unat alignment * unat alignment"
proof -
  let ?a = "unat alignment"
  have a: "0 < ?a" using assms(1) by (simp add: unat_gt_0)
  have n: "unat start + ?a - 1 < 2 ^ 32" using assms(2) a by linarith
  have "start + alignment - 1 = of_nat (unat start + ?a - 1)" using a by (simp add: of_nat_diff)
  then have s: "unat (start + alignment - 1) = unat start + ?a - 1"
    using n by (simp only: unsigned_of_nat) (simp add: take_bit_nat_eq_self)
  let ?d = "(unat start + ?a - 1) div ?a * ?a"
  have "?d < 2 ^ 32" using n div_times_less_eq_dividend le_less_trans by blast
  moreover have "align_up start alignment = of_nat ?d" by (simp add: align_up_def word_arith_nat_div s)
  ultimately show ?thesis by (simp only: unsigned_of_nat) (simp add: take_bit_nat_eq_self)
qed

text \<open>The first multiple of the alignment from a number on.\<close>

lemma first_multiple:
  fixes a n :: nat
  assumes "0 < a"
  defines "m \<equiv> (n + a - 1) div a * a"
  shows "a dvd m" "n \<le> m" "m < n + a" "n \<le> j \<Longrightarrow> j < m \<Longrightarrow> \<not> a dvd j"
proof -
  let ?x = "n + a - 1"
  have m: "m + ?x mod a = ?x" by (simp add: m_def)
  have r: "?x mod a < a" using assms(1) by simp
  show 1: "a dvd m" by (simp add: m_def)
  show "n \<le> m" using m r assms(1) by linarith
  show 2: "m < n + a" using m assms(1) by linarith
  show "\<not> a dvd j" if "n \<le> j" "j < m"
  proof
    assume "a dvd j"
    with 1 have "a dvd m - j" by (simp add: dvd_diff_nat)
    then have "a \<le> m - j" using that(2) by (simp add: dvd_imp_le)
    then show False using that 2 by linarith
  qed
qed

lemma bitmap_test: "bitmap ! unat (a div 8) AND push_bit (unat (a mod 8)) 1 \<noteq> 0 \<longleftrightarrow> byte_bit bitmap (unat a)"
  for a :: u32
  by (simp add: byte_bit_def unat_div unat_mod bit_iff_and_push_bit_not_eq_0)

lemma free_run_bounds:
  assumes n: "unat nbits < 2 ^ 31" "unat nbits \<le> 8 * length bitmap" and a: "unat a < unat nbits"
  shows "byte_bit bitmap (unat a) \<Longrightarrow> \<exists>e. free_run bitmap nbits a = (a, e) \<and> unat a < unat e \<and> unat e \<le> unat nbits"
    and "\<not> byte_bit bitmap (unat a) \<Longrightarrow> \<exists>e. free_run bitmap nbits a = (e, e)
      \<and> unat e = next_bit (byte_bit bitmap) (unat a) (unat nbits)"
proof -
  have u: "unat (ucast nbits :: u64) = unat nbits" "unat (ucast a :: u64) = unat a" by (transfer, simp)+
  note scan = one_bit_scan [of "ucast nbits" bitmap "ucast a", unfolded u, OF n]
    zero_bit_scan [of "ucast nbits" bitmap "ucast a", unfolded u, OF n]
  show "\<exists>e. free_run bitmap nbits a = (a, e) \<and> unat a < unat e \<and> unat e \<le> unat nbits" if b: "byte_bit bitmap (unat a)"
  proof -
    let ?lo = "if unat a mod 32 = 0 then unat a else 32 * (unat a div 32 + 1)"
    let ?e = "next_bit (\<lambda>i. \<not> byte_bit bitmap i) ?lo (unat nbits)"
    have e: "unat a < ?e \<and> ?e \<le> unat nbits"
    proof (cases "unat a mod 32 = 0")
      case True
      then show ?thesis
        using b a next_bit_unfold [of "unat a" "unat nbits" "\<lambda>i. \<not> byte_bit bitmap i"]
          next_bit_le [of "Suc (unat a)" "unat nbits" "\<lambda>i. \<not> byte_bit bitmap i"] by simp
    next
      case False
      then have l: "?lo = 32 * (unat a div 32 + 1)" "unat a < ?lo" by (simp, simp)
      then show ?thesis
        using a next_bit_le [of ?lo "unat nbits" "\<lambda>i. \<not> byte_bit bitmap i"]
          next_bit_hi [of "unat nbits" ?lo "\<lambda>i. \<not> byte_bit bitmap i"]
        by (cases "?lo \<le> unat nbits") auto
    qed
    have "unat (ucast (udf_find_next_zero_bit bitmap (ucast nbits) (ucast a)) :: u32) = ?e"
      using e n(1) scan(2) by (subst unat_ucast_down) auto
    then show ?thesis using e b unfolding free_run_def bitmap_test by simp
  qed
  show "\<exists>e. free_run bitmap nbits a = (e, e) \<and> unat e = next_bit (byte_bit bitmap) (unat a) (unat nbits)"
    if b: "\<not> byte_bit bitmap (unat a)"
  proof -
    have "unat (ucast (udf_find_next_one_bit bitmap (ucast nbits) (ucast a)) :: u32)
        = next_bit (byte_bit bitmap) (unat a) (unat nbits)"
      using n(1) a scan(1) next_bit_le [of "unat a" "unat nbits" "byte_bit bitmap"] by (subst unat_ucast_down) auto
    then show ?thesis using b unfolding free_run_def bitmap_test by (simp add: Let_def)
  qed
qed

text \<open>The first free block that is a multiple of the alignment.\<close>

definition first_aligned :: "bytes \<Rightarrow> u32 \<Rightarrow> u32 \<Rightarrow> u32 \<Rightarrow> u32 option" where
  "first_aligned bitmap nbits alignment start =
    (let b = next_bit (\<lambda>i. byte_bit bitmap i \<and> unat alignment dvd i) (unat start) (unat nbits)
     in if b < unat nbits then Some (of_nat b) else None)"

lemma alloc_search_one:
  assumes al: "alignment \<noteq> 0" "unat alignment < 2 ^ 31" and n: "unat nbits < 2 ^ 31" "unat nbits \<le> 8 * length bitmap"
  shows "unat start \<le> 2 ^ 31 \<Longrightarrow> alloc_search bitmap nbits alignment 1 start = Some (first_aligned bitmap nbits alignment start)"
proof (induction "unat nbits - unat start" arbitrary: start rule: less_induct)
  case less
  let ?Q = "\<lambda>i. byte_bit bitmap i \<and> unat alignment dvd i"
  let ?a = "align_up start alignment"
  define m where "m = (unat start + unat alignment - 1) div unat alignment * unat alignment"
  have "0 < unat alignment" using al(1) by (simp add: unat_gt_0)
  note m = first_multiple [OF this, of "unat start", folded m_def]
  have a: "unat ?a = m" using al less.prems by (simp add: unat_align_up m_def)
  have a1: "unat (?a + 1) = m + 1"
    using a m(3) al(2) less.prems by (intro trans [OF unat_add_lem [THEN iffD1]]) simp_all
  show ?case
  proof (cases "m < unat nbits")
    case False
    have "next_bit ?Q (unat start) (unat nbits) = unat nbits"
    proof (cases "unat start \<le> unat nbits")
      case True
      then show ?thesis by (rule next_bit_eqI) (use m(4) False in auto)
    qed (simp add: next_bit_hi)
    moreover have "?a + 1 > nbits" using False a1 by (simp add: word_less_nat_alt)
    ultimately show ?thesis by (subst alloc_search.simps) (simp add: first_aligned_def)
  next
    case True
    then have go: "\<not> (alignment = 0 \<or> ?a + 1 > nbits)" using a1 al(1) by (simp add: word_less_nat_alt)
    have ma: "unat ?a < unat nbits" using True a by simp
    show ?thesis
    proof (cases "byte_bit bitmap m")
      case True
      then obtain e where e: "free_run bitmap nbits ?a = (?a, e)" "unat ?a < unat e"
        using free_run_bounds(1) [OF n ma] a by auto
      then have "\<not> e - ?a < 1" by (simp add: word_less_nat_alt unat_sub word_le_nat_alt)
      then have "alloc_search bitmap nbits alignment 1 start = Some (Some ?a)"
        using go e(1) by (subst alloc_search.simps) simp
      moreover have "next_bit ?Q (unat start) (unat nbits) = m"
        using m \<open>m < unat nbits\<close> True by (intro next_bit_eqI) auto
      moreover have "?a = of_nat m" using a by (metis of_nat_unat ucast_id)
      ultimately show ?thesis using \<open>m < unat nbits\<close> by (simp add: first_aligned_def)
    next
      case False
      then obtain e where e: "free_run bitmap nbits ?a = (e, e)" "unat e = next_bit (byte_bit bitmap) m (unat nbits)"
        using free_run_bounds(2) [OF n ma] a by auto
      have le: "m < unat e" "unat e \<le> unat nbits"
        using e(2) False True next_bit_unfold [of m "unat nbits" "byte_bit bitmap"]
          next_bit_le [of "Suc m" "unat nbits" "byte_bit bitmap"] by auto
      have "alloc_search bitmap nbits alignment 1 start = alloc_search bitmap nbits alignment 1 e"
        using go e(1) by (subst alloc_search.simps) simp
      also have "\<dots> = Some (first_aligned bitmap nbits alignment e)"
        using le n(1) m(2) True by (intro less.hyps) auto
      also have "first_aligned bitmap nbits alignment e = first_aligned bitmap nbits alignment start"
      proof -
        have "next_bit ?Q (unat start) (unat nbits) = next_bit ?Q (unat e) (unat nbits)"
        proof (rule next_bit_skip)
          show "\<not> ?Q j" if "unat start \<le> j" "j < unat e" for j
            using that m(4) [of j] next_bit_before [of m j "byte_bit bitmap" "unat nbits"] e(2) le(2) by (cases "j < m") auto
        qed (use le m(2) in auto)
        then show ?thesis by (simp add: first_aligned_def)
      qed
      finally show ?thesis .
    qed
  qed
qed

section \<open>The space bitmap\<close>

text \<open>The bytes and blocks of the bitmap of a partition.\<close>

definition map_bytes :: "u32 \<Rightarrow> nat" where
  "map_bytes blocks = (unat blocks + 7) div 8"

definition map_blocks :: "u32 \<Rightarrow> u32 \<Rightarrow> nat" where
  "map_blocks bs blocks = (24 + map_bytes blocks + unat bs - 1) div unat bs"

lemma unat_of_nat_u32: "n < 2 ^ 32 \<Longrightarrow> unat (of_nat n :: u32) = n"
  by (simp only: unsigned_of_nat) (simp add: take_bit_nat_eq_self)

lemma map_bytes_word:
  assumes "unat blocks < 2 ^ 31"
  shows "unat ((blocks + 7) div 8) = map_bytes blocks"
proof -
  have "blocks + 7 = of_nat (unat blocks + 7)" by simp
  moreover have "unat blocks + 7 < 2 ^ 32" using assms by simp
  ultimately have "unat (blocks + 7) = unat blocks + 7" by (simp only: unat_of_nat_u32)
  then show ?thesis by (simp add: unat_div map_bytes_def)
qed

lemma map_blocks_le: "bs \<noteq> 0 \<Longrightarrow> map_blocks bs blocks * unat bs \<le> 24 + map_bytes blocks + unat bs - 1"
  by (simp add: map_blocks_def)

lemma map_blocks_word:
  assumes bs: "bs \<noteq> 0" "unat bs \<le> 2 ^ 16" and blocks: "unat blocks < 2 ^ 31"
  shows "unat ((24 + (blocks + 7) div 8 + bs - 1) div bs) = map_blocks bs blocks"
proof -
  have b: "0 < unat bs" using bs(1) by (simp add: unat_gt_0)
  have "24 + (blocks + 7) div 8 + bs - 1 = (of_nat (24 + map_bytes blocks + unat bs - 1) :: u32)"
    using b by (simp add: of_nat_diff map_bytes_word [OF blocks, symmetric])
  moreover have "24 + map_bytes blocks + unat bs - 1 < 2 ^ 32" using bs(2) blocks by (simp add: map_bytes_def)
  ultimately have "unat (24 + (blocks + 7) div 8 + bs - 1) = 24 + map_bytes blocks + unat bs - 1"
    by (simp only: unat_of_nat_u32)
  then show ?thesis by (simp add: unat_div map_blocks_def)
qed

lemma bitmap_length_blocks:
  assumes bs: "bs \<noteq> 0" "unat bs \<le> 2 ^ 16" and blocks: "unat blocks < 2 ^ 31"
  shows "unat (bitmap_length bs blocks div bs) = map_blocks bs blocks"
proof -
  have b: "0 < unat bs" using bs(1) by (simp add: unat_gt_0)
  have t: "24 + map_bytes blocks + unat bs - 1 < 2 ^ 32" using bs(2) blocks by (simp add: map_bytes_def)
  have u: "unat (ucast w :: u64) = unat w" for w :: u32 by (transfer, simp)
  have "24 + ucast ((blocks + 7) div 8) + ucast bs - 1 = (of_nat (24 + map_bytes blocks + unat bs - 1) :: u64)"
    using b by (simp add: of_nat_diff map_bytes_word [OF blocks, symmetric])
  then have s: "unat (24 + ucast ((blocks + 7) div 8) + ucast bs - 1 :: u64) = 24 + map_bytes blocks + unat bs - 1"
    using of_nat_u64 [of "24 + map_bytes blocks + unat bs - 1"] t by simp
  have m: "map_blocks bs blocks * unat bs < 2 ^ 32" using map_blocks_le [OF bs(1), of blocks] t by linarith
  define x where "x = (24 + ucast ((blocks + 7) div 8) + ucast bs - 1 :: u64)"
  have "x div ucast bs = of_nat (map_blocks bs blocks)"
    unfolding word_arith_nat_div [of x] u s [folded x_def] map_blocks_def by (rule refl)
  then have "(24 + ucast ((blocks + 7) div 8) + ucast bs - 1) div ucast bs * ucast bs
      = (of_nat (map_blocks bs blocks * unat bs) :: u64)"
    unfolding x_def [symmetric] by simp
  then have "bitmap_length bs blocks = ucast (of_nat (map_blocks bs blocks * unat bs) :: u64)"
    by (simp only: bitmap_length_def)
  moreover have "unat (of_nat (map_blocks bs blocks * unat bs) :: u64) = map_blocks bs blocks * unat bs"
    by (rule of_nat_u64) (use m in simp)
  ultimately have "unat (bitmap_length bs blocks) = map_blocks bs blocks * unat bs"
    using m by (simp only: unat_ucast_down)
  then show ?thesis using b by (simp add: unat_div)
qed

lemma bytes_of_bits: "b mod 8 \<noteq> 0 \<Longrightarrow> 8 * ((b + 7) div 8 - 1) + b mod 8 = b \<and> 0 < (b + 7) div 8" for b :: nat
proof -
  assume h: "b mod 8 \<noteq> 0"
  define q r where "q = b div 8" and "r = b mod 8"
  have b: "8 * q + r = b" "0 < r" "r < 8" using h by (simp_all add: q_def r_def)
  have "(b + 7) div 8 = q + 1" using b by (intro div_nat_eqI) simp_all
  then show ?thesis unfolding r_def [symmetric] using b by simp
qed

lemma byte_bit_last:
  assumes "0 < r" "r < 8" "i < 8 * n" "0 < n"
  shows "byte_bit ((replicate n 0xFF)[n - 1 := drop_bit (8 - r) 0xFF]) i \<longleftrightarrow> i < 8 * (n - 1) + r"
proof -
  have ff: "(0xFF :: u8) = mask 8" by (simp add: mask_eq_exp_minus_1)
  have "i div 8 = n - 1 \<or> i div 8 < n - 1" using assms(3) by linarith
  then show ?thesis
  proof
    assume h: "i div 8 = n - 1"
    then have "i = 8 * (n - 1) + i mod 8" by (metis mult_div_mod_eq)
    moreover have "byte_bit ((replicate n 0xFF)[n - 1 := drop_bit (8 - r) 0xFF]) i \<longleftrightarrow> i mod 8 < r"
      using assms h by (auto simp: byte_bit_def ff bit_simps)
    ultimately show ?thesis by linarith
  next
    assume h: "i div 8 < n - 1"
    then have "i < 8 * (n - 1)" by linarith
    then show ?thesis using h assms by (simp add: byte_bit_def ff bit_simps)
  qed
qed

lemma space_bitmap_bits:
  assumes w: "bs \<noteq> 0" "unat bs \<le> 2 ^ 16" "unat blocks < 2 ^ 31" and room: "unat offset + map_blocks bs blocks \<le> unat blocks"
  shows "length (space_bitmap bs blocks offset) = map_bytes blocks"
    and "i < 8 * map_bytes blocks \<Longrightarrow> byte_bit (space_bitmap bs blocks offset) i
      \<longleftrightarrow> i < unat blocks \<and> \<not> (unat offset \<le> i \<and> i < unat offset + map_blocks bs blocks)"
proof -
  define n where "n = map_bytes blocks"
  define bm where "bm = (if blocks mod 8 \<noteq> 0 then (replicate n 0xFF)[n - 1 := drop_bit (unat (8 - blocks mod 8)) 0xFF]
    else replicate n (0xFF :: u8))"
  have eq: "space_bitmap bs blocks offset = clear_bits bm offset (map_blocks bs blocks)"
    unfolding space_bitmap_def Let_def map_bytes_word [OF w(3)] map_blocks_word [OF w] bm_def n_def by (rule refl)
  have l: "length bm = n" by (simp add: bm_def)
  show "length (space_bitmap bs blocks offset) = map_bytes blocks" by (simp add: eq l n_def)
  assume "i < 8 * map_bytes blocks"
  then have i: "i < 8 * n" by (simp add: n_def)
  have r: "unat (blocks mod 8) = unat blocks mod 8" by (simp add: unat_mod)
  have "byte_bit bm i \<longleftrightarrow> i < unat blocks"
  proof (cases "unat blocks mod 8 = 0")
    case True
    have ff: "(0xFF :: u8) = mask 8" by (simp add: mask_eq_exp_minus_1)
    have "blocks mod 8 = 0" using True r by (metis unsigned_eq_0_iff)
    moreover have "8 * n = unat blocks" using True by (simp add: n_def map_bytes_def) presburger
    moreover have "i div 8 < n" using i by linarith
    ultimately show ?thesis using i by (simp add: bm_def byte_bit_def ff bit_simps)
  next
    case False
    then have z: "blocks mod 8 \<noteq> 0" using r by (metis unsigned_0)
    have s: "unat (8 - blocks mod 8) = 8 - unat blocks mod 8"
      using r by (subst unat_sub) (simp_all add: word_le_nat_alt)
    have m: "8 * (n - 1) + unat blocks mod 8 = unat blocks" "0 < n"
      using bytes_of_bits [OF False] by (simp_all add: n_def map_bytes_def)
    have b: "bm = (replicate n 0xFF)[n - 1 := drop_bit (8 - unat blocks mod 8) 0xFF]"
      unfolding bm_def s using z by (simp only: not_False_eq_True if_True)
    have "0 < unat blocks mod 8" "unat blocks mod 8 < 8" using False by simp_all
    from byte_bit_last [OF this i m(2)] show ?thesis unfolding b by (simp only: m(1))
  qed
  moreover have "unat blocks \<le> 8 * n" unfolding n_def map_bytes_def by linarith
  ultimately show "byte_bit (space_bitmap bs blocks offset) i
      \<longleftrightarrow> i < unat blocks \<and> \<not> (unat offset \<le> i \<and> i < unat offset + map_blocks bs blocks)"
    using byte_bit_clear_bits [of offset "map_blocks bs blocks" bm i] room w(3) i l unfolding eq by auto
qed

section \<open>Allocations\<close>

lemma first_aligned_bound: "first_aligned bitmap nbits alignment start = Some b \<Longrightarrow> unat b < unat nbits"
  using unsigned_less [of nbits, where 'a = nat]
  by (auto simp: first_aligned_def Let_def unsigned_of_nat take_bit_nat_eq_self split: if_splits)

text \<open>C35: One block from a space bitmap of less than 2^31 bits: the search ends, whatever the bitmap holds, with
  the first free block from the start on that is a multiple of the alignment, and exits exactly when there is none.
  The allocation clears the bit of that block and no other, and leaves the head of the descriptor.\<close>

theorem single_block_is_first_fit:
  assumes "sz_align (sizing disc PSPACE_SIZE) \<noteq> 0" "unat (sz_align (sizing disc PSPACE_SIZE)) < 2 ^ 31"
    and n: "unat (rd32 (drop 16 sbd)) < 2 ^ 31" "unat (rd32 (drop 16 sbd)) \<le> 8 * length (drop 24 sbd)"
    and "unat start \<le> 2 ^ 31"
  shows "case first_aligned (drop 24 sbd) (rd32 (drop 16 sbd)) (sz_align (sizing disc PSPACE_SIZE)) start of
    None \<Rightarrow> udf_alloc_bitmap_blocks disc sbd start 1 = Some None
    | Some b \<Rightarrow> \<exists>sbd'. udf_alloc_bitmap_blocks disc sbd start 1 = Some (Some (b, sbd')) \<and> take 24 sbd' = take 24 sbd
        \<and> (\<forall>i < 8 * length (drop 24 sbd). byte_bit (drop 24 sbd') i \<longleftrightarrow> byte_bit (drop 24 sbd) i \<and> i \<noteq> unat b)"
proof -
  note found = alloc_search_one [OF assms]
  show ?thesis
  proof (cases "first_aligned (drop 24 sbd) (rd32 (drop 16 sbd)) (sz_align (sizing disc PSPACE_SIZE)) start")
    case (Some b)
    define sbd' where "sbd' = take 24 sbd @ clear_bits (drop 24 sbd) b 1"
    have b: "unat b < unat (rd32 (drop 16 sbd))" by (rule first_aligned_bound [OF Some])
    then have l: "length (take 24 sbd) = 24" using n(2) by simp
    have "udf_alloc_bitmap_blocks disc sbd start 1 = Some (Some (b, sbd'))"
      by (simp add: udf_alloc_bitmap_blocks_def found Some sbd'_def del: clear_bits.simps)
    moreover have "take 24 sbd' = take 24 sbd" "drop 24 sbd' = clear_bits (drop 24 sbd) b 1"
      using l by (simp_all add: sbd'_def del: clear_bits.simps)
    moreover have "byte_bit (clear_bits (drop 24 sbd) b 1) i \<longleftrightarrow> byte_bit (drop 24 sbd) i \<and> i \<noteq> unat b"
      if "i < 8 * length (drop 24 sbd)" for i
      using byte_bit_clear_bits [of b 1 "drop 24 sbd" i] that b n by auto
    ultimately show ?thesis unfolding Some option.case by (intro exI [of _ sbd'] conjI allI impI) simp_all
  qed (simp add: udf_alloc_bitmap_blocks_def found)
qed

definition fit_disc :: udf_disc where
  "fit_disc = stick_disc 4096\<lparr>sizing := (\<lambda>_. \<lparr>sz_align = 4, sz_numSize = 1, sz_denomSize = 1, sz_minSize = 0\<rparr>)\<rparr>"

definition fit_sbd :: bytes where
  "fit_sbd = replicate 16 0 @ le32 16 @ le32 2 @ [0x05, 0xF0]"

lemma fit_sbd: "drop 24 fit_sbd = [0x05, 0xF0]" "rd32 (drop 16 fit_sbd) = 16" "length fit_sbd = 26"
  by (simp_all add: fit_sbd_def)

lemma single_block_is_first_fit_witness:
  "\<exists>sbd. udf_alloc_bitmap_blocks fit_disc fit_sbd 1 1 = Some (Some (12, sbd))"
proof -
  have "first_aligned [0x05, 0xF0] 16 4 1 = Some 12" by code_simp
  moreover have "sz_align (sizing fit_disc PSPACE_SIZE) = 4" by (simp add: fit_disc_def)
  ultimately show ?thesis using single_block_is_first_fit [of fit_disc fit_sbd 1] unfolding fit_sbd by auto
qed

lemma alloc_search_stuck:
  assumes "alloc_search bitmap nbits alignment blocks start = Some y"
    and "align_up start alignment = start" "free_run bitmap nbits start = (start, e)" "e - start < blocks"
    and "alignment \<noteq> 0" "start + blocks \<le> nbits"
  shows False
proof -
  define stuck where "stuck b n a k s \<longleftrightarrow> align_up s a = s \<and> free_run b n s = (s, e) \<and> e - s < k \<and> a \<noteq> 0 \<and> s + k \<le> n"
    for b and n a k s :: u32
  have "\<not> stuck bitmap nbits alignment blocks start"
  proof (rule alloc_search.raw_induct [where P = "\<lambda>b n a k s y. \<not> stuck b n a k s", OF _ assms(1)])
    fix f :: "bytes \<Rightarrow> u32 \<Rightarrow> u32 \<Rightarrow> u32 \<Rightarrow> u32 \<Rightarrow> u32 option option" and b n a k s y
    assume f: "\<And>b n a k s y. f b n a k s = Some y \<Longrightarrow> \<not> stuck b n a k s"
      and r: "(if a = 0 \<or> n < align_up s a + k then Some None
        else let (start, stop) = free_run b n (align_up s a)
             in if stop - start < k then f b n a k start else Some (Some start)) = Some y"
    show "\<not> stuck b n a k s"
    proof
      assume "stuck b n a k s"
      then have "f b n a k s = Some y" using r by (simp add: stuck_def leD)
      then show False using f \<open>stuck b n a k s\<close> by blast
    qed
  qed
  then show False using assms(2-) by (simp add: stuck_def)
qed

text \<open>C36: The search for two or more blocks does not end when it starts at a free block that is aligned and a
  multiple of 32, the blocks asked for from there lie inside the bitmap, and one of them is in use: the loop
  takes up the same short run again, and never a longer one behind it.\<close>

theorem short_run_is_searched_forever:
  fixes start :: u32
  assumes al: "sz_align (sizing disc PSPACE_SIZE) \<noteq> 0" "unat (sz_align (sizing disc PSPACE_SIZE)) < 2 ^ 31"
    "unat (sz_align (sizing disc PSPACE_SIZE)) dvd unat start" "32 dvd unat start"
    and n: "unat (rd32 (drop 16 sbd)) < 2 ^ 31" "unat (rd32 (drop 16 sbd)) \<le> 8 * length (drop 24 sbd)"
    and run: "unat start + unat blocks \<le> unat (rd32 (drop 16 sbd))" "byte_bit (drop 24 sbd) (unat start)"
    "unat start < j" "j < unat start + unat blocks" "\<not> byte_bit (drop 24 sbd) j"
  shows "udf_alloc_bitmap_blocks disc sbd start blocks = None"
proof -
  let ?bm = "drop 24 sbd" and ?n = "rd32 (drop 16 sbd)" and ?al = "sz_align (sizing disc PSPACE_SIZE)"
  have a: "align_up start ?al = start"
  proof -
    obtain q where q: "unat start = unat ?al * q" using al(3) by blast
    have p: "0 < unat ?al" using al(1) by (simp add: unat_gt_0)
    have "unat (align_up start ?al) = (unat start + unat ?al - 1) div unat ?al * unat ?al"
      using al(1,2) run(1) n(1) by (intro unat_align_up) auto
    also have "(unat start + unat ?al - 1) div unat ?al = q" using p by (intro div_nat_eqI) (simp_all add: q)
    finally show ?thesis using q by (metis mult.commute unsigned_word_eqI)
  qed
  have sum: "unat (start + blocks) = unat start + unat blocks"
    using run(1) n(1) by (intro trans [OF unat_add_lem [THEN iffD1]]) simp_all
  have u: "unat (ucast ?n :: u64) = unat ?n" "unat (ucast start :: u64) = unat start" by (transfer, simp)+
  define e where "e = next_bit (\<lambda>i. \<not> byte_bit ?bm i) (unat start) (unat ?n)"
  have "unat (udf_find_next_zero_bit ?bm (ucast ?n) (ucast start)) = e"
    using zero_bit_scan [of "ucast ?n" ?bm "ucast start", unfolded u, OF n] al(4) by (simp add: e_def)
  moreover have e: "e \<le> j" "unat start \<le> e"
    using next_bit_before [of "unat start" j "\<lambda>i. \<not> byte_bit ?bm i" "unat ?n"] run
      next_bit_le [of "unat start" "unat ?n" "\<lambda>i. \<not> byte_bit ?bm i"] by (fastforce simp: e_def)+
  ultimately have z: "unat (ucast (udf_find_next_zero_bit ?bm (ucast ?n) (ucast start)) :: u32) = e"
    using run n(1) by (subst unat_ucast_down) auto
  obtain x where x: "free_run ?bm ?n start = (start, x)" "unat x = e"
    using run(2) z unfolding free_run_def bitmap_test by simp
  have "x - start < blocks" using x(2) e run(4) by (simp add: word_less_nat_alt unat_sub word_le_nat_alt)
  moreover have "start + blocks \<le> ?n" using sum run(1) by (simp add: word_le_nat_alt)
  ultimately have "alloc_search ?bm ?n ?al blocks start \<noteq> Some y" for y
    using alloc_search_stuck [of ?bm ?n ?al blocks start y x] a x(1) al(1) by blast
  then have "alloc_search ?bm ?n ?al blocks start = None" by (meson not_None_eq)
  then show ?thesis by (simp add: udf_alloc_bitmap_blocks_def)
qed

text \<open>Blocks 0, 2 and 3 of 8 are free: two blocks from 0 on are there, and the search for them does not end.\<close>

lemma short_run_is_searched_forever_witness:
  "udf_alloc_bitmap_blocks fit_disc (replicate 16 0 @ le32 8 @ le32 1 @ [0x0D]) 0 2 = None"
  by (rule short_run_is_searched_forever [where j = 1]) (simp_all add: fit_disc_def byte_bit_def bit_iff_odd)

section \<open>The first block behind the bitmap\<close>

lemma setup_space_bitmap_map:
  assumes w: "unat (ext_blocks pspace) < 2 ^ 31" and none: "ext_descs pspace = []"
  obtains t where "length t = 16"
    "setup_space_bitmap True offset disc pspace = Some (pspace\<lparr>ext_descs := [one_desc TAG_IDENT_SBD offset
       (t @ le32 (ext_blocks pspace) @ le32 (of_nat (map_bytes (ext_blocks pspace)))
         @ space_bitmap (blocksize disc) (ext_blocks pspace) offset)]\<rparr>)"
    "valid_desc TAG_IDENT_SBD offset
       (t @ le32 (ext_blocks pspace) @ le32 (of_nat (map_bytes (ext_blocks pspace)))
         @ space_bitmap (blocksize disc) (ext_blocks pspace) offset)"
proof -
  let ?B = "ext_blocks pspace" and ?bits = "space_bitmap (blocksize disc) (ext_blocks pspace) offset"
  define body where "body = le32 ?B @ le32 (of_nat (map_bytes ?B))"
  define t where "t = checked_tag TAG_IDENT_SBD (udf_rev disc) 1 (udf_crc body 0) (of_nat (length body)) offset"
  define n where "n = 24 + map_bytes ?B"
  have n: "n < 2 ^ 31" using w by (simp add: n_def map_bytes_def)
  have nb: "(?B + 7) div 8 = of_nat (map_bytes ?B)" using map_bytes_word [OF w] by (metis of_nat_unat ucast_id)
  have len: "length ?bits = map_bytes ?B"
    by (simp add: space_bitmap_def Let_def nb unat_of_nat_u32 map_bytes_word [OF w, unfolded nb])
  have "24 + of_nat (map_bytes ?B) = (of_nat n :: u32)" by (simp add: n_def)
  then have d: "set_desc True [] TAG_IDENT_SBD offset (24 + of_nat (map_bytes ?B)) None
      = Some (0, [one_desc TAG_IDENT_SBD offset (replicate n 0)])"
    using set_desc_end [of "[]" offset n TAG_IDENT_SBD] n by simp
  have tag: "udf_query_tag (udf_rev disc) TAG_IDENT_SBD 1 offset
      [\<lparr>data_buffer = replicate 16 0 @ body @ ?bits, data_length = of_nat n\<rparr>] 0 24 = Some t"
  proof -
    have "unat (of_nat n :: u64) = n" using n by (intro of_nat_u64) simp
    then have "n = 24 \<or> (24 :: u64) < of_nat n" by (auto simp: word_less_nat_alt n_def)
    then have "data_crc_upto [\<lparr>data_buffer = replicate 16 0 @ body @ ?bits, data_length = of_nat n\<rparr>] 0 TAG_SIZE 24 0
        = Some (udf_crc body 0)"
      by (elim disjE) (simp_all add: TAG_SIZE_def seg_def body_def)
    then show ?thesis by (simp add: udf_query_tag_def t_def body_def)
  qed
  have "valid_desc TAG_IDENT_SBD offset (t @ body)"
    unfolding t_def by (rule checked_tag_valid) (simp add: body_def)
  then have v: "valid_desc TAG_IDENT_SBD offset (t @ body @ ?bits)"
    using valid_desc_append [of TAG_IDENT_SBD offset "t @ body" ?bits] by (simp add: t_def)
  show thesis
  proof (rule that)
    show "length t = 16" by (simp add: t_def)
    show "valid_desc TAG_IDENT_SBD offset (t @ le32 ?B @ le32 (of_nat (map_bytes ?B)) @ ?bits)" using v by (simp add: body_def)
    show "setup_space_bitmap True offset disc pspace = Some (pspace\<lparr>ext_descs := [one_desc TAG_IDENT_SBD offset
       (t @ le32 ?B @ le32 (of_nat (map_bytes ?B)) @ ?bits)]\<rparr>)"
      using tag len unfolding setup_space_bitmap_def Let_def none nb d
      by (simp add: one_desc_def body_def n_def t_def)
  qed
qed

text \<open>Disc and volume after \<open>setup_space\<close> at the start of a partition without descriptors, described by a bitmap of
  unallocated blocks.\<close>

lemma setup_space_unalloc_bitmap:
  assumes f: "flagged disc FLAG_UNALLOC_BITMAP" "\<not> flagged disc FLAG_FREED_BITMAP" "\<not> flagged disc FLAG_FREED_TABLE"
    and m: "mem (extents disc) 0" and i: "i < length (extents disc)" "ext_descs (extents disc ! i) = []"
    and w: "blocksize disc \<noteq> 0" "unat (ext_blocks (extents disc ! i)) < 2 ^ 31"
  obtains t where "length t = 16"
    "setup_space mem i 0 v disc = Some
       (v\<lparr>vol_pd := patch PHD_UNALLOC_BITMAP (sad_bytes (bitmap_length (blocksize disc) (ext_blocks (extents disc ! i))) 0) (vol_pd v)\<rparr>,
        take_free (bitmap_length (blocksize disc) (ext_blocks (extents disc ! i)) div blocksize disc) disc\<lparr>extents :=
          (extents disc)[i := (extents disc ! i)\<lparr>ext_descs := [one_desc TAG_IDENT_SBD 0
            (t @ le32 (ext_blocks (extents disc ! i)) @ le32 (of_nat (map_bytes (ext_blocks (extents disc ! i))))
             @ space_bitmap (blocksize disc) (ext_blocks (extents disc ! i)) 0)]\<rparr>]\<rparr>)"
proof -
  let ?d = "take_free (bitmap_length (blocksize disc) (ext_blocks (extents disc ! i)) div blocksize disc) disc"
  have d: "extents ?d = extents disc" "blocksize ?d = blocksize disc" "flagged ?d x = flagged disc x" for x
    by (simp_all add: take_free_def flagged_def)
  obtain t where t: "length t = 16" "setup_space_bitmap True 0 ?d (extents disc ! i) = Some ((extents disc ! i)\<lparr>ext_descs :=
      [one_desc TAG_IDENT_SBD 0 (t @ le32 (ext_blocks (extents disc ! i)) @ le32 (of_nat (map_bytes (ext_blocks (extents disc ! i))))
        @ space_bitmap (blocksize ?d) (ext_blocks (extents disc ! i)) 0)]\<rparr>)"
    using setup_space_bitmap_map [OF w(2) i(2), of 0 ?d] by blast
  show thesis
    by (rule that [OF t(1)]) (simp add: setup_space_def point_to_space_def space_field_def f m w(1) d t(2) Let_def)
qed

text \<open>The first block found in a fresh bitmap.\<close>

lemma first_aligned_space_bitmap:
  assumes w: "bs \<noteq> 0" "unat bs \<le> 2 ^ 16" "unat blocks < 2 ^ 31" and al: "alignment \<noteq> 0"
    and b: "b = (max (map_blocks bs blocks) (unat start) + unat alignment - 1) div unat alignment * unat alignment"
    and room: "b < unat blocks"
  shows "unat start \<le> b" "map_blocks bs blocks \<le> b" "length (space_bitmap bs blocks 0) = map_bytes blocks"
    "j < 8 * map_bytes blocks \<Longrightarrow> byte_bit (space_bitmap bs blocks 0) j \<longleftrightarrow> j < unat blocks \<and> map_blocks bs blocks \<le> j"
    "first_aligned (space_bitmap bs blocks 0) blocks alignment start = Some (of_nat b)"
proof -
  let ?bm = "space_bitmap bs blocks 0" and ?n = "map_blocks bs blocks"
  have a: "0 < unat alignment" using al by (simp add: unat_gt_0)
  note m = first_multiple [OF a, of "max ?n (unat start)", folded b]
  show "unat start \<le> b" "?n \<le> b" using m(2) by simp_all
  have bits: "length ?bm = map_bytes blocks"
    "j < 8 * map_bytes blocks \<Longrightarrow> byte_bit ?bm j \<longleftrightarrow> j < unat blocks \<and> ?n \<le> j" for j
    using space_bitmap_bits(1) [OF w, of 0] space_bitmap_bits(2) [OF w, of 0 j] m(2) room by auto
  show "length ?bm = map_bytes blocks"
    "j < 8 * map_bytes blocks \<Longrightarrow> byte_bit ?bm j \<longleftrightarrow> j < unat blocks \<and> ?n \<le> j" by (rule bits(1), rule bits(2))
  have within: "unat blocks \<le> 8 * map_bytes blocks" unfolding map_bytes_def by linarith
  have "next_bit (\<lambda>j. byte_bit ?bm j \<and> unat alignment dvd j) (unat start) (unat blocks) = b"
  proof (rule next_bit_eqI)
    show "\<not> (byte_bit ?bm j \<and> unat alignment dvd j)" if "unat start \<le> j" "j < b" for j
      using m(4) [of j] that bits(2) [of j] within room by (cases "?n \<le> j") auto
    show "byte_bit ?bm b \<and> unat alignment dvd b" using m bits(2) [of b] within room by simp
  qed (use m room in auto)
  then show "first_aligned ?bm blocks alignment start = Some (of_nat b)" using room by (simp add: first_aligned_def)
qed

text \<open>C34: A partition of less than 2^31 blocks whose free space \<open>setup_space\<close> describes by a bitmap at its start: the
  first block allocated is the first aligned one behind the blocks of the bitmap itself, and the count of free
  blocks is less by these blocks and that one. Afterwards the bitmap has a one for every other block of the partition
  behind itself, and for none outside of it.\<close>

theorem first_block_is_behind_the_bitmap:
  fixes start :: u32
  assumes f: "flagged disc FLAG_UNALLOC_BITMAP" "\<not> flagged disc FLAG_FREED_BITMAP" "\<not> flagged disc FLAG_FREED_TABLE"
    and m: "mem (extents disc) 0" and i: "i < length (extents disc)" "ext_descs (extents disc ! i) = []"
    and w: "blocksize disc \<noteq> 0" "unat (blocksize disc) \<le> 2 ^ 16" "unat (ext_blocks (extents disc ! i)) < 2 ^ 31"
    and al: "sz_align (sizing disc PSPACE_SIZE) \<noteq> 0" "unat (sz_align (sizing disc PSPACE_SIZE)) < 2 ^ 31"
    and lens: "72 \<le> length (vol_pd v)" "4 \<le> length (lvid_tables disc)"
    and defs: "n = map_blocks (blocksize disc) (ext_blocks (extents disc ! i))" "a = unat (sz_align (sizing disc PSPACE_SIZE))"
      "b = (max n (unat start) + a - 1) div a * a"
    and room: "b < unat (ext_blocks (extents disc ! i))"
  shows "\<exists>v' d p d' sbd. setup_space mem i 0 v disc = Some (v', d)
    \<and> udf_alloc_blocks v' (extents d ! i) start 1 vat d = Some (Some (of_nat b, vat, p, d'))
    \<and> rd32 (lvid_tables d') = rd32 (lvid_tables disc) - (of_nat n + 1)
    \<and> map desc_data (ext_descs p) = [[\<lparr>data_buffer = sbd, data_length = of_nat (length sbd)\<rparr>]]
    \<and> (\<forall>j < 8 * length (drop 24 sbd). byte_bit (drop 24 sbd) j \<longleftrightarrow> n \<le> j \<and> j \<noteq> b \<and> j < unat (ext_blocks (extents disc ! i)))"
proof -
  let ?p = "extents disc ! i" and ?al = "sz_align (sizing disc PSPACE_SIZE)"
  let ?bm = "space_bitmap (blocksize disc) (ext_blocks ?p) 0" and ?len = "bitmap_length (blocksize disc) (ext_blocks ?p)"
  obtain t where t: "length t = 16" "setup_space mem i 0 v disc = Some
       (v\<lparr>vol_pd := patch PHD_UNALLOC_BITMAP (sad_bytes ?len 0) (vol_pd v)\<rparr>,
        take_free (?len div blocksize disc) disc\<lparr>extents := (extents disc)[i := ?p\<lparr>ext_descs := [one_desc TAG_IDENT_SBD 0
            (t @ le32 (ext_blocks ?p) @ le32 (of_nat (map_bytes (ext_blocks ?p))) @ ?bm)]\<rparr>]\<rparr>)"
    using setup_space_unalloc_bitmap [where disc = disc and mem = mem and i = i and v = v, OF f m i w(1,3)] by blast
  define sbd where "sbd = t @ le32 (ext_blocks ?p) @ le32 (of_nat (map_bytes (ext_blocks ?p))) @ ?bm"
  define v' where "v' = v\<lparr>vol_pd := patch PHD_UNALLOC_BITMAP (sad_bytes ?len 0) (vol_pd v)\<rparr>"
  define d where "d = take_free (?len div blocksize disc) disc\<lparr>extents := (extents disc)[i := ?p\<lparr>ext_descs := [one_desc TAG_IDENT_SBD 0 sbd]\<rparr>]\<rparr>"
  have sbd: "drop 24 sbd = ?bm" "rd32 (drop 16 sbd) = ext_blocks ?p" "take 24 sbd = t @ le32 (ext_blocks ?p) @ le32 (of_nat (map_bytes (ext_blocks ?p)))"
    using t(1) by (simp_all add: sbd_def)
  note b = first_aligned_space_bitmap [OF w al(1), folded defs(1,2), OF defs(3) room]
  have within: "unat (ext_blocks ?p) \<le> 8 * map_bytes (ext_blocks ?p)" unfolding map_bytes_def by linarith
  have ub: "unat (of_nat b :: u32) = b" using room w(3) by (intro unat_of_nat_u32) simp
  define out where "out = take 24 sbd @ clear_bits ?bm (of_nat b) 1"
  have pos: "phd_position PHD_UNALLOC_BITMAP v' = 0"
    using lens(1) by (simp add: phd_position_def v'_def PHD_UNALLOC_BITMAP_def patch_def sad_bytes_def)
  have d: "extents d ! i = ?p\<lparr>ext_descs := [one_desc TAG_IDENT_SBD 0 sbd]\<rparr>" "flagged d x = flagged disc x" "sizing d = sizing disc" for x
    using i(1) by (simp_all add: d_def take_free_def flagged_def)
  have alloc: "udf_alloc_bitmap_blocks (take_free 1 d) sbd start 1 = Some (Some (of_nat b, out))"
  proof -
    have "unat start \<le> 2 ^ 31" using b(1) room w(3) by linarith
    then have "alloc_search ?bm (ext_blocks ?p) ?al 1 start = Some (Some (of_nat b))"
      using alloc_search_one [of ?al "ext_blocks ?p" ?bm start] al w(3) within b(3,5) by simp
    then show ?thesis using d(3) by (simp add: udf_alloc_bitmap_blocks_def sbd take_free_def out_def del: clear_bits.simps)
  qed
  let ?q = "?p\<lparr>ext_descs := [(one_desc TAG_IDENT_SBD 0 sbd)\<lparr>desc_data := [\<lparr>data_buffer = out, data_length = of_nat (length sbd)\<rparr>]\<rparr>]\<rparr>"
  have find: "find_desc [x] 0 = Some 0" for x by (simp add: find_desc_def find_desc_from.simps)
  have "flagged (take_free 1 d) x = flagged disc x" for x using d(2) [of x] by (simp add: take_free_def flagged_def)
  then have run: "udf_alloc_blocks v' (extents d ! i) start 1 vat d = Some (Some (of_nat b, vat, ?q, take_free 1 d))"
    by (simp add: udf_alloc_blocks_def Let_def f d(1) alloc_in_def pos find alloc one_desc_def)
  have cnt: "rd32 (lvid_tables (take_free 1 d)) = rd32 (lvid_tables disc) - (of_nat n + 1)"
  proof -
    have "?len div blocksize disc = of_nat n" using bitmap_length_blocks [OF w] by (metis defs(1) of_nat_unat ucast_id)
    then show ?thesis using lens(2) by (simp add: d_def take_free_def patch_def)
  qed
  have l: "length out = length sbd" "drop 24 out = clear_bits ?bm (of_nat b) 1"
    using sbd(1) t(1) by (simp_all add: out_def sbd_def del: clear_bits.simps)
  have free: "byte_bit (drop 24 out) j \<longleftrightarrow> n \<le> j \<and> j \<noteq> b \<and> j < unat (ext_blocks ?p)" if "j < 8 * length (drop 24 out)" for j
    using byte_bit_clear_bits [of "of_nat b" 1 ?bm j] that b(4) [of j] b(3) within room w(3) unfolding l ub by auto
  show ?thesis
    using t(2) run cnt free l(1) unfolding v'_def [symmetric] sbd_def [symmetric] d_def [symmetric]
    by (intro exI [of _ v'] exI [of _ d] exI [of _ ?q] exI [of _ "take_free 1 d"] exI [of _ out]) simp
qed

text \<open>The partition of a stick of 64 MB in the plan of \<open>split_space\<close>: the bitmap takes 32 blocks, and with
  packets of 64 blocks the first block allocated is 64.\<close>

lemma first_block_is_behind_the_bitmap_witness:
  "\<exists>v' d p d'. setup_space (\<lambda>_ _. True) 9 0 stick_vol ((stick_disc 131072)\<lparr>extents := udf_layout 131072\<rparr>) = Some (v', d)
    \<and> udf_alloc_blocks v' (extents d ! 9) 0 1 [] d = Some (Some (64, [], p, d'))"
proof -
  let ?d = "(stick_disc 131072)\<lparr>extents := udf_layout 131072\<rparr>"
  have s: "blocksize ?d = 512" "extents ?d ! 9 = xt PSPACE 320 130432" "sz_align (sizing ?d PSPACE_SIZE) = 64"
    "lvid_tables ?d = replicate 8 0" "9 < length (extents ?d)"
    by (simp_all add: stick_disc_def with_packetlen_def default_sizing_hd_def layout_nth udf_pspace_def layout_length rvds_at_def)
  have f: "flagged ?d FLAG_UNALLOC_BITMAP" "\<not> flagged ?d FLAG_FREED_BITMAP" "\<not> flagged ?d FLAG_FREED_TABLE"
    by (simp_all add: stick_disc_def flagged_def udf_flags FLAG_FREED_BITMAP_def FLAG_FREED_TABLE_def)
  have p: "ext_descs (extents ?d ! 9) = []" "unat (ext_blocks (extents ?d ! 9)) = 130432"
    unfolding s by (simp_all add: xt_def new_extent_def)
  have n: "map_blocks (blocksize ?d) (ext_blocks (extents ?d ! 9)) = 32"
    unfolding s by (simp add: map_blocks_def map_bytes_def xt_def new_extent_def)
  have w: "blocksize ?d \<noteq> 0" "unat (blocksize ?d) \<le> 2 ^ 16" "unat (ext_blocks (extents ?d ! 9)) < 2 ^ 31"
    "sz_align (sizing ?d PSPACE_SIZE) \<noteq> 0" "unat (sz_align (sizing ?d PSPACE_SIZE)) < 2 ^ 31"
    "72 \<le> length (vol_pd stick_vol)" "4 \<le> length (lvid_tables ?d)" "64 = unat (sz_align (sizing ?d PSPACE_SIZE))"
    "64 < unat (ext_blocks (extents ?d ! 9))"
    using p(2) unfolding s by (simp_all add: stick_vol_def)
  have b: "64 = (max 32 (unat (0 :: u32)) + 64 - 1) div 64 * (64 :: nat)" by simp
  from first_block_is_behind_the_bitmap [where mem = "\<lambda>_ _. True" and vat = "[]", OF f TrueI s(5) p(1) w(1-7) n [symmetric] w(8) b w(9)]
  show ?thesis unfolding of_nat_numeral by blast
qed

end
