(* ===== verification/Spec2Isabelle.thy ===== *)
theory Spec2Isabelle
  imports StickMounts BridgeProps UdfProps UdfRecog UdfAlloc
begin

text \<open>
  FormatStickPro formats USB sticks from an Android app. Its native part (src/app/src/main/cpp)
  drives the stick itself, over libusb, and runs the formatters of eight file systems on that
  driver. This development models what is the program's own: the driver, the partition tables, the
  FAT formatter, the exFAT formatter and library as they are compiled in, the bridges to the other
  formatters, and the run that composes them.

  The parts and how they interact. \<open>startStableFormat\<close> (native-lib.cpp, theory FormatApp) binds the
  driver to the stick, chooses the size of the partition, erases old tables, writes the new one,
  moves the driver's window to the partition, erases its head, calls one formatter, flushes, closes the
  device and leaves libusb.
  The driver (usb_scsi.cpp, theories Scsi and ScsiDev) turns byte-granular reads and writes within
  the window into READ(10) and WRITE(10) commands of the Bulk-Only Transport, with a write-back
  cache of 2048 sectors. The partition tables (usb_scsi.cpp, theory Partition) go past that cache.
  The FAT formatter (usb_scsi.cpp, theory FatFormat) writes through it; so does exFAT, by the
  bridge (exfat_bridge.cpp, theories ExfatBridge and ExfatStickMount), and so do the formatters of
  other projects, by the bridges and redirected calls of theory FormatBridges.

  State and effects. The driver's static variables are the record \<open>'w drv\<close> (theory Scsi); libusb with
  the stick behind it is the parameter \<open>'w usb\<close>, whose transfers map the state \<open>'w\<close> of the outside
  world to a return code, the bytes received and the next world. Every operation passes the record
  on. Errors are the integers of the source, \<open>errcode\<close>, \<open>errno\<close>, or sums; an operation that may not
  return has an \<open>option\<close> result, in which \<open>None\<close> is a call that does not return. Fixed-width
  integers are words wherever the source lets them wrap; off_t and int64_t offsets are \<open>int\<close>.

  Theories and sources:
  \<^item> Prelude: byte buffers, little and big endian encodings, media as functions from addresses
    to bytes.
  \<^item> Scsi, ScsiDev: the driver. ScsiSpec: the contract of a stick, locale \<open>bot_device\<close>, and the
    lemmas on one command, locale \<open>scsi_disk\<close>. ScsiIo: the cache and the two transfer loops against
    the flat medium \<open>disk_view\<close> (the sectors of the stick under the cached run), under the invariant
    \<open>disk_inv\<close>. ScsiStick: a stick that meets the contract, so that no locale is empty. ScsiProps,
    DriverRun: reads, writes, flushes, and whole runs of operations as runs of a plain file.
  \<^item> Partition, PartitionSpec, PartitionProps: CRC-32, GUID table, master boot record, erasing.
  \<^item> FatFormat, FatProps: \<open>usb_scsi_format_fat\<close>.
  \<^item> ExfatUpcaseTable (uctc.c), ExfatMkfs (mkexfat.c, vbr.c, fat.c, cbm.c, uct.c, rootdir.c): the
    exFAT formatter over a record of device operations. ExfatMkfsSpec: the image it should write, as
    a function, and the contract of its device, locale \<open>byte_device\<close>. ExfatLayout, ExfatImage: where
    the objects lie, that they do not overlap, and that \<open>mkfs\<close> writes exactly that image. ExfatVbr:
    what the boot record says of it. ExfatFaults: \<open>mkfs\<close> on a device that may fail, locale
    \<open>confined_device\<close>, which every \<open>byte_device\<close> is. ExfatBridge: the bridge meets \<open>byte_device\<close>.
  \<^item> ExfatUtf (utf.c), ExfatTime (time.c), ExfatUtils (utils.c): conversions and checksums.
  \<^item> ExfatFs (exfatfs.h, exfat.h), ExfatCore, ExfatCluster (cluster.c), ExfatNode and ExfatDir
    (node.c), ExfatRw (io.c, repair.c), ExfatLookup (lookup.c), ExfatMount (mount.c): the exFAT
    library, with nodes in a store addressed by number. ExfatAlloc, ExfatEntries, ExfatNames: its
    allocator, entry sets and names. ExfatVolume, ExfatFormatted, ExfatMountable, ExfatRoot,
    ExfatBitmap, ExfatStickMount: that the library mounts what the formatter wrote.
  \<^item> FormatBridges (ext_bridge.cpp, f2fs_bridge.cpp, udf_bridge.cpp, xfs_bridge.cpp and the places
    in the bundled formatters that the app redirects), BridgeProps.
  \<^item> UdfExtents (libudffs/extent.c), UdfProps: the space map mkudffs plans a volume with, as a list of
    extents that tile the disc.
  \<^item> The rest of mkudffs, but for the files inside the partition. UdfCrc (libudffs/crc.c, the tags of
    mkudffs/file.c): checksums and tags, and what a reader checks of them. UdfDisc (mkudffs.c:
    \<open>split_space\<close>, \<open>setup_vrs\<close>, \<open>setup_anchor\<close>; types of libudffs.h) and UdfVds (mkudffs.c: \<open>setup_mbr\<close>,
    \<open>setup_vds\<close>): the plan of the volume, over a record \<open>udf_disc\<close> with the extents and a record
    \<open>udf_vol\<close> with the descriptors as bytes. UdfLayout: the plan for a stick. UdfWrite (mkudffs/main.c:
    \<open>write_func\<close>; mkudffs.c: \<open>write_disc\<close>), UdfVolume: what it leaves on the stick. UdfSequences,
    UdfRecog: that a formatted stick is a UDF volume. UdfBits (mkudffs/file.h and the bit searches of
    mkudffs/file.c), UdfSpace (mkudffs.c: \<open>setup_space\<close>; mkudffs/file.c: \<open>udf_alloc_blocks\<close>), UdfAlloc:
    the description of free space in the partition, and allocations from it.
  \<^item> FormatApp (native-lib.cpp), FormatProps: the whole run. StickMounts: from it to the mounted volume.

  What the lemmas show. On every stick that obeys \<open>bot_device\<close>, the driver is a plain file:
  positioned and sequential operations return, give the bytes of the flat medium and change exactly
  the bytes named, in any order; a flush makes them durable. Refinement goes from the driver by
  \<open>byte_device\<close> to the exFAT image, from there to the boot record, bitmap and FAT that describe it,
  and to \<open>exfat_mount\<close>, which succeeds on it. The tables are valid, in both copies, and the whole run
  leaves a stick that has both a table and a volume, for exFAT with a GUID table and for FAT32 with
  a master boot record; an exFAT stick that was closed by the run and plugged in again mounts. The FAT
  formatter leaves a volume that its boot sector describes, and touches nothing else but the type of the
  partition; \<open>mkfs\<close> keeps inside its volume even on a device that fails. Setting an
  extent of a UDF space map changes the kind of exactly the blocks named; \<open>split_space\<close> tiles the stick
  as planned, \<open>write_disc\<close> leaves every descriptor of the plan at its block and nothing else changed, and together with the
  descriptors they make a volume whose recognition sequence, anchors and descriptor sequences a reader
  finds, tags and checksums included. The first block allocated in its partition is the one behind
  the space bitmap. Where the code does not do
  what it means to, a theorem says what it does instead: lost writes when a flush fails, writes of
  4 GiB, FAT volumes longer than their partition, clusters without a FAT entry, a fill operation
  that does not reach the stick, room found behind a short extent, descriptors out of order, a search for free
  blocks that does not end.

  Bounds and fuel. The transfer loops of the driver, the zero loop of the FAT formatter and the
  walks of the exFAT library along chains it reads from the disk are
  \<open>partial_function (option)\<close>, with lemmas that the first two return; so are the searches of mkudffs for
  free blocks in a bitmap or table, of which the first returns for single blocks and not always for more.
  Loops over words are \<open>function\<close>s with a measure, and counted loops recurse on the count of the source. \<open>bits_loop\<close>
  has fuel 31, the width of the \<open>int\<close> it compares with. The theorems on sticks ask for sectors of
  512 bytes and a capacity of at most \<open>2 ^ 32\<close> sectors, what READ(10) and WRITE(10) can address,
  and for requests below 4 GiB; a write of 4 GiB never succeeds.

  Not modelled: the Kotlin user interface and service, reports to it, and logging, which touch
  neither the stick nor the result of the run; libusb; the formatters of ntfs-3g, e2fsprogs,
  f2fs-tools, udftools and xfsprogs, bundled third-party projects that are parameters of
  \<open>run_formatter\<close>, but for mkudffs and the calls redirected to the driver; of mkudffs the options and the
  contents they give to descriptors (names, time stamps), unicode.c, and the file set, root directory
  and files it puts into the partition, which the property of a formatted stick takes as any
  change to the partition's descriptors that stays in its extent; \<open>unsigned long\<close> has 64 bits, as on
  64-bit devices; of the exFAT sources the opening of device files of the host and the command line
  of mkfs, which the app does not use.
\<close>

end
